(* ===== verification/Qc_Prelude.thy ===== *)
theory Qc_Prelude
  imports Main "HOL-Library.Word" "HOL-Library.Monad_Syntax"
begin

text \<open>
  What the component theories share: the C types, memory as byte lists with checked access,
  the return codes of \<^verbatim>\<open>exports/qcloud_iot_export_error.h\<close>, and two interfaces as locales:
  operations that write bytes at a cursor (\<open>cursor_writer\<close>) and self-delimiting
  encodings (\<open>prefix_codec\<close>).

  Conventions of the whole development:
  \<^item> \<open>None\<close> is an execution with no defined result: an access outside the object (undefined
    behaviour in C), a call through a null function pointer, or, where a function says so, a
    loop that has not ended within the given fuel. A theorem that a call is \<open>Some\<close> therefore
    states the absence of all of these.
  \<^item> an error return is \<open>Inl rc\<close> of a sum, a successful one \<open>Inr result\<close>; functions whose
    callers look at the state after an error return the code and the state together.
  \<^item> the target is a 32-bit one (ESP8266 / ESP32, xtensa): \<open>size_t\<close> and \<open>int\<close> have 32 bits and
    plain \<open>char\<close> is unsigned. Sizes are \<open>nat\<close>, with each truncation of the code written out as
    \<open>mod 2 ^ 32\<close> or \<open>mod 2 ^ 16\<close>.
  \<^item> a C string is the list of its bytes before the terminating zero.
\<close>

unbundle bit_operations_syntax

section \<open>Types and return codes\<close>

type_synonym u8 = "8 word"
type_synonym u16 = "16 word"
type_synonym u32 = "32 word"
type_synonym buffer = "u8 list"
type_synonym cursor = "buffer \<times> nat"
type_synonym cstring = "u8 list"

named_theorems mem_simps \<open>rewriting of memory accesses\<close>
named_theorems qos_defs \<open>named constants of the protocol headers\<close>

abbreviation (input) QCLOUD_RET_MQTT_ALREADY_CONNECTED :: int where
  "QCLOUD_RET_MQTT_ALREADY_CONNECTED \<equiv> 4"
abbreviation (input) QCLOUD_RET_MQTT_CONNACK_CONNECTION_ACCEPTED :: int where
  "QCLOUD_RET_MQTT_CONNACK_CONNECTION_ACCEPTED \<equiv> 3"
abbreviation (input) QCLOUD_RET_MQTT_MANUALLY_DISCONNECTED :: int where
  "QCLOUD_RET_MQTT_MANUALLY_DISCONNECTED \<equiv> 2"
abbreviation (input) QCLOUD_RET_MQTT_RECONNECTED :: int where
  "QCLOUD_RET_MQTT_RECONNECTED \<equiv> 1"
abbreviation (input) QCLOUD_RET_SUCCESS :: int where "QCLOUD_RET_SUCCESS \<equiv> 0"
abbreviation (input) QCLOUD_ERR_FAILURE :: int where "QCLOUD_ERR_FAILURE \<equiv> -1001"
abbreviation (input) QCLOUD_ERR_INVAL :: int where "QCLOUD_ERR_INVAL \<equiv> -1002"
abbreviation (input) QCLOUD_ERR_MALLOC :: int where "QCLOUD_ERR_MALLOC \<equiv> -1004"
abbreviation (input) QCLOUD_ERR_MQTT_PUSH_TO_LIST_FAILED :: int where
  "QCLOUD_ERR_MQTT_PUSH_TO_LIST_FAILED \<equiv> -102"
abbreviation (input) QCLOUD_ERR_MQTT_NO_CONN :: int where "QCLOUD_ERR_MQTT_NO_CONN \<equiv> -103"
abbreviation (input) QCLOUD_ERR_MQTT_UNKNOWN :: int where "QCLOUD_ERR_MQTT_UNKNOWN \<equiv> -104"
abbreviation (input) QCLOUD_ERR_MQTT_ATTEMPTING_RECONNECT :: int where
  "QCLOUD_ERR_MQTT_ATTEMPTING_RECONNECT \<equiv> -105"
abbreviation (input) QCLOUD_ERR_MQTT_RECONNECT_TIMEOUT :: int where
  "QCLOUD_ERR_MQTT_RECONNECT_TIMEOUT \<equiv> -106"
abbreviation (input) QCLOUD_ERR_MQTT_MAX_SUBSCRIPTIONS :: int where
  "QCLOUD_ERR_MQTT_MAX_SUBSCRIPTIONS \<equiv> -107"
abbreviation (input) QCLOUD_ERR_MQTT_SUB :: int where "QCLOUD_ERR_MQTT_SUB \<equiv> -108"
abbreviation (input) QCLOUD_ERR_MQTT_NOTHING_TO_READ :: int where
  "QCLOUD_ERR_MQTT_NOTHING_TO_READ \<equiv> -109"
abbreviation (input) QCLOUD_ERR_MQTT_PACKET_READ :: int where "QCLOUD_ERR_MQTT_PACKET_READ \<equiv> -110"
abbreviation (input) QCLOUD_ERR_MQTT_REQUEST_TIMEOUT :: int where
  "QCLOUD_ERR_MQTT_REQUEST_TIMEOUT \<equiv> -111"
abbreviation (input) QCLOUD_ERR_MQTT_CONNACK_UNKNOWN :: int where
  "QCLOUD_ERR_MQTT_CONNACK_UNKNOWN \<equiv> -112"
abbreviation (input) QCLOUD_ERR_MQTT_CONNACK_UNACCEPTABLE_PROTOCOL_VERSION :: int where
  "QCLOUD_ERR_MQTT_CONNACK_UNACCEPTABLE_PROTOCOL_VERSION \<equiv> -113"
abbreviation (input) QCLOUD_ERR_MQTT_CONNACK_IDENTIFIER_REJECTED :: int where
  "QCLOUD_ERR_MQTT_CONNACK_IDENTIFIER_REJECTED \<equiv> -114"
abbreviation (input) QCLOUD_ERR_MQTT_CONNACK_SERVER_UNAVAILABLE :: int where
  "QCLOUD_ERR_MQTT_CONNACK_SERVER_UNAVAILABLE \<equiv> -115"
abbreviation (input) QCLOUD_ERR_MQTT_CONNACK_BAD_USERDATA :: int where
  "QCLOUD_ERR_MQTT_CONNACK_BAD_USERDATA \<equiv> -116"
abbreviation (input) QCLOUD_ERR_MQTT_CONNACK_NOT_AUTHORIZED :: int where
  "QCLOUD_ERR_MQTT_CONNACK_NOT_AUTHORIZED \<equiv> -117"
abbreviation (input) QCLOUD_ERR_RX_MESSAGE_INVAL :: int where "QCLOUD_ERR_RX_MESSAGE_INVAL \<equiv> -118"
abbreviation (input) QCLOUD_ERR_BUF_TOO_SHORT :: int where "QCLOUD_ERR_BUF_TOO_SHORT \<equiv> -119"
abbreviation (input) QCLOUD_ERR_MQTT_QOS_NOT_SUPPORT :: int where
  "QCLOUD_ERR_MQTT_QOS_NOT_SUPPORT \<equiv> -120"
abbreviation (input) QCLOUD_ERR_MQTT_UNSUB_FAIL :: int where "QCLOUD_ERR_MQTT_UNSUB_FAIL \<equiv> -121"
abbreviation (input) QCLOUD_ERR_MAX_TOPIC_LENGTH :: int where "QCLOUD_ERR_MAX_TOPIC_LENGTH \<equiv> -138"
abbreviation (input) QCLOUD_ERR_COAP_DATA_SIZE :: int where "QCLOUD_ERR_COAP_DATA_SIZE \<equiv> -151"
abbreviation (input) QCLOUD_ERR_COAP_INTERNAL :: int where "QCLOUD_ERR_COAP_INTERNAL \<equiv> -152"
abbreviation (input) QCLOUD_ERR_COAP_BADMSG :: int where "QCLOUD_ERR_COAP_BADMSG \<equiv> -153"
abbreviation (input) QCLOUD_ERR_TCP_READ_TIMEOUT :: int where "QCLOUD_ERR_TCP_READ_TIMEOUT \<equiv> -604"
abbreviation (input) QCLOUD_ERR_TCP_WRITE_TIMEOUT :: int where "QCLOUD_ERR_TCP_WRITE_TIMEOUT \<equiv> -605"
abbreviation (input) QCLOUD_ERR_TCP_READ_FAIL :: int where "QCLOUD_ERR_TCP_READ_FAIL \<equiv> -606"
abbreviation (input) QCLOUD_ERR_TCP_WRITE_FAIL :: int where "QCLOUD_ERR_TCP_WRITE_FAIL \<equiv> -607"
abbreviation (input) QCLOUD_ERR_TCP_PEER_SHUTDOWN :: int where "QCLOUD_ERR_TCP_PEER_SHUTDOWN \<equiv> -608"
abbreviation (input) QCLOUD_ERR_TCP_NOTHING_TO_READ :: int where "QCLOUD_ERR_TCP_NOTHING_TO_READ \<equiv> -609"
abbreviation (input) QCLOUD_ERR_SSL_READ_TIMEOUT :: int where "QCLOUD_ERR_SSL_READ_TIMEOUT \<equiv> -707"
abbreviation (input) QCLOUD_ERR_SSL_READ :: int where "QCLOUD_ERR_SSL_READ \<equiv> -708"
abbreviation (input) QCLOUD_ERR_SSL_NOTHING_TO_READ :: int where "QCLOUD_ERR_SSL_NOTHING_TO_READ \<equiv> -709"

section \<open>Memory\<close>

text \<open>\<open>overlay b p xs\<close> is the buffer \<open>b\<close> with \<open>xs\<close> stored from offset \<open>p\<close>.\<close>

definition overlay :: "'a list \<Rightarrow> nat \<Rightarrow> 'a list \<Rightarrow> 'a list" where
  "overlay b p xs = take p b @ xs @ drop (p + length xs) b"

definition mem_read :: "'a list \<Rightarrow> nat \<Rightarrow> 'a option" where
  "mem_read b p = (if p < length b then Some (b ! p) else None)"

definition mem_write :: "'a list \<Rightarrow> nat \<Rightarrow> 'a \<Rightarrow> 'a list option" where
  "mem_write b p c = (if p < length b then Some (b[p := c]) else None)"

text \<open>\<open>mem_slice b p n\<close> reads \<open>n\<close> elements at \<open>p\<close>; \<open>mem_copy b p xs\<close> is \<open>memcpy\<close> to \<open>b + p\<close>.\<close>

definition mem_slice :: "'a list \<Rightarrow> nat \<Rightarrow> nat \<Rightarrow> 'a list option" where
  "mem_slice b p n = (if p + n \<le> length b then Some (take n (drop p b)) else None)"

definition mem_copy :: "'a list \<Rightarrow> nat \<Rightarrow> 'a list \<Rightarrow> 'a list option" where
  "mem_copy b p xs = (if p + length xs \<le> length b then Some (overlay b p xs) else None)"

lemma length_overlay [simp]: "p + length xs \<le> length b \<Longrightarrow> length (overlay b p xs) = length b"
  by (simp add: overlay_def)

lemma fits_past_end: "p + length xs \<le> length b \<Longrightarrow> length b \<le> p \<Longrightarrow> xs = []"
  by (cases xs) auto

lemma overlay_Nil [simp]: "overlay b p [] = b"
  by (simp add: overlay_def)

lemma overlay_single: "p < length b \<Longrightarrow> b[p := c] = overlay b p [c]"
  by (simp add: overlay_def upd_conv_take_nth_drop)

lemma overlay_overlay:
  assumes "p + length xs + length ys \<le> length b"
  shows "overlay (overlay b p xs) (p + length xs) ys = overlay b p (xs @ ys)"
proof (cases "length b \<le> p")
  case True
  with assms have "xs = []" by (cases xs) auto
  then show ?thesis by simp
next
  case False
  then show ?thesis using assms by (simp add: overlay_def min_def ac_simps)
qed

lemma take_overlay: "p + length xs \<le> length b \<Longrightarrow> take (p + length xs) (overlay b p xs) = take p b @ xs"
  by (auto simp: overlay_def min_def dest: fits_past_end)

lemma take_overlay_le: "q \<le> p \<Longrightarrow> p \<le> length b \<Longrightarrow> take q (overlay b p xs) = take q b"
  by (simp add: overlay_def min_def)

lemma drop_overlay: "p + length xs \<le> length b \<Longrightarrow> drop (p + length xs) (overlay b p xs) = drop (p + length xs) b"
  by (auto simp: overlay_def min_def dest: fits_past_end)

lemma mem_write_overlay [mem_simps]:
  "mem_write b p c = (if p < length b then Some (overlay b p [c]) else None)"
  by (simp add: mem_write_def overlay_single)

lemma mem_slice_overlay:
  "p + length xs \<le> length b \<Longrightarrow> n = length xs \<Longrightarrow> mem_slice (overlay b p xs) p n = Some xs"
  by (auto simp: mem_slice_def overlay_def min_def)

lemma mem_read_append [mem_simps]:
  "mem_read (xs @ ys) p = (if p < length xs then mem_read xs p else mem_read ys (p - length xs))"
  by (auto simp: mem_read_def nth_append)

lemma mem_read_Cons [mem_simps]:
  "mem_read (x # xs) p = (if p = 0 then Some x else mem_read xs (p - 1))"
  by (auto simp: mem_read_def)

lemma mem_read_Nil [mem_simps]: "mem_read [] p = None"
  by (simp add: mem_read_def)

lemma mem_read_at: "mem_read (pre @ x # post) (length pre) = Some x"
  by (simp add: mem_read_def)

lemma mem_slice_at: "mem_slice (pre @ xs @ post) (length pre) (length xs) = Some xs"
  by (simp add: mem_slice_def)

lemma overlay_eq_append:
  "p + length xs \<le> length b \<Longrightarrow> overlay b p xs = take p b @ xs @ drop (p + length xs) b"
  by (simp add: overlay_def)

section \<open>Bytes\<close>

lemma byte_lt: "unat (c :: 8 word) < 256"
  using unsigned_less [of c, where 'a = nat] by simp

lemma and_127_nat: "unat ((c :: 8 word) AND 127) = unat c mod 128"
proof -
  have "c AND 127 = take_bit 7 c" by (simp add: take_bit_eq_mask mask_eq_exp_minus_1)
  then show ?thesis by (simp add: unsigned_take_bit_eq take_bit_eq_mod unat_mod_distrib)
qed

lemma and_128_zero: "(c :: 8 word) AND 128 = 0 \<longleftrightarrow> unat c < 128"
proof -
  have "c AND 128 = 0 \<longleftrightarrow> \<not> bit (unat c) 7"
    using and_exp_eq_0_iff_not_bit [of c 7] by (simp add: bit_unsigned_iff)
  also have "\<dots> \<longleftrightarrow> unat c div 128 = 0"
    using byte_lt [of c] by (auto simp: bit_iff_odd)
  finally show ?thesis by (simp add: div_eq_0_iff)
qed

lemma or_128: "unat c < 128 \<Longrightarrow> unat ((c :: 8 word) OR 128) = unat c + 128"
  using disjunctive_add_eq_or [of c 128] byte_lt [of c] 
  by (simp add: and_128_zero unat_word_ariths flip: disjunctive_add_eq_or)

section \<open>Interface: operations that write at a cursor\<close>

text \<open>
  The contract of every write primitive: at a cursor inside the buffer it stores exactly
  \<open>bytes x\<close> and moves the cursor behind them, and it has no defined result when they do not
  fit. \<open>written b xs\<close> is the cursor behind \<open>xs\<close> in a buffer filled from its start.
  The lemmas of the locale are what the serialisers need: the length of the buffer and
  everything outside the written range are untouched, and two writes in sequence are one write
  of the concatenation.
\<close>

definition written :: "buffer \<Rightarrow> u8 list \<Rightarrow> cursor" where
  "written b xs = (overlay b 0 xs, length xs)"

lemma written_start: "(b, 0) = written b []"
  by (simp add: written_def)

lemma mem_copy_written: "length xs + length ys \<le> length b \<Longrightarrow>
    mem_copy (overlay b 0 xs) (length xs) ys = Some (overlay b 0 (xs @ ys))"
  using overlay_overlay [of 0 xs ys b] by (simp add: mem_copy_def)

locale cursor_writer =
  fixes wr :: "'a \<Rightarrow> cursor \<Rightarrow> cursor option"
    and bytes :: "'a \<Rightarrow> u8 list"
  assumes wr_law: "p \<le> length b \<Longrightarrow> wr x (b, p) =
    (if p + length (bytes x) \<le> length b
     then Some (overlay b p (bytes x), p + length (bytes x)) else None)"
begin

lemma wr_fits: "p + length (bytes x) \<le> length b \<Longrightarrow>
    wr x (b, p) = Some (overlay b p (bytes x), p + length (bytes x))"
  by (simp add: wr_law)

lemma wr_written: "length xs + length (bytes x) \<le> length b \<Longrightarrow>
    wr x (written b xs) = Some (written b (xs @ bytes x))"
  using wr_law [of "length xs" "overlay b 0 xs" x] overlay_overlay [of 0 xs "bytes x" b]
  by (simp add: written_def)

lemma wr_Some:
  assumes "wr x (b, p) = Some (b', q)" and "p \<le> length b"
  shows "b' = overlay b p (bytes x)" and "q = p + length (bytes x)" and "q \<le> length b'"
    and "length b' = length b" and "take p b' = take p b" and "drop q b' = drop q b"
  using assms by (auto simp: wr_law take_overlay_le drop_overlay split: if_splits)

lemma wr_len:
  assumes "wr x cur = Some cur'" and "snd cur \<le> length (fst cur)"
  shows "length (fst cur') = length (fst cur) \<and> snd cur' \<le> length (fst cur')"
  using assms wr_Some(3,4) [of x "fst cur" "snd cur" "fst cur'" "snd cur'"] by simp

lemma wr_grows:
  assumes "wr x cur = Some cur'" and "k \<le> snd cur" and "snd cur \<le> length (fst cur)"
  shows "k \<le> snd cur' \<and> snd cur' \<le> length (fst cur')"
  using assms wr_len [OF assms(1,3)] wr_Some(2) [of x "fst cur" "snd cur" "fst cur'" "snd cur'"] by simp

lemma wr_after: "p + length xs + length (bytes x) \<le> length b \<Longrightarrow>
    wr x (overlay b p xs, p + length xs)
      = Some (overlay b p (xs @ bytes x), p + length (xs @ bytes x))"
  by (simp add: wr_law overlay_overlay add.assoc)

end

text \<open>Two writers in sequence.\<close>

locale writer_pair = w1: cursor_writer wr1 bytes1 + w2: cursor_writer wr2 bytes2
  for wr1 :: "'a \<Rightarrow> cursor \<Rightarrow> cursor option" and bytes1
    and wr2 :: "'b \<Rightarrow> cursor \<Rightarrow> cursor option" and bytes2
begin

lemma wr_then: "p \<le> length b \<Longrightarrow>
    Option.bind (wr1 x (b, p)) (wr2 y) =
    (if p + length (bytes1 x @ bytes2 y) \<le> length b
     then Some (overlay b p (bytes1 x @ bytes2 y), p + length (bytes1 x @ bytes2 y)) else None)"
  by (auto simp: w1.wr_law w2.wr_law overlay_overlay add.assoc)

end

section \<open>Interface: self-delimiting encodings\<close>

text \<open>
  An encoder and a decoder of one field. The decoder reads a buffer at an offset and returns the
  value with the number of bytes it took; what follows the field is not looked at. The lemmas
  derive that the encoding is injective and prefix-free.
\<close>

locale prefix_codec =
  fixes enc :: "'a \<Rightarrow> u8 list"
    and dec :: "buffer \<Rightarrow> nat \<Rightarrow> (int + 'a \<times> nat) option"
    and valid :: "'a \<Rightarrow> bool"
  assumes dec_enc: "valid x \<Longrightarrow>
    dec (pre @ enc x @ post) (length pre) = Some (Inr (x, length (enc x)))"
begin

lemma enc_prefix_free:
  assumes "valid x" and "valid y" and "enc x @ r = enc y @ s"
  shows "x = y \<and> r = s"
proof -
  have "dec (enc x @ r) 0 = Some (Inr (x, length (enc x)))"
    using dec_enc [of x "[]" r] assms(1) by simp
  moreover have "dec (enc x @ r) 0 = Some (Inr (y, length (enc y)))"
    using dec_enc [of y "[]" s] assms(2,3) by simp
  ultimately have "x = y" by simp
  with assms(3) show ?thesis by simp
qed

lemma enc_inj: "valid x \<Longrightarrow> valid y \<Longrightarrow> enc x = enc y \<Longrightarrow> x = y"
  using enc_prefix_free [of x y "[]" "[]"] by simp

lemma concat_decodable:
  assumes "\<forall>x \<in> set xs. valid x" and "\<forall>y \<in> set ys. valid y"
    and "length xs = length ys"
    and "concat (map enc xs) @ r = concat (map enc ys) @ s"
  shows "xs = ys \<and> r = s"
  using assms
proof (induction xs arbitrary: ys)
  case Nil
  then show ?case by simp
next
  case (Cons x xs)
  then obtain y ys' where ys: "ys = y # ys'" by (cases ys) auto
  have "enc x @ (concat (map enc xs) @ r) = enc y @ (concat (map enc ys') @ s)"
    using Cons.prems(4) ys by simp
  then have "x = y \<and> concat (map enc xs) @ r = concat (map enc ys') @ s"
    using Cons.prems(1,2) ys by (intro enc_prefix_free) auto
  then show ?case using Cons.IH [of ys'] Cons.prems ys by auto
qed

end

end
