(* ===== verification/Mqtt_Codec.thy ===== *)
theory Mqtt_Codec
  imports Qc_Prelude
begin

text \<open>
  The field level of the MQTT wire format in \<^verbatim>\<open>mqtt_client_common.c\<close> and
  \<^verbatim>\<open>mqtt_client_publish.c\<close>: the remaining-length encoding, 16-bit integers, length-prefixed
  strings and the first header byte. A pointer into a packet buffer is an offset (\<open>nat\<close>), and
  \<open>unsigned char **pptr\<close> is the pair of the buffer and the offset. Each write operation is an
  instance of \<open>cursor_writer\<close>, each field that is also read an instance of \<open>prefix_codec\<close>.
\<close>

section \<open>Types and constants\<close>

datatype MessageTypes = RESERVED | CONNECT | CONNACK | PUBLISH | PUBACK | PUBREC | PUBREL | PUBCOMP
  | SUBSCRIBE | SUBACK | UNSUBSCRIBE | UNSUBACK | PINGREQ | PINGRESP | DISCONNECT

primrec msg_type_code :: "MessageTypes \<Rightarrow> u8" where
  "msg_type_code RESERVED = 0"
| "msg_type_code CONNECT = 1"
| "msg_type_code CONNACK = 2"
| "msg_type_code PUBLISH = 3"
| "msg_type_code PUBACK = 4"
| "msg_type_code PUBREC = 5"
| "msg_type_code PUBREL = 6"
| "msg_type_code PUBCOMP = 7"
| "msg_type_code SUBSCRIBE = 8"
| "msg_type_code SUBACK = 9"
| "msg_type_code UNSUBSCRIBE = 10"
| "msg_type_code UNSUBACK = 11"
| "msg_type_code PINGREQ = 12"
| "msg_type_code PINGRESP = 13"
| "msg_type_code DISCONNECT = 14"

text \<open>\<open>QoS\<close> is kept as the byte value: the decoder casts two header bits to it, so 3 is possible.\<close>

abbreviation (input) QOS0 :: u8 where "QOS0 \<equiv> 0"
abbreviation (input) QOS1 :: u8 where "QOS1 \<equiv> 1"
abbreviation (input) QOS2 :: u8 where "QOS2 \<equiv> 2"

definition QCLOUD_IOT_MQTT_TX_BUF_LEN :: nat where [qos_defs]: "QCLOUD_IOT_MQTT_TX_BUF_LEN = 2048"
definition QCLOUD_IOT_MQTT_RX_BUF_LEN :: nat where [qos_defs]: "QCLOUD_IOT_MQTT_RX_BUF_LEN = 2048"
definition MAX_NO_OF_REMAINING_LENGTH_BYTES :: nat where
  [qos_defs]: "MAX_NO_OF_REMAINING_LENGTH_BYTES = 4"

section \<open>Writing\<close>

definition mqtt_write_char :: "u8 \<Rightarrow> cursor \<Rightarrow> cursor option" where
  "mqtt_write_char c = (\<lambda>(b, p). do { b' \<leftarrow> mem_write b p c; Some (b', Suc p) })"

definition mqtt_write_uint_16 :: "u16 \<Rightarrow> cursor \<Rightarrow> cursor option" where
  "mqtt_write_uint_16 n cur = do {
     cur \<leftarrow> mqtt_write_char (of_nat (unat n div 256)) cur;
     mqtt_write_char (of_nat (unat n mod 256)) cur }"

definition mqtt_write_utf8_string :: "cstring \<Rightarrow> cursor \<Rightarrow> cursor option" where
  "mqtt_write_utf8_string s cur = do {
     (b, p) \<leftarrow> mqtt_write_uint_16 (of_nat (length s)) cur;
     b \<leftarrow> mem_copy b p s;
     Some (b, p + length s) }"

text \<open>The loop of \<open>mqtt_write_packet_rem_len\<close>; the caller's \<open>ptr += ...\<close> is the moved cursor.\<close>

function mqtt_write_packet_rem_len :: "nat \<Rightarrow> cursor \<Rightarrow> cursor option" where
  "mqtt_write_packet_rem_len n cur = (
     let e = (of_nat (n mod 128) :: u8); n' = n div 128;
         e' = (if n' > 0 then e OR 0x80 else e) in
     do { cur \<leftarrow> mqtt_write_char e' cur;
          if n' > 0 then mqtt_write_packet_rem_len n' cur else Some cur })"
  by pat_completeness auto
termination by (relation "measure fst") auto

definition get_mqtt_packet_len :: "nat \<Rightarrow> nat" where
  "get_mqtt_packet_len n = (let n = Suc n mod 2 ^ 32 in
     (if n < 128 then n + 1 else if n < 16384 then n + 2
      else if n < 2097151 then n + 3 else n + 4) mod 2 ^ 32)"

definition mqtt_init_packet_header :: "MessageTypes \<Rightarrow> u8 \<Rightarrow> u8 \<Rightarrow> u8 \<Rightarrow> int + u8" where
  "mqtt_init_packet_header t q dup retained = (case t of
     RESERVED \<Rightarrow> Inl QCLOUD_ERR_MQTT_UNKNOWN
   | _ \<Rightarrow> let qos = (if q = QOS0 then 0 else if q = QOS1 then 1 else if q = QOS2 then 2 else 0) in
       Inr ((push_bit 4 (msg_type_code t) AND 0xF0) OR (push_bit 3 dup AND 0x08)
            OR (push_bit 1 qos AND 0x06) OR (retained AND 0x01)))"

section \<open>Reading\<close>

definition mqtt_read_char :: "buffer \<Rightarrow> nat \<Rightarrow> (u8 \<times> nat) option" where
  "mqtt_read_char b p = do { c \<leftarrow> mem_read b p; Some (c, Suc p) }"

definition mqtt_read_uint16_t :: "buffer \<Rightarrow> nat \<Rightarrow> (u16 \<times> nat) option" where
  "mqtt_read_uint16_t b p = do {
     firstByte \<leftarrow> mem_read b p;
     secondByte \<leftarrow> mem_read b (p + 1);
     Some (of_nat (unat secondByte + 256 * unat firstByte), p + 2) }"

text \<open>
  The decoding loop is generic in the function that delivers the next byte; it returns the byte,
  how many it delivered, and its new state.
\<close>

function rem_len_loop :: "('s \<Rightarrow> (u8 \<times> nat \<times> 's) option) \<Rightarrow> nat \<Rightarrow> nat \<Rightarrow> nat \<Rightarrow> 's
    \<Rightarrow> (int + nat \<times> nat) option" where
  "rem_len_loop getcharfn len multiplier val s =
     (if Suc len > MAX_NO_OF_REMAINING_LENGTH_BYTES then Some (Inl QCLOUD_ERR_MQTT_PACKET_READ)
      else do {
        (c, getLen, s') \<leftarrow> getcharfn s;
        if getLen \<noteq> 1 then Some (Inl QCLOUD_ERR_FAILURE)
        else
          let val' = (val + unat (c AND 127) * multiplier) mod 2 ^ 32;
              multiplier' = multiplier * 128 mod 2 ^ 32 in
          if c AND 128 \<noteq> 0 then rem_len_loop getcharfn (Suc len) multiplier' val' s'
          else Some (Inr (val', Suc len))
      })"
  by pat_completeness auto
termination
  by (relation "measure (\<lambda>(g, len, _). 5 - len)") (auto simp: qos_defs)

declare mqtt_write_packet_rem_len.simps [simp del] rem_len_loop.simps [simp del]

definition decode_packet_rem_len_from_buf_read ::
    "('s \<Rightarrow> (u8 \<times> nat \<times> 's) option) \<Rightarrow> 's \<Rightarrow> (int + nat \<times> nat) option" where
  "decode_packet_rem_len_from_buf_read getcharfn s = rem_len_loop getcharfn 0 1 0 s"

primrec bufchar :: "buffer \<Rightarrow> nat \<Rightarrow> u8 \<times> nat \<Rightarrow> (u8 \<times> nat) option" where
  "bufchar b 0 cp = Some cp"
| "bufchar b (Suc n) cp = do { c \<leftarrow> mem_read b (snd cp); bufchar b n (c, Suc (snd cp)) }"

text \<open>The value and the number of bytes it took.\<close>

definition mqtt_read_packet_rem_len_form_buf :: "buffer \<Rightarrow> nat \<Rightarrow> (int + nat \<times> nat) option" where
  "mqtt_read_packet_rem_len_form_buf b bufptr = decode_packet_rem_len_from_buf_read
     (\<lambda>p. do { (c, p') \<leftarrow> bufchar b 1 (0, p); Some (c, 1, p') }) bufptr"

text \<open>The string is returned as its offset and length, with the new read offset.\<close>

definition read_string_with_len :: "buffer \<Rightarrow> nat \<Rightarrow> nat \<Rightarrow> (int + nat \<times> nat \<times> nat) option" where
  "read_string_with_len b p enddata =
     (if int enddata - int p > 1 then do {
        (n, p) \<leftarrow> mqtt_read_uint16_t b p;
        if unat n > QCLOUD_IOT_MQTT_RX_BUF_LEN then Some (Inl QCLOUD_ERR_FAILURE)
        else if p + unat n \<le> enddata then Some (Inr (p, unat n, p + unat n))
        else Some (Inl QCLOUD_ERR_FAILURE)
      } else Some (Inl QCLOUD_ERR_FAILURE))"

section \<open>The writers as instances of the cursor interface\<close>

definition char_bytes :: "u8 \<Rightarrow> u8 list" where
  "char_bytes c = [c]"

definition uint16_bytes :: "u16 \<Rightarrow> u8 list" where
  "uint16_bytes n = [of_nat (unat n div 256), of_nat (unat n mod 256)]"

definition utf8_bytes :: "cstring \<Rightarrow> u8 list" where
  "utf8_bytes s = uint16_bytes (of_nat (length s)) @ s"

fun rem_len_bytes :: "nat \<Rightarrow> u8 list" where
  "rem_len_bytes n = (if n < 128 then [of_nat n]
     else (of_nat (n mod 128) OR 0x80) # rem_len_bytes (n div 128))"

declare rem_len_bytes.simps [simp del]

interpretation write_char: cursor_writer mqtt_write_char char_bytes
  by unfold_locales (auto simp: mqtt_write_char_def char_bytes_def mem_simps)

interpretation write_char_char: writer_pair mqtt_write_char char_bytes mqtt_write_char char_bytes
  by unfold_locales

interpretation write_uint16: cursor_writer mqtt_write_uint_16 uint16_bytes
  by unfold_locales (simp add: mqtt_write_uint_16_def uint16_bytes_def write_char_char.wr_then
      [unfolded char_bytes_def])

interpretation write_utf8: cursor_writer mqtt_write_utf8_string utf8_bytes
proof
  fix p :: nat and b :: "u8 list" and s :: cstring
  assume "p \<le> length b"
  then show "mqtt_write_utf8_string s (b, p) = (if p + length (utf8_bytes s) \<le> length b
     then Some (overlay b p (utf8_bytes s), p + length (utf8_bytes s)) else None)"
    by (auto simp: mqtt_write_utf8_string_def utf8_bytes_def write_uint16.wr_law mem_copy_def
        overlay_overlay add.assoc)
qed

interpretation write_rem_len: cursor_writer mqtt_write_packet_rem_len rem_len_bytes
proof
  fix p :: nat and b :: "u8 list" and n :: nat
  assume "p \<le> length b"
  then show "mqtt_write_packet_rem_len n (b, p) = (if p + length (rem_len_bytes n) \<le> length b
     then Some (overlay b p (rem_len_bytes n), p + length (rem_len_bytes n)) else None)"
  proof (induction n arbitrary: b p rule: rem_len_bytes.induct)
    case (1 n)
    show ?case
    proof (cases "n < 128")
      case True
      with 1 show ?thesis
        by (simp add: mqtt_write_packet_rem_len.simps [of n] rem_len_bytes.simps [of n] Let_def
            write_char.wr_law char_bytes_def)
    next
      case False
      let ?e = "(of_nat (n mod 128) OR 0x80) :: u8"
      have "0 < n div 128" using False by (simp add: div_greater_zero_iff)
      then have "mqtt_write_packet_rem_len n (b, p)
          = Option.bind (mqtt_write_char ?e (b, p)) (mqtt_write_packet_rem_len (n div 128))"
        by (simp add: mqtt_write_packet_rem_len.simps [of n] Let_def)
      moreover have "rem_len_bytes n = ?e # rem_len_bytes (n div 128)"
        using False by (simp add: rem_len_bytes.simps [of n])
      moreover have "overlay (overlay b p [?e]) (Suc p) xs = overlay b p (?e # xs)"
        if "Suc p + length xs \<le> length b" for xs
        using that overlay_overlay [of p "[?e]" xs b] by simp
      ultimately show ?thesis
        using "1.prems" "1.IH" [OF False, of "Suc p" "overlay b p [?e]"]
        by (auto simp: write_char.wr_law char_bytes_def)
    qed
  qed
qed

lemma length_char_bytes [simp]: "length (char_bytes c) = 1"
  by (simp add: char_bytes_def)

lemma length_uint16_bytes [simp]: "length (uint16_bytes n) = 2"
  by (simp add: uint16_bytes_def)

lemma length_utf8_bytes [simp]: "length (utf8_bytes s) = 2 + length s"
  by (simp add: utf8_bytes_def)

lemma length_rem_len_bytes: "length (rem_len_bytes n) =
    (if n < 128 then 1 else 1 + length (rem_len_bytes (n div 128)))"
  by (simp add: rem_len_bytes.simps [of n])

section \<open>Decoding what was written\<close>

lemma or_128_byte: "n < 128 \<Longrightarrow> unat ((of_nat n :: u8) OR 0x80) = n + 128"
  by (simp add: or_128 unat_of_nat)

text \<open>A byte delivered by a memory read.\<close>

definition byte_at :: "buffer \<Rightarrow> nat \<Rightarrow> (u8 \<times> nat \<times> nat) option" where
  "byte_at b p = do { (c, p') \<leftarrow> bufchar b 1 (0, p); Some (c, 1, p') }"

lemma byte_at_read: "byte_at b p = map_option (\<lambda>c. (c, 1, Suc p)) (mem_read b p)"
  by (simp add: byte_at_def map_option_case bind_eq_None_conv split: option.split)

lemma rem_len_loop_step:
  assumes "mem_read b p = Some c" and "len < 4"
  shows "rem_len_loop (byte_at b) len m v p =
    (if c AND 128 \<noteq> 0
     then rem_len_loop (byte_at b) (Suc len) (m * 128 mod 2 ^ 32) ((v + unat (c AND 127) * m) mod 2 ^ 32) (Suc p)
     else Some (Inr ((v + unat (c AND 127) * m) mod 2 ^ 32, Suc len)))"
  using assms by (subst rem_len_loop.simps) (simp add: qos_defs byte_at_read)

text \<open>Every byte delivered: the loop on a buffer that continues with an encoded length.\<close>

lemma rem_len_loop_bytes:
  assumes "n < 128 ^ (4 - len)" and "len < 4" and "val + n * 128 ^ len < 2 ^ 28"
  shows "rem_len_loop (byte_at (pre @ rem_len_bytes n @ post)) len (128 ^ len) val (length pre)
    = Some (Inr (val + n * 128 ^ len, len + length (rem_len_bytes n)))"
  using assms
proof (induction n arbitrary: len val pre rule: rem_len_bytes.induct)
  case (1 n)
  have small: "(val + m * 128 ^ len) mod 2 ^ 32 = val + m * 128 ^ len" if "m \<le> n" for m
  proof (rule mod_less)
    have "m * 128 ^ len \<le> n * 128 ^ len" using that by (rule mult_le_mono1)
    moreover have "(2 :: nat) ^ 28 < 2 ^ 32" by simp
    ultimately show "val + m * 128 ^ len < 2 ^ 32" using "1.prems"(3) by linarith
  qed
  show ?case
  proof (cases "n < 128")
    case True
    have "unat ((of_nat n :: u8) AND 127) = n" "(of_nat n :: u8) AND 128 = 0"
      using True by (simp_all add: and_127_nat and_128_zero unat_of_nat)
    moreover have b: "rem_len_bytes n = [of_nat n]" using True by (simp add: rem_len_bytes.simps)
    moreover have "mem_read (pre @ rem_len_bytes n @ post) (length pre) = Some (of_nat n)"
      by (simp add: b mem_read_at)
    ultimately show ?thesis
      using "1.prems"(2) small [of n] by (simp add: rem_len_loop_step)
  next
    case False
    let ?c = "(of_nat (n mod 128) OR 0x80) :: u8"
    have c: "unat (?c AND 127) = n mod 128" "?c AND 128 \<noteq> 0"
      by (simp_all add: and_127_nat and_128_zero or_128_byte)
    have len: "Suc len < 4" "n div 128 < 128 ^ (4 - Suc len)"
    proof -
      have "len \<noteq> 3" using "1.prems"(1) False by auto
      then show "Suc len < 4" using "1.prems"(2) by simp
      then have "(128 :: nat) ^ (4 - len) = 128 * 128 ^ (4 - Suc len)"
        by (metis Suc_diff_Suc Suc_lessD power_Suc)
      then show "n div 128 < 128 ^ (4 - Suc len)"
        using "1.prems"(1) by (simp add: less_mult_imp_div_less mult.commute)
    qed
    have split: "(n mod 128) * 128 ^ len + (n div 128) * 128 ^ Suc len = n * 128 ^ len"
    proof -
      have "n * 128 ^ len = (n mod 128 + n div 128 * 128) * 128 ^ len" by simp
      then show ?thesis by (simp only: distrib_right power_Suc mult.assoc)
    qed
    have mult: "128 ^ len * 128 mod (2 ^ 32) = (128 ^ Suc len :: nat)"
    proof -
      have "len = 0 \<or> len = 1 \<or> len = 2" using len by auto
      then show ?thesis by auto
    qed
    have b: "rem_len_bytes n = ?c # rem_len_bytes (n div 128)"
      using False by (simp add: rem_len_bytes.simps [of n])
    then have "mem_read (pre @ rem_len_bytes n @ post) (length pre) = Some ?c"
      by (simp add: mem_read_at)
    then have "rem_len_loop (byte_at (pre @ rem_len_bytes n @ post)) len (128 ^ len) val (length pre)
      = rem_len_loop (byte_at (pre @ rem_len_bytes n @ post)) (Suc len) (128 ^ Suc len)
          (val + (n mod 128) * 128 ^ len) (Suc (length pre))"
      using rem_len_loop_step [OF _ "1.prems"(2), of _ "length pre" ?c "128 ^ len" val]
        c small [of "n mod 128"] mult by simp
    also have "\<dots> = Some (Inr (val + n * 128 ^ len, len + length (rem_len_bytes n)))"
      using "1.IH" [OF False len(2,1), of "val + (n mod 128) * 128 ^ len" "pre @ [?c]"] "1.prems"(3) split
      by (simp add: b add.assoc)
    finally show ?thesis .
  qed
qed

lemma read_rem_len_at:
  assumes "n < 2 ^ 28"
  shows "mqtt_read_packet_rem_len_form_buf (pre @ rem_len_bytes n @ post) (length pre)
    = Some (Inr (n, length (rem_len_bytes n)))"
  using rem_len_loop_bytes [of n 0 0 pre post] assms
  by (simp add: mqtt_read_packet_rem_len_form_buf_def decode_packet_rem_len_from_buf_read_def
      byte_at_def [abs_def])

lemma rem_len_bytes_length:
  "n < 128 \<Longrightarrow> length (rem_len_bytes n) = 1"
  "128 \<le> n \<Longrightarrow> n < 16384 \<Longrightarrow> length (rem_len_bytes n) = 2"
  "16384 \<le> n \<Longrightarrow> n < 2097152 \<Longrightarrow> length (rem_len_bytes n) = 3"
  "2097152 \<le> n \<Longrightarrow> n < 268435456 \<Longrightarrow> length (rem_len_bytes n) = 4"
proof -
  have b: "length (rem_len_bytes m) = Suc (length (rem_len_bytes (m div 128)))" if "128 \<le> m" for m
    using that by (simp add: rem_len_bytes.simps [of m])
  have a: "length (rem_len_bytes m) = 1" if "m < 128" for m
    using that by (simp add: rem_len_bytes.simps [of m])
  then show "n < 128 \<Longrightarrow> length (rem_len_bytes n) = 1" .
  have c: "length (rem_len_bytes m) = 2" if "128 \<le> m" "m < 16384" for m
    using that b [of m] a [of "m div 128"] by (simp add: less_mult_imp_div_less)
  then show "128 \<le> n \<Longrightarrow> n < 16384 \<Longrightarrow> length (rem_len_bytes n) = 2" .
  have d: "length (rem_len_bytes m) = 3" if "16384 \<le> m" "m < 2097152" for m
  proof -
    have "128 \<le> m div 128" "m div 128 < 16384" using that by linarith+
    with b [of m] c [of "m div 128"] that show ?thesis by simp
  qed
  then show "16384 \<le> n \<Longrightarrow> n < 2097152 \<Longrightarrow> length (rem_len_bytes n) = 3" .
  show "length (rem_len_bytes n) = 4" if "2097152 \<le> n" "n < 268435456"
  proof -
    have "16384 \<le> n div 128" "n div 128 < 2097152" using that by linarith+
    with b [of n] d [of "n div 128"] that show ?thesis by simp
  qed
qed

text \<open>\<open>get_mqtt_packet_len\<close> is an upper bound of the packet size, at most one byte too large.\<close>

lemma packet_len_bound:
  assumes "n < 2 ^ 28"
  shows "1 + length (rem_len_bytes n) + n \<le> get_mqtt_packet_len n"
    and "get_mqtt_packet_len n \<le> 2 + length (rem_len_bytes n) + n"
proof -
  consider "n < 128" | "128 \<le> n" "n < 16384" | "16384 \<le> n" "n < 2097152"
    | "2097152 \<le> n" by linarith
  then have "1 + length (rem_len_bytes n) + n \<le> get_mqtt_packet_len n
    \<and> get_mqtt_packet_len n \<le> 2 + length (rem_len_bytes n) + n"
    using assms by cases (simp_all add: rem_len_bytes_length get_mqtt_packet_len_def)
  then show "1 + length (rem_len_bytes n) + n \<le> get_mqtt_packet_len n"
    and "get_mqtt_packet_len n \<le> 2 + length (rem_len_bytes n) + n" by auto
qed

text \<open>
  On arbitrary bytes: four readable bytes are enough, and a decoded value is below \<open>2 ^ 28\<close>.
\<close>

lemma rem_len_loop_total:
  assumes "len \<le> 4" and "val < 128 ^ len" and "p + (4 - len) \<le> length b"
  shows "rem_len_loop (byte_at b) len (128 ^ len) val p = Some (Inl QCLOUD_ERR_MQTT_PACKET_READ)
    \<or> (\<exists>v k. rem_len_loop (byte_at b) len (128 ^ len) val p = Some (Inr (v, k))
         \<and> v < 128 ^ k \<and> len < k \<and> k \<le> 4)"
  using assms
proof (induction "4 - len" arbitrary: len val p)
  case 0
  then have "len = 4" by simp
  then show ?case by (subst rem_len_loop.simps) (simp add: qos_defs)
next
  case (Suc x)
  then have lt: "len < 4" and p: "p < length b" by auto
  let ?v = "val + unat (b ! p AND 127) * 128 ^ len"
  have "unat (b ! p AND 127) < 128" by (simp add: and_127_nat)
  then have "Suc (unat (b ! p AND 127)) * 128 ^ len \<le> 128 * 128 ^ len" by (intro mult_le_mono1) simp
  then have "128 ^ len + unat (b ! p AND 127) * 128 ^ len \<le> 128 ^ Suc len"
    by (simp only: mult_Suc power_Suc)
  then have v: "?v < 128 ^ Suc len" using Suc.prems(2) by linarith
  moreover have "len = 0 \<or> len = 1 \<or> len = 2 \<or> len = 3" using lt by auto
  then have "(128 :: nat) ^ Suc len \<le> 2 ^ 28" and m: "len < 3 \<Longrightarrow> 128 ^ len * 128 mod 2 ^ 32 = (128 ^ Suc len :: nat)"
    by auto
  moreover have "(2 :: nat) ^ 28 < 2 ^ 32" by simp
  ultimately have md: "?v mod 2 ^ 32 = ?v" by (intro mod_less) linarith
  note step = rem_len_loop_step [of b p "b ! p" len "128 ^ len" val, unfolded md]
  have rd: "mem_read b p = Some (b ! p)" using p by (simp add: mem_read_def)
  show ?case
  proof (cases "b ! p AND 128 = 0")
    case True
    with step rd lt v show ?thesis by auto
  next
    case cont: False
    show ?thesis
    proof (cases "len = 3")
      case True
      with step rd cont show ?thesis by (auto simp: rem_len_loop.simps [of _ 4] qos_defs)
    next
      case False
      then have "len < 3" using lt by simp
      have "x = 4 - Suc len" and "Suc p + (4 - Suc len) \<le> length b"
        using Suc.hyps(2) Suc.prems(3) lt by auto
      moreover have "rem_len_loop (byte_at b) len (128 ^ len) val p
          = rem_len_loop (byte_at b) (Suc len) (128 ^ Suc len) ?v (Suc p)"
        using step rd lt cont m \<open>len < 3\<close> by simp
      ultimately show ?thesis
        using Suc.hyps(1) [of "Suc len" ?v "Suc p"] lt v by (auto dest: Suc_lessD)
    qed
  qed
qed

lemma read_rem_len_total:
  assumes "p + 4 \<le> length b"
  shows "mqtt_read_packet_rem_len_form_buf b p = Some (Inl QCLOUD_ERR_MQTT_PACKET_READ)
    \<or> (\<exists>v k. mqtt_read_packet_rem_len_form_buf b p = Some (Inr (v, k)) \<and> v < 2 ^ 28 \<and> 1 \<le> k \<and> k \<le> 4)"
proof -
  have "mqtt_read_packet_rem_len_form_buf b p = rem_len_loop (byte_at b) 0 (128 ^ 0) 0 p"
    by (simp add: mqtt_read_packet_rem_len_form_buf_def decode_packet_rem_len_from_buf_read_def
      byte_at_def [abs_def])
  moreover have "v < 2 ^ 28" if "v < 128 ^ k" "k \<le> 4" for v k :: nat
  proof -
    have "(128 :: nat) ^ k \<le> 128 ^ 4" using that(2) by (rule power_increasing) simp
    with that(1) show ?thesis by simp
  qed
  ultimately show ?thesis using rem_len_loop_total [of 0 0 p b] assms by fastforce
qed

text \<open>16-bit integers and strings.\<close>

lemma uint16_of_bytes: "of_nat (unat (of_nat (unat n mod 256) :: u8) + 256 * unat (of_nat (unat n div 256) :: u8)) = (n :: u16)"
proof -
  have "unat n < 65536" using unsigned_less [of n, where 'a = nat] by simp
  then have "unat n div 256 < 256" by (simp add: less_mult_imp_div_less)
  then show ?thesis by (simp add: unat_of_nat)
qed

lemma read_uint16_at: "mqtt_read_uint16_t (pre @ uint16_bytes n @ post) (length pre) = Some (n, length pre + 2)"
  using uint16_of_bytes [of n]
  by (simp add: mqtt_read_uint16_t_def uint16_bytes_def mem_read_def nth_append)

lemma read_string_at:
  assumes "length s \<le> QCLOUD_IOT_MQTT_RX_BUF_LEN" and "length pre + 2 + length s \<le> e"
  shows "read_string_with_len (pre @ utf8_bytes s @ post) (length pre) e
    = Some (Inr (length pre + 2, length s, length pre + 2 + length s))"
proof -
  have "unat (of_nat (length s) :: u16) = length s"
    using assms(1) by (simp add: qos_defs unat_of_nat)
  moreover have "mqtt_read_uint16_t (pre @ utf8_bytes s @ post) (length pre)
      = Some (of_nat (length s), length pre + 2)"
    using read_uint16_at [of pre "of_nat (length s)" "s @ post"] by (simp add: utf8_bytes_def)
  ultimately show ?thesis using assms by (simp add: read_string_with_len_def)
qed

text \<open>The decoders as one-field codecs.\<close>

definition dec_uint16 :: "buffer \<Rightarrow> nat \<Rightarrow> (int + u16 \<times> nat) option" where
  "dec_uint16 b p = do { (n, p') \<leftarrow> mqtt_read_uint16_t b p; Some (Inr (n, p' - p)) }"

definition dec_string :: "buffer \<Rightarrow> nat \<Rightarrow> (int + cstring \<times> nat) option" where
  "dec_string b p = do {
     r \<leftarrow> read_string_with_len b p (length b);
     case r of Inl rc \<Rightarrow> Some (Inl rc)
     | Inr (q, n, p') \<Rightarrow> do { s \<leftarrow> mem_slice b q n; Some (Inr (s, p' - p)) } }"

interpretation uint16_codec: prefix_codec uint16_bytes dec_uint16 "\<lambda>_. True"
  by unfold_locales (simp add: dec_uint16_def read_uint16_at)

interpretation rem_len_codec: prefix_codec rem_len_bytes mqtt_read_packet_rem_len_form_buf "\<lambda>n. n < 2 ^ 28"
  by unfold_locales (rule read_rem_len_at)

interpretation string_codec: prefix_codec utf8_bytes dec_string "\<lambda>s. length s \<le> QCLOUD_IOT_MQTT_RX_BUF_LEN"
proof
  fix s :: cstring and pre post :: "u8 list"
  assume len: "length s \<le> QCLOUD_IOT_MQTT_RX_BUF_LEN"
  have "mem_slice (pre @ utf8_bytes s @ post) (length pre + 2) (length s) = Some s"
    using mem_slice_at [of "pre @ uint16_bytes (of_nat (length s))" s post] by (simp add: utf8_bytes_def)
  with read_string_at [OF len, of pre "length (pre @ utf8_bytes s @ post)" post]
  show "dec_string (pre @ utf8_bytes s @ post) (length pre) = Some (Inr (s, length (utf8_bytes s)))"
    by (simp add: dec_string_def)
qed

section \<open>The header byte\<close>

definition hdr_type :: "u8 \<Rightarrow> u8" where "hdr_type h = drop_bit 4 (h AND 0xF0)"
definition hdr_dup :: "u8 \<Rightarrow> u8" where "hdr_dup h = drop_bit 3 (h AND 0x08)"
definition hdr_qos :: "u8 \<Rightarrow> u8" where "hdr_qos h = drop_bit 1 (h AND 0x06)"
definition hdr_retained :: "u8 \<Rightarrow> u8" where "hdr_retained h = h AND 0x01"

lemma dup_bit: "push_bit 3 (d :: u8) AND 8 = (if odd d then 8 else 0)"
proof -
  have "push_bit 3 d AND 8 = push_bit 3 (d AND 1)" by (simp add: push_bit_and)
  then show ?thesis by (simp add: and_one_eq mod_2_eq_odd)
qed

text \<open>Reading the header back. \<open>dup\<close> and \<open>retained\<close> keep their lowest bit, an unknown QoS becomes 0.\<close>

lemma header_decode:
  assumes "mqtt_init_packet_header t q d r = Inr h"
  shows "hdr_type h = msg_type_code t" and "hdr_dup h = d AND 1"
    and "hdr_qos h = (if q = 0 \<or> q = 1 \<or> q = 2 then q else 0)" and "hdr_retained h = r AND 1"
proof -
  have "hdr_type h = msg_type_code t \<and> hdr_dup h = d AND 1
    \<and> hdr_qos h = (if q = 0 \<or> q = 1 \<or> q = 2 then q else 0) \<and> hdr_retained h = r AND 1"
    using assms
    by (cases t; cases "odd d"; cases "odd r"; cases "q = 0"; cases "q = 1"; cases "q = 2")
      (auto simp: mqtt_init_packet_header_def Let_def dup_bit and_one_eq mod_2_eq_odd
        hdr_type_def hdr_dup_def hdr_qos_def hdr_retained_def)
  then show "hdr_type h = msg_type_code t" and "hdr_dup h = d AND 1"
    and "hdr_qos h = (if q = 0 \<or> q = 1 \<or> q = 2 then q else 0)" and "hdr_retained h = r AND 1"
    by auto
qed

lemma header_error: "(\<exists>rc. mqtt_init_packet_header t q d r = Inl rc) \<longleftrightarrow> t = RESERVED"
  by (cases t) (simp_all add: mqtt_init_packet_header_def Let_def)

section \<open>Properties\<close>

lemma rem_len_at_most_4:
  assumes "n < 2 ^ 28"
  shows "length (rem_len_bytes n) \<le> 4"
proof -
  consider "n < 128" | "128 \<le> n" "n < 16384" | "16384 \<le> n" "n < 2097152" | "2097152 \<le> n" by linarith
  then show ?thesis using assms by cases (simp_all add: rem_len_bytes_length)
qed

text \<open>Every remaining length below \<open>2 ^ 28\<close> survives the round trip through the buffer:
  \<open>mqtt_write_packet_rem_len\<close> writes at most four bytes at the cursor and touches nothing else, and
  \<open>mqtt_read_packet_rem_len_form_buf\<close> at the old cursor returns the value and the number of bytes
  written.\<close>

theorem rem_len_roundtrip:
  assumes "n < 2 ^ 28" and "p + 4 \<le> length b"
  shows "\<exists>b' q. mqtt_write_packet_rem_len n (b, p) = Some (b', q)
    \<and> p < q \<and> q \<le> p + 4 \<and> take p b' = take p b \<and> drop q b' = drop q b \<and> length b' = length b
    \<and> mqtt_read_packet_rem_len_form_buf b' p = Some (Inr (n, q - p))"
proof -
  let ?x = "rem_len_bytes n"
  have fit: "p + length ?x \<le> length b" and pos: "?x \<noteq> []"
    using rem_len_at_most_4 [OF assms(1)] assms(2) by (auto simp: rem_len_bytes.simps [of n])
  note w = write_rem_len.wr_fits [OF fit]
  have "overlay b p ?x = take p b @ ?x @ drop (p + length ?x) b" by (simp add: overlay_def)
  then have "mqtt_read_packet_rem_len_form_buf (overlay b p ?x) p = Some (Inr (n, length ?x))"
    using rem_len_codec.dec_enc [OF assms(1), of "take p b" "drop (p + length ?x) b"] fit by simp
  with w fit pos rem_len_at_most_4 [OF assms(1)] show ?thesis
    by (simp add: take_overlay_le drop_overlay)
qed

theorem rem_len_roundtrip_witness:
  "\<exists>b' q. mqtt_write_packet_rem_len 321 ([7, 0, 0, 0, 0, 9], 1) = Some (b', q)
    \<and> 1 < q \<and> q \<le> 1 + 4 \<and> take 1 b' = take 1 [7, 0, 0, 0, 0, 9] \<and> drop q b' = drop q [7, 0, 0, 0, 0, 9]
    \<and> length b' = length [7, 0, 0, 0, 0, 9 :: u8]
    \<and> mqtt_read_packet_rem_len_form_buf b' 1 = Some (Inr (321, q - 1))"
  by (rule rem_len_roundtrip) simp_all

text \<open>On arbitrary bytes the remaining-length decoder stays within four bytes and returns:
  either \<open>QCLOUD_ERR_MQTT_PACKET_READ\<close> for a fifth continuation byte, or a value below \<open>2 ^ 28\<close>
  with the one to four bytes it took.\<close>

theorem rem_len_decode_total:
  assumes "p + 4 \<le> length b"
  shows "case mqtt_read_packet_rem_len_form_buf b p of
      Some (Inl rc) \<Rightarrow> rc = QCLOUD_ERR_MQTT_PACKET_READ
    | Some (Inr (v, k)) \<Rightarrow> v < 2 ^ 28 \<and> 1 \<le> k \<and> k \<le> 4
    | None \<Rightarrow> False"
  using read_rem_len_total [OF assms] by auto

theorem rem_len_decode_total_witness:
  "case mqtt_read_packet_rem_len_form_buf [255, 255, 255, 255] 0 of
      Some (Inl rc) \<Rightarrow> rc = QCLOUD_ERR_MQTT_PACKET_READ
    | Some (Inr (v, k)) \<Rightarrow> v < 2 ^ 28 \<and> 1 \<le> k \<and> k \<le> 4
    | None \<Rightarrow> False"
  by (rule rem_len_decode_total) simp

text \<open>\<open>get_mqtt_packet_len\<close> never underestimates the size of a packet with a remaining length
  below \<open>2 ^ 28\<close> and is at most one byte too large; it is too large, for example, for 127, because
  the header byte is added before the length is compared.\<close>

theorem packet_len_upper_bound:
  assumes "n < 2 ^ 28"
  shows "1 + length (rem_len_bytes n) + n \<le> get_mqtt_packet_len n
    \<and> get_mqtt_packet_len n \<le> 2 + length (rem_len_bytes n) + n
    \<and> get_mqtt_packet_len 127 = 2 + length (rem_len_bytes 127) + 127"
  using packet_len_bound [OF assms] by (simp add: get_mqtt_packet_len_def rem_len_bytes.simps)

theorem packet_len_upper_bound_witness:
  "1 + length (rem_len_bytes 5) + 5 \<le> get_mqtt_packet_len 5
    \<and> get_mqtt_packet_len 5 \<le> 2 + length (rem_len_bytes 5) + 5
    \<and> get_mqtt_packet_len 127 = 2 + length (rem_len_bytes 127) + 127"
  by (rule packet_len_upper_bound) simp

text \<open>Length-prefixed strings of at most 2048 bytes are self-delimiting: two sequences of
  equally many strings whose encodings, followed by anything, agree as bytes are the same
  sequence, with the same bytes behind it.\<close>

theorem strings_self_delimiting:
  assumes "\<forall>s \<in> set xs. length s \<le> QCLOUD_IOT_MQTT_RX_BUF_LEN"
    and "\<forall>s \<in> set ys. length s \<le> QCLOUD_IOT_MQTT_RX_BUF_LEN"
    and "length xs = length ys"
    and "concat (map utf8_bytes xs) @ r = concat (map utf8_bytes ys) @ s"
  shows "xs = ys \<and> r = s"
  using assms by (rule string_codec.concat_decodable)

theorem strings_self_delimiting_witness:
  "[[97], [98, 99]] = [[97], [98, 99 :: u8]] \<and> [0] = [0 :: u8]"
  by (rule strings_self_delimiting) (simp_all add: qos_defs)

end
