(* ===== verification/Mqtt_Packet.thy ===== *)
theory Mqtt_Packet
  imports Mqtt_Codec
begin

text \<open>
  The packet level: serialisers and deserialisers of every packet type the client sends or
  receives (\<^verbatim>\<open>mqtt_client_common.c\<close>, \<^verbatim>\<open>_publish.c\<close>, \<^verbatim>\<open>_subscribe.c\<close>, \<^verbatim>\<open>_unsubscribe.c\<close>,
  \<^verbatim>\<open>_connect.c\<close>). A serialiser returns the serialised length with the new buffer, or the error
  code, in which case the buffer is untouched. A deserialiser gets the whole buffer object
  and the \<open>buf_len\<close> the caller passes; the values it stores through pointers are its result.
\<close>

section \<open>Serialising\<close>

definition serialize_packet_with_zero_payload ::
    "buffer \<Rightarrow> nat \<Rightarrow> MessageTypes \<Rightarrow> (int + nat \<times> buffer) option" where
  "serialize_packet_with_zero_payload buf buf_len packetType =
     (if 4 > buf_len then Some (Inl QCLOUD_ERR_BUF_TOO_SHORT)
      else case mqtt_init_packet_header packetType QOS0 0 0 of
        Inl rc \<Rightarrow> Some (Inl rc)
      | Inr header \<Rightarrow> do {
          cur \<leftarrow> mqtt_write_char header (buf, 0);
          (buf, ptr) \<leftarrow> mqtt_write_packet_rem_len 0 cur;
          Some (Inr (ptr, buf)) })"

definition serialize_pub_ack_packet ::
    "buffer \<Rightarrow> nat \<Rightarrow> MessageTypes \<Rightarrow> u8 \<Rightarrow> u16 \<Rightarrow> (int + nat \<times> buffer) option" where
  "serialize_pub_ack_packet buf buf_len packet_type dup packet_id =
     (let requestQoS = (if packet_type = PUBREL then QOS1 else QOS0);
          h = mqtt_init_packet_header packet_type requestQoS dup 0 in
      if 4 > buf_len then Some (Inl QCLOUD_ERR_BUF_TOO_SHORT)
      else case h of
        Inl rc \<Rightarrow> Some (Inl rc)
      | Inr header \<Rightarrow> do {
          cur \<leftarrow> mqtt_write_char header (buf, 0);
          cur \<leftarrow> mqtt_write_packet_rem_len 2 cur;
          (buf, ptr) \<leftarrow> mqtt_write_uint_16 packet_id cur;
          Some (Inr (ptr, buf)) })"

definition get_publish_packet_len :: "u8 \<Rightarrow> cstring \<Rightarrow> nat \<Rightarrow> nat" where
  "get_publish_packet_len qos topicName payload_len =
     (2 + length topicName + payload_len + (if qos > 0 then 2 else 0)) mod 2 ^ 32"

definition serialize_publish_packet :: "buffer \<Rightarrow> nat \<Rightarrow> u8 \<Rightarrow> u8 \<Rightarrow> u8 \<Rightarrow> u16 \<Rightarrow> cstring
    \<Rightarrow> buffer option \<Rightarrow> nat \<Rightarrow> (int + nat \<times> buffer) option" where
  "serialize_publish_packet buf buf_len dup qos retained packet_id topicName payload payload_len =
     (case payload of None \<Rightarrow> Some (Inl QCLOUD_ERR_INVAL)
      | Some pl \<Rightarrow>
        let rem_len = get_publish_packet_len qos topicName payload_len in
        if get_mqtt_packet_len rem_len > buf_len then Some (Inl QCLOUD_ERR_BUF_TOO_SHORT)
        else case mqtt_init_packet_header PUBLISH qos dup retained of
          Inl rc \<Rightarrow> Some (Inl rc)
        | Inr header \<Rightarrow> do {
            cur \<leftarrow> mqtt_write_char header (buf, 0);
            cur \<leftarrow> mqtt_write_packet_rem_len rem_len cur;
            cur \<leftarrow> mqtt_write_utf8_string topicName cur;
            (buf, ptr) \<leftarrow> (if qos > 0 then mqtt_write_uint_16 packet_id cur else Some cur);
            src \<leftarrow> mem_slice pl 0 payload_len;
            buf \<leftarrow> mem_copy buf ptr src;
            Some (Inr (ptr + payload_len, buf)) })"

text \<open>
  \<open>*topicFilters + i\<close> is the first filter advanced by \<open>i\<close> characters, and not the filter number
  \<open>i\<close>; past the end of the string there is no defined value.
\<close>

definition filter_arg :: "cstring \<Rightarrow> nat \<Rightarrow> cstring option" where
  "filter_arg topicFilter i = (if i \<le> length topicFilter then Some (drop i topicFilter) else None)"

primrec subscribe_len_loop :: "nat \<Rightarrow> nat \<Rightarrow> cstring \<Rightarrow> nat \<Rightarrow> nat option" where
  "subscribe_len_loop 0 i topicFilter len = Some len"
| "subscribe_len_loop (Suc n) i topicFilter len = do {
     s \<leftarrow> filter_arg topicFilter i;
     subscribe_len_loop n (Suc i) topicFilter ((len + (2 + length s + 1)) mod 2 ^ 32) }"

definition get_subscribe_packet_rem_len :: "nat \<Rightarrow> cstring \<Rightarrow> nat option" where
  "get_subscribe_packet_rem_len count topicFilter = subscribe_len_loop count 0 topicFilter 2"

primrec subscribe_payload_loop :: "nat \<Rightarrow> nat \<Rightarrow> cstring \<Rightarrow> u8 list \<Rightarrow> cursor \<Rightarrow> cursor option" where
  "subscribe_payload_loop 0 i topicFilter qs cur = Some cur"
| "subscribe_payload_loop (Suc n) i topicFilter qs cur = do {
     s \<leftarrow> filter_arg topicFilter i;
     cur \<leftarrow> mqtt_write_utf8_string s cur;
     q \<leftarrow> mem_read qs i;
     cur \<leftarrow> mqtt_write_char q cur;
     subscribe_payload_loop n (Suc i) topicFilter qs cur }"

definition serialize_subscribe_packet :: "buffer \<Rightarrow> nat \<Rightarrow> u8 \<Rightarrow> u16 \<Rightarrow> nat \<Rightarrow> cstring \<Rightarrow> u8 list
    \<Rightarrow> (int + nat \<times> buffer) option" where
  "serialize_subscribe_packet buf buf_len dup packet_id count topicFilter requestedQoSs = do {
     rem_len \<leftarrow> get_subscribe_packet_rem_len count topicFilter;
     if get_mqtt_packet_len rem_len > buf_len then Some (Inl QCLOUD_ERR_BUF_TOO_SHORT)
     else case mqtt_init_packet_header SUBSCRIBE QOS1 dup 0 of
       Inl rc \<Rightarrow> Some (Inl rc)
     | Inr header \<Rightarrow> do {
         cur \<leftarrow> mqtt_write_char header (buf, 0);
         cur \<leftarrow> mqtt_write_packet_rem_len rem_len cur;
         cur \<leftarrow> mqtt_write_uint_16 packet_id cur;
         (buf, ptr) \<leftarrow> subscribe_payload_loop count 0 topicFilter requestedQoSs cur;
         Some (Inr (ptr, buf)) } }"

primrec unsubscribe_len_loop :: "nat \<Rightarrow> nat \<Rightarrow> cstring \<Rightarrow> nat \<Rightarrow> nat option" where
  "unsubscribe_len_loop 0 i topicFilter len = Some len"
| "unsubscribe_len_loop (Suc n) i topicFilter len = do {
     s \<leftarrow> filter_arg topicFilter i;
     unsubscribe_len_loop n (Suc i) topicFilter ((len + (2 + length s)) mod 2 ^ 32) }"

definition get_unsubscribe_packet_rem_len :: "nat \<Rightarrow> cstring \<Rightarrow> nat option" where
  "get_unsubscribe_packet_rem_len count topicFilter = unsubscribe_len_loop count 0 topicFilter 2"

primrec unsubscribe_payload_loop :: "nat \<Rightarrow> nat \<Rightarrow> cstring \<Rightarrow> cursor \<Rightarrow> cursor option" where
  "unsubscribe_payload_loop 0 i topicFilter cur = Some cur"
| "unsubscribe_payload_loop (Suc n) i topicFilter cur = do {
     s \<leftarrow> filter_arg topicFilter i;
     cur \<leftarrow> mqtt_write_utf8_string s cur;
     unsubscribe_payload_loop n (Suc i) topicFilter cur }"

definition serialize_unsubscribe_packet :: "buffer \<Rightarrow> nat \<Rightarrow> u8 \<Rightarrow> u16 \<Rightarrow> nat \<Rightarrow> cstring
    \<Rightarrow> (int + nat \<times> buffer) option" where
  "serialize_unsubscribe_packet buf buf_len dup packet_id count topicFilter = do {
     rem_len \<leftarrow> get_unsubscribe_packet_rem_len count topicFilter;
     if get_mqtt_packet_len rem_len > buf_len then Some (Inl QCLOUD_ERR_BUF_TOO_SHORT)
     else case mqtt_init_packet_header UNSUBSCRIBE QOS1 dup 0 of
       Inl rc \<Rightarrow> Some (Inl rc)
     | Inr header \<Rightarrow> do {
         cur \<leftarrow> mqtt_write_char header (buf, 0);
         cur \<leftarrow> mqtt_write_packet_rem_len rem_len cur;
         cur \<leftarrow> mqtt_write_uint_16 packet_id cur;
         (buf, ptr) \<leftarrow> unsubscribe_payload_loop count 0 topicFilter cur;
         Some (Inr (ptr, buf)) } }"

text \<open>
  \<open>MQTTConnectParams\<close> as far as the packet depends on it. The modelled build is the one of the
  component's build file, without \<open>AUTH_WITH_NOTLS\<close>.
\<close>

record MQTTConnectParams =
  client_id :: cstring
  username :: "cstring option"
  password :: "cstring option"
  conn_id :: cstring
  mqtt_version :: u8
  keep_alive_interval :: u16
  clean_session :: bool
  auto_connect_enable :: bool

definition copy_connect_params :: "MQTTConnectParams \<Rightarrow> MQTTConnectParams \<Rightarrow> MQTTConnectParams" where
  "copy_connect_params dst src = dst\<lparr>mqtt_version := mqtt_version src, client_id := client_id src,
     username := username src, keep_alive_interval := keep_alive_interval src,
     clean_session := clean_session src, auto_connect_enable := auto_connect_enable src\<rparr>"

definition get_packet_connect_rem_len :: "MQTTConnectParams \<Rightarrow> nat" where
  "get_packet_connect_rem_len options = (let
     len = (if mqtt_version options = 3 then 12 else if mqtt_version options = 4 then 10 else 0);
     len = len + length (client_id options) + 2;
     len = (case username options of None \<Rightarrow> len | Some u \<Rightarrow> len + length u + 2);
     len = (case password options of None \<Rightarrow> len | Some w \<Rightarrow> len + length w + 2)
   in len mod 2 ^ 32)"

text \<open>\<open>QCLOUD_IOT_DEVICE_SDK_APPID\<close> is \<open>21010406\<close>; \<open>MAX_CONN_ID_LEN\<close> is 6.\<close>

definition QCLOUD_IOT_DEVICE_SDK_APPID :: cstring where
  "QCLOUD_IOT_DEVICE_SDK_APPID = [50, 49, 48, 49, 48, 52, 48, 54]"

definition MAX_CONN_ID_LEN :: nat where "MAX_CONN_ID_LEN = 6"

definition LONG_MAX :: nat where "LONG_MAX = 2147483647"

text \<open>The decimal digits of a number, as \<open>%ld\<close> prints it, and the loop that counts them.\<close>

fun dec_digits :: "nat \<Rightarrow> cstring" where
  "dec_digits n = (if n < 10 then [48 + of_nat n] else dec_digits (n div 10) @ [48 + of_nat (n mod 10)])"

fun count_digits :: "nat \<Rightarrow> nat" where
  "count_digits n = (if n \<noteq> 0 then Suc (count_digits (n div 10)) else 0)"

declare dec_digits.simps [simp del] count_digits.simps [simp del]

text \<open>
  The user name of a connection. \<open>MAX_ACCESS_EXPIRE_TIMEOUT\<close> is 0, so the expiry is always
  \<open>LONG_MAX\<close>; \<open>HAL_Snprintf\<close> cuts at the size of the allocated block, whose last byte is the
  terminator.
\<close>

definition connect_username :: "MQTTConnectParams \<Rightarrow> cstring" where
  "connect_username options = (let
     cur_timesec = LONG_MAX;
     username_len = length (client_id options) + length QCLOUD_IOT_DEVICE_SDK_APPID
       + MAX_CONN_ID_LEN + count_digits cur_timesec + 4
   in take (username_len - 1)
        (client_id options @ [59] @ QCLOUD_IOT_DEVICE_SDK_APPID @ [59] @ conn_id options @ [59]
          @ dec_digits cur_timesec))"

definition connect_flags :: "MQTTConnectParams \<Rightarrow> u8" where
  "connect_flags options = (if clean_session options then 0x02 else 0)
     OR (if username options \<noteq> None then 0x80 else 0)"

text \<open>
  The writes of \<open>_serialize_connect_packet\<close> behind its length check. The user name is freed and
  reset once it is written.
\<close>

definition connect_fields :: "u8 \<Rightarrow> nat \<Rightarrow> MQTTConnectParams \<Rightarrow> cursor \<Rightarrow> (cursor \<times> MQTTConnectParams) option" where
  "connect_fields header rem_len options cur = do {
     cur \<leftarrow> mqtt_write_char header cur;
     cur \<leftarrow> mqtt_write_packet_rem_len rem_len cur;
     cur \<leftarrow> (if mqtt_version options = 4
             then Option.bind (mqtt_write_utf8_string [77, 81, 84, 84] cur) (mqtt_write_char 4)
             else Option.bind (mqtt_write_utf8_string [77, 81, 73, 115, 100, 112] cur) (mqtt_write_char 3));
     cur \<leftarrow> mqtt_write_char (connect_flags options) cur;
     cur \<leftarrow> mqtt_write_uint_16 (keep_alive_interval options) cur;
     cur \<leftarrow> mqtt_write_utf8_string (client_id options) cur;
     (cur, options') \<leftarrow> (case username options of
         Some u \<Rightarrow> if connect_flags options AND 0x80 \<noteq> 0
           then do { cur \<leftarrow> mqtt_write_utf8_string u cur; Some (cur, options\<lparr>username := None\<rparr>) }
           else Some (cur, options)
       | None \<Rightarrow> Some (cur, options));
     (case password options' of
         Some w \<Rightarrow> if connect_flags options AND 0x40 \<noteq> 0
           then do { cur \<leftarrow> mqtt_write_utf8_string w cur; Some (cur, options'\<lparr>password := None\<rparr>) }
           else Some (cur, options')
       | None \<Rightarrow> Some (cur, options')) }"

text \<open>
  \<open>c_id\<close> is the connection id \<open>get_next_conn_id\<close> writes, \<open>alloc\<close> whether \<open>HAL_Malloc\<close> succeeds:
  with a null user name \<open>HAL_Snprintf\<close> writes through the null pointer. On every error return
  behind the allocation the options keep the user name; on success it is freed and reset.
\<close>

definition serialize_connect_packet :: "bool \<Rightarrow> cstring \<Rightarrow> buffer \<Rightarrow> nat \<Rightarrow> MQTTConnectParams
    \<Rightarrow> ((int + nat \<times> buffer) \<times> MQTTConnectParams) option" where
  "serialize_connect_packet alloc c_id buf buf_len options =
     (if client_id options = [] then Some (Inl QCLOUD_ERR_INVAL, options)
      else if \<not> alloc then None
      else
        let options = options\<lparr>conn_id := c_id\<rparr>;
            options = options\<lparr>username := Some (connect_username options)\<rparr>;
            rem_len = get_packet_connect_rem_len options in
        if get_mqtt_packet_len rem_len > buf_len then Some (Inl QCLOUD_ERR_BUF_TOO_SHORT, options)
        else case mqtt_init_packet_header CONNECT QOS0 0 0 of
          Inl rc \<Rightarrow> Some (Inl rc, options)
        | Inr header \<Rightarrow> do {
            ((buf, ptr), options) \<leftarrow> connect_fields header rem_len options (buf, 0);
            Some (Inr (ptr, buf), options) })"

section \<open>Deserialising\<close>

text \<open>The packet type, the dup flag and the packet id.\<close>

definition deserialize_ack_packet :: "buffer \<Rightarrow> nat \<Rightarrow> (int + u8 \<times> u8 \<times> u16) option" where
  "deserialize_ack_packet buf buf_len =
     (if 4 > buf_len then Some (Inl QCLOUD_ERR_BUF_TOO_SHORT)
      else do {
        (header, curdata) \<leftarrow> mqtt_read_char buf 0;
        let packet_type = hdr_type header; dup = hdr_dup header in do {
        r \<leftarrow> mqtt_read_packet_rem_len_form_buf buf curdata;
        case r of Inl rc \<Rightarrow> Some (Inl rc)
        | Inr (decodedLen, readBytesLen) \<Rightarrow>
          let curdata = curdata + readBytesLen; enddata = curdata + decodedLen in
          if int enddata - int curdata < 2 then Some (Inl QCLOUD_ERR_FAILURE)
          else do {
            (packet_id, curdata) \<leftarrow> mqtt_read_uint16_t buf curdata;
            if int enddata - int curdata \<ge> 1 then do {
              (ack_code, curdata) \<leftarrow> mqtt_read_char buf curdata;
              if ack_code \<noteq> 0 then Some (Inl QCLOUD_ERR_FAILURE)
              else Some (Inr (packet_type, dup, packet_id))
            } else Some (Inr (packet_type, dup, packet_id)) } } })"

definition deserialize_unsuback_packet :: "buffer \<Rightarrow> nat \<Rightarrow> (int + u16) option" where
  "deserialize_unsuback_packet buf buf_len = do {
     r \<leftarrow> deserialize_ack_packet buf buf_len;
     case r of Inl rc \<Rightarrow> Some (Inl rc)
     | Inr (type, dup, packet_id) \<Rightarrow>
         if type \<noteq> msg_type_code UNSUBACK then Some (Inl QCLOUD_ERR_FAILURE)
         else Some (Inr packet_id) }"

text \<open>The grants are written into the caller's array \<open>qs\<close>; the result is the count with the array.\<close>

function suback_loop :: "buffer \<Rightarrow> nat \<Rightarrow> nat \<Rightarrow> nat \<Rightarrow> nat \<Rightarrow> u8 list \<Rightarrow> (int + nat \<times> u8 list) option" where
  "suback_loop buf curdata enddata max_count count qs =
     (if curdata < enddata then
        if count > max_count then Some (Inl QCLOUD_ERR_FAILURE)
        else do {
          (q, curdata') \<leftarrow> mqtt_read_char buf curdata;
          qs \<leftarrow> mem_write qs count q;
          suback_loop buf (Suc curdata) enddata max_count (Suc count) qs
        }
      else Some (Inr (count, qs)))"
  by pat_completeness auto
termination by (relation "measure (\<lambda>(buf, c, e, _). e - c)") auto

declare suback_loop.simps [simp del]

definition deserialize_suback_packet :: "buffer \<Rightarrow> nat \<Rightarrow> nat \<Rightarrow> u8 list
    \<Rightarrow> (int + u16 \<times> nat \<times> u8 list) option" where
  "deserialize_suback_packet buf buf_len max_count grantedQoSs =
     (if 5 > buf_len then Some (Inl QCLOUD_ERR_BUF_TOO_SHORT)
      else do {
        (header, curdata) \<leftarrow> mqtt_read_char buf 0;
        if hdr_type header \<noteq> msg_type_code SUBACK then Some (Inl QCLOUD_ERR_FAILURE)
        else do {
          r \<leftarrow> mqtt_read_packet_rem_len_form_buf buf curdata;
          case r of Inl rc \<Rightarrow> Some (Inl rc)
          | Inr (decodedLen, readBytesLen) \<Rightarrow>
            let curdata = curdata + readBytesLen; enddata = curdata + decodedLen in
            if int enddata - int curdata < 2 then Some (Inl QCLOUD_ERR_FAILURE)
            else do {
              (packet_id, curdata) \<leftarrow> mqtt_read_uint16_t buf curdata;
              r \<leftarrow> suback_loop buf curdata enddata max_count 0 grantedQoSs;
              case r of Inl rc \<Rightarrow> Some (Inl rc)
              | Inr (count, qs) \<Rightarrow> Some (Inr (packet_id, count, qs)) } } })"

text \<open>
  A received publish. Topic and payload are pointers into the read buffer, given as offset and
  length; the packet id is stored only for QoS above 0.
\<close>

record publish_view =
  pv_dup :: u8
  pv_qos :: u8
  pv_retained :: u8
  pv_packet_id :: "u16 option"
  pv_topic :: nat
  pv_topic_len :: nat
  pv_payload :: nat
  pv_payload_len :: nat

definition deserialize_publish_packet :: "buffer \<Rightarrow> nat \<Rightarrow> (int + publish_view) option" where
  "deserialize_publish_packet buf buf_len =
     (if 4 > buf_len then Some (Inl QCLOUD_ERR_BUF_TOO_SHORT)
      else do {
        (header, curdata) \<leftarrow> mqtt_read_char buf 0;
        if hdr_type header \<noteq> msg_type_code PUBLISH then Some (Inl QCLOUD_ERR_FAILURE)
        else do {
          r \<leftarrow> mqtt_read_packet_rem_len_form_buf buf curdata;
          case r of Inl rc \<Rightarrow> Some (Inl rc)
          | Inr (decodedLen, readBytesLen) \<Rightarrow>
            let curdata = curdata + readBytesLen; enddata = curdata + decodedLen in do {
            t \<leftarrow> read_string_with_len buf curdata enddata;
            case t of Inl rc \<Rightarrow> Some (Inl QCLOUD_ERR_FAILURE)
            | Inr (topic, topic_len, curdata) \<Rightarrow>
              if 0 > int enddata - int curdata then Some (Inl QCLOUD_ERR_FAILURE)
              else do {
                (pid, curdata) \<leftarrow> (if hdr_qos header \<noteq> QOS0
                   then do { (n, c) \<leftarrow> mqtt_read_uint16_t buf curdata; Some (Some n, c) }
                   else Some (None, curdata));
                Some (Inr \<lparr>pv_dup = hdr_dup header, pv_qos = hdr_qos header,
                  pv_retained = hdr_retained header, pv_packet_id = pid,
                  pv_topic = topic, pv_topic_len = topic_len, pv_payload = curdata,
                  pv_payload_len = nat ((int enddata - int curdata) mod 2 ^ 32)\<rparr>) } } } })"

text \<open>The session-present flag and the code \<open>connack_rc\<close>.\<close>

definition connack_code :: "u8 \<Rightarrow> int" where
  "connack_code c =
     (if c = 0 then QCLOUD_RET_MQTT_CONNACK_CONNECTION_ACCEPTED
      else if c = 1 then QCLOUD_ERR_MQTT_CONNACK_UNACCEPTABLE_PROTOCOL_VERSION
      else if c = 2 then QCLOUD_ERR_MQTT_CONNACK_IDENTIFIER_REJECTED
      else if c = 3 then QCLOUD_ERR_MQTT_CONNACK_SERVER_UNAVAILABLE
      else if c = 4 then QCLOUD_ERR_MQTT_CONNACK_BAD_USERDATA
      else if c = 5 then QCLOUD_ERR_MQTT_CONNACK_NOT_AUTHORIZED
      else QCLOUD_ERR_MQTT_CONNACK_UNKNOWN)"

definition deserialize_connack_packet :: "buffer \<Rightarrow> nat \<Rightarrow> (int + u8 \<times> int) option" where
  "deserialize_connack_packet buf buflen =
     (if 4 > buflen then Some (Inl QCLOUD_ERR_BUF_TOO_SHORT)
      else do {
        (header, curdata) \<leftarrow> mqtt_read_char buf 0;
        if hdr_type header \<noteq> msg_type_code CONNACK then Some (Inl QCLOUD_ERR_FAILURE)
        else do {
          r \<leftarrow> mqtt_read_packet_rem_len_form_buf buf curdata;
          case r of Inl rc \<Rightarrow> Some (Inl rc)
          | Inr (decodedLen, readBytesLen) \<Rightarrow>
            let curdata = curdata + readBytesLen; enddata = curdata + decodedLen in
            if int enddata - int curdata \<noteq> 2 then Some (Inl QCLOUD_ERR_FAILURE)
            else do {
              (flags, curdata) \<leftarrow> mqtt_read_char buf curdata;
              (c, curdata) \<leftarrow> mqtt_read_char buf curdata;
              Some (Inr (flags AND 0x01, connack_code c)) } } })"

section \<open>What the serialisers write\<close>

lemmas written_simps = write_char.wr_written write_uint16.wr_written write_utf8.wr_written
  write_rem_len.wr_written

lemmas field_simps_len = length_char_bytes length_uint16_bytes length_utf8_bytes

lemma case_written: "(case written b xs of (buf, p) \<Rightarrow> f buf p) = f (overlay b 0 xs) (length xs)"
  by (simp add: written_def)

lemma packet_fits:
  assumes "get_mqtt_packet_len n \<le> L" and "L < 2 ^ 28" and "n + 8 < 2 ^ 32"
  shows "n < 2 ^ 28" and "1 + length (rem_len_bytes n) + n \<le> L"
proof -
  show n: "n < 2 ^ 28"
  proof (rule ccontr)
    assume "\<not> n < 2 ^ 28"
    then have "get_mqtt_packet_len n = n + 5"
      using assms(3) by (simp add: get_mqtt_packet_len_def)
    then show False using assms \<open>\<not> n < 2 ^ 28\<close> by simp
  qed
  show "1 + length (rem_len_bytes n) + n \<le> L"
    using packet_len_bound(1) [OF n] assms(1) by simp
qed

lemma zero_payload_spec:
  assumes "4 \<le> buf_len" and "buf_len \<le> length buf" and "t \<noteq> RESERVED"
  shows "\<exists>h. mqtt_init_packet_header t 0 0 0 = Inr h
    \<and> serialize_packet_with_zero_payload buf buf_len t = Some (Inr (2, overlay buf 0 [h, 0]))"
proof -
  obtain h where h: "mqtt_init_packet_header t 0 0 0 = Inr h"
    using assms(3) header_error [of t 0 0 0] by (cases "mqtt_init_packet_header t 0 0 0") auto
  moreover have "length (rem_len_bytes 0) = 1" "rem_len_bytes 0 = [0]"
    by (simp_all add: rem_len_bytes.simps)
  ultimately show ?thesis
    using assms by (simp add: serialize_packet_with_zero_payload_def written_start written_simps
        char_bytes_def case_written)
qed

lemma pub_ack_spec:
  assumes "4 \<le> buf_len" and "buf_len \<le> length buf" and "t \<noteq> RESERVED"
  shows "\<exists>h. mqtt_init_packet_header t (if t = PUBREL then 1 else 0) dup 0 = Inr h
    \<and> serialize_pub_ack_packet buf buf_len t dup pid = Some (Inr (4, overlay buf 0 ([h, 2] @ uint16_bytes pid)))"
proof -
  obtain h where h: "mqtt_init_packet_header t (if t = PUBREL then 1 else 0) dup 0 = Inr h"
    using assms(3) header_error [of t "if t = PUBREL then 1 else 0" dup 0]
    by (cases "mqtt_init_packet_header t (if t = PUBREL then 1 else 0) dup 0") auto
  moreover have "rem_len_bytes 2 = [2]"
    by (simp add: rem_len_bytes.simps)
  ultimately show ?thesis
    using assms by (simp add: serialize_pub_ack_packet_def written_start written_simps
        char_bytes_def case_written Let_def)
qed

text \<open>A publish packet as the sequence of its fields.\<close>

definition publish_bytes :: "u8 \<Rightarrow> u8 \<Rightarrow> u16 \<Rightarrow> cstring \<Rightarrow> buffer \<Rightarrow> u8 list" where
  "publish_bytes header qos packet_id topic payload =
     [header] @ rem_len_bytes (get_publish_packet_len qos topic (length payload)) @ utf8_bytes topic
       @ (if qos > 0 then uint16_bytes packet_id else []) @ payload"

lemma publish_spec:
  assumes "buf_len \<le> length buf" and "buf_len < 2 ^ 28"
    and "length topic + length payload + 16 < 2 ^ 32"
    and "get_mqtt_packet_len (get_publish_packet_len qos topic (length payload)) \<le> buf_len"
  shows "\<exists>h. mqtt_init_packet_header PUBLISH qos dup retained = Inr h
    \<and> length (publish_bytes h qos pid topic payload) \<le> buf_len
    \<and> serialize_publish_packet buf buf_len dup qos retained pid topic (Some (payload @ rest)) (length payload)
      = Some (Inr (length (publish_bytes h qos pid topic payload),
                   overlay buf 0 (publish_bytes h qos pid topic payload)))"
proof -
  let ?n = "get_publish_packet_len qos topic (length payload)"
  have n: "?n = 2 + length topic + length payload + (if qos > 0 then 2 else 0)"
    using assms(3) by (simp add: get_publish_packet_len_def)
  have fits: "?n < 2 ^ 28" "1 + length (rem_len_bytes ?n) + ?n \<le> buf_len"
    using packet_fits [OF assms(4,2)] assms(3) n by (auto split: if_splits)
  obtain h where h: "mqtt_init_packet_header PUBLISH qos dup retained = Inr h"
    using header_error [of PUBLISH qos dup retained]
    by (cases "mqtt_init_packet_header PUBLISH qos dup retained") auto
  have len: "length (publish_bytes h qos pid topic payload) \<le> buf_len"
    using fits n by (simp add: publish_bytes_def split: if_splits)
  let ?pre = "[h] @ rem_len_bytes ?n @ utf8_bytes topic @ (if qos > 0 then uint16_bytes pid else [])"
  have copy: "mem_copy (overlay buf 0 ?pre) (length ?pre) payload = Some (overlay buf 0 (?pre @ payload))"
    using len assms(1) by (intro mem_copy_written) (simp add: publish_bytes_def)
  have src: "mem_slice (payload @ rest) 0 (length payload) = Some payload"
    using mem_slice_at [of "[]" payload rest] by simp
  have "serialize_publish_packet buf buf_len dup qos retained pid topic (Some (payload @ rest)) (length payload)
      = Some (Inr (length (publish_bytes h qos pid topic payload),
                   overlay buf 0 (publish_bytes h qos pid topic payload)))"
    using assms(1,4) h len fits n src copy
    by (cases "qos > 0")
      (simp_all add: serialize_publish_packet_def Let_def written_start written_simps publish_bytes_def
        char_bytes_def case_written)
  with h len show ?thesis by blast
qed

definition subscribe_bytes :: "u8 \<Rightarrow> u16 \<Rightarrow> cstring \<Rightarrow> u8 \<Rightarrow> u8 list" where
  "subscribe_bytes header packet_id topic qos =
     [header] @ rem_len_bytes (5 + length topic) @ uint16_bytes packet_id @ utf8_bytes topic @ [qos]"

lemma subscribe_spec:
  assumes "buf_len \<le> length buf" and "buf_len < 2 ^ 28" and "length topic + 16 < 2 ^ 32"
    and "get_mqtt_packet_len (5 + length topic) \<le> buf_len"
  shows "\<exists>h. mqtt_init_packet_header SUBSCRIBE QOS1 dup 0 = Inr h
    \<and> length (subscribe_bytes h pid topic qos) \<le> buf_len
    \<and> serialize_subscribe_packet buf buf_len dup pid 1 topic [qos]
      = Some (Inr (length (subscribe_bytes h pid topic qos), overlay buf 0 (subscribe_bytes h pid topic qos)))"
proof -
  have fits: "1 + length (rem_len_bytes (5 + length topic)) + (5 + length topic) \<le> buf_len"
    using packet_fits [OF assms(4,2)] assms(3) by auto
  obtain h where h: "mqtt_init_packet_header SUBSCRIBE QOS1 dup 0 = Inr h"
    using header_error [of SUBSCRIBE 1 dup 0] by (cases "mqtt_init_packet_header SUBSCRIBE 1 dup 0") auto
  have n: "get_subscribe_packet_rem_len 1 topic = Some (5 + length topic)"
    using assms(3) by (simp add: get_subscribe_packet_rem_len_def filter_arg_def)
  have "length (subscribe_bytes h pid topic qos) \<le> buf_len"
    using fits by (simp add: subscribe_bytes_def)
  moreover have "serialize_subscribe_packet buf buf_len dup pid 1 topic [qos]
      = Some (Inr (length (subscribe_bytes h pid topic qos), overlay buf 0 (subscribe_bytes h pid topic qos)))"
    using assms(1,4) h fits n
    by (simp add: serialize_subscribe_packet_def written_start written_simps subscribe_bytes_def
        char_bytes_def case_written filter_arg_def mem_simps)
  ultimately show ?thesis using h by blast
qed

definition unsubscribe_bytes :: "u8 \<Rightarrow> u16 \<Rightarrow> cstring \<Rightarrow> u8 list" where
  "unsubscribe_bytes header packet_id topic =
     [header] @ rem_len_bytes (4 + length topic) @ uint16_bytes packet_id @ utf8_bytes topic"

lemma unsubscribe_spec:
  assumes "buf_len \<le> length buf" and "buf_len < 2 ^ 28" and "length topic + 16 < 2 ^ 32"
    and "get_mqtt_packet_len (4 + length topic) \<le> buf_len"
  shows "\<exists>h. mqtt_init_packet_header UNSUBSCRIBE QOS1 dup 0 = Inr h
    \<and> length (unsubscribe_bytes h pid topic) \<le> buf_len
    \<and> serialize_unsubscribe_packet buf buf_len dup pid 1 topic
      = Some (Inr (length (unsubscribe_bytes h pid topic), overlay buf 0 (unsubscribe_bytes h pid topic)))"
proof -
  have fits: "1 + length (rem_len_bytes (4 + length topic)) + (4 + length topic) \<le> buf_len"
    using packet_fits [OF assms(4,2)] assms(3) by auto
  obtain h where h: "mqtt_init_packet_header UNSUBSCRIBE QOS1 dup 0 = Inr h"
    using header_error [of UNSUBSCRIBE 1 dup 0] by (cases "mqtt_init_packet_header UNSUBSCRIBE 1 dup 0") auto
  have n: "get_unsubscribe_packet_rem_len 1 topic = Some (4 + length topic)"
    using assms(3) by (simp add: get_unsubscribe_packet_rem_len_def filter_arg_def)
  have "length (unsubscribe_bytes h pid topic) \<le> buf_len"
    using fits by (simp add: unsubscribe_bytes_def)
  moreover have "serialize_unsubscribe_packet buf buf_len dup pid 1 topic
      = Some (Inr (length (unsubscribe_bytes h pid topic), overlay buf 0 (unsubscribe_bytes h pid topic)))"
    using assms(1,4) h fits n
    by (simp add: serialize_unsubscribe_packet_def written_start written_simps unsubscribe_bytes_def
        char_bytes_def case_written filter_arg_def)
  ultimately show ?thesis using h by blast
qed

section \<open>Reading back what was written\<close>

definition publish_view_of :: "nat \<Rightarrow> u8 \<Rightarrow> u8 \<Rightarrow> u8 \<Rightarrow> u16 \<Rightarrow> cstring \<Rightarrow> buffer \<Rightarrow> publish_view" where
  "publish_view_of off dup qos retained pid topic payload =
     \<lparr>pv_dup = dup AND 1, pv_qos = qos, pv_retained = retained AND 1,
      pv_packet_id = (if qos > 0 then Some pid else None),
      pv_topic = off + 2, pv_topic_len = length topic,
      pv_payload = off + 2 + length topic + (if qos > 0 then 2 else 0), pv_payload_len = length payload\<rparr>"

lemma publish_read_back:
  assumes h: "mqtt_init_packet_header PUBLISH qos dup retained = Inr h" and q: "qos = 0 \<or> qos = 1 \<or> qos = 2"
    and t: "length topic \<le> QCLOUD_IOT_MQTT_RX_BUF_LEN" and n: "length topic + length payload + 4 < 2 ^ 28"
    and L: "4 \<le> buf_len"
  defines "off \<equiv> 1 + length (rem_len_bytes (get_publish_packet_len qos topic (length payload)))"
  shows "deserialize_publish_packet (publish_bytes h qos pid topic payload @ rest) buf_len
    = Some (Inr (publish_view_of off dup qos retained pid topic payload))"
proof -
  let ?n = "get_publish_packet_len qos topic (length payload)"
  let ?b = "publish_bytes h qos pid topic payload @ rest"
  let ?tail = "(if qos > 0 then uint16_bytes pid else []) @ payload @ rest"
  have nn: "?n = 2 + length topic + length payload + (if qos > 0 then 2 else 0)"
    using n by (simp add: get_publish_packet_len_def)
  have b: "?b = [h] @ rem_len_bytes ?n @ utf8_bytes topic @ ?tail"
    by (simp add: publish_bytes_def)
  have hdr: "hdr_type h = msg_type_code PUBLISH" "hdr_dup h = dup AND 1" "hdr_qos h = qos"
    "hdr_retained h = retained AND 1"
    using header_decode [OF h] q by auto
  have r1: "mqtt_read_char ?b 0 = Some (h, 1)"
    by (simp add: mqtt_read_char_def b mem_simps)
  have r2: "mqtt_read_packet_rem_len_form_buf ?b 1 = Some (Inr (?n, length (rem_len_bytes ?n)))"
    using read_rem_len_at [of ?n "[h]" "utf8_bytes topic @ ?tail"] n nn by (simp add: b)
  have r3: "read_string_with_len ?b off (off + ?n) = Some (Inr (off + 2, length topic, off + 2 + length topic))"
    using read_string_at [OF t, of "[h] @ rem_len_bytes ?n" "off + ?n" ?tail] nn by (simp add: b off_def)
  have r4: "mqtt_read_uint16_t ?b (off + 2 + length topic) = Some (pid, off + 2 + length topic + 2)" if "qos > 0"
    using read_uint16_at [of "[h] @ rem_len_bytes ?n @ utf8_bytes topic" pid "payload @ rest"] that
    by (simp add: b off_def)
  have sz: "nat ((int (off + ?n) - int (off + 2 + length topic + (if qos > 0 then 2 else 0))) mod 2 ^ 32) = length payload"
    using nn n by auto
  obtain k where k: "off = Suc k" "length (rem_len_bytes ?n) = k" by (simp add: off_def)
  show ?thesis
    using L r1 r2 r3 r4 hdr nn sz k
    by (cases "qos = 0") (auto simp: deserialize_publish_packet_def publish_view_of_def word_gt_0)
qed

text \<open>The two fields the view points to.\<close>

lemma publish_view_slices:
  defines "off qos topic payload \<equiv> 1 + length (rem_len_bytes (get_publish_packet_len qos topic (length payload)))"
  shows "mem_slice (publish_bytes h qos pid topic payload @ rest) (off qos topic payload + 2) (length topic) = Some topic"
    and "mem_slice (publish_bytes h qos pid topic payload @ rest)
      (off qos topic payload + 2 + length topic + (if qos > 0 then 2 else 0)) (length payload) = Some payload"
proof -
  let ?n = "get_publish_packet_len qos topic (length payload)"
  let ?idl = "if qos > 0 then uint16_bytes pid else []"
  show "mem_slice (publish_bytes h qos pid topic payload @ rest) (off qos topic payload + 2) (length topic) = Some topic"
    using mem_slice_at [of "[h] @ rem_len_bytes ?n @ uint16_bytes (of_nat (length topic))" topic "?idl @ payload @ rest"]
    by (simp add: publish_bytes_def utf8_bytes_def off_def)
  show "mem_slice (publish_bytes h qos pid topic payload @ rest)
      (off qos topic payload + 2 + length topic + (if qos > 0 then 2 else 0)) (length payload) = Some payload"
    using mem_slice_at [of "[h] @ rem_len_bytes ?n @ utf8_bytes topic @ ?idl" payload rest]
    by (auto simp: publish_bytes_def off_def split: if_splits)
qed

text \<open>Acknowledgements.\<close>

lemma ack_read_back:
  assumes h: "mqtt_init_packet_header t q dup r = Inr h" and L: "4 \<le> buf_len"
  shows "deserialize_ack_packet ([h, 2] @ uint16_bytes pid @ rest) buf_len
    = Some (Inr (msg_type_code t, dup AND 1, pid))"
proof -
  let ?b = "[h, 2] @ uint16_bytes pid @ rest"
  have "rem_len_bytes 2 = [2]" by (simp add: rem_len_bytes.simps)
  then have r2: "mqtt_read_packet_rem_len_form_buf ?b 1 = Some (Inr (2, 1))"
    using read_rem_len_at [of 2 "[h]" "uint16_bytes pid @ rest"] by simp
  have r3: "mqtt_read_uint16_t ?b 2 = Some (pid, 4)"
    using read_uint16_at [of "[h, 2]" pid rest] by (simp add: eval_nat_numeral)
  show ?thesis
    using L header_decode [OF h] r2 r3
    by (simp add: deserialize_ack_packet_def mqtt_read_char_def mem_simps numeral_2_eq_2)
qed

text \<open>
  A SUBACK loop on a well-formed packet copies the grants; one more grant than \<open>max_count\<close> is
  still accepted.
\<close>

lemma suback_loop_spec:
  assumes "c + k \<le> length buf" and "length qs = m + r" and "m + k \<le> Suc max_count" and "m + k \<le> length qs"
  shows "suback_loop buf c (c + k) max_count m qs
    = Some (Inr (m + k, overlay qs m (take k (drop c buf))))"
  using assms
proof (induction k arbitrary: c m qs r)
  case 0
  then show ?case by (simp add: suback_loop.simps)
next
  case (Suc k)
  have rd: "mqtt_read_char buf c = Some (buf ! c, Suc c)"
    using Suc.prems by (simp add: mqtt_read_char_def mem_read_def)
  have wr: "mem_write qs m (buf ! c) = Some (overlay qs m [buf ! c])"
    using Suc.prems by (simp add: mem_write_overlay)
  have "suback_loop buf (Suc c) (Suc c + k) max_count (Suc m) (overlay qs m [buf ! c])
      = Some (Inr (Suc m + k, overlay (overlay qs m [buf ! c]) (Suc m) (take k (drop (Suc c) buf))))"
    using Suc.prems by (intro Suc.IH [of _ _ _ "r - 1"]) simp_all
  moreover have "overlay (overlay qs m [buf ! c]) (Suc m) (take k (drop (Suc c) buf))
      = overlay qs m (take (Suc k) (drop c buf))"
    using overlay_overlay [of m "[buf ! c]" "take k (drop (Suc c) buf)" qs] Suc.prems
    by (simp add: Cons_nth_drop_Suc [symmetric] del: take_Suc_Cons) (simp add: Cons_nth_drop_Suc [symmetric])
  ultimately show ?case
    using rd wr Suc.prems by (subst suback_loop.simps) simp
qed

lemma suback_loop_bounded:
  "suback_loop buf c e max_count m qs = Some (Inr (n, qs')) \<Longrightarrow> m \<le> Suc max_count \<Longrightarrow> n \<le> Suc max_count"
  by (induction buf c e max_count m qs rule: suback_loop.induct)
    (subst (asm) (2) suback_loop.simps, auto split: if_splits bind_splits simp: mqtt_read_char_def)

text \<open>
  The decoder of a publish on any bytes. The payload ends where the packet ends, except when a
  packet id was expected with fewer than two bytes left: then the payload pointer is behind the
  end and the payload length is the negative difference as a \<open>size_t\<close>.
\<close>

lemma publish_decode_range:
  assumes d: "deserialize_publish_packet b L = Some (Inr v)"
  shows "\<exists>n k. mqtt_read_packet_rem_len_form_buf b 1 = Some (Inr (n, k))
    \<and> pv_topic v + pv_topic_len v \<le> 1 + k + n \<and> pv_topic_len v \<le> QCLOUD_IOT_MQTT_RX_BUF_LEN
    \<and> pv_payload v = pv_topic v + pv_topic_len v + (if pv_qos v \<noteq> 0 then 2 else 0)
    \<and> pv_payload_len v = nat ((int (1 + k + n) - int (pv_payload v)) mod 2 ^ 32)"
  using assms
  by (auto simp: deserialize_publish_packet_def read_string_with_len_def mqtt_read_char_def
      mqtt_read_uint16_t_def Let_def split: if_splits bind_splits sum.splits)

lemma publish_missing_id:
  assumes h: "mqtt_init_packet_header PUBLISH qos dup retained = Inr h" and q: "qos = 1 \<or> qos = 2"
    and t: "length topic \<le> QCLOUD_IOT_MQTT_RX_BUF_LEN" and L: "4 \<le> buf_len" and r: "2 \<le> length rest"
  shows "\<exists>v. deserialize_publish_packet ([h] @ rem_len_bytes (2 + length topic) @ utf8_bytes topic @ rest) buf_len
      = Some (Inr v)
    \<and> pv_payload_len v = 4294967294"
proof -
  let ?n = "2 + length topic"
  let ?b = "[h] @ rem_len_bytes ?n @ utf8_bytes topic @ rest"
  let ?off = "Suc (length (rem_len_bytes ?n))"
  have hdr: "hdr_type h = 3" "hdr_qos h \<noteq> 0"
    using header_decode [OF h] q by auto
  have r1: "mqtt_read_char ?b 0 = Some (h, 1)"
    by (simp add: mqtt_read_char_def mem_simps)
  have r2: "mqtt_read_packet_rem_len_form_buf ?b 1 = Some (Inr (?n, length (rem_len_bytes ?n)))"
    using read_rem_len_at [of ?n "[h]" "utf8_bytes topic @ rest"] t by (simp add: qos_defs)
  have r3: "read_string_with_len ?b ?off (?off + ?n) = Some (Inr (?off + 2, length topic, ?off + 2 + length topic))"
    using read_string_at [OF t, of "[h] @ rem_len_bytes ?n" "?off + ?n" rest] by simp
  have r4: "mqtt_read_uint16_t ?b (?off + 2 + length topic)
      = Some (of_nat (unat (rest ! 1) + 256 * unat (rest ! 0)), ?off + 4 + length topic)"
    using r by (auto simp: mqtt_read_uint16_t_def mem_read_def nth_append)
  show ?thesis
    using L r1 r2 r3 r4 hdr by (simp add: deserialize_publish_packet_def)
qed

section \<open>CONNECT and CONNACK\<close>

lemma LONG_MAX_digits: "dec_digits LONG_MAX = [50, 49, 52, 55, 52, 56, 51, 54, 52, 55]" "count_digits LONG_MAX = 10"
  by (simp_all add: LONG_MAX_def dec_digits.simps count_digits.simps)

lemma connect_username_whole:
  assumes "length (conn_id opt) = 5"
  shows "connect_username opt = client_id opt @ [59] @ QCLOUD_IOT_DEVICE_SDK_APPID @ [59] @ conn_id opt @ [59]
    @ dec_digits LONG_MAX"
  using assms by (simp add: connect_username_def LONG_MAX_digits QCLOUD_IOT_DEVICE_SDK_APPID_def MAX_CONN_ID_LEN_def)

definition connect_bytes :: "u8 \<Rightarrow> MQTTConnectParams \<Rightarrow> cstring \<Rightarrow> u8 list" where
  "connect_bytes header opt user =
     [header] @ rem_len_bytes (get_packet_connect_rem_len (opt\<lparr>username := Some user\<rparr>))
     @ (if mqtt_version opt = 4 then utf8_bytes [77, 81, 84, 84] @ [4]
        else utf8_bytes [77, 81, 73, 115, 100, 112] @ [3])
     @ [connect_flags (opt\<lparr>username := Some user\<rparr>)] @ uint16_bytes (keep_alive_interval opt)
     @ utf8_bytes (client_id opt) @ utf8_bytes user"

lemma connect_flags_user: "connect_flags (opt\<lparr>username := Some u\<rparr>) AND 0x80 \<noteq> 0"
  by (simp add: connect_flags_def)

lemma connect_spec:
  fixes opt :: MQTTConnectParams
  assumes "client_id opt \<noteq> []" and "password opt = None" and "mqtt_version opt = 3 \<or> mqtt_version opt = 4"
    and "buf_len \<le> length buf" and "buf_len < 2 ^ 28" and "length (client_id opt) < 2 ^ 16" and "length c_id = 5"
  defines "opt1 \<equiv> opt\<lparr>conn_id := c_id\<rparr>"
  defines "user \<equiv> connect_username opt1"
  assumes fit: "get_mqtt_packet_len (get_packet_connect_rem_len (opt1\<lparr>username := Some user\<rparr>)) \<le> buf_len"
  shows "\<exists>h. mqtt_init_packet_header CONNECT QOS0 0 0 = Inr h
    \<and> length (connect_bytes h opt1 user) \<le> buf_len
    \<and> serialize_connect_packet True c_id buf buf_len opt
      = Some (Inr (length (connect_bytes h opt1 user), overlay buf 0 (connect_bytes h opt1 user)),
          opt1\<lparr>username := None\<rparr>)"
proof -
  let ?o = "opt1\<lparr>username := Some user\<rparr>"
  let ?n = "get_packet_connect_rem_len ?o"
  have user: "length user = length (client_id opt) + 26"
    using assms(7) by (simp add: user_def opt1_def connect_username_whole LONG_MAX_digits QCLOUD_IOT_DEVICE_SDK_APPID_def)
  have n: "?n = (if mqtt_version opt = 4 then 10 else 12) + length (client_id opt) + 2 + length user + 2"
    using assms(2,3,6) user by (auto simp: get_packet_connect_rem_len_def opt1_def)
  have "?n + 8 < 2 ^ 32"
    using assms(6) n user by auto
  then have fits: "1 + length (rem_len_bytes ?n) + ?n \<le> buf_len"
    using packet_fits [OF fit assms(5)] by simp
  obtain h where h: "mqtt_init_packet_header CONNECT 0 0 0 = Inr h"
    using header_error [of CONNECT 0 0 0] by (cases "mqtt_init_packet_header CONNECT 0 0 0") auto
  have len: "length (connect_bytes h opt1 user) = 1 + length (rem_len_bytes ?n) + ?n"
    using n by (simp add: connect_bytes_def opt1_def)
  have o: "client_id opt1 = client_id opt" "mqtt_version opt1 = mqtt_version opt" "password opt1 = None"
    using assms(2) by (simp_all add: opt1_def)
  have "serialize_connect_packet True c_id buf buf_len opt
      = Some (Inr (length (connect_bytes h opt1 user), overlay buf 0 (connect_bytes h opt1 user)),
          opt1\<lparr>username := None\<rparr>)"
    unfolding serialize_connect_packet_def connect_fields_def opt1_def [symmetric] user_def [symmetric]
    using assms(1,4) h fits n fit o connect_flags_user
    by (cases "mqtt_version opt = 4")
      (simp_all add: Let_def written_start written_simps connect_bytes_def char_bytes_def case_written
        opt1_def [symmetric] user_def [symmetric])
  then show ?thesis using h len fits by simp
qed

section \<open>Properties\<close>

text \<open>C3: Publish round trip. A publish with QoS 0 to 2 and a topic of at most 2048 bytes whose packet
  fits the write buffer is serialised without an access outside the buffer, and deserialising
  the buffer gives back the flags, the QoS, the packet id (present exactly for QoS above 0), and
  pointers to exactly the bytes of the topic and of the payload.\<close>

theorem publish_roundtrip:
  assumes "qos = 0 \<or> qos = 1 \<or> qos = 2" and "length topic \<le> QCLOUD_IOT_MQTT_RX_BUF_LEN"
    and "buf_len \<le> length buf" and "buf_len < 2 ^ 28" and "length payload + 4096 < 2 ^ 32"
    and "get_mqtt_packet_len (get_publish_packet_len qos topic (length payload)) \<le> buf_len"
  shows "\<exists>n buf' v. serialize_publish_packet buf buf_len dup qos retained pid topic (Some payload) (length payload)
      = Some (Inr (n, buf'))
    \<and> n \<le> buf_len \<and> length buf' = length buf \<and> drop n buf' = drop n buf
    \<and> deserialize_publish_packet buf' buf_len = Some (Inr v)
    \<and> pv_dup v = dup AND 1 \<and> pv_qos v = qos \<and> pv_retained v = retained AND 1
    \<and> pv_packet_id v = (if qos > 0 then Some pid else None)
    \<and> mem_slice buf' (pv_topic v) (pv_topic_len v) = Some topic
    \<and> mem_slice buf' (pv_payload v) (pv_payload_len v) = Some payload"
proof -
  let ?n = "get_publish_packet_len qos topic (length payload)"
  have nn: "?n = 2 + length topic + length payload + (if qos > 0 then 2 else 0)"
    using assms(2,5) by (simp add: get_publish_packet_len_def qos_defs)
  then have "?n + 8 < 2 ^ 32" using assms(2,5) by (simp add: qos_defs)
  note fits = packet_fits [OF assms(6,4) this]
  have "length topic + length payload + 16 < 2 ^ 32" using assms(2,5) by (simp add: qos_defs)
  from publish_spec [OF assms(3,4) this assms(6), of dup retained pid "[]"] obtain h where
    h: "mqtt_init_packet_header PUBLISH qos dup retained = Inr h"
    and len: "length (publish_bytes h qos pid topic payload) \<le> buf_len"
    and ser: "serialize_publish_packet buf buf_len dup qos retained pid topic (Some payload) (length payload)
      = Some (Inr (length (publish_bytes h qos pid topic payload), overlay buf 0 (publish_bytes h qos pid topic payload)))"
    by auto
  let ?p = "publish_bytes h qos pid topic payload"
  have b: "overlay buf 0 ?p = ?p @ drop (length ?p) buf" by (simp add: overlay_def)
  have pos: "1 \<le> length (rem_len_bytes ?n)" by (simp add: rem_len_bytes.simps [of ?n])
  have n4: "length topic + length payload + 4 < 2 ^ 28" and L: "4 \<le> buf_len"
    using fits(2) nn assms(4) pos by (auto split: if_splits)
  show ?thesis
    using publish_read_back [OF h assms(1,2) n4 L, of pid "drop (length ?p) buf"]
      publish_view_slices [of h qos pid topic payload "drop (length ?p) buf"] ser b len assms(3)
    by (auto simp: publish_view_of_def)
qed

theorem publish_roundtrip_witness:
  "\<exists>n buf' v. serialize_publish_packet (replicate 20 0) 20 0 1 1 258 [97, 47, 98] (Some [1, 2, 3]) (length [1, 2, 3 :: u8])
      = Some (Inr (n, buf'))
    \<and> n \<le> 20 \<and> length buf' = length (replicate 20 (0 :: u8)) \<and> drop n buf' = drop n (replicate 20 0)
    \<and> deserialize_publish_packet buf' 20 = Some (Inr v)
    \<and> pv_dup v = 0 AND 1 \<and> pv_qos v = 1 \<and> pv_retained v = 1 AND 1
    \<and> pv_packet_id v = (if (1 :: u8) > 0 then Some 258 else None)
    \<and> mem_slice buf' (pv_topic v) (pv_topic_len v) = Some [97, 47, 98]
    \<and> mem_slice buf' (pv_payload v) (pv_payload_len v) = Some [1, 2, 3]"
  by (rule publish_roundtrip) (simp_all add: qos_defs get_publish_packet_len_def get_mqtt_packet_len_def)

text \<open>A received publish with QoS 1 or 2 whose remaining length ends right behind the topic, so
  that the packet id is missing, is accepted by \<open>deserialize_publish_packet\<close>: it reads the id from
  the bytes behind the packet and returns the payload length 4294967294, which is \<open>-2\<close> as a
  \<open>size_t\<close>.\<close>

theorem publish_missing_id_wraps:
  assumes "mqtt_init_packet_header PUBLISH qos dup retained = Inr h" and "qos = 1 \<or> qos = 2"
    and "length topic \<le> QCLOUD_IOT_MQTT_RX_BUF_LEN" and "4 \<le> buf_len" and "2 \<le> length rest"
  shows "\<exists>v. deserialize_publish_packet ([h] @ rem_len_bytes (2 + length topic) @ utf8_bytes topic @ rest) buf_len
      = Some (Inr v)
    \<and> pv_payload_len v = 4294967294"
  using assms by (rule publish_missing_id)

theorem publish_missing_id_wraps_witness:
  "\<exists>v. deserialize_publish_packet ([0x32] @ rem_len_bytes (2 + length [97 :: u8]) @ utf8_bytes [97] @ [0, 0]) 2048
      = Some (Inr v)
    \<and> pv_payload_len v = 4294967294"
  by (rule publish_missing_id_wraps [of 1 0 0]) (simp_all add: qos_defs mqtt_init_packet_header_def)

text \<open>C32: What \<open>deserialize_publish_packet\<close> returns on any buffer: the topic lies inside the packet
  that the remaining length announces and has at most 2048 bytes, the payload starts behind the
  topic (and the id), and if it starts inside the packet its length is what is left of the
  packet.\<close>

theorem publish_decode_in_packet:
  assumes "deserialize_publish_packet b L = Some (Inr v)"
  shows "\<exists>n k. mqtt_read_packet_rem_len_form_buf b 1 = Some (Inr (n, k))
    \<and> pv_topic v + pv_topic_len v \<le> 1 + k + n \<and> pv_topic_len v \<le> QCLOUD_IOT_MQTT_RX_BUF_LEN
    \<and> pv_payload v = pv_topic v + pv_topic_len v + (if pv_qos v \<noteq> 0 then 2 else 0)
    \<and> (if pv_payload v \<le> 1 + k + n
       then pv_payload_len v = (1 + k + n - pv_payload v) mod 2 ^ 32
       else pv_payload_len v = 2 ^ 32 - (pv_payload v - (1 + k + n)))"
proof -
  obtain n k where r: "mqtt_read_packet_rem_len_form_buf b 1 = Some (Inr (n, k))"
    "pv_topic v + pv_topic_len v \<le> 1 + k + n" "pv_topic_len v \<le> QCLOUD_IOT_MQTT_RX_BUF_LEN"
    "pv_payload v = pv_topic v + pv_topic_len v + (if pv_qos v \<noteq> 0 then 2 else 0)"
    "pv_payload_len v = nat ((int (1 + k + n) - int (pv_payload v)) mod 2 ^ 32)"
    using publish_decode_range [OF assms] by blast
  have "pv_payload_len v = (1 + k + n - pv_payload v) mod 2 ^ 32" if le: "pv_payload v \<le> 1 + k + n"
  proof -
    have "int (1 + k + n) - int (pv_payload v) = int (1 + k + n - pv_payload v)" using le by simp
    then show ?thesis unfolding r(5) by (metis nat_int of_nat_mod of_nat_numeral of_nat_power)
  qed
  moreover have "pv_payload_len v = 2 ^ 32 - (pv_payload v - (1 + k + n))" if gt: "\<not> pv_payload v \<le> 1 + k + n"
  proof -
    consider "pv_payload v = 1 + k + n + 1" | "pv_payload v = 1 + k + n + 2"
      using gt r(2,4) by (force split: if_splits)
    then show ?thesis unfolding r(5) by cases simp_all
  qed
  ultimately show ?thesis using r(1-4) by auto
qed

theorem publish_decode_in_packet_witness:
  "\<exists>v. deserialize_publish_packet ([0x30, 4] @ utf8_bytes [97] @ [5]) 6 = Some (Inr v)
    \<and> (\<exists>n k. mqtt_read_packet_rem_len_form_buf ([0x30, 4] @ utf8_bytes [97] @ [5]) 1 = Some (Inr (n, k))
    \<and> pv_topic v + pv_topic_len v \<le> 1 + k + n \<and> pv_topic_len v \<le> QCLOUD_IOT_MQTT_RX_BUF_LEN
    \<and> pv_payload v = pv_topic v + pv_topic_len v + (if pv_qos v \<noteq> 0 then 2 else 0)
    \<and> (if pv_payload v \<le> 1 + k + n
       then pv_payload_len v = (1 + k + n - pv_payload v) mod 2 ^ 32
       else pv_payload_len v = 2 ^ 32 - (pv_payload v - (1 + k + n))))"
proof -
  have h: "mqtt_init_packet_header PUBLISH 0 0 0 = Inr 0x30" by (simp add: mqtt_init_packet_header_def)
  have b: "publish_bytes 0x30 0 0 [97] [5] = [0x30, 4] @ utf8_bytes [97] @ [5]"
    by (simp add: publish_bytes_def get_publish_packet_len_def rem_len_bytes.simps)
  obtain v where "deserialize_publish_packet ([0x30, 4] @ utf8_bytes [97] @ [5]) 6 = Some (Inr v)"
    using publish_read_back [OF h, of "[97]" "[5]" 6 0 "[]"] by (auto simp: b qos_defs)
  with publish_decode_in_packet [OF this] show ?thesis by blast
qed

text \<open>Acknowledgement round trip: what \<open>serialize_pub_ack_packet\<close> writes for any packet type but
  the reserved one, \<open>deserialize_ack_packet\<close> reads back as the same type, dup bit and packet
  id.\<close>

theorem ack_roundtrip:
  assumes "4 \<le> buf_len" and "buf_len \<le> length buf" and "t \<noteq> RESERVED"
  shows "\<exists>buf'. serialize_pub_ack_packet buf buf_len t dup pid = Some (Inr (4, buf'))
    \<and> deserialize_ack_packet buf' buf_len = Some (Inr (msg_type_code t, dup AND 1, pid))
    \<and> length buf' = length buf \<and> drop 4 buf' = drop 4 buf"
proof -
  from pub_ack_spec [OF assms, of dup pid] obtain h where
    h: "mqtt_init_packet_header t (if t = PUBREL then 1 else 0) dup 0 = Inr h"
    and s: "serialize_pub_ack_packet buf buf_len t dup pid = Some (Inr (4, overlay buf 0 ([h, 2] @ uint16_bytes pid)))"
    by blast
  have o: "overlay buf 0 ([h, 2] @ uint16_bytes pid) = [h, 2] @ uint16_bytes pid @ drop 4 buf"
    by (simp add: overlay_def eval_nat_numeral)
  have "4 \<le> length buf" using assms(1,2) by simp
  then show ?thesis
    using s o ack_read_back [OF h assms(1), of pid "drop 4 buf"] by auto
qed

theorem ack_roundtrip_witness:
  "\<exists>buf'. serialize_pub_ack_packet (replicate 6 0) 6 PUBACK 0 4660 = Some (Inr (4, buf'))
    \<and> deserialize_ack_packet buf' 6 = Some (Inr (msg_type_code PUBACK, 0 AND 1, 4660))
    \<and> length buf' = length (replicate 6 (0 :: u8)) \<and> drop 4 buf' = drop 4 (replicate 6 0)"
  by (rule ack_roundtrip) simp_all

text \<open>A SUBACK packet as its fields.\<close>

definition suback_bytes :: "u8 \<Rightarrow> u16 \<Rightarrow> u8 list \<Rightarrow> u8 list" where
  "suback_bytes header packet_id grants =
     [header] @ rem_len_bytes (2 + length grants) @ uint16_bytes packet_id @ grants"

lemma suback_prefix:
  assumes h: "mqtt_init_packet_header SUBACK q dup r = Inr h" and n: "length grants < 2 ^ 27" and L: "5 \<le> buf_len"
  defines "c \<equiv> 3 + length (rem_len_bytes (2 + length grants))"
  shows "deserialize_suback_packet (suback_bytes h pid grants @ rest) buf_len max_count qs
    = Option.bind (suback_loop (suback_bytes h pid grants @ rest) c (c + length grants) max_count 0 qs)
        (\<lambda>r. case r of Inl rc \<Rightarrow> Some (Inl rc) | Inr (count, qs) \<Rightarrow> Some (Inr (pid, count, qs)))"
proof -
  let ?n = "2 + length grants"
  let ?b = "suback_bytes h pid grants @ rest"
  have r1: "mqtt_read_char ?b 0 = Some (h, 1)"
    by (simp add: mqtt_read_char_def suback_bytes_def mem_simps)
  obtain k where k: "length (rem_len_bytes ?n) = k" by blast
  have r2: "mqtt_read_packet_rem_len_form_buf ?b 1 = Some (Inr (?n, k))"
    using read_rem_len_at [of ?n "[h]" "uint16_bytes pid @ grants @ rest"] n k by (simp add: suback_bytes_def)
  have r3: "mqtt_read_uint16_t ?b (Suc k) = Some (pid, Suc (Suc (Suc k)))"
    using read_uint16_at [of "[h] @ rem_len_bytes ?n" pid "grants @ rest"] k by (simp add: suback_bytes_def)
  have c: "c = Suc (Suc (Suc k))" using k by (simp add: c_def)
  show ?thesis
    using L r1 r2 r3 header_decode(1) [OF h] unfolding c
    by (simp add: deserialize_suback_packet_def)
qed

lemma suback_loop_overrun:
  assumes "m \<le> max_count" and "length qs = max_count" and "c + (Suc max_count - m) \<le> e" and "e \<le> length buf"
  shows "suback_loop buf c e max_count m qs = None"
  using assms
proof (induction "max_count - m" arbitrary: c m qs)
  case 0
  then have "c < e" "m = max_count" by auto
  with 0 show ?case
    by (subst suback_loop.simps) (simp add: mqtt_read_char_def mem_read_def mem_write_def)
next
  case (Suc k)
  then have "c < e" "m < max_count" by auto
  moreover have "suback_loop buf (Suc c) e max_count (Suc m) (qs[m := buf ! c]) = None"
    using Suc.prems \<open>m < max_count\<close> Suc.hyps(2) by (intro Suc.hyps(1)) auto
  ultimately show ?case
    using Suc.prems by (subst suback_loop.simps) (simp add: mqtt_read_char_def mem_read_def mem_write_def)
qed

text \<open>SUBACK decoding. A packet with up to \<open>max_count + 1\<close> return codes is accepted when the
  array has room, and the packet id and the codes are those of the packet; an array with
  \<open>max_count\<close> entries, which is what the parameter is documented to mean, is overrun by a packet
  with \<open>max_count + 1\<close> codes or more.\<close>

theorem suback_decode:
  assumes "mqtt_init_packet_header SUBACK q dup r = Inr h" and "length grants < 2 ^ 27" and "5 \<le> buf_len"
  shows "(length grants \<le> Suc max_count \<and> length grants \<le> length qs \<longrightarrow>
      deserialize_suback_packet (suback_bytes h pid grants @ rest) buf_len max_count qs
        = Some (Inr (pid, length grants, overlay qs 0 grants)))
    \<and> (length qs = max_count \<and> max_count < length grants \<longrightarrow>
      deserialize_suback_packet (suback_bytes h pid grants @ rest) buf_len max_count qs = None)"
proof -
  let ?b = "suback_bytes h pid grants @ rest"
  let ?c = "3 + length (rem_len_bytes (2 + length grants))"
  have len: "?c + length grants \<le> length ?b" by (simp add: suback_bytes_def)
  have sl: "take (length grants) (drop ?c ?b) = grants"
    by (simp add: suback_bytes_def numeral_3_eq_3)
  note pre = suback_prefix [OF assms, of pid rest max_count qs]
  have "suback_loop ?b ?c (?c + length grants) max_count 0 qs = Some (Inr (length grants, overlay qs 0 grants))"
    if "length grants \<le> Suc max_count" "length grants \<le> length qs"
    using suback_loop_spec [OF len, of qs 0 "length qs" max_count] that sl by simp
  moreover have "suback_loop ?b ?c (?c + length grants) max_count 0 qs = None"
    if "length qs = max_count" "max_count < length grants"
    using suback_loop_overrun [of 0 max_count qs ?c "?c + length grants" ?b] that len by simp
  ultimately show ?thesis using pre by auto
qed

theorem suback_decode_witness:
  "deserialize_suback_packet (suback_bytes 0x90 7 [1, 2] @ []) 2048 1 [0, 0, 0] = Some (Inr (7, 2, [1, 2, 0]))
    \<and> deserialize_suback_packet (suback_bytes 0x90 7 [1, 2] @ []) 2048 1 [0] = None"
proof -
  have h: "mqtt_init_packet_header SUBACK 0 0 0 = Inr 0x90" by (simp add: mqtt_init_packet_header_def)
  show ?thesis
    using suback_decode [OF h, of "[1, 2]" 2048 1 "[0, 0, 0]" 7 "[]"] suback_decode [OF h, of "[1, 2]" 2048 1 "[0]" 7 "[]"]
    by (simp add: overlay_def)
qed

text \<open>C33: \<open>serialize_connect_packet\<close> writes, for protocol version 3 or 4 and no password, exactly the
  CONNECT packet whose announced remaining length is the number of bytes that follow it, with a
  user name that is never cut; it stays inside the buffer and clears the user name. When the
  packet does not fit it reports \<open>QCLOUD_ERR_BUF_TOO_SHORT\<close> and leaves the user name set.\<close>

theorem connect_packet_exact:
  fixes opt :: MQTTConnectParams
  assumes "client_id opt \<noteq> []" and "password opt = None" and "mqtt_version opt = 3 \<or> mqtt_version opt = 4"
    and "buf_len \<le> length buf" and "buf_len < 2 ^ 28" and "length (client_id opt) < 2 ^ 16" and "length c_id = 5"
  defines "opt1 \<equiv> opt\<lparr>conn_id := c_id\<rparr>"
  defines "user \<equiv> client_id opt @ [59] @ QCLOUD_IOT_DEVICE_SDK_APPID @ [59] @ c_id @ [59] @ dec_digits LONG_MAX"
  shows "\<exists>h. mqtt_init_packet_header CONNECT QOS0 0 0 = Inr h
    \<and> length (connect_bytes h opt1 user) = 1 + length (rem_len_bytes (get_packet_connect_rem_len (opt1\<lparr>username := Some user\<rparr>)))
        + get_packet_connect_rem_len (opt1\<lparr>username := Some user\<rparr>)
    \<and> serialize_connect_packet True c_id buf buf_len opt =
       (if buf_len < get_mqtt_packet_len (get_packet_connect_rem_len (opt1\<lparr>username := Some user\<rparr>))
        then Some (Inl QCLOUD_ERR_BUF_TOO_SHORT, opt1\<lparr>username := Some user\<rparr>)
        else Some (Inr (length (connect_bytes h opt1 user), overlay buf 0 (connect_bytes h opt1 user)),
               opt1\<lparr>username := None\<rparr>))"
proof -
  obtain h where h: "mqtt_init_packet_header CONNECT 0 0 0 = Inr h"
    using header_error [of CONNECT 0 0 0] by (cases "mqtt_init_packet_header CONNECT 0 0 0") auto
  have user: "connect_username opt1 = user"
    using connect_username_whole [of opt1] assms(7) by (simp add: opt1_def user_def)
  have "length user = length (client_id opt) + 26"
    using assms(7) by (simp add: user_def LONG_MAX_digits QCLOUD_IOT_DEVICE_SDK_APPID_def)
  then have len: "length (connect_bytes h opt1 user) = 1 + length (rem_len_bytes (get_packet_connect_rem_len (opt1\<lparr>username := Some user\<rparr>)))
        + get_packet_connect_rem_len (opt1\<lparr>username := Some user\<rparr>)"
    using assms(2,3,6) by (auto simp: connect_bytes_def get_packet_connect_rem_len_def opt1_def)
  have "serialize_connect_packet True c_id buf buf_len opt = Some (Inl QCLOUD_ERR_BUF_TOO_SHORT, opt1\<lparr>username := Some user\<rparr>)"
    if "buf_len < get_mqtt_packet_len (get_packet_connect_rem_len (opt1\<lparr>username := Some user\<rparr>))"
    using assms(1) that user by (simp add: serialize_connect_packet_def opt1_def Let_def)
  then show ?thesis
    using connect_spec [OF assms(1-7)] h len user by (auto simp: opt1_def [symmetric] not_less)
qed

definition sample_options :: MQTTConnectParams where
  "sample_options = \<lparr>client_id = [68, 49], username = None, password = None, conn_id = [], mqtt_version = 4,
     keep_alive_interval = 240, clean_session = True, auto_connect_enable = True\<rparr>"

theorem connect_packet_exact_witness:
  "\<exists>h buf'. serialize_connect_packet True [97, 98, 99, 100, 101] (replicate 100 0) 100 sample_options
     = Some (Inr (length (connect_bytes h (sample_options\<lparr>conn_id := [97, 98, 99, 100, 101]\<rparr>)
          ([68, 49] @ [59] @ QCLOUD_IOT_DEVICE_SDK_APPID @ [59] @ [97, 98, 99, 100, 101] @ [59] @ dec_digits LONG_MAX)), buf'),
        sample_options\<lparr>conn_id := [97, 98, 99, 100, 101]\<rparr>)"
proof -
  have "client_id sample_options \<noteq> []" "password sample_options = None"
    "mqtt_version sample_options = 3 \<or> mqtt_version sample_options = 4" "100 \<le> length (replicate 100 (0 :: u8))"
    "(100 :: nat) < 2 ^ 28" "length (client_id sample_options) < 2 ^ 16" "length [97, 98, 99, 100, 101 :: u8] = 5"
    by (simp_all add: sample_options_def)
  from connect_packet_exact [OF this] show ?thesis
    by (simp add: sample_options_def get_packet_connect_rem_len_def get_mqtt_packet_len_def LONG_MAX_digits
        QCLOUD_IOT_DEVICE_SDK_APPID_def) blast
qed

text \<open>\<open>deserialize_connack_packet\<close> on a buffer of at least ten bytes always returns: it accepts
  exactly the packets of type CONNACK with remaining length 2, and then reports the
  session-present bit and the translated return code, which is \<open>CONNECTION_ACCEPTED\<close> only for the
  code 0.\<close>

theorem connack_decode:
  assumes "4 \<le> buflen" and "10 \<le> length b"
  shows "\<exists>r. deserialize_connack_packet b buflen = Some r
    \<and> (\<forall>sp code. r = Inr (sp, code) \<longleftrightarrow>
        hdr_type (b ! 0) = msg_type_code CONNACK
        \<and> (\<exists>k. mqtt_read_packet_rem_len_form_buf b 1 = Some (Inr (2, k)) \<and> sp = b ! (1 + k) AND 1
             \<and> code = connack_code (b ! (2 + k))))
    \<and> (\<forall>c. connack_code c = QCLOUD_RET_MQTT_CONNACK_CONNECTION_ACCEPTED \<longleftrightarrow> c = 0)"
proof -
  have b0: "b \<noteq> []" using assms(2) by auto
  have tot: "mqtt_read_packet_rem_len_form_buf b 1 = Some (Inl QCLOUD_ERR_MQTT_PACKET_READ)
    \<or> (\<exists>v k. mqtt_read_packet_rem_len_form_buf b 1 = Some (Inr (v, k)) \<and> k \<le> 4)"
    using read_rem_len_total [of 1 b] assms(2) by auto
  have "connack_code c = QCLOUD_RET_MQTT_CONNACK_CONNECTION_ACCEPTED \<longleftrightarrow> c = 0" for c
    by (simp add: connack_code_def)
  with tot b0 assms show ?thesis
    by (auto simp: deserialize_connack_packet_def mqtt_read_char_def mem_read_def)
qed

theorem connack_decode_witness:
  "\<exists>r. deserialize_connack_packet [0x20, 2, 1, 0, 0, 0, 0, 0, 0, 0] 10 = Some r
    \<and> (\<forall>sp code. r = Inr (sp, code) \<longleftrightarrow>
        hdr_type ([0x20, 2, 1, 0, 0, 0, 0, 0, 0, 0] ! 0) = msg_type_code CONNACK
        \<and> (\<exists>k. mqtt_read_packet_rem_len_form_buf [0x20, 2, 1, 0, 0, 0, 0, 0, 0, 0] 1 = Some (Inr (2, k))
             \<and> sp = [0x20, 2, 1, 0, 0, 0, 0, 0, 0, 0] ! (1 + k) AND 1
             \<and> code = connack_code ([0x20, 2, 1, 0, 0, 0, 0, 0, 0, 0] ! (2 + k))))
    \<and> (\<forall>c. connack_code c = QCLOUD_RET_MQTT_CONNACK_CONNECTION_ACCEPTED \<longleftrightarrow> c = 0)"
  by (rule connack_decode) simp_all

end
