(* ===== verification/Mqtt_Topic.thy ===== *)
theory Mqtt_Topic
  imports Qc_Prelude
begin

text \<open>
  Topic matching in \<^verbatim>\<open>mqtt_client_common.c\<close>: \<open>_is_topic_equals\<close> and \<open>_is_topic_matched\<close>, the
  matching relation of MQTT on topic levels as their specification, and where the two agree.
  The filter is a C string, read as 0 at its end; the topic name is an array with a length.
\<close>

section \<open>Model\<close>

abbreviation (input) SEP :: u8 where "SEP \<equiv> 47"
abbreviation (input) PLUS :: u8 where "PLUS \<equiv> 43"
abbreviation (input) HASH :: u8 where "HASH \<equiv> 35"

definition str_at :: "cstring \<Rightarrow> nat \<Rightarrow> u8" where
  "str_at s i = (if i < length s then s ! i else 0)"

text \<open>\<open>strlen\<close> of an array: without a zero byte it reads past the end.\<close>

primrec strlen :: "buffer \<Rightarrow> nat option" where
  "strlen [] = None"
| "strlen (c # cs) = (if c = 0 then Some 0 else map_option Suc (strlen cs))"

text \<open>Both strings are arrays here; \<open>strcmp\<close> is only reached with equal lengths.\<close>

definition is_topic_equals :: "buffer \<Rightarrow> cstring \<Rightarrow> bool option" where
  "is_topic_equals name_arr topic_filter = do {
     n \<leftarrow> strlen name_arr;
     Some (n = length topic_filter \<and> take n name_arr = topic_filter) }"

text \<open>The inner loop of \<open>+\<close>: \<open>curn\<close> stops at the last byte before the next separator.\<close>

function plus_loop :: "buffer \<Rightarrow> nat \<Rightarrow> nat \<Rightarrow> nat option" where
  "plus_loop name curn_end curn =
     (if curn + 1 < curn_end then do {
        c \<leftarrow> mem_read name (curn + 1);
        if c \<noteq> SEP then plus_loop name curn_end (curn + 1) else Some curn }
      else Some curn)"
  by pat_completeness auto
termination by (relation "measure (\<lambda>(_, e, c). e - c)") auto

definition match_end :: "cstring \<Rightarrow> buffer \<Rightarrow> nat \<Rightarrow> nat \<Rightarrow> nat \<Rightarrow> bool option" where
  "match_end f name curn_end curf curn =
     (if str_at f curf = 0 then Some (curn = curn_end)
      else if str_at f curf = HASH \<or> str_at f (curf + 1) = HASH then Some True
      else if str_at f curf = PLUS
      then (if curn = 0 then None else do { c \<leftarrow> mem_read name (curn - 1); Some (c = SEP) })
      else Some False)"

function match_loop :: "cstring \<Rightarrow> buffer \<Rightarrow> nat \<Rightarrow> nat \<Rightarrow> nat \<Rightarrow> bool option" where
  "match_loop f name curn_end curf curn =
     (if curf < length f \<and> str_at f curf \<noteq> 0 \<and> curn < curn_end then do {
        n \<leftarrow> mem_read name curn;
        let c = str_at f curf in
        if c = PLUS \<and> n = SEP then match_loop f name curn_end (curf + 1) curn
        else if n = SEP \<and> c \<noteq> SEP then match_end f name curn_end curf curn
        else if c \<noteq> PLUS \<and> c \<noteq> HASH \<and> c \<noteq> n then match_end f name curn_end curf curn
        else do {
          curn' \<leftarrow> (if c = PLUS then plus_loop name curn_end curn
                     else if c = HASH then Some (curn_end - 1) else Some curn);
          match_loop f name curn_end (curf + 1) (curn' + 1) }
      }
      else match_end f name curn_end curf curn)"
  by pat_completeness auto
termination by (relation "measure (\<lambda>(f, _, _, i, _). length f - i)") auto

declare plus_loop.simps [simp del] match_loop.simps [simp del]

definition is_topic_matched :: "cstring \<Rightarrow> buffer \<Rightarrow> nat \<Rightarrow> bool option" where
  "is_topic_matched topic_filter topicName topicNameLen =
     match_loop topic_filter topicName topicNameLen 0 0"

section \<open>Specification: matching of topic levels\<close>

fun levels :: "cstring \<Rightarrow> cstring list" where
  "levels [] = [[]]"
| "levels (c # cs) = (if c = SEP then [] # levels cs else (c # hd (levels cs)) # tl (levels cs))"

text \<open>\<open>+\<close> stands for one level, a final \<open>#\<close> for any number of levels, including the parent.\<close>

fun levels_match :: "cstring list \<Rightarrow> cstring list \<Rightarrow> bool" where
  "levels_match [] [] = True"
| "levels_match [] (n # ns) = False"
| "levels_match (f # fs) [] = (f = [HASH] \<and> fs = [])"
| "levels_match (f # fs) (n # ns) =
     ((f = [HASH] \<and> fs = []) \<or> ((f = [PLUS] \<or> f = n) \<and> levels_match fs ns))"

definition topic_spec :: "cstring \<Rightarrow> cstring \<Rightarrow> bool" where
  "topic_spec f n = levels_match (levels f) (levels n)"

text \<open>
  A well-formed filter, as the comment of \<open>_is_topic_matched\<close> assumes it: \<open>+\<close> and \<open>#\<close> fill a
  level, \<open>#\<close> the last one. \<open>b\<close> says whether a level starts here.
\<close>

fun filter_wf :: "bool \<Rightarrow> cstring \<Rightarrow> bool" where
  "filter_wf b [] = True"
| "filter_wf b (c # cs) =
     (if c = PLUS then b \<and> (cs = [] \<or> hd cs = SEP) \<and> filter_wf False cs
      else if c = HASH then b \<and> cs = []
      else c \<noteq> 0 \<and> filter_wf (c = SEP) cs)"

definition filter_ok :: "cstring \<Rightarrow> bool" where
  "filter_ok f = filter_wf True f"

section \<open>The loop on the remaining bytes\<close>

text \<open>
  The same algorithm on what is left of filter and name. \<open>p\<close> is the name byte before the cursor,
  if any.
\<close>

definition head0 :: "cstring \<Rightarrow> u8" where
  "head0 s = (case s of [] \<Rightarrow> 0 | c # _ \<Rightarrow> c)"

function code_match :: "cstring \<Rightarrow> cstring \<Rightarrow> u8 option \<Rightarrow> bool option" where
  "code_match [] ns p = Some (ns = [])"
| "code_match (f # fs) [] p =
     (if f = HASH \<or> head0 fs = HASH then Some True
      else if f = PLUS then map_option (\<lambda>c. c = SEP) p else Some False)"
| "code_match (f # fs) (n # ns) p =
     (if f = PLUS \<and> n = SEP then code_match fs (n # ns) p
      else if n = SEP \<and> f \<noteq> SEP then Some (f = HASH \<or> head0 fs = HASH)
      else if f \<noteq> PLUS \<and> f \<noteq> HASH \<and> f \<noteq> n then Some (head0 fs = HASH)
      else if f = PLUS
      then code_match fs (dropWhile (\<lambda>c. c \<noteq> SEP) ns) (Some (last (n # takeWhile (\<lambda>c. c \<noteq> SEP) ns)))
      else if f = HASH then code_match fs [] (Some (last (n # ns)))
      else code_match fs ns (Some n))"
  by pat_completeness auto
termination by (relation "measure (\<lambda>(f, _, _). length f)") auto

definition before :: "buffer \<Rightarrow> nat \<Rightarrow> u8 option" where
  "before name i = (if i = 0 then None else Some (name ! (i - 1)))"

lemma plus_loop_eq:
  assumes "i < e" and "e \<le> length name"
  shows "plus_loop name e i = Some (i + length (takeWhile (\<lambda>c. c \<noteq> SEP) (take (e - Suc i) (drop (Suc i) name))))"
  using assms
proof (induction name e i rule: plus_loop.induct)
  case (1 name e i)
  show ?case
  proof (cases "Suc i < e")
    case False
    then show ?thesis by (simp add: plus_loop.simps [of name])
  next
    case True
    then have "take (e - Suc i) (drop (Suc i) name)
        = name ! Suc i # take (e - Suc (Suc i)) (drop (Suc (Suc i)) name)"
      using 1(3) by (simp add: Cons_nth_drop_Suc [symmetric] Suc_diff_Suc [symmetric] del: drop_Suc)
    moreover have "mem_read name (Suc i) = Some (name ! Suc i)" using True 1(3) by (simp add: mem_read_def)
    ultimately show ?thesis
      using 1 True by (auto simp: plus_loop.simps [of name e i])
  qed
qed

lemma drop_take_Cons:
  "j < e \<Longrightarrow> e \<le> length name \<Longrightarrow> drop j (take e name) = name ! j # drop (Suc j) (take e name)"
  by (simp add: Cons_nth_drop_Suc [symmetric])

lemma match_end_eq:
  assumes "0 \<notin> set f" and "i < length f" and "e \<le> length name"
  shows "match_end f name e i j = (if f ! i = HASH \<or> head0 (drop (Suc i) f) = HASH then Some True
      else if f ! i = PLUS then map_option (\<lambda>c. c = SEP) (if 0 < j \<and> j \<le> length name then before name j else None)
      else Some False)"
proof -
  have "f ! i \<noteq> 0" using assms(1,2) by (metis nth_mem)
  moreover have "str_at f (Suc i) = head0 (drop (Suc i) f)"
    by (simp add: str_at_def head0_def Cons_nth_drop_Suc [symmetric] split: list.split)
  ultimately show ?thesis
    using assms(2) by (auto simp: match_end_def str_at_def before_def mem_read_def)
qed

lemma match_loop_eq:
  assumes "0 \<notin> set f" and "e \<le> length name" and "i \<le> length f" and "j \<le> e"
  shows "match_loop f name e i j = code_match (drop i f) (drop j (take e name)) (before name j)"
  using assms
proof (induction f name e i j rule: match_loop.induct)
  case (1 f name e i j)
  note nz = "1.prems"(1) and len = "1.prems"(2)
  show ?case
  proof (cases "i < length f")
    case False
    then have "i = length f" using "1.prems"(3) by simp
    then show ?thesis using "1.prems" by (auto simp: match_loop.simps [of f] match_end_def str_at_def)
  next
    case i: True
    then have fi: "str_at f i = f ! i" "f ! i \<noteq> 0" "drop i f = f ! i # drop (Suc i) f"
      using nz by (auto simp: str_at_def Cons_nth_drop_Suc dest: nth_mem)
    show ?thesis
    proof (cases "j < e")
      case False
      then have "j = e" using "1.prems"(4) by simp
      then show ?thesis
        using fi i len match_end_eq [OF nz i len, of j]
        by (auto simp: match_loop.simps [of f] before_def)
    next
      case j: True
      have rd: "mem_read name j = Some (name ! j)" using j len by (simp add: mem_read_def)
      have nm: "drop j (take e name) = name ! j # drop (Suc j) (take e name)"
        using j len by (rule drop_take_Cons)
      have loop: "match_loop f name e i j =
        (let c = f ! i in
        if c = PLUS \<and> name ! j = SEP then match_loop f name e (i + 1) j
        else if name ! j = SEP \<and> c \<noteq> SEP then match_end f name e i j
        else if c \<noteq> PLUS \<and> c \<noteq> HASH \<and> c \<noteq> name ! j then match_end f name e i j
        else Option.bind (if c = PLUS then plus_loop name e j else if c = HASH then Some (e - 1) else Some j)
          (\<lambda>j'. match_loop f name e (i + 1) (j' + 1)))"
        using i j fi rd by (simp add: match_loop.simps [of f name e i j] Let_def)
      consider (skip) "f ! i = PLUS" "name ! j = SEP"
        | (sep) "f ! i \<noteq> PLUS" "name ! j = SEP" "f ! i \<noteq> SEP"
        | (diff) "name ! j \<noteq> SEP \<or> f ! i = SEP" "f ! i \<noteq> PLUS" "f ! i \<noteq> HASH" "f ! i \<noteq> name ! j"
        | (plus) "name ! j \<noteq> SEP" "f ! i = PLUS"
        | (hash) "name ! j \<noteq> SEP" "f ! i = HASH"
        | (eq) "f ! i \<noteq> PLUS" "f ! i \<noteq> HASH" "f ! i = name ! j" by fastforce
      then show ?thesis
      proof cases
        case skip
        then show ?thesis
          using "1.IH"(1) [of "name ! j" "f ! i"] i j fi rd nz len nm loop by (simp add: Let_def)
      next
        case sep
        then show ?thesis using loop match_end_eq [OF nz i len, of j] by (auto simp: fi nm Let_def)
      next
        case diff
        then show ?thesis using loop match_end_eq [OF nz i len, of j] by (auto simp: fi nm Let_def)
      next
        case plus
        let ?t = "takeWhile (\<lambda>c. c \<noteq> SEP) (drop (Suc j) (take e name))"
        have dt: "take (e - Suc j) (drop (Suc j) name) = drop (Suc j) (take e name)"
          by (simp add: drop_take)
        have tl: "length ?t \<le> e - Suc j"
          using length_takeWhile_le [of "\<lambda>c. c \<noteq> SEP" "drop (Suc j) (take e name)"] len by simp
        have pl: "plus_loop name e j = Some (j + length ?t)"
          using plus_loop_eq [OF j len] dt by simp
        have d: "dropWhile (\<lambda>c. c \<noteq> SEP) (drop (Suc j) (take e name)) = drop (Suc (j + length ?t)) (take e name)"
          by (simp add: dropWhile_eq_drop add.commute)
        have l: "before name (Suc (j + length ?t)) = Some (last (name ! j # ?t))"
        proof (cases "?t = []")
          case True
          then show ?thesis by (simp add: before_def)
        next
          case False
          then have "last ?t = ?t ! (length ?t - 1)" by (simp add: last_conv_nth)
          also have "\<dots> = name ! (Suc j + (length ?t - 1))"
          proof -
            have "length ?t - 1 < length ?t" using False by simp
            then have "?t ! (length ?t - 1) = drop (Suc j) (take e name) ! (length ?t - 1)"
              by (rule takeWhile_nth)
            moreover have "Suc j + (length ?t - 1) < e" using \<open>length ?t - 1 < length ?t\<close> tl by linarith
            ultimately show ?thesis using len by simp
          qed
          also have "Suc j + (length ?t - 1) = j + length ?t"
            using length_greater_0_conv [THEN iffD2, OF False] by linarith
          finally show ?thesis using False by (simp add: before_def)
        qed
        have "match_loop f name e (i + 1) (j + length ?t + 1)
            = code_match (drop (Suc i) f) (drop (Suc (j + length ?t)) (take e name)) (Some (last (name ! j # ?t)))"
          using "1.IH"(2) [of "name ! j" "f ! i" "j + length ?t"] plus i j fi rd nz len pl tl l by simp
        then show ?thesis using plus loop pl d by (simp add: fi nm Let_def)
      next
        case hash
        have l: "before name e = Some (last (name ! j # drop (Suc j) (take e name)))"
        proof -
          have "last (drop j (take e name)) = last (take e name)" using j len by (intro last_drop) simp
          also have "\<dots> = name ! (e - 1)" using j len by (subst last_conv_nth) auto
          finally show ?thesis using j nm by (simp add: before_def)
        qed
        have "match_loop f name e (i + 1) e = code_match (drop (Suc i) f) [] (before name e)"
          using "1.IH"(2) [of "name ! j" "f ! i" "e - 1"] hash i j fi rd nz len by simp
        then show ?thesis using hash loop j l by (simp add: fi nm Let_def)
      next
        case eq
        have "match_loop f name e (i + 1) (j + 1)
            = code_match (drop (Suc i) f) (drop (Suc j) (take e name)) (Some (name ! j))"
          using "1.IH"(2) [of "name ! j" "f ! i" j] eq i j fi rd nz len by (simp add: before_def)
        then show ?thesis using eq loop by (auto simp: fi nm Let_def)
      qed
    qed
  qed
qed

section \<open>The specification on the remaining bytes\<close>

fun ref_match :: "cstring \<Rightarrow> cstring \<Rightarrow> bool" where
  "ref_match [] ns = (ns = [])"
| "ref_match (f # fs) ns =
     (if f = HASH then True
      else if f = PLUS then ref_match fs (dropWhile (\<lambda>c. c \<noteq> SEP) ns)
      else case ns of [] \<Rightarrow> f = SEP \<and> fs = [HASH] | n # ns' \<Rightarrow> f = n \<and> ref_match fs ns')"

lemma levels_not_Nil [simp]: "levels s \<noteq> []"
  by (cases s) auto

lemma levels_hash [simp]: "levels s = [[HASH]] \<longleftrightarrow> s = [HASH]"
proof
  assume "levels s = [[HASH]]"
  then show "s = [HASH]"
  proof (cases s)
    case (Cons c cs)
    with \<open>levels s = [[HASH]]\<close> have c: "c = HASH" "hd (levels cs) = []" "tl (levels cs) = []"
      by (auto split: if_splits)
    then have "cs = []" by (cases cs) (auto split: if_splits)
    with c Cons show ?thesis by simp
  qed simp
qed simp

lemma levels_dropWhile: "levels (dropWhile (\<lambda>c. c \<noteq> SEP) s) = [] # tl (levels s)"
  by (induction s) auto

lemma levels_match_Nil: "levels_match fs [] \<longleftrightarrow> fs = [] \<or> fs = [[HASH]]"
  by (cases fs) auto

lemma ref_match_levels:
  "filter_wf b f \<Longrightarrow> ref_match f n \<longleftrightarrow>
    (if b then levels_match (levels f) (levels n)
     else hd (levels f) = hd (levels n) \<and> levels_match (tl (levels f)) (tl (levels n)))"
proof (induction f arbitrary: b n)
  case Nil
  have "levels_match [[]] (levels n) \<longleftrightarrow> n = []" "[] = hd (levels n) \<and> levels_match [] (tl (levels n)) \<longleftrightarrow> n = []"
    by (cases n; cases "tl (levels n)"; cases "levels (tl n)"; force)+
  then show ?case by simp
next
  case (Cons c cs)
  consider "c = HASH" | "c = PLUS" | "c = SEP" | "c \<noteq> HASH" "c \<noteq> PLUS" "c \<noteq> SEP" by blast
  then show ?case
  proof cases
    case 1
    with Cons.prems show ?thesis by (cases "levels n") auto
  next
    case 2
    then have b: "b" and wf: "filter_wf False cs" and h: "hd (levels cs) = []"
      using Cons.prems by (auto split: if_splits) (cases cs, auto)
    have "levels (PLUS # cs) = [PLUS] # tl (levels cs)" using h by simp
    then have "levels_match (levels (PLUS # cs)) (levels n) \<longleftrightarrow> levels_match (tl (levels cs)) (tl (levels n))"
      by (cases "levels n") auto
    then show ?thesis using 2 b h Cons.IH [OF wf] by (simp add: levels_dropWhile)
  next
    case 3
    then have wf: "filter_wf True cs" using Cons.prems by simp
    show ?thesis
    proof (cases n)
      case Nil
      then show ?thesis using 3 by (auto simp: levels_match_Nil)
    next
      case (Cons d ds)
      then show ?thesis using 3 Cons.IH [OF wf, of ds] by auto
    qed
  next
    case 4
    then have wf: "filter_wf False cs" using Cons.prems by simp
    show ?thesis
    proof (cases n)
      case Nil
      then show ?thesis using 4 by auto
    next
      case (Cons d ds)
      then show ?thesis using 4 Cons.IH [OF wf, of ds] by auto
    qed
  qed
qed

lemma topic_spec_ref: "filter_ok f \<Longrightarrow> topic_spec f n = ref_match f n"
  using ref_match_levels [of True f n] by (simp add: topic_spec_def filter_ok_def)

lemma head0_hash: "filter_wf b fs \<Longrightarrow> head0 fs = HASH \<longleftrightarrow> fs = [HASH]"
  by (cases fs) (auto simp: head0_def)

lemma code_match_complete:
  assumes "filter_wf b f" and "b \<Longrightarrow> p = Some SEP \<or> (p = None \<and> n \<noteq> [])" and "ref_match f n"
  shows "code_match f n p = Some True"
  using assms
proof (induction f n p arbitrary: b rule: code_match.induct)
  case (1 ns p)
  then show ?case by simp
next
  case (2 f fs p)
  then show ?case by (auto simp: head0_def split: if_splits)
next
  case (3 f fs n ns p)
  have hd: "head0 fs = HASH \<Longrightarrow> f = SEP" using "3.prems"(1)
    by (cases fs) (auto simp: head0_def split: if_splits)
  consider "f = PLUS" "n = SEP" | "f = PLUS" "n \<noteq> SEP" | "f = HASH" | "f \<noteq> PLUS" "f \<noteq> HASH" by blast
  then show ?case
  proof cases
    case 1
    then show ?thesis using "3.IH"(1) [of False] "3.prems" by auto
  next
    case 2
    then show ?thesis using "3.IH"(2) [of False] "3.prems" by auto
  next
    case 3
    then have "fs = []" using "3.prems"(1) by auto
    then show ?thesis using 3 by simp
  next
    case 4
    then have "f = n" "ref_match fs ns" "filter_wf (f = SEP) fs" using "3.prems" by auto
    then show ?thesis using 4 "3.IH"(4) [of "f = SEP"] by auto
  qed
qed

lemma code_match_exact:
  assumes "filter_wf b f" and "b \<Longrightarrow> p = Some SEP \<or> (p = None \<and> n \<noteq> [])" and "HASH \<notin> set f"
    and "n = [] \<Longrightarrow> p \<noteq> Some SEP" and "n \<noteq> [] \<Longrightarrow> last n \<noteq> SEP"
  shows "code_match f n p = Some (ref_match f n)"
  using assms
proof (induction f n p arbitrary: b rule: code_match.induct)
  case (1 ns p)
  then show ?case by simp
next
  case (2 f fs p)
  then have "\<not> b" by auto
  then show ?case using 2 by (auto simp: head0_def split: if_splits list.splits)
next
  case (3 f fs n ns p)
  have hd: "head0 fs \<noteq> HASH" "f \<noteq> HASH" "HASH \<notin> set fs" using "3.prems"(3)
    by (auto simp: head0_def split: list.splits)
  consider "f = PLUS" "n = SEP" | "f = PLUS" "n \<noteq> SEP" | "f \<noteq> PLUS" "f = n" | "f \<noteq> PLUS" "f \<noteq> n" by blast
  then show ?case
  proof cases
    case 1
    then show ?thesis using "3.IH"(1) [of False] "3.prems" hd by auto
  next
    case 2
    let ?d = "dropWhile (\<lambda>c. c \<noteq> SEP) ns" and ?t = "takeWhile (\<lambda>c. c \<noteq> SEP) ns"
    have split: "ns = ?t @ ?d" by simp
    have "last ?d \<noteq> SEP" if "?d \<noteq> []"
      using "3.prems"(5) that split by (metis last_appendR last_ConsR list.discI append_is_Nil_conv)
    moreover have "last (n # ?t) \<noteq> SEP"
      using 2 by (metis (mono_tags, lifting) last.simps last_in_set set_takeWhileD)
    ultimately have "code_match fs ?d (Some (last (n # ?t))) = Some (ref_match fs ?d)"
      using "3.IH"(2) [of False] 2 "3.prems"(1) hd by auto
    then show ?thesis using 2 hd by simp
  next
    case 3
    then have wf: "filter_wf (f = SEP) fs" using "3.prems"(1) hd by auto
    have "code_match fs ns (Some n) = Some (ref_match fs ns)"
      using "3.IH"(4) [OF _ _ _ _ _ wf] 3 hd "3.prems"(5) by (auto split: if_splits)
    then show ?thesis using 3 hd by simp
  next
    case 4
    then show ?thesis using hd by auto
  qed
qed

lemma filter_no_zero: "filter_wf b f \<Longrightarrow> 0 \<notin> set f"
  by (induction b f rule: filter_wf.induct) (auto split: if_splits)

lemma is_topic_matched_code:
  assumes "0 \<notin> set f" and "e \<le> length name"
  shows "is_topic_matched f name e = code_match f (take e name) None"
  using match_loop_eq [OF assms, of 0 0] by (simp add: is_topic_matched_def before_def)

lemma code_match_literal:
  "\<forall>c \<in> set q. c \<noteq> PLUS \<and> c \<noteq> HASH \<Longrightarrow>
    code_match (q @ f) (q @ n) p = code_match f n (if q = [] then p else Some (last q))"
  by (induction q arbitrary: p) auto

lemma ref_match_literal:
  "\<forall>c \<in> set q. c \<noteq> PLUS \<and> c \<noteq> HASH \<Longrightarrow> ref_match (q @ f) (q @ n) = ref_match f n"
  by (induction q) auto

lemma filter_wf_literal:
  "\<forall>c \<in> set q. c \<noteq> PLUS \<and> c \<noteq> HASH \<and> c \<noteq> 0 \<Longrightarrow> filter_wf b (q @ f) = filter_wf (if q = [] then b else last q = SEP) f"
  by (induction q arbitrary: b) auto

lemma code_match_total: "n \<noteq> [] \<or> p \<noteq> None \<Longrightarrow> \<exists>b. code_match f n p = Some b"
  by (induction f n p rule: code_match.induct) auto

lemma topic_match_total:
  "0 \<notin> set f \<Longrightarrow> 0 < n \<Longrightarrow> n \<le> length name \<Longrightarrow> \<exists>b. is_topic_matched f name n = Some b"
  using code_match_total [of "take n name" None f] by (cases name) (auto simp: is_topic_matched_code)

lemma topic_match_complete:
  assumes "filter_ok f" and "0 < n" and "n \<le> length name" and "topic_spec f (take n name)"
  shows "is_topic_matched f name n = Some True"
proof -
  have wf: "filter_wf True f" using assms(1) by (simp add: filter_ok_def)
  have ne: "take n name \<noteq> []" using assms(2,3) by auto
  show ?thesis
    using code_match_complete [OF wf, of None "take n name"] ne assms(4)
    by (auto simp: is_topic_matched_code [OF filter_no_zero [OF wf] assms(3)] topic_spec_ref [OF assms(1)])
qed

lemma strlen_terminated: "0 \<notin> set t \<Longrightarrow> strlen (t @ 0 # z) = Some (length t)"
  by (induction t) auto

lemma topic_equals_terminated:
  "0 \<notin> set t \<Longrightarrow> is_topic_equals (t @ 0 # z) f = Some (t = f)"
  by (auto simp: is_topic_equals_def strlen_terminated)

lemma strlen_unterminated: "0 \<notin> set t \<Longrightarrow> strlen t = None"
  by (induction t) auto

section \<open>Properties\<close>

text \<open>C2: Topic matching against its specification. For a well-formed filter and a non-empty topic
  inside its array, \<open>_is_topic_matched\<close> returns and finds every match that MQTT's matching of
  topic levels defines; without \<open>#\<close> in the filter and for topics that do not end in a separator it
  decides that relation exactly.\<close>

theorem topic_match_correct:
  assumes "filter_ok f" and "0 < n" and "n \<le> length name"
  shows "(topic_spec f (take n name) \<longrightarrow> is_topic_matched f name n = Some True)
    \<and> (HASH \<notin> set f \<and> last (take n name) \<noteq> SEP \<longrightarrow>
        is_topic_matched f name n = Some (topic_spec f (take n name)))"
proof -
  have wf: "filter_wf True f" using assms(1) by (simp add: filter_ok_def)
  have ne: "take n name \<noteq> []" using assms(2,3) by auto
  show ?thesis
    using code_match_complete [OF wf, of None "take n name"] code_match_exact [OF wf, of None "take n name"] ne
    by (auto simp: is_topic_matched_code [OF filter_no_zero [OF wf] assms(3)] topic_spec_ref [OF assms(1)])
qed

theorem topic_match_correct_witness:
  "is_topic_matched [97, 47, 43] [97, 47, 98] 3 = Some True \<and> topic_spec [97, 47, 43] [97, 47, 98]"
proof -
  have "topic_spec [97, 47, 43] [97, 47, 98]" by (simp add: topic_spec_def)
  then show ?thesis
    using topic_match_correct [of "[97, 47, 43]" 3 "[97, 47, 98]"] by (simp add: filter_ok_def)
qed

text \<open>Where the matcher accepts too much. A filter that continues with \<open>/#\<close> behind a literal
  prefix matches every topic that merely starts with that prefix (\<open>a/#\<close> matches \<open>ab\<close>), and a
  filter that continues with \<open>/+/\<close> matches the prefix followed by a separator alone
  (\<open>a/+/b\<close> matches \<open>a/\<close>), although the levels do not match.\<close>

theorem topic_match_too_wide:
  assumes "\<forall>c \<in> set q. c \<noteq> PLUS \<and> c \<noteq> HASH \<and> c \<noteq> 0"
  shows "(c \<noteq> SEP \<longrightarrow>
        is_topic_matched (q @ [SEP, HASH]) (q @ c # r) (length (q @ c # r)) = Some True
        \<and> filter_ok (q @ [SEP, HASH]) \<and> \<not> topic_spec (q @ [SEP, HASH]) (q @ c # r))
    \<and> (filter_ok (q @ [SEP, PLUS, SEP] @ t) \<and> t \<noteq> [HASH] \<and> t \<noteq> [] \<longrightarrow>
        is_topic_matched (q @ [SEP, PLUS, SEP] @ t) (q @ [SEP]) (length (q @ [SEP])) = Some True
        \<and> \<not> topic_spec (q @ [SEP, PLUS, SEP] @ t) (q @ [SEP]))"
proof -
  have lit: "\<forall>c \<in> set q. c \<noteq> PLUS \<and> c \<noteq> HASH" using assms by auto
  have wf: "filter_ok (q @ [SEP, HASH])"
    using filter_wf_literal [OF assms] by (simp add: filter_ok_def)
  have m: "is_topic_matched f n (length n) = code_match f n None" if "filter_ok f" for f n
    using is_topic_matched_code [of f "length n" n] filter_no_zero [of True f] that by (simp add: filter_ok_def)
  have "t \<noteq> [HASH] \<Longrightarrow> t \<noteq> [] \<Longrightarrow> \<not> ref_match ([SEP, PLUS, SEP] @ t) [SEP]"
    by (cases t) auto
  moreover have "c \<noteq> SEP \<Longrightarrow> \<not> ref_match [SEP, HASH] (c # r)" by simp
  moreover have "c \<noteq> SEP \<Longrightarrow> code_match [SEP, HASH] (c # r) p = Some True"
    "code_match ([SEP, PLUS, SEP] @ t) [SEP] p = Some True" for p
    by (simp_all add: head0_def)
  ultimately show ?thesis
    using wf m [of "q @ [SEP, HASH]" "q @ c # r"] m [of "q @ [SEP, PLUS, SEP] @ t" "q @ [SEP]"]
      topic_spec_ref ref_match_literal [OF lit] code_match_literal [OF lit] by (simp add: head0_def)
qed

theorem topic_match_too_wide_witness:
  "is_topic_matched [97, 47, 35] [97, 98] (Suc (Suc 0)) = Some True \<and> \<not> topic_spec [97, 47, 35] [97, 98]
    \<and> is_topic_matched [97, 47, 43, 47, 98] [97, 47] (Suc (Suc 0)) = Some True \<and> \<not> topic_spec [97, 47, 43, 47, 98] [97, 47]"
  using topic_match_too_wide [of "[97]" 98 "[]" "[98]"]
  by (simp add: filter_ok_def)

text \<open>On a topic of length zero a filter that starts with \<open>+\<close>, and not with \<open>+#\<close>, makes
  \<open>_is_topic_matched\<close> read the byte before the topic array.\<close>

theorem topic_match_empty_topic:
  assumes "head0 f \<noteq> HASH" and "0 \<notin> set f"
  shows "is_topic_matched (PLUS # f) name 0 = None"
  using assms by (subst is_topic_matched_code) auto

theorem topic_match_empty_topic_witness:
  "is_topic_matched (PLUS # [47, 97]) [0, 0] 0 = None"
  by (rule topic_match_empty_topic) (simp_all add: head0_def)

end
