(* ===== verification/Hal_Timer.thy ===== *)
theory Hal_Timer
  imports Qc_Prelude
begin

text \<open>
  The platform under the client and its timers. \<open>'w hal\<close> collects the operations the SDK
  imports (\<^verbatim>\<open>qcloud_iot_import.h\<close> and the \<open>Network\<close> structure) as functions on a world
  \<open>'w\<close>, about which nothing is assumed here; the timers of \<^verbatim>\<open>utils_timer.c\<close> and
  \<^verbatim>\<open>platform/HAL_Timer_freertos.c\<close> are modelled on top of its clock. The clock is the 32-bit
  millisecond counter, so that it wraps.
\<close>

section \<open>Model\<close>

text \<open>
  \<open>net_write bytes timeout\<close> returns the code and the number of bytes written; \<open>net_read n timeout\<close>
  the code and the bytes stored (the callers look at no more than \<open>n\<close>). \<open>cfg_rmdup\<close> is the
  build option \<open>MQTT_RMDUP_MSG_ENABLED\<close>. \<open>hal_malloc\<close> says whether an allocation succeeds.
\<close>

record 'w hal =
  hal_time :: "'w \<Rightarrow> u32 \<times> 'w"
  hal_malloc :: "'w \<Rightarrow> bool \<times> 'w"
  hal_rand :: "'w \<Rightarrow> nat \<times> 'w"
  net_connect :: "'w \<Rightarrow> int \<times> 'w"
  net_disconnect :: "'w \<Rightarrow> 'w"
  net_write :: "u8 list \<Rightarrow> int \<Rightarrow> 'w \<Rightarrow> (int \<times> nat) \<times> 'w"
  net_read :: "nat \<Rightarrow> int \<Rightarrow> 'w \<Rightarrow> (int \<times> u8 list) \<times> 'w"
  cfg_rmdup :: bool

type_synonym Timer = u32

definition InitTimer :: Timer where "InitTimer = 0"

definition expired :: "'w hal \<Rightarrow> Timer \<Rightarrow> 'w \<Rightarrow> bool \<times> 'w" where
  "expired E timer w = (let (now, w) = hal_time E w in (now > timer, w))"

definition countdown_ms :: "'w hal \<Rightarrow> nat \<Rightarrow> 'w \<Rightarrow> Timer \<times> 'w" where
  "countdown_ms E timeout_ms w = (let (now, w) = hal_time E w in (now + of_nat timeout_ms, w))"

definition countdown :: "'w hal \<Rightarrow> nat \<Rightarrow> 'w \<Rightarrow> Timer \<times> 'w" where
  "countdown E timeout w = (let (now, w) = hal_time E w in (now + of_nat (timeout * 1000), w))"

definition left_ms :: "'w hal \<Rightarrow> Timer \<Rightarrow> 'w \<Rightarrow> int \<times> 'w" where
  "left_ms E timer w = (let (now, w) = hal_time E w in (sint (timer - now), w))"

definition HAL_Timer_current_sec :: "'w hal \<Rightarrow> 'w \<Rightarrow> nat \<times> 'w" where
  "HAL_Timer_current_sec E w = (let (now, w) = hal_time E w in (unat now div 1000, w))"

section \<open>The two readings of a timer\<close>

text \<open>A world that is only a clock, advancing by a fixed step at each reading.\<close>

definition clock_hal :: "u32 \<Rightarrow> u32 hal" where
  "clock_hal step = \<lparr>hal_time = (\<lambda>t. (t, t + step)), hal_malloc = (\<lambda>w. (True, w)), hal_rand = (\<lambda>w. (0, w)),
     net_connect = (\<lambda>w. (0, w)), net_disconnect = (\<lambda>w. w),
     net_write = (\<lambda>bs t w. ((0, length bs), w)), net_read = (\<lambda>n t w. ((QCLOUD_ERR_SSL_NOTHING_TO_READ, []), w)),
     cfg_rmdup = False\<rparr>"

lemma sint_diff:
  assumes "\<bar>int a - int b\<bar> < 2 ^ 31"
  shows "sint (of_nat a - of_nat b :: u32) = int a - int b"
proof -
  have "(of_nat a - of_nat b :: u32) = word_of_int (int a - int b)" by simp
  then have "sint (of_nat a - of_nat b :: u32) = sint (word_of_int (int a - int b) :: u32)"
    by (rule arg_cong)
  also have "\<dots> = signed_take_bit 31 (int a - int b)"
    by (subst sint_sbintrunc') simp
  also have "\<dots> = int a - int b"
    using assms by (intro signed_take_bit_int_eq_self) auto
  finally show ?thesis .
qed

lemma countdown_ms_at:
  "hal_time E w = (of_nat t0, w') \<Longrightarrow> countdown_ms E ms w = (of_nat (t0 + ms), w')"
  by (simp add: countdown_ms_def)

lemma left_ms_at:
  "hal_time E w = (of_nat t, w') \<Longrightarrow> \<bar>int d - int t\<bar> < 2 ^ 31 \<Longrightarrow> left_ms E (of_nat d) w = (int d - int t, w')"
  using sint_diff [of d t] by (simp add: left_ms_def)

lemma expired_at:
  "hal_time E w = (of_nat t, w') \<Longrightarrow> expired E (of_nat d) w = (d mod 2 ^ 32 < t mod 2 ^ 32, w')"
  by (simp add: expired_def word_less_nat_alt unat_of_nat)

section \<open>Properties\<close>

text \<open>A timer armed at time \<open>t0\<close> for \<open>ms < 2 ^ 31\<close> milliseconds and read at a later time \<open>t\<close>
  less than \<open>2 ^ 31\<close> behind the deadline: \<open>left_ms\<close> is the time to the deadline, also across a
  wrap of the 32-bit clock. \<open>expired\<close> agrees with it while clock and deadline are in the same
  epoch of the counter; when the counter wraps before the deadline, \<open>expired\<close> is true from the
  start.\<close>

theorem timer_readings:
  assumes "hal_time E w = (of_nat t0, w1)" and "hal_time E v = (of_nat t, v1)"
    and "t0 \<le> t" and "t < t0 + ms + 2 ^ 31" and "ms < 2 ^ 31"
  shows "left_ms E (fst (countdown_ms E ms w)) v = (int (t0 + ms) - int t, v1)
    \<and> (t div 2 ^ 32 = (t0 + ms) div 2 ^ 32 \<longrightarrow>
        expired E (fst (countdown_ms E ms w)) v = (int (t0 + ms) - int t < 0, v1))
    \<and> (t div 2 ^ 32 = t0 div 2 ^ 32 \<and> (t0 + ms) div 2 ^ 32 = t0 div 2 ^ 32 + 1 \<longrightarrow>
        expired E (fst (countdown_ms E ms w)) v = (True, v1))"
proof -
  have arm: "fst (countdown_ms E ms w) = of_nat (t0 + ms)"
    using countdown_ms_at [OF assms(1)] by simp
  have "\<bar>int (t0 + ms) - int t\<bar> < 2 ^ 31" using assms(3-5) by auto
  then have left: "left_ms E (of_nat (t0 + ms)) v = (int (t0 + ms) - int t, v1)"
    by (rule left_ms_at [OF assms(2)])
  note ex = expired_at [OF assms(2), of "t0 + ms"]
  have same: "(t0 + ms) mod 2 ^ 32 < t mod 2 ^ 32 \<longleftrightarrow> t0 + ms < t" if "t div 2 ^ 32 = (t0 + ms) div 2 ^ 32"
  proof -
    have "t = (t0 + ms) div 2 ^ 32 * 2 ^ 32 + t mod 2 ^ 32" by (metis that div_mult_mod_eq)
    moreover have "t0 + ms = (t0 + ms) div 2 ^ 32 * 2 ^ 32 + (t0 + ms) mod 2 ^ 32" by simp
    ultimately show ?thesis by linarith
  qed
  have wrap: "(t0 + ms) mod 2 ^ 32 < t mod 2 ^ 32"
    if "t div 2 ^ 32 = t0 div 2 ^ 32" "(t0 + ms) div 2 ^ 32 = t0 div 2 ^ 32 + 1"
  proof -
    have "t0 + ms = (t0 div 2 ^ 32 + 1) * 2 ^ 32 + (t0 + ms) mod 2 ^ 32"
      using that(2) by (metis div_mult_mod_eq)
    moreover have "t = t0 div 2 ^ 32 * 2 ^ 32 + t mod 2 ^ 32"
      using that(1) by (metis div_mult_mod_eq)
    moreover have "(t0 div 2 ^ 32 + 1) * 2 ^ 32 = t0 div 2 ^ 32 * 2 ^ 32 + (2 ^ 32 :: nat)" by simp
    moreover have "ms < (2 :: nat) ^ 32" using assms(5) by simp
    ultimately show ?thesis using assms(3) by linarith
  qed
  have "int (t0 + ms) - int t < 0 \<longleftrightarrow> t0 + ms < t" by auto
  then show ?thesis unfolding arm using left ex same wrap by simp
qed

theorem timer_readings_witness:
  "left_ms (clock_hal 0) (fst (countdown_ms (clock_hal 0) 1000 4294967000)) 4294967100 = (900, 4294967100)
    \<and> expired (clock_hal 0) (fst (countdown_ms (clock_hal 0) 1000 4294967000)) 4294967100 = (True, 4294967100)"
  using timer_readings [of "clock_hal 0" 4294967000 4294967000 4294967000 4294967100 4294967100 4294967100 1000]
  by (simp add: clock_hal_def)

end
