(* ===== verification/Mqtt_Client.thy ===== *)
theory Mqtt_Client
  imports Mqtt_Packet Mqtt_Topic Hal_Timer
begin

text \<open>
  The MQTT client of \<^verbatim>\<open>mqtt_client.h\<close>: its state, packet identifiers, the buffer of seen packet
  ids, sending and receiving a packet, the two lists of requests that wait for an
  acknowledgement, the packet handlers and the dispatch \<open>cycle_for_read\<close>
  (\<^verbatim>\<open>mqtt_client_common.c\<close>, parts of \<^verbatim>\<open>mqtt_client_publish.c\<close>).

  \<^item> an operation takes and returns the whole state; \<open>on_world\<close> lifts the platform operations.
  \<^item> one thread: the mutexes are not modelled, and callbacks of the application are recorded in
    \<open>trace\<close>, in order, and do not call back into the client.
  \<^item> the wait lists are the node sequences of \<open>Linked_List\<close>: pairs of the node's address and
    its value. Addresses come from the counter \<open>next_node\<close>, so a new node is a new address.
  \<^item> callbacks are identified by numbers; \<open>None\<close> is the null function pointer.
  \<^item> a loop that waits for the network or the clock is a \<open>partial_function\<close>: \<open>None\<close> when it does
    not end.
\<close>

section \<open>State\<close>

definition MAX_MESSAGE_HANDLERS :: nat where [qos_defs]: "MAX_MESSAGE_HANDLERS = 10"
definition MAX_REPUB_NUM :: nat where [qos_defs]: "MAX_REPUB_NUM = 20"
definition MAX_SIZE_OF_CLOUD_TOPIC :: nat where [qos_defs]: "MAX_SIZE_OF_CLOUD_TOPIC = 128"
definition MAX_PACKET_ID :: u16 where [qos_defs]: "MAX_PACKET_ID = 65535"
definition MQTT_MAX_REPEAT_BUF_LEN :: nat where [qos_defs]: "MQTT_MAX_REPEAT_BUF_LEN = 50"
definition QCLOUD_IOT_MQTT_MAX_REMAIN_WAIT_MS :: int where
  [qos_defs]: "QCLOUD_IOT_MQTT_MAX_REMAIN_WAIT_MS = 2000"

datatype MQTTEventType = MQTT_EVENT_UNDEF | MQTT_EVENT_DISCONNECT | MQTT_EVENT_RECONNECT
  | MQTT_EVENT_SUBCRIBE_SUCCESS | MQTT_EVENT_SUBCRIBE_TIMEOUT | MQTT_EVENT_SUBCRIBE_NACK
  | MQTT_EVENT_UNSUBCRIBE_SUCCESS | MQTT_EVENT_UNSUBCRIBE_TIMEOUT
  | MQTT_EVENT_PUBLISH_SUCCESS | MQTT_EVENT_PUBLISH_TIMEOUT | MQTT_EVENT_PUBLISH_RECVEIVED
  | MQTT_EVENT_CLIENT_DESTROY | MQTT_EVENT_UNSUBSCRIBE

record SubTopicHandle =
  topic_filter :: "cstring option"
  message_handler :: "nat option"
  sub_event_handler :: "nat option"
  handler_user_data :: nat
  sub_qos :: u8

definition null_handle :: SubTopicHandle where
  "null_handle = \<lparr>topic_filter = None, message_handler = None, sub_event_handler = None,
     handler_user_data = 0, sub_qos = QOS0\<rparr>"

record QcloudIotPubInfo =
  pub_start_time :: Timer
  pub_valid :: bool
  pub_msg_id :: u16
  pub_buf :: buffer

record QcloudIotSubInfo =
  sub_type :: MessageTypes
  sub_msg_id :: u16
  sub_start_time :: Timer
  sub_valid :: bool
  sub_handler :: SubTopicHandle
  sub_buf :: buffer

text \<open>A delivered message: the view into the read buffer, the topic array with its length, and the read
  buffer from the payload pointer on.\<close>

record MQTTMessage =
  msg_view :: publish_view
  msg_ptopic :: buffer
  msg_topic_len :: nat
  msg_payload :: buffer

datatype effect = Event MQTTEventType nat | Deliver_Default MQTTMessage
  | Deliver nat MQTTMessage nat | Sub_Event nat MQTTEventType nat

record 'w client =
  is_connected :: bool
  was_manually_disconnected :: bool
  is_ping_outstanding :: u8
  next_packet_id :: u16
  command_timeout_ms :: nat
  current_reconnect_wait_interval :: nat
  counter_network_disconnected :: nat
  write_buf_size :: nat
  read_buf_size :: nat
  write_buf :: buffer
  read_buf :: buffer
  list_pub_wait_ack :: "(nat \<times> QcloudIotPubInfo) list"
  list_sub_wait_ack :: "(nat \<times> QcloudIotSubInfo) list"
  event_handle :: bool
  options :: MQTTConnectParams
  ping_timer :: Timer
  reconnect_delay_timer :: Timer
  sub_handles :: "SubTopicHandle list"
  repeat_buf :: "u16 list"
  repeat_cnt :: nat
  next_node :: nat
  trace :: "effect list"
  world :: 'w

definition on_world :: "('w \<Rightarrow> 'a \<times> 'w) \<Rightarrow> 'w client \<Rightarrow> 'a \<times> 'w client" where
  "on_world f c = (let (x, w) = f (world c) in (x, c\<lparr>world := w\<rparr>))"

definition emit :: "effect \<Rightarrow> 'w client \<Rightarrow> 'w client" where
  "emit e c = c\<lparr>trace := trace c @ [e]\<rparr>"

text \<open>The application's event callback, when there is one.\<close>

definition notify :: "MQTTEventType \<Rightarrow> nat \<Rightarrow> 'w client \<Rightarrow> 'w client" where
  "notify e m c = (if event_handle c then emit (Event e m) c else c)"

section \<open>Identifiers\<close>

definition get_next_packet_id :: "'w client \<Rightarrow> u16 \<times> 'w client" where
  "get_next_packet_id c = (let n = (if next_packet_id c = MAX_PACKET_ID then 1 else next_packet_id c + 1)
     in (n, c\<lparr>next_packet_id := n\<rparr>))"

text \<open>The loop of \<open>get_next_conn_id\<close>; the result has the five characters before the terminator.\<close>

primrec conn_id_loop :: "'w hal \<Rightarrow> nat \<Rightarrow> 'w \<Rightarrow> cstring \<times> 'w" where
  "conn_id_loop E 0 w = ([], w)"
| "conn_id_loop E (Suc n) w = (
     let (f, w) = hal_rand E w; flag = f mod 3; (r, w) = hal_rand E w;
         c = (if flag = 0 then of_nat (r mod 26) + 97 else if flag = 1 then of_nat (r mod 26) + 65
              else of_nat (r mod 10) + 48);
         (cs, w) = conn_id_loop E n w in (c # cs, w))"

definition get_next_conn_id :: "'w hal \<Rightarrow> 'w \<Rightarrow> cstring \<times> 'w" where
  "get_next_conn_id E w = (let (_, w) = hal_time E w in conn_id_loop E (MAX_CONN_ID_LEN - 1) w)"

definition get_packet_id_in_repeat_buf :: "u16 \<Rightarrow> 'w client \<Rightarrow> int" where
  "get_packet_id_in_repeat_buf packet_id c =
     (if packet_id \<in> set (repeat_buf c) then int (unat packet_id) else - 1)"

definition add_packet_id_to_repeat_buf :: "u16 \<Rightarrow> 'w client \<Rightarrow> 'w client option" where
  "add_packet_id_to_repeat_buf packet_id c =
     (if get_packet_id_in_repeat_buf packet_id c > 0 then Some c
      else do {
        b \<leftarrow> mem_write (repeat_buf c) (repeat_cnt c) packet_id;
        let n = repeat_cnt c + 1;
        Some (c\<lparr>repeat_buf := b,
          repeat_cnt := (if n \<ge> MQTT_MAX_REPEAT_BUF_LEN then n mod 50 else n)\<rparr>) })"

definition reset_repeat_packet_id_buffer :: "'w client \<Rightarrow> 'w client" where
  "reset_repeat_packet_id_buffer c = c\<lparr>repeat_buf := replicate MQTT_MAX_REPEAT_BUF_LEN 0\<rparr>"

definition set_client_conn_state :: "bool \<Rightarrow> 'w client \<Rightarrow> 'w client" where
  "set_client_conn_state b c = c\<lparr>is_connected := b\<rparr>"

definition get_client_conn_state :: "'w client \<Rightarrow> bool" where
  "get_client_conn_state c = is_connected c"

section \<open>Sending a packet\<close>

text \<open>
  The \<open>write\<close> call gets \<open>length\<close> bytes from offset \<open>sent\<close>, also when it continues after a partial
  write; it is undefined when these are not all inside \<open>write_buf\<close>.
\<close>

partial_function (option) send_loop :: "'w hal \<Rightarrow> nat \<Rightarrow> Timer \<Rightarrow> nat \<Rightarrow> int \<Rightarrow> 'w client
    \<Rightarrow> ((int \<times> nat) \<times> 'w client) option" where
  "send_loop E len timer sent rc c =
     (if sent < len then
        let (ex, c) = on_world (expired E timer) c in
        if ex then Some ((rc, sent), c)
        else do {
          bs \<leftarrow> mem_slice (write_buf c) sent len;
          let (left, c) = on_world (left_ms E timer) c;
          let ((rc, sentLen), c) = on_world (net_write E bs left) c;
          if rc \<noteq> QCLOUD_RET_SUCCESS then Some ((rc, sent), c)
          else send_loop E len timer ((sent + sentLen) mod 2 ^ 32) rc c }
      else Some ((rc, sent), c))"

definition send_mqtt_packet :: "'w hal \<Rightarrow> nat \<Rightarrow> Timer \<Rightarrow> 'w client \<Rightarrow> (int \<times> 'w client) option" where
  "send_mqtt_packet E len timer c =
     (if len \<ge> write_buf_size c then Some (QCLOUD_ERR_BUF_TOO_SHORT, c)
      else do {
        ((rc, sent), c) \<leftarrow> send_loop E len timer 0 QCLOUD_RET_SUCCESS c;
        if sent = len then Some (QCLOUD_RET_SUCCESS, c) else Some (rc, c) })"

section \<open>Receiving a packet\<close>

text \<open>One byte into the local variable \<open>i\<close>; it is uninitialised when no byte was stored.\<close>

function rem_len_net_loop :: "'w hal \<Rightarrow> int \<Rightarrow> nat \<Rightarrow> nat \<Rightarrow> nat \<Rightarrow> 'w client
    \<Rightarrow> ((int + nat) \<times> 'w client) option" where
  "rem_len_net_loop E timeout len multiplier val c =
     (if Suc len > MAX_NO_OF_REMAINING_LENGTH_BYTES then Some (Inl QCLOUD_ERR_MQTT_PACKET_READ, c)
      else
        let ((rc, bs), c) = on_world (net_read E 1 timeout) c in
        if rc \<noteq> QCLOUD_RET_SUCCESS then Some (Inl QCLOUD_ERR_FAILURE, c)
        else do {
          i \<leftarrow> mem_read bs 0;
          let val' = (val + unat (i AND 127) * multiplier) mod 2 ^ 32;
          let multiplier' = multiplier * 128 mod 2 ^ 32;
          if i AND 128 \<noteq> 0 then rem_len_net_loop E timeout (Suc len) multiplier' val' c
          else Some (Inr val', c) })"
  by pat_completeness auto
termination
  by (relation "measure (\<lambda>(E, t, len, _). 5 - len)") (auto simp: qos_defs)

declare rem_len_net_loop.simps [simp del]

definition decode_packet_rem_len_with_net_read :: "'w hal \<Rightarrow> int \<Rightarrow> 'w client \<Rightarrow> ((int + nat) \<times> 'w client) option" where
  "decode_packet_rem_len_with_net_read E timeout c = rem_len_net_loop E timeout 0 1 0 c"

text \<open>Reading \<open>n\<close> bytes into \<open>read_buf + p\<close>; the memory there must exist.\<close>

definition read_into :: "'w hal \<Rightarrow> nat \<Rightarrow> nat \<Rightarrow> int \<Rightarrow> 'w client \<Rightarrow> ((int \<times> nat) \<times> 'w client) option" where
  "read_into E p n timeout c = do {
     _ \<leftarrow> mem_slice (read_buf c) p n;
     let ((rc, bs), c) = on_world (net_read E n timeout) c;
     let bs = take n bs;
     Some ((rc, length bs), c\<lparr>read_buf := overlay (read_buf c) p bs\<rparr>) }"

definition at_least_1 :: "int \<Rightarrow> int" where
  "at_least_1 n = (if n \<le> 0 then 1 else n)"

text \<open>The loop that discards a packet that does not fit the buffer.\<close>

partial_function (option) discard_loop :: "'w hal \<Rightarrow> int \<Rightarrow> nat \<Rightarrow> nat \<Rightarrow> nat \<Rightarrow> 'w client \<Rightarrow> (unit \<times> 'w client) option" where
  "discard_loop E timeout rem_len got n c = do {
     ((rc, read_len), c) \<leftarrow> read_into E 0 n timeout c;
     let got' = (if rc = QCLOUD_RET_SUCCESS then (got + read_len) mod 2 ^ 32 else got);
     let left = nat ((int rem_len - int got') mod 2 ^ 32);
     let n' = (if rc = QCLOUD_RET_SUCCESS then (if left \<ge> read_buf_size c then read_buf_size c else left) else n);
     if got' < rem_len \<and> rc = QCLOUD_RET_SUCCESS then discard_loop E timeout rem_len got' n' c
     else Some ((), c) }"

definition read_mqtt_packet :: "'w hal \<Rightarrow> Timer \<Rightarrow> 'w client \<Rightarrow> ((int + u8) \<times> 'w client) option" where
  "read_mqtt_packet E timer c = do {
     let (t, c) = on_world (left_ms E timer) c;
     ((rc, _), c) \<leftarrow> read_into E 0 1 (at_least_1 t) c;
     if rc = QCLOUD_ERR_SSL_NOTHING_TO_READ \<or> rc = QCLOUD_ERR_TCP_NOTHING_TO_READ
     then Some (Inl QCLOUD_ERR_MQTT_NOTHING_TO_READ, c)
     else if rc \<noteq> QCLOUD_RET_SUCCESS then Some (Inl rc, c)
     else do {
       let (t, c) = on_world (left_ms E timer) c;
       (r, c) \<leftarrow> decode_packet_rem_len_with_net_read E (at_least_1 t + QCLOUD_IOT_MQTT_MAX_REMAIN_WAIT_MS) c;
       case r of Inl rc \<Rightarrow> Some (Inl rc, c)
       | Inr rem_len \<Rightarrow>
         if rem_len \<ge> read_buf_size c then do {
           let (t, c) = on_world (left_ms E timer) c;
           (_, c) \<leftarrow> discard_loop E (at_least_1 t + QCLOUD_IOT_MQTT_MAX_REMAIN_WAIT_MS) rem_len 0 (read_buf_size c) c;
           Some (Inl QCLOUD_ERR_BUF_TOO_SHORT, c) }
         else do {
           (b, len) \<leftarrow> mqtt_write_packet_rem_len rem_len (read_buf c, 1);
           let c = c\<lparr>read_buf := b\<rparr>;
           if rem_len > 0 \<and> len + rem_len > read_buf_size c then do {
             let (t, c) = on_world (left_ms E timer) c;
             (_, c) \<leftarrow> read_into E 0 rem_len (at_least_1 t + QCLOUD_IOT_MQTT_MAX_REMAIN_WAIT_MS) c;
             Some (Inl QCLOUD_ERR_BUF_TOO_SHORT, c) }
           else do {
             (rc, c) \<leftarrow> (if rem_len > 0 then do {
                 let (t, c) = on_world (left_ms E timer) c;
                 ((rc, _), c) \<leftarrow> read_into E len rem_len (at_least_1 t + QCLOUD_IOT_MQTT_MAX_REMAIN_WAIT_MS) c;
                 Some (rc, c) }
               else Some (QCLOUD_RET_SUCCESS, c));
             if rc \<noteq> QCLOUD_RET_SUCCESS then Some (Inl rc, c)
             else do { h \<leftarrow> mem_read (read_buf c) 0; Some (Inr (hdr_type h), c) } } } } }"

section \<open>Delivering a message\<close>

text \<open>The search through the handler array from index \<open>i\<close>: the index of the first match with a callback.\<close>

fun deliver_loop :: "buffer \<Rightarrow> nat \<Rightarrow> SubTopicHandle list \<Rightarrow> nat \<Rightarrow> nat option option" where
  "deliver_loop name n [] i = Some None"
| "deliver_loop name n (h # hs) i = do {
     m \<leftarrow> (case topic_filter h of None \<Rightarrow> Some False
          | Some f \<Rightarrow> do { eq \<leftarrow> is_topic_equals name f;
                          if eq then Some True else is_topic_matched f name n });
     if m \<and> message_handler h \<noteq> None then Some (Some i) else deliver_loop name n hs (Suc i) }"

definition deliver_message :: "buffer \<Rightarrow> nat \<Rightarrow> publish_view \<Rightarrow> 'w client \<Rightarrow> (int \<times> 'w client) option" where
  "deliver_message topicName topicNameLen v c = do {
     let msg = \<lparr>msg_view = v, msg_ptopic = topicName, msg_topic_len = topicNameLen,
       msg_payload = drop (pv_payload v) (read_buf c)\<rparr>;
     r \<leftarrow> deliver_loop topicName topicNameLen (sub_handles c) 0;
     case r of
       Some i \<Rightarrow> do {
         h \<leftarrow> message_handler (sub_handles c ! i);
         Some (QCLOUD_RET_SUCCESS, emit (Deliver h msg (handler_user_data (sub_handles c ! i))) c) }
     | None \<Rightarrow> Some (QCLOUD_RET_SUCCESS, if event_handle c then emit (Deliver_Default msg) c else c) }"

section \<open>The wait lists\<close>

text \<open>
  \<open>_mask_pubInfo_from\<close> and \<open>_mask_sub_info_from\<close> walk the list from its tail and mark every node
  with the packet id; \<open>alloc\<close> is the allocation of the iterator. For subscriptions the handle
  of the last node visited, which is the first in the list, is returned.
\<close>

definition mask_pubInfo_from :: "'w hal \<Rightarrow> u16 \<Rightarrow> 'w client \<Rightarrow> int \<times> 'w client" where
  "mask_pubInfo_from E msgId c =
     (if list_pub_wait_ack c = [] then (QCLOUD_RET_SUCCESS, c)
      else let (alloc, c) = on_world (hal_malloc E) c in
        if \<not> alloc then (QCLOUD_RET_SUCCESS, c)
        else (QCLOUD_RET_SUCCESS, c\<lparr>list_pub_wait_ack :=
          map (\<lambda>(a, p). (a, if pub_msg_id p = msgId then p\<lparr>pub_valid := False\<rparr> else p)) (list_pub_wait_ack c)\<rparr>))"

definition mask_sub_info_from :: "'w hal \<Rightarrow> u16 \<Rightarrow> 'w client \<Rightarrow> SubTopicHandle option \<times> 'w client" where
  "mask_sub_info_from E msgId c =
     (if list_sub_wait_ack c = [] then (None, c)
      else let (alloc, c) = on_world (hal_malloc E) c in
        if \<not> alloc then (None, c)
        else (map_option (\<lambda>(a, p). sub_handler p) (List.find (\<lambda>(a, p). sub_msg_id p = msgId) (list_sub_wait_ack c)),
          c\<lparr>list_sub_wait_ack :=
            map (\<lambda>(a, p). (a, if sub_msg_id p = msgId then p\<lparr>sub_valid := False\<rparr> else p)) (list_sub_wait_ack c)\<rparr>))"

definition mask_push_pubInfo_to :: "'w hal \<Rightarrow> nat \<Rightarrow> u16 \<Rightarrow> 'w client \<Rightarrow> ((int + nat) \<times> 'w client) option" where
  "mask_push_pubInfo_to E len msgId c =
     (if len > write_buf_size c then Some (Inl QCLOUD_ERR_FAILURE, c)
      else if length (list_pub_wait_ack c) \<ge> MAX_REPUB_NUM then Some (Inl QCLOUD_ERR_FAILURE, c)
      else do {
        let (alloc, c) = on_world (hal_malloc E) c;
        if \<not> alloc then Some (Inl QCLOUD_ERR_FAILURE, c)
        else do {
          let (t, c) = on_world (countdown_ms E (command_timeout_ms c)) c;
          b \<leftarrow> mem_slice (write_buf c) 0 len;
          let (alloc, c) = on_world (hal_malloc E) c;
          if \<not> alloc then Some (Inl QCLOUD_ERR_FAILURE, c)
          else Some (Inr (next_node c), c\<lparr>next_node := Suc (next_node c),
            list_pub_wait_ack := list_pub_wait_ack c @
              [(next_node c, \<lparr>pub_start_time = t, pub_valid = True, pub_msg_id = msgId, pub_buf = b\<rparr>)]\<rparr>) } })"

definition push_sub_info_to :: "'w hal \<Rightarrow> nat \<Rightarrow> u16 \<Rightarrow> MessageTypes \<Rightarrow> SubTopicHandle \<Rightarrow> 'w client
    \<Rightarrow> ((int + nat) \<times> 'w client) option" where
  "push_sub_info_to E len msgId type handler c =
     (if length (list_sub_wait_ack c) \<ge> MAX_MESSAGE_HANDLERS then Some (Inl QCLOUD_ERR_MQTT_MAX_SUBSCRIPTIONS, c)
      else do {
        let (alloc, c) = on_world (hal_malloc E) c;
        if \<not> alloc then Some (Inl QCLOUD_ERR_FAILURE, c)
        else do {
          let (t, c) = on_world (countdown_ms E (command_timeout_ms c)) c;
          b \<leftarrow> mem_slice (write_buf c) 0 len;
          let (alloc, c) = on_world (hal_malloc E) c;
          if \<not> alloc then Some (Inl QCLOUD_ERR_FAILURE, c)
          else Some (Inr (next_node c), c\<lparr>next_node := Suc (next_node c),
            list_sub_wait_ack := list_sub_wait_ack c @
              [(next_node c, \<lparr>sub_type = type, sub_msg_id = msgId, sub_start_time = t, sub_valid = True,
                 sub_handler = handler, sub_buf = b\<rparr>)]\<rparr>) } })"

section \<open>Packet handlers\<close>

definition check_handle_is_identical :: "SubTopicHandle \<Rightarrow> SubTopicHandle \<Rightarrow> bool" where
  "check_handle_is_identical h1 h2 \<longleftrightarrow> topic_filter h1 = topic_filter h2
     \<and> message_handler h1 = message_handler h2 \<and> sub_event_handler h1 = sub_event_handler h2"

definition handle_puback_packet :: "'w hal \<Rightarrow> 'w client \<Rightarrow> (int \<times> 'w client) option" where
  "handle_puback_packet E c = do {
     r \<leftarrow> deserialize_ack_packet (read_buf c) (read_buf_size c);
     case r of Inl rc \<Rightarrow> Some (rc, c)
     | Inr (type, dup, packet_id) \<Rightarrow>
         let (_, c) = mask_pubInfo_from E packet_id c in
         Some (QCLOUD_RET_SUCCESS, notify MQTT_EVENT_PUBLISH_SUCCESS (unat packet_id) c) }"

text \<open>
  The scan of the handler array in \<open>_handle_suback_packet\<close>: either the index of an identical
  handle, or the first free index of the slots before the end.
\<close>

fun suback_scan :: "SubTopicHandle \<Rightarrow> SubTopicHandle list \<Rightarrow> nat \<Rightarrow> nat option \<Rightarrow> nat + nat option" where
  "suback_scan h [] i i_free = Inr i_free"
| "suback_scan h (s # ss) i i_free =
     (if topic_filter s \<noteq> None then
        if check_handle_is_identical s h then Inl i else suback_scan h ss (Suc i) i_free
      else suback_scan h ss (Suc i) (if i_free = None then Some i else i_free))"

text \<open>The handle goes into the array: a duplicate updates the user data; \<open>False\<close> when the array is full.\<close>

definition install_handle :: "SubTopicHandle \<Rightarrow> 'w client \<Rightarrow> bool \<times> 'w client" where
  "install_handle h c = (case suback_scan h (sub_handles c) 0 None of
       Inl i \<Rightarrow> (True, c\<lparr>sub_handles := (sub_handles c)[i :=
           (sub_handles c ! i)\<lparr>handler_user_data := handler_user_data h\<rparr>]\<rparr>)
     | Inr None \<Rightarrow> (False, c)
     | Inr (Some i) \<Rightarrow> (True, c\<lparr>sub_handles := (sub_handles c)[i := h]\<rparr>))"

definition sub_notify :: "SubTopicHandle \<Rightarrow> MQTTEventType \<Rightarrow> 'w client \<Rightarrow> 'w client" where
  "sub_notify h e c = (case sub_event_handler h of None \<Rightarrow> c
     | Some f \<Rightarrow> emit (Sub_Event f e (handler_user_data h)) c)"

text \<open>The refusal of a SUBACK calls the event callback without a test for null.\<close>

definition handle_suback_packet :: "'w hal \<Rightarrow> 'w client \<Rightarrow> (int \<times> 'w client) option" where
  "handle_suback_packet E c = do {
     r \<leftarrow> deserialize_suback_packet (read_buf c) (read_buf_size c) 1 [QOS0, QOS0, QOS0];
     case r of Inl rc \<Rightarrow> Some (rc, c)
     | Inr (packet_id, count, grantedQoS) \<Rightarrow> do {
         let sub_nack = (grantedQoS ! 0 = 0x80);
         c \<leftarrow> (if sub_nack then
                if event_handle c then Some (emit (Event MQTT_EVENT_SUBCRIBE_NACK (unat packet_id)) c) else None
              else Some c);
         let (found, c) = mask_sub_info_from E packet_id c;
         let sub_handle = (case found of None \<Rightarrow> null_handle | Some h \<Rightarrow> h);
         if topic_filter sub_handle = None then Some (QCLOUD_ERR_MQTT_SUB, c)
         else if sub_nack then Some (QCLOUD_ERR_MQTT_SUB, sub_notify sub_handle MQTT_EVENT_SUBCRIBE_NACK c)
         else do {
           let (ok, c) = install_handle sub_handle c;
           if \<not> ok then Some (QCLOUD_ERR_FAILURE, c)
           else Some (QCLOUD_RET_SUCCESS,
             sub_notify sub_handle MQTT_EVENT_SUBCRIBE_SUCCESS
               (notify MQTT_EVENT_SUBCRIBE_SUCCESS (unat packet_id) c)) } } }"

text \<open>
  Without a node for the packet id the local handle is uninitialised, and its \<open>topic_filter\<close> is
  read and freed.
\<close>

definition handle_unsuback_packet :: "'w hal \<Rightarrow> 'w client \<Rightarrow> (int \<times> 'w client) option" where
  "handle_unsuback_packet E c = do {
     r \<leftarrow> deserialize_unsuback_packet (read_buf c) (read_buf_size c);
     case r of Inl rc \<Rightarrow> Some (rc, c)
     | Inr packet_id \<Rightarrow> do {
         let (found, c) = mask_sub_info_from E packet_id c;
         messageHandler \<leftarrow> found;
         Some (QCLOUD_RET_SUCCESS, notify MQTT_EVENT_UNSUBCRIBE_SUCCESS (unat packet_id) c) } }"

text \<open>An acknowledgement written into \<open>write_buf\<close> and sent.\<close>

definition send_ack :: "'w hal \<Rightarrow> Timer \<Rightarrow> MessageTypes \<Rightarrow> u16 \<Rightarrow> 'w client \<Rightarrow> (int \<times> 'w client) option" where
  "send_ack E timer t packet_id c = do {
     r \<leftarrow> serialize_pub_ack_packet (write_buf c) (write_buf_size c) t 0 packet_id;
     case r of Inl rc \<Rightarrow> Some (rc, c)
     | Inr (len, b) \<Rightarrow> do {
         (rc, c) \<leftarrow> send_mqtt_packet E len timer (c\<lparr>write_buf := b\<rparr>);
         if rc \<noteq> QCLOUD_RET_SUCCESS then Some (rc, c) else Some (QCLOUD_RET_SUCCESS, c) } }"

definition handle_publish_packet :: "'w hal \<Rightarrow> Timer \<Rightarrow> 'w client \<Rightarrow> (int \<times> 'w client) option" where
  "handle_publish_packet E timer c = do {
     r \<leftarrow> deserialize_publish_packet (read_buf c) (read_buf_size c);
     case r of Inl rc \<Rightarrow> Some (rc, c)
     | Inr v \<Rightarrow> do {
         let topic_len = (if pv_topic_len v > MAX_SIZE_OF_CLOUD_TOPIC then MAX_SIZE_OF_CLOUD_TOPIC - 1
                          else pv_topic_len v);
         topic \<leftarrow> mem_slice (read_buf c) (pv_topic v) topic_len;
         fix_topic \<leftarrow> mem_copy (replicate MAX_SIZE_OF_CLOUD_TOPIC 0) 0 topic;
         if pv_qos v = QOS0 then deliver_message fix_topic topic_len v c
         else do {
           id \<leftarrow> pv_packet_id v;
           (rc, c) \<leftarrow> (if cfg_rmdup E \<and> \<not> get_packet_id_in_repeat_buf id c < 0 then Some (QCLOUD_RET_SUCCESS, c)
                      else deliver_message fix_topic topic_len v c);
           if rc \<noteq> QCLOUD_RET_SUCCESS then Some (rc, c)
           else do {
             c \<leftarrow> (if cfg_rmdup E then add_packet_id_to_repeat_buf id c else Some c);
             send_ack E timer (if pv_qos v = QOS1 then PUBACK else PUBREC) id c } } } }"

definition handle_pubrec_packet :: "'w hal \<Rightarrow> Timer \<Rightarrow> 'w client \<Rightarrow> (int \<times> 'w client) option" where
  "handle_pubrec_packet E timer c = do {
     r \<leftarrow> deserialize_ack_packet (read_buf c) (read_buf_size c);
     case r of Inl rc \<Rightarrow> Some (rc, c)
     | Inr (type, dup, packet_id) \<Rightarrow> send_ack E timer PUBREL packet_id c }"

definition handle_pingresp_packet :: "'w hal \<Rightarrow> 'w client \<Rightarrow> 'w client" where
  "handle_pingresp_packet E c = (let c = c\<lparr>is_ping_outstanding := 0\<rparr>;
     (t, c) = on_world (countdown E (unat (keep_alive_interval (options c)))) c in c\<lparr>ping_timer := t\<rparr>)"

section \<open>Dispatch\<close>

text \<open>
  \<open>pt\<close> is the variable behind the caller's pointer \<open>packet_type\<close>; it keeps its value when nothing
  was read.
\<close>

definition dispatch :: "'w hal \<Rightarrow> Timer \<Rightarrow> u8 \<Rightarrow> 'w client \<Rightarrow> (int \<times> 'w client) option" where
  "dispatch E timer pt c =
     (if pt = msg_type_code CONNACK then Some (QCLOUD_RET_SUCCESS, c)
      else if pt = msg_type_code PUBACK then handle_puback_packet E c
      else if pt = msg_type_code SUBACK then handle_suback_packet E c
      else if pt = msg_type_code UNSUBACK then handle_unsuback_packet E c
      else if pt = msg_type_code PUBLISH then handle_publish_packet E timer c
      else if pt = msg_type_code PUBREC then handle_pubrec_packet E timer c
      else if pt = msg_type_code PUBREL \<or> pt = msg_type_code PUBCOMP \<or> pt = msg_type_code PINGRESP
      then Some (QCLOUD_RET_SUCCESS, c)
      else Some (QCLOUD_ERR_RX_MESSAGE_INVAL, c))"

definition after_dispatch :: "'w hal \<Rightarrow> u8 \<Rightarrow> 'w client \<Rightarrow> 'w client" where
  "after_dispatch E pt c =
     (if pt \<in> {msg_type_code PUBACK, msg_type_code SUBACK, msg_type_code UNSUBACK, msg_type_code PINGRESP}
      then handle_pingresp_packet E c
      else if pt = msg_type_code PUBLISH then c\<lparr>is_ping_outstanding := 0\<rparr> else c)"

definition known_type :: "u8 \<Rightarrow> bool" where
  "known_type pt \<longleftrightarrow> pt \<in> {msg_type_code CONNACK, msg_type_code PUBACK, msg_type_code SUBACK,
     msg_type_code UNSUBACK, msg_type_code PUBLISH, msg_type_code PUBREC, msg_type_code PUBREL,
     msg_type_code PUBCOMP, msg_type_code PINGRESP}"

definition cycle_for_read :: "'w hal \<Rightarrow> Timer \<Rightarrow> u8 \<Rightarrow> 'w client \<Rightarrow> ((int \<times> u8) \<times> 'w client) option" where
  "cycle_for_read E timer pt c = do {
     (r, c) \<leftarrow> read_mqtt_packet E timer c;
     case r of
       Inl rc \<Rightarrow> if rc = QCLOUD_ERR_MQTT_NOTHING_TO_READ then Some ((QCLOUD_RET_SUCCESS, pt), c)
                 else Some ((rc, pt), c)
     | Inr pt \<Rightarrow> do {
         (rc, c) \<leftarrow> dispatch E timer pt c;
         if \<not> known_type pt then Some ((rc, pt), c)
         else Some ((rc, pt), after_dispatch E pt c) } }"

partial_function (option) wait_for_read :: "'w hal \<Rightarrow> u8 \<Rightarrow> Timer \<Rightarrow> u8 \<Rightarrow> 'w client \<Rightarrow> (int \<times> 'w client) option" where
  "wait_for_read E packet_type timer read_type c = do {
     let (ex, c) = on_world (expired E timer) c;
     if ex then Some (QCLOUD_ERR_MQTT_REQUEST_TIMEOUT, c)
     else do {
       ((rc, read_type), c) \<leftarrow> cycle_for_read E timer read_type c;
       if rc = QCLOUD_RET_SUCCESS \<and> read_type \<noteq> packet_type
       then wait_for_read E packet_type timer read_type c
       else Some (rc, c) } }"

end
