(* ===== verification/Mqtt_Api.thy ===== *)
theory Mqtt_Api
  imports Mqtt_Client
begin

text \<open>
  The operations of the client: publish, subscribe, resubscribe and unsubscribe
  (\<^verbatim>\<open>mqtt_client_publish.c\<close>, \<^verbatim>\<open>_subscribe.c\<close>, \<^verbatim>\<open>_unsubscribe.c\<close>), connect, reconnect and disconnect
  (\<^verbatim>\<open>mqtt_client_connect.c\<close>), keep-alive, the handling of wait lists and \<open>yield\<close>
  (\<^verbatim>\<open>mqtt_client_yield.c\<close>), and the life cycle of the client (\<^verbatim>\<open>mqtt_client.c\<close>). Same
  conventions as \<open>Mqtt_Client\<close>.
\<close>

section \<open>Publish, subscribe, unsubscribe\<close>

record PublishParams =
  pp_qos :: u8
  pp_retained :: u8
  pp_id :: u16
  pp_payload :: "buffer option"
  pp_payload_len :: nat

record SubscribeParams =
  sp_qos :: u8
  sp_on_message_handler :: "nat option"
  sp_on_sub_event_handler :: "nat option"
  sp_user_data :: nat

text \<open>The node \<open>list_remove\<close> takes out of a wait list.\<close>

definition remove_pub :: "nat \<Rightarrow> 'w client \<Rightarrow> 'w client" where
  "remove_pub a c = c\<lparr>list_pub_wait_ack := filter (\<lambda>x. fst x \<noteq> a) (list_pub_wait_ack c)\<rparr>"

definition remove_sub :: "nat \<Rightarrow> 'w client \<Rightarrow> 'w client" where
  "remove_sub a c = c\<lparr>list_sub_wait_ack := filter (\<lambda>x. fst x \<noteq> a) (list_sub_wait_ack c)\<rparr>"

text \<open>The result is the return code with the parameters, whose \<open>id\<close> is set for QoS 1.\<close>

definition qcloud_iot_mqtt_publish :: "'w hal \<Rightarrow> cstring \<Rightarrow> PublishParams \<Rightarrow> 'w client
    \<Rightarrow> ((int \<times> PublishParams) \<times> 'w client) option" where
  "qcloud_iot_mqtt_publish E topicName p c =
     (if topicName = [] then Some ((QCLOUD_ERR_INVAL, p), c)
      else if length topicName > MAX_SIZE_OF_CLOUD_TOPIC then Some ((QCLOUD_ERR_MAX_TOPIC_LENGTH, p), c)
      else if pp_qos p = QOS2 then Some ((QCLOUD_ERR_MQTT_QOS_NOT_SUPPORT, p), c)
      else if \<not> get_client_conn_state c then Some ((QCLOUD_ERR_MQTT_NO_CONN, p), c)
      else do {
        let (timer, c) = on_world (countdown_ms E (command_timeout_ms c)) c;
        let (p, c) = (if pp_qos p = QOS1 then let (n, c) = get_next_packet_id c in (p\<lparr>pp_id := n\<rparr>, c) else (p, c));
        r \<leftarrow> serialize_publish_packet (write_buf c) (write_buf_size c) 0 (pp_qos p) (pp_retained p) (pp_id p)
               topicName (pp_payload p) (pp_payload_len p);
        case r of Inl rc \<Rightarrow> Some ((rc, p), c)
        | Inr (len, b) \<Rightarrow> do {
            let c = c\<lparr>write_buf := b\<rparr>;
            (node, c) \<leftarrow> (if pp_qos p > QOS0 then mask_push_pubInfo_to E len (pp_id p) c else Some (Inr 0, c));
            case node of Inl rc \<Rightarrow> Some ((rc, p), c)
            | Inr a \<Rightarrow> do {
                (rc, c) \<leftarrow> send_mqtt_packet E len timer c;
                if rc \<noteq> QCLOUD_RET_SUCCESS
                then Some ((rc, p), if pp_qos p > QOS0 then remove_pub a c else c)
                else Some ((int (unat (pp_id p)), p), c) } } })"

definition qcloud_iot_mqtt_subscribe :: "'w hal \<Rightarrow> cstring \<Rightarrow> SubscribeParams \<Rightarrow> 'w client
    \<Rightarrow> (int \<times> 'w client) option" where
  "qcloud_iot_mqtt_subscribe E topicFilter p c =
     (if topicFilter = [] then Some (QCLOUD_ERR_INVAL, c)
      else if length topicFilter > MAX_SIZE_OF_CLOUD_TOPIC then Some (QCLOUD_ERR_MAX_TOPIC_LENGTH, c)
      else if sp_qos p = QOS2 then Some (QCLOUD_ERR_MQTT_QOS_NOT_SUPPORT, c)
      else if \<not> get_client_conn_state c then Some (QCLOUD_ERR_MQTT_NO_CONN, c)
      else do {
        let (alloc, c) = on_world (hal_malloc E) c;
        if \<not> alloc then Some (QCLOUD_ERR_FAILURE, c)
        else do {
          let (timer, c) = on_world (countdown_ms E (command_timeout_ms c)) c;
          let (packet_id, c) = get_next_packet_id c;
          r \<leftarrow> serialize_subscribe_packet (write_buf c) (write_buf_size c) 0 packet_id 1 topicFilter [sp_qos p];
          case r of Inl rc \<Rightarrow> Some (rc, c)
          | Inr (len, b) \<Rightarrow> do {
              let c = c\<lparr>write_buf := b\<rparr>;
              let sub_handle = \<lparr>topic_filter = Some topicFilter, message_handler = sp_on_message_handler p,
                sub_event_handler = sp_on_sub_event_handler p, handler_user_data = sp_user_data p,
                sub_qos = sp_qos p\<rparr>;
              (node, c) \<leftarrow> push_sub_info_to E len packet_id SUBSCRIBE sub_handle c;
              case node of Inl rc \<Rightarrow> Some (rc, c)
              | Inr a \<Rightarrow> do {
                  (rc, c) \<leftarrow> send_mqtt_packet E len timer c;
                  if rc \<noteq> QCLOUD_RET_SUCCESS then Some (rc, remove_sub a c)
                  else Some (int (unat packet_id), c) } } } })"

text \<open>The loop of \<open>qcloud_iot_mqtt_resubscribe\<close> over the indices of the handler array.\<close>

primrec resubscribe_loop :: "'w hal \<Rightarrow> nat \<Rightarrow> nat \<Rightarrow> 'w client \<Rightarrow> (int \<times> 'w client) option" where
  "resubscribe_loop E 0 itr c = Some (QCLOUD_RET_SUCCESS, c)"
| "resubscribe_loop E (Suc n) itr c = do {
     h \<leftarrow> mem_read (sub_handles c) itr;
     case topic_filter h of None \<Rightarrow> resubscribe_loop E n (Suc itr) c
     | Some topic \<Rightarrow> do {
         (rc, c) \<leftarrow> qcloud_iot_mqtt_subscribe E topic \<lparr>sp_qos = sub_qos h,
             sp_on_message_handler = message_handler h, sp_on_sub_event_handler = sub_event_handler h,
             sp_user_data = handler_user_data h\<rparr> c;
         if rc < 0 then Some (rc, c) else resubscribe_loop E n (Suc itr) c } }"

definition qcloud_iot_mqtt_resubscribe :: "'w hal \<Rightarrow> 'w client \<Rightarrow> (int \<times> 'w client) option" where
  "qcloud_iot_mqtt_resubscribe E c =
     (if \<not> get_client_conn_state c then Some (QCLOUD_ERR_MQTT_NO_CONN, c)
      else resubscribe_loop E MAX_MESSAGE_HANDLERS 0 c)"

text \<open>\<open>strstr(s, "/#") != NULL || strstr(s, "/+") != NULL\<close>\<close>

fun has_wild_level :: "cstring \<Rightarrow> bool" where
  "has_wild_level (a # b # s) = ((a = SEP \<and> (b = HASH \<or> b = PLUS)) \<or> has_wild_level (b # s))"
| "has_wild_level _ = False"

text \<open>The loop that clears the handlers: the new array, the effects, and whether one was found.\<close>

fun unsub_loop :: "cstring \<Rightarrow> SubTopicHandle list \<Rightarrow> SubTopicHandle list \<times> effect list \<times> bool" where
  "unsub_loop t [] = ([], [], False)"
| "unsub_loop t (h # hs) = (let (hs', es, b) = unsub_loop t hs in
     if topic_filter h = Some t \<or> has_wild_level t
     then (h\<lparr>topic_filter := None\<rparr> # hs',
           (case sub_event_handler h of None \<Rightarrow> [] | Some f \<Rightarrow> [Sub_Event f MQTT_EVENT_UNSUBSCRIBE (handler_user_data h)]) @ es,
           True)
     else (h # hs', es, b))"

definition qcloud_iot_mqtt_unsubscribe :: "'w hal \<Rightarrow> cstring \<Rightarrow> 'w client \<Rightarrow> (int \<times> 'w client) option" where
  "qcloud_iot_mqtt_unsubscribe E topicFilter c =
     (if topicFilter = [] then Some (QCLOUD_ERR_INVAL, c)
      else if length topicFilter > MAX_SIZE_OF_CLOUD_TOPIC then Some (QCLOUD_ERR_MAX_TOPIC_LENGTH, c)
      else do {
        let (hs, es, suber_exists) = unsub_loop topicFilter (sub_handles c);
        let c = c\<lparr>sub_handles := hs, trace := trace c @ es\<rparr>;
        if \<not> suber_exists then Some (QCLOUD_ERR_MQTT_UNSUB_FAIL, c)
        else if \<not> get_client_conn_state c then Some (QCLOUD_ERR_MQTT_NO_CONN, c)
        else do {
          let (alloc, c) = on_world (hal_malloc E) c;
          if \<not> alloc then Some (QCLOUD_ERR_FAILURE, c)
          else do {
            let (timer, c) = on_world (countdown_ms E (command_timeout_ms c)) c;
            let (packet_id, c) = get_next_packet_id c;
            r \<leftarrow> serialize_unsubscribe_packet (write_buf c) (write_buf_size c) 0 packet_id 1 topicFilter;
            case r of Inl rc \<Rightarrow> Some (rc, c)
            | Inr (len, b) \<Rightarrow> do {
                let c = c\<lparr>write_buf := b\<rparr>;
                (node, c) \<leftarrow> push_sub_info_to E len packet_id UNSUBSCRIBE (null_handle\<lparr>topic_filter := Some topicFilter\<rparr>) c;
                case node of Inl rc \<Rightarrow> Some (rc, c)
                | Inr a \<Rightarrow> do {
                    (rc, c) \<leftarrow> send_mqtt_packet E len timer c;
                    if rc \<noteq> QCLOUD_RET_SUCCESS then Some (rc, remove_sub a c)
                    else Some (int (unat packet_id), c) } } } } })"

section \<open>Connecting\<close>

text \<open>
  \<open>_serialize_connect_packet\<close> with its platform calls: the clock for the expiry (whose value is
  overridden by \<open>LONG_MAX\<close>), the allocation of the user name, and the random connection id.
\<close>

definition serialize_connect :: "'w hal \<Rightarrow> 'w client \<Rightarrow> ((int + nat) \<times> 'w client) option" where
  "serialize_connect E c = do {
     let (alloc, c_id, c) = (if client_id (options c) = [] then (True, [], c)
       else let (_, c) = on_world (HAL_Timer_current_sec E) c; (alloc, c) = on_world (hal_malloc E) c;
                (c_id, c) = on_world (get_next_conn_id E) c in (alloc, c_id, c));
     (r, opt) \<leftarrow> serialize_connect_packet alloc c_id (write_buf c) (write_buf_size c) (options c);
     case r of Inl rc \<Rightarrow> Some (Inl rc, c\<lparr>options := opt\<rparr>)
     | Inr (len, b) \<Rightarrow> Some (Inr len, c\<lparr>options := opt, write_buf := b\<rparr>) }"

definition mqtt_connect :: "'w hal \<Rightarrow> MQTTConnectParams option \<Rightarrow> 'w client \<Rightarrow> (int \<times> 'w client) option" where
  "mqtt_connect E opts c = do {
     let (connect_timer, c) = on_world (countdown_ms E (command_timeout_ms c)) c;
     let c = (case opts of None \<Rightarrow> c | Some p \<Rightarrow> c\<lparr>options := copy_connect_params (options c) p\<rparr>);
     let (rc, c) = on_world (net_connect E) c;
     if rc \<noteq> QCLOUD_RET_SUCCESS then Some (rc, c)
     else do {
       (r, c) \<leftarrow> serialize_connect E c;
       case r of Inl rc \<Rightarrow> Some (rc, c)
       | Inr len \<Rightarrow>
         if len = 0 then Some (QCLOUD_RET_SUCCESS, c)
         else do {
           (rc, c) \<leftarrow> send_mqtt_packet E len connect_timer c;
           if rc \<noteq> QCLOUD_RET_SUCCESS then Some (rc, c)
           else do {
             (rc, c) \<leftarrow> wait_for_read E (msg_type_code CONNACK) connect_timer 0 c;
             if rc \<noteq> QCLOUD_RET_SUCCESS then Some (rc, c)
             else do {
               r \<leftarrow> deserialize_connack_packet (read_buf c) (read_buf_size c);
               case r of Inl rc \<Rightarrow> Some (rc, c)
               | Inr (sessionPresent, connack_rc) \<Rightarrow>
                 if connack_rc \<noteq> QCLOUD_RET_MQTT_CONNACK_CONNECTION_ACCEPTED then Some (connack_rc, c)
                 else
                   let c = (set_client_conn_state True c)\<lparr>was_manually_disconnected := False, is_ping_outstanding := 0\<rparr>;
                       (t, c) = on_world (countdown E (unat (keep_alive_interval (options c)))) c in
                   Some (QCLOUD_RET_SUCCESS, c\<lparr>ping_timer := t\<rparr>) } } } } }"

definition disconnect_net :: "'w hal \<Rightarrow> 'w client \<Rightarrow> 'w client" where
  "disconnect_net E c = c\<lparr>world := net_disconnect E (world c)\<rparr>"

definition qcloud_iot_mqtt_connect :: "'w hal \<Rightarrow> MQTTConnectParams \<Rightarrow> 'w client \<Rightarrow> (int \<times> 'w client) option" where
  "qcloud_iot_mqtt_connect E p c =
     (if get_client_conn_state c then Some (QCLOUD_RET_MQTT_ALREADY_CONNECTED, c)
      else do {
        (rc, c) \<leftarrow> mqtt_connect E (Some p) c;
        Some (rc, if rc \<noteq> QCLOUD_RET_SUCCESS then disconnect_net E c else c) })"

definition qcloud_iot_mqtt_attempt_reconnect :: "'w hal \<Rightarrow> 'w client \<Rightarrow> (int \<times> 'w client) option" where
  "qcloud_iot_mqtt_attempt_reconnect E c =
     (if get_client_conn_state c then Some (QCLOUD_RET_MQTT_ALREADY_CONNECTED, c)
      else do {
        (rc, c) \<leftarrow> qcloud_iot_mqtt_connect E (options c) c;
        if \<not> get_client_conn_state c then Some (rc, c)
        else do {
          (rc, c) \<leftarrow> qcloud_iot_mqtt_resubscribe E c;
          if rc \<noteq> QCLOUD_RET_SUCCESS then Some (rc, c)
          else Some (QCLOUD_RET_MQTT_RECONNECTED, c) } })"

definition qcloud_iot_mqtt_disconnect :: "'w hal \<Rightarrow> 'w client \<Rightarrow> (int \<times> 'w client) option" where
  "qcloud_iot_mqtt_disconnect E c =
     (if \<not> get_client_conn_state c then Some (QCLOUD_ERR_MQTT_NO_CONN, c)
      else do {
        r \<leftarrow> serialize_packet_with_zero_payload (write_buf c) (write_buf_size c) DISCONNECT;
        case r of Inl rc \<Rightarrow> Some (rc, c)
        | Inr (len, b) \<Rightarrow> do {
            let c = c\<lparr>write_buf := b\<rparr>;
            let (timer, c) = on_world (countdown_ms E (command_timeout_ms c)) c;
            (rc, c) \<leftarrow> (if len > 0 then send_mqtt_packet E len timer c else Some (QCLOUD_RET_SUCCESS, c));
            if rc \<noteq> QCLOUD_RET_SUCCESS then Some (rc, c)
            else Some (QCLOUD_RET_SUCCESS,
              (set_client_conn_state False (disconnect_net E c))\<lparr>was_manually_disconnected := True\<rparr>) } })"

section \<open>The wait lists in time\<close>

text \<open>
  The walk of \<open>qcloud_iot_mqtt_pub_info_proc\<close> from the tail of the list: the argument is the
  reversed list, the result the nodes that stay.
\<close>

fun pub_proc_loop :: "'w hal \<Rightarrow> (nat \<times> QcloudIotPubInfo) list \<Rightarrow> (nat \<times> QcloudIotPubInfo) list \<Rightarrow> 'w client
    \<Rightarrow> (nat \<times> QcloudIotPubInfo) list \<times> 'w client" where
  "pub_proc_loop E [] kept c = (kept, c)"
| "pub_proc_loop E ((a, p) # r) kept c =
     (if \<not> pub_valid p then pub_proc_loop E r kept c
      else if \<not> is_connected c then pub_proc_loop E r ((a, p) # kept) c
      else let (left, c) = on_world (left_ms E (pub_start_time p)) c in
        if left > 0 then pub_proc_loop E r ((a, p) # kept) c
        else let (t, c) = on_world (countdown_ms E (command_timeout_ms c)) c in
          pub_proc_loop E r kept (notify MQTT_EVENT_PUBLISH_TIMEOUT (unat (pub_msg_id p)) c))"

definition qcloud_iot_mqtt_pub_info_proc :: "'w hal \<Rightarrow> 'w client \<Rightarrow> int \<times> 'w client" where
  "qcloud_iot_mqtt_pub_info_proc E c =
     (if list_pub_wait_ack c = [] then (QCLOUD_RET_SUCCESS, c)
      else let (alloc, c) = on_world (hal_malloc E) c in
        if \<not> alloc then (QCLOUD_RET_SUCCESS, c)
        else let (l, c) = pub_proc_loop E (rev (list_pub_wait_ack c)) [] c in
          (QCLOUD_RET_SUCCESS, c\<lparr>list_pub_wait_ack := l\<rparr>))"

fun sub_proc_loop :: "'w hal \<Rightarrow> (nat \<times> QcloudIotSubInfo) list \<Rightarrow> (nat \<times> QcloudIotSubInfo) list \<Rightarrow> 'w client
    \<Rightarrow> (nat \<times> QcloudIotSubInfo) list \<times> 'w client" where
  "sub_proc_loop E [] kept c = (kept, c)"
| "sub_proc_loop E ((a, p) # r) kept c =
     (if \<not> sub_valid p then sub_proc_loop E r kept c
      else if \<not> is_connected c then sub_proc_loop E r ((a, p) # kept) c
      else let (left, c) = on_world (left_ms E (sub_start_time p)) c in
        if left > 0 then sub_proc_loop E r ((a, p) # kept) c
        else sub_proc_loop E r kept
          (if event_handle c then
             (if sub_type p = SUBSCRIBE
              then notify MQTT_EVENT_SUBCRIBE_TIMEOUT (unat (sub_msg_id p))
                     (sub_notify (sub_handler p) MQTT_EVENT_SUBCRIBE_TIMEOUT c)
              else notify MQTT_EVENT_UNSUBCRIBE_TIMEOUT (unat (sub_msg_id p)) c)
           else c))"

definition qcloud_iot_mqtt_sub_info_proc :: "'w hal \<Rightarrow> 'w client \<Rightarrow> int \<times> 'w client" where
  "qcloud_iot_mqtt_sub_info_proc E c =
     (if list_sub_wait_ack c = [] then (QCLOUD_RET_SUCCESS, c)
      else let (alloc, c) = on_world (hal_malloc E) c in
        if \<not> alloc then (QCLOUD_RET_SUCCESS, c)
        else let (l, c) = sub_proc_loop E (rev (list_sub_wait_ack c)) [] c in
          (QCLOUD_RET_SUCCESS, c\<lparr>list_sub_wait_ack := l\<rparr>))"

section \<open>Keep-alive, reconnection and yield\<close>

definition MAX_RECONNECT_WAIT_INTERVAL :: nat where [qos_defs]: "MAX_RECONNECT_WAIT_INTERVAL = 60000"
definition MQTT_PING_RETRY_TIMES :: u8 where [qos_defs]: "MQTT_PING_RETRY_TIMES = 2"

definition get_random_interval :: "'w hal \<Rightarrow> 'w \<Rightarrow> nat \<times> 'w" where
  "get_random_interval E w = (let (_, w) = hal_time E w; (r, w) = hal_rand E w in ((r mod 100 + 100) * 10, w))"

definition iot_disconnect_callback :: "'w client \<Rightarrow> 'w client" where
  "iot_disconnect_callback c = notify MQTT_EVENT_DISCONNECT 0 c"

definition reconnect_callback :: "'w client \<Rightarrow> 'w client" where
  "reconnect_callback c = notify MQTT_EVENT_RECONNECT 0 c"

definition handle_disconnect :: "'w hal \<Rightarrow> 'w client \<Rightarrow> (int \<times> 'w client) option" where
  "handle_disconnect E c =
     (if \<not> get_client_conn_state c then Some (QCLOUD_ERR_MQTT_NO_CONN, c)
      else do {
        (rc, c) \<leftarrow> qcloud_iot_mqtt_disconnect E c;
        let c = (if rc \<noteq> QCLOUD_RET_SUCCESS then set_client_conn_state False (disconnect_net E c) else c);
        Some (QCLOUD_ERR_MQTT_NO_CONN, (iot_disconnect_callback c)\<lparr>was_manually_disconnected := False\<rparr>) })"

definition handle_reconnect :: "'w hal \<Rightarrow> 'w client \<Rightarrow> (int \<times> 'w client) option" where
  "handle_reconnect E c = do {
     let (ex, c) = on_world (expired E (reconnect_delay_timer c)) c;
     if \<not> ex then Some (QCLOUD_ERR_MQTT_ATTEMPTING_RECONNECT, c)
     else do {
       (rc, c) \<leftarrow> qcloud_iot_mqtt_attempt_reconnect E c;
       if rc = QCLOUD_RET_MQTT_RECONNECTED then Some (rc, reconnect_callback c)
       else
         let c = c\<lparr>current_reconnect_wait_interval := current_reconnect_wait_interval c * 2 mod 2 ^ 32\<rparr> in
         if MAX_RECONNECT_WAIT_INTERVAL < current_reconnect_wait_interval c
         then Some (QCLOUD_ERR_MQTT_RECONNECT_TIMEOUT, c)
         else let (t, c) = on_world (countdown_ms E (current_reconnect_wait_interval c)) c in
           Some (QCLOUD_ERR_MQTT_ATTEMPTING_RECONNECT, c\<lparr>reconnect_delay_timer := t\<rparr>) } }"

text \<open>\<open>n\<close> is the number of further attempts.\<close>

primrec ping_loop :: "'w hal \<Rightarrow> nat \<Rightarrow> nat \<Rightarrow> 'w client \<Rightarrow> (int \<times> 'w client) option" where
  "ping_loop E len 0 c = do {
     let (timer, c) = on_world (countdown_ms E (command_timeout_ms c)) c;
     send_mqtt_packet E len timer c }"
| "ping_loop E len (Suc n) c = do {
     let (timer, c) = on_world (countdown_ms E (command_timeout_ms c)) c;
     (rc, c) \<leftarrow> send_mqtt_packet E len timer c;
     if rc \<noteq> QCLOUD_RET_SUCCESS then ping_loop E len n c else Some (rc, c) }"

definition mqtt_keep_alive :: "'w hal \<Rightarrow> 'w client \<Rightarrow> (int \<times> 'w client) option" where
  "mqtt_keep_alive E c =
     (if keep_alive_interval (options c) = 0 then Some (QCLOUD_RET_SUCCESS, c)
      else do {
        let (ex, c) = on_world (expired E (ping_timer c)) c;
        if \<not> ex then Some (QCLOUD_RET_SUCCESS, c)
        else if is_ping_outstanding c \<ge> MQTT_PING_RETRY_TIMES then handle_disconnect E c
        else do {
          r \<leftarrow> serialize_packet_with_zero_payload (write_buf c) (write_buf_size c) PINGREQ;
          case r of Inl rc \<Rightarrow> Some (rc, c)
          | Inr (len, b) \<Rightarrow> do {
              (rc, c) \<leftarrow> ping_loop E len 3 (c\<lparr>write_buf := b\<rparr>);
              if rc \<noteq> QCLOUD_RET_SUCCESS then handle_disconnect E c
              else
                let c = c\<lparr>is_ping_outstanding := is_ping_outstanding c + 1\<rparr>;
                    (t, c) = on_world (countdown E (min 5 (unat (keep_alive_interval (options c)) div 2))) c in
                Some (QCLOUD_RET_SUCCESS, c\<lparr>ping_timer := t\<rparr>) } } })"

definition read_failed :: "int \<Rightarrow> bool" where
  "read_failed rc \<longleftrightarrow> rc = QCLOUD_ERR_SSL_READ_TIMEOUT \<or> rc = QCLOUD_ERR_SSL_READ
     \<or> rc = QCLOUD_ERR_TCP_PEER_SHUTDOWN \<or> rc = QCLOUD_ERR_TCP_READ_FAIL"

text \<open>One round on an open connection: read and handle a packet, the wait lists, keep-alive.\<close>

definition yield_round :: "'w hal \<Rightarrow> Timer \<Rightarrow> u8 \<Rightarrow> 'w client \<Rightarrow> ((int \<times> u8) \<times> 'w client) option" where
  "yield_round E timer pt c = do {
     ((rc, pt), c) \<leftarrow> cycle_for_read E timer pt c;
     if rc = QCLOUD_RET_SUCCESS then do {
       let (_, c) = qcloud_iot_mqtt_pub_info_proc E c;
       let (_, c) = qcloud_iot_mqtt_sub_info_proc E c;
       (rc, c) \<leftarrow> mqtt_keep_alive E c;
       Some ((rc, pt), c) }
     else if read_failed rc then do { (rc, c) \<leftarrow> handle_disconnect E c; Some ((rc, pt), c) }
     else Some ((rc, pt), c) }"

partial_function (option) yield_loop :: "'w hal \<Rightarrow> Timer \<Rightarrow> int \<Rightarrow> u8 \<Rightarrow> 'w client \<Rightarrow> (int \<times> 'w client) option" where
  "yield_loop E timer rc pt c = do {
     let (ex, c) = on_world (expired E timer) c;
     if ex then Some (rc, c)
     else if \<not> get_client_conn_state c then
       if current_reconnect_wait_interval c > MAX_RECONNECT_WAIT_INTERVAL
       then Some (QCLOUD_ERR_MQTT_RECONNECT_TIMEOUT, c)
       else do { (rc, c) \<leftarrow> handle_reconnect E c; yield_loop E timer rc pt c }
     else do {
       ((rc, pt), c) \<leftarrow> yield_round E timer pt c;
       if rc = QCLOUD_ERR_MQTT_NO_CONN then
         let c = c\<lparr>counter_network_disconnected := (counter_network_disconnected c + 1) mod 2 ^ 32\<rparr> in
         if auto_connect_enable (options c) then
           let (n, c) = on_world (get_random_interval E) c;
               (t, c) = on_world (countdown_ms E n) (c\<lparr>current_reconnect_wait_interval := n\<rparr>) in
           yield_loop E timer QCLOUD_ERR_MQTT_ATTEMPTING_RECONNECT pt (c\<lparr>reconnect_delay_timer := t\<rparr>)
         else Some (rc, c)
       else if rc \<noteq> QCLOUD_RET_SUCCESS then Some (rc, c)
       else yield_loop E timer rc pt c } }"

definition qcloud_iot_mqtt_yield :: "'w hal \<Rightarrow> nat \<Rightarrow> 'w client \<Rightarrow> (int \<times> 'w client) option" where
  "qcloud_iot_mqtt_yield E timeout_ms c =
     (if timeout_ms = 0 then Some (QCLOUD_ERR_INVAL, c)
      else if \<not> get_client_conn_state c \<and> was_manually_disconnected c
      then Some (QCLOUD_RET_MQTT_MANUALLY_DISCONNECTED, c)
      else if \<not> get_client_conn_state c \<and> \<not> auto_connect_enable (options c)
      then Some (QCLOUD_ERR_MQTT_NO_CONN, c)
      else
        let (timer, c) = on_world (countdown_ms E timeout_ms) c in
        yield_loop E timer QCLOUD_RET_SUCCESS 0 c)"

section \<open>Life cycle\<close>

definition get_random_start_packet_id :: "'w hal \<Rightarrow> 'w \<Rightarrow> u16 \<times> 'w" where
  "get_random_start_packet_id E w = (let (_, w) = hal_time E w; (r, w) = hal_rand E w in (of_nat (r mod 65536 + 1), w))"

definition MIN_COMMAND_TIMEOUT :: nat where "MIN_COMMAND_TIMEOUT = 500"
definition MAX_COMMAND_TIMEOUT :: nat where "MAX_COMMAND_TIMEOUT = 20000"

definition clamp_timeout :: "nat \<Rightarrow> nat" where
  "clamp_timeout t = (let t = (if t < MIN_COMMAND_TIMEOUT then MIN_COMMAND_TIMEOUT else t) in
     if t > MAX_COMMAND_TIMEOUT then MAX_COMMAND_TIMEOUT else t)"

definition null_options :: MQTTConnectParams where
  "null_options = \<lparr>client_id = [], username = None, password = None, conn_id = [], mqtt_version = 0,
     keep_alive_interval = 0, clean_session = False, auto_connect_enable = False\<rparr>"

text \<open>
  The part of \<open>qcloud_iot_mqtt_init\<close> that sets the client's own state: the structure is cleared,
  then filled; \<open>h\<close> is whether the parameters carry an event callback. The two repeat-buffer
  fields are static variables and are kept from \<open>rb\<close>.
\<close>

definition mqtt_init_state :: "'w hal \<Rightarrow> nat \<Rightarrow> bool \<Rightarrow> u16 list \<times> nat \<Rightarrow> 'w \<Rightarrow> 'w client" where
  "mqtt_init_state E command_timeout h rb w = (let (id, w) = get_random_start_packet_id E w in
     \<lparr>is_connected = False, was_manually_disconnected = False, is_ping_outstanding = 0,
      next_packet_id = id, command_timeout_ms = clamp_timeout command_timeout,
      current_reconnect_wait_interval = 0, counter_network_disconnected = 0,
      write_buf_size = QCLOUD_IOT_MQTT_TX_BUF_LEN, read_buf_size = QCLOUD_IOT_MQTT_RX_BUF_LEN,
      write_buf = replicate QCLOUD_IOT_MQTT_TX_BUF_LEN 0, read_buf = replicate QCLOUD_IOT_MQTT_RX_BUF_LEN 0,
      list_pub_wait_ack = [], list_sub_wait_ack = [], event_handle = h, options = null_options,
      ping_timer = InitTimer, reconnect_delay_timer = InitTimer,
      sub_handles = replicate MAX_MESSAGE_HANDLERS null_handle,
      repeat_buf = fst rb, repeat_cnt = snd rb, next_node = 0, trace = [], world = w\<rparr>)"

text \<open>
  The steps of \<open>IOT_MQTT_Destroy\<close> on the client: disconnect, one event to every subscription
  handler, the topic filters freed, the wait lists emptied.
\<close>

fun destroy_events :: "SubTopicHandle list \<Rightarrow> effect list" where
  "destroy_events [] = []"
| "destroy_events (h # hs) = (case sub_event_handler h of None \<Rightarrow> []
     | Some f \<Rightarrow> [Sub_Event f MQTT_EVENT_CLIENT_DESTROY (handler_user_data h)]) @ destroy_events hs"

definition IOT_MQTT_Destroy :: "'w hal \<Rightarrow> 'w client \<Rightarrow> (int \<times> 'w client) option" where
  "IOT_MQTT_Destroy E c = do {
     (rc, c) \<leftarrow> qcloud_iot_mqtt_disconnect E c;
     let c = c\<lparr>trace := trace c @ destroy_events (sub_handles c),
       sub_handles := map (\<lambda>h. h\<lparr>topic_filter := None\<rparr>) (sub_handles c)\<rparr>;
     let c = (if cfg_rmdup E then reset_repeat_packet_id_buffer c else c);
     Some (rc, c\<lparr>list_pub_wait_ack := [], list_sub_wait_ack := []\<rparr>) }"

definition qcloud_iot_mqtt_set_autoreconnect :: "bool \<Rightarrow> 'w client \<Rightarrow> int \<times> 'w client" where
  "qcloud_iot_mqtt_set_autoreconnect b c =
     (QCLOUD_RET_SUCCESS, c\<lparr>options := (options c)\<lparr>auto_connect_enable := b\<rparr>\<rparr>)"

definition qcloud_iot_mqtt_is_autoreconnect_enabled :: "'w client \<Rightarrow> bool" where
  "qcloud_iot_mqtt_is_autoreconnect_enabled c = auto_connect_enable (options c)"

definition qcloud_iot_mqtt_get_network_disconnected_count :: "'w client \<Rightarrow> nat" where
  "qcloud_iot_mqtt_get_network_disconnected_count c = counter_network_disconnected c"

definition qcloud_iot_mqtt_reset_network_disconnected_count :: "'w client \<Rightarrow> int \<times> 'w client" where
  "qcloud_iot_mqtt_reset_network_disconnected_count c = (QCLOUD_RET_SUCCESS, c\<lparr>counter_network_disconnected := 0\<rparr>)"

end
