(* ===== verification/Mqtt_Invariant.thy ===== *)
theory Mqtt_Invariant
  imports Mqtt_Api "HOL-Library.Sublist"
begin

text \<open>
  The invariant of the client and its preservation by every operation: buffer and array sizes,
  the bounds of the wait lists, and the freshness of their nodes. Operations that only touch
  the world or the read buffer are characterised by what they leave unchanged, which the
  functional properties use as well.
\<close>

section \<open>What sending and receiving leave unchanged\<close>

lemma on_world_eq: "on_world f c = (fst (f (world c)), c\<lparr>world := snd (f (world c))\<rparr>)"
  by (simp add: on_world_def case_prod_beta Let_def)

named_theorems frame \<open>what an operation changes\<close>

definition same_but_world :: "'w client \<Rightarrow> 'w client \<Rightarrow> bool" where
  "same_but_world c c' \<longleftrightarrow> c' = c\<lparr>world := world c'\<rparr>"

lemma same_but_world_refl [simp]: "same_but_world c c"
  by (simp add: same_but_world_def)

lemma same_but_world_upd [simp]: "same_but_world c (c\<lparr>world := w\<rparr>)"
  by (auto simp: same_but_world_def)

lemma same_but_world_trans: "same_but_world c c' \<Longrightarrow> same_but_world c' c'' \<Longrightarrow> same_but_world c c''"
  by (cases c; cases c'; cases c'') (simp add: same_but_world_def)

lemma same_but_world_from: "same_but_world (c\<lparr>world := w\<rparr>) c' \<Longrightarrow> same_but_world c c'"
  by (simp add: same_but_world_def)

lemma send_loop_world:
  assumes "send_loop E len timer sent rc c = Some y"
  shows "same_but_world c (snd y)"
  using assms
proof (rule send_loop.raw_induct [where P = "\<lambda>E len timer sent rc c y. same_but_world c (snd y)", rotated], goal_cases)
  case step: (1 f E len timer sent rc c y)
  show ?case
    using step(2)
    by (auto simp: on_world_eq Let_def case_prod_beta split: if_splits bind_splits
        dest!: step(1) same_but_world_from)
qed

lemma send_packet_world [frame]: "send_mqtt_packet E len timer c = Some (rc, c') \<Longrightarrow> same_but_world c c'"
  by (auto simp: send_mqtt_packet_def split: if_splits bind_splits dest: send_loop_world)

lemma rem_len_net_world: "rem_len_net_loop E t len m v c = Some (r, c') \<Longrightarrow> same_but_world c c'"
proof (induction "5 - len" arbitrary: len m v c)
  case 0
  then show ?case by (subst (asm) rem_len_net_loop.simps) (simp add: qos_defs)
next
  case (Suc k)
  have k: "k = 5 - Suc len" using Suc.hyps(2) by simp
  show ?case
    using Suc.prems by (subst (asm) rem_len_net_loop.simps)
      (auto simp: on_world_eq Let_def case_prod_beta split: if_splits bind_splits
        dest!: Suc.hyps(1) [OF k] same_but_world_from)
qed

text \<open>Receiving also changes the read buffer, but not its length.\<close>

definition same_but_read :: "'w client \<Rightarrow> 'w client \<Rightarrow> bool" where
  "same_but_read c c' \<longleftrightarrow> c' = c\<lparr>read_buf := read_buf c', world := world c'\<rparr>
     \<and> length (read_buf c') = length (read_buf c)"

lemma same_but_read_refl [simp]: "same_but_read c c"
  by (simp add: same_but_read_def)

lemma same_but_read_trans: "same_but_read c c' \<Longrightarrow> same_but_read c' c'' \<Longrightarrow> same_but_read c c''"
  by (cases c; cases c'; cases c'') (simp add: same_but_read_def)

lemma same_but_read_world: "same_but_world c c' \<Longrightarrow> same_but_read c c'"
  by (cases c; cases c') (simp add: same_but_read_def same_but_world_def)

lemma read_into_frame: "read_into E p n t c = Some (r, c') \<Longrightarrow> same_but_read c c'"
  by (auto simp: read_into_def on_world_eq Let_def same_but_read_def mem_slice_def case_prod_beta
      split: if_splits bind_splits)

lemma discard_loop_frame:
  assumes "discard_loop E t rem_len k n c = Some y"
  shows "same_but_read c (snd y)"
  using assms
proof (rule discard_loop.raw_induct [where P = "\<lambda>E t rem_len k n c y. same_but_read c (snd y)", rotated], goal_cases)
  case step: (1 f E t rem_len k n c y)
  show ?case
    using step(2)
    by (auto simp: Let_def split: if_splits bind_splits
        dest!: step(1) read_into_frame intro: same_but_read_trans)
qed

lemma write_rem_len_length:
  "mqtt_write_packet_rem_len n (b, p) = Some (b', q) \<Longrightarrow> p \<le> length b \<Longrightarrow> length b' = length b"
  by (drule write_rem_len.wr_Some(4)) auto

lemma read_packet_frame [frame]:
  assumes "read_mqtt_packet E timer c = Some (r, c')" and "1 \<le> length (read_buf c)"
  shows "same_but_read c c'"
proof -
  have tr: "same_but_read c c1 \<Longrightarrow> same_but_read c1 c2 \<Longrightarrow> same_but_read c c2" for c1 c2
    by (rule same_but_read_trans)
  have w: "same_but_read c (c1\<lparr>world := w\<rparr>)" if "same_but_read c c1" for c1 w
    using that by (cases c; cases c1) (simp add: same_but_read_def)
  have b: "same_but_read c (c1\<lparr>read_buf := b\<rparr>)"
    if "same_but_read c c1" "mqtt_write_packet_rem_len n (read_buf c1, Suc 0) = Some (b, q)" for c1 b n q
    using that assms(2) write_rem_len_length [OF that(2)] by (cases c; cases c1) (simp add: same_but_read_def)
  have n: "same_but_read c c2" if "same_but_read c c1" "decode_packet_rem_len_with_net_read E t c1 = Some (r, c2)"
    for c1 c2 t r
    using that by (auto simp: decode_packet_rem_len_with_net_read_def
        dest!: rem_len_net_world same_but_read_world intro: tr)
  have i: "same_but_read c c2" if "same_but_read c c1" "read_into E p k t c1 = Some (r, c2)" for c1 c2 p k t r
    using that by (auto dest: read_into_frame intro: tr)
  have d: "same_but_read c (snd y)" if "same_but_read c c1" "discard_loop E t m k l c1 = Some y" for c1 t m k l y
    using that by (auto dest: discard_loop_frame intro: tr)
  show ?thesis
    using assms(1)
    by (auto simp: read_mqtt_packet_def on_world_eq Let_def split: if_splits bind_splits sum.splits
        dest!: i [rotated] n [rotated] d [rotated] b [rotated] intro!: w)
qed

section \<open>The serialisers keep the size of the buffer\<close>

lemmas wr_lens = write_char.wr_len write_uint16.wr_len write_utf8.wr_len write_rem_len.wr_len

definition cur_ok :: "nat \<Rightarrow> buffer \<Rightarrow> cursor \<Rightarrow> bool" where
  "cur_ok k buf cur \<longleftrightarrow> length (fst cur) = length buf \<and> k \<le> snd cur \<and> snd cur \<le> length (fst cur)"

lemma cur_ok_start: "cur_ok 0 buf (buf, 0)"
  by (simp add: cur_ok_def)

lemma cur_ok_write:
  "mqtt_write_char x1 cur = Some cur' \<Longrightarrow> cur_ok k buf cur \<Longrightarrow> cur_ok k buf cur'"
  "mqtt_write_uint_16 x2 cur = Some cur' \<Longrightarrow> cur_ok k buf cur \<Longrightarrow> cur_ok k buf cur'"
  "mqtt_write_utf8_string x3 cur = Some cur' \<Longrightarrow> cur_ok k buf cur \<Longrightarrow> cur_ok k buf cur'"
  "mqtt_write_packet_rem_len x4 cur = Some cur' \<Longrightarrow> cur_ok k buf cur \<Longrightarrow> cur_ok k buf cur'"
  using write_char.wr_len [of x1 cur cur'] write_char.wr_grows [of x1 cur cur' k]
    write_uint16.wr_len [of x2 cur cur'] write_uint16.wr_grows [of x2 cur cur' k]
    write_utf8.wr_len [of x3 cur cur'] write_utf8.wr_grows [of x3 cur cur' k]
    write_rem_len.wr_len [of x4 cur cur'] write_rem_len.wr_grows [of x4 cur cur' k]
  by (simp_all add: cur_ok_def)

lemma cur_ok_length: "cur_ok k buf (b, p) \<Longrightarrow> length b = length buf"
  by (simp add: cur_ok_def)

lemma subscribe_loop_ok:
  "subscribe_payload_loop n i t qs cur = Some cur' \<Longrightarrow> cur_ok k buf cur \<Longrightarrow> cur_ok k buf cur'"
  by (induction n arbitrary: i cur) (auto split: bind_splits dest!: cur_ok_write)

lemma unsubscribe_loop_ok:
  "unsubscribe_payload_loop n i t cur = Some cur' \<Longrightarrow> cur_ok k buf cur \<Longrightarrow> cur_ok k buf cur'"
  by (induction n arbitrary: i cur) (auto split: bind_splits dest!: cur_ok_write)

lemma cur_ok_copy: "mem_copy b p xs = Some b' \<Longrightarrow> cur_ok k buf (b, p) \<Longrightarrow> length b' = length buf"
  by (auto simp: mem_copy_def cur_ok_def split: if_splits)

lemma serialize_length:
  "serialize_packet_with_zero_payload buf L t = Some (Inr (n, b)) \<Longrightarrow> length b = length buf"
  "serialize_pub_ack_packet buf L t d i = Some (Inr (n, b)) \<Longrightarrow> length b = length buf"
  "serialize_publish_packet buf L d q r i topic pl len = Some (Inr (n, b)) \<Longrightarrow> length b = length buf"
  "serialize_subscribe_packet buf L d i k topic qs = Some (Inr (n, b)) \<Longrightarrow> length b = length buf"
  "serialize_unsubscribe_packet buf L d i k topic = Some (Inr (n, b)) \<Longrightarrow> length b = length buf"
proof -
  note start = cur_ok_start [of buf]
  show "serialize_packet_with_zero_payload buf L t = Some (Inr (n, b)) \<Longrightarrow> length b = length buf"
    using start by (auto simp: serialize_packet_with_zero_payload_def split: if_splits sum.splits bind_splits
        dest!: cur_ok_write dest: cur_ok_length)
  show "serialize_pub_ack_packet buf L t d i = Some (Inr (n, b)) \<Longrightarrow> length b = length buf"
    using start by (auto simp: serialize_pub_ack_packet_def Let_def split: if_splits sum.splits bind_splits
        dest!: cur_ok_write dest: cur_ok_length)
  show "serialize_publish_packet buf L d q r i topic pl len = Some (Inr (n, b)) \<Longrightarrow> length b = length buf"
    using start by (auto simp: serialize_publish_packet_def Let_def
        split: option.splits if_splits sum.splits bind_splits
        dest!: cur_ok_write cur_ok_copy dest: cur_ok_length)
  show "serialize_subscribe_packet buf L d i k topic qs = Some (Inr (n, b)) \<Longrightarrow> length b = length buf"
    using start by (auto simp: serialize_subscribe_packet_def split: if_splits sum.splits bind_splits
        dest!: cur_ok_write subscribe_loop_ok dest: cur_ok_length)
  show "serialize_unsubscribe_packet buf L d i k topic = Some (Inr (n, b)) \<Longrightarrow> length b = length buf"
    using start by (auto simp: serialize_unsubscribe_packet_def split: if_splits sum.splits bind_splits
        dest!: cur_ok_write unsubscribe_loop_ok dest: cur_ok_length)
qed

lemma cur_ok_name:
  assumes "(if b then Option.bind (mqtt_write_utf8_string xs cur) (mqtt_write_char x)
      else Option.bind (mqtt_write_utf8_string ys cur) (mqtt_write_char y)) = Some cur'"
    and "cur_ok k buf cur"
  shows "cur_ok k buf cur'"
  using assms by (auto split: if_splits bind_splits dest!: cur_ok_write)

lemma cur_ok_optional:
  assumes "(case v of Some u \<Rightarrow> if f then Option.bind (mqtt_write_utf8_string u cur) (\<lambda>k. Some (k, o1))
        else Some (cur, o2) | None \<Rightarrow> Some (cur, o2)) = Some (cur', opt')"
    and "cur_ok k buf cur"
  shows "cur_ok k buf cur'"
  using assms by (auto split: option.splits if_splits bind_splits dest!: cur_ok_write)

lemma connect_fields_ok:
  assumes "connect_fields h n opt cur = Some (cur', opt')" and "cur_ok k buf cur"
  shows "cur_ok (k + 1) buf cur'"
proof -
  obtain c1 c2 c3 c4 c5 c6 c7 opt7 where
    c: "mqtt_write_char h cur = Some c1" "mqtt_write_packet_rem_len n c1 = Some c2"
      "(if mqtt_version opt = 4
             then Option.bind (mqtt_write_utf8_string [77, 81, 84, 84] c2) (mqtt_write_char 4)
             else Option.bind (mqtt_write_utf8_string [77, 81, 73, 115, 100, 112] c2) (mqtt_write_char 3)) = Some c3"
      "mqtt_write_char (connect_flags opt) c3 = Some c4"
      "mqtt_write_uint_16 (keep_alive_interval opt) c4 = Some c5"
      "mqtt_write_utf8_string (client_id opt) c5 = Some c6"
      "(case username opt of
         Some u \<Rightarrow> if connect_flags opt AND 0x80 \<noteq> 0
           then Option.bind (mqtt_write_utf8_string u c6) (\<lambda>cur. Some (cur, opt\<lparr>username := None\<rparr>))
           else Some (c6, opt)
       | None \<Rightarrow> Some (c6, opt)) = Some (c7, opt7)"
      "(case password opt7 of
         Some w \<Rightarrow> if connect_flags opt AND 0x40 \<noteq> 0
           then Option.bind (mqtt_write_utf8_string w c7) (\<lambda>cur. Some (cur, opt7\<lparr>password := None\<rparr>))
           else Some (c7, opt7)
       | None \<Rightarrow> Some (c7, opt7)) = Some (cur', opt')"
    using assms(1) by (simp only: connect_fields_def bind_eq_Some_conv split_paired_Ex case_prod_conv) blast
  have "snd c1 = snd cur + 1" using c(1) assms(2) write_char.wr_Some(2) [of h "fst cur" "snd cur" "fst c1" "snd c1"]
    by (simp add: cur_ok_def char_bytes_def)
  then have "cur_ok (k + 1) buf c1" using cur_ok_write(1) [OF c(1) assms(2)] assms(2) by (simp add: cur_ok_def)
  then have "cur_ok (k + 1) buf c3" using cur_ok_name [OF c(3)] c(2) by (blast dest: cur_ok_write)
  then have "cur_ok (k + 1) buf c6" using c(4-6) by (blast dest: cur_ok_write)
  then have "cur_ok (k + 1) buf c7" by (rule cur_ok_optional [OF c(7)])
  then show ?thesis by (rule cur_ok_optional [OF c(8)])
qed

lemma serialize_connect_length:
  assumes "serialize_connect_packet alloc i buf L opt = Some (Inr (n, b), opt')"
  shows "length b = length buf" and "0 < n"
proof -
  obtain h m o1 where "connect_fields h m o1 (buf, 0) = Some ((b, n), opt')"
    using assms by (auto simp: serialize_connect_packet_def Let_def split: if_splits sum.splits bind_splits)
  from connect_fields_ok [OF this cur_ok_start] show "length b = length buf" "0 < n" by (simp_all add: cur_ok_def)
qed

section \<open>The walk over the wait lists\<close>

lemma pub_proc_kept:
  "pub_proc_loop E l kept c = (l', c') \<Longrightarrow> \<exists>k. Sublist.subseq k l \<and> l' = rev k @ kept"
proof (induction E l kept c arbitrary: l' c' rule: pub_proc_loop.induct)
  case (2 E a p r kept c)
  then show ?case
    by (simp add: on_world_eq Let_def split: if_splits)
      (metis append_Cons append_Nil append_assoc rev.simps(2) subseq_Cons2 list_emb_Cons)+
qed simp

lemma sub_proc_kept:
  "sub_proc_loop E l kept c = (l', c') \<Longrightarrow> \<exists>k. Sublist.subseq k l \<and> l' = rev k @ kept"
proof (induction E l kept c arbitrary: l' c' rule: sub_proc_loop.induct)
  case (2 E a p r kept c)
  then show ?case
    by (simp add: on_world_eq Let_def split: if_splits)
      (metis append_Cons append_Nil append_assoc rev.simps(2) subseq_Cons2 list_emb_Cons)+
qed simp

lemma subseq_rev_snoc: "Sublist.subseq xs ys \<Longrightarrow> Sublist.subseq (rev xs) (rev ys)"
  by (induction rule: list_emb.induct) (auto intro: list_emb_append_mono subseq_rev_drop_many)

lemma subseq_rev_rev: "Sublist.subseq k (rev l) \<Longrightarrow> Sublist.subseq (rev k) l"
  by (metis rev_rev_ident subseq_rev_snoc)

text \<open>The walk over a list reports to the application and reads the clock.\<close>

definition same_but_events :: "'w client \<Rightarrow> 'w client \<Rightarrow> bool" where
  "same_but_events c c' \<longleftrightarrow> (\<exists>es w. c' = c\<lparr>trace := trace c @ es, world := w\<rparr>)"

lemma same_but_events_refl [simp]: "same_but_events c c"
  unfolding same_but_events_def by (rule exI [of _ "[]"], rule exI [of _ "world c"]) simp

lemma same_but_events_trans: "same_but_events c c' \<Longrightarrow> same_but_events c' c'' \<Longrightarrow> same_but_events c c''"
  unfolding same_but_events_def by clarsimp (metis append_assoc)

lemma same_but_events_world [simp]: "same_but_events c (c\<lparr>world := w\<rparr>)"
  unfolding same_but_events_def by (rule exI [of _ "[]"], rule exI [of _ w]) simp

lemma same_but_events_emit [simp]: "same_but_events c (emit e c)"
  unfolding same_but_events_def emit_def by (rule exI [of _ "[e]"], rule exI [of _ "world c"]) simp

lemma same_but_events_notify [simp]: "same_but_events c (notify e m c)"
  by (simp add: notify_def)

lemma same_but_events_sub_notify [simp]: "same_but_events c (sub_notify h e c)"
  by (simp add: sub_notify_def split: option.split)

lemma same_but_events_from:
  "same_but_events (c\<lparr>world := w\<rparr>) c' \<Longrightarrow> same_but_events c c'"
  "same_but_events (notify e m c) c' \<Longrightarrow> same_but_events c c'"
  "same_but_events (sub_notify h e c) c' \<Longrightarrow> same_but_events c c'"
  by (blast intro: same_but_events_trans same_but_events_world same_but_events_notify same_but_events_sub_notify)+

lemma pub_proc_events: "pub_proc_loop E l kept c = (l', c') \<Longrightarrow> same_but_events c c'"
proof (induction l arbitrary: kept c)
  case (Cons x l)
  then show ?case
    by (cases x) (auto simp: on_world_eq Let_def split: if_splits dest!: Cons.IH same_but_events_from)
qed simp

lemma sub_proc_events: "sub_proc_loop E l kept c = (l', c') \<Longrightarrow> same_but_events c c'"
proof (induction l arbitrary: kept c)
  case (Cons x l)
  then show ?case
    by (cases x) (auto simp: on_world_eq Let_def split: if_splits dest!: Cons.IH same_but_events_from)
qed simp

section \<open>Predicates every operation preserves\<close>

text \<open>
  The interface between the operations and an invariant: \<open>I\<close> is closed under the elementary
  changes the operations make to the state. Every operation then preserves \<open>I\<close>; this is proved
  once, and used for each interpretation.
\<close>

definition pub_node :: "nat \<times> QcloudIotPubInfo \<Rightarrow> nat \<times> u16 \<times> buffer" where
  "pub_node = (\<lambda>(a, p). (a, pub_msg_id p, pub_buf p))"

definition sub_node :: "nat \<times> QcloudIotSubInfo \<Rightarrow> nat \<times> u16 \<times> SubTopicHandle" where
  "sub_node = (\<lambda>(a, p). (a, sub_msg_id p, sub_handler p))"

definition filter_known :: "'w client \<Rightarrow> cstring option \<Rightarrow> bool" where
  "filter_known c f \<longleftrightarrow> f = None \<or> f \<in> topic_filter ` set (sub_handles c)
     \<or> f \<in> (topic_filter \<circ> sub_handler \<circ> snd) ` set (list_sub_wait_ack c)"

lemma mask_sub_known:
  assumes "mask_sub_info_from E i c = (Some h, c')"
  shows "filter_known c' (topic_filter h)"
proof -
  let ?f = "\<lambda>(a, p). (a, if sub_msg_id p = i then p\<lparr>sub_valid := False\<rparr> else p)"
  obtain a p where p: "List.find (\<lambda>(a, p). sub_msg_id p = i) (list_sub_wait_ack c) = Some (a, p)" "sub_handler p = h"
    and c': "list_sub_wait_ack c' = map ?f (list_sub_wait_ack c)"
    using assms by (auto simp: mask_sub_info_from_def on_world_eq split: if_splits)
  from p(1) have "?f (a, p) \<in> set (list_sub_wait_ack c')"
    unfolding c' by (auto simp: find_Some_iff simp del: set_map intro!: image_eqI [where x = "(a, p)"] simp: set_map)
      (metis nth_mem)+
  then have "(topic_filter \<circ> sub_handler \<circ> snd) (?f (a, p)) \<in> (topic_filter \<circ> sub_handler \<circ> snd) ` set (list_sub_wait_ack c')"
    by (rule imageI)
  with p(2) show ?thesis by (auto simp: filter_known_def split: if_splits)
qed

locale call_invariant =
  fixes I :: "'w client \<Rightarrow> bool"
  assumes I_world [simp]: "I c \<Longrightarrow> I (c\<lparr>world := w\<rparr>)"
    and I_read: "I c \<Longrightarrow> length b = length (read_buf c) \<Longrightarrow> I (c\<lparr>read_buf := b\<rparr>)"
    and I_nonempty: "I c \<Longrightarrow> 1 \<le> length (read_buf c)"
    and I_write [simp]: "I c \<Longrightarrow> length b = length (write_buf c) \<Longrightarrow> I (c\<lparr>write_buf := b\<rparr>)"
    and I_emit [simp]: "I c \<Longrightarrow> I (c\<lparr>trace := trace c @ es\<rparr>)"
    and I_conn [simp]: "I c \<Longrightarrow> I (c\<lparr>is_connected := x1\<rparr>)"
    and I_manual [simp]: "I c \<Longrightarrow> I (c\<lparr>was_manually_disconnected := x1\<rparr>)"
    and I_ping [simp]: "I c \<Longrightarrow> I (c\<lparr>is_ping_outstanding := x2\<rparr>)"
    and I_next_id [simp]: "I c \<Longrightarrow> I (snd (get_next_packet_id c))"
    and I_options [simp]: "I c \<Longrightarrow> I (c\<lparr>options := x4\<rparr>)"
    and I_ping_timer [simp]: "I c \<Longrightarrow> I (c\<lparr>ping_timer := x5\<rparr>)"
    and I_handles: "I c \<Longrightarrow> length hs = length (sub_handles c)
      \<Longrightarrow> (\<And>h. h \<in> set hs \<Longrightarrow> filter_known c (topic_filter h)) \<Longrightarrow> I (c\<lparr>sub_handles := hs\<rparr>)"
    and I_pub_shrink: "I c \<Longrightarrow> Sublist.subseq (map pub_node ps) (map pub_node (list_pub_wait_ack c))
      \<Longrightarrow> I (c\<lparr>list_pub_wait_ack := ps\<rparr>)"
    and I_sub_shrink: "I c \<Longrightarrow> Sublist.subseq (map sub_node ss) (map sub_node (list_sub_wait_ack c))
      \<Longrightarrow> I (c\<lparr>list_sub_wait_ack := ss\<rparr>)"
    and I_pub_push: "I c \<Longrightarrow> length (list_pub_wait_ack c) < MAX_REPUB_NUM
      \<Longrightarrow> length (pub_buf p) \<le> length (write_buf c)
      \<Longrightarrow> I (c\<lparr>next_node := Suc (next_node c), list_pub_wait_ack := list_pub_wait_ack c @ [(next_node c, p)]\<rparr>)"
    and I_sub_push: "I c \<Longrightarrow> length (list_sub_wait_ack c) < MAX_MESSAGE_HANDLERS
      \<Longrightarrow> length (sub_buf s) \<le> length (write_buf c) \<Longrightarrow> topic_filter (sub_handler s) = Some f
      \<Longrightarrow> 0 < length f \<Longrightarrow> length f \<le> MAX_SIZE_OF_CLOUD_TOPIC
      \<Longrightarrow> I (c\<lparr>next_node := Suc (next_node c), list_sub_wait_ack := list_sub_wait_ack c @ [(next_node c, s)]\<rparr>)"
    and I_repeat: "I c \<Longrightarrow> add_packet_id_to_repeat_buf i c = Some c' \<Longrightarrow> I c'"
    and I_reset [simp]: "I c \<Longrightarrow> I (reset_repeat_packet_id_buffer c)"
begin

lemma I_same_world: "same_but_world c c' \<Longrightarrow> I c \<longrightarrow> I c'"
  unfolding same_but_world_def by (metis I_world)

lemma I_same_read: "same_but_read c c' \<Longrightarrow> I c \<longrightarrow> I c'"
  unfolding same_but_read_def by (metis I_world I_read)

lemma I_notify [simp]: "I c \<Longrightarrow> I (notify e m c)"
  by (simp add: notify_def emit_def)

lemma I_emit_one [simp]: "I c \<Longrightarrow> I (emit e c)"
  by (simp add: emit_def)

lemma I_sub_notify [simp]: "I c \<Longrightarrow> I (sub_notify h e c)"
  by (simp add: sub_notify_def split: option.split)

lemma I_set_conn [simp]: "I c \<Longrightarrow> I (set_client_conn_state b c)"
  by (simp add: set_client_conn_state_def)

lemma I_disconnect_net [simp]: "I c \<Longrightarrow> I (disconnect_net E c)"
  by (simp add: disconnect_net_def)

lemma I_send: "send_mqtt_packet E len t c = Some (rc, c') \<Longrightarrow> I c \<longrightarrow> I c'"
  by (rule I_same_world [OF send_packet_world])

lemma I_read_packet: "read_mqtt_packet E t c = Some (r, c') \<Longrightarrow> I c \<longrightarrow> I c'"
  using I_nonempty I_same_read read_packet_frame by blast

lemma I_deliver: "deliver_message n k v c = Some (rc, c') \<Longrightarrow> I c \<longrightarrow> I c'"
  by (auto simp: deliver_message_def Let_def split: bind_splits option.splits)

lemma I_mask_pub [simp]: "I c \<Longrightarrow> I (snd (mask_pubInfo_from E i c))"
proof -
  assume c: "I c"
  have "map (pub_node \<circ> (\<lambda>(a, p). (a, if pub_msg_id p = i then p\<lparr>pub_valid := False\<rparr> else p))) l = map pub_node l" for l
    by (auto simp: pub_node_def)
  then have "I (c'\<lparr>list_pub_wait_ack := map (\<lambda>(a, p). (a, if pub_msg_id p = i then p\<lparr>pub_valid := False\<rparr> else p))
      (list_pub_wait_ack c')\<rparr>)" if "I c'" for c'
    by (intro I_pub_shrink that) (simp only: map_map subseq_order.order_refl)
  from this [OF I_world [OF c]] show ?thesis
    using c by (simp add: mask_pubInfo_from_def on_world_eq)
qed

lemma I_mask_sub [simp]: "I c \<Longrightarrow> I (snd (mask_sub_info_from E i c))"
proof -
  assume c: "I c"
  have "map (sub_node \<circ> (\<lambda>(a, p). (a, if sub_msg_id p = i then p\<lparr>sub_valid := False\<rparr> else p))) l = map sub_node l" for l
    by (auto simp: sub_node_def)
  then have "I (c'\<lparr>list_sub_wait_ack := map (\<lambda>(a, p). (a, if sub_msg_id p = i then p\<lparr>sub_valid := False\<rparr> else p))
      (list_sub_wait_ack c')\<rparr>)" if "I c'" for c'
    by (intro I_sub_shrink that) (simp only: map_map subseq_order.order_refl)
  from this [OF I_world [OF c]] show ?thesis
    using c by (simp add: mask_sub_info_from_def on_world_eq)
qed

lemma I_pub_push_world:
  "I c \<Longrightarrow> length (list_pub_wait_ack c) < MAX_REPUB_NUM \<Longrightarrow> length (pub_buf p) \<le> length (write_buf c)
    \<Longrightarrow> I (c\<lparr>world := w, next_node := Suc (next_node c), list_pub_wait_ack := list_pub_wait_ack c @ [(next_node c, p)]\<rparr>)"
  using I_pub_push [OF I_world [of c w], of p] by simp

lemma I_sub_push_world:
  "I c \<Longrightarrow> length (list_sub_wait_ack c) < MAX_MESSAGE_HANDLERS \<Longrightarrow> length (sub_buf s) \<le> length (write_buf c)
    \<Longrightarrow> topic_filter (sub_handler s) = Some f
    \<Longrightarrow> 0 < length f \<Longrightarrow> length f \<le> MAX_SIZE_OF_CLOUD_TOPIC
    \<Longrightarrow> I (c\<lparr>world := w, next_node := Suc (next_node c), list_sub_wait_ack := list_sub_wait_ack c @ [(next_node c, s)]\<rparr>)"
  using I_sub_push [OF I_world [of c w], of s f] by simp

lemma I_mask_push: "mask_push_pubInfo_to E len i c = Some (r, c') \<Longrightarrow> I c \<longrightarrow> I c'"
  by (auto simp: mask_push_pubInfo_to_def on_world_eq Let_def mem_slice_def split: if_splits bind_splits
      intro!: I_pub_push_world)

lemma I_push_sub:
  "push_sub_info_to E len i t h c = Some (r, c') \<Longrightarrow> topic_filter h = Some f
    \<Longrightarrow> 0 < length f \<Longrightarrow> length f \<le> MAX_SIZE_OF_CLOUD_TOPIC \<Longrightarrow> I c \<longrightarrow> I c'"
  by (auto simp: push_sub_info_to_def on_world_eq Let_def mem_slice_def split: if_splits bind_splits
      intro!: I_sub_push_world)

lemma I_puback: "handle_puback_packet E c = Some (rc, c') \<Longrightarrow> I c \<longrightarrow> I c'"
  by (auto simp: handle_puback_packet_def case_prod_beta Let_def split: bind_splits sum.splits)

lemma I_unsuback: "handle_unsuback_packet E c = Some (rc, c') \<Longrightarrow> I c \<longrightarrow> I c'"
  by (auto simp: handle_unsuback_packet_def case_prod_beta Let_def split: bind_splits sum.splits)

lemma I_send_ack: "send_ack E t k i c = Some (rc, c') \<Longrightarrow> I c \<longrightarrow> I c'"
  by (auto simp: send_ack_def split: bind_splits sum.splits if_splits dest!: I_send serialize_length)

lemma I_pubrec: "handle_pubrec_packet E t c = Some (rc, c') \<Longrightarrow> I c \<longrightarrow> I c'"
  by (auto simp: handle_pubrec_packet_def split: bind_splits sum.splits dest!: I_send_ack)

lemma I_publish_packet: "handle_publish_packet E t c = Some (rc, c') \<Longrightarrow> I c \<longrightarrow> I c'"
  by (auto simp: handle_publish_packet_def Let_def split: bind_splits sum.splits if_splits
      dest!: I_send_ack I_deliver dest: I_repeat)

lemma I_pingresp [simp]: "I c \<Longrightarrow> I (handle_pingresp_packet E c)"
  by (simp add: handle_pingresp_packet_def on_world_eq)

lemma I_install:
  assumes "I c" and "filter_known c (topic_filter h)"
  shows "I (c\<lparr>sub_handles := (sub_handles c)[i := h]\<rparr>)"
  using assms by (intro I_handles) (auto simp: filter_known_def dest!: set_update_subset_insert [THEN subsetD])

lemma I_user_data:
  assumes "I c"
  shows "I (c\<lparr>sub_handles := (sub_handles c)[i := (sub_handles c ! i)\<lparr>handler_user_data := u\<rparr>]\<rparr>)"
proof (cases "i < length (sub_handles c)")
  case True
  with assms show ?thesis by (intro I_install) (auto simp: filter_known_def)
next
  case False
  then have "(sub_handles c)[i := (sub_handles c ! i)\<lparr>handler_user_data := u\<rparr>] = sub_handles c"
    by (simp add: list_update_beyond)
  then show ?thesis using assms by simp
qed

lemma I_install_handle:
  "I c \<Longrightarrow> filter_known c (topic_filter h) \<Longrightarrow> I (snd (install_handle h c))"
  by (auto simp: install_handle_def I_install I_user_data split: sum.splits option.splits)

lemma I_suback: "handle_suback_packet E c = Some (rc, c') \<Longrightarrow> I c \<longrightarrow> I c'"
  by (auto simp: handle_suback_packet_def Let_def case_prod_beta null_handle_def [THEN arg_cong [where f = topic_filter]]
      split: bind_splits sum.splits if_splits option.splits
      intro!: I_sub_notify I_notify I_install_handle I_mask_sub
      intro: mask_sub_known [OF prod_eqI])

lemma I_dispatch: "dispatch E t pt c = Some (rc, c') \<Longrightarrow> I c \<longrightarrow> I c'"
  by (auto simp: dispatch_def split: if_splits
      dest!: I_puback I_suback I_unsuback I_publish_packet I_pubrec)

lemma I_after_dispatch [simp]: "I c \<Longrightarrow> I (after_dispatch E pt c)"
  by (simp add: after_dispatch_def)

lemma I_cycle: "cycle_for_read E t pt c = Some (r, c') \<Longrightarrow> I c \<longrightarrow> I c'"
  by (auto simp: cycle_for_read_def split: if_splits bind_splits sum.splits dest!: I_read_packet I_dispatch)

lemma I_wait:
  assumes "wait_for_read E p t rt c = Some y"
  shows "I c \<longrightarrow> I (snd y)"
  using assms
proof (rule wait_for_read.raw_induct [where P = "\<lambda>E p t rt c y. I c \<longrightarrow> I (snd y)", rotated], goal_cases)
  case step: (1 f E p t rt c y)
  show ?case
    using step(2) by (auto simp: on_world_eq Let_def split: if_splits bind_splits dest!: step(1) I_cycle)
qed

lemma I_remove_pub [simp]: "I c \<Longrightarrow> I (remove_pub a c)"
  unfolding remove_pub_def by (rule I_pub_shrink) (auto intro!: subseq_map)

lemma I_remove_sub [simp]: "I c \<Longrightarrow> I (remove_sub a c)"
  unfolding remove_sub_def by (rule I_sub_shrink) (auto intro!: subseq_map)

lemma I_next [simp]: "get_next_packet_id c = (n, c') \<Longrightarrow> I c \<longrightarrow> I c'"
  using I_next_id [of c] by auto

lemma I_publish: "qcloud_iot_mqtt_publish E topic p c = Some (r, c') \<Longrightarrow> I c \<longrightarrow> I c'"
  by (auto simp: qcloud_iot_mqtt_publish_def on_world_eq Let_def case_prod_beta split: if_splits bind_splits sum.splits
      dest!: I_send I_mask_push serialize_length)

lemma I_subscribe: "qcloud_iot_mqtt_subscribe E topic p c = Some (r, c') \<Longrightarrow> I c \<longrightarrow> I c'"
  by (auto simp: qcloud_iot_mqtt_subscribe_def on_world_eq Let_def case_prod_beta split: if_splits bind_splits sum.splits
      dest!: I_send I_push_sub serialize_length)

lemma I_resubscribe_loop: "resubscribe_loop E n i c = Some (rc, c') \<Longrightarrow> I c \<longrightarrow> I c'"
  by (induction n arbitrary: i c) (auto split: bind_splits option.splits if_splits dest!: I_subscribe)

lemma I_resubscribe: "qcloud_iot_mqtt_resubscribe E c = Some (rc, c') \<Longrightarrow> I c \<longrightarrow> I c'"
  by (auto simp: qcloud_iot_mqtt_resubscribe_def split: if_splits dest!: I_resubscribe_loop)

lemma unsub_loop_length: "unsub_loop t hs = (hs', es, b) \<Longrightarrow> length hs' = length hs"
  by (induction hs arbitrary: hs' es b) (auto simp: Let_def split: prod.splits if_splits)

lemma unsub_loop_filters:
  "unsub_loop t hs = (hs', es, b) \<Longrightarrow> h \<in> set hs' \<Longrightarrow> topic_filter h = None \<or> topic_filter h \<in> topic_filter ` set hs"
  by (induction hs arbitrary: hs' es b) (fastforce simp: Let_def split: prod.splits if_splits)+

lemma I_unsubscribe_handles:
  assumes "unsub_loop t (sub_handles c) = (hs, es, b)" and "I c"
  shows "I (c\<lparr>sub_handles := hs, trace := trace c @ es\<rparr>)"
proof -
  have "I (c\<lparr>sub_handles := hs\<rparr>)"
    by (rule I_handles [OF assms(2) unsub_loop_length [OF assms(1)]])
      (drule unsub_loop_filters [OF assms(1)], auto simp: filter_known_def)
  from I_emit [OF this, of es] show ?thesis by simp
qed

lemma I_unsubscribe: "qcloud_iot_mqtt_unsubscribe E topic c = Some (r, c') \<Longrightarrow> I c \<longrightarrow> I c'"
  by (auto simp: qcloud_iot_mqtt_unsubscribe_def on_world_eq Let_def split: if_splits bind_splits sum.splits prod.splits
      dest!: I_send I_push_sub serialize_length I_unsubscribe_handles I_next)

lemma I_serialize_connect: "serialize_connect E c = Some (r, c') \<Longrightarrow> I c \<longrightarrow> I c'"
  by (auto simp: serialize_connect_def on_world_eq Let_def split: if_splits bind_splits sum.splits
      dest!: serialize_connect_length(1))

lemma I_mqtt_connect: "mqtt_connect E opts c = Some (rc, c') \<Longrightarrow> I c \<longrightarrow> I c'"
  by (auto simp: mqtt_connect_def on_world_eq Let_def split: if_splits bind_splits sum.splits option.splits
      dest!: I_serialize_connect I_send I_wait)

lemma I_connect: "qcloud_iot_mqtt_connect E p c = Some (rc, c') \<Longrightarrow> I c \<longrightarrow> I c'"
  by (auto simp: qcloud_iot_mqtt_connect_def split: if_splits bind_splits dest!: I_mqtt_connect)

lemma I_reconnect: "qcloud_iot_mqtt_attempt_reconnect E c = Some (rc, c') \<Longrightarrow> I c \<longrightarrow> I c'"
  by (auto simp: qcloud_iot_mqtt_attempt_reconnect_def split: if_splits bind_splits dest!: I_connect I_resubscribe)

lemma I_disconnect: "qcloud_iot_mqtt_disconnect E c = Some (rc, c') \<Longrightarrow> I c \<longrightarrow> I c'"
  by (auto simp: qcloud_iot_mqtt_disconnect_def on_world_eq Let_def split: if_splits bind_splits sum.splits
      dest!: I_send serialize_length)

lemma I_same_events: "same_but_events c c' \<Longrightarrow> I c \<Longrightarrow> I c'"
  unfolding same_but_events_def by (auto intro: I_world [OF I_emit])

lemma same_but_events_lists:
  "same_but_events c c' \<Longrightarrow> list_pub_wait_ack c' = list_pub_wait_ack c \<and> list_sub_wait_ack c' = list_sub_wait_ack c"
  by (auto simp: same_but_events_def)

lemma I_pub_proc [simp]:
  assumes "I c" shows "I (snd (qcloud_iot_mqtt_pub_info_proc E c))"
proof -
  let ?c = "c\<lparr>world := snd (hal_malloc E (world c))\<rparr>"
  obtain l' c' where r: "pub_proc_loop E (rev (list_pub_wait_ack c)) [] ?c = (l', c')"
    using prod.exhaust by blast
  then have "same_but_events c c'" by (blast dest: pub_proc_events intro: same_but_events_from)
  moreover have "Sublist.subseq l' (list_pub_wait_ack c)"
    using pub_proc_kept [OF r] by (auto dest: subseq_rev_rev)
  ultimately have "I (c'\<lparr>list_pub_wait_ack := l'\<rparr>)"
    using I_same_events [OF _ assms] by (auto intro!: I_pub_shrink subseq_map dest: same_but_events_lists)
  then show ?thesis using r assms by (simp add: qcloud_iot_mqtt_pub_info_proc_def on_world_eq)
qed

lemma I_sub_proc [simp]:
  assumes "I c" shows "I (snd (qcloud_iot_mqtt_sub_info_proc E c))"
proof -
  let ?c = "c\<lparr>world := snd (hal_malloc E (world c))\<rparr>"
  obtain l' c' where r: "sub_proc_loop E (rev (list_sub_wait_ack c)) [] ?c = (l', c')"
    using prod.exhaust by blast
  then have "same_but_events c c'" by (blast dest: sub_proc_events intro: same_but_events_from)
  moreover have "Sublist.subseq l' (list_sub_wait_ack c)"
    using sub_proc_kept [OF r] by (auto dest: subseq_rev_rev)
  ultimately have "I (c'\<lparr>list_sub_wait_ack := l'\<rparr>)"
    using I_same_events [OF _ assms] by (auto intro!: I_sub_shrink subseq_map dest: same_but_events_lists)
  then show ?thesis using r assms by (simp add: qcloud_iot_mqtt_sub_info_proc_def on_world_eq)
qed

lemma I_handle_disconnect: "handle_disconnect E c = Some (rc, c') \<Longrightarrow> I c \<longrightarrow> I c'"
  by (auto simp: handle_disconnect_def iot_disconnect_callback_def Let_def split: if_splits bind_splits dest!: I_disconnect)

lemma I_ping_loop: "ping_loop E len n c = Some (rc, c') \<Longrightarrow> I c \<longrightarrow> I c'"
  by (induction n arbitrary: c)
    (auto simp: on_world_eq Let_def split: if_splits bind_splits dest!: I_send)

lemma I_keep_alive: "mqtt_keep_alive E c = Some (rc, c') \<Longrightarrow> I c \<longrightarrow> I c'"
  by (auto simp: mqtt_keep_alive_def on_world_eq Let_def split: if_splits bind_splits sum.splits
      dest!: I_ping_loop I_handle_disconnect serialize_length)

lemma I_yield_round: "yield_round E t pt c = Some (r, c') \<Longrightarrow> I c \<longrightarrow> I c'"
  by (auto simp: yield_round_def Let_def case_prod_beta split: if_splits bind_splits
      dest!: I_cycle I_keep_alive I_handle_disconnect)

lemma I_destroy:
  assumes "IOT_MQTT_Destroy E c = Some (rc, c')" and "I c"
  shows "I c'"
proof -
  obtain c1 where c1: "I c1" and c': "c' = (if cfg_rmdup E then reset_repeat_packet_id_buffer else (\<lambda>x. x))
      (c1\<lparr>trace := trace c1 @ destroy_events (sub_handles c1),
        sub_handles := map (\<lambda>h. h\<lparr>topic_filter := None\<rparr>) (sub_handles c1)\<rparr>)
      \<lparr>list_pub_wait_ack := [], list_sub_wait_ack := []\<rparr>"
    using assms by (auto simp: IOT_MQTT_Destroy_def Let_def split: bind_splits dest!: I_disconnect)
  let ?h = "map (\<lambda>h. h\<lparr>topic_filter := None\<rparr>) (sub_handles c1)"
  have "I (c1\<lparr>trace := trace c1 @ destroy_events (sub_handles c1), sub_handles := ?h\<rparr>)"
    by (rule I_handles [OF I_emit [OF c1, of "destroy_events (sub_handles c1)"], of ?h]) (auto simp: filter_known_def)
  then have "I ((if cfg_rmdup E then reset_repeat_packet_id_buffer else (\<lambda>x. x))
      (c1\<lparr>trace := trace c1 @ destroy_events (sub_handles c1), sub_handles := ?h\<rparr>))" (is "I ?c2")
    by simp
  then have "I (?c2\<lparr>list_pub_wait_ack := []\<rparr>)" by (rule I_pub_shrink) simp
  then have "I (?c2\<lparr>list_pub_wait_ack := [], list_sub_wait_ack := []\<rparr>)" by (rule I_sub_shrink) simp
  then show ?thesis using c' by simp
qed

end

section \<open>The operations of the interface\<close>

text \<open>A call of the application: the operations of \<^verbatim>\<open>qcloud_iot_export_mqtt.h\<close> on a client.\<close>

inductive api_step :: "'w hal \<Rightarrow> 'w client \<Rightarrow> 'w client \<Rightarrow> bool" for E where
  step_connect: "qcloud_iot_mqtt_connect E p c = Some (rc, c') \<Longrightarrow> api_step E c c'"
| step_reconnect: "qcloud_iot_mqtt_attempt_reconnect E c = Some (rc, c') \<Longrightarrow> api_step E c c'"
| step_disconnect: "qcloud_iot_mqtt_disconnect E c = Some (rc, c') \<Longrightarrow> api_step E c c'"
| step_publish: "qcloud_iot_mqtt_publish E topic pp c = Some (r, c') \<Longrightarrow> api_step E c c'"
| step_subscribe: "qcloud_iot_mqtt_subscribe E topic sp c = Some (rc, c') \<Longrightarrow> api_step E c c'"
| step_unsubscribe: "qcloud_iot_mqtt_unsubscribe E topic c = Some (rc, c') \<Longrightarrow> api_step E c c'"
| step_resubscribe: "qcloud_iot_mqtt_resubscribe E c = Some (rc, c') \<Longrightarrow> api_step E c c'"
| step_yield: "qcloud_iot_mqtt_yield E ms c = Some (rc, c') \<Longrightarrow> api_step E c c'"
| step_auto: "qcloud_iot_mqtt_set_autoreconnect b c = (rc, c') \<Longrightarrow> api_step E c c'"
| step_count: "qcloud_iot_mqtt_reset_network_disconnected_count c = (rc, c') \<Longrightarrow> api_step E c c'"
| step_destroy: "IOT_MQTT_Destroy E c = Some (rc, c') \<Longrightarrow> api_step E c c'"

inductive_cases api_stepE: "api_step E c c'"

text \<open>
  The reconnection logic also changes the wait interval, its timer and the count of lost
  connections; an invariant of every call of the interface is closed under that as well.
\<close>

locale client_invariant = call_invariant +
  assumes I_interval [simp]: "I c \<Longrightarrow> I (c\<lparr>current_reconnect_wait_interval := x3\<rparr>)"
    and I_count [simp]: "I c \<Longrightarrow> I (c\<lparr>counter_network_disconnected := x3\<rparr>)"
    and I_delay [simp]: "I c \<Longrightarrow> I (c\<lparr>reconnect_delay_timer := x5\<rparr>)"
begin

lemma I_handle_reconnect: "handle_reconnect E c = Some (rc, c') \<Longrightarrow> I c \<longrightarrow> I c'"
  by (auto simp: handle_reconnect_def reconnect_callback_def on_world_eq Let_def
      split: if_splits bind_splits dest!: I_reconnect)

lemma I_yield_loop:
  assumes "yield_loop E t rc pt c = Some y"
  shows "I c \<longrightarrow> I (snd y)"
  using assms
proof (rule yield_loop.raw_induct [where P = "\<lambda>E t rc pt c y. I c \<longrightarrow> I (snd y)", rotated], goal_cases)
  case step: (1 f E t rc pt c y)
  show ?case
    using step(2)
    by (auto simp: on_world_eq Let_def split: if_splits bind_splits dest!: step(1) I_yield_round I_handle_reconnect)
qed

lemma I_yield: "qcloud_iot_mqtt_yield E ms c = Some (rc, c') \<Longrightarrow> I c \<longrightarrow> I c'"
  by (auto simp: qcloud_iot_mqtt_yield_def on_world_eq Let_def split: if_splits dest!: I_yield_loop)

lemma I_api: "api_step E c c' \<Longrightarrow> I c \<Longrightarrow> I c'"
  by (induction rule: api_step.induct)
    (auto simp: qcloud_iot_mqtt_set_autoreconnect_def qcloud_iot_mqtt_reset_network_disconnected_count_def
      dest!: I_connect I_reconnect I_disconnect I_publish I_subscribe I_unsubscribe I_resubscribe I_yield
      dest: I_destroy)

lemma I_reachable: "(api_step E)\<^sup>*\<^sup>* c c' \<Longrightarrow> I c \<Longrightarrow> I c'"
  by (induction rule: rtranclp_induct) (auto dest: I_api)

end

section \<open>The invariant\<close>

definition sizes_ok :: "'w client \<Rightarrow> bool" where
  "sizes_ok c \<longleftrightarrow>
     write_buf_size c = QCLOUD_IOT_MQTT_TX_BUF_LEN \<and> length (write_buf c) = QCLOUD_IOT_MQTT_TX_BUF_LEN
   \<and> read_buf_size c = QCLOUD_IOT_MQTT_RX_BUF_LEN \<and> length (read_buf c) = QCLOUD_IOT_MQTT_RX_BUF_LEN
   \<and> length (sub_handles c) = MAX_MESSAGE_HANDLERS
   \<and> length (repeat_buf c) = MQTT_MAX_REPEAT_BUF_LEN \<and> repeat_cnt c < MQTT_MAX_REPEAT_BUF_LEN"

definition waiting :: "'w client \<Rightarrow> nat list" where
  "waiting c = map fst (list_pub_wait_ack c) @ map fst (list_sub_wait_ack c)"

definition lists_ok :: "'w client \<Rightarrow> bool" where
  "lists_ok c \<longleftrightarrow> length (list_pub_wait_ack c) \<le> MAX_REPUB_NUM
   \<and> length (list_sub_wait_ack c) \<le> MAX_MESSAGE_HANDLERS
   \<and> distinct (waiting c) \<and> (\<forall>a \<in> set (waiting c). a < next_node c)"

definition infos_ok :: "'w client \<Rightarrow> bool" where
  "infos_ok c \<longleftrightarrow> (\<forall>x \<in> set (list_pub_wait_ack c). length (pub_buf (snd x)) \<le> QCLOUD_IOT_MQTT_TX_BUF_LEN)
   \<and> (\<forall>x \<in> set (list_sub_wait_ack c). topic_filter (sub_handler (snd x)) \<noteq> None)"

definition filters_ok :: "'w client \<Rightarrow> bool" where
  "filters_ok c \<longleftrightarrow> (\<forall>f. filter_known c (Some f) \<longrightarrow> 0 < length f \<and> length f \<le> MAX_SIZE_OF_CLOUD_TOPIC)"

definition client_inv :: "'w client \<Rightarrow> bool" where
  "client_inv c \<longleftrightarrow> sizes_ok c \<and> lists_ok c \<and> infos_ok c \<and> filters_ok c"

lemma subseq_subset: "Sublist.subseq xs ys \<Longrightarrow> set xs \<subseteq> set ys"
  by (induction rule: list_emb.induct) auto

lemma subseq_distinct: "Sublist.subseq xs ys \<Longrightarrow> distinct ys \<Longrightarrow> distinct xs"
  by (induction rule: list_emb.induct) (auto dest: subseq_subset)

lemma shrink_facts:
  assumes "Sublist.subseq (map g ps) (map g qs)" and "\<And>x. fst (g x) = fst x"
  shows "length ps \<le> length qs" and "distinct (map fst qs) \<Longrightarrow> distinct (map fst ps)"
    and "fst ` set ps \<subseteq> fst ` set qs" and "x \<in> set ps \<Longrightarrow> \<exists>y \<in> set qs. g x = g y"
proof -
  have fg: "map fst (map g xs) = map fst xs" for xs using assms(2) by simp
  have f: "Sublist.subseq (map fst ps) (map fst qs)"
    using subseq_map [OF assms(1), of fst] unfolding fg .
  show "length ps \<le> length qs" using list_emb_length [OF assms(1)] by simp
  show "distinct (map fst qs) \<Longrightarrow> distinct (map fst ps)" using subseq_distinct [OF f] .
  show "fst ` set ps \<subseteq> fst ` set qs" using subseq_subset [OF f] by simp
  show "x \<in> set ps \<Longrightarrow> \<exists>y \<in> set qs. g x = g y" using subseq_subset [OF assms(1)] by auto
qed

lemma pub_shrink:
  assumes "Sublist.subseq (map pub_node ps) (map pub_node qs)"
  shows "x \<in> set ps \<Longrightarrow> \<exists>y \<in> set qs. pub_buf (snd x) = pub_buf (snd y)"
  by (drule shrink_facts(4) [OF assms, rotated]) (auto simp: pub_node_def split: prod.splits intro: bexI [rotated])

lemma sub_shrink:
  assumes "Sublist.subseq (map sub_node ps) (map sub_node qs)"
  shows "x \<in> set ps \<Longrightarrow> \<exists>y \<in> set qs. sub_handler (snd x) = sub_handler (snd y)"
  by (drule shrink_facts(4) [OF assms, rotated]) (auto simp: sub_node_def split: prod.splits intro: bexI [rotated])

lemma filter_known_shrink:
  assumes "Sublist.subseq (map sub_node ss) (map sub_node (list_sub_wait_ack c))"
    and "filter_known (c\<lparr>list_sub_wait_ack := ss\<rparr>) f"
  shows "filter_known c f"
  using assms(2) sub_shrink [OF assms(1)] by (auto simp: filter_known_def image_iff) metis

lemma filter_known_handles:
  assumes "\<And>h. h \<in> set hs \<Longrightarrow> filter_known c (topic_filter h)" and "filter_known (c\<lparr>sub_handles := hs\<rparr>) f"
  shows "filter_known c f"
proof -
  consider "f = None \<or> f \<in> (topic_filter \<circ> sub_handler \<circ> snd) ` set (list_sub_wait_ack c)"
    | h where "h \<in> set hs" "f = topic_filter h"
    using assms(2) by (auto simp: filter_known_def)
  then show ?thesis using assms(1) by cases (auto simp: filter_known_def)
qed

lemma filter_known_same:
  "sub_handles c' = sub_handles c \<Longrightarrow> list_sub_wait_ack c' = list_sub_wait_ack c \<Longrightarrow> filter_known c' = filter_known c"
  by (auto simp: filter_known_def fun_eq_iff)

lemma client_inv_same:
  assumes "client_inv c"
    and "write_buf_size c' = write_buf_size c" "length (write_buf c') = length (write_buf c)"
    and "read_buf_size c' = read_buf_size c" "length (read_buf c') = length (read_buf c)"
    and "sub_handles c' = sub_handles c" "length (repeat_buf c') = length (repeat_buf c)"
    and "repeat_cnt c' < MQTT_MAX_REPEAT_BUF_LEN"
    and "list_pub_wait_ack c' = list_pub_wait_ack c" "list_sub_wait_ack c' = list_sub_wait_ack c"
    and "next_node c' = next_node c"
  shows "client_inv c'"
  using assms unfolding client_inv_def sizes_ok_def lists_ok_def infos_ok_def filters_ok_def waiting_def
    filter_known_same [OF assms(6,10)] by (elim conjE, intro conjI) (simp_all only:)

lemma client_inv_cnt: "client_inv c \<Longrightarrow> repeat_cnt c < MQTT_MAX_REPEAT_BUF_LEN"
  by (simp add: client_inv_def sizes_ok_def)

lemma lists_ok_shrink:
  assumes "lists_ok c" and "next_node c' = next_node c"
    and "length (list_pub_wait_ack c') \<le> length (list_pub_wait_ack c)"
    and "length (list_sub_wait_ack c') \<le> length (list_sub_wait_ack c)"
    and "distinct (map fst (list_pub_wait_ack c)) \<Longrightarrow> distinct (map fst (list_pub_wait_ack c'))"
    and "distinct (map fst (list_sub_wait_ack c)) \<Longrightarrow> distinct (map fst (list_sub_wait_ack c'))"
    and p: "fst ` set (list_pub_wait_ack c') \<subseteq> fst ` set (list_pub_wait_ack c)"
    and s: "fst ` set (list_sub_wait_ack c') \<subseteq> fst ` set (list_sub_wait_ack c)"
  shows "lists_ok c'"
proof -
  have w: "set (waiting c') \<subseteq> set (waiting c)" using p s by (simp add: waiting_def) blast
  have "fst ` set (list_pub_wait_ack c) \<inter> fst ` set (list_sub_wait_ack c) = {}"
    using assms(1) by (simp add: lists_ok_def waiting_def)
  then have "fst ` set (list_pub_wait_ack c') \<inter> fst ` set (list_sub_wait_ack c') = {}" using p s by blast
  then have "distinct (waiting c')" using assms(1,5,6) by (simp add: lists_ok_def waiting_def)
  moreover have "\<forall>a \<in> set (waiting c'). a < next_node c'"
    using w assms(1,2) by (simp add: lists_ok_def) blast
  ultimately show ?thesis using assms(1,3,4) by (simp add: lists_ok_def)
qed

lemma client_inv_pub_shrink:
  assumes c: "client_inv c" and ps: "Sublist.subseq (map pub_node ps) (map pub_node (list_pub_wait_ack c))"
  shows "client_inv (c\<lparr>list_pub_wait_ack := ps\<rparr>)" (is "client_inv ?c")
proof -
  have f: "fst (pub_node x) = fst x" for x by (simp add: pub_node_def split: prod.split)
  note facts = shrink_facts [OF ps f]
  have "sizes_ok ?c" using c by (simp add: client_inv_def sizes_ok_def)
  moreover have "lists_ok ?c" using lists_ok_shrink [of c ?c] c facts(1-3) by (simp add: client_inv_def)
  moreover have "infos_ok ?c" using c pub_shrink [OF ps] unfolding client_inv_def infos_ok_def by fastforce
  moreover have "filters_ok ?c" using c by (simp add: client_inv_def filters_ok_def filter_known_def)
  ultimately show ?thesis by (simp add: client_inv_def)
qed

lemma client_inv_sub_shrink:
  assumes c: "client_inv c" and ss: "Sublist.subseq (map sub_node ss) (map sub_node (list_sub_wait_ack c))"
  shows "client_inv (c\<lparr>list_sub_wait_ack := ss\<rparr>)" (is "client_inv ?c")
proof -
  have f: "fst (sub_node x) = fst x" for x by (simp add: sub_node_def split: prod.split)
  note facts = shrink_facts [OF ss f]
  have "sizes_ok ?c" using c by (simp add: client_inv_def sizes_ok_def)
  moreover have "lists_ok ?c" using lists_ok_shrink [of c ?c] c facts(1-3) by (simp add: client_inv_def)
  moreover have "infos_ok ?c" using c sub_shrink [OF ss] unfolding client_inv_def infos_ok_def by fastforce
  moreover have "filters_ok ?c" using c filter_known_shrink [OF ss] unfolding client_inv_def filters_ok_def by blast
  ultimately show ?thesis by (simp add: client_inv_def)
qed

lemma client_inv_handles:
  assumes c: "client_inv c" and "length hs = length (sub_handles c)"
    and "\<And>h. h \<in> set hs \<Longrightarrow> filter_known c (topic_filter h)"
  shows "client_inv (c\<lparr>sub_handles := hs\<rparr>)" (is "client_inv ?c")
proof -
  have "sizes_ok ?c" using c assms(2) by (simp add: client_inv_def sizes_ok_def)
  moreover have "lists_ok ?c" "infos_ok ?c"
    using c by (simp_all add: client_inv_def lists_ok_def waiting_def infos_ok_def)
  moreover have "filters_ok ?c" using c filter_known_handles [OF assms(3)] unfolding client_inv_def filters_ok_def by blast
  ultimately show ?thesis by (simp add: client_inv_def)
qed

lemma client_inv_pub_push:
  assumes c: "client_inv c" and "length (list_pub_wait_ack c) < MAX_REPUB_NUM"
    and "length (pub_buf p) \<le> length (write_buf c)"
  shows "client_inv (c\<lparr>next_node := Suc (next_node c), list_pub_wait_ack := list_pub_wait_ack c @ [(next_node c, p)]\<rparr>)"
    (is "client_inv ?c")
proof -
  have "sizes_ok ?c" using c by (simp add: client_inv_def sizes_ok_def)
  moreover have "lists_ok ?c"
    using c assms(2) unfolding client_inv_def lists_ok_def waiting_def by (auto simp: less_Suc_eq)
  moreover have "infos_ok ?c" using c assms(3) by (auto simp: client_inv_def infos_ok_def sizes_ok_def)
  moreover have "filters_ok ?c" using c by (simp add: client_inv_def filters_ok_def filter_known_def)
  ultimately show ?thesis by (simp add: client_inv_def)
qed

lemma client_inv_sub_push:
  assumes c: "client_inv c" and "length (list_sub_wait_ack c) < MAX_MESSAGE_HANDLERS"
    and f: "topic_filter (sub_handler s) = Some f" and "0 < length f" and "length f \<le> MAX_SIZE_OF_CLOUD_TOPIC"
  shows "client_inv (c\<lparr>next_node := Suc (next_node c), list_sub_wait_ack := list_sub_wait_ack c @ [(next_node c, s)]\<rparr>)"
    (is "client_inv ?c")
proof -
  have "filter_known ?c g \<longleftrightarrow> g = Some f \<or> filter_known c g" for g
    using f by (auto simp: filter_known_def)
  then have "filters_ok ?c" using c assms(4,5) by (auto simp: client_inv_def filters_ok_def)
  moreover have "sizes_ok ?c" using c by (simp add: client_inv_def sizes_ok_def)
  moreover have "lists_ok ?c"
    using c assms(2) unfolding client_inv_def lists_ok_def waiting_def by (auto simp: less_Suc_eq)
  moreover have "infos_ok ?c" using c f by (auto simp: client_inv_def infos_ok_def sizes_ok_def)
  ultimately show ?thesis by (simp add: client_inv_def)
qed

lemma client_inv_repeat:
  assumes "client_inv c" and "add_packet_id_to_repeat_buf i c = Some c'"
  shows "client_inv c'"
  using assms(2) client_inv_cnt [OF assms(1)] assms(1)
  by (auto simp: add_packet_id_to_repeat_buf_def mem_write_def Let_def qos_defs split: if_splits bind_splits
      intro!: client_inv_same [OF assms(1)])

interpretation client_state: client_invariant client_inv
proof unfold_locales
  fix c :: "'w client" and i b w es x1 x2 x3 x4 x5
  assume c: "client_inv c"
  note s = client_inv_same [OF c] and n = client_inv_cnt [OF c]
  show "client_inv (snd (get_next_packet_id c))"
    using n by (intro s) (simp_all add: get_next_packet_id_def Let_def)
  show "client_inv (reset_repeat_packet_id_buffer c)"
    using n c by (intro s) (simp_all add: reset_repeat_packet_id_buffer_def client_inv_def sizes_ok_def)
  show "1 \<le> length (read_buf c)" using c by (simp add: client_inv_def sizes_ok_def qos_defs)
  show "client_inv (c\<lparr>world := w\<rparr>)" "client_inv (c\<lparr>trace := trace c @ es\<rparr>)" "client_inv (c\<lparr>is_connected := x1\<rparr>)"
    "client_inv (c\<lparr>was_manually_disconnected := x1\<rparr>)" "client_inv (c\<lparr>is_ping_outstanding := x2\<rparr>)"
    "client_inv (c\<lparr>current_reconnect_wait_interval := x3\<rparr>)" "client_inv (c\<lparr>counter_network_disconnected := x3\<rparr>)"
    "client_inv (c\<lparr>options := x4\<rparr>)" "client_inv (c\<lparr>ping_timer := x5\<rparr>)" "client_inv (c\<lparr>reconnect_delay_timer := x5\<rparr>)"
    by (rule s; simp add: n)+
  show "client_inv (c\<lparr>read_buf := b\<rparr>)" if "length b = length (read_buf c)"
    by (rule s) (simp_all add: n that)
  show "client_inv (c\<lparr>write_buf := b\<rparr>)" if "length b = length (write_buf c)"
    by (rule s) (simp_all add: n that)
qed (rule client_inv_handles client_inv_pub_shrink client_inv_sub_shrink
    client_inv_pub_push client_inv_sub_push client_inv_repeat; assumption)+

text \<open>
  A second use of the interface: the record of events only grows, and packet identifiers stay
  different from zero.
\<close>

definition client_history :: "effect list \<Rightarrow> 'w client \<Rightarrow> bool" where
  "client_history es c \<longleftrightarrow> client_inv c \<and> next_packet_id c \<noteq> 0 \<and> prefix es (trace c)"

lemma next_packet_id_unat:
  "unat (fst (get_next_packet_id c)) = unat (next_packet_id c) mod 65535 + 1"
  "next_packet_id (snd (get_next_packet_id c)) = fst (get_next_packet_id c)"
proof -
  have "unat (n + 1) = unat n + 1" if "n \<noteq> (65535 :: u16)" for n
  proof -
    have "unat n \<noteq> 65535" using that by (simp add: word_unat_eq_iff)
    moreover have "unat n < 2 ^ 16" using unsigned_less [of n, where ?'a = nat] by simp
    ultimately show ?thesis by (simp add: unat_word_ariths(1))
  qed
  moreover have "unat n < 65535" if "n \<noteq> (65535 :: u16)" for n
  proof -
    have "unat n \<noteq> 65535" using that by (simp add: word_unat_eq_iff)
    then show ?thesis using unsigned_less [of n, where ?'a = nat] by simp
  qed
  ultimately show "unat (fst (get_next_packet_id c)) = unat (next_packet_id c) mod 65535 + 1"
    by (simp add: get_next_packet_id_def Let_def qos_defs)
  show "next_packet_id (snd (get_next_packet_id c)) = fst (get_next_packet_id c)"
    by (simp add: get_next_packet_id_def Let_def)
qed

lemma next_packet_id_pos: "next_packet_id (snd (get_next_packet_id c)) \<noteq> 0"
  using next_packet_id_unat [of c] by (metis Suc_eq_plus1 nat.distinct(1) unat_0)

interpretation client_trace: client_invariant "client_history es"
proof unfold_locales
  fix c c' :: "'w client" and i
  assume c: "client_history es c" and a: "add_packet_id_to_repeat_buf i c = Some c'"
  have "next_packet_id c' = next_packet_id c \<and> trace c' = trace c"
    using a by (auto simp: add_packet_id_to_repeat_buf_def Let_def split: if_splits bind_splits)
  then show "client_history es c'" using c client_state.I_repeat [OF _ a] by (simp add: client_history_def)
next
  fix c :: "'w client"
  assume "client_history es c"
  then show "1 \<le> length (read_buf c)" "client_history es (snd (get_next_packet_id c))"
    using client_state.I_nonempty [of c] client_state.I_next_id [of c] next_packet_id_pos [of c]
    by (simp_all add: client_history_def get_next_packet_id_def Let_def)
  show "client_history es (reset_repeat_packet_id_buffer c)"
    using \<open>client_history es c\<close> client_state.I_reset [of c]
    by (simp add: client_history_def reset_repeat_packet_id_buffer_def)
qed (auto simp: client_history_def intro: client_state.I_read client_inv_handles client_inv_pub_shrink
  client_inv_sub_shrink client_inv_pub_push client_inv_sub_push)

section \<open>Properties\<close>

lemma client_init_inv:
  assumes "length (fst rb) = MQTT_MAX_REPEAT_BUF_LEN" and "snd rb < MQTT_MAX_REPEAT_BUF_LEN"
  shows "client_inv (mqtt_init_state E t h rb w)"
  using assms by (auto simp: mqtt_init_state_def client_inv_def sizes_ok_def lists_ok_def infos_ok_def filters_ok_def
      waiting_def filter_known_def null_handle_def split: prod.split)

text \<open>C1: In every state the application can reach from the start by calls of the interface - connect,
  reconnect, disconnect, publish, subscribe, unsubscribe, resubscribe, yield (whatever the network
  delivers), destroy - the buffers and arrays keep their sizes, at most 20 publish and 10 subscribe
  requests wait for an acknowledgement, their nodes are distinct, live allocations, and every topic
  filter the client holds has between 1 and 128 characters.\<close>

theorem client_reachable_inv:
  assumes "length (fst rb) = MQTT_MAX_REPEAT_BUF_LEN" and "snd rb < MQTT_MAX_REPEAT_BUF_LEN"
    and "(api_step E)\<^sup>*\<^sup>* (mqtt_init_state E t h rb w) c"
  shows "client_inv c"
  by (rule client_state.I_reachable [OF assms(3) client_init_inv [OF assms(1,2)]])

text \<open>Once a packet identifier was handed out, no reachable state has the identifier 0 as its last one,
  and no call of the interface removes or reorders an event already reported to the application.\<close>

theorem client_events_grow:
  assumes "client_inv c" and "next_packet_id c \<noteq> 0" and "(api_step E)\<^sup>*\<^sup>* c c'"
  shows "next_packet_id c' \<noteq> 0 \<and> (\<exists>es. trace c' = trace c @ es)"
  using client_trace.I_reachable [OF assms(3), of "trace c"] assms(1,2) by (auto simp: client_history_def prefix_def)

text \<open>The packet identifiers handed out by \<open>k\<close> successive calls run through \<open>1 .. 65535\<close> in a
  cycle: never 0, and no identifier comes back before 65535 further calls.\<close>

theorem packet_ids_cycle:
  "0 < k \<Longrightarrow> unat (next_packet_id (((snd \<circ> get_next_packet_id) ^^ k) c)) = (unat (next_packet_id c) + k - 1) mod 65535 + 1"
proof (induction k)
  case (Suc k)
  show ?case
  proof (cases "k = 0")
    case True
    then show ?thesis by (simp add: next_packet_id_unat)
  next
    case False
    let ?x = "unat (next_packet_id c)"
    have "(?x + k - 1) mod 65535 + 1 = unat (next_packet_id (((snd \<circ> get_next_packet_id) ^^ k) c))"
      by (rule Suc.IH [symmetric]) (use False in simp)
    moreover have "((?x + k - 1) mod 65535 + 1) mod 65535 = (?x + k) mod 65535"
      using mod_add_left_eq [of "?x + k - 1" 65535 1] False by simp
    ultimately show ?thesis by (simp add: next_packet_id_unat o_def del: One_nat_def)
  qed
qed simp

theorem packet_ids_cycle_witness:
  "unat (next_packet_id (((snd \<circ> get_next_packet_id) ^^ 3) (mqtt_init_state (clock_hal 1) 5000 False (replicate 50 0, 0) 0))) = 4"
  using packet_ids_cycle [of 3 "mqtt_init_state (clock_hal 1) 5000 False (replicate 50 0, 0) 0"]
  by (simp add: mqtt_init_state_def get_random_start_packet_id_def clock_hal_def Let_def)

text \<open>Two calls on a fresh client: the options are changed, and a publish without a connection is refused.\<close>

lemma sample_run:
  "(api_step E)\<^sup>*\<^sup>* c (c\<lparr>options := (options c)\<lparr>auto_connect_enable := True\<rparr>\<rparr>)"
  by (rule r_into_rtranclp, rule step_auto [where b = True and rc = 0])
    (simp add: qcloud_iot_mqtt_set_autoreconnect_def)

theorem client_reachable_inv_witness:
  "\<exists>c. (api_step (clock_hal 1))\<^sup>*\<^sup>* (mqtt_init_state (clock_hal 1) 5000 False (replicate 50 0, 0) 0) c
    \<and> auto_connect_enable (options c) \<and> client_inv c"
proof (intro exI conjI)
  let ?c = "mqtt_init_state (clock_hal 1) 5000 False (replicate 50 0, 0) 0"
  show run: "(api_step (clock_hal 1))\<^sup>*\<^sup>* ?c (?c\<lparr>options := (options ?c)\<lparr>auto_connect_enable := True\<rparr>\<rparr>)"
    by (rule sample_run)
  show "client_inv (?c\<lparr>options := (options ?c)\<lparr>auto_connect_enable := True\<rparr>\<rparr>)"
    by (rule client_reachable_inv [OF _ _ run]) (simp_all add: qos_defs)
qed simp

theorem client_events_grow_witness:
  "let c = mqtt_init_state (clock_hal 1) 5000 False (replicate 50 0, 0) 0;
       c' = c\<lparr>options := (options c)\<lparr>auto_connect_enable := True\<rparr>\<rparr>
   in next_packet_id c' \<noteq> 0 \<and> (\<exists>es. trace c' = trace c @ es)"
  unfolding Let_def
  by (rule client_events_grow [OF client_init_inv _ sample_run])
    (simp_all add: qos_defs mqtt_init_state_def get_random_start_packet_id_def clock_hal_def Let_def)

end
