(* ===== verification/Mqtt_Wire.thy ===== *)
theory Mqtt_Wire
  imports Mqtt_Invariant
begin

text \<open>
  What the client puts on the wire and takes from it, for networks that behave as a byte stream:
  \<open>send_mqtt_packet\<close> against the bytes written, \<open>_read_mqtt_packet\<close> against the bytes that arrive.
  The two predicates state what \<^verbatim>\<open>network_interface.h\<close> documents of \<open>read\<close> and \<open>write\<close>; \<open>wire\<close> and \<open>inp\<close>
  observe the bytes sent so far and the bytes still to be read.
\<close>

section \<open>Sending\<close>

definition byte_sink :: "'w hal \<Rightarrow> ('w \<Rightarrow> u8 list) \<Rightarrow> bool" where
  "byte_sink E wire \<longleftrightarrow>
     (\<forall>bs t w rc n w'. net_write E bs t w = ((rc, n), w') \<longrightarrow>
        (if rc = QCLOUD_RET_SUCCESS then n \<le> length bs \<and> wire w' = wire w @ take n bs
         else \<exists>m. wire w' = wire w @ take m bs))
   \<and> (\<forall>w. wire (snd (hal_time E w)) = wire w)"

text \<open>A network whose successful writes take everything.\<close>

definition whole_writes :: "'w hal \<Rightarrow> bool" where
  "whole_writes E \<longleftrightarrow> (\<forall>bs t w n w'. net_write E bs t w = ((QCLOUD_RET_SUCCESS, n), w') \<longrightarrow> n = length bs)"

lemma sink_time [simp]:
  assumes "byte_sink E wire"
  shows "wire (snd (hal_time E w)) = wire w" "wire (snd (expired E t w)) = wire w"
    "wire (snd (left_ms E t w)) = wire w" "wire (snd (countdown_ms E k w)) = wire w"
  using assms by (simp_all add: byte_sink_def expired_def left_ms_def countdown_ms_def case_prod_beta Let_def)

lemma sink_write:
  assumes "byte_sink E wire" and "fst (fst (net_write E bs t w)) = QCLOUD_RET_SUCCESS"
  shows "snd (fst (net_write E bs t w)) \<le> length bs"
    "wire (snd (net_write E bs t w)) = wire w @ take (snd (fst (net_write E bs t w))) bs"
proof -
  obtain n w' where "net_write E bs t w = ((QCLOUD_RET_SUCCESS, n), w')" using assms(2) by (metis prod.collapse)
  then show "snd (fst (net_write E bs t w)) \<le> length bs"
    "wire (snd (net_write E bs t w)) = wire w @ take (snd (fst (net_write E bs t w))) bs"
    using assms(1) unfolding byte_sink_def by (fastforce split: if_splits)+
qed

lemma sink_failed:
  assumes "byte_sink E wire" and "fst (fst (net_write E bs t w)) \<noteq> QCLOUD_RET_SUCCESS"
  shows "\<exists>m. wire (snd (net_write E bs t w)) = wire w @ take m bs"
  using assms unfolding byte_sink_def by (metis prod.collapse)

lemma send_loop_wire:
  assumes "send_loop E len timer sent rc c = Some y"
  shows "byte_sink E wire \<longrightarrow> sent \<le> 2 * len \<longrightarrow> len < 2 ^ 31 \<longrightarrow>
    (\<exists>m. wire (world (snd y)) = wire (world c) @ take m (drop sent (write_buf c)) \<and> sent + m \<le> 2 * len
      \<and> (fst (fst y) = QCLOUD_RET_SUCCESS \<longrightarrow> snd (fst y) = sent + m))"
  using assms
proof (rule send_loop.raw_induct [where P = "\<lambda>E len timer sent rc c y. byte_sink E wire \<longrightarrow> sent \<le> 2 * len \<longrightarrow>
    len < 2 ^ 31 \<longrightarrow> (\<exists>m. wire (world (snd y)) = wire (world c) @ take m (drop sent (write_buf c)) \<and> sent + m \<le> 2 * len
      \<and> (fst (fst y) = QCLOUD_RET_SUCCESS \<longrightarrow> snd (fst y) = sent + m))", rotated], goal_cases)
  case step: (1 f E len timer sent rc c y)
  let ?w1 = "snd (expired E timer (world c))" and ?bs = "take len (drop sent (write_buf c))"
  let ?w2 = "snd (left_ms E timer ?w1)" and ?left = "fst (left_ms E timer ?w1)"
  let ?wr = "net_write E ?bs ?left ?w2"
  show ?case
  proof (intro impI)
  assume sink: "byte_sink E wire" and s: "sent \<le> 2 * len" and l: "len < 2 ^ 31"
  show "\<exists>m. wire (world (snd y)) = wire (world c) @ take m (drop sent (write_buf c)) \<and> sent + m \<le> 2 * len
      \<and> (fst (fst y) = QCLOUD_RET_SUCCESS \<longrightarrow> snd (fst y) = sent + m)"
  proof (cases "sent < len \<and> \<not> fst (expired E timer (world c))")
    case False
    then have "y = ((rc, sent), c) \<or> y = ((rc, sent), c\<lparr>world := ?w1\<rparr>)"
      using step(2) by (auto simp: on_world_eq split: if_splits)
    then show ?thesis using sink s by (intro exI [of _ 0]) auto
  next
    case True
    then have bs: "sent + len \<le> length (write_buf c)" and
      y: "(if fst (fst ?wr) \<noteq> QCLOUD_RET_SUCCESS then Some ((fst (fst ?wr), sent), c\<lparr>world := snd ?wr\<rparr>)
        else f E len timer ((sent + snd (fst ?wr)) mod 2 ^ 32) (fst (fst ?wr)) (c\<lparr>world := snd ?wr\<rparr>)) = Some y"
      using step(2) by (auto simp: on_world_eq Let_def case_prod_beta mem_slice_def split: if_splits)
    show ?thesis
    proof (cases "fst (fst ?wr) = QCLOUD_RET_SUCCESS")
      case False
      obtain m where "wire (snd ?wr) = wire ?w2 @ take m ?bs" using sink_failed [OF sink False] by blast
      then show ?thesis using y False sink True by (intro exI [of _ "min m len"]) auto
    next
      case ok: True
      let ?n = "snd (fst ?wr)"
      have n: "?n \<le> len" using sink_write(1) [OF sink ok] bs by simp
      then have w: "wire (snd ?wr) = wire (world c) @ take ?n (drop sent (write_buf c))"
        using sink_write(2) [OF sink ok] sink by (simp add: min_absorb1)
      have r: "f E len timer (sent + ?n) (fst (fst ?wr)) (c\<lparr>world := snd ?wr\<rparr>) = Some y"
        using y ok n True l by simp
      have "sent + ?n \<le> 2 * len" using n True by simp
      from step(1) [OF r, rule_format, OF sink this l] obtain m where
        "wire (world (snd y)) = wire (snd ?wr) @ take m (drop (sent + ?n) (write_buf c))"
        "sent + ?n + m \<le> 2 * len" "fst (fst y) = QCLOUD_RET_SUCCESS \<longrightarrow> snd (fst y) = sent + ?n + m"
        by auto
      moreover have "take (?n + m) (drop sent (write_buf c))
          = take ?n (drop sent (write_buf c)) @ take m (drop (sent + ?n) (write_buf c))"
        by (simp only: take_add drop_drop add.commute [of sent])
      ultimately show ?thesis using w by (intro exI [of _ "?n + m"]) (simp add: add.assoc)
    qed
  qed
  qed
qed

lemma whole_writes_length:
  "whole_writes E \<Longrightarrow> fst (fst (net_write E bs t w)) = QCLOUD_RET_SUCCESS \<Longrightarrow> snd (fst (net_write E bs t w)) = length bs"
  unfolding whole_writes_def by (metis prod.collapse)

lemma send_loop_whole:
  assumes "whole_writes E" and "send_loop E len timer 0 QCLOUD_RET_SUCCESS c = Some ((rc, n), c')" and "len < 2 ^ 31"
  shows "if rc = QCLOUD_RET_SUCCESS then n = len \<or> n = 0 else n < len"
proof -
  have fin: "send_loop E len timer len rc c1 = Some ((rc, len), c1)" for rc c1
    by (subst send_loop.simps) simp
  show ?thesis
    using assms(2,3) by (subst (asm) send_loop.simps)
      (auto simp: on_world_eq Let_def case_prod_beta mem_slice_def fin whole_writes_length [OF assms(1)] split: if_splits)
qed

text \<open>
  A network for examples: the clock stands still, \<open>net_write\<close> takes as many bytes as the schedule
  says and puts them on the wire, \<open>net_read\<close> delivers the input.
\<close>

record pipe =
  pipe_now :: u32
  pipe_sent :: "u8 list"
  pipe_takes :: "nat list"
  pipe_input :: "u8 list"

definition pipe_write :: "u8 list \<Rightarrow> int \<Rightarrow> pipe \<Rightarrow> (int \<times> nat) \<times> pipe" where
  "pipe_write bs t w = (let n = min (case pipe_takes w of [] \<Rightarrow> length bs | k # _ \<Rightarrow> k) (length bs) in
     ((QCLOUD_RET_SUCCESS, n), w\<lparr>pipe_sent := pipe_sent w @ take n bs, pipe_takes := tl (pipe_takes w)\<rparr>))"

definition pipe_read :: "nat \<Rightarrow> int \<Rightarrow> pipe \<Rightarrow> (int \<times> u8 list) \<times> pipe" where
  "pipe_read n t w = (if n \<le> length (pipe_input w)
     then ((QCLOUD_RET_SUCCESS, take n (pipe_input w)), w\<lparr>pipe_input := drop n (pipe_input w)\<rparr>)
     else ((QCLOUD_ERR_SSL_NOTHING_TO_READ, []), w))"

definition pipe_hal :: "pipe hal" where
  "pipe_hal = \<lparr>hal_time = (\<lambda>w. (pipe_now w, w)), hal_malloc = (\<lambda>w. (True, w)), hal_rand = (\<lambda>w. (0, w)),
     net_connect = (\<lambda>w. (0, w)), net_disconnect = (\<lambda>w. w), net_write = pipe_write, net_read = pipe_read,
     cfg_rmdup = True\<rparr>"

text \<open>A fresh client on a given world.\<close>

definition sample_client :: "'w \<Rightarrow> 'w client" where
  "sample_client w =
     \<lparr>is_connected = True, was_manually_disconnected = False, is_ping_outstanding = 0,
      next_packet_id = 1, command_timeout_ms = 5000,
      current_reconnect_wait_interval = 0, counter_network_disconnected = 0,
      write_buf_size = QCLOUD_IOT_MQTT_TX_BUF_LEN, read_buf_size = QCLOUD_IOT_MQTT_RX_BUF_LEN,
      write_buf = replicate QCLOUD_IOT_MQTT_TX_BUF_LEN 0, read_buf = replicate QCLOUD_IOT_MQTT_RX_BUF_LEN 0,
      list_pub_wait_ack = [], list_sub_wait_ack = [], event_handle = True, options = null_options,
      ping_timer = InitTimer, reconnect_delay_timer = InitTimer,
      sub_handles = replicate MAX_MESSAGE_HANDLERS null_handle,
      repeat_buf = replicate MQTT_MAX_REPEAT_BUF_LEN 0, repeat_cnt = 0, next_node = 0, trace = [], world = w\<rparr>"

lemma pipe_sink: "byte_sink pipe_hal pipe_sent"
  by (simp add: byte_sink_def pipe_hal_def pipe_write_def Let_def)

lemma pipe_send_step:
  assumes "sent < len" and "sent + len \<le> length (write_buf c)" and "sent + k < 2 ^ 32" and "k \<le> len"
    and "pipe_takes (world c) = k # ks" and "pipe_now (world c) \<le> timer"
  shows "send_loop pipe_hal len timer sent rc c = send_loop pipe_hal len timer (sent + k) QCLOUD_RET_SUCCESS
    (c\<lparr>world := (world c)\<lparr>pipe_sent := pipe_sent (world c) @ take k (drop sent (write_buf c)), pipe_takes := ks\<rparr>\<rparr>)"
proof -
  have ex: "expired pipe_hal timer (world c) = (False, world c)"
    using assms(6) by (simp add: expired_def pipe_hal_def Let_def)
  have left: "snd (left_ms pipe_hal timer (world c)) = world c"
    by (simp add: left_ms_def pipe_hal_def Let_def)
  have bs: "mem_slice (write_buf c) sent len = Some (take len (drop sent (write_buf c)))"
    using assms(2) by (simp add: mem_slice_def)
  have wr: "net_write pipe_hal (take len (drop sent (write_buf c))) t (world c) = ((QCLOUD_RET_SUCCESS, k),
      (world c)\<lparr>pipe_sent := pipe_sent (world c) @ take k (drop sent (write_buf c)), pipe_takes := ks\<rparr>)" for t
    using assms(2,4,5) by (simp add: pipe_hal_def pipe_write_def Let_def min_absorb1)
  show ?thesis
    using assms(1,3) by (subst send_loop.simps) (simp add: on_world_eq ex left bs wr Let_def)
qed

text \<open>C18: Whatever the network accepts per call, the bytes \<open>send_mqtt_packet\<close> puts on the wire are the
  first \<open>n\<close> bytes of the write buffer, in order. When every successful write takes all it is given, a
  successful call has sent the packet exactly, or nothing at all because the timer had expired.\<close>

theorem send_packet_wire:
  assumes "byte_sink E wire" and "send_mqtt_packet E len timer c = Some (rc, c')" and "len < 2 ^ 31"
  shows "\<exists>n \<le> 2 * len. wire (world c') = wire (world c) @ take n (write_buf c)
    \<and> (whole_writes E \<and> len < write_buf_size c \<and> rc = QCLOUD_RET_SUCCESS \<longrightarrow> n = len \<or> n = 0)"
proof (cases "len < write_buf_size c")
  case False
  then show ?thesis using assms(2) by (intro exI [of _ 0]) (simp add: send_mqtt_packet_def)
next
  case True
  then obtain lrc s where loop: "send_loop E len timer 0 QCLOUD_RET_SUCCESS c = Some ((lrc, s), c')"
    and rc: "rc = (if s = len then QCLOUD_RET_SUCCESS else lrc)"
    using assms(2) by (auto simp: send_mqtt_packet_def split: bind_splits if_splits)
  obtain m where m: "wire (world c') = wire (world c) @ take m (write_buf c)" "m \<le> 2 * len"
    "lrc = QCLOUD_RET_SUCCESS \<longrightarrow> s = m"
    using send_loop_wire [OF loop, rule_format, OF assms(1) _ assms(3)] by auto
  have "m = len \<or> m = 0" if "whole_writes E" "rc = QCLOUD_RET_SUCCESS"
    using send_loop_whole [OF that(1) loop assms(3)] m(3) rc that(2) by (auto split: if_splits)
  then show ?thesis using m(1,2) by blast
qed

theorem send_packet_wire_witness:
  "\<exists>c' n. send_mqtt_packet pipe_hal 2 100 (sample_client \<lparr>pipe_now = 0, pipe_sent = [], pipe_takes = [2], pipe_input = []\<rparr>)
      = Some (QCLOUD_RET_SUCCESS, c') \<and> n \<le> 4
    \<and> pipe_sent (world c') = take n (write_buf (sample_client \<lparr>pipe_now = 0, pipe_sent = [], pipe_takes = [2], pipe_input = []\<rparr>))"
  (is "\<exists>c' n. send_mqtt_packet pipe_hal 2 100 ?c = _ \<and> _ \<and> _")
proof -
  have fin: "send_loop pipe_hal 2 100 (Suc (Suc 0)) rc c1 = Some ((rc, 2), c1)" for rc c1
    by (subst send_loop.simps) simp
  have "\<exists>c'. send_mqtt_packet pipe_hal 2 100 ?c = Some (QCLOUD_RET_SUCCESS, c')"
    using pipe_send_step [of 0 2 ?c 2 "[]" 100 QCLOUD_RET_SUCCESS] fin
    by (simp add: send_mqtt_packet_def sample_client_def qos_defs)
  then obtain c' where run: "send_mqtt_packet pipe_hal 2 100 ?c = Some (QCLOUD_RET_SUCCESS, c')" by blast
  show ?thesis using send_packet_wire [OF pipe_sink run] run by (auto simp: sample_client_def)
qed

text \<open>After a partial write of \<open>k\<close> bytes the next write is again given \<open>length\<close> bytes from the new
  offset, so that \<open>k\<close> bytes behind the packet go out as well, and the call reports success.\<close>

theorem send_packet_overrun:
  assumes "0 < k" and "k < len" and "k + len \<le> length (write_buf c)" and "len < write_buf_size c" and "len < 2 ^ 31"
    and "pipe_takes (world c) = k # len # ks" and "pipe_now (world c) \<le> timer"
  shows "send_mqtt_packet pipe_hal len timer c = Some (QCLOUD_RET_SUCCESS,
    c\<lparr>world := (world c)\<lparr>pipe_sent := pipe_sent (world c) @ take (k + len) (write_buf c), pipe_takes := ks\<rparr>\<rparr>)"
proof -
  have fin: "send_loop pipe_hal len timer (k + len) rc c1 = Some ((rc, k + len), c1)" for rc c1
    by (subst send_loop.simps) simp
  show ?thesis
    using assms by (simp add: send_mqtt_packet_def pipe_send_step [where k = k] pipe_send_step [where k = len] fin
        take_add del: send_loop.simps)
qed

theorem send_packet_overrun_witness:
  "\<exists>c'. send_mqtt_packet pipe_hal 4 100 (sample_client \<lparr>pipe_now = 0, pipe_sent = [], pipe_takes = [1, 4], pipe_input = []\<rparr>)
      = Some (QCLOUD_RET_SUCCESS, c') \<and> length (pipe_sent (world c')) = 5"
  using send_packet_overrun [of 1 4 "sample_client \<lparr>pipe_now = 0, pipe_sent = [], pipe_takes = [1, 4], pipe_input = []\<rparr>" "[]" 100]
  by (simp add: sample_client_def qos_defs)

text \<open>A packet whose timer has expired before the first write is not sent, and the call reports success.\<close>

theorem send_packet_expired:
  assumes "0 < len" and "len < write_buf_size c" and "expired E timer (world c) = (True, w)"
  shows "send_mqtt_packet E len timer c = Some (QCLOUD_RET_SUCCESS, c\<lparr>world := w\<rparr>)"
  using assms by (simp add: send_mqtt_packet_def send_loop.simps [of E len] on_world_eq)

theorem send_packet_expired_witness:
  "\<exists>c :: u32 client. send_mqtt_packet (clock_hal 1) 2 100 c = Some (QCLOUD_RET_SUCCESS, c\<lparr>world := 201\<rparr>)"
proof
  let ?c = "mqtt_init_state (clock_hal 1) 5000 False (replicate 50 0, 0) 199"
  show "send_mqtt_packet (clock_hal 1) 2 100 ?c = Some (QCLOUD_RET_SUCCESS, ?c\<lparr>world := 201\<rparr>)"
    by (rule send_packet_expired)
      (simp_all add: mqtt_init_state_def get_random_start_packet_id_def clock_hal_def expired_def qos_defs Let_def)
qed

section \<open>Sending ends\<close>

text \<open>
  A clock that advances by 1 to \<open>D\<close> milliseconds per reading, and by at most \<open>D\<close> during a write;
  \<open>now\<close> observes it.
\<close>

definition clock_runs :: "'w hal \<Rightarrow> ('w \<Rightarrow> nat) \<Rightarrow> nat \<Rightarrow> bool" where
  "clock_runs E now D \<longleftrightarrow>
     (\<forall>w. fst (hal_time E w) = of_nat (now w) \<and> now w < now (snd (hal_time E w)) \<and> now (snd (hal_time E w)) \<le> now w + D)
   \<and> (\<forall>bs t w. now w \<le> now (snd (net_write E bs t w)) \<and> now (snd (net_write E bs t w)) \<le> now w + D)"

lemma clock_expired:
  assumes "clock_runs E now D" and "now w < 2 ^ 32"
  shows "fst (expired E timer w) \<longleftrightarrow> unat timer < now w"
    "now w < now (snd (expired E timer w)) \<and> now (snd (expired E timer w)) \<le> now w + D"
    "now w < now (snd (left_ms E timer w)) \<and> now (snd (left_ms E timer w)) \<le> now w + D"
  using assms by (simp_all add: clock_runs_def expired_def left_ms_def case_prod_beta Let_def word_less_nat_alt unat_of_nat)

lemma send_loop_returns:
  assumes "clock_runs E now D" and "unat timer + 3 * D < 2 ^ 32" and "len < 2 ^ 31"
    and "2 * len \<le> length (write_buf c)" and "now (world c) \<le> unat timer + 3 * D"
  shows "\<exists>y. send_loop E len timer sent rc c = Some y"
  using assms(4,5)
proof (induction "unat timer + 3 * D - now (world c)" arbitrary: sent rc c rule: less_induct)
  case less
  let ?w1 = "snd (expired E timer (world c))" and ?bs = "take len (drop sent (write_buf c))"
  let ?w2 = "snd (left_ms E timer ?w1)" and ?left = "fst (left_ms E timer ?w1)"
  let ?wr = "net_write E ?bs ?left ?w2"
  have now: "now (world c) < 2 ^ 32" using less.prems assms(2) by linarith
  note ex = clock_expired [OF assms(1) now, of timer]
  show ?case
  proof (cases "sent < len \<and> \<not> fst (expired E timer (world c)) \<and> fst (fst ?wr) = QCLOUD_RET_SUCCESS")
    case False
    then show ?thesis
      using less.prems(1) by (subst send_loop.simps) (auto simp: on_world_eq Let_def case_prod_beta mem_slice_def)
  next
    case True
    let ?c = "c\<lparr>world := snd ?wr\<rparr>"
    have early: "now (world c) \<le> unat timer" using True ex(1) by simp
    have w1: "now (world c) < now ?w1" "now ?w1 \<le> now (world c) + D" using ex(2) by auto
    then have "now ?w1 < 2 ^ 32" using early assms(2) by linarith
    then have w2: "now ?w1 < now ?w2" "now ?w2 \<le> now ?w1 + D"
      using clock_expired(3) [OF assms(1)] by auto
    have w3: "now ?w2 \<le> now (snd ?wr)" "now (snd ?wr) \<le> now ?w2 + D"
      using assms(1) by (auto simp: clock_runs_def)
    have "now (world ?c) \<le> unat timer + 3 * D" using w1 w2 w3 early by simp
    moreover have "unat timer + 3 * D - now (world ?c) < unat timer + 3 * D - now (world c)"
      using w1 w2 w3 early by simp
    ultimately have "\<exists>y. send_loop E len timer ((sent + snd (fst ?wr)) mod 2 ^ 32) (fst (fst ?wr)) ?c = Some y"
      using less.hyps [of ?c] less.prems(1) by simp
    then show ?thesis
      using True less.prems(1) by (subst send_loop.simps) (auto simp: on_world_eq Let_def case_prod_beta mem_slice_def)
  qed
qed

text \<open>With a running clock \<open>send_mqtt_packet\<close> returns, also when the network takes nothing or one byte
  at a time: for packets of at most half the write buffer no write reads behind the buffer, and the
  loop ends when the timer expires.\<close>

theorem send_packet_returns:
  assumes "clock_runs E now D" and "unat timer + 3 * D < 2 ^ 32" and "len < 2 ^ 31"
    and "2 * len \<le> length (write_buf c)" and "now (world c) \<le> unat timer + 3 * D"
  shows "\<exists>rc c'. send_mqtt_packet E len timer c = Some (rc, c')"
  using send_loop_returns [OF assms, of 0 QCLOUD_RET_SUCCESS] by (auto simp: send_mqtt_packet_def)

text \<open>A clock that ticks once per reading, and a network that takes nothing.\<close>

definition tick_hal :: "nat hal" where
  "tick_hal = \<lparr>hal_time = (\<lambda>w. (of_nat w, w + 1)), hal_malloc = (\<lambda>w. (True, w)), hal_rand = (\<lambda>w. (0, w)),
     net_connect = (\<lambda>w. (0, w)), net_disconnect = (\<lambda>w. w), net_write = (\<lambda>bs t w. ((QCLOUD_RET_SUCCESS, 0), w)),
     net_read = (\<lambda>n t w. ((QCLOUD_ERR_SSL_NOTHING_TO_READ, []), w)), cfg_rmdup = True\<rparr>"

theorem send_packet_returns_witness:
  "\<exists>rc c'. send_mqtt_packet tick_hal 2 100 (mqtt_init_state tick_hal 5000 True (replicate 50 0, 0) 7) = Some (rc, c')"
  by (rule send_packet_returns [where now = "\<lambda>w. w" and D = 1])
    (simp_all add: clock_runs_def tick_hal_def mqtt_init_state_def get_random_start_packet_id_def qos_defs Let_def)

section \<open>Receiving\<close>

definition byte_source :: "'w hal \<Rightarrow> ('w \<Rightarrow> u8 list) \<Rightarrow> bool" where
  "byte_source E inp \<longleftrightarrow>
     (\<forall>n t w. n \<le> length (inp w) \<longrightarrow>
        fst (net_read E n t w) = (QCLOUD_RET_SUCCESS, take n (inp w)) \<and> inp (snd (net_read E n t w)) = drop n (inp w))
   \<and> (\<forall>w. inp (snd (hal_time E w)) = inp w)"

lemma source_time [simp]:
  assumes "byte_source E inp"
  shows "inp (snd (left_ms E t w)) = inp w" "inp (snd (expired E t w)) = inp w"
  using assms by (simp_all add: byte_source_def expired_def left_ms_def case_prod_beta Let_def)

lemma source_read:
  assumes "byte_source E inp" and "n \<le> length (inp w)"
  shows "fst (net_read E n t w) = (QCLOUD_RET_SUCCESS, take n (inp w))"
    "inp (snd (net_read E n t w)) = drop n (inp w)"
  using assms by (simp_all add: byte_source_def)

lemma source_read_into:
  assumes "byte_source E inp" and "n \<le> length (inp (world c))" and "p + n \<le> length (read_buf c)"
  shows "\<exists>w. read_into E p n t c = Some ((QCLOUD_RET_SUCCESS, n), c\<lparr>world := w, read_buf := overlay (read_buf c) p (take n (inp (world c)))\<rparr>)
    \<and> inp w = drop n (inp (world c))"
  using source_read [OF assms(1,2), of t] assms(2,3)
  by (auto simp: read_into_def on_world_eq Let_def case_prod_beta mem_slice_def min_absorb1)

text \<open>Reading the remaining length from the network is the same loop as reading it from a buffer.\<close>

lemma rem_len_net_loop_source:
  assumes "byte_source E inp" and "inp (world c) = drop p b"
    and "rem_len_loop (byte_at b) len m v p = Some (Inr (r, k))"
  shows "\<exists>w. rem_len_net_loop E t len m v c = Some (Inr r, c\<lparr>world := w\<rparr>) \<and> inp w = drop (p + (k - len)) b \<and> len < k"
  using assms(2,3)
proof (induction "4 - len" arbitrary: len m v p c)
  case 0
  then show ?case by (subst (asm) rem_len_loop.simps) (simp add: qos_defs)
next
  case (Suc j)
  then have len: "len < 4" by simp
  obtain x where x: "mem_read b p = Some x"
    using Suc.prems(2) len by (subst (asm) rem_len_loop.simps) (auto simp: qos_defs byte_at_read split: bind_splits)
  then have p: "p < length b" and bx: "drop p b = x # drop (Suc p) b"
    by (auto simp: mem_read_def Cons_nth_drop_Suc split: if_splits)
  have rd: "fst (net_read E 1 t (world c)) = (QCLOUD_RET_SUCCESS, [x])" "inp (snd (net_read E 1 t (world c))) = drop (Suc p) b"
    using source_read [OF assms(1), of 1 "world c" t] Suc.prems(1) bx by auto
  let ?c = "c\<lparr>world := snd (net_read E 1 t (world c))\<rparr>"
  let ?v = "(v + unat (x AND 127) * m) mod 2 ^ 32"
  have net: "rem_len_net_loop E t len m v c = (if x AND 128 \<noteq> 0
      then rem_len_net_loop E t (Suc len) (m * 128 mod 2 ^ 32) ?v ?c else Some (Inr ?v, ?c))"
    using len rd(1) by (subst rem_len_net_loop.simps)
      (simp add: qos_defs on_world_eq Let_def case_prod_beta mem_simps)
  show ?case
  proof (cases "x AND 128 = 0")
    case True
    then have "r = ?v" "k = Suc len" using Suc.prems(2) rem_len_loop_step [OF x len] by simp_all
    then show ?thesis using net True rd(2) by (intro exI [of _ "snd (net_read E 1 t (world c))"]) simp
  next
    case False
    then have r: "rem_len_loop (byte_at b) (Suc len) (m * 128 mod 2 ^ 32) ?v (Suc p) = Some (Inr (r, k))"
      using Suc.prems(2) rem_len_loop_step [OF x len] by simp
    have j: "j = 4 - Suc len" using Suc.hyps(2) by simp
    have wc: "inp (world ?c) = drop (Suc p) b" using rd(2) by simp
    obtain w where
      "rem_len_net_loop E t (Suc len) (m * 128 mod 2 ^ 32) ?v ?c = Some (Inr r, ?c\<lparr>world := w\<rparr>)"
      "inp w = drop (Suc p + (k - Suc len)) b" "Suc len < k"
      using Suc.hyps(1) [OF j wc r] by blast
    moreover from this have "Suc p + (k - Suc len) = p + (k - len)" "len < k" by simp_all
    ultimately show ?thesis using net False by (intro exI [of _ w]) simp
  qed
qed

lemma rem_len_net_bytes:
  assumes "byte_source E inp" and "inp (world c) = rem_len_bytes n @ r" and "n < 2 ^ 28"
  shows "\<exists>w. decode_packet_rem_len_with_net_read E t c = Some (Inr n, c\<lparr>world := w\<rparr>) \<and> inp w = r"
proof -
  have "rem_len_loop (byte_at ([] @ rem_len_bytes n @ r)) 0 (128 ^ 0) 0 (length ([] :: u8 list))
      = Some (Inr (0 + n * 128 ^ 0, 0 + length (rem_len_bytes n)))"
    using assms(3) by (intro rem_len_loop_bytes) simp_all
  then show ?thesis
    using rem_len_net_loop_source [OF assms(1), of c 0 "rem_len_bytes n @ r" 0 1 0 n "length (rem_len_bytes n)" t] assms(2)
    by (auto simp: decode_packet_rem_len_with_net_read_def)
qed

lemma discard_loop_source:
  assumes "byte_source E inp" and "rem_len < 2 ^ 31"
    and "got < rem_len" and "n = min (read_buf_size c) (rem_len - got)" and "0 < read_buf_size c"
    and "length (read_buf c) = read_buf_size c" and "rem_len - got \<le> length (inp (world c))"
  shows "\<exists>c'. discard_loop E t rem_len got n c = Some ((), c') \<and> inp (world c') = drop (rem_len - got) (inp (world c))"
  using assms(3-)
proof (induction "rem_len - got" arbitrary: got n c rule: less_induct)
  case less
  have n: "n \<le> rem_len - got" "0 < n" "n \<le> read_buf_size c" using less.prems by auto
  obtain w where rd: "read_into E 0 n t c = Some ((QCLOUD_RET_SUCCESS, n),
      c\<lparr>world := w, read_buf := overlay (read_buf c) 0 (take n (inp (world c)))\<rparr>)" and w: "inp w = drop n (inp (world c))"
    using source_read_into [OF assms(1), of n c 0 t] n less.prems by auto
  let ?c = "c\<lparr>world := w, read_buf := overlay (read_buf c) 0 (take n (inp (world c)))\<rparr>"
  have len: "length (overlay (read_buf c) 0 (take n (inp (world c)))) = read_buf_size c"
    using n less.prems by simp
  have got: "(got + n) mod 2 ^ 32 = got + n" using n less.prems(1) assms(2) by simp
  have left: "nat ((int rem_len - int (got + n)) mod 2 ^ 32) = rem_len - (got + n)"
  proof -
    have "got + n \<le> rem_len" using n less.prems(1) by linarith
    then have eq: "int rem_len - int (got + n) = int (rem_len - (got + n))" by (rule of_nat_diff [symmetric])
    have "rem_len - (got + n) < 2 ^ 32" using assms(2) by simp
    then have "int (rem_len - (got + n)) < 2 ^ 32" by (metis of_nat_less_iff of_nat_numeral of_nat_power)
    then show ?thesis by (simp only: eq mod_pos_pos_trivial [OF of_nat_0_le_iff] nat_int)
  qed
  show ?case
  proof (cases "got + n < rem_len")
    case True
    let ?n = "min (read_buf_size c) (rem_len - (got + n))"
    have size: "(if read_buf_size c \<le> rem_len - (got + n) then read_buf_size c else rem_len - (got + n)) = ?n"
      by (simp add: min_def)
    have step: "discard_loop E t rem_len got n c = discard_loop E t rem_len (got + n) ?n ?c"
      using True by (subst discard_loop.simps, simp only: rd bind.bind_lunit got left Let_def case_prod_conv if_True
          simp_thms, simp add: size)
    have "\<exists>c'. discard_loop E t rem_len (got + n) ?n ?c = Some ((), c')
        \<and> inp (world c') = drop (rem_len - (got + n)) (inp w)"
      using less.hyps [of "got + n" ?n ?c] n True less.prems w len by simp
    moreover have "drop (rem_len - (got + n)) (inp w) = drop (rem_len - got) (inp (world c))"
      using w n by simp
    ultimately show ?thesis using step by simp
  next
    case False
    then have e: "rem_len - got = n" using n by simp
    have "discard_loop E t rem_len got n c = Some ((), ?c)"
      using False by (subst discard_loop.simps, simp only: rd bind.bind_lunit got Let_def case_prod_conv if_True
          simp_thms, simp)
    then show ?thesis using w by (simp add: e)
  qed
qed

text \<open>C19: A packet that arrives complete. When it fits into the read buffer, \<open>_read_mqtt_packet\<close> stores
  exactly its bytes and reports its type; when it does not, it is read and discarded to its last
  byte. In both cases the next byte of the stream is the first one behind the packet.\<close>

theorem read_packet_stream:
  assumes "byte_source E inp"
    and "inp (world c) = h # rem_len_bytes m @ payload @ rest" and "length payload = m" and "m < 2 ^ 28"
    and "length (read_buf c) = read_buf_size c" and "5 \<le> read_buf_size c" and "read_buf_size c < 2 ^ 28"
  shows "\<exists>c'. inp (world c') = rest
    \<and> (if 1 + length (rem_len_bytes m) + m \<le> read_buf_size c
       then read_mqtt_packet E timer c = Some (Inr (hdr_type h), c')
         \<and> take (1 + length (rem_len_bytes m) + m) (read_buf c') = h # rem_len_bytes m @ payload
       else read_mqtt_packet E timer c = Some (Inl QCLOUD_ERR_BUF_TOO_SHORT, c'))"
proof -
  let ?k = "length (rem_len_bytes m)" and ?bs = "rem_len_bytes m"
  have k: "?k \<le> 4" "1 + ?k \<le> read_buf_size c" using rem_len_at_most_4 [OF assms(4)] assms(6) by auto
  let ?l1 = "left_ms E timer (world c)"
  let ?rb1 = "overlay (read_buf c) 0 [h]"
  obtain w1 where r1: "read_into E 0 1 (at_least_1 (fst ?l1)) (c\<lparr>world := snd ?l1\<rparr>) =
      Some ((QCLOUD_RET_SUCCESS, 1), c\<lparr>world := w1, read_buf := ?rb1\<rparr>)" and w1: "inp w1 = ?bs @ payload @ rest"
    using source_read_into [OF assms(1), of 1 "c\<lparr>world := snd ?l1\<rparr>" 0 "at_least_1 (fst ?l1)"] assms(1,2,5,6) by auto
  let ?l2 = "left_ms E timer w1"
  let ?c2 = "c\<lparr>read_buf := ?rb1, world := snd ?l2\<rparr>" and ?t2 = "at_least_1 (fst ?l2) + QCLOUD_IOT_MQTT_MAX_REMAIN_WAIT_MS"
  obtain w2 where r2: "decode_packet_rem_len_with_net_read E ?t2 ?c2 = Some (Inr m, ?c2\<lparr>world := w2\<rparr>)"
    and w2: "inp w2 = payload @ rest"
    using rem_len_net_bytes [OF assms(1) _ assms(4), of ?c2 "payload @ rest" ?t2] assms(1) w1 by auto
  let ?l3 = "left_ms E timer w2"
  let ?c3 = "c\<lparr>read_buf := ?rb1, world := snd ?l3\<rparr>" and ?t3 = "at_least_1 (fst ?l3) + QCLOUD_IOT_MQTT_MAX_REMAIN_WAIT_MS"
  have rb1: "length ?rb1 = read_buf_size c" using assms(5,6) by simp
  have w3: "inp (snd ?l3) = payload @ rest" using assms(1) w2 by simp
  note start = read_mqtt_packet_def on_world_eq Let_def r1 r2
  show ?thesis
  proof (cases "m \<ge> read_buf_size c")
    case True
    then have m: "m < 2 ^ 31" "0 < m" "read_buf_size c = min (read_buf_size c) (m - 0)" using assms(4,6) by auto
    obtain c' where "discard_loop E ?t3 m 0 (read_buf_size c) ?c3 = Some ((), c')" "inp (world c') = rest"
      using discard_loop_source [OF assms(1) m(1,2), of "read_buf_size c" ?c3 ?t3] m assms(3,6) rb1 w3 True by auto
    then show ?thesis using True by (intro exI [of _ c']) (simp add: start del: One_nat_def)
  next
    case False
    let ?rb2 = "overlay ?rb1 1 ?bs"
    have wr: "mqtt_write_packet_rem_len m (?rb1, 1) = Some (?rb2, 1 + ?k)"
      using write_rem_len.wr_fits [of 1 m ?rb1] k rb1 by simp
    have rb2: "?rb2 = overlay (read_buf c) 0 (h # ?bs)" "length ?rb2 = read_buf_size c"
      using overlay_overlay [of 0 "[h]" ?bs "read_buf c"] k assms(5) rb1 by simp_all
    have small: "m < read_buf_size c" using False by simp
    let ?c4 = "c\<lparr>read_buf := ?rb2, world := snd ?l3\<rparr>"
    consider (large) "0 < m" "read_buf_size c < 1 + ?k + m" | (empty) "m = 0" | (fits) "0 < m" "1 + ?k + m \<le> read_buf_size c"
      by linarith
    then show ?thesis
    proof cases
      case large
      obtain w where "read_into E 0 m ?t3 ?c4 = Some ((QCLOUD_RET_SUCCESS, m), ?c4\<lparr>world := w, read_buf := overlay ?rb2 0 (take m (inp (snd ?l3)))\<rparr>)"
        "inp w = rest"
        using source_read_into [OF assms(1), of m ?c4 0 ?t3] w3 assms(3) small rb2(2) by auto
      then show ?thesis using large small
        by (intro exI [of _ "?c4\<lparr>world := w, read_buf := overlay ?rb2 0 (take m (inp (snd ?l3)))\<rparr>"]) (simp add: start wr del: One_nat_def)
    next
      case empty
      have "mem_read ?rb2 0 = Some h" using rb2 assms(6) by (simp add: mem_read_def overlay_def)
      moreover have "take (1 + ?k) ?rb2 = h # ?bs"
        using rb2(1) take_overlay [of 0 "h # ?bs" "read_buf c"] k assms(5) by simp
      ultimately show ?thesis using empty small w2 assms(3) k(2)
        by (intro exI [of _ "c\<lparr>world := w2, read_buf := ?rb2\<rparr>"]) (simp add: start wr [unfolded empty] del: One_nat_def)
    next
      case fits
      let ?rb3 = "overlay ?rb2 (1 + ?k) payload"
      obtain w where r4: "read_into E (1 + ?k) m ?t3 ?c4 = Some ((QCLOUD_RET_SUCCESS, m), ?c4\<lparr>world := w, read_buf := ?rb3\<rparr>)"
        "inp w = rest"
        using source_read_into [OF assms(1), of m ?c4 "1 + ?k" ?t3] w3 assms(3) fits rb2(2) by auto
      have rb3: "?rb3 = overlay (read_buf c) 0 (h # ?bs @ payload)"
        using overlay_overlay [of 0 "h # ?bs" payload "read_buf c"] fits assms(3,5) rb2(1) by simp
      then have "mem_read ?rb3 0 = Some h" using fits assms(3,5) by (simp add: mem_read_def overlay_def)
      moreover have "take (1 + ?k + m) ?rb3 = h # ?bs @ payload"
        using rb3 take_overlay [of 0 "h # ?bs @ payload" "read_buf c"] fits assms(3,5) by (simp add: add.assoc)
      ultimately show ?thesis using fits small r4
        by (intro exI [of _ "?c4\<lparr>world := w, read_buf := ?rb3\<rparr>"]) (simp add: start wr del: One_nat_def)
    qed
  qed
qed

lemma pipe_source: "byte_source pipe_hal pipe_input"
  by (simp add: byte_source_def pipe_hal_def pipe_read_def)

theorem read_packet_stream_witness:
  "\<exists>c'. read_mqtt_packet pipe_hal 100 (sample_client \<lparr>pipe_now = 0, pipe_sent = [], pipe_takes = [],
      pipe_input = [0x40, 2, 0, 7, 0x40]\<rparr>) = Some (Inr 4, c')
    \<and> take (Suc (Suc (Suc (Suc 0)))) (read_buf c') = [0x40, 2, 0, 7] \<and> pipe_input (world c') = [0x40]"
proof -
  have "rem_len_bytes 2 = [2]" by (simp add: rem_len_bytes.simps)
  moreover have "hdr_type 0x40 = 4" by (simp add: hdr_type_def)
  ultimately show ?thesis
    using read_packet_stream [OF pipe_source, of "sample_client \<lparr>pipe_now = 0, pipe_sent = [], pipe_takes = [],
      pipe_input = [0x40, 2, 0, 7, 0x40]\<rparr>" "0x40" 2 "[0, 7]" "[0x40]" 100]
    by (auto simp: sample_client_def qos_defs)
qed

end
