(* ===== verification/Mqtt_Session.thy ===== *)
theory Mqtt_Session
  imports Mqtt_Wire
begin

text \<open>
  The functional behaviour of the client's operations: what publishing and subscribing leave in
  the wait lists, what acknowledgements do to the handlers, who gets a message, what the walks over
  the wait lists remove and report, and how keep-alive and reconnection end.
\<close>

section \<open>Delivering\<close>

text \<open>The test \<open>_deliver_message\<close> makes for one handler.\<close>

definition handler_matches :: "buffer \<Rightarrow> nat \<Rightarrow> SubTopicHandle \<Rightarrow> bool option" where
  "handler_matches name n h = (case topic_filter h of None \<Rightarrow> Some False
     | Some f \<Rightarrow> do { eq \<leftarrow> is_topic_equals name f; if eq then Some True else is_topic_matched f name n })"

definition takes_message :: "buffer \<Rightarrow> nat \<Rightarrow> SubTopicHandle \<Rightarrow> bool" where
  "takes_message name n h \<longleftrightarrow> handler_matches name n h = Some True \<and> message_handler h \<noteq> None"

lemma deliver_loop_find:
  assumes "\<And>h. h \<in> set hs \<Longrightarrow> \<exists>b. handler_matches name n h = Some b"
  shows "deliver_loop name n hs i = Some (map_option (\<lambda>j. i + j)
    (List.find (\<lambda>j. takes_message name n (hs ! j)) [0..<length hs]))"
  using assms
proof (induction hs arbitrary: i)
  case (Cons h hs i)
  obtain b where b: "handler_matches name n h = Some b" using Cons.prems [of h] by auto
  then have m: "(case topic_filter h of None \<Rightarrow> Some False
     | Some f \<Rightarrow> do { eq \<leftarrow> is_topic_equals name f; if eq then Some True else is_topic_matched f name n }) = Some b"
    by (simp add: handler_matches_def)
  have IH: "deliver_loop name n hs (Suc i) = Some (map_option (\<lambda>j. Suc i + j)
      (List.find (\<lambda>j. takes_message name n (hs ! j)) [0..<length hs]))"
    by (rule Cons.IH) (rule Cons.prems, simp)
  have shift: "List.find P (map Suc xs) = map_option Suc (List.find (P \<circ> Suc) xs)" for P xs
    by (induction xs) auto
  have upt: "[0..<length (h # hs)] = 0 # map Suc [0..<length hs]" by (simp add: upt_conv_Cons map_Suc_upt del: upt_Suc)
  have add: "map_option ((+) (Suc i)) r = map_option (\<lambda>j. Suc (i + j)) r" for r by (cases r) auto
  show ?case
    unfolding upt by (simp add: IH m shift takes_message_def b o_def option.map_comp add)
qed simp

text \<open>Every handler can be tested against a terminated, non-empty topic.\<close>

lemma handler_matches_total:
  assumes "0 \<notin> set t" and "t \<noteq> []" and "\<And>f. topic_filter h = Some f \<Longrightarrow> 0 \<notin> set f"
  shows "\<exists>b. handler_matches (t @ 0 # z) (length t) h = Some b"
proof (cases "topic_filter h")
  case (Some f)
  then show ?thesis
    using topic_match_total [of f "length t" "t @ 0 # z"] assms
    by (auto simp: handler_matches_def topic_equals_terminated)
qed (auto simp: handler_matches_def)

lemma handler_matches_spec:
  assumes "0 \<notin> set t" and "t \<noteq> []" and "topic_filter h = Some f" and "filter_ok f" and "topic_spec f t"
  shows "handler_matches (t @ 0 # z) (length t) h = Some True"
  using topic_match_complete [of f "length t" "t @ 0 # z"] assms
  by (auto simp: handler_matches_def topic_equals_terminated)

definition first_taker :: "buffer \<Rightarrow> nat \<Rightarrow> SubTopicHandle list \<Rightarrow> nat option" where
  "first_taker name n hs = List.find (\<lambda>j. takes_message name n (hs ! j)) [0..<length hs]"

lemma first_taker_Some:
  "first_taker name n hs = Some j \<Longrightarrow> j < length hs \<and> message_handler (hs ! j) \<noteq> None"
  by (auto simp: first_taker_def find_Some_iff takes_message_def)

lemma first_taker_le:
  assumes "i < length hs" and "takes_message name n (hs ! i)"
  shows "\<exists>j \<le> i. first_taker name n hs = Some j"
proof (cases "first_taker name n hs")
  case None
  then show ?thesis using assms by (auto simp: first_taker_def find_None_iff)
next
  case (Some j)
  then have "j < length hs" "\<forall>k < j. \<not> takes_message name n (hs ! k)"
    by (auto simp: first_taker_def find_Some_iff)
  then show ?thesis using Some assms(2) by (intro exI [of _ j]) (auto simp: not_less [symmetric])
qed

text \<open>C29: A message on a non-empty topic is handed to exactly one callback: the one of the first handler in
  the array whose filter equals the topic or is accepted by the matcher, or the default one when
  there is none; nothing else changes. When some handler's filter matches the topic by the MQTT
  rules, a subscriber gets the message, and it is this handler or an earlier one.\<close>

theorem deliver_first_match:
  assumes "0 \<notin> set t" and "t \<noteq> []"
    and "\<forall>h \<in> set (sub_handles c). \<forall>f. topic_filter h = Some f \<longrightarrow> 0 \<notin> set f"
  shows "deliver_message (t @ 0 # z) (length t) v c = Some (QCLOUD_RET_SUCCESS,
      let msg = \<lparr>msg_view = v, msg_ptopic = t @ 0 # z, msg_topic_len = length t, msg_payload = drop (pv_payload v) (read_buf c)\<rparr> in
      case first_taker (t @ 0 # z) (length t) (sub_handles c) of
        Some j \<Rightarrow> emit (Deliver (the (message_handler (sub_handles c ! j))) msg (handler_user_data (sub_handles c ! j))) c
      | None \<Rightarrow> if event_handle c then emit (Deliver_Default msg) c else c)
    \<and> (\<forall>i f. i < length (sub_handles c) \<and> topic_filter (sub_handles c ! i) = Some f \<and> filter_ok f \<and> topic_spec f t
          \<and> message_handler (sub_handles c ! i) \<noteq> None \<longrightarrow>
        (\<exists>j \<le> i. first_taker (t @ 0 # z) (length t) (sub_handles c) = Some j))"
proof (intro conjI allI impI)
  have "deliver_loop (t @ 0 # z) (length t) (sub_handles c) 0
      = Some (first_taker (t @ 0 # z) (length t) (sub_handles c))"
    using deliver_loop_find [of "sub_handles c" "t @ 0 # z" "length t" 0] handler_matches_total [OF assms(1,2)] assms(3)
    by (auto simp: first_taker_def option.map_ident)
  then show "deliver_message (t @ 0 # z) (length t) v c = Some (QCLOUD_RET_SUCCESS,
      let msg = \<lparr>msg_view = v, msg_ptopic = t @ 0 # z, msg_topic_len = length t, msg_payload = drop (pv_payload v) (read_buf c)\<rparr> in
      case first_taker (t @ 0 # z) (length t) (sub_handles c) of
        Some j \<Rightarrow> emit (Deliver (the (message_handler (sub_handles c ! j))) msg (handler_user_data (sub_handles c ! j))) c
      | None \<Rightarrow> if event_handle c then emit (Deliver_Default msg) c else c)"
    by (cases "first_taker (t @ 0 # z) (length t) (sub_handles c)")
      (auto simp: deliver_message_def Let_def dest!: first_taker_Some)
next
  fix i f
  assume "i < length (sub_handles c) \<and> topic_filter (sub_handles c ! i) = Some f \<and> filter_ok f \<and> topic_spec f t
    \<and> message_handler (sub_handles c ! i) \<noteq> None"
  then show "\<exists>j \<le> i. first_taker (t @ 0 # z) (length t) (sub_handles c) = Some j"
    using handler_matches_spec [OF assms(1,2)] by (intro first_taker_le) (auto simp: takes_message_def)
qed

theorem deliver_first_match_witness:
  "\<forall>v. \<exists>j. deliver_message [97, 47, 98, 0] 3 v (sample_client (0 :: u32)\<lparr>sub_handles :=
        [null_handle, \<lparr>topic_filter = Some [97, 47, 43], message_handler = Some 7, sub_event_handler = None,
          handler_user_data = 5, sub_qos = QOS1\<rparr>]\<rparr>) = Some (QCLOUD_RET_SUCCESS, j)
    \<and> first_taker [97, 47, 98, 0] 3 [null_handle, \<lparr>topic_filter = Some [97, 47, 43], message_handler = Some 7,
          sub_event_handler = None, handler_user_data = 5, sub_qos = QOS1\<rparr>] = Some 1"
proof
  fix v
  let ?h = "\<lparr>topic_filter = Some [97, 47, 43], message_handler = Some 7, sub_event_handler = None,
    handler_user_data = 5, sub_qos = QOS1\<rparr>"
  let ?c = "sample_client (0 :: u32)\<lparr>sub_handles := [null_handle, ?h]\<rparr>"
  note all = deliver_first_match [of "[97, 47, 98]" ?c "[]" v]
  have pre: "(0 :: u8) \<notin> set [97, 47, 98]" "[97, 47, 98 :: u8] \<noteq> []"
    "\<forall>h \<in> set (sub_handles ?c). \<forall>f. topic_filter h = Some f \<longrightarrow> 0 \<notin> set f"
    by (simp_all add: null_handle_def)
  have "filter_ok [97, 47, 43]" "topic_spec [97, 47, 43] [97, 47, 98]"
    by (simp_all add: filter_ok_def topic_spec_def)
  then obtain j where j: "j \<le> 1" "first_taker [97, 47, 98, 0] 3 [null_handle, ?h] = Some j"
    using conjunct2 [OF all [OF pre], rule_format, of 1 "[97, 47, 43]"] by (auto simp: numeral_3_eq_3)
  then have "j = 1" using first_taker_Some [OF j(2)] by (cases j) (auto simp: null_handle_def)
  then show "\<exists>j. deliver_message [97, 47, 98, 0] 3 v ?c = Some (QCLOUD_RET_SUCCESS, j)
    \<and> first_taker [97, 47, 98, 0] 3 [null_handle, ?h] = Some 1"
    using conjunct1 [OF all [OF pre]] j(2) by (auto simp: numeral_3_eq_3)
qed

end
