(* ===== verification/Ring_Buffer.thy ===== *)
theory Ring_Buffer
  imports Qc_Prelude
begin

text \<open>
  \<^verbatim>\<open>utils_ringbuff.c\<close>: the byte ring buffer. The record follows \<open>sRingbuff\<close>; the operations follow
  \<open>ring_buff_init\<close>, \<open>ring_buff_flush\<close>, \<open>ring_buff_push_data\<close> and \<open>ring_buff_pop_data\<close>,
  with their loops as recursive functions. The abstraction \<open>rb_contents\<close> is the queue of stored
  bytes; the interface \<open>byte_fifo\<close> states what push and pop do to it, and derives from that
  that the buffer is first-in first-out over any sequence of calls.
\<close>

section \<open>Model\<close>

record ring =
  rb_size :: nat
  rb_read :: nat
  rb_write :: nat
  rb_buffer :: "u8 list"
  rb_full :: bool

abbreviation (input) RINGBUFF_OK :: int where "RINGBUFF_OK \<equiv> 0"
abbreviation (input) RINGBUFF_FULL :: int where "RINGBUFF_FULL \<equiv> -4"
abbreviation (input) RINGBUFF_TOO_SHORT :: int where "RINGBUFF_TOO_SHORT \<equiv> -5"

text \<open>\<open>memset(buffer, 0, size)\<close> and the reset of the two indices.\<close>

definition ring_buff_flush :: "ring \<Rightarrow> (int \<times> ring) option" where
  "ring_buff_flush rb = do {
     b \<leftarrow> mem_copy (rb_buffer rb) 0 (replicate (rb_size rb) 0);
     Some (RINGBUFF_OK, rb\<lparr>rb_read := 0, rb_write := 0, rb_buffer := b, rb_full := False\<rparr>)
   }"

definition ring_buff_init :: "u8 list \<Rightarrow> nat \<Rightarrow> (int \<times> ring) option" where
  "ring_buff_init buff sz = do {
     b \<leftarrow> mem_copy buff 0 (replicate sz 0);
     Some (RINGBUFF_OK,
       \<lparr>rb_size = sz, rb_read = 0, rb_write = 0, rb_buffer = b, rb_full = False\<rparr>)
   }"

text \<open>The body of the push loop for one byte that finds room.\<close>

definition rb_next_write :: "ring \<Rightarrow> nat" where
  "rb_next_write rb = (if rb_write rb < rb_size rb - 1 then Suc (rb_write rb) else 0)"

definition rb_next_read :: "ring \<Rightarrow> nat" where
  "rb_next_read rb = (if rb_read rb = rb_size rb - 1 then 0 else Suc (rb_read rb))"

function push_loop :: "ring \<Rightarrow> u8 list \<Rightarrow> nat \<Rightarrow> nat \<Rightarrow> (int \<times> ring) option" where
  "push_loop rb pData i len =
     (if i < len then
        if (Suc (rb_write rb) mod 2 ^ 32) mod rb_size rb = rb_read rb
        then Some (RINGBUFF_FULL, rb\<lparr>rb_full := True\<rparr>)
        else do {
          c \<leftarrow> mem_read pData i;
          b \<leftarrow> mem_write (rb_buffer rb) (rb_next_write rb) c;
          push_loop (rb\<lparr>rb_write := rb_next_write rb, rb_buffer := b\<rparr>) pData (Suc i) len
        }
      else Some (RINGBUFF_OK, rb))"
  by pat_completeness auto
termination
  by (relation "measure (\<lambda>(rb, pData, i, len). len - i)") auto

text \<open>
  \<open>len\<close> is an \<open>int\<close> compared with the unsigned \<open>size\<close>, so a negative length is converted to
  a large unsigned one and refused.
\<close>

definition ring_buff_push_data :: "ring \<Rightarrow> u8 list \<Rightarrow> int \<Rightarrow> (int \<times> ring) option" where
  "ring_buff_push_data rb pData len =
     (if nat (len mod 2 ^ 32) > rb_size rb then Some (RINGBUFF_TOO_SHORT, rb)
      else push_loop rb pData 0 (nat len))"

function pop_loop :: "ring \<Rightarrow> u8 list \<Rightarrow> nat \<Rightarrow> nat \<Rightarrow> (int \<times> ring \<times> u8 list) option" where
  "pop_loop rb pData i len =
     (if i < len then
        if rb_write rb = rb_read rb then Some (int i, rb, pData)
        else do {
          c \<leftarrow> mem_read (rb_buffer rb) (rb_next_read rb);
          d \<leftarrow> mem_write pData i c;
          pop_loop (rb\<lparr>rb_read := rb_next_read rb\<rparr>) d (Suc i) len
        }
      else Some (int i, rb, pData))"
  by pat_completeness auto
termination
  by (relation "measure (\<lambda>(rb, pData, i, len). len - i)") auto

definition ring_buff_pop_data :: "ring \<Rightarrow> u8 list \<Rightarrow> int \<Rightarrow> (int \<times> ring \<times> u8 list) option" where
  "ring_buff_pop_data rb pData len =
     (if nat (len mod 2 ^ 32) > rb_size rb then Some (RINGBUFF_TOO_SHORT, rb, pData)
      else pop_loop rb pData 0 (nat len))"

declare push_loop.simps [simp del] pop_loop.simps [simp del]

section \<open>Abstraction\<close>

definition rb_inv :: "ring \<Rightarrow> bool" where
  "rb_inv rb \<longleftrightarrow> 0 < rb_size rb \<and> rb_size rb < 2 ^ 31 \<and> rb_size rb \<le> length (rb_buffer rb)
     \<and> rb_read rb < rb_size rb \<and> rb_write rb < rb_size rb"

definition rb_count :: "ring \<Rightarrow> nat" where
  "rb_count rb = (if rb_read rb \<le> rb_write rb then rb_write rb - rb_read rb
                  else rb_write rb + rb_size rb - rb_read rb)"

definition rb_index :: "ring \<Rightarrow> nat \<Rightarrow> nat" where
  "rb_index rb k = (if Suc (rb_read rb + k) < rb_size rb then Suc (rb_read rb + k)
                    else Suc (rb_read rb + k) - rb_size rb)"

definition rb_contents :: "ring \<Rightarrow> u8 list" where
  "rb_contents rb = map (\<lambda>k. rb_buffer rb ! rb_index rb k) [0..<rb_count rb]"

lemma length_rb_contents [simp]: "length (rb_contents rb) = rb_count rb"
  by (simp add: rb_contents_def)

lemma rb_count_less: "rb_inv rb \<Longrightarrow> rb_count rb < rb_size rb"
  by (auto simp: rb_inv_def rb_count_def)

lemma rb_full_iff: "rb_inv rb \<Longrightarrow>
    (Suc (rb_write rb) mod 2 ^ 32) mod rb_size rb = rb_read rb \<longleftrightarrow> rb_count rb = rb_size rb - 1"
proof -
  assume inv: "rb_inv rb"
  then have "Suc (rb_write rb) < 2 ^ 32" by (auto simp: rb_inv_def)
  then have "(Suc (rb_write rb) mod 2 ^ 32) mod rb_size rb
      = (if Suc (rb_write rb) = rb_size rb then 0 else Suc (rb_write rb))"
    using inv by (auto simp: rb_inv_def)
  with inv show ?thesis by (auto simp: rb_inv_def rb_count_def)
qed

lemma rb_empty_iff: "rb_inv rb \<Longrightarrow> rb_write rb = rb_read rb \<longleftrightarrow> rb_count rb = 0"
  by (auto simp: rb_inv_def rb_count_def)

lemma push_one:
  fixes c :: u8
  assumes inv: "rb_inv rb" and room: "rb_count rb \<noteq> rb_size rb - 1"
  defines "rb' \<equiv> rb\<lparr>rb_write := rb_next_write rb,
    rb_buffer := (rb_buffer rb)[rb_next_write rb := c]\<rparr>"
  shows "rb_inv rb'" and "rb_contents rb' = rb_contents rb @ [c]"
    and "rb_next_write rb < length (rb_buffer rb)"
proof -
  show "rb_inv rb'" and nl: "rb_next_write rb < length (rb_buffer rb)"
    using inv by (auto simp: rb_inv_def rb'_def rb_next_write_def)
  have cnt: "rb_count rb' = Suc (rb_count rb)"
    using inv room by (auto simp: rb_inv_def rb'_def rb_next_write_def rb_count_def)
  have idx: "rb_index rb' k = rb_index rb k" for k
    by (simp add: rb_index_def rb'_def)
  have new: "rb_index rb (rb_count rb) = rb_next_write rb"
    using inv room by (auto simp: rb_inv_def rb_next_write_def rb_count_def rb_index_def)
  have old: "rb_index rb k \<noteq> rb_next_write rb" if "k < rb_count rb" for k
    using inv room that by (auto simp: rb_inv_def rb_next_write_def rb_count_def rb_index_def
        split: if_splits)
  have "rb_buffer rb' = (rb_buffer rb)[rb_next_write rb := c]"
    by (simp add: rb'_def)
  then show "rb_contents rb' = rb_contents rb @ [c]"
    using nl by (auto simp: rb_contents_def cnt idx new old [symmetric])
qed

lemma pop_one:
  assumes inv: "rb_inv rb" and some: "rb_count rb \<noteq> 0"
  defines "rb' \<equiv> rb\<lparr>rb_read := rb_next_read rb\<rparr>"
  shows "rb_inv rb'"
    and "rb_contents rb = rb_buffer rb ! rb_next_read rb # rb_contents rb'"
    and "rb_next_read rb < length (rb_buffer rb)"
proof -
  show "rb_inv rb'" and "rb_next_read rb < length (rb_buffer rb)"
    using inv by (auto simp: rb_inv_def rb'_def rb_next_read_def)
  have cnt: "rb_count rb = Suc (rb_count rb')"
    using inv some by (auto simp: rb_inv_def rb'_def rb_next_read_def rb_count_def)
  have first: "rb_index rb 0 = rb_next_read rb"
    using inv by (auto simp: rb_inv_def rb_next_read_def rb_index_def)
  have shift: "rb_index rb (Suc k) = rb_index rb' k" if "k < rb_count rb'" for k
    using inv some that by (auto simp: rb_inv_def rb'_def rb_next_read_def rb_index_def rb_count_def
        split: if_splits)
  have "rb_contents rb = rb_buffer rb ! rb_index rb 0
      # map (\<lambda>k. rb_buffer rb ! rb_index rb (Suc k)) [0..<rb_count rb']"
    unfolding rb_contents_def cnt by (simp add: upt_conv_Cons map_Suc_upt [symmetric] del: upt_Suc)
  also have "map (\<lambda>k. rb_buffer rb ! rb_index rb (Suc k)) [0..<rb_count rb'] = rb_contents rb'"
    by (auto simp: rb_contents_def rb'_def shift [unfolded rb'_def])
  finally show "rb_contents rb = rb_buffer rb ! rb_next_read rb # rb_contents rb'"
    by (simp add: first)
qed

section \<open>The two operations against the queue of stored bytes\<close>

text \<open>\<open>rb_room\<close> is the number of bytes that still fit: one slot always stays free.\<close>

definition rb_room :: "ring \<Rightarrow> nat" where
  "rb_room rb = rb_size rb - 1 - rb_count rb"

lemma push_loop_spec:
  assumes "rb_inv rb" and "i \<le> len" and "len \<le> length pData"
  shows "\<exists>rb'. push_loop rb pData i len =
      Some (if len - i \<le> rb_room rb then RINGBUFF_OK else RINGBUFF_FULL, rb')
    \<and> rb_inv rb' \<and> rb_size rb' = rb_size rb
    \<and> rb_contents rb' = rb_contents rb @ take (min (len - i) (rb_room rb)) (drop i pData)"
  using assms
proof (induction rb pData i len rule: push_loop.induct)
  case (1 rb pData i len)
  note inv = "1.prems"(1)
  show ?case
  proof (cases "i < len")
    case False
    with 1 show ?thesis by (simp add: push_loop.simps [of rb])
  next
    case lt: True
    show ?thesis
    proof (cases "rb_count rb = rb_size rb - 1")
      case True
      let ?r = "rb\<lparr>rb_full := True\<rparr>"
      have "rb_inv ?r" "rb_contents ?r = rb_contents rb"
        using inv by (simp_all add: rb_inv_def rb_contents_def rb_count_def rb_index_def)
      with lt True inv show ?thesis
        by (simp add: push_loop.simps [of rb] rb_full_iff [OF inv, simplified] rb_room_def)
    next
      case False
      let ?c = "pData ! i"
      let ?b = "(rb_buffer rb)[rb_next_write rb := ?c]"
      let ?r = "rb\<lparr>rb_write := rb_next_write rb, rb_buffer := ?b\<rparr>"
      note step = push_one(1,2) [OF inv False, where c = ?c] push_one(3) [OF inv False]
      have rd: "mem_read pData i = Some ?c" and wr: "mem_write (rb_buffer rb) (rb_next_write rb) ?c = Some ?b"
        using lt 1 step(3) by (simp_all add: mem_read_def mem_write_def)
      have cnt: "rb_count ?r = Suc (rb_count rb)"
        using step(2) by (metis length_rb_contents length_append_singleton)
      have "rb_count rb < rb_size rb" using inv by (rule rb_count_less)
      then have room: "rb_room rb = Suc (rb_room ?r)"
        using False by (simp add: rb_room_def cnt)
      have ih: "\<exists>rb'. push_loop ?r pData (Suc i) len =
          Some (if len - Suc i \<le> rb_room ?r then RINGBUFF_OK else RINGBUFF_FULL, rb')
        \<and> rb_inv rb' \<and> rb_size rb' = rb_size rb
        \<and> rb_contents rb' = rb_contents ?r @ take (min (len - Suc i) (rb_room ?r)) (drop (Suc i) pData)"
        using "1.IH" [OF lt _ rd wr] "1.prems" lt False step(1) rb_full_iff [OF inv] by simp
      have "drop i pData = ?c # drop (Suc i) pData"
        using lt 1 by (simp add: Cons_nth_drop_Suc)
      then have tk: "take (min (len - i) (rb_room rb)) (drop i pData)
          = ?c # take (min (len - Suc i) (rb_room ?r)) (drop (Suc i) pData)"
        using lt room by (simp add: min_def take_Cons')
      have "push_loop rb pData i len = push_loop ?r pData (Suc i) len"
        using lt False inv by (simp add: push_loop.simps [of rb pData i] rb_full_iff [OF inv, simplified] rd wr)
      moreover have "len - i \<le> rb_room rb \<longleftrightarrow> len - Suc i \<le> rb_room ?r"
        using room lt by auto
      ultimately show ?thesis using ih step(2) tk by auto
    qed
  qed
qed

lemma pop_loop_spec:
  assumes "rb_inv rb" and "i \<le> len" and "len \<le> length pData"
  shows "\<exists>rb' d. pop_loop rb pData i len = Some (int (i + min (len - i) (rb_count rb)), rb', d)
    \<and> rb_inv rb' \<and> rb_size rb' = rb_size rb
    \<and> rb_contents rb' = drop (min (len - i) (rb_count rb)) (rb_contents rb)
    \<and> d = overlay pData i (take (len - i) (rb_contents rb))"
  using assms
proof (induction rb pData i len rule: pop_loop.induct)
  case (1 rb pData i len)
  note inv = "1.prems"(1)
  show ?case
  proof (cases "i < len \<and> rb_count rb \<noteq> 0")
    case False
    then have "i = len \<or> rb_contents rb = []"
      using 1 by (metis le_neq_implies_less length_0_conv length_rb_contents)
    with False 1 show ?thesis
      by (auto simp: pop_loop.simps [of rb] rb_empty_iff)
  next
    case True
    then have lt: "i < len" and some: "rb_count rb \<noteq> 0" by auto
    let ?c = "rb_buffer rb ! rb_next_read rb"
    let ?r = "rb\<lparr>rb_read := rb_next_read rb\<rparr>"
    let ?d = "pData[i := ?c]"
    note step = pop_one [OF inv some]
    have rd: "mem_read (rb_buffer rb) (rb_next_read rb) = Some ?c" and wr: "mem_write pData i ?c = Some ?d"
      using lt 1 step(3) by (simp_all add: mem_read_def mem_write_def)
    have cnt: "rb_count rb = Suc (rb_count ?r)"
      using arg_cong [OF step(2), of length] by simp
    have ih: "\<exists>rb' d. pop_loop ?r ?d (Suc i) len = Some (int (Suc i + min (len - Suc i) (rb_count ?r)), rb', d)
        \<and> rb_inv rb' \<and> rb_size rb' = rb_size rb
        \<and> rb_contents rb' = drop (min (len - Suc i) (rb_count ?r)) (rb_contents ?r)
        \<and> d = overlay ?d (Suc i) (take (len - Suc i) (rb_contents ?r))"
      using "1.IH" [OF lt _ rd wr] "1.prems" lt some step(1) rb_empty_iff [OF inv] by simp
    have "pop_loop rb pData i len = pop_loop ?r ?d (Suc i) len"
      using lt some inv by (simp add: pop_loop.simps [of rb pData i] rb_empty_iff rd wr)
    moreover have m: "min (len - i) (rb_count rb) = Suc (min (len - Suc i) (rb_count ?r))"
      using lt cnt by arith
    moreover have "overlay ?d (Suc i) (take (len - Suc i) (rb_contents ?r))
        = overlay pData i (take (len - i) (rb_contents rb))"
    proof -
      have "take (len - i) (rb_contents rb) = ?c # take (len - Suc i) (rb_contents ?r)"
        using lt step(2) by (simp add: take_Cons')
      moreover have "Suc i + length (take (len - Suc i) (rb_contents ?r)) \<le> length pData"
        using lt "1.prems"(3) by simp
      ultimately show ?thesis
        using lt overlay_overlay [of i "[?c]" "take (len - Suc i) (rb_contents ?r)" pData]
        by (simp add: overlay_single del: length_take)
    qed
    ultimately show ?thesis using ih step(2) by auto
  qed
qed

lemma push_data_spec:
  assumes inv: "rb_inv rb" and len: "length xs < 2 ^ 31"
  defines "k \<equiv> (if length xs \<le> rb_size rb then min (length xs) (rb_room rb) else 0)"
  shows "\<exists>rb'. ring_buff_push_data rb xs (int (length xs)) =
      Some (if rb_size rb < length xs then RINGBUFF_TOO_SHORT
            else if length xs \<le> rb_room rb then RINGBUFF_OK else RINGBUFF_FULL, rb')
    \<and> rb_inv rb' \<and> rb_size rb' = rb_size rb
    \<and> rb_contents rb' = rb_contents rb @ take k xs"
proof -
  have "nat (int (length xs) mod 2 ^ 32) = length xs"
    using len by simp
  then show ?thesis
    using push_loop_spec [OF inv, of 0 "length xs" xs] inv
    by (auto simp: ring_buff_push_data_def k_def)
qed

lemma pop_data_spec:
  assumes inv: "rb_inv rb" and len: "n < 2 ^ 31" and room: "n \<le> length d"
  defines "k \<equiv> (if n \<le> rb_size rb then min n (rb_count rb) else 0)"
  shows "\<exists>rb' d'. ring_buff_pop_data rb d (int n) =
      Some (if rb_size rb < n then RINGBUFF_TOO_SHORT else int k, rb', d')
    \<and> rb_inv rb' \<and> rb_size rb' = rb_size rb
    \<and> rb_contents rb' = drop k (rb_contents rb)
    \<and> take k d' = take k (rb_contents rb)"
proof -
  have n: "nat (int n mod 2 ^ 32) = n"
    using len by simp
  have tk: "take (min n (rb_count rb)) (overlay d 0 (take n (rb_contents rb)))
      = take n (rb_contents rb)"
    using take_overlay [of 0 "take n (rb_contents rb)" d] room by (simp add: min.commute)
  have tc: "take n (rb_contents rb) = take (min n (rb_count rb)) (rb_contents rb)"
    by (simp add: min_def)
  have pd: "ring_buff_pop_data rb d (int n) =
      (if rb_size rb < n then Some (RINGBUFF_TOO_SHORT, rb, d) else pop_loop rb d 0 n)"
    by (simp add: ring_buff_pop_data_def n [simplified])
  show ?thesis
  proof (cases "rb_size rb < n")
    case True
    with inv pd show ?thesis by (simp add: k_def)
  next
    case False
    then have k: "k = min n (rb_count rb)" by (simp add: k_def)
    obtain rb' d' where "pop_loop rb d 0 n = Some (int k, rb', d')" "rb_inv rb'"
        "rb_size rb' = rb_size rb" "rb_contents rb' = drop k (rb_contents rb)"
        "d' = overlay d 0 (take n (rb_contents rb))"
      using pop_loop_spec [OF inv, of 0 n d] room k by auto
    with False pd tk tc k show ?thesis by simp
  qed
qed

section \<open>Interface: a first-in first-out byte buffer\<close>

text \<open>
  A client pushes and pops byte runs. \<open>fifo_run\<close> is a sequence of such calls; it returns the
  bytes that entered the buffer, the bytes that left it, and the final state.
\<close>

datatype fifo_op = FPush "u8 list" | FPop nat

fun fifo_run :: "('s \<Rightarrow> u8 list \<Rightarrow> (int \<times> 's) option) \<Rightarrow> ('s \<Rightarrow> nat \<Rightarrow> (u8 list \<times> 's) option)
    \<Rightarrow> ('s \<Rightarrow> nat) \<Rightarrow> 's \<Rightarrow> fifo_op list \<Rightarrow> (u8 list \<times> u8 list \<times> 's) option" where
  "fifo_run push pop cnt s [] = Some ([], [], s)"
| "fifo_run push pop cnt s (FPush xs # ops) = do {
     (rc, s1) \<leftarrow> push s xs;
     (ins, outs, s2) \<leftarrow> fifo_run push pop cnt s1 ops;
     Some (take (cnt s1 - cnt s) xs @ ins, outs, s2) }"
| "fifo_run push pop cnt s (FPop n # ops) = do {
     (ys, s1) \<leftarrow> pop s n;
     (ins, outs, s2) \<leftarrow> fifo_run push pop cnt s1 ops;
     Some (ins, ys @ outs, s2) }"

definition fifo_op_ok :: "fifo_op \<Rightarrow> bool" where
  "fifo_op_ok x = (case x of FPush xs \<Rightarrow> length xs < 2 ^ 31 | FPop n \<Rightarrow> n < 2 ^ 31)"

locale byte_fifo =
  fixes inv :: "'s \<Rightarrow> bool"
    and contents :: "'s \<Rightarrow> u8 list"
    and capacity :: "'s \<Rightarrow> nat"
    and push :: "'s \<Rightarrow> u8 list \<Rightarrow> (int \<times> 's) option"
    and pop :: "'s \<Rightarrow> nat \<Rightarrow> (u8 list \<times> 's) option"
  assumes push_law: "inv s \<Longrightarrow> length xs < 2 ^ 31 \<Longrightarrow> \<exists>rc s' k. push s xs = Some (rc, s')
      \<and> inv s' \<and> capacity s' = capacity s \<and> k \<le> length xs
      \<and> contents s' = contents s @ take k xs"
    and pop_law: "inv s \<Longrightarrow> n < 2 ^ 31 \<Longrightarrow> \<exists>ys s'. pop s n = Some (ys, s')
      \<and> inv s' \<and> capacity s' = capacity s \<and> contents s = ys @ contents s'"
    and bounded: "inv s \<Longrightarrow> length (contents s) \<le> capacity s"
begin

lemma run_fifo:
  assumes "inv s" and "\<forall>x \<in> set ops. fifo_op_ok x"
  shows "\<exists>ins outs s'. fifo_run push pop (\<lambda>s. length (contents s)) s ops = Some (ins, outs, s')
    \<and> inv s' \<and> capacity s' = capacity s
    \<and> contents s @ ins = outs @ contents s'"
  using assms
proof (induction ops arbitrary: s)
  case Nil
  then show ?case by simp
next
  case (Cons x ops)
  show ?case
  proof (cases x)
    case (FPush xs)
    with Cons.prems obtain rc s1 k where p: "push s xs = Some (rc, s1)" "inv s1"
        "capacity s1 = capacity s" "k \<le> length xs" "contents s1 = contents s @ take k xs"
      using push_law [of s xs] by (auto simp: fifo_op_ok_def)
    with Cons.IH [of s1] Cons.prems FPush show ?thesis by fastforce
  next
    case (FPop n)
    with Cons.prems obtain ys s1 where p: "pop s n = Some (ys, s1)" "inv s1"
        "capacity s1 = capacity s" "contents s = ys @ contents s1"
      using pop_law [of s n] by (auto simp: fifo_op_ok_def)
    with Cons.IH [of s1] Cons.prems FPop show ?thesis by fastforce
  qed
qed

lemma run_fifo_bounded:
  assumes "inv s" and "\<forall>x \<in> set ops. fifo_op_ok x"
    and "fifo_run push pop (\<lambda>s. length (contents s)) s ops = Some (ins, outs, s')"
  shows "length ins \<le> length outs + capacity s"
proof -
  have "inv s'" "capacity s' = capacity s" "contents s @ ins = outs @ contents s'"
    using run_fifo [OF assms(1,2)] assms(3) by auto
  moreover from \<open>inv s'\<close> have "length (contents s') \<le> capacity s'" by (rule bounded)
  moreover from \<open>contents s @ ins = outs @ contents s'\<close>
  have "length (contents s) + length ins = length outs + length (contents s')"
    by (metis length_append)
  ultimately show ?thesis by simp
qed

end

text \<open>The ring buffer as such a client sees it: whole-list pushes and pops into a fresh array.\<close>

definition rb_push_bytes :: "ring \<Rightarrow> u8 list \<Rightarrow> (int \<times> ring) option" where
  "rb_push_bytes rb xs = ring_buff_push_data rb xs (int (length xs))"

definition rb_pop_bytes :: "ring \<Rightarrow> nat \<Rightarrow> (u8 list \<times> ring) option" where
  "rb_pop_bytes rb n = do {
     (k, rb', d) \<leftarrow> ring_buff_pop_data rb (replicate n 0) (int n);
     Some (take (nat k) d, rb') }"

interpretation rb_fifo: byte_fifo rb_inv rb_contents "\<lambda>rb. rb_size rb - 1" rb_push_bytes rb_pop_bytes
proof
  fix rb :: ring and xs :: "u8 list"
  assume "rb_inv rb" and "length xs < 2 ^ 31"
  let ?k = "if length xs \<le> rb_size rb then min (length xs) (rb_room rb) else 0"
  from push_data_spec [OF \<open>rb_inv rb\<close> \<open>length xs < 2 ^ 31\<close>]
  obtain rc rb' where p: "ring_buff_push_data rb xs (int (length xs)) = Some (rc, rb')"
    "rb_inv rb'" "rb_size rb' = rb_size rb" "rb_contents rb' = rb_contents rb @ take ?k xs"
    by blast
  moreover have "?k \<le> length xs" by simp
  ultimately show "\<exists>rc s' k. rb_push_bytes rb xs = Some (rc, s') \<and> rb_inv s'
      \<and> rb_size s' - 1 = rb_size rb - 1 \<and> k \<le> length xs
      \<and> rb_contents s' = rb_contents rb @ take k xs"
    unfolding rb_push_bytes_def by metis
next
  fix rb :: ring and n :: nat
  assume inv: "rb_inv rb" and n: "n < 2 ^ 31"
  let ?k = "if n \<le> rb_size rb then min n (rb_count rb) else 0"
  obtain rb' d' where p: "ring_buff_pop_data rb (replicate n 0) (int n) =
      Some (if rb_size rb < n then RINGBUFF_TOO_SHORT else int ?k, rb', d')"
    "rb_inv rb'" "rb_size rb' = rb_size rb" "rb_contents rb' = drop ?k (rb_contents rb)"
    "take ?k d' = take ?k (rb_contents rb)"
    using pop_data_spec [OF inv n, of "replicate n 0"] by auto
  have "rb_pop_bytes rb n = Some (take ?k (rb_contents rb), rb')"
    using p(1,5) by (cases "n \<le> rb_size rb") (auto simp: rb_pop_bytes_def)
  then show "\<exists>ys s'. rb_pop_bytes rb n = Some (ys, s') \<and> rb_inv s'
      \<and> rb_size s' - 1 = rb_size rb - 1 \<and> rb_contents rb = ys @ rb_contents s'"
    using p by (metis append_take_drop_id)
next
  fix rb :: ring
  assume "rb_inv rb"
  then show "length (rb_contents rb) \<le> rb_size rb - 1"
    using rb_count_less [of rb] by simp
qed

lemma init_inv:
  assumes "0 < n" and "n < 2 ^ 31" and "n \<le> length buff"
  shows "\<exists>rb. ring_buff_init buff n = Some (RINGBUFF_OK, rb) \<and> rb_inv rb
    \<and> rb_size rb = n \<and> rb_contents rb = []"
  using assms by (auto simp: ring_buff_init_def mem_copy_def rb_inv_def rb_contents_def rb_count_def)

section \<open>Properties\<close>

text \<open>C20: A ring buffer initialised over an array of at least \<open>n\<close> bytes is a first-in first-out
  queue: for every sequence of push and pop calls no access leaves the array, the bytes popped are
  exactly the first of the bytes accepted, in order, the rest is still stored, and at most
  \<open>n - 1\<close> bytes are ever stored.\<close>

theorem ring_buffer_fifo:
  assumes "0 < n" and "n < 2 ^ 31" and "n \<le> length buff" and "\<forall>x \<in> set ops. fifo_op_ok x"
  shows "\<exists>rb ins outs rb'. ring_buff_init buff n = Some (RINGBUFF_OK, rb)
    \<and> fifo_run rb_push_bytes rb_pop_bytes (\<lambda>rb. length (rb_contents rb)) rb ops = Some (ins, outs, rb')
    \<and> ins = outs @ rb_contents rb' \<and> length (rb_contents rb') \<le> n - 1"
proof -
  obtain rb where rb: "ring_buff_init buff n = Some (RINGBUFF_OK, rb)" "rb_inv rb" "rb_size rb = n"
    "rb_contents rb = []"
    using init_inv [OF assms(1-3)] by blast
  obtain ins outs rb' where
    "fifo_run rb_push_bytes rb_pop_bytes (\<lambda>rb. length (rb_contents rb)) rb ops = Some (ins, outs, rb')"
    "rb_inv rb'" "rb_size rb' - 1 = rb_size rb - 1" "rb_contents rb @ ins = outs @ rb_contents rb'"
    using rb_fifo.run_fifo [OF rb(2) assms(4)] by auto
  with rb rb_fifo.bounded [of rb'] show ?thesis by auto
qed

theorem ring_buffer_fifo_witness:
  "\<exists>rb ins outs rb'. ring_buff_init [9, 9, 9, 9] 4 = Some (RINGBUFF_OK, rb)
    \<and> fifo_run rb_push_bytes rb_pop_bytes (\<lambda>rb. length (rb_contents rb)) rb
        [FPush [1, 2], FPop 1, FPush [3, 4, 5]] = Some (ins, outs, rb')
    \<and> ins = outs @ rb_contents rb' \<and> length (rb_contents rb') \<le> 4 - 1"
  by (rule ring_buffer_fifo) (simp_all add: fifo_op_ok_def)

text \<open>\<open>ring_buff_push_data\<close> is not atomic: a run of bytes that is no longer than the buffer
  but does not fit the free space is stored as far as it fits, and \<open>RINGBUFF_FULL\<close> is returned;
  a longer run is refused with \<open>RINGBUFF_TOO_SHORT\<close> and nothing is stored.\<close>

theorem ring_push_partial:
  assumes "rb_inv rb" and "length xs < 2 ^ 31" and "rb_room rb < length xs"
  shows "\<exists>rb'. ring_buff_push_data rb xs (int (length xs))
      = Some (if rb_size rb < length xs then RINGBUFF_TOO_SHORT else RINGBUFF_FULL, rb')
    \<and> rb_contents rb' = rb_contents rb @ take (if rb_size rb < length xs then 0 else rb_room rb) xs"
  using push_data_spec [OF assms(1,2)] assms(3) by (auto simp: min_def split: if_splits)

theorem ring_push_partial_witness:
  "\<exists>rb'. ring_buff_push_data \<lparr>rb_size = 3, rb_read = 0, rb_write = 1, rb_buffer = [0, 7, 0], rb_full = False\<rparr>
        [1, 2] (int (length [1, 2 :: u8]))
      = Some (if rb_size \<lparr>rb_size = 3, rb_read = 0, rb_write = 1, rb_buffer = [0, 7, 0 :: u8], rb_full = False\<rparr>
                < length [1, 2 :: u8] then RINGBUFF_TOO_SHORT else RINGBUFF_FULL, rb')
    \<and> rb_contents rb' = rb_contents \<lparr>rb_size = 3, rb_read = 0, rb_write = 1, rb_buffer = [0, 7, 0], rb_full = False\<rparr>
        @ take (if rb_size \<lparr>rb_size = 3, rb_read = 0, rb_write = 1, rb_buffer = [0, 7, 0 :: u8], rb_full = False\<rparr>
                < length [1, 2 :: u8] then 0
                else rb_room \<lparr>rb_size = 3, rb_read = 0, rb_write = 1, rb_buffer = [0, 7, 0], rb_full = False\<rparr>) [1, 2]"
  by (rule ring_push_partial) (simp_all add: rb_inv_def rb_room_def rb_count_def)

end
