(* ===== verification/Linked_List.thy ===== *)
theory Linked_List
  imports Qc_Prelude
begin

text \<open>
  \<^verbatim>\<open>utils_list.c\<close>: the doubly linked list that holds the MQTT client's wait lists. The nodes live
  in an explicit heap, because every operation works by updating the neighbours' pointers; a
  dereference of a null or freed pointer is \<open>None\<close>. \<open>list_repr\<close> relates a heap and a list header
  to the sequence of its nodes, and each operation is shown to be the corresponding operation on
  that sequence; the interface \<open>sequence_client\<close> lifts this to any history of calls.
\<close>

section \<open>Model\<close>

type_synonym addr = nat

record 'v ListNode =
  nd_prev :: "addr option"
  nd_next :: "addr option"
  nd_val :: 'v

type_synonym 'v heap = "addr \<Rightarrow> 'v ListNode option"

text \<open>
  The function pointers \<open>free\<close> and \<open>match\<close>: \<open>free\<close> is only recorded (the values it was called
  with are \<open>l_freed\<close>), \<open>match\<close> is a function or null.
\<close>

record 'v List_hdr =
  l_head :: "addr option"
  l_tail :: "addr option"
  l_len :: nat
  l_free :: bool
  l_match :: "('v \<Rightarrow> 'v \<Rightarrow> bool) option"

record 'v lstate =
  ls_heap :: "'v heap"
  ls_list :: "'v List_hdr"
  ls_freed :: "'v list"

datatype ListDirection = LIST_HEAD | LIST_TAIL

record ListIterator =
  it_next :: "addr option"
  it_direction :: ListDirection

definition set_next :: "addr \<Rightarrow> addr option \<Rightarrow> 'v heap \<Rightarrow> 'v heap option" where
  "set_next a n h = do { nd \<leftarrow> h a; Some (h(a \<mapsto> nd\<lparr>nd_next := n\<rparr>)) }"

definition set_prev :: "addr \<Rightarrow> addr option \<Rightarrow> 'v heap \<Rightarrow> 'v heap option" where
  "set_prev a n h = do { nd \<leftarrow> h a; Some (h(a \<mapsto> nd\<lparr>nd_prev := n\<rparr>)) }"

text \<open>\<open>HAL_Malloc\<close> returns null or the address of an unused block: the argument \<open>m\<close>.\<close>

definition list_new :: "addr option \<Rightarrow> 'v List_hdr option" where
  "list_new m = (case m of None \<Rightarrow> None
     | Some _ \<Rightarrow> Some \<lparr>l_head = None, l_tail = None, l_len = 0, l_free = False, l_match = None\<rparr>)"

definition list_node_new :: "addr option \<Rightarrow> 'v \<Rightarrow> 'v lstate \<Rightarrow> addr option \<times> 'v lstate" where
  "list_node_new m v s = (case m of None \<Rightarrow> (None, s)
     | Some a \<Rightarrow> (Some a, s\<lparr>ls_heap := (ls_heap s)(a \<mapsto> \<lparr>nd_prev = None, nd_next = None, nd_val = v\<rparr>)\<rparr>))"

definition list_rpush :: "addr option \<Rightarrow> 'v lstate \<Rightarrow> (addr option \<times> 'v lstate) option" where
  "list_rpush node s = (case node of None \<Rightarrow> Some (None, s)
     | Some a \<Rightarrow> let l = ls_list s; h = ls_heap s in
         if l_len l \<noteq> 0 then do {
           h \<leftarrow> set_prev a (l_tail l) h;
           h \<leftarrow> set_next a None h;
           t \<leftarrow> l_tail l;
           h \<leftarrow> set_next t (Some a) h;
           Some (Some a, s\<lparr>ls_heap := h,
             ls_list := l\<lparr>l_tail := Some a, l_len := Suc (l_len l) mod 2 ^ 32\<rparr>\<rparr>)
         } else do {
           h \<leftarrow> set_next a None h;
           h \<leftarrow> set_prev a None h;
           Some (Some a, s\<lparr>ls_heap := h,
             ls_list := l\<lparr>l_head := Some a, l_tail := Some a, l_len := Suc (l_len l) mod 2 ^ 32\<rparr>\<rparr>)
         })"

definition list_lpush :: "addr option \<Rightarrow> 'v lstate \<Rightarrow> (addr option \<times> 'v lstate) option" where
  "list_lpush node s = (case node of None \<Rightarrow> Some (None, s)
     | Some a \<Rightarrow> let l = ls_list s; h = ls_heap s in
         if l_len l \<noteq> 0 then do {
           h \<leftarrow> set_next a (l_head l) h;
           h \<leftarrow> set_prev a None h;
           t \<leftarrow> l_head l;
           h \<leftarrow> set_prev t (Some a) h;
           Some (Some a, s\<lparr>ls_heap := h,
             ls_list := l\<lparr>l_head := Some a, l_len := Suc (l_len l) mod 2 ^ 32\<rparr>\<rparr>)
         } else do {
           h \<leftarrow> set_next a None h;
           h \<leftarrow> set_prev a None h;
           Some (Some a, s\<lparr>ls_heap := h,
             ls_list := l\<lparr>l_head := Some a, l_tail := Some a, l_len := Suc (l_len l) mod 2 ^ 32\<rparr>\<rparr>)
         })"

definition list_rpop :: "'v lstate \<Rightarrow> (addr option \<times> 'v lstate) option" where
  "list_rpop s = (let l = ls_list s; h = ls_heap s in
     if l_len l = 0 then Some (None, s)
     else do {
       (h, l) \<leftarrow> (if l_len l - 1 \<noteq> 0 then do {
           a \<leftarrow> l_tail l;
           nd \<leftarrow> h a;
           t \<leftarrow> nd_prev nd;
           h \<leftarrow> set_next t None h;
           Some (h, l\<lparr>l_tail := Some t, l_len := l_len l - 1\<rparr>)
         } else Some (h, l\<lparr>l_tail := None, l_head := None, l_len := l_len l - 1\<rparr>));
       a \<leftarrow> l_tail (ls_list s);
       h \<leftarrow> set_prev a None h;
       h \<leftarrow> set_next a None h;
       Some (Some a, s\<lparr>ls_heap := h, ls_list := l\<rparr>)
     })"

definition list_lpop :: "'v lstate \<Rightarrow> (addr option \<times> 'v lstate) option" where
  "list_lpop s = (let l = ls_list s; h = ls_heap s in
     if l_len l = 0 then Some (None, s)
     else do {
       (h, l) \<leftarrow> (if l_len l - 1 \<noteq> 0 then do {
           a \<leftarrow> l_head l;
           nd \<leftarrow> h a;
           t \<leftarrow> nd_next nd;
           h \<leftarrow> set_prev t None h;
           Some (h, l\<lparr>l_head := Some t, l_len := l_len l - 1\<rparr>)
         } else Some (h, l\<lparr>l_head := None, l_tail := None, l_len := l_len l - 1\<rparr>));
       a \<leftarrow> l_head (ls_list s);
       h \<leftarrow> set_prev a None h;
       h \<leftarrow> set_next a None h;
       Some (Some a, s\<lparr>ls_heap := h, ls_list := l\<rparr>)
     })"

definition list_remove :: "addr \<Rightarrow> 'v lstate \<Rightarrow> 'v lstate option" where
  "list_remove a s = (let l = ls_list s; h = ls_heap s in do {
     nd \<leftarrow> h a;
     (h, l) \<leftarrow> (case nd_prev nd of
         Some p \<Rightarrow> do { h \<leftarrow> set_next p (nd_next nd) h; Some (h, l) }
       | None \<Rightarrow> Some (h, l\<lparr>l_head := nd_next nd\<rparr>));
     nd \<leftarrow> h a;
     (h, l) \<leftarrow> (case nd_next nd of
         Some n \<Rightarrow> do { h \<leftarrow> set_prev n (nd_prev nd) h; Some (h, l) }
       | None \<Rightarrow> Some (h, l\<lparr>l_tail := nd_prev nd\<rparr>));
     nd \<leftarrow> h a;
     Some (s\<lparr>ls_heap := h(a := None),
       ls_list := (if l_len l \<noteq> 0 then l\<lparr>l_len := l_len l - 1\<rparr> else l),
       ls_freed := (if l_free l then ls_freed s @ [nd_val nd] else ls_freed s)\<rparr>)
   })"

definition list_iterator_new_from_node :: "bool \<Rightarrow> addr option \<Rightarrow> ListDirection \<Rightarrow> ListIterator option" where
  "list_iterator_new_from_node m node d = (if m then Some \<lparr>it_next = node, it_direction = d\<rparr> else None)"

definition list_iterator_new :: "bool \<Rightarrow> 'v List_hdr \<Rightarrow> ListDirection \<Rightarrow> ListIterator option" where
  "list_iterator_new m l d =
     list_iterator_new_from_node m (if d = LIST_HEAD then l_head l else l_tail l) d"

definition list_iterator_next :: "'v heap \<Rightarrow> ListIterator \<Rightarrow> (addr option \<times> ListIterator) option" where
  "list_iterator_next h it = (case it_next it of None \<Rightarrow> Some (None, it)
     | Some a \<Rightarrow> do {
         nd \<leftarrow> h a;
         Some (Some a, it\<lparr>it_next := (if it_direction it = LIST_HEAD then nd_next nd else nd_prev nd)\<rparr>)
       })"

text \<open>
  The search loop. A list whose pointers form a cycle is followed for ever: then the value
  is \<open>None\<close>.
\<close>

definition node_matches :: "'v List_hdr \<Rightarrow> 'v \<Rightarrow> 'v \<Rightarrow> bool" where
  "node_matches l v w = (case l_match l of Some m \<Rightarrow> m v w | None \<Rightarrow> v = w)"

partial_function (option) find_loop ::
    "'v heap \<Rightarrow> 'v List_hdr \<Rightarrow> 'v \<Rightarrow> ListIterator \<Rightarrow> addr option \<Rightarrow> addr option option" where
  "find_loop h l v it node = (case node of None \<Rightarrow> Some None
     | Some a \<Rightarrow> do {
         nd \<leftarrow> h a;
         if node_matches l v (nd_val nd) then Some (Some a)
         else do { (node', it') \<leftarrow> list_iterator_next h it; find_loop h l v it' node' }
       })"

definition list_find :: "bool \<Rightarrow> 'v \<Rightarrow> 'v lstate \<Rightarrow> addr option option" where
  "list_find m v s = (case list_iterator_new m (ls_list s) LIST_HEAD of None \<Rightarrow> Some None
     | Some it \<Rightarrow> do {
         (node, it) \<leftarrow> list_iterator_next (ls_heap s) it;
         find_loop (ls_heap s) (ls_list s) v it node
       })"

primrec at_loop :: "'v heap \<Rightarrow> nat \<Rightarrow> ListIterator \<Rightarrow> addr option \<Rightarrow> addr option option" where
  "at_loop h 0 it node = Some node"
| "at_loop h (Suc i) it node = do { (node', it') \<leftarrow> list_iterator_next h it; at_loop h i it' node' }"

definition list_at :: "bool \<Rightarrow> int \<Rightarrow> 'v lstate \<Rightarrow> addr option option" where
  "list_at m index s = (
     let direction = (if index < 0 then LIST_TAIL else LIST_HEAD);
         index = (if index < 0 then - index - 1 else index) in
     if nat index < l_len (ls_list s) then
       (case list_iterator_new m (ls_list s) direction of None \<Rightarrow> Some None
        | Some it \<Rightarrow> do {
            (node, it) \<leftarrow> list_iterator_next (ls_heap s) it;
            at_loop (ls_heap s) (nat index) it node
          })
     else Some None)"

text \<open>The heap without the destroyed nodes, and the values \<open>free\<close> was called with.\<close>

primrec destroy_loop :: "nat \<Rightarrow> bool \<Rightarrow> addr option \<Rightarrow> 'v heap \<Rightarrow> 'v list \<Rightarrow> ('v heap \<times> 'v list) option" where
  "destroy_loop 0 fr node h vs = Some (h, vs)"
| "destroy_loop (Suc len) fr node h vs = do {
     a \<leftarrow> node;
     nd \<leftarrow> h a;
     destroy_loop len fr (nd_next nd) (h(a := None)) (if fr then vs @ [nd_val nd] else vs)
   }"

definition list_destroy :: "'v lstate \<Rightarrow> ('v heap \<times> 'v list) option" where
  "list_destroy s = destroy_loop (l_len (ls_list s)) (l_free (ls_list s)) (l_head (ls_list s))
     (ls_heap s) (ls_freed s)"

section \<open>Representation\<close>

text \<open>
  \<open>dseg h p ns n\<close>: the nodes \<open>ns\<close> (address and value) are linked in the heap in both
  directions, \<open>p\<close> before the first and \<open>n\<close> behind the last.
\<close>

fun first_or :: "(addr \<times> 'v) list \<Rightarrow> addr option \<Rightarrow> addr option" where
  "first_or [] n = n"
| "first_or ((a, v) # ns) n = Some a"

fun last_or :: "(addr \<times> 'v) list \<Rightarrow> addr option \<Rightarrow> addr option" where
  "last_or [] p = p"
| "last_or ((a, v) # ns) p = last_or ns (Some a)"

fun dseg :: "'v heap \<Rightarrow> addr option \<Rightarrow> (addr \<times> 'v) list \<Rightarrow> addr option \<Rightarrow> bool" where
  "dseg h p [] n = True"
| "dseg h p ((a, v) # ns) n \<longleftrightarrow>
     h a = Some \<lparr>nd_prev = p, nd_next = first_or ns n, nd_val = v\<rparr> \<and> dseg h (Some a) ns n"

definition list_repr :: "'v lstate \<Rightarrow> (addr \<times> 'v) list \<Rightarrow> bool" where
  "list_repr s ns \<longleftrightarrow> dseg (ls_heap s) None ns None \<and> distinct (map fst ns)
     \<and> l_head (ls_list s) = first_or ns None \<and> l_tail (ls_list s) = last_or ns None
     \<and> l_len (ls_list s) = length ns"

lemma first_or_append [simp]: "first_or (xs @ ys) n = first_or xs (first_or ys n)"
  by (induction xs n rule: first_or.induct) auto

lemma last_or_append [simp]: "last_or (xs @ ys) p = last_or ys (last_or xs p)"
  by (induction xs p rule: last_or.induct) auto

lemma dseg_append [simp]:
  "dseg h p (xs @ ys) n \<longleftrightarrow> dseg h p xs (first_or ys n) \<and> dseg h (last_or xs p) ys n"
  by (induction h p xs n rule: dseg.induct) auto

lemma dseg_frame: "\<forall>a \<in> set (map fst ns). h' a = h a \<Longrightarrow> dseg h' p ns n = dseg h p ns n"
  by (induction h p ns n rule: dseg.induct) auto

lemma dseg_upd [simp]: "a \<notin> fst ` set ns \<Longrightarrow> dseg (h(a := x)) p ns n = dseg h p ns n"
  by (rule dseg_frame) auto

lemma dseg_dom: "dseg h p ns n \<Longrightarrow> a \<in> fst ` set ns \<Longrightarrow> h a \<noteq> None"
  by (induction h p ns n rule: dseg.induct) auto

lemma rpush_repr:
  assumes "list_repr s ns" and "ls_heap s a = Some nd" and "a \<notin> fst ` set ns"
    and "Suc (length ns) < 2 ^ 32"
  shows "\<exists>s'. list_rpush (Some a) s = Some (Some a, s') \<and> list_repr s' (ns @ [(a, nd_val nd)])
    \<and> ls_freed s' = ls_freed s \<and> dom (ls_heap s') = dom (ls_heap s)
    \<and> l_free (ls_list s') = l_free (ls_list s) \<and> l_match (ls_list s') = l_match (ls_list s)"
proof (cases ns rule: rev_cases)
  case Nil
  with assms show ?thesis
    by (auto simp: list_rpush_def list_repr_def Let_def set_next_def set_prev_def)
next
  case (snoc ms x)
  obtain b w where x: "x = (b, w)" by (cases x)
  have [simp]: "Suc (Suc (length ms)) mod 4294967296 = Suc (Suc (length ms))"
    using assms(4) snoc by simp
  from assms snoc x show ?thesis
    by (auto simp: list_rpush_def list_repr_def Let_def set_next_def set_prev_def)
qed

lemma lpush_repr:
  assumes "list_repr s ns" and "ls_heap s a = Some nd" and "a \<notin> fst ` set ns"
    and "Suc (length ns) < 2 ^ 32"
  shows "\<exists>s'. list_lpush (Some a) s = Some (Some a, s') \<and> list_repr s' ((a, nd_val nd) # ns)
    \<and> ls_freed s' = ls_freed s \<and> dom (ls_heap s') = dom (ls_heap s)
    \<and> l_free (ls_list s') = l_free (ls_list s) \<and> l_match (ls_list s') = l_match (ls_list s)"
proof (cases ns)
  case Nil
  with assms show ?thesis
    by (auto simp: list_lpush_def list_repr_def Let_def set_next_def set_prev_def)
next
  case (Cons x ms)
  obtain b w where x: "x = (b, w)" by (cases x)
  have [simp]: "Suc (Suc (length ms)) mod 4294967296 = Suc (Suc (length ms))"
    using assms(4) Cons by simp
  from assms Cons x show ?thesis
    by (auto simp: list_lpush_def list_repr_def Let_def set_next_def set_prev_def)
qed

lemma rpop_repr:
  assumes "list_repr s ns"
  shows "\<exists>s'. list_rpop s = Some (last_or ns None, s') \<and> list_repr s' (butlast ns)
    \<and> ls_freed s' = ls_freed s \<and> dom (ls_heap s') = dom (ls_heap s)
    \<and> l_free (ls_list s') = l_free (ls_list s) \<and> l_match (ls_list s') = l_match (ls_list s)"
proof (cases ns rule: rev_cases)
  case Nil
  with assms show ?thesis by (simp add: list_rpop_def list_repr_def)
next
  case (snoc ms x)
  obtain b w where x: "x = (b, w)" by (cases x)
  show ?thesis
  proof (cases ms rule: rev_cases)
    case Nil
    with assms snoc x show ?thesis
      by (auto simp: list_rpop_def list_repr_def Let_def set_next_def set_prev_def)
  next
    case (snoc ks y)
    obtain c z where "y = (c, z)" by (cases y)
    with assms \<open>ns = ms @ [x]\<close> snoc x show ?thesis
      by (auto simp: butlast_append list_rpop_def list_repr_def Let_def set_next_def set_prev_def)
  qed
qed

lemma lpop_repr:
  assumes "list_repr s ns"
  shows "\<exists>s'. list_lpop s = Some (first_or ns None, s') \<and> list_repr s' (tl ns)
    \<and> ls_freed s' = ls_freed s \<and> dom (ls_heap s') = dom (ls_heap s)
    \<and> l_free (ls_list s') = l_free (ls_list s) \<and> l_match (ls_list s') = l_match (ls_list s)"
proof (cases ns)
  case Nil
  with assms show ?thesis by (simp add: list_lpop_def list_repr_def)
next
  case (Cons x ms)
  obtain b w where x: "x = (b, w)" by (cases x)
  show ?thesis
  proof (cases ms)
    case Nil
    with assms Cons x show ?thesis
      by (auto simp: list_lpop_def list_repr_def Let_def set_next_def set_prev_def)
  next
    case (Cons y ks)
    obtain c z where "y = (c, z)" by (cases y)
    with assms \<open>ns = x # ms\<close> Cons x show ?thesis
      by (auto simp: list_lpop_def list_repr_def Let_def set_next_def set_prev_def)
  qed
qed

lemma remove_repr:
  assumes "list_repr s (xs @ (a, v) # ys)"
  shows "\<exists>s'. list_remove a s = Some s' \<and> list_repr s' (xs @ ys)
    \<and> ls_freed s' = (if l_free (ls_list s) then ls_freed s @ [v] else ls_freed s)
    \<and> dom (ls_heap s') = dom (ls_heap s) - {a}
    \<and> l_free (ls_list s') = l_free (ls_list s) \<and> l_match (ls_list s') = l_match (ls_list s)"
proof (cases xs rule: rev_cases)
  case Nil
  show ?thesis
  proof (cases ys)
    case Nil
    with assms \<open>xs = []\<close> show ?thesis
      by (auto simp: list_remove_def list_repr_def Let_def set_next_def set_prev_def)
  next
    case (Cons y ks)
    obtain c z where "y = (c, z)" by (cases y)
    with assms \<open>xs = []\<close> Cons show ?thesis
      by (auto simp: list_remove_def list_repr_def Let_def set_next_def set_prev_def)
  qed
next
  case (snoc ms x)
  obtain b w where x: "x = (b, w)" by (cases x)
  show ?thesis
  proof (cases ys)
    case Nil
    with assms snoc x show ?thesis
      by (auto simp: list_remove_def list_repr_def Let_def set_next_def set_prev_def)
  next
    case (Cons y ks)
    obtain c z where "y = (c, z)" by (cases y)
    with assms snoc x Cons show ?thesis
      by (auto simp: list_remove_def list_repr_def Let_def set_next_def set_prev_def)
  qed
qed

lemma iterator_next_head:
  "dseg h p ns n \<Longrightarrow> ns \<noteq> [] \<Longrightarrow> it_direction it = LIST_HEAD \<Longrightarrow> it_next it = first_or ns n \<Longrightarrow>
    list_iterator_next h it = Some (first_or ns n, it\<lparr>it_next := first_or (tl ns) n\<rparr>)"
  by (cases "(h, p, ns, n)" rule: dseg.cases) (auto simp: list_iterator_next_def)

lemma iterator_next_tail:
  assumes "dseg h p ns n" and "ns \<noteq> []" and "it_direction it = LIST_TAIL" and "it_next it = last_or ns p"
  shows "list_iterator_next h it = Some (last_or ns p, it\<lparr>it_next := last_or (butlast ns) p\<rparr>)"
proof -
  obtain ms a v where "ns = ms @ [(a, v)]"
    using assms(2) by (metis rev_exhaust surj_pair)
  with assms show ?thesis by (simp add: list_iterator_next_def)
qed

lemma find_loop_repr:
  assumes "dseg h p ns None" and "it_direction it = LIST_HEAD"
    and "list_iterator_next h it0 = Some (node, it)" and "it_direction it0 = LIST_HEAD"
    and "it_next it0 = first_or ns None"
  shows "find_loop h l v it node
    = Some (map_option fst (List.find (\<lambda>(a, w). node_matches l v w) ns))"
  using assms
proof (induction h p ns "None :: addr option" arbitrary: it it0 node rule: dseg.induct)
  case (1 h p)
  then show ?case by (auto simp: list_iterator_next_def find_loop.simps)
next
  case (2 h p a w ns)
  then have h: "h a = Some \<lparr>nd_prev = p, nd_next = first_or ns None, nd_val = w\<rparr>"
    and seg: "dseg h (Some a) ns None" and node: "node = Some a"
    and it: "it_next it = first_or ns None"
    by (auto simp: list_iterator_next_def)
  show ?case
  proof (cases "node_matches l v w")
    case True
    then show ?thesis by (simp add: find_loop.simps [of h l v it] node h)
  next
    case False
    obtain node' it' where n: "list_iterator_next h it = Some (node', it')"
      and d: "it_direction it' = LIST_HEAD"
      using it seg "2.prems"(2)
      by (cases "(h, Some a, ns, None :: addr option)" rule: dseg.cases)
         (auto simp: list_iterator_next_def)
    have "find_loop h l v it node = find_loop h l v it' node'"
      using False by (simp add: find_loop.simps [of h l v it] node h n)
    also have "\<dots> = Some (map_option fst (List.find (\<lambda>(a, w). node_matches l v w) ns))"
      using "2.hyps" [OF seg d n "2.prems"(2) it] .
    finally show ?thesis using False by simp
  qed
qed

lemma find_repr:
  assumes "list_repr s ns"
  shows "list_find True v s
    = Some (map_option fst (List.find (\<lambda>(a, w). node_matches (ls_list s) v w) ns))"
proof -
  let ?it = "\<lparr>it_next = first_or ns None, it_direction = LIST_HEAD\<rparr>"
  have seg: "dseg (ls_heap s) None ns None" and hd: "l_head (ls_list s) = first_or ns None"
    using assms by (auto simp: list_repr_def)
  obtain node it' where n: "list_iterator_next (ls_heap s) ?it = Some (node, it')"
    and d: "it_direction it' = LIST_HEAD"
    using seg by (cases "(ls_heap s, None :: addr option, ns, None :: addr option)" rule: dseg.cases)
      (auto simp: list_iterator_next_def)
  show ?thesis
    using find_loop_repr [OF seg d n] hd n
    by (simp add: list_find_def list_iterator_new_def list_iterator_new_from_node_def)
qed

lemma at_loop_head:
  "dseg h p ns None \<Longrightarrow> it_direction it = LIST_HEAD \<Longrightarrow> i < length ns \<Longrightarrow> it_next it = first_or (tl ns) None
    \<Longrightarrow> at_loop h i it (first_or ns None) = Some (Some (fst (ns ! i)))"
proof (induction i arbitrary: p ns it)
  case 0
  then show ?case by (cases ns) auto
next
  case (Suc i)
  then obtain a v ms where ns: "ns = (a, v) # ms" by (cases ns) auto
  moreover from ns Suc.prems(3) have "ms \<noteq> []" by auto
  ultimately have "list_iterator_next h it
      = Some (first_or ms None, it\<lparr>it_next := first_or (tl ms) None\<rparr>)"
    using Suc.prems by (intro iterator_next_head [of h "Some a"]) auto
  with ns Suc.prems Suc.IH [of "Some a" ms "it\<lparr>it_next := first_or (tl ms) None\<rparr>"]
  show ?case by simp
qed

lemma at_loop_tail:
  "dseg h None ns n \<Longrightarrow> it_direction it = LIST_TAIL \<Longrightarrow> i < length ns \<Longrightarrow> it_next it = last_or (butlast ns) None
    \<Longrightarrow> at_loop h i it (last_or ns None) = Some (Some (fst (ns ! (length ns - Suc i))))"
proof (induction i arbitrary: n ns it)
  case 0
  then show ?case by (cases ns rule: rev_cases) auto
next
  case (Suc i)
  then obtain a v ms where ns: "ns = ms @ [(a, v)]" by (cases ns rule: rev_cases) auto
  moreover from ns Suc.prems(3) have "ms \<noteq> []" by auto
  ultimately have "list_iterator_next h it
      = Some (last_or ms None, it\<lparr>it_next := last_or (butlast ms) None\<rparr>)"
    using Suc.prems by (intro iterator_next_tail [of h None ms "Some a"]) auto
  with ns Suc.prems Suc.IH [of ms "Some a" "it\<lparr>it_next := last_or (butlast ms) None\<rparr>"]
  show ?case by (auto simp: nth_append)
qed

lemma at_repr:
  assumes "list_repr s ns"
  shows "list_at True i s = Some (
    if 0 \<le> i \<and> nat i < length ns then Some (fst (ns ! nat i))
    else if i < 0 \<and> nat (- i) \<le> length ns then Some (fst (ns ! (length ns - nat (- i))))
    else None)"
proof -
  have seg: "dseg (ls_heap s) None ns None" and hd: "l_head (ls_list s) = first_or ns None"
    and tl: "l_tail (ls_list s) = last_or ns None" and len: "l_len (ls_list s) = length ns"
    using assms by (auto simp: list_repr_def)
  consider "0 \<le> i" "nat i < length ns" | "i < 0" "nat (- i - 1) < length ns"
    | "\<not> nat (if i < 0 then - i - 1 else i) < length ns" by force
  then show ?thesis
  proof cases
    case 1
    let ?it = "\<lparr>it_next = first_or ns None, it_direction = LIST_HEAD\<rparr>"
    have "list_iterator_next (ls_heap s) ?it = Some (first_or ns None, ?it\<lparr>it_next := first_or (tl ns) None\<rparr>)"
      using 1 seg by (intro iterator_next_head [of _ None]) auto
    with 1 at_loop_head [OF seg, of "?it\<lparr>it_next := first_or (tl ns) None\<rparr>" "nat i"] hd len
    show ?thesis by (simp add: list_at_def list_iterator_new_def list_iterator_new_from_node_def)
  next
    case 2
    let ?it = "\<lparr>it_next = last_or ns None, it_direction = LIST_TAIL\<rparr>"
    have "list_iterator_next (ls_heap s) ?it = Some (last_or ns None, ?it\<lparr>it_next := last_or (butlast ns) None\<rparr>)"
      using 2 seg by (intro iterator_next_tail [of _ _ _ None]) auto
    moreover have "length ns - Suc (nat (- i - 1)) = length ns - nat (- i)" using 2 by simp
    ultimately show ?thesis
      using 2 at_loop_tail [OF seg, of "?it\<lparr>it_next := last_or (butlast ns) None\<rparr>" "nat (- i - 1)"] tl len
      by (simp add: list_at_def list_iterator_new_def list_iterator_new_from_node_def)
  next
    case 3
    then show ?thesis using len by (auto simp: list_at_def Let_def)
  qed
qed

lemma destroy_loop_repr:
  "dseg h p ns None \<Longrightarrow> distinct (map fst ns) \<Longrightarrow>
    destroy_loop (length ns) fr (first_or ns None) h vs
      = Some (\<lambda>a. if a \<in> fst ` set ns then None else h a, if fr then vs @ map snd ns else vs)"
proof (induction ns arbitrary: h p vs)
  case Nil
  then show ?case by simp
next
  case (Cons x ns)
  obtain a v where x: "x = (a, v)" by (cases x)
  let ?vs = "if fr then vs @ [v] else vs"
  have "dseg (h(a := None)) (Some a) ns None" "distinct (map fst ns)"
    using Cons.prems x by auto
  note ih = Cons.IH [OF this, of ?vs]
  have "(\<lambda>b. if b \<in> fst ` set ns then None else (h(a := None)) b)
      = (\<lambda>b. if b \<in> fst ` set (x # ns) then None else h b)"
    using x by auto
  moreover have "destroy_loop (length (x # ns)) fr (first_or (x # ns) None) h vs
      = destroy_loop (length ns) fr (first_or ns None) (h(a := None)) ?vs"
    using Cons.prems x by simp
  ultimately show ?case using ih x by simp
qed

lemma destroy_repr:
  assumes "list_repr s ns"
  shows "\<exists>h. list_destroy s = Some (h, if l_free (ls_list s) then ls_freed s @ map snd ns else ls_freed s)
    \<and> dom h = dom (ls_heap s) - fst ` set ns"
proof -
  have seg: "dseg (ls_heap s) None ns None" "distinct (map fst ns)"
    and l: "l_head (ls_list s) = first_or ns None" "l_len (ls_list s) = length ns"
    using assms by (auto simp: list_repr_def)
  from destroy_loop_repr [OF seg, of "l_free (ls_list s)" "ls_freed s"]
  show ?thesis by (auto simp: list_destroy_def l dom_def)
qed

section \<open>Interface: a list of owned nodes\<close>

text \<open>
  What a client of the list relies on. The abstract state is the sequence of nodes with the set
  of allocated addresses; a step that allocates a node gets an address outside that set.
\<close>

datatype 'v list_op = RPush addr 'v | LPush addr 'v | RPop | LPop | Remove addr

type_synonym 'v seq_state = "(addr \<times> 'v) list \<times> addr set"

fun seq_step :: "'v list_op \<Rightarrow> 'v seq_state \<Rightarrow> addr option \<times> 'v seq_state" where
  "seq_step (RPush a v) (ns, A) = (Some a, ns @ [(a, v)], insert a A)"
| "seq_step (LPush a v) (ns, A) = (Some a, (a, v) # ns, insert a A)"
| "seq_step RPop (ns, A) = (last_or ns None, butlast ns, A)"
| "seq_step LPop (ns, A) = (first_or ns None, tl ns, A)"
| "seq_step (Remove a) (ns, A) = (None, filter (\<lambda>x. fst x \<noteq> a) ns, A - {a})"

fun seq_ok :: "'v list_op \<Rightarrow> 'v seq_state \<Rightarrow> bool" where
  "seq_ok (RPush a v) (ns, A) = (a \<notin> A \<and> Suc (length ns) < 2 ^ 32)"
| "seq_ok (LPush a v) (ns, A) = (a \<notin> A \<and> Suc (length ns) < 2 ^ 32)"
| "seq_ok RPop (ns, A) = True"
| "seq_ok LPop (ns, A) = True"
| "seq_ok (Remove a) (ns, A) = (a \<in> fst ` set ns)"

fun seq_run :: "'v list_op list \<Rightarrow> 'v seq_state \<Rightarrow> addr option list \<times> 'v seq_state" where
  "seq_run [] t = ([], t)"
| "seq_run (x # xs) t = (let (r, t1) = seq_step x t; (rs, t2) = seq_run xs t1 in (r # rs, t2))"

fun seq_legal :: "'v list_op list \<Rightarrow> 'v seq_state \<Rightarrow> bool" where
  "seq_legal [] t = True"
| "seq_legal (x # xs) t = (seq_ok x t \<and> seq_legal xs (snd (seq_step x t)))"

fun impl_run :: "('v list_op \<Rightarrow> 's \<Rightarrow> (addr option \<times> 's) option) \<Rightarrow> 'v list_op list \<Rightarrow> 's
    \<Rightarrow> (addr option list \<times> 's) option" where
  "impl_run step [] s = Some ([], s)"
| "impl_run step (x # xs) s = do {
     (r, s1) \<leftarrow> step x s; (rs, s2) \<leftarrow> impl_run step xs s1; Some (r # rs, s2) }"

locale sequence_client =
  fixes repr :: "'s \<Rightarrow> 'v seq_state \<Rightarrow> bool"
    and step :: "'v list_op \<Rightarrow> 's \<Rightarrow> (addr option \<times> 's) option"
  assumes step_law: "repr s t \<Longrightarrow> seq_ok x t \<Longrightarrow>
    \<exists>s'. step x s = Some (fst (seq_step x t), s') \<and> repr s' (snd (seq_step x t))"
begin

lemma run_refines: "repr s t \<Longrightarrow> seq_legal xs t \<Longrightarrow>
    \<exists>s'. impl_run step xs s = Some (fst (seq_run xs t), s') \<and> repr s' (snd (seq_run xs t))"
proof (induction xs arbitrary: s t)
  case Nil
  then show ?case by simp
next
  case (Cons x xs)
  then obtain s1 where s1: "step x s = Some (fst (seq_step x t), s1)" "repr s1 (snd (seq_step x t))"
    using step_law [of s t x] by auto
  from Cons.IH [OF s1(2)] Cons.prems(2) s1(1) show ?case
    by (auto simp: case_prod_beta Let_def)
qed

end

text \<open>One call of the client on the heap: pushes allocate the node first.\<close>

fun list_step :: "'v list_op \<Rightarrow> 'v lstate \<Rightarrow> (addr option \<times> 'v lstate) option" where
  "list_step (RPush a v) s = (let (node, s) = list_node_new (Some a) v s in list_rpush node s)"
| "list_step (LPush a v) s = (let (node, s) = list_node_new (Some a) v s in list_lpush node s)"
| "list_step RPop s = list_rpop s"
| "list_step LPop s = list_lpop s"
| "list_step (Remove a) s = map_option (Pair None) (list_remove a s)"

definition owned_repr :: "'v lstate \<Rightarrow> 'v seq_state \<Rightarrow> bool" where
  "owned_repr s t \<longleftrightarrow> list_repr s (fst t) \<and> dom (ls_heap s) = snd t"

lemma node_new_repr:
  assumes "list_repr s ns" and "ls_heap s a = None"
  shows "list_repr (snd (list_node_new (Some a) v s)) ns"
    and "a \<notin> fst ` set ns"
proof -
  show notin: "a \<notin> fst ` set ns"
    using assms dseg_dom [of "ls_heap s" None ns None a] by (auto simp: list_repr_def)
  then show "list_repr (snd (list_node_new (Some a) v s)) ns"
    using assms by (simp add: list_repr_def list_node_new_def)
qed

interpretation linked_list: sequence_client "owned_repr :: 'v lstate \<Rightarrow> 'v seq_state \<Rightarrow> bool" list_step
proof
  fix s :: "'v lstate" and t :: "'v seq_state" and x :: "'v list_op"
  assume rep: "owned_repr s t" and ok: "seq_ok x t"
  obtain ns A where t: "t = (ns, A)" by (cases t)
  have r: "list_repr s ns" and d: "dom (ls_heap s) = A"
    using rep t by (auto simp: owned_repr_def)
  let ?goal = "\<lambda>x. \<exists>s'. list_step x s = Some (fst (seq_step x t), s') \<and> owned_repr s' (snd (seq_step x t))"
  have push: "list_repr (snd (list_node_new (Some a) v s)) ns" "a \<notin> fst ` set ns"
    "ls_heap (snd (list_node_new (Some a) v s)) a = Some \<lparr>nd_prev = None, nd_next = None, nd_val = v\<rparr>"
    "fst (list_node_new (Some a) v s) = Some a"
    "dom (ls_heap (snd (list_node_new (Some a) v s))) = insert a A"
    if "a \<notin> A" for a and v :: 'v
    using that d r node_new_repr(1) [OF r, of a v] node_new_repr(2) [OF r, of a] by (auto simp: list_node_new_def)
  show "?goal x"
  proof (cases x)
    case (RPush a v)
    with ok t have fresh: "a \<notin> A" and len: "Suc (length ns) < 2 ^ 32" by auto
    note p = push(1,3,4,5) [OF fresh, of v]
    from rpush_repr [OF p(1,2) push(2) [OF fresh] len] p(3,4) RPush t show ?thesis
      by (auto simp: owned_repr_def case_prod_beta)
  next
    case (LPush a v)
    with ok t have fresh: "a \<notin> A" and len: "Suc (length ns) < 2 ^ 32" by auto
    note p = push(1,3,4,5) [OF fresh, of v]
    from lpush_repr [OF p(1,2) push(2) [OF fresh] len] p(3,4) LPush t show ?thesis
      by (auto simp: owned_repr_def case_prod_beta)
  next
    case RPop
    with rpop_repr [OF r] t d show ?thesis by (auto simp: owned_repr_def)
  next
    case LPop
    with lpop_repr [OF r] t d show ?thesis by (auto simp: owned_repr_def)
  next
    case (Remove a)
    with ok t obtain xs v ys where ns: "ns = xs @ (a, v) # ys"
      by (force dest: split_list)
    then have "a \<notin> fst ` set xs" "a \<notin> fst ` set ys" using r by (auto simp: list_repr_def)
    then have "filter (\<lambda>x. fst x \<noteq> a) xs = xs" "filter (\<lambda>x. fst x \<noteq> a) ys = ys"
      by (force intro!: filter_True)+
    then have "filter (\<lambda>x. fst x \<noteq> a) ns = xs @ ys" using ns by simp
    with remove_repr [of s xs a v ys] r ns t d Remove show ?thesis by (auto simp: owned_repr_def)
  qed
qed

section \<open>Properties\<close>

definition empty_list :: "bool \<Rightarrow> 'v lstate" where
  "empty_list fr = \<lparr>ls_heap = Map.empty,
     ls_list = \<lparr>l_head = None, l_tail = None, l_len = 0, l_free = fr, l_match = None\<rparr>, ls_freed = []\<rparr>"

lemma empty_list_repr: "owned_repr (empty_list fr) ([], {})"
  by (simp add: owned_repr_def list_repr_def empty_list_def)

text \<open>C21: Every history of calls on a new list that allocates fresh nodes and removes only nodes
  of the list behaves like the same history on the plain sequence of nodes: no call dereferences
  a null or freed pointer, each returns the address the sequence operation returns, and
  afterwards the heap represents the resulting sequence in both directions and holds no other
  block than the sequence model says is allocated.\<close>

theorem list_history_refines:
  assumes "seq_legal xs ([], {})"
  shows "\<exists>s'. impl_run list_step xs (empty_list fr) = Some (fst (seq_run xs ([], {})), s')
    \<and> list_repr s' (fst (snd (seq_run xs ([], {})))) \<and> dom (ls_heap s') = snd (snd (seq_run xs ([], {})))"
  using linked_list.run_refines [OF empty_list_repr assms] by (auto simp: owned_repr_def)

theorem list_history_refines_witness:
  "\<exists>s'. impl_run list_step [RPush 1 (5 :: nat), LPush 2 6, RPush 3 7, Remove 1, RPop] (empty_list False)
      = Some ([Some 1, Some 2, Some 3, None, Some 3], s')
    \<and> list_repr s' [(2, 6)] \<and> dom (ls_heap s') = {2, 3}"
  using list_history_refines [of "[RPush 1 (5 :: nat), LPush 2 6, RPush 3 7, Remove 1, RPop]" False]
  by (simp add: insert_commute insert_Diff_if)

text \<open>On a heap that represents the sequence \<open>ns\<close>, \<open>list_find\<close> returns the first node whose
  value matches (by the \<open>match\<close> function, or by equality of the pointers when it is null),
  \<open>list_at\<close> indexes from the head, with a negative index from the tail, and returns null out of
  range, and \<open>list_destroy\<close> frees exactly the nodes of the list and calls \<open>free\<close> on their values
  in order.\<close>

theorem list_queries:
  assumes "list_repr s ns"
  shows "list_find True v s
      = Some (map_option fst (List.find (\<lambda>(a, w). node_matches (ls_list s) v w) ns))
    \<and> list_at True i s = Some (
        if 0 \<le> i \<and> nat i < length ns then Some (fst (ns ! nat i))
        else if i < 0 \<and> nat (- i) \<le> length ns then Some (fst (ns ! (length ns - nat (- i))))
        else None)
    \<and> (\<exists>h. list_destroy s = Some (h, if l_free (ls_list s) then ls_freed s @ map snd ns else ls_freed s)
        \<and> dom h = dom (ls_heap s) - fst ` set ns)"
  using find_repr [OF assms] at_repr [OF assms] destroy_repr [OF assms] by simp

definition two_nodes :: "nat lstate" where
  "two_nodes = \<lparr>ls_heap = [1 \<mapsto> \<lparr>nd_prev = None, nd_next = Some 2, nd_val = 5\<rparr>,
       2 \<mapsto> \<lparr>nd_prev = Some 1, nd_next = None, nd_val = 6\<rparr>],
     ls_list = \<lparr>l_head = Some 1, l_tail = Some 2, l_len = 2, l_free = True, l_match = None\<rparr>, ls_freed = []\<rparr>"

theorem list_queries_witness:
  "list_find True 6 two_nodes = Some (Some 2) \<and> list_at True (- 1) two_nodes = Some (Some 2)
    \<and> (\<exists>h. list_destroy two_nodes = Some (h, [5, 6]) \<and> dom h = {})"
proof -
  have "list_repr two_nodes [(1, 5), (2, 6)]" by (simp add: list_repr_def two_nodes_def)
  from list_queries [OF this, of 6 "- 1"] show ?thesis
    by (simp add: two_nodes_def node_matches_def)
qed

end
