(* ===== verification/Qc_Words.thy ===== *)
theory Qc_Words
  imports Qc_Prelude
begin

text \<open>
  Arithmetic readings of the bit operations on 32-bit words that the hashes, the ciphers and the
  encoders use: masks as remainders, shifts and disjoint disjunctions as sums, bytes of a word,
  rotation.
\<close>

section \<open>Masks\<close>

lemma unat_mask:
  assumes "m = 2 ^ k - 1"
  shows "unat ((x :: 'a :: len word) AND of_nat m) = unat x mod 2 ^ k"
proof -
  have "x AND of_nat m = take_bit k x"
    using assms by (simp add: take_bit_eq_mask mask_eq_exp_minus_1 of_nat_diff)
  then show ?thesis by (simp only: unsigned_take_bit_eq) (simp add: take_bit_eq_mod)
qed

lemma low_six: "unat ((x :: u32) AND 0x3F) = unat x mod 64"
proof -
  have "x AND 0x3F = take_bit 6 x" by (simp add: take_bit_eq_mask mask_eq_exp_minus_1)
  then show ?thesis by (simp add: unsigned_take_bit_eq take_bit_eq_mod unat_mod_distrib)
qed

lemma all_bits [simp]: "(x :: u32) AND 0xFFFFFFFF = x"
proof -
  have "(0xFFFFFFFF :: u32) = -1" by simp
  then show ?thesis by (metis and.right_neutral)
qed

section \<open>Words and bytes\<close>

lemma rotl_or:
  assumes "0 < n" "n < 32"
  shows "push_bit n x OR drop_bit (32 - n) x = word_rotl n (x :: u32)"
proof (rule bit_word_eqI)
  fix i
  assume i: "i < LENGTH(32)"
  have "(i + 32 - n) mod 32 = (if n \<le> i then i - n else 32 + i - n)"
  proof (cases "n \<le> i")
    case True
    then have "i + 32 - n = 32 + (i - n)" by simp
    moreover have "i - n < 32" using i by simp
    ultimately have "(i + 32 - n) mod 32 = i - n" by (simp only: mod_add_self1 mod_less)
    then show ?thesis using True by simp
  qed (use i assms in auto)
  then show "bit (push_bit n x OR drop_bit (32 - n) x) i \<longleftrightarrow> bit (word_rotl n x) i"
    using i assms by (auto simp: bit_or_iff bit_push_bit_iff bit_drop_bit_eq bit_word_rotl_iff
        dest: bit_imp_le_length)
qed

lemma unat_push_bit: "unat (c :: u32) * 2 ^ k < 2 ^ 32 \<Longrightarrow> unat (push_bit k c) = unat c * 2 ^ k"
  by (simp add: unsigned_push_bit_eq) (simp add: take_bit_eq_mod push_bit_eq_mult)

lemma or_low:
  assumes "unat y < 2 ^ k"
  shows "push_bit k x OR y = push_bit k x + (y :: 'a :: len word)"
proof -
  have "\<not> bit y n" if "k \<le> n" for n
  proof -
    have "unat y < 2 ^ n" using assms that power_increasing [of k n "2 :: nat"] by linarith
    then show ?thesis using bit_iff_odd [of "unat y" n] by (simp add: bit_unsigned_iff)
  qed
  then have "push_bit k x AND y = 0" by (intro bit_word_eqI) (auto simp: bit_and_iff bit_push_bit_iff)
  then show ?thesis by (simp add: disjunctive_add_eq_or)
qed

lemma bytes_word:
  "push_bit 24 (ucast a) OR push_bit 16 (ucast b) OR push_bit 8 (ucast c) OR ucast (d :: u8)
    = (of_nat (256 * (256 * (256 * unat (a :: u8) + unat (b :: u8)) + unat (c :: u8)) + unat d) :: u32)"
proof -
  have lt: "unat a < 256" "unat b < 256" "unat c < 256" "unat d < 256" by (rule byte_lt)+
  have u: "unat (ucast x :: u32) = unat x" for x :: u8
    using byte_lt [of x] by (simp add: unsigned_ucast_eq take_bit_nat_eq_self)
  have p: "unat (push_bit 8 (ucast c :: u32)) = unat c * 256" "unat (push_bit 16 (ucast b :: u32)) = unat b * 65536"
    using lt by (simp_all add: unat_push_bit u)
  have e1: "push_bit 8 (ucast c) OR ucast d = push_bit 8 (ucast c) + (ucast d :: u32)"
    using lt by (intro or_low) (simp add: u)
  have u1: "unat (push_bit 8 (ucast c) + (ucast d :: u32)) = unat c * 256 + unat d"
    using lt by (simp add: unat_word_ariths p u)
  have e2: "push_bit 16 (ucast b) OR (push_bit 8 (ucast c) + (ucast d :: u32)) = push_bit 16 (ucast b) + (push_bit 8 (ucast c) + ucast d)"
    using lt u1 by (intro or_low) simp
  have u2: "unat (push_bit 16 (ucast b) + (push_bit 8 (ucast c) + (ucast d :: u32))) = unat b * 65536 + unat c * 256 + unat d"
    using lt by (simp add: unat_word_ariths p u)
  have e3: "push_bit 24 (ucast a) OR (push_bit 16 (ucast b) + (push_bit 8 (ucast c) + (ucast d :: u32)))
      = push_bit 24 (ucast a) + (push_bit 16 (ucast b) + (push_bit 8 (ucast c) + ucast d))"
    using lt u2 by (intro or_low) simp
  show ?thesis unfolding e1 e2 e3 or.assoc by (simp add: push_bit_eq_mult algebra_simps)
qed

lemma byte_of_word: "ucast (drop_bit (8 * i) (x :: u32)) = (of_nat (unat x div 256 ^ i) :: u8)"
proof -
  have "unat x div 256 ^ i = drop_bit (8 * i) (unat x)"
    using power_mult [of "2 :: nat" 8 i] by (simp add: drop_bit_eq_div)
  then show ?thesis
    by (intro bit_word_eqI) (auto simp: bit_simps bit_of_nat_iff)
qed

lemma take4: "i + 4 \<le> length b \<Longrightarrow> take 4 (drop i b) = [b ! i, b ! (i + 1), b ! (i + 2), b ! (i + 3)]"
  by (simp add: numeral_eq_Suc take_Suc_conv_app_nth)

lemma byte_all_bits [simp]: "(x :: u8) AND 0xff = x"
proof -
  have "(0xff :: u8) = -1" by simp
  then show ?thesis by (metis and.right_neutral)
qed

section \<open>Packed fields of natural numbers\<close>

lemma or_nat_low:
  assumes "b < 2 ^ k"
  shows "push_bit k a OR b = 2 ^ k * a + (b :: nat)"
proof -
  have "\<not> bit b n" if "k \<le> n" for n
  proof -
    have "b < 2 ^ n" using assms that power_increasing [of k n "2 :: nat"] by linarith
    then show ?thesis by (simp add: bit_iff_odd)
  qed
  then have "push_bit k a AND b = 0" by (intro bit_eqI) (auto simp: bit_and_iff bit_push_bit_iff)
  then show ?thesis by (simp add: disjunctive_add_eq_or [symmetric] push_bit_eq_mult)
qed

lemma and_nat_field:
  assumes "a < 2 ^ k" and "m = 2 ^ k - 1"
  shows "a AND m = (a :: nat)"
proof -
  have "a AND m = take_bit k a" using assms(2) by (simp add: take_bit_eq_mask mask_eq_exp_minus_1)
  then show ?thesis using assms(1) by (simp add: take_bit_nat_eq_self)
qed

end
