(* ===== verification/Hash_Stream.thy ===== *)
theory Hash_Stream
  imports Qc_Words
begin

text \<open>
  The streaming part that \<^verbatim>\<open>utils_sha1.c\<close> and \<^verbatim>\<open>utils_md5.c\<close> have in common, text for text:
  a context with a byte count in two words, the chaining state and a block buffer, and the
  functions update and finish that feed blocks to the compression function. The
  compression function and the byte order are the parameters; \<open>Hash_Sha1\<close> and \<open>Hash_Md5\<close> apply
  them to the two hashes.

  \<open>md_reference\<close> is the one-shot definition of the standards: pad the message to whole blocks and
  fold the compression function over them. The interface \<open>md_hash\<close> is what a client of a hash
  may rely on, and \<open>md_run\<close> is the law that the streaming functions compute the reference
  for any way of cutting the message into pieces.
\<close>

section \<open>The context and its operations\<close>

record md_context =
  total0 :: u32
  total1 :: u32
  md_state :: "u32 list"
  md_buffer :: buffer

type_synonym compression = "u32 list \<Rightarrow> buffer \<Rightarrow> u32 list"

text \<open>The loop over the whole blocks of the input: the new state and the bytes that are left.\<close>

function md_blocks :: "compression \<Rightarrow> u32 list \<Rightarrow> buffer \<Rightarrow> u32 list \<times> buffer" where
  "md_blocks process st input =
     (if length input \<ge> 64 then md_blocks process (process st (take 64 input)) (drop 64 input)
      else (st, input))"
  by pat_completeness auto
termination by (relation "measure (\<lambda>(_, _, i). length i)") auto

declare md_blocks.simps [simp del]

text \<open>The byte count, with its carry.\<close>

definition md_count :: "nat \<Rightarrow> md_context \<Rightarrow> md_context" where
  "md_count ilen ctx =
     (let ctx = ctx\<lparr>total0 := (total0 ctx + of_nat ilen) AND 0xFFFFFFFF\<rparr> in
      if total0 ctx < of_nat ilen then ctx\<lparr>total1 := total1 ctx + 1\<rparr> else ctx)"

text \<open>The whole blocks of the input, and what is left of it into the buffer.\<close>

definition md_tail :: "compression \<Rightarrow> nat \<Rightarrow> buffer \<Rightarrow> md_context \<Rightarrow> md_context option" where
  "md_tail process left input ctx = (let (st, input) = md_blocks process (md_state ctx) input in
     if length input > 0 then do {
       b \<leftarrow> mem_copy (md_buffer ctx) left input;
       Some (ctx\<lparr>md_state := st, md_buffer := b\<rparr>) }
     else Some (ctx\<lparr>md_state := st\<rparr>))"

definition md_update :: "compression \<Rightarrow> buffer \<Rightarrow> md_context \<Rightarrow> md_context option" where
  "md_update process input ctx =
     (if length input = 0 then Some ctx
      else do {
        let left = unat (total0 ctx AND 0x3F);
        let fill = 64 - left;
        let ctx = md_count (length input) ctx;
        if left \<noteq> 0 \<and> length input \<ge> fill then do {
          b \<leftarrow> mem_copy (md_buffer ctx) left (take fill input);
          md_tail process 0 (drop fill input)
            (ctx\<lparr>md_buffer := b, md_state := process (md_state ctx) b\<rparr>) }
        else md_tail process left input ctx })"

text \<open>The bytes appended by finish; \<open>msglen\<close> lays out the bit count, \<open>out\<close> the digest.\<close>

definition md_padding :: buffer where
  "md_padding = 0x80 # replicate 63 0"

definition md_finish :: "compression \<Rightarrow> (u32 \<Rightarrow> u32 \<Rightarrow> buffer) \<Rightarrow> (u32 list \<Rightarrow> buffer)
    \<Rightarrow> md_context \<Rightarrow> (buffer \<times> md_context) option" where
  "md_finish process msglen out ctx = do {
     let high = (drop_bit 29 (total0 ctx)) OR (push_bit 3 (total1 ctx));
     let low = push_bit 3 (total0 ctx);
     let last = unat (total0 ctx AND 0x3F);
     let padn = (if last < 56 then 56 - last else 120 - last);
     pad \<leftarrow> mem_slice md_padding 0 padn;
     ctx \<leftarrow> md_update process pad ctx;
     ctx \<leftarrow> md_update process (msglen high low) ctx;
     Some (out (md_state ctx), ctx) }"

section \<open>Reference\<close>

text \<open>
  Padding as the standards state it: a one bit, the least number of zeros that leaves room for the
  bit length in the last block, and the length.
\<close>

definition md_pad :: "(u32 \<Rightarrow> u32 \<Rightarrow> buffer) \<Rightarrow> buffer \<Rightarrow> buffer" where
  "md_pad msglen m = m @ 0x80 # replicate (nat ((55 - int (length m)) mod 64)) 0
     @ msglen (of_nat (8 * length m div 2 ^ 32)) (of_nat (8 * length m))"

definition md_reference :: "compression \<Rightarrow> u32 list \<Rightarrow> (u32 \<Rightarrow> u32 \<Rightarrow> buffer) \<Rightarrow> (u32 list \<Rightarrow> buffer)
    \<Rightarrow> buffer \<Rightarrow> buffer" where
  "md_reference process iv msglen out m = out (fst (md_blocks process iv (md_pad msglen m)))"

section \<open>Blocks\<close>

lemma md_blocks_short [simp]: "length xs < 64 \<Longrightarrow> md_blocks process st xs = (st, xs)"
  by (subst md_blocks.simps) simp

lemma md_blocks_rest:
  "length (snd (md_blocks process st xs)) = length xs mod 64"
  by (induction process st xs rule: md_blocks.induct)
    (subst md_blocks.simps, auto simp: le_mod_geq not_le)

lemma md_blocks_append:
  "md_blocks process st (xs @ ys)
    = (let (st', r) = md_blocks process st xs in md_blocks process st' (r @ ys))"
proof (induction process st xs rule: md_blocks.induct)
  case (1 process st xs)
  show ?case
  proof (cases "64 \<le> length xs")
    case True
    then show ?thesis
      using 1 by (subst md_blocks.simps, subst (2) md_blocks.simps) simp
  qed simp
qed

lemma md_blocks_full:
  "length b = 64 \<Longrightarrow> md_blocks process st (b @ ys) = md_blocks process (process st b) ys"
  by (subst md_blocks.simps) simp

text \<open>Compression functions that agree on blocks.\<close>

lemma md_blocks_cong:
  assumes "\<And>st b. length b = 64 \<Longrightarrow> f st b = g st b"
  shows "md_blocks f st xs = md_blocks g st xs"
  using assms
proof (induction f st xs rule: md_blocks.induct)
  case (1 f st xs)
  then show ?case
    by (cases "64 \<le> length xs") (subst md_blocks.simps, subst (2) md_blocks.simps, simp_all)
qed

lemma md_blocks_state_length:
  assumes "\<And>st b. length b = 64 \<Longrightarrow> length (f st b) = n" and "length st = n"
  shows "length (fst (md_blocks f st xs)) = n"
  using assms
proof (induction f st xs rule: md_blocks.induct)
  case (1 f st xs)
  then show ?case by (subst md_blocks.simps) simp
qed

section \<open>What a context stands for\<close>

text \<open>
  A context represents the bytes fed so far: the count modulo \<open>2 ^ 64\<close>, the state behind their
  whole blocks, and the remaining bytes at the start of the buffer.
\<close>

definition md_rep :: "compression \<Rightarrow> u32 list \<Rightarrow> buffer \<Rightarrow> md_context \<Rightarrow> bool" where
  "md_rep process iv m ctx \<longleftrightarrow> length (md_buffer ctx) = 64
     \<and> unat (total0 ctx) = length m mod 2 ^ 32 \<and> unat (total1 ctx) = length m div 2 ^ 32 mod 2 ^ 32
     \<and> md_blocks process iv m = (md_state ctx, take (length m mod 64) (md_buffer ctx))"

text \<open>The count in two words: the carry is detected by comparing with the addend.\<close>

lemma count_carry:
  assumes "unat (a :: u32) = n mod 2 ^ 32" and "unat (h :: u32) = n div 2 ^ 32 mod 2 ^ 32" and "k < 2 ^ 32"
  shows "unat (a + of_nat k) = (n + k) mod 2 ^ 32"
    and "unat (if a + of_nat k < of_nat k then h + 1 else h) = (n + k) div 2 ^ 32 mod 2 ^ 32"
proof -
  have k: "unat (of_nat k :: u32) = k" using assms(3) by (simp add: unat_of_nat)
  show sum: "unat (a + of_nat k) = (n + k) mod 2 ^ 32"
    by (simp add: unat_word_ariths assms(1) k mod_add_left_eq)
  let ?r = "n mod 2 ^ 32"
  have split: "n + k = 2 ^ 32 * (n div 2 ^ 32) + (?r + k)" by simp
  have r: "?r < 2 ^ 32" by simp
  have div: "(n + k) div 2 ^ 32 = n div 2 ^ 32 + (?r + k) div 2 ^ 32"
    using div_mult_self4 [of "2 ^ 32 :: nat" "n div 2 ^ 32" "?r + k"] split by (metis power_not_zero zero_neq_numeral)
  show "unat (if a + of_nat k < of_nat k then h + 1 else h) = (n + k) div 2 ^ 32 mod 2 ^ 32"
  proof (cases "?r + k < 2 ^ 32")
    case True
    then have "(n + k) mod 2 ^ 32 = ?r + k" by (metis mod_add_left_eq mod_less)
    then have "\<not> a + of_nat k < of_nat k" by (simp add: word_less_nat_alt sum k)
    then show ?thesis unfolding div using True by (simp add: assms(2))
  next
    case False
    then have e: "?r + k = 2 ^ 32 + (?r + k - 2 ^ 32)" and l: "?r + k - 2 ^ 32 < 2 ^ 32"
      using r assms(3) by auto
    have "(n + k) mod 2 ^ 32 = (?r + k) mod 2 ^ 32" by (simp add: mod_add_left_eq)
    also have "\<dots> = ?r + k - 2 ^ 32" using e l by (metis mod_add_self1 mod_less)
    finally have "a + of_nat k < of_nat k" using r False by (simp add: word_less_nat_alt sum k)
    moreover have "(?r + k) div 2 ^ 32 = 1" using e l by (intro div_nat_eqI) auto
    ultimately show ?thesis unfolding div by (simp add: unat_word_ariths assms(2) mod_Suc_eq)
  qed
qed

lemma md_count_simps [simp]:
  "total0 (md_count k ctx) = total0 ctx + of_nat k"
  "total1 (md_count k ctx) = (if total0 ctx + of_nat k < of_nat k then total1 ctx + 1 else total1 ctx)"
  "md_state (md_count k ctx) = md_state ctx" "md_buffer (md_count k ctx) = md_buffer ctx"
  by (simp_all add: md_count_def Let_def)

lemma md_rep_start: "length (md_buffer ctx) = 64 \<Longrightarrow> md_state ctx = iv \<Longrightarrow> total0 ctx = 0 \<Longrightarrow> total1 ctx = 0
    \<Longrightarrow> md_rep process iv [] ctx"
  by (simp add: md_rep_def)

lemma md_tail_eq:
  assumes "md_blocks process (md_state ctx) xs = (st, r)" and "left + length r \<le> length (md_buffer ctx)"
  shows "md_tail process left xs ctx = Some (ctx\<lparr>md_state := st, md_buffer := overlay (md_buffer ctx) left r\<rparr>)"
  using assms by (simp add: md_tail_def mem_copy_def)

text \<open>Updating appends, whatever the amount of buffered bytes, and never leaves the buffer.\<close>

lemma md_update_rep:
  assumes "md_rep process iv m ctx" and "length xs < 2 ^ 32"
  shows "\<exists>ctx'. md_update process xs ctx = Some ctx' \<and> md_rep process iv (m @ xs) ctx'"
proof (cases "xs = []")
  case True
  then show ?thesis using assms by (simp add: md_update_def)
next
  case False
  define left where "left = length m mod 64"
  define c where "c = md_count (length xs) ctx"
  let ?r = "take left (md_buffer ctx)"
  have buf: "length (md_buffer c) = 64" and same: "md_buffer c = md_buffer ctx" "md_state c = md_state ctx"
    and bl: "md_blocks process iv m = (md_state c, ?r)"
    using assms(1) by (simp_all add: md_rep_def c_def left_def)
  have left: "unat (total0 ctx AND 0x3F) = left" "left < 64"
    using assms(1) mod_mod_cancel [of 64 "2 ^ 32" "length m"] by (simp_all add: low_six md_rep_def left_def)
  have tot: "unat (total0 c) = length (m @ xs) mod 2 ^ 32" "unat (total1 c) = length (m @ xs) div 2 ^ 32 mod 2 ^ 32"
    using count_carry [of "total0 ctx" "length m" "total1 ctx" "length xs"] assms
    unfolding c_def md_count_simps length_append md_rep_def by blast+
  have all: "md_blocks process iv (m @ xs) = md_blocks process (md_state c) (?r @ xs)"
    using md_blocks_append [of process iv m xs] by (simp add: bl)
  note upd = md_update_def [of process xs ctx, unfolded Let_def left(1), folded c_def]
  show ?thesis
  proof (cases "left \<noteq> 0 \<and> 64 - left \<le> length xs")
    case True
    let ?fill = "64 - left"
    define B where "B = overlay (md_buffer c) left (take ?fill xs)"
    let ?c = "c\<lparr>md_buffer := B, md_state := process (md_state c) B\<rparr>"
    have cp: "mem_copy (md_buffer c) left (take ?fill xs) = Some B"
      and b: "B = ?r @ take ?fill xs" "length B = 64"
      using left True buf same by (auto simp: mem_copy_def overlay_def B_def)
    obtain st r where r: "md_blocks process (process (md_state c) B) (drop ?fill xs) = (st, r)" by force
    have fin: "md_blocks process iv (m @ xs) = (st, r)"
      using md_blocks_full [OF b(2), of process "md_state c" "drop ?fill xs"] r unfolding all b(1) by simp
    then have rl: "length r = length (m @ xs) mod 64" using md_blocks_rest [of process iv "m @ xs"] by simp
    have lt: "length r < 64" unfolding rl by simp
    have "md_update process xs ctx = Some (?c\<lparr>md_state := st, md_buffer := overlay B 0 r\<rparr>)"
      using False True md_tail_eq [of process ?c "drop ?fill xs" st r 0] r lt b(2) by (simp add: upd cp)
    moreover have "md_rep process iv (m @ xs) (?c\<lparr>md_state := st, md_buffer := overlay B 0 r\<rparr>)"
      using fin lt b(2) tot rl by (simp add: md_rep_def overlay_def)
    ultimately show ?thesis by blast
  next
    case no: False
    obtain st r where r: "md_blocks process (md_state c) xs = (st, r)" by force
    have short: "left = 0 \<or> (st = md_state c \<and> r = xs \<and> left + length xs < 64)"
      using no r by (auto simp: not_le)
    have fin: "md_blocks process iv (m @ xs) = (st, ?r @ r)"
      using short buf by (auto simp: all r)
    then have rl: "left + length r = length (m @ xs) mod 64"
      using md_blocks_rest [of process iv "m @ xs"] left(2) buf same by simp
    have lt: "left + length r < 64" unfolding rl by simp
    have "md_update process xs ctx = Some (c\<lparr>md_state := st, md_buffer := overlay (md_buffer c) left r\<rparr>)"
      using False no md_tail_eq [of process c xs st r left] r lt buf by (auto simp: upd)
    moreover have "md_rep process iv (m @ xs) (c\<lparr>md_state := st, md_buffer := overlay (md_buffer c) left r\<rparr>)"
      using fin lt buf tot same take_overlay [of left r "md_buffer c"] by (simp add: md_rep_def rl)
    ultimately show ?thesis by blast
  qed
qed

section \<open>Finishing\<close>

lemma bit_count_words:
  assumes "unat (t0 :: u32) = n mod 2 ^ 32" and "unat (t1 :: u32) = n div 2 ^ 32 mod 2 ^ 32"
  shows "push_bit 3 t0 = of_nat (8 * n)"
    and "drop_bit 29 t0 OR push_bit 3 t1 = of_nat (8 * n div 2 ^ 32)"
proof -
  have t0: "t0 = of_nat n" and t1: "t1 = of_nat (drop_bit 32 n)"
    using assms by (simp_all add: word_unat_eq_iff unat_of_nat drop_bit_eq_div)
  show "push_bit 3 t0 = of_nat (8 * n)" by (simp add: t0 push_bit_eq_mult)
  have "8 * n div 2 ^ 32 = drop_bit 29 n"
    using div_mult_mult1 [of 8 n "2 ^ 29"] by (simp add: drop_bit_eq_div)
  moreover have "drop_bit 29 (of_nat n :: u32) OR push_bit 3 (of_nat (drop_bit 32 n)) = of_nat (drop_bit 29 n)"
  proof (rule bit_word_eqI)
    fix i
    assume "i < LENGTH(32)"
    then show "bit (drop_bit 29 (of_nat n :: u32) OR push_bit 3 (of_nat (drop_bit 32 n))) i
        \<longleftrightarrow> bit (of_nat (drop_bit 29 n) :: u32) i"
      by (auto simp: bit_or_iff bit_drop_bit_eq bit_push_bit_iff bit_of_nat_iff o_def add.commute
          split: nat_diff_split)
  qed
  ultimately show "drop_bit 29 t0 OR push_bit 3 t1 = of_nat (8 * n div 2 ^ 32)"
    by (simp add: t0 t1)
qed

lemma pad_length:
  fixes n :: nat
  defines "l \<equiv> n mod 64" and "z \<equiv> nat ((55 - int n) mod 64)"
  shows "(if l < 56 then 56 - l else 120 - l) = Suc z"
proof -
  have "(55 - int n) mod 64 = (55 - int l) mod 64" unfolding l_def zmod_int by (simp add: mod_diff_right_eq)
  also have "\<dots> = (if l < 56 then 55 - int l else 119 - int l)"
  proof (cases "l < 56")
    case False
    have l64: "l < 64" by (simp add: l_def)
    have "(55 - int l) mod 64 = (55 - int l + 64) mod 64" by (simp only: mod_add_self2)
    also have "\<dots> = 119 - int l" using False l64 by (subst mod_pos_pos_trivial) auto
    finally show ?thesis using False by simp
  qed (simp add: mod_pos_pos_trivial)
  finally have "z = (if l < 56 then 55 - l else 119 - l)"
    unfolding z_def by (simp add: nat_diff_distrib split: if_splits)
  then show ?thesis by (auto simp: l_def)
qed

lemma md_finish_rep:
  assumes "md_rep process iv m ctx" and "\<And>h l. length (msglen h l) = 8"
  shows "\<exists>ctx'. md_finish process msglen out ctx = Some (md_reference process iv msglen out m, ctx')"
proof -
  let ?z = "nat ((55 - int (length m)) mod 64)"
  let ?high = "drop_bit 29 (total0 ctx) OR push_bit 3 (total1 ctx)" and ?low = "push_bit 3 (total0 ctx)"
  have cnt: "?low = of_nat (8 * length m)" "?high = of_nat (8 * length m div 2 ^ 32)"
    using bit_count_words [of "total0 ctx" "length m" "total1 ctx"] assms(1) unfolding md_rep_def by auto
  have last: "unat (total0 ctx AND 0x3F) = length m mod 64"
    using assms(1) mod_mod_cancel [of 64 "2 ^ 32" "length m"] by (simp add: low_six md_rep_def)
  have z: "?z < 64" by (simp add: nat_less_iff)
  then have pad: "mem_slice md_padding 0 (Suc ?z) = Some (0x80 # replicate ?z 0)"
    by (simp add: mem_slice_def md_padding_def min_def)
  obtain c1 where c1: "md_update process (0x80 # replicate ?z 0) ctx = Some c1"
      "md_rep process iv (m @ 0x80 # replicate ?z 0) c1"
    using md_update_rep [OF assms(1), of "0x80 # replicate ?z 0"] z by auto
  obtain c2 where c2: "md_update process (msglen ?high ?low) c1 = Some c2"
      "md_rep process iv ((m @ 0x80 # replicate ?z 0) @ msglen ?high ?low) c2"
    using md_update_rep [OF c1(2), of "msglen ?high ?low"] assms(2) by auto
  have "(m @ 0x80 # replicate ?z 0) @ msglen ?high ?low = md_pad msglen m"
    by (simp add: md_pad_def cnt)
  then have "fst (md_blocks process iv (md_pad msglen m)) = md_state c2"
    using c2(2) by (simp add: md_rep_def)
  moreover have "md_finish process msglen out ctx = Some (out (md_state c2), c2)"
    unfolding md_finish_def Let_def last pad_length
    by (simp add: pad c1(1) c2(1))
  ultimately show ?thesis by (auto simp: md_reference_def)
qed

section \<open>Interface: a hash\<close>

text \<open>
  What clients call: \<open>starts\<close>, \<open>update\<close> and \<open>finish\<close>, with the law that they compute the function
  \<open>H\<close> of the bytes fed, in whatever pieces. The pieces are lengths of one call, below \<open>2 ^ 32\<close>.
\<close>

fun feed :: "(buffer \<Rightarrow> 'c \<Rightarrow> 'c option) \<Rightarrow> buffer list \<Rightarrow> 'c \<Rightarrow> 'c option" where
  "feed update [] ctx = Some ctx"
| "feed update (b # bs) ctx = do { ctx \<leftarrow> update b ctx; feed update bs ctx }"

locale md_hash =
  fixes starts :: "'c \<Rightarrow> 'c"
    and update :: "buffer \<Rightarrow> 'c \<Rightarrow> 'c option"
    and finish :: "'c \<Rightarrow> (buffer \<times> 'c) option"
    and H :: "buffer \<Rightarrow> buffer"
    and usable :: "'c \<Rightarrow> bool"
    and digest_size :: nat
  assumes run: "usable ctx \<Longrightarrow> \<forall>b \<in> set bs. length b < 2 ^ 32 \<Longrightarrow>
      \<exists>ctx' ctx''. feed update bs (starts ctx) = Some ctx' \<and> finish ctx' = Some (H (concat bs), ctx'')"
    and digest: "length (H m) = digest_size"
begin

text \<open>The result depends on the bytes only, not on the pieces.\<close>

lemma same_bytes:
  assumes "usable ctx" "usable ctx'" "\<forall>b \<in> set bs \<union> set bs'. length b < 2 ^ 32" "concat bs = concat bs'"
  shows "map_option fst (Option.bind (feed update bs (starts ctx)) finish)
    = map_option fst (Option.bind (feed update bs' (starts ctx')) finish)"
  using run [of ctx bs] run [of ctx' bs'] assms by auto

lemma two_pieces:
  assumes "usable ctx" "length a < 2 ^ 32" "length b < 2 ^ 32"
  obtains c1 c2 c3 where "update a (starts ctx) = Some c1" "update b c1 = Some c2"
    "finish c2 = Some (H (a @ b), c3)"
  using run [of ctx "[a, b]"] assms by (auto split: bind_splits)

end

lemma feed_rep:
  assumes "md_rep process iv m ctx" and "\<forall>b \<in> set bs. length b < 2 ^ 32"
  shows "\<exists>ctx'. feed (md_update process) bs ctx = Some ctx' \<and> md_rep process iv (m @ concat bs) ctx'"
  using assms
proof (induction bs arbitrary: m ctx)
  case (Cons b bs)
  then obtain c where "md_update process b ctx = Some c" "md_rep process iv (m @ b) c"
    using md_update_rep [OF Cons.prems(1), of b] by auto
  then show ?case using Cons.IH [of "m @ b" c] Cons.prems(2) by auto
qed simp

text \<open>The law of the interface for a hash built from a compression function.\<close>

lemma md_run:
  assumes "md_rep process iv [] ctx" and "\<forall>b \<in> set bs. length b < 2 ^ 32" and "\<And>h l. length (msglen h l) = 8"
  shows "\<exists>ctx' ctx''. feed (md_update process) bs ctx = Some ctx'
    \<and> md_finish process msglen out ctx' = Some (md_reference process iv msglen out (concat bs), ctx'')"
  using feed_rep [OF assms(1,2)] md_finish_rep [OF _ assms(3)] by fastforce

end
