(* ===== verification/Hash_Sha1.thy ===== *)
theory Hash_Sha1
  imports Hash_Stream
begin

text \<open>
  SHA-1 of \<^verbatim>\<open>utils_sha1.c\<close>: the compression function with its circular schedule of sixteen words
  and unrolled rounds, and the streaming functions. \<open>sha1_compress\<close> is the compression function of
  FIPS 180-4, with the schedule of eighty words; the two are equal, so the streaming
  functions compute SHA-1.
\<close>

type_synonym iot_sha1_context = md_context

section \<open>The code\<close>

definition get_uint32_be :: "buffer \<Rightarrow> nat \<Rightarrow> u32" where
  "get_uint32_be b i = push_bit 24 (ucast (b ! i)) OR push_bit 16 (ucast (b ! (i + 1)))
     OR push_bit 8 (ucast (b ! (i + 2))) OR ucast (b ! (i + 3))"

definition put_uint32_be :: "u32 \<Rightarrow> buffer" where
  "put_uint32_be n = [ucast (drop_bit 24 n), ucast (drop_bit 16 n), ucast (drop_bit 8 n), ucast n]"

definition utils_sha1_init :: iot_sha1_context where
  "utils_sha1_init = \<lparr>total0 = 0, total1 = 0, md_state = replicate 5 0, md_buffer = replicate 64 0\<rparr>"

definition utils_sha1_clone :: "iot_sha1_context \<Rightarrow> iot_sha1_context" where
  "utils_sha1_clone src = src"

text \<open>Clearing writes zeros over the whole context.\<close>

definition utils_sha1_free :: "iot_sha1_context \<Rightarrow> iot_sha1_context" where
  "utils_sha1_free ctx = \<lparr>total0 = 0, total1 = 0, md_state = replicate 5 0, md_buffer = replicate 64 0\<rparr>"

definition utils_sha1_starts :: "iot_sha1_context \<Rightarrow> iot_sha1_context" where
  "utils_sha1_starts ctx = ctx\<lparr>total0 := 0, total1 := 0,
     md_state := [0x67452301, 0xEFCDAB89, 0x98BADCFE, 0x10325476, 0xC3D2E1F0]\<rparr>"

text \<open>The macros \<open>S\<close>, \<open>R\<close> and \<open>P\<close>, and \<open>F\<close> and \<open>K\<close> of the four groups of twenty rounds.\<close>

definition sha1_S :: "u32 \<Rightarrow> nat \<Rightarrow> u32" where
  "sha1_S x n = push_bit n x OR drop_bit (32 - n) (x AND 0xFFFFFFFF)"

definition sha1_R :: "u32 list \<Rightarrow> nat \<Rightarrow> u32 \<times> u32 list" where
  "sha1_R W t = (let temp = W ! ((t - 3) mod 16) XOR W ! ((t - 8) mod 16) XOR
       W ! ((t - 14) mod 16) XOR W ! (t mod 16) in (sha1_S temp 1, W[t mod 16 := sha1_S temp 1]))"

definition sha1_F :: "nat \<Rightarrow> u32 \<Rightarrow> u32 \<Rightarrow> u32 \<Rightarrow> u32" where
  "sha1_F t x y z = (if t < 20 then z XOR (x AND (y XOR z))
     else if t < 40 then x XOR y XOR z
     else if t < 60 then (x AND y) OR (z AND (x OR y)) else x XOR y XOR z)"

definition sha1_K :: "nat \<Rightarrow> u32" where
  "sha1_K t = (if t < 20 then 0x5A827999 else if t < 40 then 0x6ED9EBA1
     else if t < 60 then 0x8F1BBCDC else 0xCA62C1D6)"

text \<open>
  \<open>P(A, B, C, D, E, x)\<close> updates \<open>E\<close> and \<open>B\<close>, and the next round is called with its arguments shifted by
  one, \<open>P(E, A, B, C, D, x)\<close>: the tuple is the list of arguments of the next call.
\<close>

definition sha1_P :: "nat \<Rightarrow> u32 \<Rightarrow> u32 \<times> u32 \<times> u32 \<times> u32 \<times> u32 \<Rightarrow> u32 \<times> u32 \<times> u32 \<times> u32 \<times> u32" where
  "sha1_P t x = (\<lambda>(a, b, c, d, e). (e + (sha1_S a 5 + sha1_F t b c d + sha1_K t + x), a, sha1_S b 30, c, d))"

definition sha1_round :: "nat \<Rightarrow> u32 list \<times> (u32 \<times> u32 \<times> u32 \<times> u32 \<times> u32)
    \<Rightarrow> u32 list \<times> (u32 \<times> u32 \<times> u32 \<times> u32 \<times> u32)" where
  "sha1_round t = (\<lambda>(W, v).
     if t < 16 then (W, sha1_P t (W ! t) v) else let (x, W) = sha1_R W t in (W, sha1_P t x v))"

definition utils_sha1_process :: compression where
  "utils_sha1_process st data =
     (let W = map (\<lambda>i. get_uint32_be data (4 * i)) [0..<16];
          (W, (A, B, C, D, E)) = fold sha1_round [0..<80] (W, (st ! 0, st ! 1, st ! 2, st ! 3, st ! 4))
      in [st ! 0 + A, st ! 1 + B, st ! 2 + C, st ! 3 + D, st ! 4 + E])"

definition utils_sha1_update :: "buffer \<Rightarrow> iot_sha1_context \<Rightarrow> iot_sha1_context option" where
  "utils_sha1_update = md_update utils_sha1_process"

definition sha1_msglen :: "u32 \<Rightarrow> u32 \<Rightarrow> buffer" where
  "sha1_msglen high low = put_uint32_be high @ put_uint32_be low"

definition sha1_output :: "u32 list \<Rightarrow> buffer" where
  "sha1_output st = put_uint32_be (st ! 0) @ put_uint32_be (st ! 1) @ put_uint32_be (st ! 2)
     @ put_uint32_be (st ! 3) @ put_uint32_be (st ! 4)"

definition utils_sha1_finish :: "iot_sha1_context \<Rightarrow> (buffer \<times> iot_sha1_context) option" where
  "utils_sha1_finish = md_finish utils_sha1_process sha1_msglen sha1_output"

definition utils_sha1 :: "buffer \<Rightarrow> buffer option" where
  "utils_sha1 input = do {
     let ctx = utils_sha1_starts utils_sha1_init;
     ctx \<leftarrow> utils_sha1_update input ctx;
     (output, ctx) \<leftarrow> utils_sha1_finish ctx;
     let ctx = utils_sha1_free ctx;
     Some output }"

section \<open>FIPS 180-4\<close>

definition big_endian :: "u32 \<Rightarrow> buffer" where
  "big_endian x = map (\<lambda>i. of_nat (unat x div 256 ^ i)) [3, 2, 1, 0]"

definition big_endian_word :: "buffer \<Rightarrow> u32" where
  "big_endian_word bs = of_nat (foldl (\<lambda>n b. 256 * n + unat b) 0 bs)"

definition sha1_Ch :: "u32 \<Rightarrow> u32 \<Rightarrow> u32 \<Rightarrow> u32" where
  "sha1_Ch x y z = (x AND y) XOR (NOT x AND z)"

definition sha1_Maj :: "u32 \<Rightarrow> u32 \<Rightarrow> u32 \<Rightarrow> u32" where
  "sha1_Maj x y z = (x AND y) XOR (x AND z) XOR (y AND z)"

definition sha1_f :: "nat \<Rightarrow> u32 \<Rightarrow> u32 \<Rightarrow> u32 \<Rightarrow> u32" where
  "sha1_f t x y z = (if t \<in> {0..19} then sha1_Ch x y z else if t \<in> {40..59} then sha1_Maj x y z
     else x XOR y XOR z)"

fun sha1_schedule :: "(nat \<Rightarrow> u32) \<Rightarrow> nat \<Rightarrow> u32" where
  "sha1_schedule M t = (if t < 16 then M t else word_rotl 1 (sha1_schedule M (t - 3) XOR
     sha1_schedule M (t - 8) XOR sha1_schedule M (t - 14) XOR sha1_schedule M (t - 16)))"

declare sha1_schedule.simps [simp del]

definition sha1_step :: "(nat \<Rightarrow> u32) \<Rightarrow> nat \<Rightarrow> u32 \<times> u32 \<times> u32 \<times> u32 \<times> u32 \<Rightarrow> u32 \<times> u32 \<times> u32 \<times> u32 \<times> u32" where
  "sha1_step M t = (\<lambda>(a, b, c, d, e).
     let T = word_rotl 5 a + sha1_f t b c d + e + sha1_K t + sha1_schedule M t
     in (T, a, word_rotl 30 b, c, d))"

definition sha1_compress :: compression where
  "sha1_compress H block =
     (let M = (\<lambda>t. big_endian_word (take 4 (drop (4 * t) block)));
          (a, b, c, d, e) = fold (sha1_step M) [0..<80] (H ! 0, H ! 1, H ! 2, H ! 3, H ! 4)
      in [a + H ! 0, b + H ! 1, c + H ! 2, d + H ! 3, e + H ! 4])"

definition sha1_H0 :: "u32 list" where
  "sha1_H0 = [0x67452301, 0xEFCDAB89, 0x98BADCFE, 0x10325476, 0xC3D2E1F0]"

definition SHA1 :: "buffer \<Rightarrow> buffer" where
  "SHA1 = md_reference sha1_compress sha1_H0 (\<lambda>h l. big_endian h @ big_endian l)
     (\<lambda>H. concat (map big_endian H))"

section \<open>The code computes it\<close>

lemma rotl_S:
  assumes "0 < n" "n < 32"
  shows "sha1_S x n = word_rotl n x"
  using rotl_or [OF assms] by (simp add: sha1_S_def)

lemma F_f: "t < 80 \<Longrightarrow> sha1_F t x y z = sha1_f t x y z"
  by (auto simp: sha1_F_def sha1_f_def sha1_Ch_def sha1_Maj_def bit_simps intro!: bit_word_eqI)

lemma get_big_endian: "i + 4 \<le> length b \<Longrightarrow> get_uint32_be b i = big_endian_word (take 4 (drop i b))"
  by (simp add: get_uint32_be_def big_endian_word_def take4 bytes_word)

lemma put_big_endian: "put_uint32_be x = big_endian x"
  using byte_of_word [of 3 x] byte_of_word [of 2 x] byte_of_word [of 1 x]
  by (simp add: put_uint32_be_def big_endian_def)

text \<open>
  The circular schedule: before round \<open>t\<close> the array holds the sixteen words up to \<open>t\<close>, each in the
  place of its number modulo 16 (the first sixteen rounds leave the array alone).
\<close>

definition window :: "(nat \<Rightarrow> u32) \<Rightarrow> nat \<Rightarrow> u32 list \<Rightarrow> bool" where
  "window M t W \<longleftrightarrow> length W = 16 \<and> (\<forall>i. max 16 t \<le> i + 16 \<and> i < max 16 t \<longrightarrow> W ! (i mod 16) = sha1_schedule M i)"

lemma window_R:
  assumes "window M t W" and "16 \<le> t"
  shows "fst (sha1_R W t) = sha1_schedule M t" and "window M (Suc t) (snd (sha1_R W t))"
proof -
  have at: "W ! (i mod 16) = sha1_schedule M i" if "t \<le> i + 16" "i < t" for i
    using assms that by (auto simp: window_def)
  have "t mod 16 = (t - 16) mod 16" using assms(2) by (simp add: mod_if)
  then have x: "fst (sha1_R W t) = sha1_schedule M t"
    using assms(2) at [of "t - 3"] at [of "t - 8"] at [of "t - 14"] at [of "t - 16"]
    by (subst sha1_schedule.simps) (simp add: sha1_R_def Let_def rotl_S)
  show "fst (sha1_R W t) = sha1_schedule M t" by (fact x)
  have len: "length W = 16" using assms(1) by (simp add: window_def)
  have e: "snd (sha1_R W t) = W[t mod 16 := sha1_schedule M t]"
    using x by (simp add: sha1_R_def Let_def)
  show "window M (Suc t) (snd (sha1_R W t))"
    unfolding window_def e
  proof (intro conjI allI impI)
    fix i
    assume i: "max 16 (Suc t) \<le> i + 16 \<and> i < max 16 (Suc t)"
    show "W[t mod 16 := sha1_schedule M t] ! (i mod 16) = sha1_schedule M i"
    proof (cases "i = t")
      case False
      then have "i < t" "t < i + 16" using i assms(2) by auto
      then have "i mod 16 \<noteq> t mod 16" by (auto elim!: mod_eq_nat1E [of t 16 i, OF sym])
      then show ?thesis using at [of i] \<open>i < t\<close> \<open>t < i + 16\<close> by (simp add: nth_list_update)
    qed (simp add: len)
  qed (simp add: len)
qed

lemma sha1_P_step:
  assumes "t < 80" and "x = sha1_schedule M t"
  shows "sha1_P t x v = sha1_step M t v"
  using assms by (cases v) (simp add: sha1_P_def sha1_step_def rotl_S F_f Let_def add.commute add.left_commute)

lemma window_rounds:
  assumes "window M 0 W" and "n \<le> 80"
  shows "\<exists>W'. window M n W' \<and> fold sha1_round [0..<n] (W, v) = (W', fold (sha1_step M) [0..<n] v)"
  using assms(2)
proof (induction n)
  case (Suc n)
  then obtain W' where W': "window M n W'" "fold sha1_round [0..<n] (W, v) = (W', fold (sha1_step M) [0..<n] v)"
    by auto
  show ?case
  proof (cases "n < 16")
    case True
    then have "W' ! n = sha1_schedule M n" "window M (Suc n) W'" using W'(1) by (auto simp: window_def)
    moreover have "sha1_round n (W', u) = (W', sha1_P n (W' ! n) u)" for u
      using True by (simp add: sha1_round_def)
    ultimately show ?thesis using W'(2) Suc.prems sha1_P_step [of n] by simp
  next
    case False
    then have "sha1_round n (W', u) = (snd (sha1_R W' n), sha1_P n (fst (sha1_R W' n)) u)" for u
      by (simp add: sha1_round_def case_prod_beta)
    then show ?thesis
      using False W'(2) Suc.prems window_R [OF W'(1)] sha1_P_step [of n] by simp
  qed
qed (use assms in simp)

lemma process_compress:
  assumes "length data = 64"
  shows "utils_sha1_process st data = sha1_compress st data"
proof -
  let ?M = "\<lambda>t. big_endian_word (take 4 (drop (4 * t) data))"
  let ?W = "map (\<lambda>i. get_uint32_be data (4 * i)) [0..<16]"
  have "window ?M 0 ?W"
    unfolding window_def
  proof (intro conjI allI impI)
    fix i :: nat
    assume "max 16 0 \<le> i + 16 \<and> i < max 16 0"
    then show "?W ! (i mod 16) = sha1_schedule ?M i"
      using assms by (subst sha1_schedule.simps) (simp add: get_big_endian)
  qed simp
  then obtain W' where "fold sha1_round [0..<80] (?W, (st ! 0, st ! 1, st ! 2, st ! 3, st ! 4))
      = (W', fold (sha1_step ?M) [0..<80] (st ! 0, st ! 1, st ! 2, st ! 3, st ! 4))"
    using window_rounds [of ?M ?W 80] by blast
  then show ?thesis
    unfolding utils_sha1_process_def sha1_compress_def Let_def
    by (simp only: case_prod_beta add.commute fst_conv snd_conv)
qed

lemma process_length: "length (utils_sha1_process st data) = 5"
  by (simp add: utils_sha1_process_def Let_def case_prod_beta)

lemma blocks_compress: "md_blocks utils_sha1_process st xs = md_blocks sha1_compress st xs"
  by (rule md_blocks_cong) (simp add: process_compress)

lemma blocks_length: "length st = 5 \<Longrightarrow> length (fst (md_blocks sha1_compress st xs)) = 5"
  by (rule md_blocks_state_length) (simp_all add: process_length flip: process_compress)

lemma reference_SHA1:
  "md_reference utils_sha1_process sha1_H0 sha1_msglen sha1_output m = SHA1 m"
proof -
  have out: "sha1_output st = concat (map big_endian st)" if l: "length st = 5" for st
  proof -
    obtain a b c d e where "st = [a, b, c, d, e]"
      using l by (auto simp: eval_nat_numeral length_Suc_conv)
    then show ?thesis by (simp add: sha1_output_def put_big_endian)
  qed
  have "sha1_msglen = (\<lambda>h l. big_endian h @ big_endian l)"
    by (rule ext)+ (simp add: sha1_msglen_def put_big_endian)
  then show ?thesis
    by (simp add: md_reference_def SHA1_def blocks_compress out blocks_length sha1_H0_def)
qed

interpretation sha1: md_hash utils_sha1_starts utils_sha1_update utils_sha1_finish SHA1
  "\<lambda>ctx. length (md_buffer ctx) = 64" 20
proof
  fix ctx :: iot_sha1_context and bs :: "buffer list"
  assume "length (md_buffer ctx) = 64" "\<forall>b \<in> set bs. length b < 2 ^ 32"
  then show "\<exists>ctx' ctx''. feed utils_sha1_update bs (utils_sha1_starts ctx) = Some ctx'
      \<and> utils_sha1_finish ctx' = Some (SHA1 (concat bs), ctx'')"
    using md_run [of utils_sha1_process sha1_H0 "utils_sha1_starts ctx" bs sha1_msglen sha1_output]
    by (simp add: utils_sha1_update_def utils_sha1_finish_def reference_SHA1 utils_sha1_starts_def
        md_rep_start sha1_msglen_def put_uint32_be_def flip: sha1_H0_def)
next
  show "length (SHA1 m) = 20" for m
    using blocks_length [of sha1_H0]
    by (simp add: SHA1_def md_reference_def length_concat o_def big_endian_def sha1_H0_def sum_list_triv)
qed

text \<open>The compression function with its circular schedule of sixteen words, its rewritten choice and
  majority functions and its rotated argument lists is the compression function of FIPS 180-4.\<close>

theorem sha1_process_fips:
  assumes "length data = 64"
  shows "utils_sha1_process st data = sha1_compress st data"
  by (rule process_compress [OF assms])

theorem sha1_process_fips_witness:
  "utils_sha1_process sha1_H0 md_padding = sha1_compress sha1_H0 md_padding"
  by (rule sha1_process_fips) (simp add: md_padding_def)

text \<open>C23: SHA-1 computed in pieces: however the message is cut into updates, of any length below
  \<open>2 ^ 32\<close> each, the context buffer is never overrun and finishing gives the SHA-1 of the
  concatenation, as the padding and the compression function of FIPS 180-4 define it.\<close>

theorem utils_sha1_pieces:
  assumes "length (md_buffer ctx) = 64" and "\<forall>b \<in> set bs. length b < 2 ^ 32"
  shows "\<exists>ctx' ctx''. feed utils_sha1_update bs (utils_sha1_starts ctx) = Some ctx'
    \<and> utils_sha1_finish ctx' = Some (SHA1 (concat bs), ctx'')"
  using assms by (rule sha1.run)

theorem utils_sha1_pieces_witness:
  "\<exists>ctx' ctx''. feed utils_sha1_update [[1, 2], replicate 100 3, []] (utils_sha1_starts utils_sha1_init) = Some ctx'
    \<and> utils_sha1_finish ctx' = Some (SHA1 ([1, 2] @ replicate 100 3), ctx'')"
  using utils_sha1_pieces [of utils_sha1_init "[[1, 2], replicate 100 3, []]"]
  by (simp add: utils_sha1_init_def)

lemma utils_sha1_eq: "length m < 2 ^ 32 \<Longrightarrow> utils_sha1 m = Some (SHA1 m)"
  using sha1.run [of utils_sha1_init "[m]"] by (auto simp: utils_sha1_def utils_sha1_init_def Let_def split: bind_splits)

end
