(* ===== verification/Hash_Md5.thy ===== *)
theory Hash_Md5
  imports Hash_Stream
begin

text \<open>
  MD5 of \<^verbatim>\<open>utils_md5.c\<close>: the compression function as its table of sixty-four unrolled steps,
  and the streaming functions. \<open>md5_compress\<close> states the compression function as RFC 1321
  does: auxiliary functions, the order of the message words by formula, the rotation amounts of
  the four rounds; it shares with the code only the table of the sixty-four constants.
\<close>

type_synonym iot_md5_context = md_context

section \<open>The code\<close>

definition get_uint32_le :: "buffer \<Rightarrow> nat \<Rightarrow> u32" where
  "get_uint32_le b i = ucast (b ! i) OR push_bit 8 (ucast (b ! (i + 1)))
     OR push_bit 16 (ucast (b ! (i + 2))) OR push_bit 24 (ucast (b ! (i + 3)))"

definition put_uint32_le :: "u32 \<Rightarrow> buffer" where
  "put_uint32_le n = [ucast (n AND 0xFF), ucast (drop_bit 8 n AND 0xFF), ucast (drop_bit 16 n AND 0xFF),
     ucast (drop_bit 24 n AND 0xFF)]"

definition utils_md5_init :: iot_md5_context where
  "utils_md5_init = \<lparr>total0 = 0, total1 = 0, md_state = replicate 4 0, md_buffer = replicate 64 0\<rparr>"

definition utils_md5_clone :: "iot_md5_context \<Rightarrow> iot_md5_context" where
  "utils_md5_clone src = src"

definition utils_md5_free :: "iot_md5_context \<Rightarrow> iot_md5_context" where
  "utils_md5_free ctx = \<lparr>total0 = 0, total1 = 0, md_state = replicate 4 0, md_buffer = replicate 64 0\<rparr>"

definition utils_md5_starts :: "iot_md5_context \<Rightarrow> iot_md5_context" where
  "utils_md5_starts ctx = ctx\<lparr>total0 := 0, total1 := 0,
     md_state := [0x67452301, 0xEFCDAB89, 0x98BADCFE, 0x10325476]\<rparr>"

definition md5_S :: "u32 \<Rightarrow> nat \<Rightarrow> u32" where
  "md5_S x n = push_bit n x OR drop_bit (32 - n) (x AND 0xFFFFFFFF)"

definition md5_F :: "nat \<Rightarrow> u32 \<Rightarrow> u32 \<Rightarrow> u32 \<Rightarrow> u32" where
  "md5_F i x y z = (if i < 16 then z XOR (x AND (y XOR z))
     else if i < 32 then y XOR (z AND (x XOR y))
     else if i < 48 then x XOR y XOR z else y XOR (x OR NOT z))"

text \<open>The arguments \<open>k\<close>, \<open>s\<close> and \<open>t\<close> of the calls of \<open>P\<close>, in order.\<close>

definition md5_calls :: "(nat \<times> nat \<times> u32) list" where
  "md5_calls = [
    (0, 7, 0xD76AA478), (1, 12, 0xE8C7B756), (2, 17, 0x242070DB), (3, 22, 0xC1BDCEEE),
    (4, 7, 0xF57C0FAF), (5, 12, 0x4787C62A), (6, 17, 0xA8304613), (7, 22, 0xFD469501),
    (8, 7, 0x698098D8), (9, 12, 0x8B44F7AF), (10, 17, 0xFFFF5BB1), (11, 22, 0x895CD7BE),
    (12, 7, 0x6B901122), (13, 12, 0xFD987193), (14, 17, 0xA679438E), (15, 22, 0x49B40821),
    (1, 5, 0xF61E2562), (6, 9, 0xC040B340), (11, 14, 0x265E5A51), (0, 20, 0xE9B6C7AA),
    (5, 5, 0xD62F105D), (10, 9, 0x02441453), (15, 14, 0xD8A1E681), (4, 20, 0xE7D3FBC8),
    (9, 5, 0x21E1CDE6), (14, 9, 0xC33707D6), (3, 14, 0xF4D50D87), (8, 20, 0x455A14ED),
    (13, 5, 0xA9E3E905), (2, 9, 0xFCEFA3F8), (7, 14, 0x676F02D9), (12, 20, 0x8D2A4C8A),
    (5, 4, 0xFFFA3942), (8, 11, 0x8771F681), (11, 16, 0x6D9D6122), (14, 23, 0xFDE5380C),
    (1, 4, 0xA4BEEA44), (4, 11, 0x4BDECFA9), (7, 16, 0xF6BB4B60), (10, 23, 0xBEBFBC70),
    (13, 4, 0x289B7EC6), (0, 11, 0xEAA127FA), (3, 16, 0xD4EF3085), (6, 23, 0x04881D05),
    (9, 4, 0xD9D4D039), (12, 11, 0xE6DB99E5), (15, 16, 0x1FA27CF8), (2, 23, 0xC4AC5665),
    (0, 6, 0xF4292244), (7, 10, 0x432AFF97), (14, 15, 0xAB9423A7), (5, 21, 0xFC93A039),
    (12, 6, 0x655B59C3), (3, 10, 0x8F0CCC92), (10, 15, 0xFFEFF47D), (1, 21, 0x85845DD1),
    (8, 6, 0x6FA87E4F), (15, 10, 0xFE2CE6E0), (6, 15, 0xA3014314), (13, 21, 0x4E0811A1),
    (4, 6, 0xF7537E82), (11, 10, 0xBD3AF235), (2, 15, 0x2AD7D2BB), (9, 21, 0xEB86D391)]"

text \<open>
  \<open>P(A, B, C, D, ...)\<close> updates \<open>A\<close>, and the next call has its arguments shifted by one,
  \<open>P(D, A, B, C, ...)\<close>: the tuple is the list of arguments of the next call.
\<close>

definition md5_P :: "u32 list \<Rightarrow> nat \<Rightarrow> u32 \<times> u32 \<times> u32 \<times> u32 \<Rightarrow> u32 \<times> u32 \<times> u32 \<times> u32" where
  "md5_P X i = (\<lambda>(a, b, c, d). let (k, s, t) = md5_calls ! i; a' = a + (md5_F i b c d + X ! k + t)
     in (d, md5_S a' s + b, b, c))"

definition utils_md5_process :: compression where
  "utils_md5_process st data =
     (let X = map (\<lambda>i. get_uint32_le data (4 * i)) [0..<16];
          (A, B, C, D) = fold (md5_P X) [0..<64] (st ! 0, st ! 1, st ! 2, st ! 3)
      in [st ! 0 + A, st ! 1 + B, st ! 2 + C, st ! 3 + D])"

definition utils_md5_update :: "buffer \<Rightarrow> iot_md5_context \<Rightarrow> iot_md5_context option" where
  "utils_md5_update = md_update utils_md5_process"

definition md5_msglen :: "u32 \<Rightarrow> u32 \<Rightarrow> buffer" where
  "md5_msglen high low = put_uint32_le low @ put_uint32_le high"

definition md5_output :: "u32 list \<Rightarrow> buffer" where
  "md5_output st = put_uint32_le (st ! 0) @ put_uint32_le (st ! 1) @ put_uint32_le (st ! 2)
     @ put_uint32_le (st ! 3)"

definition utils_md5_finish :: "iot_md5_context \<Rightarrow> (buffer \<times> iot_md5_context) option" where
  "utils_md5_finish = md_finish utils_md5_process md5_msglen md5_output"

definition utils_md5 :: "buffer \<Rightarrow> buffer option" where
  "utils_md5 input = do {
     let ctx = utils_md5_starts utils_md5_init;
     ctx \<leftarrow> utils_md5_update input ctx;
     (output, ctx) \<leftarrow> utils_md5_finish ctx;
     let ctx = utils_md5_free ctx;
     Some output }"

definition utils_hb2hex :: "u8 \<Rightarrow> u8" where
  "utils_hb2hex hb = (let hb = hb AND 0xF in if hb < 10 then 48 + hb else hb - 10 + 97)"

section \<open>RFC 1321\<close>

definition little_endian_word :: "buffer \<Rightarrow> u32" where
  "little_endian_word bs = of_nat (foldr (\<lambda>b n. unat b + 256 * n) bs 0)"

definition little_endian :: "u32 \<Rightarrow> buffer" where
  "little_endian x = map (\<lambda>i. of_nat (unat x div 256 ^ i)) [0, 1, 2, 3]"

text \<open>The constants \<open>T[1 ... 64]\<close>, the integer parts of \<open>2 ^ 32 * abs (sin i)\<close>.\<close>

definition md5_T :: "u32 list" where
  "md5_T = [
    0xD76AA478, 0xE8C7B756, 0x242070DB, 0xC1BDCEEE, 0xF57C0FAF, 0x4787C62A, 0xA8304613, 0xFD469501,
    0x698098D8, 0x8B44F7AF, 0xFFFF5BB1, 0x895CD7BE, 0x6B901122, 0xFD987193, 0xA679438E, 0x49B40821,
    0xF61E2562, 0xC040B340, 0x265E5A51, 0xE9B6C7AA, 0xD62F105D, 0x02441453, 0xD8A1E681, 0xE7D3FBC8,
    0x21E1CDE6, 0xC33707D6, 0xF4D50D87, 0x455A14ED, 0xA9E3E905, 0xFCEFA3F8, 0x676F02D9, 0x8D2A4C8A,
    0xFFFA3942, 0x8771F681, 0x6D9D6122, 0xFDE5380C, 0xA4BEEA44, 0x4BDECFA9, 0xF6BB4B60, 0xBEBFBC70,
    0x289B7EC6, 0xEAA127FA, 0xD4EF3085, 0x04881D05, 0xD9D4D039, 0xE6DB99E5, 0x1FA27CF8, 0xC4AC5665,
    0xF4292244, 0x432AFF97, 0xAB9423A7, 0xFC93A039, 0x655B59C3, 0x8F0CCC92, 0xFFEFF47D, 0x85845DD1,
    0x6FA87E4F, 0xFE2CE6E0, 0xA3014314, 0x4E0811A1, 0xF7537E82, 0xBD3AF235, 0x2AD7D2BB, 0xEB86D391]"

definition md5_aux :: "nat \<Rightarrow> u32 \<Rightarrow> u32 \<Rightarrow> u32 \<Rightarrow> u32" where
  "md5_aux i x y z = (case i div 16 of
       0 \<Rightarrow> (x AND y) OR (NOT x AND z)
     | Suc 0 \<Rightarrow> (x AND z) OR (y AND NOT z)
     | Suc (Suc 0) \<Rightarrow> x XOR y XOR z
     | _ \<Rightarrow> y XOR (x OR NOT z))"

definition md5_word :: "nat \<Rightarrow> nat" where
  "md5_word i = (case i div 16 of 0 \<Rightarrow> i mod 16 | Suc 0 \<Rightarrow> (5 * i + 1) mod 16
     | Suc (Suc 0) \<Rightarrow> (3 * i + 5) mod 16 | _ \<Rightarrow> (7 * i) mod 16)"

definition md5_shift :: "nat \<Rightarrow> nat" where
  "md5_shift i = [[7, 12, 17, 22], [5, 9, 14, 20], [4, 11, 16, 23], [6, 10, 15, 21]] ! (i div 16) ! (i mod 4)"

text \<open>\<open>a = b + ((a + f(b, c, d) + X[k] + T[i]) <<< s)\<close>, and the registers rotate.\<close>

definition md5_step :: "(nat \<Rightarrow> u32) \<Rightarrow> nat \<Rightarrow> u32 \<times> u32 \<times> u32 \<times> u32 \<Rightarrow> u32 \<times> u32 \<times> u32 \<times> u32" where
  "md5_step X i = (\<lambda>(a, b, c, d).
     (d, b + word_rotl (md5_shift i) (a + md5_aux i b c d + X (md5_word i) + md5_T ! i), b, c))"

definition md5_compress :: compression where
  "md5_compress H block =
     (let X = (\<lambda>k. little_endian_word (take 4 (drop (4 * k) block)));
          (a, b, c, d) = fold (md5_step X) [0..<64] (H ! 0, H ! 1, H ! 2, H ! 3)
      in [a + H ! 0, b + H ! 1, c + H ! 2, d + H ! 3])"

definition md5_H0 :: "u32 list" where
  "md5_H0 = [0x67452301, 0xEFCDAB89, 0x98BADCFE, 0x10325476]"

definition MD5 :: "buffer \<Rightarrow> buffer" where
  "MD5 = md_reference md5_compress md5_H0 (\<lambda>h l. little_endian l @ little_endian h)
     (\<lambda>H. concat (map little_endian H))"

section \<open>The code computes it\<close>

text \<open>The table of calls is what the formulas give.\<close>

lemma calls_formulas:
  "list_all (\<lambda>i. md5_calls ! i = (md5_word i, md5_shift i, md5_T ! i) \<and> md5_word i < 16
     \<and> 0 < md5_shift i \<and> md5_shift i < 32) [0..<64]"
  by code_simp

lemma F_aux: "i < 64 \<Longrightarrow> md5_F i x y z = md5_aux i x y z"
proof -
  assume "i < 64"
  then consider "i div 16 = 0" "i < 16" | "i div 16 = 1" "16 \<le> i" "i < 32" | "i div 16 = 2" "32 \<le> i" "i < 48"
    | "i div 16 = 3" "48 \<le> i" by linarith
  then show ?thesis
    by cases (auto simp: md5_F_def md5_aux_def bit_simps numeral_2_eq_2 numeral_3_eq_3 intro!: bit_word_eqI)
qed

lemma P_step:
  assumes "i < 64" and "\<And>k. k < 16 \<Longrightarrow> X ! k = M k"
  shows "md5_P X i v = md5_step M i v"
proof -
  have c: "md5_calls ! i = (md5_word i, md5_shift i, md5_T ! i)" "md5_word i < 16" "0 < md5_shift i" "md5_shift i < 32"
    using calls_formulas assms(1) by (auto simp: list_all_iff)
  show ?thesis
    using assms rotl_or [OF c(3,4)]
    by (cases v) (simp add: md5_P_def md5_step_def c F_aux md5_S_def Let_def add.commute add.left_commute)
qed

lemma get_little_endian: "i + 4 \<le> length b \<Longrightarrow> get_uint32_le b i = little_endian_word (take 4 (drop i b))"
  using bytes_word [of "b ! (i + 3)" "b ! (i + 2)" "b ! (i + 1)" "b ! i"]
  by (simp add: get_uint32_le_def little_endian_word_def take4 or.commute or.left_commute algebra_simps)

lemma put_little_endian: "put_uint32_le x = little_endian x"
proof -
  have m: "ucast (y AND 0xFF) = (ucast y :: u8)" for y :: u32
  proof -
    have "y AND 0xFF = take_bit 8 y" by (simp add: take_bit_eq_mask mask_eq_exp_minus_1)
    then show ?thesis by (intro bit_word_eqI) (simp add: bit_simps)
  qed
  show ?thesis
    using byte_of_word [of 3 x] byte_of_word [of 2 x] byte_of_word [of 1 x]
    by (simp add: put_uint32_le_def little_endian_def m)
qed

lemma md5_process_compress:
  assumes "length data = 64"
  shows "utils_md5_process st data = md5_compress st data"
proof -
  let ?M = "\<lambda>k. little_endian_word (take 4 (drop (4 * k) data))"
  let ?X = "map (\<lambda>i. get_uint32_le data (4 * i)) [0..<16]"
  have X: "?X ! k = ?M k" if "k < 16" for k using assms that by (simp add: get_little_endian)
  have "fold (md5_P ?X) [0..<64] v = fold (md5_step ?M) [0..<64] v" for v
    using P_step [OF _ X] by (intro fold_cong refl) auto
  then show ?thesis
    unfolding utils_md5_process_def md5_compress_def Let_def
    by (simp only: case_prod_beta add.commute)
qed

lemma md5_process_length: "length (utils_md5_process st data) = 4"
  by (simp add: utils_md5_process_def Let_def case_prod_beta)

lemma md5_blocks_compress: "md_blocks utils_md5_process st xs = md_blocks md5_compress st xs"
  by (rule md_blocks_cong) (simp add: md5_process_compress)

lemma md5_blocks_length: "length st = 4 \<Longrightarrow> length (fst (md_blocks md5_compress st xs)) = 4"
  by (rule md_blocks_state_length) (simp_all add: md5_process_length flip: md5_process_compress)

lemma reference_MD5:
  "md_reference utils_md5_process md5_H0 md5_msglen md5_output m = MD5 m"
proof -
  have out: "md5_output st = concat (map little_endian st)" if l: "length st = 4" for st
  proof -
    obtain a b c d where "st = [a, b, c, d]"
      using l by (auto simp: eval_nat_numeral length_Suc_conv)
    then show ?thesis by (simp add: md5_output_def put_little_endian)
  qed
  have "md5_msglen = (\<lambda>h l. little_endian l @ little_endian h)"
    by (rule ext)+ (simp add: md5_msglen_def put_little_endian)
  then show ?thesis
    by (simp add: md_reference_def MD5_def md5_blocks_compress out md5_blocks_length md5_H0_def)
qed

interpretation md5: md_hash utils_md5_starts utils_md5_update utils_md5_finish MD5
  "\<lambda>ctx. length (md_buffer ctx) = 64" 16
proof
  fix ctx :: iot_md5_context and bs :: "buffer list"
  assume "length (md_buffer ctx) = 64" "\<forall>b \<in> set bs. length b < 2 ^ 32"
  then show "\<exists>ctx' ctx''. feed utils_md5_update bs (utils_md5_starts ctx) = Some ctx'
      \<and> utils_md5_finish ctx' = Some (MD5 (concat bs), ctx'')"
    using md_run [of utils_md5_process md5_H0 "utils_md5_starts ctx" bs md5_msglen md5_output]
    by (simp add: utils_md5_update_def utils_md5_finish_def reference_MD5 utils_md5_starts_def
        md_rep_start md5_msglen_def put_uint32_le_def flip: md5_H0_def)
next
  show "length (MD5 m) = 16" for m
    using md5_blocks_length [of md5_H0]
    by (simp add: MD5_def md_reference_def length_concat o_def little_endian_def md5_H0_def sum_list_triv)
qed

text \<open>The sixty-four unrolled steps of the compression function are the steps of RFC 1321: auxiliary
  functions, order of the message words and rotation amounts.\<close>

theorem md5_process_rfc:
  assumes "length data = 64"
  shows "utils_md5_process st data = md5_compress st data"
  by (rule md5_process_compress [OF assms])

theorem md5_process_rfc_witness:
  "utils_md5_process md5_H0 md_padding = md5_compress md5_H0 md_padding"
  by (rule md5_process_rfc) (simp add: md_padding_def)

text \<open>MD5 computed in pieces: however the message is cut into updates, of any length below
  \<open>2 ^ 32\<close> each, the context buffer is never overrun and finishing gives the MD5 of the concatenation.\<close>

theorem utils_md5_pieces:
  assumes "length (md_buffer ctx) = 64" and "\<forall>b \<in> set bs. length b < 2 ^ 32"
  shows "\<exists>ctx' ctx''. feed utils_md5_update bs (utils_md5_starts ctx) = Some ctx'
    \<and> utils_md5_finish ctx' = Some (MD5 (concat bs), ctx'')"
  using assms by (rule md5.run)

theorem utils_md5_pieces_witness:
  "\<exists>ctx' ctx''. feed utils_md5_update [[1, 2], replicate 100 3, []] (utils_md5_starts utils_md5_init) = Some ctx'
    \<and> utils_md5_finish ctx' = Some (MD5 ([1, 2] @ replicate 100 3), ctx'')"
  using utils_md5_pieces [of utils_md5_init "[[1, 2], replicate 100 3, []]"]
  by (simp add: utils_md5_init_def)

lemma utils_md5_eq: "length m < 2 ^ 32 \<Longrightarrow> utils_md5 m = Some (MD5 m)"
  using md5.run [of utils_md5_init "[m]"] by (auto simp: utils_md5_def utils_md5_init_def Let_def split: bind_splits)

end
