(* ===== verification/Hash_Hmac.thy ===== *)
theory Hash_Hmac
  imports Hash_Sha1 Hash_Md5
begin

text \<open>
  The keyed hashes of \<^verbatim>\<open>utils_hmac.c\<close>. The two functions of the file have the same text up to the
  hash, which is a parameter of \<open>hmac_with\<close>; they are proved once, over the interface
  \<open>md_hash\<close>, to write the hexadecimal HMAC of RFC 2104.
\<close>

section \<open>The code\<close>

definition KEY_IOPAD_SIZE :: nat where "KEY_IOPAD_SIZE = 64"

text \<open>The loop that writes two characters per byte of the result, from byte \<open>i\<close>.\<close>

fun hex_loop :: "buffer \<Rightarrow> nat \<Rightarrow> buffer \<Rightarrow> buffer option" where
  "hex_loop [] i digest = Some digest"
| "hex_loop (b # out) i digest = do {
     digest \<leftarrow> mem_write digest (i * 2) (utils_hb2hex (drop_bit 4 b));
     digest \<leftarrow> mem_write digest (i * 2 + 1) (utils_hb2hex b);
     hex_loop out (Suc i) digest }"

text \<open>
  The arguments are the memory behind the pointers, \<open>None\<close> for a null pointer, with the lengths of
  message and key as the lengths of the lists. The result is the memory behind \<open>digest\<close>; it is
  unchanged when the arguments are refused.
\<close>

definition hmac_with :: "'c \<Rightarrow> ('c \<Rightarrow> 'c) \<Rightarrow> (buffer \<Rightarrow> 'c \<Rightarrow> 'c option) \<Rightarrow> ('c \<Rightarrow> (buffer \<times> 'c) option)
    \<Rightarrow> buffer option \<Rightarrow> buffer option \<Rightarrow> buffer option \<Rightarrow> buffer option option" where
  "hmac_with init starts update finish msg digest key =
     (case (msg, digest, key) of
        (Some msg, Some digest, Some key) \<Rightarrow>
          if length key > KEY_IOPAD_SIZE then Some (Some digest)
          else do {
            k_ipad \<leftarrow> mem_copy (replicate KEY_IOPAD_SIZE 0) 0 key;
            k_opad \<leftarrow> mem_copy (replicate KEY_IOPAD_SIZE 0) 0 key;
            let k_ipad = map (\<lambda>b. b XOR 0x36) k_ipad;
            let k_opad = map (\<lambda>b. b XOR 0x5c) k_opad;
            let context = starts init;
            context \<leftarrow> update k_ipad context;
            context \<leftarrow> update msg context;
            (out, context) \<leftarrow> finish context;
            let context = starts init;
            context \<leftarrow> update k_opad context;
            context \<leftarrow> update out context;
            (out, context) \<leftarrow> finish context;
            digest \<leftarrow> hex_loop out 0 digest;
            Some (Some digest) }
      | _ \<Rightarrow> Some digest)"

definition utils_hmac_md5 :: "buffer option \<Rightarrow> buffer option \<Rightarrow> buffer option \<Rightarrow> buffer option option" where
  "utils_hmac_md5 = hmac_with utils_md5_init utils_md5_starts utils_md5_update utils_md5_finish"

definition utils_hmac_sha1 :: "buffer option \<Rightarrow> buffer option \<Rightarrow> buffer option \<Rightarrow> buffer option option" where
  "utils_hmac_sha1 = hmac_with utils_sha1_init utils_sha1_starts utils_sha1_update utils_sha1_finish"

section \<open>RFC 2104\<close>

definition HMAC :: "(buffer \<Rightarrow> buffer) \<Rightarrow> buffer \<Rightarrow> buffer \<Rightarrow> buffer" where
  "HMAC H K text = (let K0 = K @ replicate (64 - length K) 0 in
     H (map (\<lambda>b. b XOR 0x5c) K0 @ H (map (\<lambda>b. b XOR 0x36) K0 @ text)))"

text \<open>Lower-case hexadecimal, the high digit first.\<close>

definition hex_digit :: "nat \<Rightarrow> u8" where
  "hex_digit n = (if n < 10 then of_nat (48 + n) else of_nat (87 + n))"

definition hex :: "buffer \<Rightarrow> buffer" where
  "hex bs = concat (map (\<lambda>b. [hex_digit (unat b div 16), hex_digit (unat b mod 16)]) bs)"

lemma length_hex [simp]: "length (hex bs) = 2 * length bs"
  by (induction bs) (simp_all add: hex_def)

lemma hex_Cons: "hex (b # bs) = hex_digit (unat b div 16) # hex_digit (unat b mod 16) # hex bs"
  by (simp add: hex_def)

section \<open>Hexadecimal output\<close>

lemma hb2hex_digit: "utils_hb2hex b = hex_digit (unat b mod 16)"
proof -
  have "b AND 0xF = take_bit 4 b" by (simp add: take_bit_eq_mask mask_eq_exp_minus_1)
  then have u: "unat (b AND 0xF) = unat b mod 16"
    by (simp only: unsigned_take_bit_eq) (simp add: take_bit_eq_mod)
  moreover have "b AND 0xF = of_nat (unat (b AND 0xF))" by simp
  ultimately have n: "b AND 0xF = of_nat (unat b mod 16)" by (simp only:)
  have "unat b mod 16 < 16" by simp
  then show ?thesis
    unfolding utils_hb2hex_def hex_digit_def Let_def word_less_nat_alt u
    by (simp add: n)
qed

lemma hb2hex_high: "utils_hb2hex (drop_bit 4 b) = hex_digit (unat b div 16)"
proof -
  have "unat (drop_bit 4 b) = unat b div 16" 
    by (simp only: unsigned_drop_bit_eq) (simp add: drop_bit_eq_div take_bit_nat_eq_self byte_lt)
  moreover have "unat b div 16 < 16" using byte_lt [of b] by (simp add: div_less_iff_less_mult)
  ultimately show ?thesis by (simp add: hb2hex_digit)
qed

lemma hex_loop_written:
  "2 * i + 2 * length out \<le> length d \<Longrightarrow> hex_loop out i d = Some (overlay d (2 * i) (hex out))"
proof (induction out arbitrary: i d)
  case Nil
  then show ?case by (simp add: hex_def)
next
  case (Cons b out)
  let ?h = "[hex_digit (unat b div 16), hex_digit (unat b mod 16)]"
  have two: "overlay (overlay d (2 * i) [x]) (2 * i + 1) [y] = overlay d (2 * i) [x, y]" for x y
    using overlay_overlay [of "2 * i" "[x]" "[y]" d] Cons.prems by simp
  have "hex_loop (b # out) i d = hex_loop out (Suc i) (overlay d (2 * i) ?h)"
    using Cons.prems two by (simp add: mem_write_overlay hb2hex_digit [of b] hb2hex_high mult.commute)
  also have "\<dots> = Some (overlay (overlay d (2 * i) ?h) (2 * Suc i) (hex out))"
    using Cons.prems by (intro Cons.IH) simp
  also have "overlay (overlay d (2 * i) ?h) (2 * Suc i) (hex out) = overlay d (2 * i) (hex (b # out))"
    using overlay_overlay [of "2 * i" ?h "hex out" d] Cons.prems by (simp add: hex_Cons)
  finally show ?case .
qed

section \<open>A keyed hash over any hash\<close>

locale hmac_hash = md_hash starts update finish H usable digest_size
  for starts :: "'c \<Rightarrow> 'c" and update finish H usable digest_size +
  fixes init :: 'c
  assumes usable_init: "usable init" and digest_fits: "digest_size < 2 ^ 32"
begin

lemma hmac_correct:
  assumes "length key \<le> 64" and "length msg < 2 ^ 32" and "2 * digest_size \<le> length d"
  shows "hmac_with init starts update finish (Some msg) (Some d) (Some key)
    = Some (Some (overlay d 0 (hex (HMAC H key msg))))"
proof -
  let ?K0 = "key @ replicate (64 - length key) 0"
  let ?i = "map (\<lambda>b. b XOR 0x36) ?K0" and ?o = "map (\<lambda>b. b XOR 0x5c) ?K0"
  have pad: "mem_copy (replicate 64 0) 0 key = Some ?K0"
    using assms(1) by (simp add: mem_copy_def overlay_def)
  obtain a1 a2 a3 where a: "update ?i (starts init) = Some a1" "update msg a1 = Some a2"
    "finish a2 = Some (H (?i @ msg), a3)"
    using two_pieces [OF usable_init, of ?i msg] assms by auto
  obtain b1 b2 b3 where b: "update ?o (starts init) = Some b1" "update (H (?i @ msg)) b1 = Some b2"
    "finish b2 = Some (H (?o @ H (?i @ msg)), b3)"
    using two_pieces [OF usable_init, of ?o "H (?i @ msg)"] assms(1) digest digest_fits by auto
  have "hex_loop (H (?o @ H (?i @ msg))) 0 d = Some (overlay d 0 (hex (HMAC H key msg)))"
    using hex_loop_written [of 0 "H (?o @ H (?i @ msg))" d] assms(3) digest by (simp add: HMAC_def Let_def)
  then show ?thesis
    using assms(1) a b by (simp add: hmac_with_def pad Let_def KEY_IOPAD_SIZE_def)
qed

end

interpretation hmac_sha1: hmac_hash utils_sha1_starts utils_sha1_update utils_sha1_finish SHA1
  "\<lambda>ctx. length (md_buffer ctx) = 64" 20 utils_sha1_init
  by unfold_locales (simp_all add: utils_sha1_init_def)

interpretation hmac_md5: hmac_hash utils_md5_starts utils_md5_update utils_md5_finish MD5
  "\<lambda>ctx. length (md_buffer ctx) = 64" 16 utils_md5_init
  by unfold_locales (simp_all add: utils_md5_init_def)

lemma hmac_long_key:
  "64 < length key \<Longrightarrow> hmac_with init starts update finish (Some msg) (Some d) (Some key) = Some (Some d)"
  by (simp add: hmac_with_def KEY_IOPAD_SIZE_def)

text \<open>C34: Both keyed hashes: for a key of at most 64 bytes and room for the digest, exactly the hexadecimal
  HMAC of RFC 2104 is written at the start of the digest, and nothing behind it; with a longer key,
  which RFC 2104 would hash first, nothing is written at all.\<close>

theorem hmac_digests:
  assumes "length msg < 2 ^ 32" and "40 \<le> length d"
  shows "utils_hmac_sha1 (Some msg) (Some d) (Some key) = Some (Some
      (if length key \<le> 64 then overlay d 0 (hex (HMAC SHA1 key msg)) else d))
    \<and> utils_hmac_md5 (Some msg) (Some d) (Some key) = Some (Some
      (if length key \<le> 64 then overlay d 0 (hex (HMAC MD5 key msg)) else d))"
  using assms hmac_sha1.hmac_correct [of key msg d] hmac_md5.hmac_correct [of key msg d]
  by (simp_all add: hmac_long_key utils_hmac_sha1_def utils_hmac_md5_def)

theorem hmac_digests_witness:
  "utils_hmac_sha1 (Some [1]) (Some (replicate 40 0)) (Some [7]) = Some (Some (overlay (replicate 40 0) 0 (hex (HMAC SHA1 [7] [1]))))
   \<and> utils_hmac_md5 (Some [1]) (Some (replicate 40 0)) (Some (replicate 65 7)) = Some (Some (replicate 40 0))"
  using hmac_digests [of "[1]" "replicate 40 0" "[7]"] hmac_digests [of "[1]" "replicate 40 0" "replicate 65 7"] by simp

end
