(* ===== verification/Base64.thy ===== *)
theory Base64
  imports Qc_Words
begin

text \<open>
  The Base64 encoder and decoder of \<^verbatim>\<open>utils_base64.c\<close>. Source and destination are memory
  blocks; the result is the return code, the memory behind \<open>olen\<close> and the destination. The
  encoder is compared with RFC 4648, the decoder inverts it, and on any input it stays inside both
  blocks.
\<close>

section \<open>Tables\<close>

definition base64_enc_map :: "u8 list" where
  "base64_enc_map = [
    65, 66, 67, 68, 69, 70, 71, 72, 73, 74,
    75, 76, 77, 78, 79, 80, 81, 82, 83, 84,
    85, 86, 87, 88, 89, 90, 97, 98, 99, 100,
    101, 102, 103, 104, 105, 106, 107, 108, 109, 110,
    111, 112, 113, 114, 115, 116, 117, 118, 119, 120,
    121, 122, 48, 49, 50, 51, 52, 53, 54, 55,
    56, 57, 43, 47]"

definition base64_dec_map :: "u8 list" where
  "base64_dec_map = [
    127, 127, 127, 127, 127, 127, 127, 127, 127, 127,
    127, 127, 127, 127, 127, 127, 127, 127, 127, 127,
    127, 127, 127, 127, 127, 127, 127, 127, 127, 127,
    127, 127, 127, 127, 127, 127, 127, 127, 127, 127,
    127, 127, 127, 62, 127, 127, 127, 63, 52, 53,
    54, 55, 56, 57, 58, 59, 60, 61, 127, 127,
    127, 64, 127, 127, 127, 0, 1, 2, 3, 4,
    5, 6, 7, 8, 9, 10, 11, 12, 13, 14,
    15, 16, 17, 18, 19, 20, 21, 22, 23, 24,
    25, 127, 127, 127, 127, 127, 127, 26, 27, 28,
    29, 30, 31, 32, 33, 34, 35, 36, 37, 38,
    39, 40, 41, 42, 43, 44, 45, 46, 47, 48,
    49, 50, 51, 127, 127, 127, 127, 127]"

definition BASE64_SIZE_T_MAX :: nat where "BASE64_SIZE_T_MAX = 2 ^ 32 - 1"

section \<open>Encoding\<close>

text \<open>\<open>*p++ = c\<close> and the table access; the index is masked to six bits.\<close>

definition put_char :: "u8 \<Rightarrow> cursor \<Rightarrow> cursor option" where
  "put_char c = (\<lambda>(b, p). do { b \<leftarrow> mem_write b p c; Some (b, p + 1) })"

definition enc_char :: "u32 \<Rightarrow> u8" where
  "enc_char i = base64_enc_map ! unat (i AND 0x3F)"

text \<open>The loop over whole groups, and the group that is left.\<close>

fun enc_loop :: "buffer \<Rightarrow> cursor \<Rightarrow> cursor option" where
  "enc_loop (s1 # s2 # s3 # src) p = do {
     let C1 = ucast s1; let C2 = ucast s2; let C3 = ucast s3;
     p \<leftarrow> put_char (enc_char (drop_bit 2 C1)) p;
     p \<leftarrow> put_char (enc_char (push_bit 4 (C1 AND 3) + drop_bit 4 C2)) p;
     p \<leftarrow> put_char (enc_char (push_bit 2 (C2 AND 15) + drop_bit 6 C3)) p;
     p \<leftarrow> put_char (enc_char C3) p;
     enc_loop src p }"
| "enc_loop [s1, s2] p = do {
     let C1 = ucast s1; let C2 = ucast s2;
     p \<leftarrow> put_char (enc_char (drop_bit 2 C1)) p;
     p \<leftarrow> put_char (enc_char (push_bit 4 (C1 AND 3) + drop_bit 4 C2)) p;
     p \<leftarrow> put_char (enc_char (push_bit 2 (C2 AND 15))) p;
     put_char 61 p }"
| "enc_loop [s1] p = do {
     let C1 = ucast s1; let C2 = 0;
     p \<leftarrow> put_char (enc_char (drop_bit 2 C1)) p;
     p \<leftarrow> put_char (enc_char (push_bit 4 (C1 AND 3) + drop_bit 4 C2)) p;
     p \<leftarrow> put_char 61 p;
     put_char 61 p }"
| "enc_loop [] p = Some p"

definition qcloud_iot_utils_base64encode :: "buffer option \<Rightarrow> nat \<Rightarrow> buffer
    \<Rightarrow> (int \<times> nat \<times> buffer option) option" where
  "qcloud_iot_utils_base64encode dst dlen src = (let slen = length src in
     if slen = 0 then Some (0, 0, dst)
     else let n = slen div 3 + (if slen mod 3 \<noteq> 0 then 1 else 0) in
       if n > (BASE64_SIZE_T_MAX - 1) div 4 then Some (QCLOUD_ERR_FAILURE, BASE64_SIZE_T_MAX, dst)
       else let n = n * 4 in
         case dst of
           None \<Rightarrow> Some (QCLOUD_ERR_FAILURE, n + 1, dst)
         | Some d \<Rightarrow>
             if dlen < n + 1 then Some (QCLOUD_ERR_FAILURE, n + 1, dst)
             else do {
               (d, p) \<leftarrow> enc_loop src (d, 0);
               d \<leftarrow> mem_write d p 0;
               Some (0, p, Some d) })"

section \<open>Decoding\<close>

lemma dropWhile_shorter: "r = dropWhile P s \<Longrightarrow> r = c # s' \<Longrightarrow> length s' < length s"
  using length_dropWhile_le [of P s] by (auto dest: sym)

text \<open>
  The first pass: \<open>s\<close> is the source from index \<open>i\<close>, \<open>n\<close> counts characters, \<open>j\<close> the padding. The
  counters stay below the source length, so they do not wrap.
\<close>

function dec_scan :: "buffer \<Rightarrow> nat \<Rightarrow> nat \<Rightarrow> int + nat \<times> nat" where
  "dec_scan s n j =
     (let x = length (takeWhile (\<lambda>c. c = 32) s); s = dropWhile (\<lambda>c. c = 32) s in
      case s of
        [] \<Rightarrow> Inr (n, j)
      | c # s' \<Rightarrow>
          if length s \<ge> 2 \<and> c = 13 \<and> s' ! 0 = 10 then dec_scan s' n j
          else if c = 10 then dec_scan s' n j
          else if x \<noteq> 0 then Inl QCLOUD_ERR_FAILURE
          else let j = (if c = 61 then j + 1 else j) in
            if c = 61 \<and> j > 2 then Inl QCLOUD_ERR_FAILURE
            else if c > 127 \<or> base64_dec_map ! unat c = 127 then Inl QCLOUD_ERR_FAILURE
            else if base64_dec_map ! unat c < 64 \<and> j \<noteq> 0 then Inl QCLOUD_ERR_FAILURE
            else dec_scan s' (n + 1) j)"
  by pat_completeness auto
termination
  by (relation "measure (\<lambda>(s, n, j). length s)") (simp, (unfold in_measure case_prod_conv, (erule (1) dropWhile_shorter)+))

declare dec_scan.simps [simp del]

text \<open>The second pass: \<open>j\<close> counts down with each padding character, \<open>n\<close> is the place in the group.\<close>

fun dec_fill :: "buffer \<Rightarrow> u32 \<Rightarrow> nat \<Rightarrow> u32 \<Rightarrow> cursor \<Rightarrow> cursor option" where
  "dec_fill [] j n x p = Some p"
| "dec_fill (c # src) j n x p =
     (if c = 13 \<or> c = 10 \<or> c = 32 then dec_fill src j n x p
      else do {
        m \<leftarrow> mem_read base64_dec_map (unat c);
        let j = j - (if m = 64 then 1 else 0);
        let x = push_bit 6 x OR (ucast m AND 0x3F);
        let n = n + 1;
        if n = 4 then do {
          p \<leftarrow> (if j > 0 then put_char (ucast (drop_bit 16 x)) p else Some p);
          p \<leftarrow> (if j > 1 then put_char (ucast (drop_bit 8 x)) p else Some p);
          p \<leftarrow> (if j > 2 then put_char (ucast x) p else Some p);
          dec_fill src j 0 x p }
        else dec_fill src j n x p })"

text \<open>\<open>olen\<close> is the value behind the caller's pointer; an invalid source leaves it alone.\<close>

definition qcloud_iot_utils_base64decode :: "buffer option \<Rightarrow> nat \<Rightarrow> nat \<Rightarrow> buffer
    \<Rightarrow> (int \<times> nat \<times> buffer option) option" where
  "qcloud_iot_utils_base64decode dst dlen olen src = (case dec_scan src 0 0 of
       Inl rc \<Rightarrow> Some (rc, olen, dst)
     | Inr (n, j) \<Rightarrow>
         if n = 0 then Some (0, 0, dst)
         else let n = (n * 6 + 7) mod 2 ^ 32 div 8; n = n - j in
           case dst of
             None \<Rightarrow> Some (QCLOUD_ERR_FAILURE, n, dst)
           | Some d \<Rightarrow>
               if dlen < n then Some (QCLOUD_ERR_FAILURE, n, dst)
               else do {
                 (d, p) \<leftarrow> dec_fill src 3 0 0 (d, 0);
                 Some (0, p, Some d) })"

section \<open>RFC 4648\<close>

definition alphabet :: "nat \<Rightarrow> u8" where
  "alphabet n = (if n < 26 then of_nat (65 + n) else if n < 52 then of_nat (97 + (n - 26))
     else if n < 62 then of_nat (48 + (n - 52)) else if n = 62 then 43 else 47)"

text \<open>Three bytes are a number of 24 bits, written as four digits to base 64; a short last group is
  filled with zero bits, and padded.\<close>

fun rfc4648 :: "buffer \<Rightarrow> buffer" where
  "rfc4648 (a # b # c # bs) = (let N = (unat a * 256 + unat b) * 256 + unat c in
     map alphabet [N div 64 ^ 3, N div 64 ^ 2 mod 64, N div 64 mod 64, N mod 64] @ rfc4648 bs)"
| "rfc4648 [a, b] = (let N = (unat a * 256 + unat b) * 4 in
     map alphabet [N div 64 ^ 2, N div 64 mod 64, N mod 64] @ [61])"
| "rfc4648 [a] = (let N = unat a * 16 in map alphabet [N div 64, N mod 64] @ [61, 61])"
| "rfc4648 [] = []"

lemma length_rfc4648: "length (rfc4648 bs) = 4 * (length bs div 3 + (if length bs mod 3 \<noteq> 0 then 1 else 0))"
proof (induction bs rule: rfc4648.induct)
  case (1 a b c bs)
  have "length (a # b # c # bs) = 3 + length bs" by simp
  then show ?case using 1 by (simp only: div_add_self1 mod_add_self1) (simp add: Let_def)
qed (simp_all add: Let_def)

lemma enc_map_alphabet: "list_all (\<lambda>n. base64_enc_map ! n = alphabet n) [0..<64]"
  by code_simp

lemma enc_char_alphabet: "unat i mod 64 = n \<Longrightarrow> enc_char i = alphabet n"
proof -
  assume "unat i mod 64 = n"
  then have "unat (i AND 0x3F) = n" "n < 64" using unat_mask [of 63 6 i] by auto
  then show ?thesis using enc_map_alphabet by (simp add: enc_char_def list_all_iff)
qed

text \<open>The indices of the four characters of a group.\<close>

lemma unat_of_byte: "unat (ucast (c :: u8) :: u32) = unat c"
  using byte_lt [of c] by (simp add: unsigned_ucast_eq take_bit_nat_eq_self)

lemma unat_drop_u32: "unat (drop_bit k (x :: u32)) = unat x div 2 ^ k"
  using unsigned_less [of x, where ?'a = nat] unfolding unsigned_drop_bit_eq
  by (simp add: drop_bit_eq_div take_bit_nat_eq_self)

lemma unat_add_u32: "unat (x :: u32) = m \<Longrightarrow> unat (y :: u32) = n \<Longrightarrow> m + n < 2 ^ 32 \<Longrightarrow> unat (x + y) = m + n"
  by (auto simp: unat_word_ariths)

lemma group_index:
  "unat (drop_bit 2 (ucast (a :: u8)) :: u32) = unat a div 4"
  "unat (push_bit 4 (ucast a AND 3) + drop_bit 4 (ucast (b :: u8)) :: u32) = unat a mod 4 * 16 + unat b div 16"
  "unat (push_bit 4 (ucast a AND 3) :: u32) = unat a mod 4 * 16"
  "unat (push_bit 2 (ucast b AND 15) + drop_bit 6 (ucast (c :: u8)) :: u32) = unat b mod 16 * 4 + unat c div 64"
  "unat (push_bit 2 (ucast b AND 15) :: u32) = unat b mod 16 * 4"
proof -
  have m3: "unat (ucast a AND 3 :: u32) = unat a mod 4" using unat_mask [of 3 2 "ucast a :: u32"] by (simp add: unat_of_byte)
  have m15: "unat (ucast b AND 15 :: u32) = unat b mod 16" using unat_mask [of 15 4 "ucast b :: u32"] by (simp add: unat_of_byte)
  have lt: "unat a mod 4 < 4" "unat b mod 16 < 16" "unat b div 16 < 16" "unat c div 64 < 4"
    using byte_lt [of b] byte_lt [of c] by (simp_all add: div_less_iff_less_mult)
  show p4: "unat (push_bit 4 (ucast a AND 3) :: u32) = unat a mod 4 * 16"
    using lt unat_push_bit [of "ucast a AND 3" 4] by (simp add: m3)
  show p2: "unat (push_bit 2 (ucast b AND 15) :: u32) = unat b mod 16 * 4"
    using lt unat_push_bit [of "ucast b AND 15" 2] by (simp add: m15)
  show "unat (drop_bit 2 (ucast a) :: u32) = unat a div 4"
    by (simp only: unat_drop_u32 unat_of_byte) simp
  show "unat (push_bit 4 (ucast a AND 3) + drop_bit 4 (ucast b) :: u32) = unat a mod 4 * 16 + unat b div 16"
    using lt by (intro unat_add_u32 p4) (simp_all only: unat_drop_u32 unat_of_byte, simp_all)
  show "unat (push_bit 2 (ucast b AND 15) + drop_bit 6 (ucast c) :: u32) = unat b mod 16 * 4 + unat c div 64"
    using lt by (intro unat_add_u32 p2) (simp_all only: unat_drop_u32 unat_of_byte, simp_all)
qed

lemma digits24:
  fixes a b c :: nat
  assumes "a < 256" "b < 256" "c < 256"
  defines "N \<equiv> (a * 256 + b) * 256 + c"
  shows "N div 64 ^ 3 = a div 4" "N div 64 ^ 2 mod 64 = a mod 4 * 16 + b div 16"
    "N div 64 mod 64 = b mod 16 * 4 + c div 64"
proof -
  define a1 a0 b1 b0 c1 c0 where d: "a1 = a div 4" "a0 = a mod 4" "b1 = b div 16" "b0 = b mod 16"
    "c1 = c div 64" "c0 = c mod 64"
  have e: "a = 4 * a1 + a0" "b = 16 * b1 + b0" "c = 64 * c1 + c0" by (simp_all add: d)
  have lt: "a0 < 4" "b1 < 16" "b0 < 16" "c1 < 4" "c0 < 64" using assms(2,3) by (auto simp: d)
  have N: "N = 262144 * a1 + 65536 * a0 + 4096 * b1 + 256 * b0 + 64 * c1 + c0" by (simp add: N_def e)
  have "N div 262144 = a1" using lt N by (intro div_nat_eqI) auto
  then show "N div 64 ^ 3 = a div 4" by (simp add: d(1))
  have "N div 4096 = 64 * a1 + (16 * a0 + b1)" using lt N by (intro div_nat_eqI) auto
  then have "N div 64 ^ 2 mod 64 = (16 * a0 + b1) mod 64" by (simp only: power2_eq_square) simp
  then show "N div 64 ^ 2 mod 64 = a mod 4 * 16 + b div 16" using lt unfolding d(2,3) by simp
  have "N div 64 = 64 * (64 * a1 + 16 * a0 + b1) + (4 * b0 + c1)" using lt N by (intro div_nat_eqI) auto
  then have "N div 64 mod 64 = (4 * b0 + c1) mod 64" by (simp only: mod_mult_self4)
  then show "N div 64 mod 64 = b mod 16 * 4 + c div 64" using lt unfolding d(4,5) by simp
qed

lemma digits16:
  fixes a b :: nat
  assumes "b < 256"
  defines "N \<equiv> (a * 256 + b) * 4"
  shows "N div 64 ^ 2 = a div 4" "N div 64 mod 64 = a mod 4 * 16 + b div 16" "N mod 64 = b mod 16 * 4"
proof -
  define a1 a0 b1 b0 where d: "a1 = a div 4" "a0 = a mod 4" "b1 = b div 16" "b0 = b mod 16"
  have e: "a = 4 * a1 + a0" "b = 16 * b1 + b0" by (simp_all add: d)
  have lt: "a0 < 4" "b1 < 16" "b0 < 16" using assms(1) by (auto simp: d)
  have N: "N = 4096 * a1 + 1024 * a0 + 64 * b1 + 4 * b0" by (simp add: N_def e)
  have "N div 4096 = a1" using lt N by (intro div_nat_eqI) auto
  then show "N div 64 ^ 2 = a div 4" by (simp add: d(1))
  have "N div 64 = 64 * a1 + (16 * a0 + b1)" using lt N by (intro div_nat_eqI) auto
  then have "N div 64 mod 64 = (16 * a0 + b1) mod 64" by (simp only: mod_mult_self4)
  then show "N div 64 mod 64 = a mod 4 * 16 + b div 16" using lt unfolding d(2,3) by simp
  have "N = 64 * (64 * a1 + 16 * a0 + b1) + 4 * b0" using N by simp
  then have "N mod 64 = 4 * b0 mod 64" by (simp only: mod_mult_self4)
  then show "N mod 64 = b mod 16 * 4" using lt unfolding d(4) by simp
qed

lemma digits8:
  fixes a :: nat
  shows "a * 16 div 64 = a div 4" "a * 16 mod 64 = a mod 4 * 16"
  using div_mult_mult2 [of 16 a 4] mod_mult_mult2 [of a 16 4] by simp_all

interpretation put: cursor_writer put_char "\<lambda>c. [c]"
  by unfold_locales (simp add: put_char_def mem_write_overlay)

lemma enc_group:
  "map enc_char [drop_bit 2 (ucast a), push_bit 4 (ucast a AND 3) + drop_bit 4 (ucast b),
     push_bit 2 (ucast b AND 15) + drop_bit 6 (ucast c), ucast c] @ rfc4648 bs = rfc4648 (a # b # c # bs)"
  "map enc_char [drop_bit 2 (ucast a), push_bit 4 (ucast a AND 3) + drop_bit 4 (ucast b),
     push_bit 2 (ucast b AND 15)] @ [61] = rfc4648 [a, b]"
  "map enc_char [drop_bit 2 (ucast a), push_bit 4 (ucast a AND 3)] @ [61, 61] = rfc4648 [a]"
proof -
  note lt = byte_lt [of a] byte_lt [of b] byte_lt [of c]
  have h: "unat a div 4 < 64" "unat a mod 4 * 16 + unat b div 16 < 64" "unat b mod 16 * 4 + unat c div 64 < 64"
    "unat b mod 16 * 4 < 64" "unat a mod 4 * 16 < 64"
    using lt by (linarith | simp)+
  have e: "enc_char (drop_bit 2 (ucast a)) = alphabet (unat a div 4)"
    "enc_char (push_bit 4 (ucast a AND 3) + drop_bit 4 (ucast b)) = alphabet (unat a mod 4 * 16 + unat b div 16)"
    "enc_char (push_bit 4 (ucast a AND 3)) = alphabet (unat a mod 4 * 16)"
    "enc_char (push_bit 2 (ucast b AND 15) + drop_bit 6 (ucast c)) = alphabet (unat b mod 16 * 4 + unat c div 64)"
    "enc_char (push_bit 2 (ucast b AND 15)) = alphabet (unat b mod 16 * 4)"
    "enc_char (ucast c) = alphabet (unat c mod 64)"
    by (rule enc_char_alphabet, use h in \<open>simp only: group_index unat_of_byte mod_less\<close>)+
  let ?N = "(unat a * 256 + unat b) * 256 + unat c"
  have m: "?N mod 64 = unat c mod 64" 
  proof -
    have "?N = 64 * (4 * (unat a * 256 + unat b)) + unat c" by simp
    then show ?thesis by (simp only: mod_mult_self4)
  qed
  show "map enc_char [drop_bit 2 (ucast a), push_bit 4 (ucast a AND 3) + drop_bit 4 (ucast b),
     push_bit 2 (ucast b AND 15) + drop_bit 6 (ucast c), ucast c] @ rfc4648 bs = rfc4648 (a # b # c # bs)"
    unfolding rfc4648.simps Let_def digits24 [OF lt] m list.map e by (rule refl)
  show "map enc_char [drop_bit 2 (ucast a), push_bit 4 (ucast a AND 3) + drop_bit 4 (ucast b),
     push_bit 2 (ucast b AND 15)] @ [61] = rfc4648 [a, b]"
    unfolding rfc4648.simps Let_def digits16 [OF lt(2)] list.map e by (rule refl)
  show "map enc_char [drop_bit 2 (ucast a), push_bit 4 (ucast a AND 3)] @ [61, 61] = rfc4648 [a]"
    unfolding rfc4648.simps Let_def digits8 list.map e by (rule refl)
qed

text \<open>The encoding loop writes the text of RFC 4648 at the cursor.\<close>

lemma put_chars:
  assumes "q \<le> length d" and "bytes = [c1, c2, c3, c4 :: u8]"
  shows "do { p \<leftarrow> put_char c1 (d, q); p \<leftarrow> put_char c2 p; p \<leftarrow> put_char c3 p; p \<leftarrow> put_char c4 p; k p }
    = (if q + 4 \<le> length d then k (overlay d q bytes, q + 4) else None)"
proof (cases "q + 4 \<le> length d")
  case True
  have ov: "overlay (overlay d q xs) (q + length xs) [c] = overlay d q (xs @ [c])" if "length xs < 4" for xs c
    using overlay_overlay [of q xs "[c]" d] True that by simp
  show ?thesis
    using True ov [of "[c1]" c2] ov [of "[c1, c2]" c3] ov [of "[c1, c2, c3]" c4]
    by (simp add: put.wr_law assms(2) numeral_eq_Suc)
next
  case False
  then show ?thesis using assms by (simp add: put.wr_law)
qed

lemma enc_loop_rfc:
  assumes "q \<le> length d"
  shows "enc_loop src (d, q) = (if q + length (rfc4648 src) \<le> length d
    then Some (overlay d q (rfc4648 src), q + length (rfc4648 src)) else None)"
  using assms
proof (induction src arbitrary: d q rule: rfc4648.induct)
  case (1 a b c bs)
  define cs where "cs = map enc_char [drop_bit 2 (ucast a), push_bit 4 (ucast a AND 3) + drop_bit 4 (ucast b),
     push_bit 2 (ucast b AND 15) + drop_bit 6 (ucast c), ucast c]"
  have l: "length cs = 4" by (simp add: cs_def)
  have g: "rfc4648 (a # b # c # bs) = cs @ rfc4648 bs" unfolding cs_def by (rule enc_group(1) [symmetric])
  have "enc_loop (a # b # c # bs) (d, q) = (if q + 4 \<le> length d then enc_loop bs (overlay d q cs, q + 4) else None)"
    unfolding enc_loop.simps Let_def by (rule put_chars) (use 1 in \<open>simp_all add: cs_def\<close>)
  moreover have "overlay (overlay d q cs) (q + 4) (rfc4648 bs) = overlay d q (cs @ rfc4648 bs)"
    if "q + 4 + length (rfc4648 bs) \<le> length d"
    using overlay_overlay [of q cs "rfc4648 bs" d] l that by simp
  ultimately show ?case
    using "1.IH" [OF refl, of "q + 4" "overlay d q cs"] l unfolding g by (simp add: add.assoc)
next
  case (2 a b)
  have "rfc4648 [a, b] = [enc_char (drop_bit 2 (ucast a)), enc_char (push_bit 4 (ucast a AND 3) + drop_bit 4 (ucast b)),
      enc_char (push_bit 2 (ucast b AND 15)), 61]"
    by (simp only: enc_group(2) [symmetric] list.map append.simps)
  from put_chars [OF 2 this, of Some] show ?case
    unfolding enc_loop.simps Let_def by (simp add: length_rfc4648 del: rfc4648.simps)
next
  case (3 a)
  have "rfc4648 [a] = [enc_char (drop_bit 2 (ucast a)), enc_char (push_bit 4 (ucast a AND 3) + drop_bit 4 0), 61, 61]"
    by (simp only: enc_group(3) [symmetric] list.map append.simps drop_bit_of_0 add_0_right)
  from put_chars [OF 3 this, of Some] show ?case
    unfolding enc_loop.simps Let_def by (simp add: length_rfc4648 del: rfc4648.simps)
qed simp

lemma enc_rfc:
  assumes "length src < 2 ^ 32" and "dlen \<le> length d"
  shows "qcloud_iot_utils_base64encode (Some d) dlen src =
     (if src = [] then Some (0, 0, Some d)
      else if 3 * 2 ^ 30 - 3 < length src then Some (QCLOUD_ERR_FAILURE, 2 ^ 32 - 1, Some d)
      else if dlen \<le> length (rfc4648 src) then Some (QCLOUD_ERR_FAILURE, length (rfc4648 src) + 1, Some d)
      else Some (0, length (rfc4648 src), Some (overlay d 0 (rfc4648 src @ [0]))))"
proof -
  let ?n = "length src div 3 + (if length src mod 3 \<noteq> 0 then 1 else 0)"
  have big: "?n > (BASE64_SIZE_T_MAX - 1) div 4 \<longleftrightarrow> 3 * 2 ^ 30 - 3 < length src"
    by (simp add: BASE64_SIZE_T_MAX_def) presburger
  have "overlay (overlay d 0 (rfc4648 src)) (length (rfc4648 src)) [0] = overlay d 0 (rfc4648 src @ [0])"
    if "length (rfc4648 src) < dlen"
    using overlay_overlay [of 0 "rfc4648 src" "[0]" d] that assms(2) by simp
  then show ?thesis
    using assms(2) enc_loop_rfc [of 0 d src] length_rfc4648 [of src]
    unfolding qcloud_iot_utils_base64encode_def Let_def big
    by (auto simp: mem_write_overlay BASE64_SIZE_T_MAX_def)
qed

text \<open>The encoder writes the text of RFC 4648 and a terminating zero, and nothing else; a destination
  that is too small is left alone and the size that is needed is reported, and a source whose text
  would not fit into the address space is refused.\<close>

theorem base64_encode_rfc:
  assumes "length src < 2 ^ 32" and "dlen \<le> length d"
  shows "qcloud_iot_utils_base64encode (Some d) dlen src =
     (if src = [] then Some (0, 0, Some d)
      else if 3 * 2 ^ 30 - 3 < length src then Some (QCLOUD_ERR_FAILURE, 2 ^ 32 - 1, Some d)
      else if dlen \<le> length (rfc4648 src) then Some (QCLOUD_ERR_FAILURE, length (rfc4648 src) + 1, Some d)
      else Some (0, length (rfc4648 src), Some (overlay d 0 (rfc4648 src @ [0]))))"
  using assms by (rule enc_rfc)

theorem base64_encode_rfc_witness:
  "qcloud_iot_utils_base64encode (Some [9, 9, 9, 9, 9, 9]) 5 [77] = Some (0, 4, Some [84, 81, 61, 61, 0, 9])"
proof -
  have "rfc4648 [77] = [84, 81, 61, 61]" by (simp add: Let_def alphabet_def)
  then show ?thesis
    using base64_encode_rfc [of "[77]" 5 "[9, 9, 9, 9, 9, 9]"] by (simp add: overlay_def del: rfc4648.simps)
qed

section \<open>What the decoder reads\<close>

text \<open>The characters that count, and the bytes the second pass writes for them.\<close>

definition significant :: "buffer \<Rightarrow> buffer" where
  "significant s = filter (\<lambda>c. c \<noteq> 13 \<and> c \<noteq> 10 \<and> c \<noteq> 32) s"

fun fill_out :: "buffer \<Rightarrow> u32 \<Rightarrow> nat \<Rightarrow> u32 \<Rightarrow> buffer" where
  "fill_out [] j n x = []"
| "fill_out (c # s) j n x = (let m = base64_dec_map ! unat c; j = j - (if m = 64 then 1 else 0);
       x = push_bit 6 x OR (ucast m AND 0x3F) in
     if n + 1 = 4 then (if j > 0 then [ucast (drop_bit 16 x)] else []) @ (if j > 1 then [ucast (drop_bit 8 x)] else [])
       @ (if j > 2 then [ucast x] else []) @ fill_out s j 0 x
     else fill_out s j (n + 1) x)"

lemma dec_fill_significant: "dec_fill s = dec_fill (significant s)"
proof (induction s)
  case (Cons c s)
  then show ?case by (intro ext) (simp add: significant_def Let_def cong: if_cong)
qed (simp add: significant_def)

lemma put_three:
  assumes "ys = (if P1 then [a] else []) @ (if P2 then [b] else []) @ (if P3 then [c :: u8] else [])"
    and "q + length ys \<le> length d"
  shows "do { p \<leftarrow> (if P1 then put_char a (d, q) else Some (d, q)); p \<leftarrow> (if P2 then put_char b p else Some p);
      p \<leftarrow> (if P3 then put_char c p else Some p); k p } = k (overlay d q ys, q + length ys)"
  using assms(2) overlay_overlay [of q "[a]" "[b]" d] overlay_overlay [of q "[a]" "[c]" d]
    overlay_overlay [of q "[a, b]" "[c]" d] overlay_overlay [of q "[b]" "[c]" d] unfolding assms(1)
  by (cases P1; cases P2; cases P3) (simp_all add: put.wr_law)

lemma length_dec_map: "length base64_dec_map = 128"
  by (simp add: base64_dec_map_def)

lemma dec_fill_out:
  assumes "\<forall>c \<in> set s. c \<le> 127 \<and> c \<notin> {13, 10, 32}" and "q + length (fill_out s j n x) \<le> length d"
  shows "dec_fill s j n x (d, q) = Some (overlay d q (fill_out s j n x), q + length (fill_out s j n x))"
  using assms
proof (induction s arbitrary: j n x d q)
  case (Cons c s)
  let ?m = "base64_dec_map ! unat c"
  define j' x' where d: "j' = j - (if ?m = 64 then 1 else 0)" "x' = push_bit 6 x OR (ucast ?m AND 0x3F)"
  have "unat c < 128" using Cons.prems(1) by (simp add: word_le_nat_alt)
  then have m: "mem_read base64_dec_map (unat c) = Some ?m" by (simp add: mem_read_def length_dec_map)
  show ?case
  proof (cases "n + 1 = 4")
    case False
    then have o: "fill_out (c # s) j n x = fill_out s j' (n + 1) x'" by (simp add: d Let_def)
    have "dec_fill (c # s) j n x (d, q) = dec_fill s j' (n + 1) x' (d, q)"
      using Cons.prems(1) m False by (simp add: d Let_def)
    then show ?thesis using Cons.IH [of q j' "n + 1" x' d] Cons.prems by (simp only: o) simp
  next
    case True
    define ys where "ys = (if j' > 0 then [ucast (drop_bit 16 x')] else []) @ (if j' > 1 then [ucast (drop_bit 8 x')] else [])
      @ (if j' > 2 then [ucast x' :: u8] else [])"
    have o: "fill_out (c # s) j n x = ys @ fill_out s j' 0 x'"
      using True by (simp add: d ys_def Let_def)
    have l: "q + length ys + length (fill_out s j' 0 x') \<le> length d"
      using Cons.prems(2) unfolding o by simp
    have "\<not> (c = 13 \<or> c = 10 \<or> c = 32)" using Cons.prems(1) by simp
    then have "dec_fill (c # s) j n x (d, q) = dec_fill s j' 0 x' (overlay d q ys, q + length ys)"
      unfolding dec_fill.simps Let_def m if_not_P bind.bind_lunit True d [symmetric]
      using put_three [OF ys_def, of q d "\<lambda>p. dec_fill s j' 0 x' p"] l by simp
    then show ?thesis
      using Cons.IH [of "q + length ys" j' 0 x' "overlay d q ys"] Cons.prems l
        overlay_overlay [of q ys "fill_out s j' 0 x'" d] unfolding o by (simp add: add.assoc)
  qed
qed simp

lemma dec_map_values:
  "list_all (\<lambda>i. base64_dec_map ! i = 127 \<or> base64_dec_map ! i < 64 \<and> i \<notin> {10, 13, 32, 61}
     \<or> i = 61 \<and> base64_dec_map ! i = 64) [0..<128]"
  by code_simp

lemma dec_map_cases:
  assumes "(c :: u8) \<le> 127" and "base64_dec_map ! unat c \<noteq> 127"
  shows "(base64_dec_map ! unat c < 64 \<and> c \<notin> {10, 13, 32, 61}) \<or> (c = 61 \<and> base64_dec_map ! unat c = 64)"
proof -
  have l: "unat c < 128" using assms(1) by (simp add: word_le_nat_alt)
  have v: "unat c \<notin> {10, 13, 32, 61} \<longleftrightarrow> c \<notin> {10, 13, 32, 61}" "unat c = 61 \<longleftrightarrow> c = 61"
    by (auto simp: word_unat_eq_iff)
  have "base64_dec_map ! unat c = 127 \<or> base64_dec_map ! unat c < 64 \<and> unat c \<notin> {10, 13, 32, 61}
     \<or> unat c = 61 \<and> base64_dec_map ! unat c = 64"
    using dec_map_values l unfolding list_all_iff by (metis atLeastLessThan_iff le0 set_upt)
  then show ?thesis using assms(2) v by blast
qed

text \<open>An accepted source: characters of the alphabet, then at most two padding characters.\<close>

lemma dec_scan_accepts:
  "dec_scan s n j = Inr (n', j') \<Longrightarrow> j \<le> 2 \<Longrightarrow> \<exists>cs e. significant s = cs @ replicate e 61 \<and>
     n' = n + length cs + e \<and> j' = j + e \<and> j' \<le> 2 \<and> (j \<noteq> 0 \<longrightarrow> cs = []) \<and>
     (\<forall>c \<in> set cs. c \<le> 127 \<and> base64_dec_map ! unat c < 64)"
proof (induction s n j rule: dec_scan.induct)
  case (1 s n j)
  define r where "r = dropWhile (\<lambda>c. c = 32) s"
  have sig: "significant s = significant r"
    unfolding r_def by (induction s) (auto simp: significant_def)
  note scan = "1.prems"(1) [unfolded dec_scan.simps [of s n j] Let_def, folded r_def]
  show ?case
  proof (cases r)
    case Nil
    then show ?thesis using scan "1.prems"(2) sig by (auto simp: significant_def)
  next
    case (Cons c s')
    note IH = "1.IH" [OF refl refl, folded r_def, OF Cons]
    show ?thesis
    proof (cases "2 \<le> length r \<and> c = 13 \<and> s' ! 0 = 10 \<or> c = 10")
      case True
      then have "dec_scan s' n j = Inr (n', j')" using scan Cons by (auto split: if_splits)
      then have "\<exists>cs e. significant s' = cs @ replicate e 61 \<and>
         n' = n + length cs + e \<and> j' = j + e \<and> j' \<le> 2 \<and> (j \<noteq> 0 \<longrightarrow> cs = []) \<and>
         (\<forall>c \<in> set cs. c \<le> 127 \<and> base64_dec_map ! unat c < 64)"
        using IH(1) IH(2) True "1.prems"(2) by blast
      moreover have "significant s = significant s'" using True Cons sig by (auto simp: significant_def)
      ultimately show ?thesis by simp
    next
      case False
      let ?j = "if c = 61 then j + 1 else j"
      have ok: "length (takeWhile (\<lambda>c. c = 32) s) = 0" "\<not> (c = 61 \<and> 2 < ?j)"
        "\<not> (127 < c \<or> base64_dec_map ! unat c = 127)" "\<not> (base64_dec_map ! unat c < 64 \<and> ?j \<noteq> 0)"
        "dec_scan s' (n + 1) ?j = Inr (n', j')"
        using scan False Cons by (auto simp: Let_def split: if_splits)
      obtain cs e where cs: "significant s' = cs @ replicate e 61" "n' = n + 1 + length cs + e" "j' = ?j + e"
        "j' \<le> 2" "?j \<noteq> 0 \<longrightarrow> cs = []" "\<forall>c \<in> set cs. c \<le> 127 \<and> base64_dec_map ! unat c < 64"
        using IH(3) [OF _ _ _ refl ok(2-4)] False ok(1,5) ok(2) "1.prems"(2) by (auto split: if_splits)
      have "(base64_dec_map ! unat c < 64 \<and> c \<notin> {10, 13, 32, 61}) \<or> (c = 61 \<and> base64_dec_map ! unat c = 64)"
        using dec_map_cases [of c] ok(3) by (auto simp: not_less)
      then show ?thesis
      proof
        assume c: "c = 61 \<and> base64_dec_map ! unat c = 64"
        then have "significant s = replicate (Suc e) 61" using cs sig Cons by (auto simp: significant_def)
        then show ?thesis using c cs by (intro exI [of _ "[]"] exI [of _ "Suc e"]) auto
      next
        assume c: "base64_dec_map ! unat c < 64 \<and> c \<notin> {10, 13, 32, 61}"
        then have "significant s = (c # cs) @ replicate e 61" using cs sig Cons by (auto simp: significant_def)
        then show ?thesis using c cs ok(3,4) by (intro exI [of _ "c # cs"] exI [of _ e]) auto
      qed
    qed
  qed
qed

section \<open>How much it writes\<close>

lemma fill_out_alphabet:
  assumes "\<forall>c \<in> set cs. base64_dec_map ! unat c < 64" and "n < 4"
  shows "\<exists>x' ys. fill_out (cs @ r) 3 n x = ys @ fill_out r 3 ((n + length cs) mod 4) x'
    \<and> length ys = 3 * ((n + length cs) div 4)"
  using assms
proof (induction cs arbitrary: n x)
  case (Cons c cs)
  let ?m = "base64_dec_map ! unat c" and ?x = "push_bit 6 x OR (ucast (base64_dec_map ! unat c) AND 0x3F)"
  have m: "?m \<noteq> 64" using Cons.prems(1) by auto
  show ?case
  proof (cases "n + 1 = 4")
    case True
    obtain x' ys where "fill_out (cs @ r) 3 0 ?x = ys @ fill_out r 3 (length cs mod 4) x'"
      "length ys = 3 * (length cs div 4)"
      using Cons.IH [of 0 ?x] Cons.prems by auto
    moreover have "(n + length (c # cs)) div 4 = Suc (length cs div 4)" "(n + length (c # cs)) mod 4 = length cs mod 4"
      using True div_add_self1 [of 4 "length cs"] by simp_all
    ultimately show ?thesis
      using m True
      by (intro exI [of _ x'] exI [of _ "[ucast (drop_bit 16 ?x), ucast (drop_bit 8 ?x), ucast ?x] @ ys"])
        (simp add: Let_def)
  next
    case False
    then show ?thesis using Cons.IH [of "n + 1" ?x] Cons.prems m by (simp add: Let_def)
  qed
qed (use assms in auto)

lemma fill_out_pad:
  "length (fill_out [61] 3 r x) = (if r = 3 then 2 else 0)"
  "length (fill_out [61, 61] 3 r x) = (if r = 3 then 2 else if r = 2 then 1 else 0)"
proof -
  have pad: "base64_dec_map ! unat (61 :: u8) = 64" by code_simp
  show "length (fill_out [61] 3 r x) = (if r = 3 then 2 else 0)"
    unfolding fill_out.simps Let_def pad by simp
  show "length (fill_out [61, 61] 3 r x) = (if r = 3 then 2 else if r = 2 then 1 else 0)"
    unfolding fill_out.simps Let_def pad by simp
qed

lemma fill_out_length:
  assumes "\<forall>c \<in> set cs. base64_dec_map ! unat c < 64" and "e \<le> 2"
  shows "length (fill_out (cs @ replicate e 61) 3 0 x) \<le> ((length cs + e) * 6 + 7) div 8 - e"
proof -
  obtain x' ys where f: "fill_out (cs @ replicate e 61) 3 0 x = ys @ fill_out (replicate e 61) 3 (length cs mod 4) x'"
    and ys: "length ys = 3 * (length cs div 4)"
    using fill_out_alphabet [OF assms(1), of 0 "replicate e 61" x] by auto
  define q r where qr: "q = length cs div 4" "r = length cs mod 4"
  have r: "r \<in> {0, 1, 2, 3}" and l: "length cs = 4 * q + r" by (auto simp: qr)
  have e: "e \<in> {0, 1, 2}" using assms(2) by auto
  have "length (fill_out (replicate e 61) 3 r x') = (if r = 3 \<and> 0 < e then 2 else if r = 2 \<and> e = 2 then 1 else 0)"
    using e fill_out_pad [of r x'] by (elim insertE emptyE) (simp_all add: numeral_2_eq_2)
  also have "\<dots> \<le> ((r + e) * 6 + 7) div 8 - e" using r e by (elim insertE emptyE) simp_all
  finally have le: "length (fill_out (replicate e 61) 3 r x') \<le> ((r + e) * 6 + 7) div 8 - e" .
  have "(4 * q + r + e) * 6 + 7 = 8 * (3 * q) + ((r + e) * 6 + 7)" by simp
  then have d: "((4 * q + r + e) * 6 + 7) div 8 = 3 * q + ((r + e) * 6 + 7) div 8" by (simp only: div_mult_self4)
  have "e \<le> ((r + e) * 6 + 7) div 8" using r e by (elim insertE emptyE) simp_all
  then have "3 * q + length (fill_out (replicate e 61) 3 r x') \<le> ((4 * q + r + e) * 6 + 7) div 8 - e"
    using le unfolding d by linarith
  moreover have "length (fill_out (cs @ replicate e 61) 3 0 x) = 3 * q + length (fill_out (replicate e 61) 3 r x')"
    by (simp only: f ys length_append qr)
  ultimately show ?thesis unfolding l by (simp only:)
qed

section \<open>Round trip\<close>

lemma alphabet_decodes:
  "list_all (\<lambda>v. alphabet v \<le> 127 \<and> alphabet v \<notin> {10, 13, 32, 61} \<and> base64_dec_map ! unat (alphabet v) = of_nat v) [0..<64]"
  by code_simp

lemma alphabetD:
  assumes "v < 64"
  shows "alphabet v \<le> 127" "alphabet v \<notin> {10, 13, 32, 61}" "base64_dec_map ! unat (alphabet v) = of_nat v"
    "base64_dec_map ! unat (alphabet v) < 64"
proof -
  show "alphabet v \<le> 127" "alphabet v \<notin> {10, 13, 32, 61}" and e: "base64_dec_map ! unat (alphabet v) = of_nat v"
    using alphabet_decodes assms by (auto simp: list_all_iff)
  show "base64_dec_map ! unat (alphabet v) < 64"
    using assms by (simp add: e word_less_nat_alt unat_of_nat)
qed

text \<open>The accumulator is a number: a character appends a digit to base 64.\<close>

lemma push_digit:
  assumes "v < 64"
  shows "push_bit 6 (of_nat X :: u32) OR (ucast (of_nat v :: u8) AND 0x3F) = of_nat (X * 64 + v)"
proof -
  have u: "unat (ucast (of_nat v :: u8) AND 0x3F :: u32) = v"
    using unat_mask [of 63 6 "ucast (of_nat v :: u8) :: u32"] assms by (simp add: unat_of_byte unat_of_nat)
  then have e: "(ucast (of_nat v :: u8) AND 0x3F :: u32) = of_nat v"
    by (metis of_nat_unat ucast_id)
  have "push_bit 6 (of_nat X :: u32) OR of_nat v = push_bit 6 (of_nat X) + of_nat v"
    using assms by (intro or_low) (simp add: unat_of_nat)
  then show ?thesis by (simp add: e push_bit_eq_mult)
qed

lemma byte_of_nat:
  assumes "i \<le> 3"
  shows "(ucast (drop_bit (8 * i) (of_nat n :: u32)) :: u8) = of_nat (n div 256 ^ i)"
proof -
  have "n div 256 ^ i = drop_bit (8 * i) n" using power_mult [of "2 :: nat" 8 i] by (simp add: drop_bit_eq_div)
  then show ?thesis using assms by (intro bit_word_eqI) (auto simp: bit_simps bit_of_nat_iff)
qed

text \<open>A full group of four digits, and one that ends in padding.\<close>

lemma fill_digit:
  assumes "v < 64"
  shows "fill_out (alphabet v # s) 3 n (of_nat X) = (if n + 1 = 4
     then map (\<lambda>i. of_nat ((X * 64 + v) div 256 ^ i)) [2, 1, 0] @ fill_out s 3 0 (of_nat (X * 64 + v))
     else fill_out s 3 (n + 1) (of_nat (X * 64 + v)))"
proof -
  have ne: "base64_dec_map ! unat (alphabet v) \<noteq> 64" using alphabetD(4) [OF assms] by auto
  note b = byte_of_nat [of 2 "X * 64 + v"] byte_of_nat [of 1 "X * 64 + v"] byte_of_nat [of 0 "X * 64 + v"]
  show ?thesis
    using ne b unfolding fill_out.simps Let_def alphabetD(3) [OF assms] push_digit [OF assms] by simp
qed

lemma fill_pad:
  assumes "j = 3 \<or> j = 2"
  shows "fill_out (61 # s) j n (of_nat X) = (if n + 1 = 4
     then map (\<lambda>i. of_nat (X * 64 div 256 ^ i)) (if j = 3 then [2, 1] else [2]) @ fill_out s (j - 1) 0 (of_nat (X * 64))
     else fill_out s (j - 1) (n + 1) (of_nat (X * 64)))"
proof -
  have pad: "base64_dec_map ! unat (61 :: u8) = 64" by code_simp
  have z: "push_bit 6 (of_nat X) OR (ucast (64 :: u8) AND 0x3F :: u32) = of_nat (X * 64)"
    using push_digit [of 0 X] by (simp add: push_bit_eq_mult)
  note b = byte_of_nat [of 2 "X * 64"] byte_of_nat [of 1 "X * 64"]
  show ?thesis
    using assms b unfolding fill_out.simps Let_def pad z by auto
qed

lemma fill_group:
  assumes "v0 < 64" "v1 < 64"
  shows "v2 < 64 \<Longrightarrow> v3 < 64 \<Longrightarrow> fill_out (map alphabet [v0, v1, v2, v3] @ s) 3 0 (of_nat X)
      = map (\<lambda>i. of_nat (((((X * 64 + v0) * 64 + v1) * 64 + v2) * 64 + v3) div 256 ^ i)) [2, 1, 0]
        @ fill_out s 3 0 (of_nat ((((X * 64 + v0) * 64 + v1) * 64 + v2) * 64 + v3))"
    and "v2 < 64 \<Longrightarrow> fill_out (map alphabet [v0, v1, v2] @ [61]) 3 0 (of_nat X)
      = map (\<lambda>i. of_nat ((((X * 64 + v0) * 64 + v1) * 64 + v2) * 64 div 256 ^ i)) [2, 1]"
    and "fill_out (map alphabet [v0, v1] @ [61, 61]) 3 0 (of_nat X)
      = map (\<lambda>i. of_nat (((X * 64 + v0) * 64 + v1) * 64 * 64 div 256 ^ i)) [2]"
  using assms by (simp_all add: fill_digit fill_pad del: fill_out.simps(2) of_nat_mult of_nat_add)

lemma byte_digit: "of_nat (256 * k + unat (b :: u8)) = b"
  by (simp only: word_unat_eq_iff unat_of_nat) (simp add: byte_lt)

text \<open>The bytes of an accumulator that ends in three bytes.\<close>

lemma last_bytes:
  fixes X :: nat and a b c :: u8
  defines "Y \<equiv> X * 64 ^ 4 + ((unat a * 256 + unat b) * 256 + unat c)"
  shows "of_nat (Y div 256 ^ 2) = a" "of_nat (Y div 256 ^ 1) = b" "of_nat (Y div 256 ^ 0) = c"
proof -
  have e: "Y = 65536 * (256 * X + unat a) + (256 * unat b + unat c)"
    "Y = 256 * (256 * (256 * X + unat a) + unat b) + unat c" by (simp_all add: Y_def)
  have "Y div 65536 = 256 * X + unat a" "Y div 256 = 256 * (256 * X + unat a) + unat b"
    using byte_lt [of b] byte_lt [of c] e by (intro div_nat_eqI; simp)+
  then show "of_nat (Y div 256 ^ 2) = a" "of_nat (Y div 256 ^ 1) = b" "of_nat (Y div 256 ^ 0) = c"
    using byte_digit [of X a] byte_digit [of "256 * X + unat a" b]
      byte_digit [of "256 * (256 * X + unat a) + unat b" c] e(2) by simp_all
qed

lemma digits_number:
  fixes N :: nat
  shows "N div 64 ^ 3 * 64 + N div 64 ^ 2 mod 64 = N div 64 ^ 2" "N div 64 ^ 2 * 64 + N div 64 mod 64 = N div 64"
    "N div 64 * 64 + N mod 64 = N"
proof -
  have "N div 64 ^ 3 = N div 64 ^ 2 div 64" "N div 64 ^ 2 = N div 64 div 64" by (simp_all add: div_mult2_eq [symmetric])
  then show "N div 64 ^ 3 * 64 + N div 64 ^ 2 mod 64 = N div 64 ^ 2" "N div 64 ^ 2 * 64 + N div 64 mod 64 = N div 64"
    "N div 64 * 64 + N mod 64 = N" by (simp_all only: div_mult_mod_eq)
qed

lemma fill_out_rfc: "fill_out (rfc4648 bs) 3 0 (of_nat X) = bs"
proof (induction bs arbitrary: X rule: rfc4648.induct)
  case (1 a b c bs)
  define N where "N = (unat a * 256 + unat b) * 256 + unat c"
  have lt: "N < 64 ^ 4" using byte_lt [of a] byte_lt [of b] byte_lt [of c] unfolding N_def by simp
  have v: "N div 64 ^ 3 < 64" "N div 64 ^ 2 mod 64 < 64" "N div 64 mod 64 < 64" "N mod 64 < 64"
    using lt by (simp_all add: div_less_iff_less_mult)
  let ?Y = "(((X * 64 + N div 64 ^ 3) * 64 + N div 64 ^ 2 mod 64) * 64 + N div 64 mod 64) * 64 + N mod 64"
  have "?Y = X * 64 ^ 4 + (((N div 64 ^ 3 * 64 + N div 64 ^ 2 mod 64) * 64 + N div 64 mod 64) * 64 + N mod 64)"
    by (simp add: algebra_simps)
  then have Y: "?Y = X * 64 ^ 4 + N" by (simp only: digits_number)
  have bytes: "map (\<lambda>i. of_nat ((X * 64 ^ 4 + N) div 256 ^ i)) [2, 1, 0] = [a, b, c]"
    using last_bytes [of X a b c] by (simp add: N_def)
  show ?case
    unfolding rfc4648.simps Let_def N_def [symmetric]
    unfolding fill_group(1) [OF v] Y bytes "1.IH" [OF refl] by simp
next
  case (2 a b)
  define N where "N = (unat a * 256 + unat b) * 4"
  have lt: "N < 64 ^ 3" using byte_lt [of a] byte_lt [of b] unfolding N_def by simp
  have v: "N div 64 ^ 2 < 64" "N div 64 mod 64 < 64" "N mod 64 < 64"
    using lt by (simp_all add: div_less_iff_less_mult)
  let ?Y = "((X * 64 + N div 64 ^ 2) * 64 + N div 64 mod 64) * 64 + N mod 64"
  have "?Y = X * 64 ^ 3 + ((N div 64 ^ 2 * 64 + N div 64 mod 64) * 64 + N mod 64)"
    by (simp add: algebra_simps)
  then have "?Y = X * 64 ^ 3 + N" by (simp only: digits_number)
  then have Y: "?Y * 64 = X * 64 ^ 4 + ((unat a * 256 + unat b) * 256 + unat (0 :: u8))"
    by (simp add: N_def)
  have bytes: "map (\<lambda>i. of_nat (?Y * 64 div 256 ^ i)) [2, 1] = [a, b]"
    unfolding Y using last_bytes [of X a b 0] by simp
  show ?case
    unfolding rfc4648.simps Let_def N_def [symmetric] fill_group(2) [OF v] bytes by (rule refl)
next
  case (3 a)
  define N where "N = unat a * 16"
  have lt: "N < 64 ^ 2" using byte_lt [of a] unfolding N_def by simp
  have v: "N div 64 < 64" "N mod 64 < 64"
    using lt by (simp_all add: div_less_iff_less_mult)
  let ?Y = "(X * 64 + N div 64) * 64 + N mod 64"
  have "?Y = X * 64 ^ 2 + (N div 64 * 64 + N mod 64)"
    by (simp add: algebra_simps)
  then have "?Y = X * 64 ^ 2 + N" by (simp only: digits_number)
  then have Y: "?Y * 64 * 64 = X * 64 ^ 4 + ((unat a * 256 + unat (0 :: u8)) * 256 + unat (0 :: u8))"
    by (simp add: N_def)
  have bytes: "map (\<lambda>i. of_nat (?Y * 64 * 64 div 256 ^ i)) [2] = [a]"
    unfolding Y using last_bytes [of X a 0 0] by simp
  show ?case
    unfolding rfc4648.simps Let_def N_def [symmetric] fill_group(3) [OF v] bytes by (rule refl)
qed simp

lemma dec_scan_plain:
  assumes "c \<le> 127" and "base64_dec_map ! unat c \<noteq> 127" and "c \<noteq> 61 \<Longrightarrow> j = 0" and "c = 61 \<Longrightarrow> j < 2"
  shows "dec_scan (c # s) n j = dec_scan s (n + 1) (if c = 61 then j + 1 else j)"
  using dec_map_cases [OF assms(1,2)] assms by (subst dec_scan.simps) (auto simp: Let_def not_less)

lemma dec_scan_text:
  assumes "\<forall>v \<in> set vs. v < 64" and "e \<le> 2"
  shows "dec_scan (map alphabet vs @ replicate e 61) n 0 = Inr (n + length vs + e, e)"
  using assms
proof (induction vs arbitrary: n)
  case Nil
  have nil: "dec_scan [] n j = Inr (n, j)" for n j by (subst dec_scan.simps) simp
  have pad: "base64_dec_map ! unat (61 :: u8) \<noteq> 127" by code_simp
  have r2: "replicate 2 (61 :: u8) = [61, 61]" by (simp add: numeral_2_eq_2)
  have step: "j < 2 \<Longrightarrow> dec_scan (61 # s) n j = dec_scan s (n + 1) (j + 1)" for s n j
    using dec_scan_plain [of 61 j s n, OF _ pad] by simp
  have "e \<in> {0, 1, 2}" using Nil by auto
  then show ?case using step nil r2 by auto
next
  case (Cons v vs)
  have "alphabet v \<le> 127" "base64_dec_map ! unat (alphabet v) \<noteq> 127" "alphabet v \<noteq> 61"
    using alphabetD [of v] Cons.prems(1) by auto
  then show ?case using dec_scan_plain [of "alphabet v" 0] Cons.IH [of "n + 1"] Cons.prems by simp
qed

lemma rfc4648_shape:
  "\<exists>vs e. rfc4648 bs = map alphabet vs @ replicate e 61 \<and> e \<le> 2 \<and> (\<forall>v \<in> set vs. v < 64)
     \<and> 3 * (length (rfc4648 bs)) = 4 * (length bs + e)"
proof (induction bs rule: rfc4648.induct)
  case (1 a b c bs)
  define N where "N = (unat a * 256 + unat b) * 256 + unat c"
  have "N < 64 ^ 4" using byte_lt [of a] byte_lt [of b] byte_lt [of c] unfolding N_def by simp
  then have v: "\<forall>v \<in> set [N div 64 ^ 3, N div 64 ^ 2 mod 64, N div 64 mod 64, N mod 64]. v < 64"
    by (simp add: div_less_iff_less_mult)
  define ds where "ds = [N div 64 ^ 3, N div 64 ^ 2 mod 64, N div 64 mod 64, N mod 64]"
  have tx: "rfc4648 (a # b # c # bs) = map alphabet ds @ rfc4648 bs"
    by (simp only: rfc4648.simps Let_def N_def ds_def)
  have ds: "length ds = 4" "\<forall>v \<in> set ds. v < 64" using v by (simp_all only: ds_def list.size)
  obtain vs e where "rfc4648 bs = map alphabet vs @ replicate e 61" "e \<le> 2" "\<forall>v \<in> set vs. v < 64"
    "3 * (length (rfc4648 bs)) = 4 * (length bs + e)" using 1 by auto
  then show ?case
    using ds unfolding tx by (intro exI [of _ "ds @ vs"] exI [of _ e]) auto
next
  case (2 a b)
  define N where "N = (unat a * 256 + unat b) * 4"
  have "N < 64 ^ 3" using byte_lt [of a] byte_lt [of b] unfolding N_def by simp
  then have v: "\<forall>v \<in> set [N div 64 ^ 2, N div 64 mod 64, N mod 64]. v < 64"
    by (simp add: div_less_iff_less_mult)
  then show ?case
    unfolding rfc4648.simps Let_def N_def [symmetric]
    by (intro exI [of _ "[N div 64 ^ 2, N div 64 mod 64, N mod 64]"] exI [of _ 1]) simp
next
  case (3 a)
  define N where "N = unat a * 16"
  have "N < 64 ^ 2" using byte_lt [of a] unfolding N_def by simp
  then have v: "\<forall>v \<in> set [N div 64, N mod 64]. v < 64" by (simp add: div_less_iff_less_mult)
  then show ?case
    unfolding rfc4648.simps Let_def N_def [symmetric]
    by (intro exI [of _ "[N div 64, N mod 64]"] exI [of _ 2]) (simp add: numeral_2_eq_2)
qed simp

text \<open>On any source the decoder reads inside the source and its table and writes inside the
  destination: it either fails and writes nothing, or stores \<open>olen\<close> bytes, at most the given size.\<close>

theorem base64_decode_safe:
  assumes "length src < 2 ^ 29" and "dlen \<le> length d"
  shows "\<exists>rc n d'. qcloud_iot_utils_base64decode (Some d) dlen olen src = Some (rc, n, Some d') \<and> length d' = length d
    \<and> (rc = 0 \<and> n \<le> dlen \<and> drop n d' = drop n d \<or> rc = QCLOUD_ERR_FAILURE \<and> d' = d)"
proof (cases "dec_scan src 0 0")
  case (Inl rc)
  have "dec_scan s n j = Inl rc \<Longrightarrow> rc = QCLOUD_ERR_FAILURE" for s n j
  proof (induction s n j rule: dec_scan.induct)
    case (1 s n j)
    then show ?case by (subst (asm) (4) dec_scan.simps) (auto simp: Let_def split: list.splits if_splits)
  qed
  then show ?thesis using Inl by (simp add: qcloud_iot_utils_base64decode_def)
next
  case (Inr r)
  then obtain n j where r: "dec_scan src 0 0 = Inr (n, j)" by (cases r) auto
  then obtain cs where cs: "significant src = cs @ replicate j 61" "n = length cs + j" "j \<le> 2"
    "\<forall>c \<in> set cs. c \<le> 127 \<and> base64_dec_map ! unat c < 64"
    using dec_scan_accepts [OF r] by auto
  have "length (significant src) < 2 ^ 29"
    using assms(1) le_less_trans [OF length_filter_le] unfolding significant_def by blast
  then have n: "(n * 6 + 7) mod 2 ^ 32 = n * 6 + 7" using cs(1,2) by simp
  let ?out = "fill_out (significant src) 3 0 0"
  have len: "length ?out \<le> (n * 6 + 7) div 8 - j"
    using fill_out_length [of cs j 0] cs by simp
  have ok: "\<forall>c \<in> set (significant src). c \<le> 127 \<and> c \<notin> {13, 10, 32}"
  proof
    fix c
    assume c: "c \<in> set (significant src)"
    then have "c \<notin> {13, 10, 32}" by (auto simp: significant_def)
    moreover have "c \<le> 127" using c cs(4) unfolding cs(1) by auto
    ultimately show "c \<le> 127 \<and> c \<notin> {13, 10, 32}" by simp
  qed
  have "dec_fill src 3 0 0 (d, 0) = Some (overlay d 0 ?out, length ?out)" if "(n * 6 + 7) div 8 - j \<le> dlen"
    using dec_fill_out [OF ok, of 0 3 0 0 d] len that assms(2) by (simp add: dec_fill_significant [of src])
  then show ?thesis
    using r n len assms(2) drop_overlay [of 0 ?out d] by (auto simp: qcloud_iot_utils_base64decode_def Let_def)
qed

theorem base64_decode_safe_witness:
  "\<exists>rc n d'. qcloud_iot_utils_base64decode (Some [0, 0]) (length [0, 0]) 7 [81, 61, 32] = Some (rc, n, Some d')
    \<and> length d' = length [0, 0] \<and> (rc = 0 \<and> n \<le> length [0, 0] \<and> drop n d' = drop n [0, 0] \<or> rc = QCLOUD_ERR_FAILURE \<and> d' = [0, 0])"
  using base64_decode_safe [of "[81, 61, 32]" "length [0, 0]" "[0, 0]" 7] by simp

text \<open>C22: Decoding what was encoded gives the source back, in a destination of exactly its size.\<close>

theorem base64_roundtrip:
  assumes "length src < 2 ^ 28" and "length (rfc4648 src) < dlen" and "dlen \<le> length d" and "length src \<le> length d2"
  shows "\<exists>n t. qcloud_iot_utils_base64encode (Some d) dlen src = Some (0, n, Some t)
    \<and> qcloud_iot_utils_base64decode (Some d2) (length src) olen (take n t) = Some (0, length src, Some (overlay d2 0 src))"
proof -
  let ?t = "rfc4648 src"
  have "qcloud_iot_utils_base64encode (Some d) dlen src = Some (0, length ?t, Some (overlay d 0 (?t @ [0])))
      \<or> src = [] \<and> qcloud_iot_utils_base64encode (Some d) dlen src = Some (0, 0, Some d)"
    using enc_rfc [of src dlen d] assms by auto
  moreover have "take (length ?t) (overlay d 0 (?t @ [0])) = ?t"
    using assms(2,3) by (simp add: overlay_def)
  moreover have "qcloud_iot_utils_base64decode (Some d2) (length src) olen ?t = Some (0, length src, Some (overlay d2 0 src))"
  proof (cases "src = []")
    case True
    then show ?thesis by (simp add: qcloud_iot_utils_base64decode_def dec_scan.simps)
  next
    case False
    obtain vs e where t: "?t = map alphabet vs @ replicate e 61" "e \<le> 2" "\<forall>v \<in> set vs. v < 64"
      "3 * length ?t = 4 * (length src + e)"
      using rfc4648_shape by blast
    let ?n = "length vs + e"
    have scan: "dec_scan ?t 0 0 = Inr (?n, e)" using dec_scan_text [OF t(3,2), of 0] t(1) by simp
    have l: "length ?t = ?n" by (simp add: t(1))
    have n: "(?n * 6 + 7) mod 2 ^ 32 div 8 - e = length src" "?n \<noteq> 0"
      using t(2,4) l False assms(1) by auto
    have sig: "\<forall>c \<in> set ?t. c \<le> 127 \<and> c \<notin> {13, 10, 32}"
      using t(1,3) alphabetD(1,2) by auto
    have out: "fill_out ?t 3 0 0 = src" using fill_out_rfc [of src 0] by simp
    have "dec_fill ?t 3 0 0 (d2, 0) = Some (overlay d2 0 src, length src)"
      using dec_fill_out [OF sig, of 0 3 0 0 d2] assms(4) unfolding out by simp
    then show ?thesis using n(2) unfolding qcloud_iot_utils_base64decode_def scan sum.case Let_def case_prod_conv n(1)
      by auto
  qed
  ultimately show ?thesis by auto
qed

theorem base64_roundtrip_witness:
  "\<exists>n t. qcloud_iot_utils_base64encode (Some (replicate 9 0)) 9 [1, 2, 3, 4] = Some (0, n, Some t)
    \<and> qcloud_iot_utils_base64decode (Some [0, 0, 0, 0]) (length [1, 2, 3, 4 :: u8]) 0 (take n t)
      = Some (0, length [1, 2, 3, 4 :: u8], Some [1, 2, 3, 4])"
  using base64_roundtrip [of "[1, 2, 3, 4]" 9 "replicate 9 0" "[0, 0, 0, 0]" 0]
  by (simp add: length_rfc4648 overlay_def del: rfc4648.simps)

end
