(* ===== verification/Coap_Codec.thy ===== *)
theory Coap_Codec
  imports Qc_Words Hal_Timer
begin

text \<open>
  CoAP messages: the message object and its setters (\<^verbatim>\<open>coap_client_common.c\<close>), the serialiser
  (\<^verbatim>\<open>coap_client_serialize.c\<close>) and the deserialiser (\<^verbatim>\<open>coap_client_deserialize.c\<close>).

  \<^item> the linked list of options is the list of its nodes in order; \<open>val\<close> is the copied value.
  \<^item> a serialiser works at offset \<open>p\<close> of the destination block and is given the length that the
    code believes to be left; it returns the code's result (a negative number is an error) and the
    block. A write outside the block is undefined, a write behind the believed length is not.
  \<^item> the world is threaded for the allocations of the deserialiser. \<open>ENOSPC\<close>, \<open>EINVAL\<close> and
    \<open>ENOMEM\<close> have newlib's values.
\<close>

section \<open>Messages\<close>

definition COAP_MSG_VER :: nat where "COAP_MSG_VER = 1"
definition COAP_MSG_MAX_MSG_ID :: nat where "COAP_MSG_MAX_MSG_ID = 65535"
definition COAP_MSG_MAX_TOKEN_LEN :: nat where "COAP_MSG_MAX_TOKEN_LEN = 8"
definition COAP_MSG_MAX_CODE_CLASS :: nat where "COAP_MSG_MAX_CODE_CLASS = 7"
definition COAP_MSG_MAX_CODE_DETAIL :: nat where "COAP_MSG_MAX_CODE_DETAIL = 31"

lemmas coap_consts = COAP_MSG_VER_def COAP_MSG_MAX_MSG_ID_def COAP_MSG_MAX_TOKEN_LEN_def
  COAP_MSG_MAX_CODE_CLASS_def COAP_MSG_MAX_CODE_DETAIL_def

abbreviation (input) COAP_MSG_CON :: nat where "COAP_MSG_CON \<equiv> 0"
abbreviation (input) COAP_MSG_NON :: nat where "COAP_MSG_NON \<equiv> 1"
abbreviation (input) COAP_MSG_ACK :: nat where "COAP_MSG_ACK \<equiv> 2"
abbreviation (input) COAP_MSG_RST :: nat where "COAP_MSG_RST \<equiv> 3"
abbreviation (input) COAP_MSG_REQ :: nat where "COAP_MSG_REQ \<equiv> 0"
abbreviation (input) COAP_MSG_SUCCESS :: nat where "COAP_MSG_SUCCESS \<equiv> 2"
abbreviation (input) COAP_MSG_CLIENT_ERR :: nat where "COAP_MSG_CLIENT_ERR \<equiv> 4"
abbreviation (input) COAP_MSG_SERVER_ERR :: nat where "COAP_MSG_SERVER_ERR \<equiv> 5"
abbreviation (input) COAP_MSG_SDKINTERNAL_ERR :: nat where "COAP_MSG_SDKINTERNAL_ERR \<equiv> 6"
abbreviation (input) COAP_MSG_POST :: nat where "COAP_MSG_POST \<equiv> 2"

record CoAPMsgOption =
  option_num :: u16
  val_len :: nat
  val :: buffer

text \<open>\<open>pay_load\<close> is \<open>None\<close> for the null pointer.\<close>

record CoAPMessage =
  version :: nat
  cm_type :: nat
  code_class :: nat
  code_detail :: nat
  cm_msg_id :: u16
  pay_load :: "buffer option"
  pay_load_len :: nat
  token :: buffer
  token_len :: nat
  op_list :: "CoAPMsgOption list"
  cm_handler :: "nat option"
  cm_user_context :: nat

definition DEFAULT_COAP_MESSAGE :: CoAPMessage where
  "DEFAULT_COAP_MESSAGE = \<lparr>version = COAP_MSG_VER, cm_type = COAP_MSG_CON, code_class = COAP_MSG_REQ,
     code_detail = COAP_MSG_POST, cm_msg_id = 0, pay_load = None, pay_load_len = 0,
     token = replicate 8 0, token_len = 0, op_list = [], cm_handler = None, cm_user_context = 0\<rparr>"

text \<open>What \<open>coap_message_destroy\<close> and the initial \<open>memset\<close> of a received message leave.\<close>

definition coap_message_destroy :: "CoAPMessage \<Rightarrow> CoAPMessage" where
  "coap_message_destroy message = \<lparr>version = 0, cm_type = 0, code_class = 0, code_detail = 0, cm_msg_id = 0,
     pay_load = None, pay_load_len = 0, token = replicate 8 0, token_len = 0, op_list = [],
     cm_handler = None, cm_user_context = 0\<rparr>"

section \<open>Setters\<close>

definition coap_message_type_set :: "nat \<Rightarrow> CoAPMessage \<Rightarrow> int \<times> CoAPMessage" where
  "coap_message_type_set type message =
     (if type \<noteq> COAP_MSG_CON \<and> type \<noteq> COAP_MSG_NON \<and> type \<noteq> COAP_MSG_ACK \<and> type \<noteq> COAP_MSG_RST
      then (QCLOUD_ERR_INVAL, message)
      else (QCLOUD_RET_SUCCESS, message\<lparr>cm_type := type\<rparr>))"

definition coap_message_code_set :: "nat \<Rightarrow> nat \<Rightarrow> CoAPMessage \<Rightarrow> int \<times> CoAPMessage" where
  "coap_message_code_set class detail message =
     (if class > COAP_MSG_MAX_CODE_CLASS then (QCLOUD_ERR_INVAL, message)
      else if detail > COAP_MSG_MAX_CODE_DETAIL then (QCLOUD_ERR_INVAL, message)
      else (QCLOUD_RET_SUCCESS, message\<lparr>code_class := class, code_detail := detail\<rparr>))"

definition coap_message_id_set :: "nat \<Rightarrow> CoAPMessage \<Rightarrow> int \<times> CoAPMessage" where
  "coap_message_id_set msg_id message =
     (if msg_id > COAP_MSG_MAX_MSG_ID then (QCLOUD_ERR_INVAL, message)
      else (QCLOUD_RET_SUCCESS, message\<lparr>cm_msg_id := of_nat msg_id\<rparr>))"

definition coap_message_token_set :: "buffer \<Rightarrow> CoAPMessage \<Rightarrow> (int \<times> CoAPMessage) option" where
  "coap_message_token_set buf message =
     (if length buf > COAP_MSG_MAX_TOKEN_LEN then Some (QCLOUD_ERR_INVAL, message)
      else do {
        t \<leftarrow> mem_copy (token message) 0 buf;
        Some (QCLOUD_RET_SUCCESS, message\<lparr>token := t, token_len := length buf\<rparr>) })"

definition coap_message_payload_set :: "buffer \<Rightarrow> CoAPMessage \<Rightarrow> (int \<times> CoAPMessage) option" where
  "coap_message_payload_set buf message =
     (let message = message\<lparr>pay_load_len := 0\<rparr> in
      if length buf > 0 then
        case pay_load message of
          None \<Rightarrow> Some (QCLOUD_ERR_FAILURE, message)
        | Some b \<Rightarrow> do {
            b \<leftarrow> mem_copy b 0 buf;
            Some (QCLOUD_RET_SUCCESS, message\<lparr>pay_load := Some b, pay_load_len := length buf\<rparr>) }
      else Some (QCLOUD_RET_SUCCESS, message))"

text \<open>The number is stored in 16 bits; the two allocations may fail.\<close>

definition qcloud_iot_coap_option_init :: "'w hal \<Rightarrow> nat \<Rightarrow> buffer \<Rightarrow> 'w \<Rightarrow> CoAPMsgOption option \<times> 'w" where
  "qcloud_iot_coap_option_init E num v w =
     (let (alloc, w) = hal_malloc E w in
      if \<not> alloc then (None, w)
      else let (alloc, w) = hal_malloc E w in
        if \<not> alloc then (None, w)
        else (Some \<lparr>option_num = of_nat num, val_len = length v, val = v\<rparr>, w))"

text \<open>
  The search for the place of a new option: before the first, between two neighbours, or at the
  end. \<open>op_insert\<close> is the loop from the node \<open>prev\<close> with its successors.
\<close>

fun op_insert :: "CoAPMsgOption \<Rightarrow> CoAPMsgOption \<Rightarrow> CoAPMsgOption list \<Rightarrow> CoAPMsgOption list" where
  "op_insert opt prev [] = [prev, opt]"
| "op_insert opt prev (n # rest) =
     (if option_num prev \<le> option_num opt \<and> option_num opt < option_num n then prev # opt # n # rest
      else prev # op_insert opt n rest)"

definition coap_message_option_add :: "'w hal \<Rightarrow> nat \<Rightarrow> buffer \<Rightarrow> CoAPMessage \<Rightarrow> 'w \<Rightarrow> (int \<times> CoAPMessage) \<times> 'w" where
  "coap_message_option_add E num v message w =
     (let (opt, w) = qcloud_iot_coap_option_init E num v w in
      case opt of
        None \<Rightarrow> ((QCLOUD_ERR_FAILURE, message), w)
      | Some opt \<Rightarrow> ((QCLOUD_RET_SUCCESS, message\<lparr>op_list := (case op_list message of
            [] \<Rightarrow> [opt]
          | first # rest \<Rightarrow> if option_num opt < option_num first then opt # first # rest
              else op_insert opt first rest)\<rparr>), w))"

definition coap_message_callback_set :: "nat option \<Rightarrow> CoAPMessage \<Rightarrow> int \<times> CoAPMessage" where
  "coap_message_callback_set callback message = (QCLOUD_RET_SUCCESS, message\<lparr>cm_handler := callback\<rparr>)"

definition coap_message_context_set :: "nat \<Rightarrow> CoAPMessage \<Rightarrow> int \<times> CoAPMessage" where
  "coap_message_context_set ctx message = (QCLOUD_RET_SUCCESS, message\<lparr>cm_user_context := ctx\<rparr>)"

text \<open>Adding keeps the options sorted, and a new option stands behind those of the same number.\<close>

lemma op_insert_sorted:
  assumes "sorted (map option_num (prev # rest))" and "option_num prev \<le> option_num opt"
  shows "op_insert opt prev rest = takeWhile (\<lambda>q. option_num q \<le> option_num opt) (prev # rest)
    @ opt # dropWhile (\<lambda>q. option_num q \<le> option_num opt) (prev # rest)"
  using assms by (induction opt prev rest rule: op_insert.induct) auto

lemma sorted_insert_between:
  fixes f :: "'a \<Rightarrow> 'b :: linorder"
  assumes "sorted (map f xs)" and "f x = k"
  shows "sorted (map f (takeWhile (\<lambda>q. f q \<le> k) xs @ x # dropWhile (\<lambda>q. f q \<le> k) xs))"
  using assms by (induction xs) (auto dest: set_takeWhileD set_dropWhileD)

text \<open>Adding an option to a sorted option list succeeds unless an allocation fails, and puts the option
  behind every option whose number is not greater and before the others: the list stays sorted, as the
  deltas of the wire format need, and repeated options keep their order.\<close>

theorem coap_option_add_sorted:
  assumes "sorted (map option_num (op_list m))" and "coap_message_option_add E num v m w = ((rc, m'), w')"
  shows "(rc = QCLOUD_ERR_FAILURE \<and> m' = m) \<or> (rc = QCLOUD_RET_SUCCESS \<and> sorted (map option_num (op_list m'))
    \<and> op_list m' = takeWhile (\<lambda>q. option_num q \<le> of_nat num) (op_list m)
        @ \<lparr>option_num = of_nat num, val_len = length v, val = v\<rparr> # dropWhile (\<lambda>q. option_num q \<le> of_nat num) (op_list m))"
proof -
  define opt where "opt = \<lparr>option_num = of_nat num, val_len = length v, val = v\<rparr>"
  let ?ops = "op_list m"
  let ?new = "takeWhile (\<lambda>q. option_num q \<le> option_num opt) ?ops @ opt # dropWhile (\<lambda>q. option_num q \<le> option_num opt) ?ops"
  have n: "option_num opt = of_nat num" by (simp add: opt_def)
  have place: "(case ?ops of [] \<Rightarrow> [opt]
      | first # rest \<Rightarrow> if option_num opt < option_num first then opt # first # rest else op_insert opt first rest) = ?new"
    using op_insert_sorted assms(1) by (cases ?ops) (auto simp: not_less)
  have s: "sorted (map option_num ?new)"
    using sorted_insert_between [OF assms(1) refl, of opt] .
  obtain o' w1 where i: "qcloud_iot_coap_option_init E num v w = (o', w1)" "o' = None \<or> o' = Some opt"
    by (cases "qcloud_iot_coap_option_init E num v w")
      (auto simp: qcloud_iot_coap_option_init_def opt_def split: prod.splits if_splits)
  show ?thesis
  proof (cases o')
    case None
    then show ?thesis using assms(2) i by (simp add: coap_message_option_add_def)
  next
    case (Some x)
    then have "x = opt" using i(2) by simp
    then have "rc = QCLOUD_RET_SUCCESS" "m' = m\<lparr>op_list := ?new\<rparr>"
      using assms(2) i Some by (simp_all add: coap_message_option_add_def place)
    then show ?thesis using s by (simp add: n opt_def [symmetric])
  qed
qed

lemma coap_option_add_sorted_witness:
  "\<exists>rc m' w'. coap_message_option_add (clock_hal 1) 11 [0x61] DEFAULT_COAP_MESSAGE 0 = ((rc, m'), w') \<and>
    ((rc = QCLOUD_ERR_FAILURE \<and> m' = DEFAULT_COAP_MESSAGE) \<or> (rc = QCLOUD_RET_SUCCESS \<and> sorted (map option_num (op_list m'))
    \<and> op_list m' = takeWhile (\<lambda>q. option_num q \<le> of_nat 11) (op_list DEFAULT_COAP_MESSAGE)
        @ \<lparr>option_num = of_nat 11, val_len = length [0x61 :: u8], val = [0x61]\<rparr>
          # dropWhile (\<lambda>q. option_num q \<le> of_nat 11) (op_list DEFAULT_COAP_MESSAGE)))"
proof -
  have s: "sorted (map option_num (op_list DEFAULT_COAP_MESSAGE))" by (simp add: DEFAULT_COAP_MESSAGE_def)
  obtain rc m' w' where "coap_message_option_add (clock_hal 1) 11 [0x61] DEFAULT_COAP_MESSAGE 0 = ((rc, m'), w')"
    by (metis prod.exhaust)
  with coap_option_add_sorted [OF s this] show ?thesis by blast
qed

section \<open>Serialising\<close>

definition ENOSPC :: int where "ENOSPC = 28"
definition EINVAL :: int where "EINVAL = 22"
definition ENOMEM :: int where "ENOMEM = 12"

definition coap_message_serialize_header :: "CoAPMessage \<Rightarrow> buffer \<Rightarrow> nat \<Rightarrow> nat \<Rightarrow> (int \<times> buffer) option" where
  "coap_message_serialize_header message buf p len =
     (if len < 4 then Some (- ENOSPC, buf)
      else do {
        buf \<leftarrow> mem_write buf p (of_nat (push_bit 6 COAP_MSG_VER OR push_bit 4 (cm_type message AND 0x03)
          OR (token_len message AND 0x0f)));
        buf \<leftarrow> mem_write buf (p + 1) (of_nat (push_bit 5 (code_class message AND 0x07) OR (code_detail message AND 0x1f)));
        buf \<leftarrow> mem_write buf (p + 2) (ucast (drop_bit 8 (cm_msg_id message AND 0xFF00)));
        buf \<leftarrow> mem_write buf (p + 3) (ucast (cm_msg_id message AND 0x00FF));
        Some (4, buf) })"

definition coap_message_serialize_token :: "CoAPMessage \<Rightarrow> buffer \<Rightarrow> nat \<Rightarrow> nat \<Rightarrow> (int \<times> buffer) option" where
  "coap_message_serialize_token message buf p len =
     (if len < token_len message then Some (- ENOSPC, buf)
      else do {
        t \<leftarrow> mem_slice (token message) 0 (token_len message);
        buf \<leftarrow> mem_copy buf p t;
        Some (int (token_len message), buf) })"

text \<open>
  The nibble and the extension bytes of a delta or length. The test of the length that is left
  looks at \<open>option_num\<close> where it should look at \<open>val_len\<close>.
\<close>

definition op_nibble :: "nat \<Rightarrow> nat" where
  "op_nibble n = (if n \<ge> 269 then 14 else if n \<ge> 13 then 13 else n)"

definition op_extend :: "nat \<Rightarrow> buffer" where
  "op_extend n = (if n \<ge> 269 then [of_nat (drop_bit 8 ((n - 269) AND 0xFF00)), of_nat ((n - 269) AND 0x00FF)]
     else if n \<ge> 13 then [of_nat (n - 13)] else [])"

definition coap_msg_format_op :: "CoAPMsgOption \<Rightarrow> u16 \<Rightarrow> buffer \<Rightarrow> nat \<Rightarrow> nat \<Rightarrow> (int \<times> buffer) option" where
  "coap_msg_format_op op prev_num buf p len = do {
     let op_delta = unat (option_num op - prev_num);
     let num = 1;
     let num = (if op_delta \<ge> 269 then num + 2 else if op_delta \<ge> 13 then num + 1 else num);
     let num = (if val_len op \<ge> 269 then num + 2 else if option_num op \<ge> 13 then num + 1 else num);
     let num = (num + val_len op) mod 2 ^ 32;
     if num > len then Some (QCLOUD_ERR_COAP_DATA_SIZE, buf)
     else do {
       buf \<leftarrow> mem_write buf p (of_nat (push_bit 4 (op_nibble op_delta) OR op_nibble (val_len op)));
       buf \<leftarrow> mem_copy buf (p + 1) (op_extend op_delta);
       let q = p + 1 + length (op_extend op_delta);
       buf \<leftarrow> mem_copy buf q (op_extend (val_len op));
       let q = q + length (op_extend (val_len op));
       v \<leftarrow> mem_slice (val op) 0 (val_len op);
       buf \<leftarrow> mem_copy buf q v;
       let q = q + val_len op;
       Some (int (q - p), buf) } }"

text \<open>The loop; \<open>len\<close> is a \<open>size_t\<close>, so that the subtraction wraps.\<close>

definition sub_len :: "nat \<Rightarrow> nat \<Rightarrow> nat" where
  "sub_len len num = nat ((int len - int num) mod 2 ^ 32)"

primrec serialize_options_loop :: "CoAPMsgOption list \<Rightarrow> u16 \<Rightarrow> buffer \<Rightarrow> nat \<Rightarrow> nat \<Rightarrow> nat \<Rightarrow> (int \<times> buffer) option" where
  "serialize_options_loop [] prev_num buf start p len = Some (int (p - start), buf)"
| "serialize_options_loop (op # ops) prev_num buf start p len = do {
     (num, buf) \<leftarrow> coap_msg_format_op op prev_num buf p len;
     if num < 0 then Some (num, buf)
     else serialize_options_loop ops (option_num op) buf start (p + nat num) (sub_len len (nat num)) }"

definition coap_message_serialize_options :: "CoAPMessage \<Rightarrow> buffer \<Rightarrow> nat \<Rightarrow> nat \<Rightarrow> (int \<times> buffer) option" where
  "coap_message_serialize_options message buf p len = serialize_options_loop (op_list message) 0 buf p p len"

definition coap_message_serialize_payload :: "CoAPMessage \<Rightarrow> buffer \<Rightarrow> nat \<Rightarrow> nat \<Rightarrow> (int \<times> buffer) option" where
  "coap_message_serialize_payload message buf p len =
     (if pay_load_len message = 0 then Some (QCLOUD_RET_SUCCESS, buf)
      else if (pay_load_len message + 1) mod 2 ^ 32 > len then Some (- ENOSPC, buf)
      else do {
        buf \<leftarrow> mem_write buf p 0xff;
        b \<leftarrow> pay_load message;
        b \<leftarrow> mem_slice b 0 (pay_load_len message);
        buf \<leftarrow> mem_copy buf (p + 1) b;
        Some (int (pay_load_len message) + 1, buf) })"

definition serialize_coap_message :: "CoAPMessage \<Rightarrow> buffer \<Rightarrow> nat \<Rightarrow> (int \<times> buffer) option" where
  "serialize_coap_message message buf len = do {
     (num, buf) \<leftarrow> coap_message_serialize_header message buf 0 len;
     if num < 0 then Some (QCLOUD_ERR_COAP_INTERNAL, buf)
     else do {
       let p = nat num; let len = sub_len len (nat num);
       (num, buf) \<leftarrow> coap_message_serialize_token message buf p len;
       if num < 0 then Some (QCLOUD_ERR_COAP_INTERNAL, buf)
       else do {
         let p = p + nat num; let len = sub_len len (nat num);
         (num, buf) \<leftarrow> coap_message_serialize_options message buf p len;
         if num < 0 then Some (QCLOUD_ERR_COAP_INTERNAL, buf)
         else do {
           let p = p + nat num; let len = sub_len len (nat num);
           (num, buf) \<leftarrow> coap_message_serialize_payload message buf p len;
           if num < 0 then Some (QCLOUD_ERR_COAP_INTERNAL, buf)
           else Some (int (p + nat num), buf) } } } }"

section \<open>Deserialising\<close>

definition Swap16 :: "u16 \<Rightarrow> u16" where
  "Swap16 A = drop_bit 8 (A AND 0xff00) OR push_bit 8 (A AND 0x00ff)"

text \<open>The 16-bit load of the little-endian target.\<close>

definition load16 :: "buffer \<Rightarrow> nat \<Rightarrow> u16 option" where
  "load16 buf p = do { lo \<leftarrow> mem_read buf p; hi \<leftarrow> mem_read buf (p + 1);
     Some (ucast lo + 256 * ucast hi) }"

definition coap_msg_check :: "CoAPMessage \<Rightarrow> int" where
  "coap_msg_check msg =
     (if code_class msg = 0 \<and> code_detail msg = 0 then
        if cm_type msg = COAP_MSG_NON \<or> token_len msg \<noteq> 0 \<or> op_list msg \<noteq> [] \<or> pay_load_len msg \<noteq> 0
        then QCLOUD_ERR_COAP_DATA_SIZE else QCLOUD_RET_SUCCESS
      else if cm_type msg = COAP_MSG_RST then QCLOUD_ERR_COAP_DATA_SIZE else QCLOUD_RET_SUCCESS)"

definition coap_msg_op_list_add_last :: "'w hal \<Rightarrow> nat \<Rightarrow> buffer \<Rightarrow> CoAPMessage \<Rightarrow> 'w \<Rightarrow> (int \<times> CoAPMessage) \<times> 'w" where
  "coap_msg_op_list_add_last E num v msg w =
     (let (opt, w) = qcloud_iot_coap_option_init E num v w in
      case opt of None \<Rightarrow> ((QCLOUD_ERR_FAILURE, msg), w)
      | Some opt \<Rightarrow> ((QCLOUD_RET_SUCCESS, msg\<lparr>op_list := op_list msg @ [opt]\<rparr>), w))"

definition coap_message_deserialize_header :: "CoAPMessage \<Rightarrow> buffer \<Rightarrow> nat \<Rightarrow> nat \<Rightarrow> (int \<times> CoAPMessage) option" where
  "coap_message_deserialize_header msg buf p len =
     (if len < 4 then Some (QCLOUD_ERR_COAP_DATA_SIZE, msg)
      else do {
        p0 \<leftarrow> mem_read buf p; p1 \<leftarrow> mem_read buf (p + 1);
        let msg = msg\<lparr>version := unat (drop_bit 6 p0 AND 0x03)\<rparr>;
        if version msg \<noteq> COAP_MSG_VER then Some (- EINVAL, msg)
        else do {
          let msg = msg\<lparr>cm_type := unat (drop_bit 4 p0 AND 0x03), token_len := unat (p0 AND 0x0f)\<rparr>;
          if token_len msg > COAP_MSG_MAX_TOKEN_LEN then Some (QCLOUD_ERR_COAP_DATA_SIZE, msg)
          else do {
            let msg = msg\<lparr>code_detail := unat (p1 AND 0x1f), code_class := unat (drop_bit 5 p1 AND 0x07)\<rparr>;
            if code_class msg \<noteq> COAP_MSG_REQ \<and> code_class msg \<noteq> COAP_MSG_SUCCESS
              \<and> code_class msg \<noteq> COAP_MSG_CLIENT_ERR \<and> code_class msg \<noteq> COAP_MSG_SERVER_ERR
            then Some (QCLOUD_ERR_COAP_BADMSG, msg)
            else do {
              i \<leftarrow> load16 buf (p + 2);
              Some (4, msg\<lparr>cm_msg_id := Swap16 i\<rparr>) } } } })"

definition coap_message_deserialize_token :: "CoAPMessage \<Rightarrow> buffer \<Rightarrow> nat \<Rightarrow> nat \<Rightarrow> (int \<times> CoAPMessage) option" where
  "coap_message_deserialize_token msg buf p len =
     (if len < token_len msg then Some (QCLOUD_ERR_COAP_DATA_SIZE, msg)
      else do {
        bs \<leftarrow> mem_slice buf p (token_len msg);
        t \<leftarrow> mem_copy (token msg) 0 bs;
        Some (int (token_len msg), msg\<lparr>token := t\<rparr>) })"

text \<open>A delta or length whose nibble is \<open>n\<close>, at offset \<open>p\<close> with \<open>len\<close> bytes left.\<close>

definition op_extended :: "nat \<Rightarrow> buffer \<Rightarrow> nat \<Rightarrow> nat \<Rightarrow> (int + nat \<times> nat \<times> nat) option" where
  "op_extended n buf p len =
     (if n = 13 then
        if len < 1 then Some (Inl QCLOUD_ERR_COAP_DATA_SIZE)
        else do { b \<leftarrow> mem_read buf p; Some (Inr (n + unat b, p + 1, len - 1)) }
      else if n = 14 then
        if len < 2 then Some (Inl QCLOUD_ERR_COAP_DATA_SIZE)
        else do { b \<leftarrow> load16 buf p; Some (Inr (269 + unat (Swap16 b), p + 2, len - 2)) }
      else Some (Inr (n, p, len)))"

definition coap_message_deserialize_option :: "'w hal \<Rightarrow> CoAPMessage \<Rightarrow> buffer \<Rightarrow> nat \<Rightarrow> nat \<Rightarrow> 'w
    \<Rightarrow> ((int \<times> CoAPMessage) \<times> 'w) option" where
  "coap_message_deserialize_option E msg buf p0 len w =
     (if len < 1 then Some ((QCLOUD_ERR_COAP_DATA_SIZE, msg), w)
      else do {
        b \<leftarrow> mem_read buf p0;
        let op_delta = unat (drop_bit 4 b AND 0x0f);
        let op_len = unat (b AND 0x0f);
        if op_delta = 15 \<or> op_len = 15 then Some ((QCLOUD_ERR_COAP_DATA_SIZE, msg), w)
        else do {
          r \<leftarrow> op_extended op_delta buf (p0 + 1) (len - 1);
          case r of Inl rc \<Rightarrow> Some ((rc, msg), w)
          | Inr (op_delta, p, len) \<Rightarrow> do {
              r \<leftarrow> op_extended op_len buf p len;
              case r of Inl rc \<Rightarrow> Some ((rc, msg), w)
              | Inr (op_len, p, len) \<Rightarrow>
                  if len < op_len then Some ((QCLOUD_ERR_COAP_DATA_SIZE, msg), w)
                  else do {
                    let op_num = (if op_list msg = [] then op_delta
                      else unat (option_num (last (op_list msg))) + op_delta);
                    v \<leftarrow> mem_slice buf p op_len;
                    let ((ret, msg), w) = coap_msg_op_list_add_last E op_num v msg w;
                    if ret < 0 then Some ((ret, msg), w)
                    else Some ((int (p + op_len - p0), msg), w) } } } })"

text \<open>The loop reads the next byte before it tests that there is one.\<close>

partial_function (option) deserialize_options_loop :: "'w hal \<Rightarrow> CoAPMessage \<Rightarrow> buffer \<Rightarrow> nat \<Rightarrow> nat \<Rightarrow> nat \<Rightarrow> 'w
    \<Rightarrow> ((int \<times> CoAPMessage) \<times> 'w) option" where
  "deserialize_options_loop E msg buf start p len w = do {
     b \<leftarrow> mem_read buf p;
     if b AND 0xff = 0xff \<or> len = 0 then Some ((int (p - start), msg), w)
     else do {
       ((num, msg), w) \<leftarrow> coap_message_deserialize_option E msg buf p len w;
       if num < 0 then Some ((num, msg), w)
       else deserialize_options_loop E msg buf start (p + nat num) (sub_len len (nat num)) w } }"

definition coap_message_deserialize_options :: "'w hal \<Rightarrow> CoAPMessage \<Rightarrow> buffer \<Rightarrow> nat \<Rightarrow> nat \<Rightarrow> 'w
    \<Rightarrow> ((int \<times> CoAPMessage) \<times> 'w) option" where
  "coap_message_deserialize_options E msg buf p len w = deserialize_options_loop E msg buf p p len w"

definition coap_message_deserialize_payload :: "'w hal \<Rightarrow> CoAPMessage \<Rightarrow> buffer \<Rightarrow> nat \<Rightarrow> nat \<Rightarrow> 'w
    \<Rightarrow> ((int \<times> CoAPMessage) \<times> 'w) option" where
  "coap_message_deserialize_payload E msg buf p len w =
     (if len = 0 then Some ((QCLOUD_RET_SUCCESS, msg), w)
      else do {
        b \<leftarrow> mem_read buf p;
        if b AND 0xff \<noteq> 0xff then Some ((QCLOUD_ERR_COAP_DATA_SIZE, msg), w)
        else if len - 1 = 0 then Some ((QCLOUD_ERR_COAP_DATA_SIZE, msg), w)
        else do {
          let (alloc, w) = hal_malloc E w;
          if \<not> alloc then Some ((- ENOMEM, msg\<lparr>pay_load := None\<rparr>), w)
          else do {
            bs \<leftarrow> mem_slice buf (p + 1) (len - 1);
            Some ((int len, msg\<lparr>pay_load := Some bs, pay_load_len := len - 1\<rparr>), w) } } })"

definition deserialize_coap_message :: "'w hal \<Rightarrow> CoAPMessage \<Rightarrow> buffer \<Rightarrow> nat \<Rightarrow> 'w \<Rightarrow> ((int \<times> CoAPMessage) \<times> 'w) option" where
  "deserialize_coap_message E message buf len w = do {
     (num, message) \<leftarrow> coap_message_deserialize_header message buf 0 len;
     if num < 0 then Some ((QCLOUD_ERR_COAP_INTERNAL, coap_message_destroy message), w)
     else do {
       let p = nat num; let len = sub_len len (nat num);
       (num, message) \<leftarrow> coap_message_deserialize_token message buf p len;
       if num < 0 then Some ((QCLOUD_ERR_COAP_INTERNAL, coap_message_destroy message), w)
       else do {
         let p = p + nat num; let len = sub_len len (nat num);
         ((num, message), w) \<leftarrow> coap_message_deserialize_options E message buf p len w;
         if num < 0 then Some ((QCLOUD_ERR_COAP_INTERNAL, coap_message_destroy message), w)
         else do {
           let p = p + nat num; let len = sub_len len (nat num);
           ((num, message), w) \<leftarrow> coap_message_deserialize_payload E message buf p len w;
           if num < 0 then Some ((QCLOUD_ERR_COAP_INTERNAL, coap_message_destroy message), w)
           else Some ((coap_msg_check message, message), w) } } } }"

section \<open>The wire format\<close>

text \<open>The bytes of a message, as RFC 7252 lays them out.\<close>

definition op_bytes :: "u16 \<Rightarrow> CoAPMsgOption \<Rightarrow> buffer" where
  "op_bytes prev op = (let d = unat (option_num op - prev) in
     of_nat (16 * op_nibble d + op_nibble (length (val op))) # op_extend d @ op_extend (length (val op)) @ val op)"

primrec ops_bytes :: "u16 \<Rightarrow> CoAPMsgOption list \<Rightarrow> buffer" where
  "ops_bytes prev [] = []"
| "ops_bytes prev (op # ops) = op_bytes prev op @ ops_bytes (option_num op) ops"

definition header_bytes :: "CoAPMessage \<Rightarrow> buffer" where
  "header_bytes m = [of_nat (64 + 16 * cm_type m + token_len m), of_nat (32 * code_class m + code_detail m),
     of_nat (unat (cm_msg_id m) div 256), of_nat (unat (cm_msg_id m) mod 256)]"

definition payload_bytes :: "CoAPMessage \<Rightarrow> buffer" where
  "payload_bytes m = (case pay_load m of None \<Rightarrow> [] | Some b \<Rightarrow> if b = [] then [] else 0xff # b)"

definition message_bytes :: "CoAPMessage \<Rightarrow> buffer" where
  "message_bytes m = header_bytes m @ take (token_len m) (token m) @ ops_bytes 0 (op_list m) @ payload_bytes m"

text \<open>A message whose fields are in range and whose options are sorted.\<close>

definition op_ok :: "CoAPMsgOption \<Rightarrow> bool" where
  "op_ok op \<longleftrightarrow> val_len op = length (val op) \<and> length (val op) < 269 + 65536"

definition message_ok :: "CoAPMessage \<Rightarrow> bool" where
  "message_ok m \<longleftrightarrow> version m = 1 \<and> cm_type m < 4 \<and> code_class m < 8 \<and> code_detail m < 32
     \<and> length (token m) = 8 \<and> token_len m \<le> 8 \<and> list_all op_ok (op_list m)
     \<and> sorted (map (unat \<circ> option_num) (op_list m))
     \<and> (case pay_load m of None \<Rightarrow> pay_load_len m = 0 | Some b \<Rightarrow> pay_load_len m = length b \<and> 0 < length b)"

section \<open>Serialising is exact\<close>

lemma nibbles: "a < 16 \<Longrightarrow> b < 16 \<Longrightarrow> push_bit 4 a OR b = 16 * a + (b :: nat)"
  using or_nat_low [of b 4 a] by simp

lemma op_nibble_less: "op_nibble n \<le> 14"
  by (simp add: op_nibble_def)

lemma length_op_bytes: "length (op_bytes prev op) = 1 + length (op_extend (unat (option_num op - prev)))
    + length (op_extend (length (val op))) + length (val op)"
  by (simp add: op_bytes_def Let_def)

text \<open>What the code counts for an option before it writes it.\<close>

definition op_need :: "u16 \<Rightarrow> CoAPMsgOption \<Rightarrow> nat" where
  "op_need prev op = 1 + length (op_extend (unat (option_num op - prev)))
     + (if val_len op \<ge> 269 then 2 else if option_num op \<ge> 13 then 1 else 0) + val_len op"

lemma overlay_3:
  assumes "p + length a + length b + length c \<le> length buf"
  shows "overlay (overlay (overlay buf p a) (p + length a) b) (p + length a + length b) c = overlay buf p (a @ b @ c)"
  using overlay_overlay [of p a b buf] overlay_overlay [of p "a @ b" c buf] assms by (simp add: add.assoc)

lemma format_op_exact:
  assumes "op_ok op" and "op_need prev op \<le> len" and "p + length (op_bytes prev op) \<le> length buf"
  shows "coap_msg_format_op op prev buf p len = Some (int (length (op_bytes prev op)), overlay buf p (op_bytes prev op))"
proof -
  define d where "d = unat (option_num op - prev)"
  have l: "val_len op = length (val op)" "length (val op) < 65805" using assms(1) by (simp_all add: op_ok_def)
  define c x y v where cxy: "c = (of_nat (16 * op_nibble d + op_nibble (length (val op))) :: u8)"
    "x = op_extend d" "y = op_extend (length (val op))" "v = val op"
  have bytes: "op_bytes prev op = c # x @ y @ v" by (simp add: op_bytes_def d_def Let_def cxy)
  have h: "of_nat (push_bit 4 (op_nibble d) OR op_nibble (val_len op)) = c"
    using nibbles [of "op_nibble d" "op_nibble (length (val op))"] op_nibble_less [of d] op_nibble_less [of "length (val op)"] l(1)
    by (simp add: le_less_trans cxy)
  have fit: "p + 1 + length x + length y + length v \<le> length buf"
    using assms(3) unfolding bytes by simp
  let ?num = "if d \<ge> 269 then 1 + 2 else if d \<ge> 13 then 1 + 1 else (1 :: nat)"
  let ?num2 = "if val_len op \<ge> 269 then ?num + 2 else if option_num op \<ge> 13 then ?num + 1 else ?num"
  have num: "(?num2 + val_len op) mod 2 ^ 32 = op_need prev op"
    using l by (auto simp: op_need_def op_extend_def d_def)
  have w1: "mem_write buf p c = Some (overlay buf p [c])" using fit by (simp add: mem_write_overlay)
  have w2: "mem_copy (overlay buf p [c]) (p + 1) x = Some (overlay buf p (c # x))"
    using fit overlay_overlay [of p "[c]" x buf] by (simp add: mem_copy_def)
  have w3: "mem_copy (overlay buf p (c # x)) (p + 1 + length x) y = Some (overlay buf p (c # x @ y))"
    using fit overlay_overlay [of p "c # x" y buf] by (simp add: mem_copy_def)
  have w4: "mem_copy (overlay buf p (c # x @ y)) (p + 1 + length x + length y) v = Some (overlay buf p (c # x @ y @ v))"
    using fit overlay_overlay [of p "c # x @ y" v buf] by (simp add: mem_copy_def add.assoc)
  have v: "mem_slice (val op) 0 (val_len op) = Some v" "op_extend (val_len op) = y" "val_len op = length v"
    using l by (simp_all add: mem_slice_def cxy)
  have no: "\<not> op_need prev op > len" using assms(2) by simp
  show ?thesis
    unfolding coap_msg_format_op_def Let_def d_def [symmetric] num if_not_P [OF no] h cxy(2) [symmetric] v(1,2) bytes
      w1 w2 w3 w4 bind.bind_lunit
    by (simp add: v(3))
qed

lemma op_need_slack: "op_ok op \<Longrightarrow> op_need prev op \<le> length (op_bytes prev op) + 1"
  by (simp add: op_need_def length_op_bytes op_extend_def op_ok_def)

lemma sub_len_le: "n \<le> len \<Longrightarrow> len < 2 ^ 32 \<Longrightarrow> sub_len len n = len - n"
  unfolding sub_len_def by (simp add: of_nat_diff [symmetric] mod_pos_pos_trivial del: of_nat_diff)

lemma options_loop_exact:
  assumes "list_all op_ok ops" and "length (ops_bytes prev ops) < len" and "len < 2 ^ 32"
    and "p + length (ops_bytes prev ops) \<le> length buf" and "start \<le> p"
  shows "serialize_options_loop ops prev buf start p len
    = Some (int (p + length (ops_bytes prev ops) - start), overlay buf p (ops_bytes prev ops))"
  using assms
proof (induction ops arbitrary: prev buf p len)
  case (Cons op ops)
  let ?b = "op_bytes prev op"
  have ok: "op_ok op" "list_all op_ok ops" using Cons.prems(1) by auto
  have f: "coap_msg_format_op op prev buf p len = Some (int (length ?b), overlay buf p ?b)"
    using Cons.prems ok op_need_slack [OF ok(1), of prev] by (intro format_op_exact) auto
  have s: "sub_len len (length ?b) = len - length ?b" using Cons.prems by (intro sub_len_le) auto
  have "serialize_options_loop ops (option_num op) (overlay buf p ?b) start (p + length ?b) (len - length ?b)
      = Some (int (p + length ?b + length (ops_bytes (option_num op) ops) - start),
          overlay (overlay buf p ?b) (p + length ?b) (ops_bytes (option_num op) ops))"
    using Cons.prems ok by (intro Cons.IH) auto
  moreover have "overlay (overlay buf p ?b) (p + length ?b) (ops_bytes (option_num op) ops)
      = overlay buf p (?b @ ops_bytes (option_num op) ops)"
    using Cons.prems by (intro overlay_overlay) auto
  ultimately show ?case by (simp add: f s add.assoc)
qed simp

lemma header_first: "t < 4 \<Longrightarrow> l \<le> 8 \<Longrightarrow> push_bit 6 COAP_MSG_VER OR push_bit 4 (t AND 0x03) OR (l AND 0x0f) = 64 + 16 * t + l"
  using and_nat_field [of t 2 3] and_nat_field [of l 4 15] or_nat_low [of l 4 t] or_nat_low [of "16 * t + l" 6 1]
  by (simp add: coap_consts or.assoc)

lemma header_second: "c < 8 \<Longrightarrow> d < 32 \<Longrightarrow> push_bit 5 (c AND 0x07) OR (d AND 0x1f) = 32 * c + (d :: nat)"
  using and_nat_field [of c 3 7] and_nat_field [of d 5 31] or_nat_low [of d 5 c] by simp

lemma u16_bytes:
  "ucast (drop_bit 8 ((x :: u16) AND 0xFF00)) = (of_nat (unat x div 256) :: u8)"
  "ucast (x AND 0x00FF) = (of_nat (unat x mod 256) :: u8)"
proof -
  have lt: "unat x < 65536" using unsigned_less [of x, where 'a = nat] by simp
  have m: "(0xFF00 :: u16) = push_bit 8 (mask 8)" "(0x00FF :: u16) = mask 8" by (simp_all add: mask_eq_exp_minus_1 push_bit_eq_mult)
  have "unat x div 256 = drop_bit 8 (unat x)" by (simp add: drop_bit_eq_div)
  then show "ucast (drop_bit 8 (x AND 0xFF00)) = (of_nat (unat x div 256) :: u8)"
    unfolding m by (intro bit_word_eqI) (auto simp: bit_simps bit_of_nat_iff)
  have "unat x mod 256 = take_bit 8 (unat x)" by (simp add: take_bit_eq_mod)
  then show "ucast (x AND 0x00FF) = (of_nat (unat x mod 256) :: u8)"
    unfolding m by (intro bit_word_eqI) (auto simp: bit_simps bit_of_nat_iff)
qed

lemma header_exact:
  assumes "cm_type m < 4" "token_len m \<le> 8" "code_class m < 8" "code_detail m < 32" "4 \<le> len" "4 \<le> length buf"
  shows "coap_message_serialize_header m buf 0 len = Some (4, overlay buf 0 (header_bytes m))"
proof -
  obtain b0 b1 b2 b3 bs where buf: "buf = b0 # b1 # b2 # b3 # bs"
    using assms(6) by (auto simp: eval_nat_numeral Suc_le_length_iff)
  show ?thesis
    unfolding coap_message_serialize_header_def header_bytes_def
      header_first [OF assms(1,2)] header_second [OF assms(3,4)] u16_bytes
    using assms(5) by (simp add: buf mem_write_def overlay_def numeral_2_eq_2 numeral_3_eq_3)
qed

lemma length_header_bytes [simp]: "length (header_bytes m) = 4"
  by (simp add: header_bytes_def)

lemma payload_exact:
  assumes "case pay_load m of None \<Rightarrow> pay_load_len m = 0 | Some b \<Rightarrow> pay_load_len m = length b \<and> 0 < length b"
    and "length (payload_bytes m) \<le> len" and "len < 2 ^ 32" and "p + length (payload_bytes m) \<le> length buf"
  shows "coap_message_serialize_payload m buf p len
    = Some (int (length (payload_bytes m)), overlay buf p (payload_bytes m))"
proof (cases "pay_load m")
  case None
  then show ?thesis using assms(1) by (simp add: coap_message_serialize_payload_def payload_bytes_def)
next
  case (Some b)
  then have l: "pay_load_len m = length b" "b \<noteq> []" and bytes: "payload_bytes m = 0xff # b"
    using assms(1) by (auto simp: payload_bytes_def)
  then show ?thesis
    using assms(2-4) overlay_overlay [of p "[0xff]" b buf] Some
    by (simp add: coap_message_serialize_payload_def mem_write_overlay mem_slice_def mem_copy_def)
qed

lemma take_drop_same: "length xs \<le> n \<Longrightarrow> take n xs = xs"
  by simp

lemma serialize_exact:
  assumes "message_ok m" and "length (message_bytes m) < len" and "len \<le> length buf" and "len < 2 ^ 32"
  shows "serialize_coap_message m buf len = Some (int (length (message_bytes m)), overlay buf 0 (message_bytes m))"
proof -
  let ?h = "header_bytes m" and ?t = "take (token_len m) (token m)" and ?o = "ops_bytes 0 (op_list m)" and ?y = "payload_bytes m"
  have ok: "cm_type m < 4" "token_len m \<le> 8" "code_class m < 8" "code_detail m < 32" "length (token m) = 8"
    "list_all op_ok (op_list m)"
    "case pay_load m of None \<Rightarrow> pay_load_len m = 0 | Some b \<Rightarrow> pay_load_len m = length b \<and> 0 < length b"
    using assms(1) by (auto simp: message_ok_def)
  have lt: "length ?t = token_len m" using ok(2,5) by simp
  have fit: "4 + token_len m + length ?o + length ?y < len" using assms(2) lt by (simp add: message_bytes_def)
  define n where "n = token_len m"
  have h: "coap_message_serialize_header m buf 0 len = Some (4, overlay buf 0 ?h)"
    using fit assms(3) by (intro header_exact ok) auto
  have nl: "\<not> len - 4 < token_len m" using fit by linarith
  have t: "coap_message_serialize_token m (overlay buf 0 ?h) 4 (len - 4) = Some (int n, overlay buf 0 (?h @ ?t))"
    using fit assms(3) ok nl overlay_overlay [of 0 ?h ?t buf] lt
    by (simp add: coap_message_serialize_token_def mem_slice_def mem_copy_def n_def)
  have o: "coap_message_serialize_options m (overlay buf 0 (?h @ ?t)) (4 + n) (len - 4 - n)
      = Some (int (length ?o), overlay buf 0 (?h @ ?t @ ?o))"
    using fit assms(3,4) ok(6) lt overlay_overlay [of 0 "?h @ ?t" ?o buf]
    unfolding coap_message_serialize_options_def n_def
    by (subst options_loop_exact) auto
  have y: "coap_message_serialize_payload m (overlay buf 0 (?h @ ?t @ ?o)) (4 + n + length ?o) (len - 4 - n - length ?o)
      = Some (int (length ?y), overlay buf 0 (?h @ ?t @ ?o @ ?y))"
    using fit assms(3,4) lt overlay_overlay [of 0 "?h @ ?t @ ?o" ?y buf]
    by (subst payload_exact [OF ok(7)]) (auto simp: n_def add.assoc)
  have s: "sub_len len 4 = len - 4" "sub_len (len - 4) n = len - 4 - n"
    "sub_len (len - 4 - n) (length ?o) = len - 4 - n - length ?o"
    using fit assms(4) by (simp_all add: sub_len_le n_def)
  show ?thesis
    unfolding serialize_coap_message_def Let_def
    by (simp add: h t o y s del: diff_diff_left) (simp add: message_bytes_def lt n_def ok(2,5))
qed

section \<open>Deserialising what was serialised\<close>

lemma mem_read_mid: "p = length pre \<Longrightarrow> mem_read (pre @ x # post) p = Some x"
  by (simp add: mem_read_def)

lemma load16_mid:
  assumes "p = length pre"
  shows "load16 (pre @ [a, b] @ post) p = Some (ucast a + 256 * ucast b)"
  using mem_read_mid [of p pre a "b # post"] mem_read_mid [of "p + 1" "pre @ [a]" b post] assms
  by (simp add: load16_def)

lemma Swap16_big_endian:
  assumes "n < 65536"
  shows "unat (Swap16 (ucast (of_nat (n div 256) :: u8) + 256 * ucast (of_nat (n mod 256) :: u8))) = n"
proof -
  define h l where "h = n div 256" and "l = n mod 256"
  have hl: "h < 256" "l < 256" "n = 256 * h + l" using assms by (auto simp: h_def l_def)
  have u: "unat (ucast (of_nat k :: u8) :: u16) = k" if "k < 256" for k
    using that by (simp add: unsigned_ucast_eq unat_of_nat take_bit_eq_mod)
  define x where "x = (ucast (of_nat h :: u8) + 256 * ucast (of_nat l :: u8) :: u16)"
  have x: "unat x = h + 256 * l" using hl by (simp add: x_def unat_word_ariths u)
  have "unat (x AND 0x00ff) = h" using unat_mask [of 255 8 x] hl by (simp add: x)
  then have lo: "unat (push_bit 8 (x AND 0x00ff)) = 256 * h"
    using hl by (simp add: push_bit_eq_mult unat_word_ariths mult.commute)
  have "drop_bit 8 (x AND 0xff00) = drop_bit 8 x"
  proof -
    have m: "(0xff00 :: u16) = push_bit 8 (mask 8)" by (simp add: mask_eq_exp_minus_1 push_bit_eq_mult)
    show ?thesis unfolding m by (intro bit_word_eqI) (auto simp: bit_simps dest: bit_imp_le_length)
  qed
  moreover have "unat (drop_bit 8 x) = l"
    using hl unsigned_less [of x, where ?'a = nat] unfolding unsigned_drop_bit_eq
    by (simp add: x drop_bit_eq_div take_bit_nat_eq_self)
  ultimately have hi: "unat (drop_bit 8 (x AND 0xff00)) = l" by simp
  then have "push_bit 8 (x AND 0x00ff) OR drop_bit 8 (x AND 0xff00) = push_bit 8 (x AND 0x00ff) + drop_bit 8 (x AND 0xff00)"
    using hl(2) by (intro or_low) simp
  then have "unat (drop_bit 8 (x AND 0xff00) OR push_bit 8 (x AND 0x00ff)) = 256 * h + l"
    unfolding or.commute [of "drop_bit 8 (x AND 0xff00)"] using lo hi hl by (simp only: unat_word_ariths) simp
  from trans [OF this hl(3) [symmetric]] show ?thesis
    unfolding Swap16_def h_def [symmetric] l_def [symmetric] x_def [symmetric] .
qed

lemma op_extended_decodes:
  assumes "n < 269 + 65536" and "p = length pre" and "len = length (op_extend n) + r"
  shows "op_extended (op_nibble n) (pre @ op_extend n @ post) p len
    = Some (Inr (n, p + length (op_extend n), r))"
proof -
  consider "n < 13" | "13 \<le> n" "n < 269" | "269 \<le> n" by linarith
  then show ?thesis
  proof cases
    case 2
    define k where "k = n - 13"
    have k: "k < 256" "n = 13 + k" "op_extend n = [of_nat k]" using 2 by (auto simp: k_def op_extend_def)
    have "mem_read (pre @ op_extend n @ post) p = Some (of_nat k)"
      using mem_read_mid [OF assms(2)] unfolding k(3) by simp
    moreover have "unat (of_nat k :: u8) = k" using k(1) by (simp add: unat_of_nat)
    ultimately show ?thesis
      using 2 assms(3) k by (simp add: op_extended_def op_nibble_def)
  next
    case 3
    define k where "k = n - 269"
    have k: "k < 65536" "n = 269 + k" using 3 assms(1) by (auto simp: k_def)
    have m: "(k AND 0xFF00) = push_bit 8 (k div 256)" "k AND 0x00FF = k mod 256"
    proof -
      have f: "(0xFF00 :: nat) = push_bit 8 (mask 8)" "(0x00FF :: nat) = mask 8"
        by (simp_all add: mask_eq_exp_minus_1 push_bit_eq_mult)
      have "i < 16" if "bit k i" for i
      proof (rule ccontr)
        assume "\<not> i < 16"
        then have "k < 2 ^ i" using k(1) power_increasing [of 16 i "2 :: nat"] by simp
        then show False using that by (simp add: bit_iff_odd)
      qed
      then show "(k AND 0xFF00) = push_bit 8 (k div 256)"
        unfolding f drop_bit_eq_div [of 8 k, simplified, symmetric] by (intro bit_eqI) (fastforce simp: bit_simps)
      show "k AND 0x00FF = k mod 256" unfolding f by (simp add: take_bit_eq_mask [symmetric] take_bit_eq_mod)
    qed
    have e: "op_extend n = [of_nat (k div 256), of_nat (k mod 256)]"
      using 3 m by (simp add: op_extend_def k_def [symmetric] drop_bit_eq_div push_bit_eq_mult)
    then have "load16 (pre @ op_extend n @ post) p = Some (ucast (of_nat (k div 256) :: u8) + 256 * ucast (of_nat (k mod 256) :: u8))"
      using load16_mid [OF assms(2)] by simp
    then show ?thesis
      using Swap16_big_endian [OF k(1)] 3 assms(3) e k(2) by (simp add: op_extended_def op_nibble_def)
  qed (use assms in \<open>simp add: op_extended_def op_nibble_def op_extend_def\<close>)
qed

lemma nibble_bytes:
  assumes "a < 16" "c < 16"
  shows "unat (drop_bit 4 (of_nat (16 * a + c) :: u8) AND 0x0f) = a" "unat ((of_nat (16 * a + c) :: u8) AND 0x0f) = c"
proof -
  let ?b = "of_nat (16 * a + c) :: u8"
  have b: "unat ?b = 16 * a + c" using assms by (simp only: unat_of_nat) simp
  have d: "unat (drop_bit 4 ?b) = unat ?b div 16"
    using byte_lt [of ?b] unfolding unsigned_drop_bit_eq by (simp add: drop_bit_eq_div take_bit_nat_eq_self)
  show "unat (drop_bit 4 ?b AND 0x0f) = a"
    using unat_mask [of 15 4 "drop_bit 4 ?b"] assms unfolding d b by simp
  show "unat (?b AND 0x0f) = c"
    using unat_mask [of 15 4 ?b] assms unfolding b by simp
qed

lemma option_decodes:
  assumes "op_ok op" and "unat prev \<le> unat (option_num op)" and "length (op_bytes prev op) \<le> len"
    and "buf = pre @ op_bytes prev op @ post" and "\<And>w. fst (hal_malloc E w)"
    and "prev = (if op_list msg = [] then 0 else option_num (last (op_list msg)))"
  shows "\<exists>w'. coap_message_deserialize_option E msg buf (length pre) len w
    = Some ((int (length (op_bytes prev op)), msg\<lparr>op_list := op_list msg @ [op]\<rparr>), w')"
proof -
  define d where "d = unat (option_num op - prev)"
  define l where "l = length (val op)"
  have d: "d = unat (option_num op) - unat prev"
    using assms(2) unfolding d_def by (simp add: unat_sub_if')
  have lt: "d < 269 + 65536" "l < 269 + 65536"
    using unsigned_less [of "option_num op", where 'a = nat] assms(1) by (auto simp: d l_def op_ok_def)
  define c where "c = (of_nat (16 * op_nibble d + op_nibble l) :: u8)"
  let ?p = "length pre"
  have buf: "buf = pre @ c # op_extend d @ op_extend l @ val op @ post"
    using assms(4) by (simp add: op_bytes_def d_def l_def c_def Let_def)
  have bl: "length (op_bytes prev op) = 1 + length (op_extend d) + length (op_extend l) + l"
    by (simp add: length_op_bytes d_def l_def)
  have b: "mem_read buf ?p = Some c" unfolding buf by (rule mem_read_mid) simp
  have n15: "op_nibble d < 15" "op_nibble l < 15" using op_nibble_less [of d] op_nibble_less [of l] by auto
  then have nib: "unat (drop_bit 4 c AND 0x0f) = op_nibble d" "unat (c AND 0x0f) = op_nibble l"
    using nibble_bytes [of "op_nibble d" "op_nibble l"] unfolding c_def by auto
  define r where "r = len - length (op_bytes prev op)"
  have x1: "op_extended (op_nibble d) buf (?p + 1) (len - 1)
      = Some (Inr (d, ?p + 1 + length (op_extend d), length (op_extend l) + l + r))"
    using op_extended_decodes [OF lt(1), of "?p + 1" "pre @ [c]" "len - 1" "length (op_extend l) + l + r"
      "op_extend l @ val op @ post"] assms(3) bl unfolding buf by (simp add: r_def)
  have x2: "op_extended (op_nibble l) buf (?p + 1 + length (op_extend d)) (length (op_extend l) + l + r)
      = Some (Inr (l, ?p + 1 + length (op_extend d) + length (op_extend l), l + r))"
    using op_extended_decodes [OF lt(2), of "?p + 1 + length (op_extend d)" "pre @ c # op_extend d"
      "length (op_extend l) + l + r" "l + r" "val op @ post"] unfolding buf by (simp add: add.assoc)
  have v: "mem_slice buf (?p + 1 + length (op_extend d) + length (op_extend l)) l = Some (val op)"
    unfolding buf using mem_slice_at [of "pre @ c # op_extend d @ op_extend l" "val op" post] by (simp add: l_def add.assoc)
  let ?num = "if op_list msg = [] then d else unat (option_num (last (op_list msg))) + d"
  have "?num = unat (option_num op)" using assms(2,6) by (auto simp: d split: if_splits)
  then have opt: "\<lparr>option_num = of_nat ?num, val_len = length (val op), val = val op\<rparr> = op"
    using assms(1) by (cases op) (simp add: op_ok_def)
  obtain w1 where w1: "hal_malloc E w = (True, w1)" using assms(5) [of w] by (cases "hal_malloc E w") auto
  obtain w2 where w2: "hal_malloc E w1 = (True, w2)" using assms(5) [of w1] by (cases "hal_malloc E w1") auto
  have add: "coap_msg_op_list_add_last E ?num (val op) msg w = ((QCLOUD_RET_SUCCESS, msg\<lparr>op_list := op_list msg @ [op]\<rparr>), w2)"
    unfolding coap_msg_op_list_add_last_def qcloud_iot_coap_option_init_def using opt by (simp add: w1 w2)
  have c: "(len < 1) = False" "(op_nibble d = 15 \<or> op_nibble l = 15) = False" "(l + r < l) = False" "((0 :: int) < 0) = False"
    using assms(3) bl n15 by auto
  have "coap_message_deserialize_option E msg buf ?p len w
      = Some ((int (?p + 1 + length (op_extend d) + length (op_extend l) + l - ?p), msg\<lparr>op_list := op_list msg @ [op]\<rparr>), w2)"
    by (simp only: coap_message_deserialize_option_def Let_def b nib x1 x2 v add c bind.bind_lunit sum.case case_prod_conv if_False)
  then show ?thesis by (simp add: bl add.assoc)
qed

text \<open>No option starts like the payload marker.\<close>

lemma op_first_byte:
  "\<exists>c bs. op_bytes prev op = c # bs \<and> c AND 0xff \<noteq> 0xff"
proof -
  define a b where "a = op_nibble (unat (option_num op - prev))" and "b = op_nibble (length (val op))"
  have lt: "a < 15" "b < 15" using op_nibble_less by (auto simp: a_def b_def le_less_trans [OF op_nibble_less])
  let ?c = "of_nat (16 * a + b) :: u8"
  have "unat ?c = 16 * a + b" using lt by (simp only: unat_of_nat) simp
  then have "unat ?c \<noteq> 255" using lt by simp
  then have "?c \<noteq> 0xff" by auto
  then show ?thesis by (simp add: op_bytes_def Let_def a_def b_def)
qed

lemma options_decode:
  assumes "list_all op_ok ops" and "sorted (unat prev # map (unat \<circ> option_num) ops)"
    and "buf = pre @ ops_bytes prev ops @ post" and "len = length (ops_bytes prev ops) + r" and "len < 2 ^ 32"
    and "(r = 0 \<and> post \<noteq> []) \<or> (\<exists>post'. post = 0xff # post')"
    and "\<And>w. fst (hal_malloc E w)" and "prev = (if op_list msg = [] then 0 else option_num (last (op_list msg)))"
    and "start \<le> length pre"
  shows "\<exists>w'. deserialize_options_loop E msg buf start (length pre) len w
    = Some ((int (length pre + length (ops_bytes prev ops) - start), msg\<lparr>op_list := op_list msg @ ops\<rparr>), w')"
  using assms(1-6,8,9)
proof (induction ops arbitrary: prev pre len msg w)
  case Nil
  then obtain b post' where "post = b # post'" "b AND 0xff = 0xff \<or> len = 0" by (cases post) auto
  moreover have "mem_read (pre @ b # post') (length pre) = Some b" by (rule mem_read_mid) simp
  ultimately show ?case
    using Nil.prems(3) by (subst deserialize_options_loop.simps) simp
next
  case (Cons op ops)
  let ?b = "op_bytes prev op" and ?msg = "msg\<lparr>op_list := op_list msg @ [op]\<rparr>"
  obtain c bs where c: "?b = c # bs" "c AND 0xff \<noteq> 0xff" using op_first_byte by blast
  have buf: "buf = pre @ ?b @ ops_bytes (option_num op) ops @ post" using Cons.prems(3) by simp
  have rd: "mem_read buf (length pre) = Some c" unfolding buf c(1) by (simp add: mem_read_mid)
  have len: "len \<noteq> 0" "length ?b \<le> len" using Cons.prems(4) c(1) by auto
  obtain w1 where w1: "coap_message_deserialize_option E msg buf (length pre) len w = Some ((int (length ?b), ?msg), w1)"
    using option_decodes [OF _ _ len(2) buf assms(7) Cons.prems(7), of w] Cons.prems(1,2) by auto
  have s: "sub_len len (length ?b) = len - length ?b" using len Cons.prems(5) by (simp add: sub_len_le)
  have "\<exists>w'. deserialize_options_loop E ?msg buf start (length (pre @ ?b)) (len - length ?b) w1
      = Some ((int (length (pre @ ?b) + length (ops_bytes (option_num op) ops) - start), ?msg\<lparr>op_list := op_list ?msg @ ops\<rparr>), w')"
    using Cons.prems by (intro Cons.IH) auto
  then show ?case
    using rd c(2) len(1) s by (subst deserialize_options_loop.simps) (simp add: w1 add.assoc)
qed

lemma unat_field_u8: "m = 2 ^ j - 1 \<Longrightarrow> unat (drop_bit k (b :: u8) AND of_nat m) = unat b div 2 ^ k mod 2 ^ j"
  using unat_mask [of m j "drop_bit k b"] byte_lt [of b] unfolding unsigned_drop_bit_eq
  by (simp add: drop_bit_eq_div take_bit_nat_eq_self)

lemma header_fields:
  fixes t l :: nat
  assumes "t < 4" "l \<le> 8"
  shows "(64 + 16 * t + l) div 64 = 1" "(64 + 16 * t + l) div 64 mod 4 = 1"
    "(64 + 16 * t + l) div 16 mod 4 = t" "(64 + 16 * t + l) mod 16 = l"
proof -
  show d: "(64 + 16 * t + l) div 64 = 1" using assms by (intro div_nat_eqI) auto
  then show "(64 + 16 * t + l) div 64 mod 4 = 1" by simp
  have "(64 + 16 * t + l) div 16 = t + 4 * 1" using assms by (intro div_nat_eqI) auto
  then show "(64 + 16 * t + l) div 16 mod 4 = t" using assms(1) by (simp only: mod_mult_self2) simp
  have "64 + 16 * t + l = l + 16 * (4 + t)" by simp
  then show "(64 + 16 * t + l) mod 16 = l" using assms(2) by (simp only: mod_mult_self2) simp
qed

lemma header_decodes:
  assumes "cm_type m < 4" "token_len m \<le> 8" "code_class m \<in> {0, 2, 4, 5}" "code_detail m < 32" "4 \<le> len"
  shows "coap_message_deserialize_header msg (header_bytes m @ post) 0 len = Some (4, msg\<lparr>version := 1, cm_type := cm_type m,
    token_len := token_len m, code_detail := code_detail m, code_class := code_class m, cm_msg_id := cm_msg_id m\<rparr>)"
proof -
  define b0 b1 where b: "b0 = (of_nat (64 + 16 * cm_type m + token_len m) :: u8)"
    "b1 = (of_nat (32 * code_class m + code_detail m) :: u8)"
  let ?b2 = "of_nat (unat (cm_msg_id m) div 256) :: u8" and ?b3 = "of_nat (unat (cm_msg_id m) mod 256) :: u8"
  have h: "header_bytes m @ post = b0 # b1 # [?b2, ?b3] @ post" by (simp add: header_bytes_def b)
  have u0: "unat b0 = 64 + 16 * cm_type m + token_len m" unfolding b using assms(1,2) by (simp only: unat_of_nat) simp
  have u1: "unat b1 = 32 * code_class m + code_detail m" unfolding b using assms(3,4) by (simp only: unat_of_nat) auto
  have f0: "unat (drop_bit 6 b0 AND 0x03) = 1" "unat (drop_bit 4 b0 AND 0x03) = cm_type m" "unat (b0 AND 0x0f) = token_len m"
    using unat_field_u8 [of 3 2 6 b0] unat_field_u8 [of 3 2 4 b0] unat_field_u8 [of 15 4 0 b0]
    by (simp_all add: u0 header_fields [OF assms(1,2)])
  have f1: "unat (b1 AND 0x1f) = code_detail m" "unat (drop_bit 5 b1 AND 0x07) = code_class m"
    using unat_field_u8 [of 31 5 0 b1] unat_field_u8 [of 7 3 5 b1] assms(3,4) by (auto simp: u1)
  have "unat (cm_msg_id m) < 65536" using unsigned_less [of "cm_msg_id m", where 'a = nat] by simp
  then have i: "Swap16 (ucast ?b2 + 256 * ucast ?b3) = cm_msg_id m"
    using Swap16_big_endian by (simp only: word_unat_eq_iff)
  have l: "load16 (b0 # b1 # [?b2, ?b3] @ post) 2 = Some (ucast ?b2 + 256 * ucast ?b3)"
    using load16_mid [of 2 "[b0, b1]" ?b2 ?b3 post] by simp
  have r: "mem_read (b0 # b1 # [?b2, ?b3] @ post) 0 = Some b0" "mem_read (b0 # b1 # [?b2, ?b3] @ post) 1 = Some b1"
    by (simp_all add: mem_read_def)
  have no: "\<not> len < 4" "\<not> token_len m > COAP_MSG_MAX_TOKEN_LEN" using assms(2,5) by (simp_all add: coap_consts)
  show ?thesis
    unfolding coap_message_deserialize_header_def h Let_def add_0 r l bind.bind_lunit i
    using no assms(3) by (auto simp: f0 f1 coap_consts l r i)
qed

text \<open>C12: a message with fields in range and sorted options is written to a block that is longer than it,
  and reading the bytes that the serialiser reports gives the message back: type, code, identifier,
  token (padded with zeros), every option with its number and value, and the payload. The verdict is
  that of the message check. The handler and the user's context do not travel.\<close>

theorem coap_roundtrip:
  assumes "message_ok m" and "code_class m \<in> {0, 2, 4, 5}" and "length (message_bytes m) < len" and "len \<le> length buf"
    and "len < 2 ^ 32" and "\<forall>w. fst (hal_malloc E w)"
  shows "\<exists>n b w'. serialize_coap_message m buf len = Some (int n, b)
    \<and> deserialize_coap_message E (coap_message_destroy m0) b n w = Some ((coap_msg_check m,
        m\<lparr>token := take (token_len m) (token m) @ replicate (8 - token_len m) 0, cm_handler := None, cm_user_context := 0\<rparr>), w')"
proof -
  let ?h = "header_bytes m" and ?t = "take (token_len m) (token m)" and ?o = "ops_bytes 0 (op_list m)" and ?y = "payload_bytes m"
  define n where "n = length (message_bytes m)"
  define rest where "rest = drop n buf"
  define b where "b = ?h @ ?t @ ?o @ ?y @ rest"
  have ok: "version m = 1" "cm_type m < 4" "token_len m \<le> 8" "code_detail m < 32" "length (token m) = 8"
    "list_all op_ok (op_list m)" "sorted (map (unat \<circ> option_num) (op_list m))"
    "case pay_load m of None \<Rightarrow> pay_load_len m = 0 | Some b \<Rightarrow> pay_load_len m = length b \<and> 0 < length b"
    using assms(1) by (auto simp: message_ok_def)
  have lt: "length ?t = token_len m" using ok(3,5) by simp
  have n: "n = 4 + token_len m + length ?o + length ?y" by (simp add: n_def message_bytes_def ok(3,5))
  have ser: "serialize_coap_message m buf len = Some (int n, b)"
    using serialize_exact [OF assms(1,3-5)] by (simp add: ok(3,5) n_def b_def rest_def overlay_def message_bytes_def)
  have rest: "rest \<noteq> []" using assms(3,4) by (simp add: rest_def n_def)
  have n32: "n < 2 ^ 32" using assms(3,5) by (simp add: n_def)
  let ?m0 = "coap_message_destroy m0"
  let ?m1 = "?m0\<lparr>version := 1, cm_type := cm_type m, token_len := token_len m, code_detail := code_detail m,
    code_class := code_class m, cm_msg_id := cm_msg_id m\<rparr>"
  have d1: "coap_message_deserialize_header ?m0 b 0 n = Some (4, ?m1)"
    unfolding b_def using ok(2-4) assms(2) n by (intro header_decodes) auto
  let ?m2 = "?m1\<lparr>token := ?t @ replicate (8 - token_len m) 0\<rparr>"
  have "mem_slice b 4 (token_len m) = Some ?t"
    using mem_slice_at [of ?h ?t "?o @ ?y @ rest"] lt by (simp add: b_def)
  then have d2: "coap_message_deserialize_token ?m1 b 4 (n - 4) = Some (int (token_len m), ?m2)"
    using n ok(3) lt by (simp add: coap_message_deserialize_token_def coap_message_destroy_def mem_copy_def overlay_def)
  let ?m3 = "?m2\<lparr>op_list := op_list m\<rparr>"
  have ch: "(length ?y = 0 \<and> ?y @ rest \<noteq> []) \<or> (\<exists>post'. ?y @ rest = 0xff # post')"
    using rest ok(8) by (auto simp: payload_bytes_def split: option.splits)
  have "\<exists>w1. deserialize_options_loop E ?m2 b (4 + token_len m) (length (?h @ ?t)) (length ?o + length ?y) w
      = Some ((int (length (?h @ ?t) + length ?o - (4 + token_len m)), ?m2\<lparr>op_list := op_list ?m2 @ op_list m\<rparr>), w1)"
    using options_decode [OF ok(6), of 0 b "?h @ ?t" "?y @ rest" "length ?o + length ?y" "length ?y" E ?m2 "4 + token_len m" w]
      ok(7) n n32 ch assms(6) lt by (auto simp: b_def coap_message_destroy_def)
  then obtain w1 where
    "deserialize_options_loop E ?m2 b (4 + token_len m) (length (?h @ ?t)) (length ?o + length ?y) w
      = Some ((int (length (?h @ ?t) + length ?o - (4 + token_len m)), ?m2\<lparr>op_list := op_list ?m2 @ op_list m\<rparr>), w1)" ..
  then have d3: "coap_message_deserialize_options E ?m2 b (4 + token_len m) (n - 4 - token_len m) w
      = Some ((int (length ?o), ?m3), w1)"
    using n lt by (simp add: coap_message_deserialize_options_def coap_message_destroy_def)
  let ?m4 = "?m3\<lparr>pay_load := pay_load m, pay_load_len := pay_load_len m\<rparr>"
  obtain w2 where d4: "coap_message_deserialize_payload E ?m3 b (4 + token_len m + length ?o) (n - 4 - token_len m - length ?o) w1
      = Some ((int (length ?y), ?m4), w2)"
  proof (cases "pay_load m")
    case None
    then have "?y = []" "pay_load_len m = 0" using ok(8) by (auto simp: payload_bytes_def)
    then have "coap_message_deserialize_payload E ?m3 b (4 + token_len m + length ?o) (n - 4 - token_len m - length ?o) w1
      = Some ((int (length ?y), ?m4), w1)"
      using n None by (simp add: coap_message_deserialize_payload_def coap_message_destroy_def)
    then show ?thesis by (rule that)
  next
    case (Some bs)
    then have y: "?y = 0xff # bs" "pay_load_len m = length bs" "bs \<noteq> []" using ok(8) by (auto simp: payload_bytes_def)
    let ?p = "4 + token_len m + length ?o"
    have buf: "b = (?h @ ?t @ ?o) @ 0xff # bs @ rest" "b = (?h @ ?t @ ?o @ [0xff]) @ bs @ rest" by (simp_all add: b_def y)
    have "mem_read b ?p = Some 0xff" unfolding buf(1) using lt by (intro mem_read_mid) simp
    moreover have "mem_slice b (?p + 1) (length bs) = Some bs"
      unfolding buf(2) using mem_slice_at [of "?h @ ?t @ ?o @ [0xff]" bs rest] lt by simp
    moreover obtain w2 where "hal_malloc E w1 = (True, w2)" using assms(6) by (metis prod.collapse)
    ultimately have "coap_message_deserialize_payload E ?m3 b ?p (n - 4 - token_len m - length ?o) w1 = Some ((int (length ?y), ?m4), w2)"
      using n y Some by (simp add: coap_message_deserialize_payload_def)
    then show ?thesis by (rule that)
  qed
  have s: "sub_len n 4 = n - 4" "sub_len (n - 4) (token_len m) = n - 4 - token_len m"
    "sub_len (n - 4 - token_len m) (length ?o) = n - 4 - token_len m - length ?o"
    using n n32 by (simp_all add: sub_len_le)
  have chk: "coap_msg_check ?m4 = coap_msg_check m" by (simp add: coap_msg_check_def)
  have eq: "?m4 = m\<lparr>token := ?t @ replicate (8 - token_len m) 0, cm_handler := None, cm_user_context := 0\<rparr>"
    using ok(1) by (cases m) (simp add: coap_message_destroy_def)
  have "deserialize_coap_message E ?m0 b n w = Some ((coap_msg_check m, ?m4), w2)"
    by (simp only: deserialize_coap_message_def Let_def d1 d2 d3 d4 s bind.bind_lunit case_prod_conv nat_int nat_numeral
        chk of_nat_less_0_iff if_False add_0 not_numeral_less_zero)
  then show ?thesis using ser unfolding eq by blast
qed

text \<open>A request with a URI-path option and a payload.\<close>

definition sample_message :: CoAPMessage where
  "sample_message = DEFAULT_COAP_MESSAGE\<lparr>cm_msg_id := 0x1234, token := [7, 8, 9, 0, 0, 0, 0, 0], token_len := 3,
     pay_load := Some [0x7b, 0x7d], pay_load_len := 2,
     op_list := [\<lparr>option_num = 11, val_len = 4, val = [0x70, 0x2f, 0x64, 0x65]\<rparr>,
       \<lparr>option_num = 61440, val_len = 1, val = [0x31]\<rparr>]\<rparr>"

lemma sample_message_bytes:
  "message_bytes sample_message = [0x43, 0x02, 0x12, 0x34, 7, 8, 9, 0xb4, 0x70, 0x2f, 0x64, 0x65, 0xe1, 0xee, 0xe8, 0x31, 0xff, 0x7b, 0x7d]"
  by (simp add: message_bytes_def header_bytes_def payload_bytes_def op_bytes_def op_nibble_def op_extend_def Let_def
      sample_message_def DEFAULT_COAP_MESSAGE_def coap_consts take_Cons')

lemma sample_message_ok: "message_ok sample_message"
  by (simp add: message_ok_def op_ok_def sample_message_def DEFAULT_COAP_MESSAGE_def coap_consts)

lemma coap_roundtrip_witness:
  "\<exists>n b w'. serialize_coap_message sample_message (replicate 64 0) 64 = Some (int n, b)
    \<and> deserialize_coap_message (clock_hal 1) (coap_message_destroy DEFAULT_COAP_MESSAGE) b n 0
      = Some ((coap_msg_check sample_message, sample_message\<lparr>token := take (token_len sample_message) (token sample_message)
        @ replicate (8 - token_len sample_message) 0, cm_handler := None, cm_user_context := 0\<rparr>), w')"
  using coap_roundtrip [OF sample_message_ok, where len = 64 and buf = "replicate 64 0" and E = "clock_hal 1"
    and ?m0.0 = DEFAULT_COAP_MESSAGE and w = 0]
  by (simp add: sample_message_bytes clock_hal_def) (simp add: sample_message_def DEFAULT_COAP_MESSAGE_def)

section \<open>The length test of an option\<close>

text \<open>The length test of \<open>coap_msg_format_op\<close> looks at the option's number where it should look at the
  length of its value. An option with a number below 13 and a value of 13 to 268 bytes is admitted
  although it is one byte longer than what is left of the block, and its last byte is written behind
  the block: serialising such a message is undefined.\<close>

theorem coap_option_overrun:
  assumes "message_ok m" and "op_list m = op # ops" and "option_num op < 13"
    and "13 \<le> val_len op" and "val_len op < 269" and "length buf = 4 + token_len m + 1 + val_len op"
  shows "serialize_coap_message m buf (length buf) = None"
proof -
  let ?h = "header_bytes m" and ?t = "take (token_len m) (token m)" and ?len = "length buf" and ?d = "unat (option_num op)"
  have ok: "cm_type m < 4" "token_len m \<le> 8" "code_class m < 8" "code_detail m < 32" "length (token m) = 8" "op_ok op"
    using assms(1,2) by (auto simp: message_ok_def)
  have lt: "length ?t = token_len m" using ok(2,5) by simp
  define n where "n = token_len m"
  have h: "coap_message_serialize_header m buf 0 ?len = Some (4, overlay buf 0 ?h)"
    using assms(6) by (intro header_exact ok) auto
  have t: "coap_message_serialize_token m (overlay buf 0 ?h) 4 (?len - 4) = Some (int n, overlay buf 0 (?h @ ?t))"
    using assms(6) ok lt overlay_overlay [of 0 ?h ?t buf]
    by (simp add: coap_message_serialize_token_def mem_slice_def mem_copy_def n_def)
  have d: "?d < 13" using assms(3) by (simp add: word_less_nat_alt)
  have v: "val_len op = length (val op)" using ok(6) by (simp add: op_ok_def)
  have e: "op_extend ?d = []" "op_extend (val_len op) = [of_nat (val_len op - 13)]"
    using d assms(4,5) by (simp_all add: op_extend_def)
  have f: "coap_msg_format_op op 0 b (4 + n) (1 + val_len op) = None" if "length b = 5 + n + val_len op" for b
    using that d assms(3,4,5) e v
    by (simp add: coap_msg_format_op_def Let_def mem_write_def mem_copy_def mem_slice_def overlay_def)
  have s: "sub_len ?len 4 = ?len - 4" "sub_len (?len - 4) n = 1 + val_len op"
    using assms(5,6) ok(2) by (simp_all add: sub_len_le n_def)
  have "length (overlay buf 0 (?h @ ?t)) = 5 + n + val_len op"
    using assms(6) lt by (subst length_overlay) (auto simp: n_def)
  then have "coap_message_serialize_options m (overlay buf 0 (?h @ ?t)) (4 + n) (1 + val_len op) = None"
    using f assms(2) by (simp add: coap_message_serialize_options_def)
  then show ?thesis
    unfolding serialize_coap_message_def Let_def by (simp add: h t s del: diff_diff_left)
qed

definition overrun_message :: CoAPMessage where
  "overrun_message = DEFAULT_COAP_MESSAGE\<lparr>op_list := [\<lparr>option_num = 11, val_len = 20, val = replicate 20 0x61\<rparr>]\<rparr>"

lemma coap_option_overrun_witness:
  "serialize_coap_message overrun_message (replicate 25 0) (length (replicate 25 (0 :: u8))) = None"
  by (rule coap_option_overrun [where op = "\<lparr>option_num = 11, val_len = 20, val = replicate 20 0x61\<rparr>" and ops = "[]"])
    (simp_all add: message_ok_def op_ok_def overrun_message_def DEFAULT_COAP_MESSAGE_def coap_consts)

section \<open>Every packet is read to its end\<close>

lemma op_extended_returns:
  assumes "p + len \<le> length buf"
  shows "\<exists>r. op_extended n buf p len = Some r \<and> (case r of Inl rc \<Rightarrow> rc < 0 | Inr (k, p', len') \<Rightarrow> p \<le> p' \<and> p' + len' = p + len)"
proof -
  consider "n = 13" "0 < len" | "n = 14" "2 \<le> len" | "n \<noteq> 13 \<and> n \<noteq> 14 \<or> n = 13 \<and> len = 0 \<or> n = 14 \<and> len < 2"
    by linarith
  then show ?thesis
    using assms by cases (auto simp: op_extended_def mem_read_def load16_def)
qed

lemma option_returns:
  assumes "0 < len" and "p + len \<le> length buf"
  shows "\<exists>num msg' w'. coap_message_deserialize_option E msg buf p len w = Some ((num, msg'), w')
    \<and> (num < 0 \<or> (0 < num \<and> nat num \<le> len))"
proof -
  have rd: "mem_read buf p = Some (buf ! p)" using assms by (simp add: mem_read_def)
  let ?b = "buf ! p"
  obtain r where r: "op_extended (unat (drop_bit 4 ?b AND 0x0f)) buf (p + 1) (len - 1) = Some r"
    "case r of Inl rc \<Rightarrow> rc < 0 | Inr (k, p', len') \<Rightarrow> p + 1 \<le> p' \<and> p' + len' = p + 1 + (len - 1)"
    using op_extended_returns [of "p + 1" "len - 1"] assms by fastforce
  show ?thesis
  proof (cases "unat (drop_bit 4 ?b AND 0x0f) = 15 \<or> unat (?b AND 0x0f) = 15")
    case True
    then show ?thesis using assms rd by (auto simp: coap_message_deserialize_option_def Let_def)
  next
    case ext: False
    show ?thesis
    proof (cases r)
      case (Inl rc)
      then show ?thesis using assms rd r ext by (simp add: coap_message_deserialize_option_def Let_def)
    next
      case (Inr x)
      obtain k p1 l1 where x: "x = (k, p1, l1)" by (cases x)
      have p1: "p + 1 \<le> p1" "p1 + l1 = p + len" using r(2) assms(1) unfolding Inr x by auto
      obtain r2 where r2: "op_extended (unat (?b AND 0x0f)) buf p1 l1 = Some r2"
        "case r2 of Inl rc \<Rightarrow> rc < 0 | Inr (k, p', len') \<Rightarrow> p1 \<le> p' \<and> p' + len' = p1 + l1"
        using op_extended_returns [of p1 l1 buf] assms(2) p1 by fastforce
      show ?thesis
      proof (cases r2)
        case (Inl rc)
        then show ?thesis using assms rd r ext r2 Inr x by (simp add: coap_message_deserialize_option_def Let_def)
      next
        case r2': (Inr y)
        obtain k2 p2 l2 where y: "y = (k2, p2, l2)" by (cases y)
        have p2: "p1 \<le> p2" "p2 + l2 = p + len" using r2(2) p1 unfolding r2' y by auto
        show ?thesis
        proof (cases "l2 < k2")
          case True
          then show ?thesis using assms rd r ext r2 r2' Inr x y
            by (simp add: coap_message_deserialize_option_def Let_def)
        next
          case False
          define num where "num = (if op_list msg = [] then k else unat (option_num (last (op_list msg))) + k)"
          have v: "mem_slice buf p2 k2 = Some (take k2 (drop p2 buf))"
            using False p2 assms(2) by (simp add: mem_slice_def)
          obtain ret msg' w' where a: "coap_msg_op_list_add_last E num (take k2 (drop p2 buf)) msg w = ((ret, msg'), w')"
            by (metis prod.exhaust)
          have "coap_message_deserialize_option E msg buf p len w
              = Some ((if ret < 0 then ret else int (p2 + k2 - p), msg'), w')"
            using assms(1) rd r(1) r2(1) ext False v a
            by (simp add: coap_message_deserialize_option_def Let_def Inr r2' x y num_def [symmetric])
          then show ?thesis using p1 p2 False by auto
        qed
      qed
    qed
  qed
qed

lemma options_loop_returns:
  assumes "p + len < length buf" and "len < 2 ^ 32" and "start \<le> p"
  shows "\<exists>num msg' w'. deserialize_options_loop E msg buf start p len w = Some ((num, msg'), w')
    \<and> (num < 0 \<or> (int (p - start) \<le> num \<and> num \<le> int (p + len - start)))"
  using assms
proof (induction len arbitrary: p msg w rule: less_induct)
  case (less len)
  have rd: "mem_read buf p = Some (buf ! p)" using less.prems by (simp add: mem_read_def)
  show ?case
  proof (cases "buf ! p AND 0xff = 0xff \<or> len = 0")
    case True
    then show ?thesis using rd less.prems by (subst deserialize_options_loop.simps) auto
  next
    case False
    obtain num msg1 w1 where o: "coap_message_deserialize_option E msg buf p len w = Some ((num, msg1), w1)"
      "num < 0 \<or> (0 < num \<and> nat num \<le> len)"
      using option_returns [of len p buf E msg w] less.prems False by auto
    show ?thesis
    proof (cases "num < 0")
      case True
      then show ?thesis using rd o False by (subst deserialize_options_loop.simps) auto
    next
      case pos: False
      then have n: "0 < nat num" "nat num \<le> len" using o(2) by auto
      have s: "sub_len len (nat num) = len - nat num" using n less.prems by (simp add: sub_len_le)
      have "len - nat num < len" "p + nat num + (len - nat num) < length buf" "len - nat num < 2 ^ 32" "start \<le> p + nat num"
        using n less.prems by auto
      from less.IH [OF this, of msg1 w1] obtain num2 msg2 w2 where
        "deserialize_options_loop E msg1 buf start (p + nat num) (len - nat num) w1 = Some ((num2, msg2), w2)"
        "num2 < 0 \<or> (int (p + nat num - start) \<le> num2 \<and> num2 \<le> int (p + nat num + (len - nat num) - start))" by blast
      then show ?thesis using rd o(1) False pos n s less.prems(3)
        by (subst deserialize_options_loop.simps) (auto simp: of_nat_diff)
    qed
  qed
qed

lemma deserialize_returns:
  assumes "len < length buf" and "len < 2 ^ 32"
  shows "\<exists>rc msg' w'. deserialize_coap_message E (coap_message_destroy m) buf len w = Some ((rc, msg'), w')"
proof -
  have h: "\<exists>num m1. coap_message_deserialize_header (coap_message_destroy m) buf 0 len = Some (num, m1)
      \<and> (num < 0 \<or> num = 4 \<and> 4 \<le> len \<and> token_len m1 \<le> 8 \<and> length (token m1) = 8)"
  proof (cases "len < 4")
    case False
    then show ?thesis using assms(1)
      by (auto simp: coap_message_deserialize_header_def mem_read_def load16_def Let_def EINVAL_def coap_consts
          coap_message_destroy_def)
  qed (simp add: coap_message_deserialize_header_def)
  then obtain num1 m1 where d1: "coap_message_deserialize_header (coap_message_destroy m) buf 0 len = Some (num1, m1)"
    "num1 < 0 \<or> num1 = 4 \<and> 4 \<le> len \<and> token_len m1 \<le> 8 \<and> length (token m1) = 8" by blast
  show ?thesis
  proof (cases "num1 < 0")
    case True
    then show ?thesis using d1 by (simp add: deserialize_coap_message_def)
  next
    case False
    then have n1: "num1 = 4" "4 \<le> len" "token_len m1 \<le> 8" "length (token m1) = 8" using d1(2) by auto
    have s1: "sub_len len 4 = len - 4" using n1 assms(2) by (simp add: sub_len_le)
    show ?thesis
    proof (cases "len - 4 < token_len m1")
      case True
      then show ?thesis using d1 n1 s1
        by (simp add: deserialize_coap_message_def coap_message_deserialize_token_def)
    next
      case fit: False
      let ?k = "token_len m1" and ?bs = "take (token_len m1) (drop 4 buf)"
      let ?m2 = "m1\<lparr>token := overlay (token m1) 0 ?bs\<rparr>"
      have "length ?bs = ?k" using fit assms(1) n1 by simp
      then have d2: "coap_message_deserialize_token m1 buf 4 (len - 4) = Some (int ?k, ?m2)"
        using fit assms(1) n1 by (simp add: coap_message_deserialize_token_def mem_slice_def mem_copy_def)
      have s2: "sub_len (len - 4) ?k = len - 4 - ?k" using fit assms(2) by (simp add: sub_len_le)
      define r where "r = len - 4 - ?k"
      have r: "4 + ?k + r < length buf" "r < 2 ^ 32" "4 + ?k + r - (4 + ?k) = r"
        using fit assms n1 by (simp_all add: r_def)
      obtain num3 m3 w3 where d3: "deserialize_options_loop E ?m2 buf (4 + ?k) (4 + ?k) (len - 4 - ?k) w = Some ((num3, m3), w3)"
        "num3 < 0 \<or> (0 \<le> num3 \<and> num3 \<le> int (len - 4 - ?k))"
        using options_loop_returns [OF r(1,2) order_refl, of E ?m2 w] unfolding r(3) r_def by auto
      show ?thesis
      proof (cases "num3 < 0")
        case True
        then show ?thesis using d1(1) d2 d3 n1 s1 s2
          by (simp add: deserialize_coap_message_def coap_message_deserialize_options_def)
      next
        case pos: False
        define l where "l = len - 4 - ?k - nat num3"
        have n3: "nat num3 \<le> len - 4 - ?k" using d3(2) pos by auto
        have s3: "sub_len (len - 4 - ?k) (nat num3) = l" using n3 assms(2) by (simp add: sub_len_le l_def)
        have fit3: "4 + ?k + nat num3 + l < length buf" using n3 fit assms(1) n1 by (simp add: l_def)
        have "\<exists>num4 m4 w4. coap_message_deserialize_payload E m3 buf (4 + ?k + nat num3) l w3 = Some ((num4, m4), w4)"
          using fit3 by (auto simp: coap_message_deserialize_payload_def mem_read_def mem_slice_def split: prod.splits)
        then obtain num4 m4 w4 where
          d4: "coap_message_deserialize_payload E m3 buf (4 + ?k + nat num3) l w3 = Some ((num4, m4), w4)" by blast
        have c: "((4 :: int) < 0) = False" "(int ?k < 0) = False" "(num3 < 0) = False" using pos by auto
        show ?thesis
          by (simp only: deserialize_coap_message_def coap_message_deserialize_options_def Let_def d1(1) n1(1) d2 d3(1) d4
              s1 s2 s3 c bind.bind_lunit case_prod_conv nat_int nat_numeral if_False add_0) simp
      qed
    qed
  qed
qed

text \<open>Whatever bytes arrive, the deserialiser returns: with at least one byte of the block behind the
  packet it never reads outside the block, its option loop ends, and every allocation that fails is
  reported.\<close>

theorem coap_deserialize_returns:
  assumes "len < length buf" and "len < 2 ^ 32"
  shows "\<exists>rc msg' w'. deserialize_coap_message E (coap_message_destroy m) buf len w = Some ((rc, msg'), w')"
  using assms by (rule deserialize_returns)

lemma coap_deserialize_returns_witness:
  "\<exists>rc msg' w'. deserialize_coap_message (clock_hal 1) (coap_message_destroy DEFAULT_COAP_MESSAGE)
      [0x48, 0x02, 0x12, 0x34, 7, 8, 9, 0xb4, 0x70, 0x2f] 9 0 = Some ((rc, msg'), w')"
  by (rule coap_deserialize_returns) simp_all

end
