(* ===== verification/Device_Info.thy ===== *)
theory Device_Info
  imports Qc_Prelude
begin

text \<open>
  The device information of \<^verbatim>\<open>qcloud_iot_device.c\<close>: one static object and the flag that it has been
  initialised. The three fields that the SDK uses are C strings, the bytes before the terminator;
  \<open>snprintf_str\<close> is what \<open>HAL_Snprintf\<close> of strings leaves and returns.
\<close>

definition MAX_SIZE_OF_PRODUCT_ID :: nat where "MAX_SIZE_OF_PRODUCT_ID = 10"
definition MAX_SIZE_OF_DEVICE_NAME :: nat where "MAX_SIZE_OF_DEVICE_NAME = 48"
definition MAX_SIZE_OF_CLIENT_ID :: nat where "MAX_SIZE_OF_CLIENT_ID = 80"

record DeviceInfo =
  product_id :: cstring
  device_name :: cstring
  client_id :: cstring

record device_state =
  sg_device_info :: DeviceInfo
  sg_devinfo_initialized :: bool

definition no_device_info :: DeviceInfo where
  "no_device_info = \<lparr>product_id = [], device_name = [], client_id = []\<rparr>"

definition snprintf_str :: "nat \<Rightarrow> cstring \<Rightarrow> int \<times> cstring" where
  "snprintf_str n s = (int (length s), take (n - 1) s)"

definition iot_device_info_init :: "device_state \<Rightarrow> int \<times> device_state" where
  "iot_device_info_init d =
     (if sg_devinfo_initialized d then (0, d)
      else (QCLOUD_RET_SUCCESS, d\<lparr>sg_device_info := no_device_info, sg_devinfo_initialized := True\<rparr>))"

definition iot_device_info_set :: "cstring \<Rightarrow> cstring \<Rightarrow> device_state \<Rightarrow> int \<times> device_state" where
  "iot_device_info_set pid name d =
     (let d = d\<lparr>sg_device_info := no_device_info\<rparr> in
      if MAX_SIZE_OF_PRODUCT_ID < length pid then (QCLOUD_ERR_FAILURE, d)
      else if MAX_SIZE_OF_DEVICE_NAME < length name then (QCLOUD_ERR_FAILURE, d)
      else
        let (ret, cid) = snprintf_str MAX_SIZE_OF_CLIENT_ID (pid @ name);
            d = d\<lparr>sg_device_info := \<lparr>product_id = take MAX_SIZE_OF_PRODUCT_ID pid,
                  device_name = take MAX_SIZE_OF_DEVICE_NAME name, client_id = cid\<rparr>\<rparr> in
        if ret < 0 \<or> ret \<ge> int MAX_SIZE_OF_CLIENT_ID then (QCLOUD_ERR_FAILURE, d)
        else (QCLOUD_RET_SUCCESS, d))"

definition iot_device_info_get :: "device_state \<Rightarrow> DeviceInfo" where
  "iot_device_info_get d = sg_device_info d"

text \<open>The identity fits: the client id is never truncated.\<close>

lemma device_info_set_exact:
  "iot_device_info_set pid name d =
    (if length pid \<le> 10 \<and> length name \<le> 48
     then (QCLOUD_RET_SUCCESS, d\<lparr>sg_device_info := \<lparr>product_id = pid, device_name = name, client_id = pid @ name\<rparr>\<rparr>)
     else (QCLOUD_ERR_FAILURE, d\<lparr>sg_device_info := no_device_info\<rparr>))"
  by (auto simp: iot_device_info_set_def snprintf_str_def Let_def MAX_SIZE_OF_PRODUCT_ID_def
      MAX_SIZE_OF_DEVICE_NAME_def MAX_SIZE_OF_CLIENT_ID_def)

end
