(* ===== verification/Coap_Client.thy ===== *)
theory Coap_Client
  imports Coap_Codec Device_Info Mqtt_Topic
begin

text \<open>
  The CoAP client: the list of requests that wait for an answer, with its retransmissions and
  timeouts (\<^verbatim>\<open>coap_client_message.c\<close>), identifiers and tokens (\<^verbatim>\<open>coap_client_common.c\<close>), the
  authentication request (\<^verbatim>\<open>coap_client_auth.c\<close>) and the interface (\<^verbatim>\<open>coap_client.c\<close>).

  \<^item> one thread; the mutexes are not modelled, callbacks of the application are recorded in
    \<open>coap_trace\<close>, in order, and do not call back into the client.
  \<^item> a callback is a number, \<open>None\<close> the null pointer; \<open>auth_callback\<close> is the number of the client's
    own \<open>_coap_client_auth_callback\<close>, which is run.
  \<^item> the wait list is the sequence of its nodes: the node's address and its value. It is walked
    from the tail.
  \<^item> \<open>char\<close> is unsigned, as on the target: \<open>is_authed\<close> holds the value that a comparison sees.
  \<^item> \<open>None\<close> is undefined behaviour, or a loop that does not end.
\<close>

section \<open>State\<close>

definition COAP_MAX_CONN_ID_LEN :: nat where "COAP_MAX_CONN_ID_LEN = 6"
definition COAP_SENDMSG_MAX_BUFLEN :: nat where "COAP_SENDMSG_MAX_BUFLEN = 512"
definition COAP_RECVMSG_MAX_BUFLEN :: nat where "COAP_RECVMSG_MAX_BUFLEN = 512"
definition URI_PATH_MAX_LEN :: nat where "URI_PATH_MAX_LEN = 128"

abbreviation (input) COAP_MSG_URI_PATH :: nat where "COAP_MSG_URI_PATH \<equiv> 11"
abbreviation (input) COAP_MSG_AUTH_TOKEN :: nat where "COAP_MSG_AUTH_TOKEN \<equiv> 61"
abbreviation (input) COAP_MSG_NEED_RESP :: nat where "COAP_MSG_NEED_RESP \<equiv> 62"
abbreviation (input) QCLOUD_ERR_COAP_NULL :: int where "QCLOUD_ERR_COAP_NULL \<equiv> -150"

datatype CoAPEventType = COAP_EVENT_RECEIVE_ACK | COAP_EVENT_RECEIVE_RESPCONTENT | COAP_EVENT_UNAUTHORIZED
  | COAP_EVENT_FORBIDDEN | COAP_EVENT_INTERNAL_SERVER_ERROR | COAP_EVENT_ACK_TIMEOUT | COAP_EVENT_SEPRESP_TIMEOUT

primrec event_code :: "CoAPEventType \<Rightarrow> int" where
  "event_code COAP_EVENT_RECEIVE_ACK = 0"
| "event_code COAP_EVENT_RECEIVE_RESPCONTENT = 1"
| "event_code COAP_EVENT_UNAUTHORIZED = - 1"
| "event_code COAP_EVENT_FORBIDDEN = - 2"
| "event_code COAP_EVENT_INTERNAL_SERVER_ERROR = - 3"
| "event_code COAP_EVENT_ACK_TIMEOUT = - 4"
| "event_code COAP_EVENT_SEPRESP_TIMEOUT = - 5"

text \<open>\<open>si_token\<close> holds the \<open>si_token_len\<close> bytes that are initialised.\<close>

record CoAPMsgSendInfo =
  node_invalid :: bool
  si_user_context :: nat
  si_msg_id :: u16
  acked :: bool
  si_token_len :: nat
  si_token :: buffer
  retrans_count :: u8
  si_start_time :: Timer
  si_message :: "buffer option"
  msglen :: nat
  si_handler :: "nat option"

text \<open>The calls of the application: a response callback with message and context, or the event callback
  with the message or an identifier.\<close>

datatype coap_effect = Coap_Response nat CoAPMessage nat | Coap_Event_Message CoAPEventType CoAPMessage
  | Coap_Event_Id CoAPEventType u16

record 'w CoAPClient =
  is_authed :: int
  coap_conn_id :: cstring
  message_token :: u32
  auth_token :: "buffer option"
  auth_token_len :: nat
  next_msg_id :: u16
  send_buf_size :: nat
  coap_read_buf_size :: nat
  send_buf :: buffer
  recv_buf :: buffer
  coap_timeout_ms :: nat
  message_list :: "(nat \<times> CoAPMsgSendInfo) list"
  max_retry_count :: u8
  coap_event_handle :: bool
  coap_next_node :: nat
  coap_trace :: "coap_effect list"
  coap_world :: 'w

definition on_coap :: "('w \<Rightarrow> 'a \<times> 'w) \<Rightarrow> 'w CoAPClient \<Rightarrow> 'a \<times> 'w CoAPClient" where
  "on_coap f c = (let (x, w) = f (coap_world c) in (x, c\<lparr>coap_world := w\<rparr>))"

definition coap_emit :: "coap_effect \<Rightarrow> 'w CoAPClient \<Rightarrow> 'w CoAPClient" where
  "coap_emit e c = c\<lparr>coap_trace := coap_trace c @ [e]\<rparr>"

text \<open>A value stored in a \<open>char\<close>, as a comparison with an \<open>int\<close> sees it.\<close>

definition char_of_int :: "int \<Rightarrow> int" where
  "char_of_int n = n mod 256"

section \<open>Identifiers\<close>

definition get_next_coap_msg_id :: "'w CoAPClient \<Rightarrow> u16 \<times> 'w CoAPClient" where
  "get_next_coap_msg_id c = (let n = (if next_msg_id c = of_nat COAP_MSG_MAX_MSG_ID then 1 else next_msg_id c + 1)
     in (n, c\<lparr>next_msg_id := n\<rparr>))"

definition get_coap_message_token :: "'w CoAPClient \<Rightarrow> buffer \<times> 'w CoAPClient" where
  "get_coap_message_token c = (let v = message_token c in
     ([ucast (v AND 0xFF), ucast (drop_bit 8 (v AND 0xFF00)), ucast (drop_bit 16 (v AND 0xFF0000)),
       ucast (drop_bit 24 (v AND 0xFF000000))], c\<lparr>message_token := v + 1\<rparr>))"

primrec coap_conn_id_loop :: "'w hal \<Rightarrow> nat \<Rightarrow> 'w \<Rightarrow> cstring \<times> 'w" where
  "coap_conn_id_loop E 0 w = ([], w)"
| "coap_conn_id_loop E (Suc n) w = (
     let (f, w) = hal_rand E w; flag = f mod 3; (r, w) = hal_rand E w;
         ch = (if flag = 0 then of_nat (r mod 26) + 97 else if flag = 1 then of_nat (r mod 26) + 65
               else of_nat (r mod 10) + 48);
         (cs, w) = coap_conn_id_loop E n w in (ch # cs, w))"

definition get_coap_next_conn_id :: "'w hal \<Rightarrow> 'w CoAPClient \<Rightarrow> 'w CoAPClient" where
  "get_coap_next_conn_id E c = (let (_, c) = on_coap (hal_time E) c;
     (cs, c) = on_coap (coap_conn_id_loop E (COAP_MAX_CONN_ID_LEN - 1)) c in c\<lparr>coap_conn_id := cs\<rparr>)"

section \<open>The wait list\<close>

abbreviation (input) PROCESS_ACK_CMD :: nat where "PROCESS_ACK_CMD \<equiv> 0"
abbreviation (input) PROCESS_PIGGY_CMD :: nat where "PROCESS_PIGGY_CMD \<equiv> 1"
abbreviation (input) PROCESS_RESP_CMD :: nat where "PROCESS_RESP_CMD \<equiv> 2"
abbreviation (input) PROCESS_WAIT_CMD :: nat where "PROCESS_WAIT_CMD \<equiv> 3"

definition event_message_type_set :: "CoAPMessage \<Rightarrow> nat \<Rightarrow> CoAPEventType" where
  "event_message_type_set message cmd =
     (if code_class message = COAP_MSG_SUCCESS \<and> code_detail message = 5
      then (if cmd = PROCESS_RESP_CMD then COAP_EVENT_RECEIVE_RESPCONTENT else COAP_EVENT_RECEIVE_ACK)
      else if code_class message = COAP_MSG_CLIENT_ERR \<and> code_detail message = 1 then COAP_EVENT_UNAUTHORIZED
      else if code_class message = COAP_MSG_CLIENT_ERR \<and> code_detail message = 3 then COAP_EVENT_FORBIDDEN
      else COAP_EVENT_INTERNAL_SERVER_ERROR)"

text \<open>
  The callback of the authentication request. \<open>strlen\<close> of the payload, a heap block of exactly its
  length, needs a zero byte in it.
\<close>

definition auth_callback :: nat where "auth_callback = 0"

definition coap_client_auth_callback :: "'w hal \<Rightarrow> CoAPMessage \<Rightarrow> nat \<Rightarrow> 'w CoAPClient \<Rightarrow> 'w CoAPClient option" where
  "coap_client_auth_callback E msg userContext c =
     (if userContext = 0 then Some c
      else if code_class msg = COAP_MSG_SUCCESS \<and> code_detail msg = 5 then do {
        empty \<leftarrow> (if pay_load_len msg = 0 then Some True
          else case pay_load msg of None \<Rightarrow> Some True | Some b \<Rightarrow> do { n \<leftarrow> strlen b; Some (n = 0) });
        if empty then Some (c\<lparr>is_authed := 0\<rparr>)
        else do {
          let c = c\<lparr>auth_token_len := pay_load_len msg\<rparr>;
          let (alloc, c) = on_coap (hal_malloc E) c;
          if \<not> alloc then None
          else do {
            b \<leftarrow> pay_load msg;
            n \<leftarrow> strlen b;
            Some (c\<lparr>auth_token := Some (take (pay_load_len msg) (take n b @ replicate (pay_load_len msg) 0)),
              is_authed := 1\<rparr>) } } }
      else Some (c\<lparr>is_authed := 0\<rparr>))"

definition call_handler :: "'w hal \<Rightarrow> nat \<Rightarrow> CoAPMessage \<Rightarrow> nat \<Rightarrow> 'w CoAPClient \<Rightarrow> 'w CoAPClient option" where
  "call_handler E h msg ctx c =
     (if h = auth_callback then coap_client_auth_callback E msg ctx c else Some (coap_emit (Coap_Response h msg ctx) c))"

text \<open>
  One node, for each of the four commands: the node that stays in the list, the message and the
  client. The message is one object, which a later node sees changed.
\<close>

definition ack_node :: "'w hal \<Rightarrow> CoAPMsgSendInfo \<Rightarrow> CoAPMessage \<Rightarrow> 'w CoAPClient
    \<Rightarrow> (CoAPMsgSendInfo option \<times> CoAPMessage \<times> 'w CoAPClient) option" where
  "ack_node E s message c =
     (if si_msg_id s = cm_msg_id message then
        let (t, c) = on_coap (countdown_ms E (coap_timeout_ms c)) c in
        Some (Some (s\<lparr>acked := True, si_start_time := t\<rparr>), message, c)
      else Some (Some s, message, c))"

definition resp_node :: "'w hal \<Rightarrow> CoAPMsgSendInfo \<Rightarrow> CoAPMessage \<Rightarrow> 'w CoAPClient
    \<Rightarrow> (CoAPMsgSendInfo option \<times> CoAPMessage \<times> 'w CoAPClient) option" where
  "resp_node E s message c =
     (if 0 \<noteq> si_token_len s \<and> si_token_len s = token_len message
         \<and> take (token_len message) (si_token s) = take (token_len message) (token message) then do {
        let message = message\<lparr>cm_user_context := si_user_context s\<rparr>;
        (message, c) \<leftarrow> (case si_handler s of
            Some h \<Rightarrow> do { c \<leftarrow> call_handler E h message (si_user_context s) c; Some (message, c) }
          | None \<Rightarrow> if coap_event_handle c then
              let message' = message\<lparr>cm_msg_id := si_msg_id s\<rparr> in
              Some (message', coap_emit (Coap_Event_Message (event_message_type_set message PROCESS_RESP_CMD) message') c)
            else Some (message, c));
        Some (Some (s\<lparr>node_invalid := True\<rparr>), message, c) }
      else Some (Some s, message, c))"

definition piggy_node :: "'w hal \<Rightarrow> CoAPMsgSendInfo \<Rightarrow> CoAPMessage \<Rightarrow> 'w CoAPClient
    \<Rightarrow> (CoAPMsgSendInfo option \<times> CoAPMessage \<times> 'w CoAPClient) option" where
  "piggy_node E s message c =
     (if si_msg_id s = cm_msg_id message then do {
        let message = message\<lparr>cm_user_context := si_user_context s\<rparr>;
        c \<leftarrow> (case si_handler s of
            Some h \<Rightarrow> call_handler E h message (si_user_context s) c
          | None \<Rightarrow> Some (if coap_event_handle c
              then coap_emit (Coap_Event_Id (event_message_type_set message PROCESS_PIGGY_CMD) (cm_msg_id message)) c else c));
        Some (Some (s\<lparr>acked := True, node_invalid := True\<rparr>), message, c) }
      else Some (Some s, message, c))"

definition wait_node :: "'w hal \<Rightarrow> CoAPMsgSendInfo \<Rightarrow> CoAPMessage \<Rightarrow> 'w CoAPClient
    \<Rightarrow> (CoAPMsgSendInfo option \<times> CoAPMessage \<times> 'w CoAPClient) option" where
  "wait_node E s message c =
     (if node_invalid s then Some (None, message, c)
      else
        let (left, c) = on_coap (left_ms E (si_start_time s)) c in
        if left > 0 then Some (Some s, message, c)
        else if retrans_count s < max_retry_count c \<and> \<not> acked s then do {
          let (t, c) = on_coap (countdown_ms E (coap_timeout_ms c)) c;
          let s = s\<lparr>si_start_time := t, retrans_count := retrans_count s + 1\<rparr>;
          let (left, c) = on_coap (left_ms E (si_start_time s)) c;
          b \<leftarrow> si_message s;
          b \<leftarrow> mem_slice b 0 (msglen s);
          let (_, c) = on_coap (net_write E b left) c;
          Some (Some s, message, c) }
        else case si_handler s of
            Some h \<Rightarrow> do {
              let message = message\<lparr>cm_type := COAP_MSG_ACK, cm_user_context := si_user_context s,
                code_class := COAP_MSG_SDKINTERNAL_ERR, code_detail := 0, cm_msg_id := si_msg_id s\<rparr>;
              c \<leftarrow> call_handler E h message (si_user_context s) c;
              Some (None, message, c) }
          | None \<Rightarrow> Some (None, message, if coap_event_handle c
              then coap_emit (Coap_Event_Id (if acked s then COAP_EVENT_SEPRESP_TIMEOUT else COAP_EVENT_ACK_TIMEOUT) (si_msg_id s)) c
              else c))"

definition list_proc_node :: "'w hal \<Rightarrow> nat \<Rightarrow> CoAPMsgSendInfo \<Rightarrow> CoAPMessage \<Rightarrow> 'w CoAPClient
    \<Rightarrow> (CoAPMsgSendInfo option \<times> CoAPMessage \<times> 'w CoAPClient) option" where
  "list_proc_node E cmd s message c =
     (if cmd = PROCESS_ACK_CMD then ack_node E s message c
      else if cmd = PROCESS_RESP_CMD then resp_node E s message c
      else if cmd = PROCESS_PIGGY_CMD then piggy_node E s message c
      else if cmd = PROCESS_WAIT_CMD then wait_node E s message c
      else Some (Some s, message, c))"

text \<open>The walk from the tail: the reversed list, and the nodes that stay.\<close>

primrec list_proc_loop :: "'w hal \<Rightarrow> nat \<Rightarrow> (nat \<times> CoAPMsgSendInfo) list \<Rightarrow> (nat \<times> CoAPMsgSendInfo) list \<Rightarrow> CoAPMessage
    \<Rightarrow> 'w CoAPClient \<Rightarrow> ((nat \<times> CoAPMsgSendInfo) list \<times> 'w CoAPClient) option" where
  "list_proc_loop E cmd [] kept message c = Some (kept, c)"
| "list_proc_loop E cmd (n # r) kept message c = do {
     (s, message, c) \<leftarrow> list_proc_node E cmd (snd n) message c;
     list_proc_loop E cmd r (case s of None \<Rightarrow> kept | Some s \<Rightarrow> (fst n, s) # kept) message c }"

definition coap_message_list_proc :: "'w hal \<Rightarrow> CoAPMessage \<Rightarrow> nat \<Rightarrow> 'w CoAPClient \<Rightarrow> (int \<times> 'w CoAPClient) option" where
  "coap_message_list_proc E message cmd c =
     (if message_list c = [] then Some (QCLOUD_ERR_FAILURE, c)
      else
        let (alloc, c) = on_coap (hal_malloc E) c in
        if \<not> alloc then Some (QCLOUD_RET_SUCCESS, c)
        else do {
          (l, c) \<leftarrow> list_proc_loop E cmd (rev (message_list c)) [] message c;
          Some (QCLOUD_RET_SUCCESS, c\<lparr>message_list := l\<rparr>) })"

text \<open>
  A new node. A message that is not confirmable would leave the timer uninitialised; it is never
  added. The copy of the packet may fail unnoticed.
\<close>

definition coap_message_list_add :: "'w hal \<Rightarrow> CoAPMessage \<Rightarrow> nat \<Rightarrow> 'w CoAPClient \<Rightarrow> (int \<times> 'w CoAPClient) option" where
  "coap_message_list_add E message len c = do {
     let (alloc, c) = on_coap (hal_malloc E) c;
     if \<not> alloc then Some (QCLOUD_ERR_FAILURE, c)
     else if cm_type message \<noteq> COAP_MSG_CON then None
     else do {
       let (t, c) = on_coap (countdown_ms E (coap_timeout_ms c)) c;
       tok \<leftarrow> mem_slice (token message) 0 (token_len message);
       let (alloc, c) = on_coap (hal_malloc E) c;
       m \<leftarrow> (if alloc then do { b \<leftarrow> mem_slice (send_buf c) 0 len; Some (Some b) } else Some None);
       let s = \<lparr>node_invalid = False, si_user_context = cm_user_context message, si_msg_id = cm_msg_id message,
         acked = False, si_token_len = token_len message, si_token = tok, retrans_count = 0, si_start_time = t,
         si_message = m, msglen = len, si_handler = cm_handler message\<rparr>;
       let (alloc, c) = on_coap (hal_malloc E) c;
       if \<not> alloc then Some (QCLOUD_ERR_FAILURE, c)
       else Some (QCLOUD_RET_SUCCESS, c\<lparr>message_list := message_list c @ [(coap_next_node c, s)],
         coap_next_node := coap_next_node c + 1\<rparr>) } }"

section \<open>Sending and receiving\<close>

definition coap_message_send :: "'w hal \<Rightarrow> CoAPMessage \<Rightarrow> 'w CoAPClient \<Rightarrow> (int \<times> 'w CoAPClient) option" where
  "coap_message_send E message c = do {
     (ret, b) \<leftarrow> serialize_coap_message message (send_buf c) (send_buf_size c);
     let c = c\<lparr>send_buf := b\<rparr>;
     if ret < 0 then Some (ret, c)
     else do {
       b \<leftarrow> mem_slice (send_buf c) 0 (nat ret);
       let ((ret, written_len), c) = on_coap (net_write E b 0) c;
       if ret = QCLOUD_RET_SUCCESS \<and> cm_type message = COAP_MSG_CON \<and> code_class message = COAP_MSG_REQ
       then coap_message_list_add E message written_len c
       else Some (ret, c) } }"

definition coap_client_send_ack :: "'w hal \<Rightarrow> nat \<Rightarrow> 'w CoAPClient \<Rightarrow> (int \<times> 'w CoAPClient) option" where
  "coap_client_send_ack E msgId c =
     (let (ret, ack) = coap_message_type_set COAP_MSG_ACK DEFAULT_COAP_MESSAGE in
      if ret \<noteq> QCLOUD_RET_SUCCESS then Some (ret, c)
      else let (ret, ack) = coap_message_id_set msgId ack in
        if ret \<noteq> QCLOUD_RET_SUCCESS then Some (ret, c)
        else coap_message_send E ack c)"

definition coap_resp_message_handle :: "'w hal \<Rightarrow> CoAPMessage \<Rightarrow> 'w CoAPClient \<Rightarrow> (int \<times> 'w CoAPClient) option" where
  "coap_resp_message_handle E message c = do {
     (_, c) \<leftarrow> (if cm_type message = COAP_MSG_CON then coap_client_send_ack E (unat (cm_msg_id message)) c
       else Some (0, c));
     coap_message_list_proc E message PROCESS_RESP_CMD c }"

definition COAP_MSG_IS_EMPTY :: "CoAPMessage \<Rightarrow> bool" where
  "COAP_MSG_IS_EMPTY m \<longleftrightarrow> code_class m = 0 \<and> code_detail m = 0"

definition COAP_MSG_IS_EMPTY_ACK :: "CoAPMessage \<Rightarrow> bool" where
  "COAP_MSG_IS_EMPTY_ACK m \<longleftrightarrow> code_class m = 2 \<and> code_detail m = 3"

definition COAP_MSG_IS_EMPTY_RSP :: "CoAPMessage \<Rightarrow> bool" where
  "COAP_MSG_IS_EMPTY_RSP m \<longleftrightarrow> code_class m = 2 \<and> code_detail m = 5"

text \<open>A packet that is not a message is logged, and what is left of the message is handled all the same.\<close>

definition coap_message_handle :: "'w hal \<Rightarrow> nat \<Rightarrow> 'w CoAPClient \<Rightarrow> 'w CoAPClient option" where
  "coap_message_handle E datalen c = do {
     ((_, m), w) \<leftarrow> deserialize_coap_message E (coap_message_destroy DEFAULT_COAP_MESSAGE) (recv_buf c) datalen (coap_world c);
     let c = c\<lparr>coap_world := w\<rparr>;
     (_, c) \<leftarrow> (if cm_type m = COAP_MSG_ACK \<and> COAP_MSG_IS_EMPTY_ACK m then coap_message_list_proc E m PROCESS_ACK_CMD c
       else if cm_type m = COAP_MSG_ACK \<and> \<not> COAP_MSG_IS_EMPTY m then coap_message_list_proc E m PROCESS_PIGGY_CMD c
       else if cm_type m = COAP_MSG_CON \<and> COAP_MSG_IS_EMPTY_RSP m then coap_resp_message_handle E m c
       else if cm_type m = COAP_MSG_NON \<and> COAP_MSG_IS_EMPTY_RSP m then coap_resp_message_handle E m c
       else Some (0, c));
     Some c }"

definition coap_message_recv :: "'w hal \<Rightarrow> nat \<Rightarrow> 'w CoAPClient \<Rightarrow> (int \<times> 'w CoAPClient) option" where
  "coap_message_recv E timeout_ms c = do {
     let ((rc, bs), c) = on_coap (net_read E (coap_read_buf_size c) (int timeout_ms)) c;
     b \<leftarrow> mem_copy (recv_buf c) 0 bs;
     let c = c\<lparr>recv_buf := b\<rparr>;
     c \<leftarrow> (if rc = QCLOUD_RET_SUCCESS then coap_message_handle E (length bs mod 2 ^ 16) c else Some c);
     Some (rc, c) }"

definition coap_message_cycle :: "'w hal \<Rightarrow> nat \<Rightarrow> 'w CoAPClient \<Rightarrow> (int \<times> 'w CoAPClient) option" where
  "coap_message_cycle E timeout_ms c = do {
     (rc, c) \<leftarrow> coap_message_recv E timeout_ms c;
     if rc \<noteq> QCLOUD_RET_SUCCESS \<and> rc \<noteq> QCLOUD_ERR_SSL_READ_TIMEOUT then Some (rc, c)
     else coap_message_list_proc E DEFAULT_COAP_MESSAGE PROCESS_WAIT_CMD c }"

section \<open>Authentication\<close>

text \<open>\<open>''txauth9w0BAQsFA''\<close>, the application id \<open>''21010406''\<close> and the cloud's domain as bytes.\<close>

definition COAP_AUTH_URI :: cstring where
  "COAP_AUTH_URI = [0x74, 0x78, 0x61, 0x75, 0x74, 0x68, 0x39, 0x77, 0x30, 0x42, 0x41, 0x51, 0x73, 0x46, 0x41]"

definition QCLOUD_IOT_DEVICE_SDK_APPID :: cstring where
  "QCLOUD_IOT_DEVICE_SDK_APPID = [0x32, 0x31, 0x30, 0x31, 0x30, 0x34, 0x30, 0x36]"

definition QCLOUD_IOT_COAP_DEIRECT_DOMAIN :: cstring where
  "QCLOUD_IOT_COAP_DEIRECT_DOMAIN = [0x69, 0x6f, 0x74, 0x63, 0x6c, 0x6f, 0x75, 0x64, 0x2e, 0x74, 0x65, 0x6e, 0x63, 0x65, 0x6e, 0x74,
     0x64, 0x65, 0x76, 0x69, 0x63, 0x65, 0x73, 0x2e, 0x63, 0x6f, 0x6d]"

definition HOST_STR_LENGTH :: nat where "HOST_STR_LENGTH = 64"

text \<open>The results of the setters are ignored; \<open>skip\<close> keeps only the message.\<close>

definition set_token :: "buffer \<Rightarrow> CoAPMessage \<Rightarrow> CoAPMessage option" where
  "set_token t m = map_option snd (coap_message_token_set t m)"

definition set_payload :: "buffer \<Rightarrow> CoAPMessage \<Rightarrow> CoAPMessage option" where
  "set_payload b m = map_option snd (coap_message_payload_set b m)"

definition add_option :: "'w hal \<Rightarrow> nat \<Rightarrow> buffer \<Rightarrow> CoAPMessage \<Rightarrow> 'w CoAPClient \<Rightarrow> CoAPMessage \<times> 'w CoAPClient" where
  "add_option E num v m c = (let ((_, m), w) = coap_message_option_add E num v m (coap_world c) in (m, c\<lparr>coap_world := w\<rparr>))"

text \<open>
  A confirmable POST with the next identifier and token. The payload of the authentication is the
  text \<open>appid;connid\<close> in a block of \<open>pay_load_len\<close> bytes; \<open>snprintf\<close> writes its terminator, what
  lies behind is not initialised and is sent (\<open>junk\<close> stands for it).
\<close>

definition new_request :: "'w CoAPClient \<Rightarrow> (CoAPMessage \<times> 'w CoAPClient) option" where
  "new_request c = do {
     let m = snd (coap_message_type_set COAP_MSG_CON DEFAULT_COAP_MESSAGE);
     let m = snd (coap_message_code_set COAP_MSG_REQ COAP_MSG_POST m);
     let (i, c) = get_next_coap_msg_id c;
     let m = snd (coap_message_id_set (unat i) m);
     let (t, c) = get_coap_message_token c;
     m \<leftarrow> set_token t m;
     Some (m, c) }"

definition coap_client_auth :: "'w hal \<Rightarrow> DeviceInfo \<Rightarrow> u8 list \<Rightarrow> nat \<Rightarrow> 'w CoAPClient \<Rightarrow> (int \<times> 'w CoAPClient) option" where
  "coap_client_auth E dev junk self c = do {
     (m, c) \<leftarrow> new_request c;
     let len = MAX_SIZE_OF_PRODUCT_ID + length (device_name dev) + length COAP_AUTH_URI + 4;
     let (alloc, c) = on_coap (hal_malloc E) c;
     if \<not> alloc then None
     else do {
       let auth_path = snd (snprintf_str len (product_id dev @ [0x2f] @ device_name dev @ [0x2f] @ COAP_AUTH_URI));
       let (m, c) = add_option E COAP_MSG_URI_PATH auth_path m c;
       let (m, c) = add_option E COAP_MSG_NEED_RESP [0x30] m c;
       let m = snd (coap_message_callback_set (Some auth_callback) m);
       let m = snd (coap_message_context_set self m);
       let c = get_coap_next_conn_id E c;
       let pay_load_len' = length QCLOUD_IOT_DEVICE_SDK_APPID + COAP_MAX_CONN_ID_LEN + 2;
       let (alloc, c) = on_coap (hal_malloc E) c;
       if \<not> alloc then Some (QCLOUD_ERR_INVAL, c)
       else do {
         let (alloc, c) = on_coap (hal_malloc E) c;
         if \<not> alloc then Some (QCLOUD_ERR_INVAL, c)
         else do {
           let s = snd (snprintf_str pay_load_len' (QCLOUD_IOT_DEVICE_SDK_APPID @ [0x3b] @ coap_conn_id c)) @ [0];
           let b = take pay_load_len' (s @ junk);
           m \<leftarrow> set_payload b (m\<lparr>pay_load := Some (replicate pay_load_len' 0), pay_load_len := pay_load_len'\<rparr>);
           coap_message_send E m c } } } }"

section \<open>The interface\<close>

record SendMsgParams =
  need_resp :: bool
  sp_pay_load :: buffer
  sp_user_context :: nat
  resp_callback :: "nat option"

record CoAPInitParams =
  cp_product_id :: cstring
  cp_device_name :: cstring
  cp_device_secret :: "cstring option"
  cp_command_timeout :: nat
  cp_max_retry_count :: u8
  cp_event_handle :: bool

definition IOT_COAP_Yield :: "'w hal \<Rightarrow> nat \<Rightarrow> 'w CoAPClient \<Rightarrow> (int \<times> 'w CoAPClient) option" where
  "IOT_COAP_Yield E timeout_ms c = coap_message_cycle E timeout_ms c"

definition IOT_COAP_SendMessage :: "'w hal \<Rightarrow> cstring \<Rightarrow> SendMsgParams \<Rightarrow> 'w CoAPClient \<Rightarrow> (int \<times> 'w CoAPClient) option" where
  "IOT_COAP_SendMessage E topicName p c =
     (if length topicName > URI_PATH_MAX_LEN then Some (QCLOUD_ERR_MAX_TOPIC_LENGTH, c)
      else do {
        (m, c) \<leftarrow> new_request c;
        let (alloc, c) = on_coap (hal_malloc E) c;
        if \<not> alloc then Some (QCLOUD_ERR_INVAL, c)
        else do {
          m \<leftarrow> set_payload (sp_pay_load p) (m\<lparr>pay_load := Some (replicate (length (sp_pay_load p)) 0)\<rparr>);
          let (m, c) = add_option E COAP_MSG_URI_PATH topicName m c;
          tok \<leftarrow> (case auth_token c of Some t \<Rightarrow> mem_slice t 0 (auth_token_len c)
            | None \<Rightarrow> if auth_token_len c = 0 then Some [] else None);
          let (m, c) = add_option E COAP_MSG_AUTH_TOKEN tok m c;
          let (m, c) = (if \<not> need_resp p
            then let (m, c) = add_option E COAP_MSG_NEED_RESP [0x30] m c in
              (snd (coap_message_context_set (sp_user_context p) m), c)
            else let (m, c) = add_option E COAP_MSG_NEED_RESP [0x31] m c in
              (snd (coap_message_context_set (sp_user_context p) (snd (coap_message_callback_set (resp_callback p) m))), c));
          (ret, c) \<leftarrow> coap_message_send E m c;
          if ret \<noteq> QCLOUD_RET_SUCCESS then Some (ret, c)
          else Some (int (unat (cm_msg_id m)), c) } })"

definition IOT_COAP_GetMessageId :: "CoAPMessage \<Rightarrow> int" where
  "IOT_COAP_GetMessageId message = int (unat (cm_msg_id message))"

definition IOT_COAP_GetMessagePayload :: "CoAPMessage \<Rightarrow> int \<times> (buffer option \<times> nat) option" where
  "IOT_COAP_GetMessagePayload message =
     (if code_class message \<noteq> COAP_MSG_SUCCESS \<or> code_detail message \<noteq> 5 then (QCLOUD_ERR_FAILURE, None)
      else (QCLOUD_RET_SUCCESS, Some (pay_load message, pay_load_len message)))"

definition IOT_COAP_GetMessageCode :: "CoAPMessage \<Rightarrow> CoAPEventType" where
  "IOT_COAP_GetMessageCode message =
     (if code_class message = COAP_MSG_SUCCESS then COAP_EVENT_RECEIVE_RESPCONTENT
      else if code_class message = COAP_MSG_CLIENT_ERR then
        (if code_detail message = 1 then COAP_EVENT_UNAUTHORIZED else COAP_EVENT_FORBIDDEN)
      else if code_class message = COAP_MSG_SERVER_ERR then COAP_EVENT_INTERNAL_SERVER_ERROR
      else if code_class message = COAP_MSG_SDKINTERNAL_ERR then COAP_EVENT_SEPRESP_TIMEOUT
      else COAP_EVENT_ACK_TIMEOUT)"

definition coap_random_start_packet_id :: "'w hal \<Rightarrow> 'w \<Rightarrow> u16 \<times> 'w" where
  "coap_random_start_packet_id E w = (let (_, w) = hal_time E w; (r, w) = hal_rand E w in (of_nat (r mod 65536 + 1), w))"

definition coap_clamp_timeout :: "nat \<Rightarrow> nat" where
  "coap_clamp_timeout t = (let t = (if t < 500 then 500 else t) in if t > 5000 then 5000 else t)"

text \<open>The TLS parameters are left out. A list that cannot be allocated is a null pointer that the first
  yield follows.\<close>

definition qcloud_iot_coap_init :: "'w hal \<Rightarrow> CoAPInitParams \<Rightarrow> 'w \<Rightarrow> ((int + 'w CoAPClient) \<times> 'w) option" where
  "qcloud_iot_coap_init E p w =
     (let (size, host) = snprintf_str HOST_STR_LENGTH (cp_product_id p @ [0x2e] @ QCLOUD_IOT_COAP_DEIRECT_DOMAIN) in
      if size < 0 \<or> size > int HOST_STR_LENGTH - 1 then Some (Inl QCLOUD_ERR_FAILURE, w)
      else if cp_device_secret p = None then Some (Inl QCLOUD_ERR_INVAL, w)
      else
        let (start, w) = coap_random_start_packet_id E w; (alloc, w) = hal_malloc E w in
        if \<not> alloc then None
        else Some (Inr \<lparr>is_authed = char_of_int (- 1), coap_conn_id = [], message_token = 0, auth_token = None,
          auth_token_len = 0, next_msg_id = start, send_buf_size = COAP_SENDMSG_MAX_BUFLEN,
          coap_read_buf_size = COAP_RECVMSG_MAX_BUFLEN, send_buf = replicate COAP_SENDMSG_MAX_BUFLEN 0,
          recv_buf = replicate COAP_RECVMSG_MAX_BUFLEN 0, coap_timeout_ms = coap_clamp_timeout (cp_command_timeout p),
          message_list = [], max_retry_count = cp_max_retry_count p, coap_event_handle = cp_event_handle p,
          coap_next_node = 1, coap_trace = [], coap_world = w\<rparr>, w))"

text \<open>The client's resources go; the connection is closed.\<close>

definition IOT_COAP_Destroy :: "'w hal \<Rightarrow> 'w CoAPClient \<Rightarrow> 'w" where
  "IOT_COAP_Destroy E c = net_disconnect E (coap_world c)"

partial_function (option) wait_authed :: "'w hal \<Rightarrow> 'w CoAPClient \<Rightarrow> 'w CoAPClient option" where
  "wait_authed E c =
     (if is_authed c = - 1 then do { (_, c) \<leftarrow> IOT_COAP_Yield E 200 c; wait_authed E c }
      else Some c)"

text \<open>The client, when there is one, with the device information and the world.\<close>

definition IOT_COAP_Construct :: "'w hal \<Rightarrow> u8 list \<Rightarrow> nat \<Rightarrow> CoAPInitParams \<Rightarrow> device_state \<Rightarrow> 'w
    \<Rightarrow> ('w CoAPClient option \<times> device_state \<times> 'w) option" where
  "IOT_COAP_Construct E junk self p d w =
     (if cp_product_id p = [] \<or> cp_device_name p = [] then Some (None, d, w)
      else
        let (alloc, w) = hal_malloc E w in
        if \<not> alloc then Some (None, d, w)
        else do {
          let (rc, d) = iot_device_info_init d;
          let d = (if rc = QCLOUD_RET_SUCCESS then snd (iot_device_info_set (cp_product_id p) (cp_device_name p) d) else d);
          (r, w) \<leftarrow> qcloud_iot_coap_init E p w;
          case r of
            Inl rc \<Rightarrow> Some (None, d, w)
          | Inr c \<Rightarrow> do {
              let (rc, c) = on_coap (net_connect E) c;
              if rc \<noteq> QCLOUD_RET_SUCCESS then Some (None, d, coap_world c)
              else do {
                (_, c) \<leftarrow> coap_client_auth E (iot_device_info_get d) junk self c;
                c \<leftarrow> wait_authed E c;
                if is_authed c = 1 then Some (Some c, d, coap_world c)
                else Some (None, d, IOT_COAP_Destroy E c) } } })"

end
