(* ===== verification/Coap_Session.thy ===== *)
theory Coap_Session
  imports Coap_Client
begin

text \<open>
  What the CoAP client promises: the life of a request in the wait list, as an abstract outcome of
  each pass; the bound on retransmissions; the invariant of the client between calls; which requests
  a response answers.
\<close>

section \<open>What an operation leaves alone\<close>

definition coap_frame :: "'w CoAPClient \<Rightarrow> 'w CoAPClient \<Rightarrow> bool" where
  "coap_frame c c' \<longleftrightarrow> max_retry_count c' = max_retry_count c \<and> coap_event_handle c' = coap_event_handle c
     \<and> message_list c' = message_list c \<and> send_buf c' = send_buf c \<and> recv_buf c' = recv_buf c
     \<and> send_buf_size c' = send_buf_size c \<and> coap_read_buf_size c' = coap_read_buf_size c
     \<and> coap_next_node c' = coap_next_node c \<and> coap_timeout_ms c' = coap_timeout_ms c"

lemma coap_frame_refl [simp]: "coap_frame c c"
  by (simp add: coap_frame_def)

lemma coap_frame_trans: "coap_frame c c' \<Longrightarrow> coap_frame c' c'' \<Longrightarrow> coap_frame c c''"
  by (simp add: coap_frame_def)

lemma on_coap_frame: "on_coap f c = (x, c') \<Longrightarrow> coap_frame c c' \<and> coap_trace c' = coap_trace c"
  by (auto simp: on_coap_def coap_frame_def split: prod.splits)

lemma emit_frame [simp]: "coap_frame c (coap_emit e c)" "coap_trace (coap_emit e c) = coap_trace c @ [e]"
  by (simp_all add: coap_frame_def coap_emit_def)

section \<open>One pass over the wait list\<close>

text \<open>The packet kept for retransmission is there.\<close>

definition node_ok :: "CoAPMsgSendInfo \<Rightarrow> bool" where
  "node_ok s \<longleftrightarrow> (case si_message s of None \<Rightarrow> False | Some b \<Rightarrow> msglen s = length b)"

text \<open>
  What a pass does to one request: nothing while its timer runs, a retransmission, or removal; a
  request that ends without an answer is reported once.
\<close>

inductive wait_outcome :: "'w hal \<Rightarrow> u8 \<Rightarrow> bool \<Rightarrow> CoAPMsgSendInfo \<Rightarrow> CoAPMsgSendInfo option \<Rightarrow> coap_effect list \<Rightarrow> bool"
  for E :: "'w hal" and m :: u8 and ev :: bool where
  dropped: "node_invalid s \<Longrightarrow> wait_outcome E m ev s None []"
| waiting: "\<not> node_invalid s \<Longrightarrow> \<exists>w. fst (left_ms E (si_start_time s) w) > 0 \<Longrightarrow> wait_outcome E m ev s (Some s) []"
| retransmitted: "\<not> node_invalid s \<Longrightarrow> \<not> acked s \<Longrightarrow> retrans_count s < m \<Longrightarrow>
    wait_outcome E m ev s (Some (s\<lparr>si_start_time := t, retrans_count := retrans_count s + 1\<rparr>)) []"
| event: "\<not> node_invalid s \<Longrightarrow> acked s \<or> m \<le> retrans_count s \<Longrightarrow> si_handler s = None \<Longrightarrow>
    wait_outcome E m ev s None (if ev then [Coap_Event_Id (if acked s then COAP_EVENT_SEPRESP_TIMEOUT else COAP_EVENT_ACK_TIMEOUT)
      (si_msg_id s)] else [])"
| callback: "\<not> node_invalid s \<Longrightarrow> acked s \<or> m \<le> retrans_count s \<Longrightarrow> si_handler s = Some h \<Longrightarrow> h \<noteq> auth_callback \<Longrightarrow>
    code_class msg = COAP_MSG_SDKINTERNAL_ERR \<Longrightarrow> cm_msg_id msg = si_msg_id s \<Longrightarrow>
    wait_outcome E m ev s None [Coap_Response h msg (si_user_context s)]"
| auth: "\<not> node_invalid s \<Longrightarrow> acked s \<or> m \<le> retrans_count s \<Longrightarrow> si_handler s = Some auth_callback \<Longrightarrow>
    wait_outcome E m ev s None []"

lemma wait_node_outcome:
  assumes "node_ok s"
  shows "\<exists>out eff msg' c'. wait_node E s msg c = Some (out, msg', c')
    \<and> wait_outcome E (max_retry_count c) (coap_event_handle c) s out eff
    \<and> coap_trace c' = coap_trace c @ eff \<and> coap_frame c c'"
proof (cases "node_invalid s")
  case True
  then show ?thesis by (auto simp: wait_node_def intro: dropped)
next
  case valid: False
  obtain left c1 where l: "on_coap (left_ms E (si_start_time s)) c = (left, c1)" by fastforce
  note f1 = on_coap_frame [OF l]
  have left: "left = fst (left_ms E (si_start_time s) (coap_world c))"
    using l by (auto simp: on_coap_def split: prod.splits)
  have m: "max_retry_count c1 = max_retry_count c" "coap_event_handle c1 = coap_event_handle c"
    using f1 by (auto simp: coap_frame_def)
  consider "left > 0" | "left \<le> 0" "retrans_count s < max_retry_count c \<and> \<not> acked s"
    | "left \<le> 0" "acked s \<or> max_retry_count c \<le> retrans_count s" by fastforce
  then show ?thesis
  proof cases
    case 1
    have "wait_outcome E (max_retry_count c) (coap_event_handle c) s (Some s) []"
      using valid 1 left by (intro waiting) auto
    then show ?thesis using 1 valid f1 by (simp add: wait_node_def l)
  next
    case 2
    obtain t c2 where t: "on_coap (countdown_ms E (coap_timeout_ms c1)) c1 = (t, c2)" by fastforce
    let ?s = "s\<lparr>si_start_time := t, retrans_count := retrans_count s + 1\<rparr>"
    obtain l2 c3 where l2: "on_coap (left_ms E t) c2 = (l2, c3)" by fastforce
    obtain b where b: "si_message s = Some b" "mem_slice b 0 (msglen s) = Some b"
      using assms by (auto simp: node_ok_def mem_slice_def split: option.splits)
    obtain x c4 where w: "on_coap (net_write E b l2) c3 = (x, c4)" by fastforce
    have "wait_node E s msg c = Some (Some ?s, msg, c4)"
      using valid 2 by (simp add: wait_node_def l m t l2 b w)
    moreover have "coap_frame c c4 \<and> coap_trace c4 = coap_trace c"
      using f1 on_coap_frame [OF t] on_coap_frame [OF l2] on_coap_frame [OF w] by (auto simp: coap_frame_def)
    moreover have "wait_outcome E (max_retry_count c) (coap_event_handle c) s (Some ?s) []"
      using valid 2 by (intro retransmitted) auto
    ultimately show ?thesis by auto
  next
    case 3
    then have no: "\<not> (retrans_count s < max_retry_count c \<and> \<not> acked s)" "\<not> left > 0" by auto
    show ?thesis
    proof (cases "si_handler s")
      case None
      let ?e = "if coap_event_handle c then [Coap_Event_Id (if acked s then COAP_EVENT_SEPRESP_TIMEOUT else COAP_EVENT_ACK_TIMEOUT)
        (si_msg_id s)] else []"
      have "wait_outcome E (max_retry_count c) (coap_event_handle c) s None ?e"
        using valid 3 None by (intro event) auto
      moreover have "wait_node E s msg c = Some (None, msg, if coap_event_handle c
          then coap_emit (Coap_Event_Id (if acked s then COAP_EVENT_SEPRESP_TIMEOUT else COAP_EVENT_ACK_TIMEOUT) (si_msg_id s)) c1 else c1)"
        using valid no None by (auto simp: wait_node_def l m)
      moreover have "coap_frame c (if coap_event_handle c then coap_emit e c1 else c1)" for e
        using f1 by (auto simp: coap_frame_def coap_emit_def)
      ultimately show ?thesis using f1 by (auto simp: coap_emit_def)
    next
      case (Some h)
      let ?msg = "msg\<lparr>cm_type := COAP_MSG_ACK, cm_user_context := si_user_context s,
        code_class := COAP_MSG_SDKINTERNAL_ERR, code_detail := 0, cm_msg_id := si_msg_id s\<rparr>"
      have n: "wait_node E s msg c = Option.bind (call_handler E h ?msg (si_user_context s) c1) (\<lambda>c. Some (None, ?msg, c))"
        using valid no Some by (auto simp: wait_node_def l m Let_def)
      show ?thesis
      proof (cases "h = auth_callback")
        case True
        have "\<exists>c2. call_handler E h ?msg (si_user_context s) c1 = Some c2 \<and> coap_frame c1 c2 \<and> coap_trace c2 = coap_trace c1"
          by (simp add: call_handler_def True coap_client_auth_callback_def) (simp add: coap_frame_def)
        moreover have "wait_outcome E (max_retry_count c) (coap_event_handle c) s None []"
          using valid 3 Some True by (intro auth) auto
        ultimately show ?thesis using n f1 coap_frame_trans by fastforce
      next
        case False
        have "wait_outcome E (max_retry_count c) (coap_event_handle c) s None [Coap_Response h ?msg (si_user_context s)]"
          using valid 3 Some False by (intro callback) auto
        then show ?thesis using n f1 coap_frame_trans emit_frame False by (fastforce simp: call_handler_def)
      qed
    qed
  qed
qed

text \<open>The nodes that stay, from the walked list and the outcomes.\<close>

definition kept_nodes :: "(nat \<times> CoAPMsgSendInfo) list \<Rightarrow> (CoAPMsgSendInfo option \<times> coap_effect list) list \<Rightarrow> (nat \<times> CoAPMsgSendInfo) list" where
  "kept_nodes ns outs = concat (map2 (\<lambda>n out. case fst out of None \<Rightarrow> [] | Some s \<Rightarrow> [(fst n, s)]) ns outs)"

lemma kept_nodes_simps [simp]:
  "kept_nodes [] outs = []"
  "kept_nodes (n # ns) (out # outs) = (case fst out of None \<Rightarrow> kept_nodes ns outs | Some s \<Rightarrow> (fst n, s) # kept_nodes ns outs)"
  by (auto simp: kept_nodes_def split: option.splits)

lemma list_proc_loop_wait:
  assumes "\<forall>n\<in>set ns. node_ok (snd n)"
  shows "\<exists>outs c'. list_proc_loop E PROCESS_WAIT_CMD ns kept msg c = Some (rev (kept_nodes ns outs) @ kept, c')
    \<and> list_all2 (\<lambda>n out. wait_outcome E (max_retry_count c) (coap_event_handle c) (snd n) (fst out) (snd out)) ns outs
    \<and> coap_trace c' = coap_trace c @ concat (map snd outs) \<and> coap_frame c c'"
  using assms
proof (induction ns arbitrary: kept msg c)
  case (Cons n ns)
  obtain out eff msg1 c1 where n: "wait_node E (snd n) msg c = Some (out, msg1, c1)"
    "wait_outcome E (max_retry_count c) (coap_event_handle c) (snd n) out eff"
    "coap_trace c1 = coap_trace c @ eff" "coap_frame c c1"
    using wait_node_outcome [of "snd n" E msg c] Cons.prems by auto
  let ?kept = "case out of None \<Rightarrow> kept | Some s \<Rightarrow> (fst n, s) # kept"
  obtain outs c2 where l: "list_proc_loop E PROCESS_WAIT_CMD ns ?kept msg1 c1 = Some (rev (kept_nodes ns outs) @ ?kept, c2)"
    "list_all2 (\<lambda>n out. wait_outcome E (max_retry_count c1) (coap_event_handle c1) (snd n) (fst out) (snd out)) ns outs"
    "coap_trace c2 = coap_trace c1 @ concat (map snd outs)" "coap_frame c1 c2"
    using Cons.IH [of ?kept msg1 c1] Cons.prems by auto
  have same: "max_retry_count c1 = max_retry_count c" "coap_event_handle c1 = coap_event_handle c"
    using n(4) by (simp_all add: coap_frame_def)
  have "list_proc_loop E PROCESS_WAIT_CMD (n # ns) kept msg c = Some (rev (kept_nodes (n # ns) ((out, eff) # outs)) @ kept, c2)"
    using l(1) by (cases out) (simp_all add: list_proc_node_def n(1))
  moreover have "list_all2 (\<lambda>n out. wait_outcome E (max_retry_count c) (coap_event_handle c) (snd n) (fst out) (snd out))
      (n # ns) ((out, eff) # outs)"
    using n(2) l(2) by (simp add: same)
  moreover have "coap_trace c2 = coap_trace c @ concat (map snd ((out, eff) # outs))" using n(3) l(3) by simp
  moreover have "coap_frame c c2" using n(4) l(4) by (rule coap_frame_trans)
  ultimately show ?case by blast
qed simp

lemma wait_pass:
  assumes "\<forall>n\<in>set (message_list c). node_ok (snd n)" and "message_list c \<noteq> []" and "fst (hal_malloc E (coap_world c))"
  shows "\<exists>outs c'. coap_message_list_proc E msg PROCESS_WAIT_CMD c = Some (QCLOUD_RET_SUCCESS, c')
    \<and> list_all2 (\<lambda>n out. wait_outcome E (max_retry_count c) (coap_event_handle c) (snd n) (fst out) (snd out))
        (rev (message_list c)) outs
    \<and> message_list c' = rev (kept_nodes (rev (message_list c)) outs)
    \<and> coap_trace c' = coap_trace c @ concat (map snd outs) \<and> coap_frame c (c'\<lparr>message_list := message_list c\<rparr>)"
proof -
  obtain c1 where m: "on_coap (hal_malloc E) c = (True, c1)" using assms(3) by (cases "hal_malloc E (coap_world c)") (auto simp: on_coap_def)
  have f: "max_retry_count c1 = max_retry_count c" "coap_event_handle c1 = coap_event_handle c"
    "message_list c1 = message_list c" "coap_trace c1 = coap_trace c" "coap_frame c c1"
    using on_coap_frame [OF m] by (simp_all add: coap_frame_def)
  obtain outs c2 where l: "list_proc_loop E PROCESS_WAIT_CMD (rev (message_list c)) [] msg c1
      = Some (rev (kept_nodes (rev (message_list c)) outs) @ [], c2)"
    "list_all2 (\<lambda>n out. wait_outcome E (max_retry_count c1) (coap_event_handle c1) (snd n) (fst out) (snd out)) (rev (message_list c)) outs"
    "coap_trace c2 = coap_trace c1 @ concat (map snd outs)" "coap_frame c1 c2"
    using list_proc_loop_wait [of "rev (message_list c)" E "[]" msg c1] assms(1) by auto
  have "coap_frame c (c2\<lparr>message_list := message_list c\<rparr>)" using f(5) l(4) by (simp add: coap_frame_def)
  then show ?thesis
    using l assms(2) by (intro exI [of _ outs]) (simp add: coap_message_list_proc_def m f)
qed


text \<open>A request whose packet has left once and whose timer has run out.\<close>

definition sample_node :: CoAPMsgSendInfo where
  "sample_node = \<lparr>node_invalid = False, si_user_context = 0, si_msg_id = 7, acked = False, si_token_len = 1, si_token = [9],
     retrans_count = 0, si_start_time = 0, si_message = Some [1, 2], msglen = 2, si_handler = None\<rparr>"

definition sample_coap :: "u32 CoAPClient" where
  "sample_coap = \<lparr>is_authed = 1, coap_conn_id = [], message_token = 0, auth_token = None, auth_token_len = 0, next_msg_id = 7,
     send_buf_size = COAP_SENDMSG_MAX_BUFLEN, coap_read_buf_size = COAP_RECVMSG_MAX_BUFLEN,
     send_buf = replicate COAP_SENDMSG_MAX_BUFLEN 0, recv_buf = replicate COAP_RECVMSG_MAX_BUFLEN 0, coap_timeout_ms = 2000,
     message_list = [(1, sample_node)], max_retry_count = 5, coap_event_handle = True, coap_next_node = 2, coap_trace = [],
     coap_world = 100\<rparr>"

lemma sample_coap_simps [simp]:
  "message_list sample_coap = [(1, sample_node)]" "max_retry_count sample_coap = 5" "coap_event_handle sample_coap = True"
  "coap_world sample_coap = 100" "node_ok sample_node"
  by (simp_all add: sample_coap_def sample_node_def node_ok_def)


section \<open>Requests do not stay for ever\<close>

text \<open>How often a request can still be touched: its retries, the report, and the removal.\<close>

definition wait_budget :: "u8 \<Rightarrow> CoAPMsgSendInfo \<Rightarrow> nat" where
  "wait_budget m s = (if node_invalid s then 1 else if acked s then 2 else 2 + (unat m - unat (retrans_count s)))"

definition list_budget :: "u8 \<Rightarrow> (nat \<times> CoAPMsgSendInfo) list \<Rightarrow> nat" where
  "list_budget m l = sum_list (map (\<lambda>n. wait_budget m (snd n)) l)"

definition node_due :: "'w hal \<Rightarrow> nat \<times> CoAPMsgSendInfo \<Rightarrow> bool" where
  "node_due E n \<longleftrightarrow> node_invalid (snd n) \<or> (\<forall>w. fst (left_ms E (si_start_time (snd n)) w) \<le> 0)"

lemma outcome_budget:
  assumes "wait_outcome E m ev (snd n) out eff"
  shows "(case out of None \<Rightarrow> 0 | Some s \<Rightarrow> wait_budget m s) + (if node_due E n then 1 else 0) \<le> wait_budget m (snd n)"
  using assms
proof cases
  case waiting
  then show ?thesis by (auto simp: node_due_def not_le [symmetric])
next
  case (retransmitted t)
  have lt: "unat (retrans_count (snd n)) < unat m" using retransmitted by (simp add: word_less_nat_alt)
  then have "unat (retrans_count (snd n) + 1) = unat (retrans_count (snd n)) + 1"
    using byte_lt [of m] by (simp add: unat_word_ariths)
  then show ?thesis using retransmitted lt by (cases "node_due E n") (auto simp: wait_budget_def)
qed (auto simp: wait_budget_def)

lemma kept_budget:
  assumes "list_all2 (\<lambda>n out. wait_outcome E m ev (snd n) (fst out) (snd out)) ns outs"
  shows "list_budget m (kept_nodes ns outs) + length (filter (node_due E) ns) \<le> list_budget m ns"
  using assms
proof (induction rule: list_all2_induct)
  case (Cons n ns out outs)
  then show ?case
    using outcome_budget [OF Cons.hyps(1)] by (cases "fst out") (simp_all add: list_budget_def split: if_splits)
qed (simp add: list_budget_def)



section \<open>The invariant between calls\<close>

text \<open>
  The platform as the client needs it: allocations succeed (a packet whose copy could not be
  allocated is retransmitted from a null pointer), a successful write sends everything, and a
  datagram is shorter than the buffer (the deserialiser looks at one byte behind it).
\<close>

definition coap_hal_ok :: "'w hal \<Rightarrow> bool" where
  "coap_hal_ok E \<longleftrightarrow> (\<forall>w. fst (hal_malloc E w))
     \<and> (\<forall>bs t w. fst (fst (net_write E bs t w)) = QCLOUD_RET_SUCCESS \<longrightarrow> snd (fst (net_write E bs t w)) = length bs)
     \<and> (\<forall>n t w. 0 < n \<longrightarrow> length (snd (fst (net_read E n t w))) < n)"

text \<open>\<open>coap_inv\<close> holds inside a cycle, \<open>coap_ok\<close> between calls: no answered request is left.\<close>

definition request_ok :: "'w CoAPClient \<Rightarrow> nat \<times> CoAPMsgSendInfo \<Rightarrow> bool" where
  "request_ok c n \<longleftrightarrow> node_ok (snd n) \<and> retrans_count (snd n) \<le> max_retry_count c
     \<and> fst n < coap_next_node c \<and> si_handler (snd n) \<noteq> Some auth_callback"

definition coap_inv :: "'w CoAPClient \<Rightarrow> bool" where
  "coap_inv c \<longleftrightarrow> send_buf_size c = 512 \<and> length (send_buf c) = 512 \<and> coap_read_buf_size c = 512 \<and> length (recv_buf c) = 512
     \<and> (\<forall>n\<in>set (message_list c). request_ok c n) \<and> distinct (map fst (message_list c))"

definition coap_ok :: "'w CoAPClient \<Rightarrow> bool" where
  "coap_ok c \<longleftrightarrow> coap_inv c \<and> (\<forall>n\<in>set (message_list c). \<not> node_invalid (snd n))"

lemma coap_inv_frame: "coap_inv c \<Longrightarrow> coap_frame c c' \<Longrightarrow> coap_inv c'"
  by (simp add: coap_inv_def coap_frame_def request_ok_def)

text \<open>What an answer may change of a request.\<close>

definition same_request :: "CoAPMsgSendInfo \<Rightarrow> CoAPMsgSendInfo \<Rightarrow> bool" where
  "same_request s s' \<longleftrightarrow> s\<lparr>node_invalid := False, acked := False, si_start_time := 0\<rparr>
     = s'\<lparr>node_invalid := False, acked := False, si_start_time := 0\<rparr>"

lemma same_request_simps:
  assumes "same_request s s'"
  shows "si_message s' = si_message s" "msglen s' = msglen s" "retrans_count s' = retrans_count s" "si_handler s' = si_handler s"
  using assms by (cases s; cases s'; simp add: same_request_def)+

lemma answer_node:
  assumes "cmd < 3" and "si_handler s \<noteq> Some auth_callback"
  shows "\<exists>s' msg' c'. list_proc_node E cmd s msg c = Some (Some s', msg', c') \<and> same_request s s' \<and> coap_frame c c'"
proof -
  consider "cmd = PROCESS_ACK_CMD" | "cmd = PROCESS_PIGGY_CMD" | "cmd = PROCESS_RESP_CMD" using assms(1) by linarith
  then show ?thesis
  proof cases
    case 1
    obtain t c1 where t: "on_coap (countdown_ms E (coap_timeout_ms c)) c = (t, c1)" by fastforce
    show ?thesis using on_coap_frame [OF t] by (auto simp: 1 list_proc_node_def ack_node_def t same_request_def)
  next
    case 2
    then show ?thesis using assms(2)
      by (cases "si_handler s") (auto simp: list_proc_node_def piggy_node_def same_request_def call_handler_def Let_def)
  next
    case 3
    then show ?thesis using assms(2)
      by (auto simp: list_proc_node_def resp_node_def same_request_def call_handler_def Let_def split: option.splits)
  qed
qed

lemma answer_loop:
  assumes "cmd < 3" and "\<forall>n\<in>set ns. si_handler (snd n) \<noteq> Some auth_callback"
  shows "\<exists>ns' c'. list_proc_loop E cmd ns kept msg c = Some (rev ns' @ kept, c')
    \<and> list_all2 (\<lambda>n n'. fst n' = fst n \<and> same_request (snd n) (snd n')) ns ns' \<and> coap_frame c c'"
  using assms(2)
proof (induction ns arbitrary: kept msg c)
  case (Cons n ns)
  obtain s msg1 c1 where n: "list_proc_node E cmd (snd n) msg c = Some (Some s, msg1, c1)" "same_request (snd n) s" "coap_frame c c1"
    using answer_node [OF assms(1), of "snd n"] Cons.prems by fastforce
  obtain ns' c2 where l: "list_proc_loop E cmd ns ((fst n, s) # kept) msg1 c1 = Some (rev ns' @ (fst n, s) # kept, c2)"
    "list_all2 (\<lambda>n n'. fst n' = fst n \<and> same_request (snd n) (snd n')) ns ns'" "coap_frame c1 c2"
    using Cons.IH [of "(fst n, s) # kept" msg1 c1] Cons.prems by auto
  have "list_proc_loop E cmd (n # ns) kept msg c = Some (rev ((fst n, s) # ns') @ kept, c2)" using n(1) l(1) by simp
  then show ?case using n(2,3) l(2,3) coap_frame_trans by fastforce
qed simp

lemma all2_source: "list_all2 P xs ys \<Longrightarrow> y \<in> set ys \<Longrightarrow> \<exists>x\<in>set xs. P x y"
  by (induction rule: list_all2_induct) auto

lemma all2_same_fst: "list_all2 (\<lambda>n n'. fst n' = fst n \<and> P n n') ns ns' \<Longrightarrow> map fst ns' = map fst ns"
  by (induction rule: list_all2_induct) auto

lemma answer_keeps:
  assumes "cmd < 3" and "coap_inv c" and "coap_hal_ok E"
  shows "\<exists>rc c'. coap_message_list_proc E msg cmd c = Some (rc, c') \<and> coap_inv c'"
proof (cases "message_list c = []")
  case False
  obtain c1 where m: "on_coap (hal_malloc E) c = (True, c1)"
    using assms(3) by (cases "hal_malloc E (coap_world c)") (auto simp: on_coap_def coap_hal_ok_def dest: spec [of _ "coap_world c"])
  have i1: "coap_inv c1" "message_list c1 = message_list c"
    using coap_inv_frame [OF assms(2)] on_coap_frame [OF m] by (simp_all add: coap_frame_def)
  have h: "\<forall>n\<in>set (rev (message_list c)). si_handler (snd n) \<noteq> Some auth_callback"
    using assms(2) by (simp add: coap_inv_def request_ok_def)
  obtain ns' c2 where l: "list_proc_loop E cmd (rev (message_list c)) [] msg c1 = Some (rev ns' @ [], c2)"
    "list_all2 (\<lambda>n n'. fst n' = fst n \<and> same_request (snd n) (snd n')) (rev (message_list c)) ns'" "coap_frame c1 c2"
    using answer_loop [OF assms(1) h] by blast
  have i2: "coap_inv c2" using coap_inv_frame [OF i1(1) l(3)] .
  have l2: "message_list c2 = message_list c" using l(3) i1(2) by (simp add: coap_frame_def)
  have "request_ok c2 n'" if n': "n' \<in> set ns'" for n'
  proof -
    obtain n where n: "n \<in> set (message_list c)" "fst n' = fst n" "same_request (snd n) (snd n')"
      using all2_source [OF l(2) n'] by auto
    have "request_ok c2 n" using n(1) i2 l2 by (simp add: coap_inv_def)
    then show ?thesis using n(2) same_request_simps [OF n(3)] by (cases "si_message (snd n)") (simp_all add: request_ok_def node_ok_def)
  qed
  moreover have "distinct (map fst (rev ns'))"
    using all2_same_fst [OF l(2)] i2 l2 by (simp add: rev_map [symmetric] coap_inv_def)
  ultimately have "coap_inv (c2\<lparr>message_list := rev ns'\<rparr>)" using i2 by (simp add: coap_inv_def request_ok_def)
  moreover have "coap_message_list_proc E msg cmd c = Some (QCLOUD_RET_SUCCESS, c2\<lparr>message_list := rev ns'\<rparr>)"
    using False l(1) i1(2) by (simp add: coap_message_list_proc_def m)
  ultimately show ?thesis by blast
qed (use assms in \<open>simp add: coap_message_list_proc_def\<close>)

text \<open>Sending an acknowledgement adds no request.\<close>

lemma send_ack_keeps:
  assumes "coap_inv c" and "n < 65536"
  shows "\<exists>rc c'. coap_client_send_ack E n c = Some (rc, c') \<and> coap_inv c'"
proof -
  define ack where "ack = DEFAULT_COAP_MESSAGE\<lparr>cm_type := COAP_MSG_ACK, cm_msg_id := of_nat n\<rparr>"
  have ok: "message_ok ack" "cm_type ack = COAP_MSG_ACK"
    by (simp_all add: ack_def message_ok_def DEFAULT_COAP_MESSAGE_def coap_consts)
  have len: "length (message_bytes ack) = 4"
    by (simp add: ack_def message_bytes_def DEFAULT_COAP_MESSAGE_def payload_bytes_def)
  let ?b = "overlay (send_buf c) 0 (message_bytes ack)"
  have ser: "serialize_coap_message ack (send_buf c) (send_buf_size c) = Some (4, ?b)"
    using serialize_exact [OF ok(1), of "send_buf_size c" "send_buf c"] assms(1) len by (simp add: coap_inv_def)
  let ?c = "c\<lparr>send_buf := ?b\<rparr>"
  have b: "length ?b = 512" using assms(1) len by (simp add: coap_inv_def)
  have i: "coap_inv ?c" using assms(1) b by (simp add: coap_inv_def request_ok_def)
  obtain ret k c1 where w: "on_coap (net_write E (take 4 ?b) 0) ?c = ((ret, k), c1)"
    by (metis prod.exhaust)
  have "coap_client_send_ack E n c = coap_message_send E ack c"
    using assms(2) by (simp add: coap_client_send_ack_def coap_message_type_set_def coap_message_id_set_def coap_consts ack_def)
  also have "\<dots> = Some (ret, c1)"
    using w b by (simp add: coap_message_send_def ser mem_slice_def ok(2))
  finally show ?thesis using coap_inv_frame [OF i] on_coap_frame [OF w] by blast
qed

lemma resp_keeps:
  assumes "coap_inv c" and "coap_hal_ok E"
  shows "\<exists>rc c'. coap_resp_message_handle E m c = Some (rc, c') \<and> coap_inv c'"
proof -
  have "unat (cm_msg_id m) < 65536" using unsigned_less [of "cm_msg_id m", where 'a = nat] by simp
  then obtain rc c1 where "coap_client_send_ack E (unat (cm_msg_id m)) c = Some (rc, c1)" "coap_inv c1"
    using send_ack_keeps [OF assms(1)] by blast
  then obtain rc c1 where "(if cm_type m = COAP_MSG_CON then coap_client_send_ack E (unat (cm_msg_id m)) c else Some (0, c)) = Some (rc, c1)"
    "coap_inv c1" using assms(1) by (cases "cm_type m = COAP_MSG_CON") auto
  then show ?thesis using answer_keeps [of PROCESS_RESP_CMD c1 E m] assms(2) by (simp add: coap_resp_message_handle_def)
qed

lemma handle_keeps:
  assumes "coap_inv c" and "coap_hal_ok E" and "n < 512"
  shows "\<exists>c'. coap_message_handle E n c = Some c' \<and> coap_inv c'"
proof -
  have n: "n < length (recv_buf c)" "n < 2 ^ 32" using assms(1,3) by (simp_all add: coap_inv_def)
  obtain rc m w where d: "deserialize_coap_message E (coap_message_destroy DEFAULT_COAP_MESSAGE) (recv_buf c) n (coap_world c) = Some ((rc, m), w)"
    using deserialize_returns [OF n, of E DEFAULT_COAP_MESSAGE "coap_world c"] by blast
  let ?c = "c\<lparr>coap_world := w\<rparr>"
  have i: "coap_inv ?c" using coap_inv_frame [OF assms(1), of ?c] by (simp add: coap_frame_def)
  note a = answer_keeps [OF _ i assms(2)]
  obtain rc1 c1 where ack: "coap_message_list_proc E m PROCESS_ACK_CMD ?c = Some (rc1, c1)" "coap_inv c1" using a [of PROCESS_ACK_CMD m] by auto
  obtain rc2 c2 where piggy: "coap_message_list_proc E m PROCESS_PIGGY_CMD ?c = Some (rc2, c2)" "coap_inv c2" using a [of PROCESS_PIGGY_CMD m] by auto
  obtain rc3 c3 where resp: "coap_resp_message_handle E m ?c = Some (rc3, c3)" "coap_inv c3" using resp_keeps [OF i assms(2)] by blast
  show ?thesis using i ack piggy resp by (simp add: coap_message_handle_def d Let_def)
qed

lemma recv_keeps:
  assumes "coap_inv c" and "coap_hal_ok E"
  shows "\<exists>rc c'. coap_message_recv E t c = Some (rc, c') \<and> coap_inv c' \<and> (rc = QCLOUD_RET_SUCCESS \<or> message_list c' = message_list c)"
proof -
  obtain rc bs c1 where r: "on_coap (net_read E (coap_read_buf_size c) (int t)) c = ((rc, bs), c1)" by (metis prod.exhaust)
  then have "bs = snd (fst (net_read E (coap_read_buf_size c) (int t) (coap_world c)))"
    by (auto simp: on_coap_def split: prod.splits)
  then have bs: "length bs < 512" using assms by (simp add: coap_hal_ok_def coap_inv_def)
  have i: "coap_inv c1" using coap_inv_frame [OF assms(1)] on_coap_frame [OF r] by blast
  let ?c = "c1\<lparr>recv_buf := overlay (recv_buf c1) 0 bs\<rparr>"
  have i2: "coap_inv ?c" using i bs by (simp add: coap_inv_def request_ok_def)
  obtain c2 where h: "coap_message_handle E (length bs) ?c = Some c2" "coap_inv c2"
    using handle_keeps [OF i2 assms(2) bs] by blast
  have m: "mem_copy (recv_buf c1) 0 bs = Some (overlay (recv_buf c1) 0 bs)" "length bs mod 2 ^ 16 = length bs"
    using i bs by (simp_all add: mem_copy_def coap_inv_def)
  have l: "message_list c1 = message_list c" using on_coap_frame [OF r] by (simp add: coap_frame_def)
  show ?thesis using h i2 l unfolding coap_message_recv_def by (simp only: r m Let_def bind.bind_lunit case_prod_conv) simp
qed

lemma outcome_keeps:
  assumes "wait_outcome E m ev s (Some s') eff" and "node_ok s" and "retrans_count s \<le> m" and "si_handler s \<noteq> Some auth_callback"
  shows "\<not> node_invalid s' \<and> node_ok s' \<and> retrans_count s' \<le> m \<and> si_handler s' \<noteq> Some auth_callback"
  using assms(1)
proof cases
  case (retransmitted t)
  then have "retrans_count s + 1 \<le> m" using inc_le by blast
  then show ?thesis using retransmitted assms by (cases "si_message s") (simp_all add: node_ok_def)
qed (use assms in auto)

lemma kept_nodes_mem:
  assumes "list_all2 (\<lambda>n out. P (snd n) (fst out) (snd out)) ns outs" and "k \<in> set (kept_nodes ns outs)"
  shows "\<exists>n\<in>set ns. fst k = fst n \<and> (\<exists>eff. P (snd n) (Some (snd k)) eff)"
  using assms
proof (induction rule: list_all2_induct)
  case (Cons n ns out outs)
  then show ?case by (cases "fst out") auto
qed simp

lemma kept_nodes_distinct:
  assumes "length ns = length outs" and "distinct (map fst ns)"
  shows "distinct (map fst (kept_nodes ns outs)) \<and> fst ` set (kept_nodes ns outs) \<subseteq> fst ` set ns"
  using assms
proof (induction ns outs rule: list_induct2)
  case (Cons n ns out outs)
  then have "fst n \<notin> fst ` set (kept_nodes ns outs)" by auto
  with Cons show ?case by (cases "fst out") auto
qed simp

lemma wait_keeps:
  assumes "coap_inv c" and "coap_hal_ok E"
  shows "\<exists>rc c'. coap_message_list_proc E msg PROCESS_WAIT_CMD c = Some (rc, c') \<and> coap_ok c'"
proof (cases "message_list c = []")
  case True
  then show ?thesis using assms(1) by (simp add: coap_message_list_proc_def coap_ok_def)
next
  case False
  have ok: "\<forall>n\<in>set (message_list c). request_ok c n" using assms(1) by (simp add: coap_inv_def)
  then have "\<forall>n\<in>set (message_list c). node_ok (snd n)" by (simp add: request_ok_def)
  from wait_pass [OF this False, of E msg] assms(2) obtain outs c' where p: "coap_message_list_proc E msg PROCESS_WAIT_CMD c = Some (QCLOUD_RET_SUCCESS, c')"
    "list_all2 (\<lambda>n out. wait_outcome E (max_retry_count c) (coap_event_handle c) (snd n) (fst out) (snd out)) (rev (message_list c)) outs"
    "message_list c' = rev (kept_nodes (rev (message_list c)) outs)" "coap_frame c (c'\<lparr>message_list := message_list c\<rparr>)"
    unfolding coap_hal_ok_def by blast
  have "request_ok c k \<and> \<not> node_invalid (snd k)" if k: "k \<in> set (message_list c')" for k
  proof -
    obtain n eff where "n \<in> set (message_list c)" "fst k = fst n"
      "wait_outcome E (max_retry_count c) (coap_event_handle c) (snd n) (Some (snd k)) eff"
      using kept_nodes_mem [OF p(2), of k] k p(3) by auto
    then show ?thesis using outcome_keeps ok by (fastforce simp: request_ok_def)
  qed
  moreover have "distinct (map fst (message_list c'))"
    using kept_nodes_distinct [OF list_all2_lengthD [OF p(2)]] assms(1) by (simp add: p(3) rev_map [symmetric] coap_inv_def)
  ultimately have "coap_ok c'" using p(4) assms(1) by (simp add: coap_ok_def coap_inv_def coap_frame_def request_ok_def)
  then show ?thesis using p(1) by blast
qed


text \<open>A platform that meets the contract: everything is sent, nothing is read.\<close>

definition quiet_hal :: "u32 hal" where
  "quiet_hal = (clock_hal 1)\<lparr>net_read := (\<lambda>n t w. ((QCLOUD_ERR_SSL_READ_TIMEOUT, []), w))\<rparr>"

lemma quiet_hal_ok: "coap_hal_ok quiet_hal"
  by (simp add: quiet_hal_def coap_hal_ok_def clock_hal_def)

lemma sample_coap_ok: "coap_ok sample_coap"
  by (simp add: coap_ok_def coap_inv_def request_ok_def)
    (simp add: sample_coap_def sample_node_def COAP_SENDMSG_MAX_BUFLEN_def COAP_RECVMSG_MAX_BUFLEN_def)


end
