(* ===== verification/Coap_Request.thy ===== *)
theory Coap_Request
  imports Coap_Session
begin

text \<open>
  Requests of the CoAP client: \<open>IOT_COAP_SendMessage\<close> never writes outside its buffer and keeps the
  client well formed; which requests a response answers; constructing a client.
\<close>

section \<open>Serialising options that are counted in full\<close>

lemma op_need_counts:
  assumes "op_ok op"
  shows "((if val_len op \<ge> 269 then (if unat (option_num op - prev) \<ge> 269 then 1 + 2 else if unat (option_num op - prev) \<ge> 13 then 1 + 1 else 1) + 2
      else if option_num op \<ge> 13 then (if unat (option_num op - prev) \<ge> 269 then 1 + 2 else if unat (option_num op - prev) \<ge> 13 then 1 + 1 else 1) + 1
      else (if unat (option_num op - prev) \<ge> 269 then 1 + 2 else if unat (option_num op - prev) \<ge> 13 then 1 + 1 else 1))
      + val_len op) mod 2 ^ 32 = op_need prev op"
  using assms by (auto simp: op_ok_def op_need_def op_extend_def)

lemma format_op_error:
  assumes "op_ok op" and "len < op_need prev op"
  shows "coap_msg_format_op op prev buf p len = Some (QCLOUD_ERR_COAP_DATA_SIZE, buf)"
  using assms(2) unfolding coap_msg_format_op_def Let_def op_need_counts [OF assms(1)] by simp

text \<open>The length test is sound for options numbered 13 and above, or whose value needs no extra byte.\<close>

definition counted :: "CoAPMsgOption \<Rightarrow> bool" where
  "counted op \<longleftrightarrow> option_num op \<ge> 13 \<or> val_len op < 13 \<or> 269 \<le> val_len op"

lemma counted_need: "op_ok op \<Longrightarrow> counted op \<Longrightarrow> length (op_bytes prev op) \<le> op_need prev op"
  by (auto simp: counted_def op_ok_def op_need_def length_op_bytes op_extend_def)

lemma format_op_returns:
  assumes "op_ok op" and "counted op \<or> length (op_bytes prev op) \<le> len" and "p + len \<le> length buf"
  shows "coap_msg_format_op op prev buf p len = Some (QCLOUD_ERR_COAP_DATA_SIZE, buf)
    \<or> length (op_bytes prev op) \<le> len
      \<and> coap_msg_format_op op prev buf p len = Some (int (length (op_bytes prev op)), overlay buf p (op_bytes prev op))"
proof (cases "len < op_need prev op")
  case True
  then show ?thesis using format_op_error [OF assms(1)] by simp
next
  case False
  then have "length (op_bytes prev op) \<le> len" using assms(2) counted_need [OF assms(1), of prev] by auto
  moreover from this have "coap_msg_format_op op prev buf p len = Some (int (length (op_bytes prev op)), overlay buf p (op_bytes prev op))"
    using False assms(1,3) by (intro format_op_exact) auto
  ultimately show ?thesis by simp
qed

lemma options_loop_counted:
  assumes "list_all op_ok ops" and "list_all counted ops" and "p + len \<le> length buf" and "len < 2 ^ 32" and "start \<le> p"
  shows "\<exists>num b. serialize_options_loop ops prev buf start p len = Some (num, b) \<and> length b = length buf
    \<and> (num < 0 \<or> (int (p - start) \<le> num \<and> num \<le> int (p + len - start)))"
  using assms
proof (induction ops arbitrary: prev buf p len)
  case (Cons op ops)
  let ?b = "op_bytes prev op"
  have ok: "op_ok op" "counted op" "list_all op_ok ops" "list_all counted ops" using Cons.prems by auto
  consider "coap_msg_format_op op prev buf p len = Some (QCLOUD_ERR_COAP_DATA_SIZE, buf)"
    | "length ?b \<le> len" "coap_msg_format_op op prev buf p len = Some (int (length ?b), overlay buf p ?b)"
    using format_op_returns [OF ok(1) disjI1 [OF ok(2)] Cons.prems(3), of prev] by auto
  then show ?case
  proof cases
    case 2
    have s: "sub_len len (length ?b) = len - length ?b" using 2(1) Cons.prems(4) by (simp add: sub_len_le)
    have "p + length ?b + (len - length ?b) \<le> length (overlay buf p ?b)" "len - length ?b < 2 ^ 32" "start \<le> p + length ?b"
      using 2(1) Cons.prems by auto
    from Cons.IH [OF ok(3,4) this, of "option_num op"] obtain num b where
      "serialize_options_loop ops (option_num op) (overlay buf p ?b) start (p + length ?b) (len - length ?b) = Some (num, b)"
      "length b = length buf" "num < 0 \<or> (int (p + length ?b - start) \<le> num \<and> num \<le> int (p + len - start))"
      using 2(1) Cons.prems(3) by auto
    then show ?thesis using 2 s Cons.prems(5) by (auto simp: of_nat_diff)
  qed simp
qed simp

lemma serialize_returns:
  assumes "cm_type m < 4" "token_len m \<le> 8" "code_class m < 8" "code_detail m < 32" "length (token m) = 8"
    and "list_all op_ok (op_list m)" and "op_list m = op # ops" and "list_all counted ops"
    and "counted op \<or> 12 + length (op_bytes 0 op) \<le> length buf" and "12 \<le> length buf" and "length buf < 2 ^ 32"
    and "case pay_load m of None \<Rightarrow> pay_load_len m = 0 | Some b \<Rightarrow> pay_load_len m \<le> length b \<and> pay_load_len m + 1 < 2 ^ 32"
  shows "\<exists>ret b. serialize_coap_message m buf (length buf) = Some (ret, b) \<and> length b = length buf
    \<and> (ret < 0 \<or> nat ret \<le> length buf)"
proof -
  let ?h = "header_bytes m" and ?t = "take (token_len m) (token m)"
  define L where "L = length buf"
  define n where "n = token_len m"
  have lt: "length ?t = n" "n \<le> 8" using assms(2,5) by (simp_all add: n_def)
  define b2 where "b2 = overlay buf 0 (?h @ ?t)"
  have b2: "length b2 = L" using lt assms(10) by (simp add: b2_def L_def)
  have h: "coap_message_serialize_header m buf 0 L = Some (4, overlay buf 0 ?h)"
    using assms(1-4,10) by (intro header_exact) (auto simp: L_def)
  have nl: "\<not> L - 4 < token_len m" using lt assms(10) by (simp add: L_def n_def)
  have "mem_slice (token m) 0 (token_len m) = Some ?t" using lt assms(5) by (simp add: mem_slice_def n_def)
  moreover have "mem_copy (overlay buf 0 ?h) 4 ?t = Some b2"
    using lt assms(10) overlay_overlay [of 0 ?h ?t buf] by (simp add: mem_copy_def b2_def)
  ultimately have t: "coap_message_serialize_token m (overlay buf 0 ?h) 4 (L - 4) = Some (int n, b2)"
    using nl by (simp add: coap_message_serialize_token_def n_def)
  define p len where "p = 4 + n" and "len = L - 4 - n"
  have pl: "p + len = L" "len < 2 ^ 32" using lt assms(10,11) by (simp_all add: p_def len_def L_def)
  have s1: "sub_len L 4 = L - 4" "sub_len (L - 4) n = len"
    using lt assms(10,11) by (simp_all add: sub_len_le L_def len_def)
  have "\<exists>num b. serialize_options_loop (op_list m) 0 b2 p p len = Some (num, b) \<and> length b = L \<and> (num < 0 \<or> (0 \<le> num \<and> num \<le> int len))"
  proof -
    let ?b = "op_bytes 0 op"
    have ok: "op_ok op" "list_all op_ok ops" using assms(6,7) by auto
    have c: "counted op \<or> length ?b \<le> len" using assms(9) lt by (auto simp: len_def L_def)
    have fit: "p + len \<le> length b2" using b2 pl by simp
    consider "coap_msg_format_op op 0 b2 p len = Some (QCLOUD_ERR_COAP_DATA_SIZE, b2)"
      | "length ?b \<le> len" "coap_msg_format_op op 0 b2 p len = Some (int (length ?b), overlay b2 p ?b)"
      using format_op_returns [OF ok(1) c fit] by auto
    then show ?thesis
    proof cases
      case 1
      then show ?thesis using b2 by (simp add: assms(7))
    next
      case 2
      have s: "sub_len len (length ?b) = len - length ?b" using 2(1) pl by (simp add: sub_len_le)
      have "p + length ?b + (len - length ?b) \<le> length (overlay b2 p ?b)" "len - length ?b < 2 ^ 32" "p \<le> p + length ?b"
        using 2(1) pl b2 by auto
      from options_loop_counted [OF ok(2) assms(8) this, of "option_num op"] show ?thesis
        using 2 s b2 pl by (auto simp: assms(7))
    qed
  qed
  then obtain num b3 where o: "coap_message_serialize_options m b2 p len = Some (num, b3)" "length b3 = L"
    "num < 0 \<or> (0 \<le> num \<and> num \<le> int len)" by (auto simp: coap_message_serialize_options_def)
  show ?thesis
  proof (cases "num < 0")
    case True
    then have "serialize_coap_message m buf L = Some (QCLOUD_ERR_COAP_INTERNAL, b3)"
      unfolding serialize_coap_message_def Let_def by (simp add: h t s1 p_def [symmetric] o(1) del: diff_diff_left)
    then show ?thesis using o(2) by (simp add: L_def)
  next
    case False
    define k where "k = nat num"
    have k: "k \<le> len" "num = int k" using o(3) False by (auto simp: k_def)
    have s2: "sub_len len k = len - k" using k(1) pl(2) by (simp add: sub_len_le)
    have "\<exists>num b. coap_message_serialize_payload m b3 (p + k) (len - k) = Some (num, b) \<and> length b = L
        \<and> (num < 0 \<or> (0 \<le> num \<and> num \<le> int (len - k)))"
    proof (cases "pay_load_len m = 0 \<or> pay_load_len m + 1 > len - k")
      case True
      have "(pay_load_len m + 1) mod 2 ^ 32 = pay_load_len m + 1" using assms(12) by (auto split: option.splits)
      then show ?thesis using True o(2) by (auto simp: coap_message_serialize_payload_def ENOSPC_def)
    next
      case fits: False
      then obtain bs where bs: "pay_load m = Some bs" "pay_load_len m \<le> length bs" "(pay_load_len m + 1) mod 2 ^ 32 = pay_load_len m + 1"
        using assms(12) by (auto split: option.splits)
      have "p + k < L" "p + k + 1 + pay_load_len m \<le> L" using fits bs pl(1) k(1) by auto
      then show ?thesis using fits bs o(2)
        by (simp add: coap_message_serialize_payload_def mem_write_overlay mem_slice_def mem_copy_def)
    qed
    then obtain num2 b4 where y: "coap_message_serialize_payload m b3 (p + k) (len - k) = Some (num2, b4)" "length b4 = L"
      "num2 < 0 \<or> (0 \<le> num2 \<and> num2 \<le> int (len - k))" by blast
    have "serialize_coap_message m buf L = Some (if num2 < 0 then QCLOUD_ERR_COAP_INTERNAL else int (p + k + nat num2), b4)"
      unfolding serialize_coap_message_def Let_def
      by (simp add: h t s1 p_def [symmetric] o(1) k(2) s2 y(1) del: diff_diff_left of_nat_add)
    then show ?thesis using y(2,3) k(1) pl(1) by (auto simp: L_def)
  qed
qed

section \<open>Sending a request\<close>

lemma on_coap_auth: "on_coap f c = (x, c') \<Longrightarrow> is_authed c' = is_authed c \<and> auth_token c' = auth_token c \<and> auth_token_len c' = auth_token_len c"
  by (auto simp: on_coap_def split: prod.splits)

lemma coap_ok_frame: "coap_ok c \<Longrightarrow> coap_frame c c' \<Longrightarrow> coap_ok c'"
  using coap_inv_frame by (fastforce simp: coap_ok_def coap_frame_def)

lemma malloc_ok:
  assumes "coap_hal_ok E"
  shows "\<exists>w'. hal_malloc E w = (True, w')" "\<exists>c'. on_coap (hal_malloc E) c = (True, c') \<and> coap_frame c c'"
proof -
  show a: "\<exists>w'. hal_malloc E w = (True, w')" for w
    using assms by (cases "hal_malloc E w") (auto simp: coap_hal_ok_def dest: spec [of _ w])
  obtain w' where "hal_malloc E (coap_world c) = (True, w')" using a by blast
  then have "on_coap (hal_malloc E) c = (True, c\<lparr>coap_world := w'\<rparr>)" by (simp add: on_coap_def)
  from this on_coap_frame [OF this] show "\<exists>c'. on_coap (hal_malloc E) c = (True, c') \<and> coap_frame c c'" by blast
qed

definition insert_option :: "CoAPMsgOption \<Rightarrow> CoAPMsgOption list \<Rightarrow> CoAPMsgOption list" where
  "insert_option opt l = (case l of [] \<Rightarrow> [opt] | first # rest \<Rightarrow>
     if option_num opt < option_num first then opt # first # rest else op_insert opt first rest)"

definition opt_of :: "nat \<Rightarrow> buffer \<Rightarrow> CoAPMsgOption" where
  "opt_of num v = \<lparr>option_num = of_nat num, val_len = length v, val = v\<rparr>"

lemma add_option_ok:
  assumes "coap_hal_ok E"
  shows "\<exists>c'. add_option E num v m c = (m\<lparr>op_list := insert_option (opt_of num v) (op_list m)\<rparr>, c')
    \<and> coap_frame c c' \<and> auth_token c' = auth_token c \<and> auth_token_len c' = auth_token_len c"
proof -
  obtain w1 where w1: "hal_malloc E (coap_world c) = (True, w1)" using malloc_ok(1) [OF assms] by blast
  obtain w2 where w2: "hal_malloc E w1 = (True, w2)" using malloc_ok(1) [OF assms] by blast
  show ?thesis
    by (simp add: add_option_def coap_message_option_add_def qcloud_iot_coap_option_init_def w1 w2 insert_option_def opt_of_def)
      (simp add: coap_frame_def)
qed

lemma new_request_ok:
  "\<exists>m c'. new_request c = Some (m, c') \<and> coap_frame c c' \<and> auth_token c' = auth_token c \<and> auth_token_len c' = auth_token_len c
    \<and> cm_type m = COAP_MSG_CON \<and> code_class m = COAP_MSG_REQ \<and> code_detail m = COAP_MSG_POST \<and> token_len m = 4
    \<and> length (token m) = 8 \<and> op_list m = [] \<and> cm_handler m = None \<and> pay_load m = None \<and> is_authed c' = is_authed c"
proof -
  have u: "unat x \<le> 65535" for x :: u16 using unsigned_less [of x, where 'a = nat] by simp
  show ?thesis
    by (simp add: new_request_def get_next_coap_msg_id_def get_coap_message_token_def coap_message_type_set_def
        coap_message_code_set_def coap_message_id_set_def set_token_def coap_message_token_set_def Let_def coap_consts
        mem_copy_def overlay_def DEFAULT_COAP_MESSAGE_def not_less u coap_frame_def)
qed

lemma list_add_ok:
  assumes "coap_ok c" and "coap_hal_ok E" and "cm_type m = COAP_MSG_CON" and "token_len m \<le> length (token m)"
    and "len \<le> 512"
  shows "\<exists>c' s. coap_message_list_add E m len c = Some (QCLOUD_RET_SUCCESS, c') \<and> (cm_handler m \<noteq> Some auth_callback \<longrightarrow> coap_ok c')
    \<and> message_list c' = message_list c @ [(coap_next_node c, s)] \<and> si_msg_id s = cm_msg_id m \<and> retrans_count s = 0
    \<and> is_authed c' = is_authed c"
proof -
  obtain c1 where c1: "on_coap (hal_malloc E) c = (True, c1)" "coap_frame c c1" using malloc_ok(2) [OF assms(2)] by blast
  obtain t c2 where c2: "on_coap (countdown_ms E (coap_timeout_ms c1)) c1 = (t, c2)" by fastforce
  obtain c3 where c3: "on_coap (hal_malloc E) c2 = (True, c3)" "coap_frame c2 c3" using malloc_ok(2) [OF assms(2)] by blast
  obtain c4 where c4: "on_coap (hal_malloc E) c3 = (True, c4)" "coap_frame c3 c4" using malloc_ok(2) [OF assms(2)] by blast
  have f: "coap_frame c c3" "coap_frame c c4"
    using c1(2) on_coap_frame [OF c2] c3(2) c4(2) coap_frame_trans by blast+
  have i: "coap_inv c" using assms(1) by (simp add: coap_ok_def)
  have tok: "mem_slice (token m) 0 (token_len m) = Some (take (token_len m) (token m))" using assms(4) by (simp add: mem_slice_def)
  have "length (send_buf c3) = 512" using i f(1) by (simp add: coap_inv_def coap_frame_def)
  then have cp: "mem_slice (send_buf c3) 0 len = Some (take len (send_buf c3))" using assms(5) by (simp add: mem_slice_def)
  define s where "s = \<lparr>node_invalid = False, si_user_context = cm_user_context m, si_msg_id = cm_msg_id m,
    acked = False, si_token_len = token_len m, si_token = take (token_len m) (token m), retrans_count = 0, si_start_time = t,
    si_message = Some (take len (send_buf c3)), msglen = len, si_handler = cm_handler m\<rparr>"
  let ?c = "c4\<lparr>message_list := message_list c4 @ [(coap_next_node c4, s)], coap_next_node := coap_next_node c4 + 1\<rparr>"
  have l4: "message_list c4 = message_list c" "coap_next_node c4 = coap_next_node c" using f(2) by (simp_all add: coap_frame_def)
  have "coap_message_list_add E m len c = Some (QCLOUD_RET_SUCCESS, ?c)"
    by (simp add: coap_message_list_add_def c1(1) c2 c3(1) c4(1) assms(3) tok cp s_def)
  moreover have "cm_handler m \<noteq> Some auth_callback \<longrightarrow> coap_ok ?c"
  proof -
    have i4: "coap_inv c4" using coap_inv_frame [OF i f(2)] .
    have "fst n \<noteq> coap_next_node c4" if "n \<in> set (message_list c4)" for n
      using i4 that by (auto simp: coap_inv_def request_ok_def)
    moreover have "node_ok s" using \<open>length (send_buf c3) = 512\<close> assms(5) by (simp add: node_ok_def s_def)
    ultimately show ?thesis using i4 assms(1) l4
      by (auto simp: coap_ok_def coap_inv_def request_ok_def s_def)
  qed
  moreover have "is_authed ?c = is_authed c"
    using on_coap_auth [OF c1(1)] on_coap_auth [OF c2] on_coap_auth [OF c3(1)] on_coap_auth [OF c4(1)] by simp
  ultimately show ?thesis using l4 by (auto simp: s_def)
qed

lemma net_write_all:
  assumes "coap_hal_ok E" and "on_coap (net_write E bs t) c = ((rc, k), c1)"
  shows "rc = QCLOUD_RET_SUCCESS \<longrightarrow> k = length bs"
proof -
  have "fst (fst (net_write E bs t (coap_world c))) = 0 \<longrightarrow> snd (fst (net_write E bs t (coap_world c))) = length bs"
    using assms(1) by (auto simp: coap_hal_ok_def)
  then show ?thesis using assms(2) by (auto simp: on_coap_def split: prod.splits)
qed

lemma send_ok:
  assumes "coap_ok c" and "coap_hal_ok E" and "cm_type m = COAP_MSG_CON" and "code_class m = COAP_MSG_REQ"
    and "token_len m \<le> length (token m)"
    and "\<exists>ret b. serialize_coap_message m (send_buf c) (length (send_buf c)) = Some (ret, b) \<and> length b = length (send_buf c)
      \<and> (ret < 0 \<or> nat ret \<le> length (send_buf c))"
  shows "\<exists>rc c'. coap_message_send E m c = Some (rc, c') \<and> (cm_handler m \<noteq> Some auth_callback \<longrightarrow> coap_ok c') \<and> is_authed c' = is_authed c
    \<and> (rc = QCLOUD_RET_SUCCESS \<longrightarrow> (\<exists>s. message_list c' = message_list c @ [(coap_next_node c, s)]
      \<and> si_msg_id s = cm_msg_id m \<and> retrans_count s = 0))
    \<and> (rc \<noteq> QCLOUD_RET_SUCCESS \<longrightarrow> message_list c' = message_list c)"
proof -
  obtain ret b where ser: "serialize_coap_message m (send_buf c) (length (send_buf c)) = Some (ret, b)"
    "length b = length (send_buf c)" "ret < 0 \<or> nat ret \<le> length (send_buf c)" using assms(6) by blast
  have z: "send_buf_size c = length (send_buf c)" "length (send_buf c) = 512" using assms(1) by (simp_all add: coap_ok_def coap_inv_def)
  let ?c = "c\<lparr>send_buf := b\<rparr>"
  have ok: "coap_ok ?c" using assms(1) ser(2) by (simp add: coap_ok_def coap_inv_def request_ok_def)
  show ?thesis
  proof (cases "ret < 0")
    case True
    then show ?thesis using ok ser z by (simp add: coap_message_send_def)
  next
    case False
    let ?bs = "take (nat ret) b"
    have bs: "mem_slice b 0 (nat ret) = Some ?bs" "length ?bs \<le> 512" using False ser(2,3) z by (simp_all add: mem_slice_def)
    obtain rc k c1 where w: "on_coap (net_write E ?bs 0) ?c = ((rc, k), c1)" by (metis prod.exhaust)
    note k = net_write_all [OF assms(2) w]
    have f: "coap_frame ?c c1" using on_coap_frame [OF w] by blast
    have ok1: "coap_ok c1" using coap_ok_frame [OF ok f] .
    have s: "coap_message_send E m c = (if rc = QCLOUD_RET_SUCCESS then coap_message_list_add E m k c1 else Some (rc, c1))"
      using ser(1) z(1) False assms(3,4) by (simp add: coap_message_send_def bs(1) w)
    have l: "message_list c1 = message_list c" "coap_next_node c1 = coap_next_node c" "is_authed c1 = is_authed c"
      using f on_coap_auth [OF w] by (simp_all add: coap_frame_def)
    show ?thesis
    proof (cases "rc = QCLOUD_RET_SUCCESS")
      case True
      then have "k \<le> 512" using k bs(2) by simp
      from list_add_ok [OF ok1 assms(2,3,5) this] show ?thesis using True s l by auto
    next
      case False
      then show ?thesis using s ok1 l by simp
    qed
  qed
qed



section \<open>Which requests a response answers\<close>

definition answers :: "CoAPMessage \<Rightarrow> CoAPMsgSendInfo \<Rightarrow> bool" where
  "answers m s \<longleftrightarrow> si_token_len s \<noteq> 0 \<and> si_token_len s = token_len m
     \<and> take (token_len m) (si_token s) = take (token_len m) (token m)"

lemma resp_node_eq:
  assumes "si_handler s \<noteq> Some auth_callback"
  shows "\<exists>effs m' c'. resp_node E s m c = Some (Some (if answers m s then s\<lparr>node_invalid := True\<rparr> else s), m', c')
    \<and> token m' = token m \<and> token_len m' = token_len m \<and> coap_frame c c' \<and> coap_trace c' = coap_trace c @ effs
    \<and> length effs = (if answers m s \<and> (si_handler s \<noteq> None \<or> coap_event_handle c) then 1 else 0)"
proof (cases "answers m s")
  case True
  then have a: "0 \<noteq> si_token_len s \<and> si_token_len s = token_len m \<and> take (token_len m) (si_token s) = take (token_len m) (token m)"
    by (auto simp: answers_def)
  show ?thesis using assms
    unfolding resp_node_def if_P [OF a] by (cases "si_handler s") (auto simp: True call_handler_def Let_def)
next
  case False
  then have a: "\<not> (0 \<noteq> si_token_len s \<and> si_token_len s = token_len m \<and> take (token_len m) (si_token s) = take (token_len m) (token m))"
    by (auto simp: answers_def)
  show ?thesis using False unfolding resp_node_def if_not_P [OF a] by simp
qed

lemma resp_loop:
  assumes "\<forall>n\<in>set ns. si_handler (snd n) \<noteq> Some auth_callback"
  shows "\<exists>effs c'. list_proc_loop E PROCESS_RESP_CMD ns kept m c
      = Some (rev (map (\<lambda>n. (fst n, if answers m (snd n) then (snd n)\<lparr>node_invalid := True\<rparr> else snd n)) ns) @ kept, c')
    \<and> coap_frame c c' \<and> coap_trace c' = coap_trace c @ effs
    \<and> length effs = length (filter (\<lambda>n. answers m (snd n) \<and> (si_handler (snd n) \<noteq> None \<or> coap_event_handle c)) ns)"
  using assms
proof (induction ns arbitrary: kept m c)
  case (Cons n ns)
  let ?s = "if answers m (snd n) then (snd n)\<lparr>node_invalid := True\<rparr> else snd n"
  obtain e1 m1 c1 where n: "resp_node E (snd n) m c = Some (Some ?s, m1, c1)" "token m1 = token m" "token_len m1 = token_len m"
    "coap_frame c c1" "coap_trace c1 = coap_trace c @ e1"
    "length e1 = (if answers m (snd n) \<and> (si_handler (snd n) \<noteq> None \<or> coap_event_handle c) then 1 else 0)"
    using resp_node_eq [of "snd n" E m c] Cons.prems by auto
  have a: "answers m1 = answers m" by (simp add: fun_eq_iff answers_def n(2,3))
  have ev: "coap_event_handle c1 = coap_event_handle c" using n(4) by (simp add: coap_frame_def)
  obtain e2 c2 where l: "list_proc_loop E PROCESS_RESP_CMD ns ((fst n, ?s) # kept) m1 c1
      = Some (rev (map (\<lambda>n. (fst n, if answers m (snd n) then (snd n)\<lparr>node_invalid := True\<rparr> else snd n)) ns) @ (fst n, ?s) # kept, c2)"
    "coap_frame c1 c2" "coap_trace c2 = coap_trace c1 @ e2"
    "length e2 = length (filter (\<lambda>n. answers m (snd n) \<and> (si_handler (snd n) \<noteq> None \<or> coap_event_handle c)) ns)"
    using Cons.IH [of "(fst n, ?s) # kept" m1 c1] Cons.prems unfolding a ev by auto
  show ?case
    using n(5,6) l(3,4) coap_frame_trans [OF n(4) l(2)]
    by (intro exI [of _ "e1 @ e2"] exI [of _ c2]) (simp add: list_proc_node_def n(1) l(1))
qed simp

text \<open>C27: a response answers exactly the waiting requests whose token is not empty and equals its token, byte
  for byte: they are marked as answered and reported once each, when there is anyone to tell, and all
  other requests, and the order of the list, stay as they are.\<close>

theorem coap_response_matches:
  assumes "\<forall>n\<in>set (message_list c). si_handler (snd n) \<noteq> Some auth_callback" and "message_list c \<noteq> []"
    and "fst (hal_malloc E (coap_world c))"
  shows "\<exists>effs c'. coap_message_list_proc E m PROCESS_RESP_CMD c = Some (QCLOUD_RET_SUCCESS, c')
    \<and> message_list c' = map (\<lambda>n. (fst n, if answers m (snd n) then (snd n)\<lparr>node_invalid := True\<rparr> else snd n)) (message_list c)
    \<and> coap_trace c' = coap_trace c @ effs
    \<and> length effs = length (filter (\<lambda>n. answers m (snd n) \<and> (si_handler (snd n) \<noteq> None \<or> coap_event_handle c)) (message_list c))"
proof -
  obtain c1 where m: "on_coap (hal_malloc E) c = (True, c1)" using assms(3) by (cases "hal_malloc E (coap_world c)") (auto simp: on_coap_def)
  have f: "coap_event_handle c1 = coap_event_handle c" "message_list c1 = message_list c" "coap_trace c1 = coap_trace c"
    using on_coap_frame [OF m] by (simp_all add: coap_frame_def)
  show ?thesis
    using resp_loop [of "rev (message_list c)" E "[]" m c1] assms(1,2)
    by (auto simp: coap_message_list_proc_def m f rev_map rev_filter [symmetric])
qed

definition sample_response :: CoAPMessage where
  "sample_response = DEFAULT_COAP_MESSAGE\<lparr>code_class := 2, code_detail := 5, token := [9, 0, 0, 0, 0, 0, 0, 0], token_len := 1\<rparr>"

lemma coap_response_matches_witness:
  "\<exists>effs c'. coap_message_list_proc (clock_hal 1) sample_response PROCESS_RESP_CMD sample_coap = Some (QCLOUD_RET_SUCCESS, c')
    \<and> message_list c' = map (\<lambda>n. (fst n, if answers sample_response (snd n) then (snd n)\<lparr>node_invalid := True\<rparr> else snd n)) (message_list sample_coap)
    \<and> coap_trace c' = coap_trace sample_coap @ effs
    \<and> length effs = length (filter (\<lambda>n. answers sample_response (snd n) \<and> (si_handler (snd n) \<noteq> None \<or> coap_event_handle sample_coap)) (message_list sample_coap))"
  by (rule coap_response_matches) (simp_all add: clock_hal_def, simp add: sample_node_def)

section \<open>Constructing a client\<close>

lemma next_conn_id_frame:
  "coap_frame c (get_coap_next_conn_id E c) \<and> is_authed (get_coap_next_conn_id E c) = is_authed c"
proof -
  obtain x c1 where c1: "on_coap (hal_time E) c = (x, c1)" by fastforce
  obtain cs c2 where c2: "on_coap (coap_conn_id_loop E (COAP_MAX_CONN_ID_LEN - 1)) c1 = (cs, c2)" by fastforce
  show ?thesis
    using on_coap_frame [OF c1] on_coap_frame [OF c2] on_coap_auth [OF c1] on_coap_auth [OF c2]
    unfolding get_coap_next_conn_id_def c1 c2 Let_def case_prod_conv by (simp add: coap_frame_def)
qed

lemma add_option_auth: "add_option E num v m c = (m', c') \<Longrightarrow> is_authed c' = is_authed c"
  by (auto simp: add_option_def split: prod.splits)

lemma coap_auth_returns:
  assumes "coap_ok c" and "coap_hal_ok E" and "length (device_name dev) \<le> 48"
  shows "\<exists>rc c'. coap_client_auth E dev junk self c = Some (rc, c') \<and> is_authed c' = is_authed c"
proof -
  obtain m0 c0 where n: "new_request c = Some (m0, c0)" "coap_frame c c0"
    "cm_type m0 = COAP_MSG_CON" "code_class m0 = COAP_MSG_REQ" "code_detail m0 = COAP_MSG_POST" "token_len m0 = 4"
    "length (token m0) = 8" "op_list m0 = []" "is_authed c0 = is_authed c" using new_request_ok [of c] by blast
  obtain c1 where c1: "on_coap (hal_malloc E) c0 = (True, c1)" "coap_frame c0 c1" using malloc_ok(2) [OF assms(2)] by blast
  define path where "path = snd (snprintf_str (MAX_SIZE_OF_PRODUCT_ID + length (device_name dev) + length COAP_AUTH_URI + 4)
    (product_id dev @ [0x2f] @ device_name dev @ [0x2f] @ COAP_AUTH_URI))"
  have path: "length path \<le> 76" using assms(3)
    by (simp add: path_def snprintf_str_def MAX_SIZE_OF_PRODUCT_ID_def COAP_AUTH_URI_def)
  let ?uri = "opt_of COAP_MSG_URI_PATH path" and ?need = "opt_of COAP_MSG_NEED_RESP [0x30]"
  obtain c2 where c2: "add_option E COAP_MSG_URI_PATH path m0 c1 = (m0\<lparr>op_list := insert_option ?uri (op_list m0)\<rparr>, c2)"
    "coap_frame c1 c2" using add_option_ok [OF assms(2)] by blast
  let ?m2 = "m0\<lparr>op_list := [?uri]\<rparr>"
  obtain c3 where c3: "add_option E COAP_MSG_NEED_RESP [0x30] ?m2 c2 = (?m2\<lparr>op_list := insert_option ?need (op_list ?m2)\<rparr>, c3)"
    "coap_frame c2 c3" using add_option_ok [OF assms(2)] by blast
  define c4 where "c4 = get_coap_next_conn_id E c3"
  have c4: "coap_frame c3 c4" "is_authed c4 = is_authed c3" using next_conn_id_frame by (auto simp: c4_def)
  obtain c5 where c5: "on_coap (hal_malloc E) c4 = (True, c5)" "coap_frame c4 c5" using malloc_ok(2) [OF assms(2)] by blast
  obtain c6 where c6: "on_coap (hal_malloc E) c5 = (True, c6)" "coap_frame c5 c6" using malloc_ok(2) [OF assms(2)] by blast
  define b where "b = take 16 ((snd (snprintf_str 16 (QCLOUD_IOT_DEVICE_SDK_APPID @ [0x3b] @ coap_conn_id c6)) @ [0]) @ junk)"
  have b: "length b \<le> 16" "0 < length b" by (simp_all add: b_def snprintf_str_def QCLOUD_IOT_DEVICE_SDK_APPID_def)
  define m1 where "m1 = m0\<lparr>op_list := [?uri, ?need], cm_handler := Some auth_callback, cm_user_context := self\<rparr>"
  define pl where "pl = overlay (replicate 16 (0 :: u8)) 0 b"
  define m where "m = m1\<lparr>pay_load := Some pl, pay_load_len := length b\<rparr>"
  have m: "set_payload b (m1\<lparr>pay_load := Some (replicate 16 0), pay_load_len := 16\<rparr>) = Some m"
    using b by (simp add: set_payload_def coap_message_payload_set_def mem_copy_def Let_def m_def pl_def)
  have i: "insert_option ?uri [] = [?uri]" "insert_option ?need [?uri] = [?uri, ?need]"
    by (simp_all add: insert_option_def opt_of_def)
  have mm: "m0\<lparr>op_list := [?uri, ?need], cm_handler := Some auth_callback, cm_user_context := self\<rparr> = m1" by (simp add: m1_def)
  have l16: "length QCLOUD_IOT_DEVICE_SDK_APPID + COAP_MAX_CONN_ID_LEN + 2 = 16"
    by (simp add: QCLOUD_IOT_DEVICE_SDK_APPID_def COAP_MAX_CONN_ID_LEN_def)
  have i': "insert_option ?uri (op_list m0) = [?uri]" "?m2\<lparr>op_list := insert_option ?need (op_list ?m2)\<rparr> = m0\<lparr>op_list := [?uri, ?need]\<rparr>"
    using i n(8) by simp_all
  have sent: "coap_client_auth E dev junk self c = coap_message_send E m c6"
    unfolding coap_client_auth_def
    by (simp only: n(1) c1(1) bind.bind_lunit case_prod_conv Let_def path_def [symmetric] c2(1) c3(1) i' c4_def [symmetric]
        c5(1) c6(1) l16 b_def [symmetric] not_True_eq_False if_False coap_message_callback_set_def coap_message_context_set_def snd_conv
        CoAPMessage.update_convs mm m)
  have f: "coap_frame c c6" using n(2) c1(2) c2(2) c3(2) c4(1) c5(2) c6(2) coap_frame_trans by blast
  have au: "is_authed c6 = is_authed c"
    using n(9) on_coap_auth [OF c1(1)] add_option_auth [OF c2(1)] add_option_auth [OF c3(1)] c4(2) on_coap_auth [OF c5(1)]
      on_coap_auth [OF c6(1)] by simp
  have ok: "coap_ok c6" using coap_ok_frame [OF assms(1) f] .
  then have z: "length (send_buf c6) = 512" by (simp add: coap_ok_def coap_inv_def)
  have "list_all op_ok [?uri, ?need]" "list_all counted [?need]" using path by (simp_all add: op_ok_def opt_of_def counted_def)
  moreover have "length (op_bytes 0 ?uri) \<le> 80" using path by (simp add: length_op_bytes opt_of_def op_extend_def)
  moreover have "length pl = 16" using b by (simp add: pl_def)
  ultimately have "\<exists>ret b. serialize_coap_message m (send_buf c6) (length (send_buf c6)) = Some (ret, b)
      \<and> length b = length (send_buf c6) \<and> (ret < 0 \<or> nat ret \<le> length (send_buf c6))"
    using z n(3-7) b by (intro serialize_returns [where op = ?uri and ops = "[?need]"]) (auto simp: m_def m1_def)
  from send_ok [OF ok assms(2) _ _ _ this] n(3-7) au show ?thesis by (auto simp: sent m_def m1_def)
qed

text \<open>C36: on the target, where \<open>char\<close> is unsigned, no CoAP client is ever handed out: \<open>is_authed\<close> starts as
  \<open>-1\<close>, which the byte holds as 255, so the loop that waits for the authentication (\<open>is_authed == -1\<close>) is
  never entered; the answer of the server is not awaited and the constructor always reports a failed
  authentication. Whatever the parameters, the device and the network, it returns, and returns null.\<close>

theorem coap_construct_fails:
  assumes "coap_hal_ok E"
  shows "\<exists>d' w'. IOT_COAP_Construct E junk self p d w = Some (None, d', w')"
proof (cases "cp_product_id p = [] \<or> cp_device_name p = []")
  case True
  then show ?thesis by (simp add: IOT_COAP_Construct_def)
next
  case False
  obtain w1 where w1: "hal_malloc E w = (True, w1)" using malloc_ok(1) [OF assms] by blast
  obtain rc d1 where d1: "iot_device_info_init d = (rc, d1)" by fastforce
  define d2 where "d2 = (if rc = QCLOUD_RET_SUCCESS then snd (iot_device_info_set (cp_product_id p) (cp_device_name p) d1) else d1)"
  have "rc = QCLOUD_RET_SUCCESS" using d1 by (auto simp: iot_device_info_init_def split: if_splits)
  then have dn: "length (device_name (iot_device_info_get d2)) \<le> 48"
    by (simp add: d2_def device_info_set_exact iot_device_info_get_def no_device_info_def)
  have "\<exists>r w2. qcloud_iot_coap_init E p w1 = Some (r, w2) \<and> (case r of Inl e \<Rightarrow> True | Inr c \<Rightarrow> coap_ok c \<and> is_authed c = 255)"
  proof -
    obtain i wa where i: "coap_random_start_packet_id E w1 = (i, wa)" by fastforce
    obtain wb where "hal_malloc E wa = (True, wb)" using malloc_ok(1) [OF assms] by blast
    with i show ?thesis
      by (auto simp: qcloud_iot_coap_init_def char_of_int_def coap_ok_def coap_inv_def COAP_SENDMSG_MAX_BUFLEN_def
          COAP_RECVMSG_MAX_BUFLEN_def split: prod.splits)
  qed
  then obtain r w2 where r: "qcloud_iot_coap_init E p w1 = Some (r, w2)"
    "case r of Inl e \<Rightarrow> True | Inr c \<Rightarrow> coap_ok c \<and> is_authed c = 255" by blast
  show ?thesis
  proof (cases r)
    case (Inl e)
    then show ?thesis using False r(1) by (simp add: IOT_COAP_Construct_def w1 d1 d2_def [symmetric])
  next
    case (Inr c)
    obtain rc3 c3 where c3: "on_coap (net_connect E) c = (rc3, c3)" by fastforce
    have ok: "coap_ok c3" "is_authed c3 = 255"
      using r(2) Inr coap_ok_frame on_coap_frame [OF c3] on_coap_auth [OF c3] by auto
    obtain rc4 c4 where c4: "coap_client_auth E (iot_device_info_get d2) junk self c3 = Some (rc4, c4)" "is_authed c4 = 255"
      using coap_auth_returns [OF ok(1) assms dn, of junk self] ok(2) by auto
    have "wait_authed E c4 = Some c4" using c4(2) by (subst wait_authed.simps) simp
    then show ?thesis using False r(1) Inr c3 c4
      by (simp add: IOT_COAP_Construct_def w1 d1 d2_def [symmetric])
  qed
qed

lemma coap_construct_fails_witness:
  "\<exists>d' w'. IOT_COAP_Construct quiet_hal [0] 1 \<lparr>cp_product_id = [0x70], cp_device_name = [0x64], cp_device_secret = Some [0x41],
      cp_command_timeout = 2000, cp_max_retry_count = 5, cp_event_handle = True\<rparr>
    \<lparr>sg_device_info = no_device_info, sg_devinfo_initialized = False\<rparr> 0 = Some (None, d', w')"
  by (rule coap_construct_fails [OF quiet_hal_ok])

end
