(* ===== verification/Json_Parser.thy ===== *)
theory Json_Parser
  imports Qc_Words Mqtt_Topic
begin

text \<open>
  The JSON scanner of \<^verbatim>\<open>json_parser.c\<close>.

  \<^item> a document is a block of memory with a zero byte in it; a pointer into it is an offset, the null
    pointer is \<open>None\<close>. The loops walk the suffix of the block from a pointer, and are undefined
    when they run out of it.
  \<^item> the scanner returns offsets: nothing is copied. \<open>json_parse_name_value\<close> writes to the document,
    so the block is a result.
  \<^item> \<open>None\<close> is an access outside the block (or, for the loop over members, no end).
\<close>

section \<open>Characters and types\<close>

abbreviation (input) QUOTE :: u8 where "QUOTE \<equiv> 0x22"
abbreviation (input) LBRACE :: u8 where "LBRACE \<equiv> 0x7b"
abbreviation (input) RBRACE :: u8 where "RBRACE \<equiv> 0x7d"
abbreviation (input) LBRACK :: u8 where "LBRACK \<equiv> 0x5b"
abbreviation (input) RBRACK :: u8 where "RBRACK \<equiv> 0x5d"
abbreviation (input) COLON :: u8 where "COLON \<equiv> 0x3a"
abbreviation (input) BACKSLASH :: u8 where "BACKSLASH \<equiv> 0x5c"
abbreviation (input) SPACE :: u8 where "SPACE \<equiv> 0x20"
abbreviation (input) COMMA :: u8 where "COMMA \<equiv> 0x2c"

datatype JSONTYPE = JSNONE | JSSTRING | JSOBJECT | JSARRAY | JSNUMBER | JSBOOLEAN | JSNULL

definition is_digit :: "u8 \<Rightarrow> bool" where
  "is_digit b \<longleftrightarrow> 0x30 \<le> b \<and> b \<le> 0x39"

text \<open>The rows of \<open>JsonMark\<close> that are looked at.\<close>

fun json_open :: "JSONTYPE \<Rightarrow> u8" where
  "json_open JSSTRING = QUOTE"
| "json_open JSOBJECT = LBRACE"
| "json_open JSARRAY = LBRACK"
| "json_open _ = 0x30"

fun json_close :: "JSONTYPE \<Rightarrow> u8" where
  "json_close JSSTRING = QUOTE"
| "json_close JSOBJECT = RBRACE"
| "json_close JSARRAY = RBRACK"
| "json_close _ = SPACE"

section \<open>Library functions\<close>

primrec strchr_from :: "u8 \<Rightarrow> buffer \<Rightarrow> nat \<Rightarrow> nat option option" where
  "strchr_from c [] p = None"
| "strchr_from c (b # bs) p = (if b = c then Some (Some p) else if b = 0 then Some None else strchr_from c bs (p + 1))"

definition strchr_at :: "buffer \<Rightarrow> nat \<Rightarrow> u8 \<Rightarrow> nat option option" where
  "strchr_at s p c = strchr_from c (drop p s) p"

definition strlen_at :: "buffer \<Rightarrow> nat \<Rightarrow> nat option" where
  "strlen_at s p = strlen (drop p s)"

text \<open>\<open>strncmp\<close> for equality with a string \<open>t\<close> of length \<open>n\<close> without zero bytes.\<close>

primrec strncmp_eq :: "buffer \<Rightarrow> cstring \<Rightarrow> bool option" where
  "strncmp_eq s [] = Some True"
| "strncmp_eq s (c # cs) = (case s of [] \<Rightarrow> None | b # bs \<Rightarrow> if b = c then strncmp_eq bs cs else Some False)"

section \<open>One member\<close>

primrec get_object_from :: "u8 \<Rightarrow> buffer \<Rightarrow> nat \<Rightarrow> nat option option" where
  "get_object_from ch [] p = None"
| "get_object_from ch (b # bs) p =
     (if b = 0 then Some None
      else if b = SPACE then get_object_from ch bs (p + 1)
      else Some (if b = ch then Some p else None))"

definition json_get_object :: "JSONTYPE \<Rightarrow> buffer \<Rightarrow> nat \<Rightarrow> nat option option" where
  "json_get_object type s str = get_object_from (if type = JSOBJECT then LBRACE else LBRACK) (drop str s) str"

text \<open>The first character that can start a value: its type, the value pointer, the position, and \<open>lastchr\<close>.\<close>

primrec value_from :: "buffer \<Rightarrow> nat \<Rightarrow> (JSONTYPE \<times> nat option \<times> nat \<times> u8) option" where
  "value_from [] p = None"
| "value_from (b # bs) p =
     (if b = 0 then Some (JSNONE, None, p, SPACE)
      else if b = QUOTE then Some (JSSTRING, Some (p + 1), p + 1, b)
      else if b = LBRACE then Some (JSOBJECT, Some p, p + 1, SPACE)
      else if b = LBRACK then Some (JSARRAY, Some p, p + 1, SPACE)
      else if b = 0x2d \<or> is_digit b then Some (JSNUMBER, Some p, p + 1, SPACE)
      else if b = 0x74 \<or> b = 0x54 \<or> b = 0x66 \<or> b = 0x46 then Some (JSBOOLEAN, Some p, p, SPACE)
      else if b = 0x6e \<or> b = 0x4e then Some (JSNULL, Some p, p, SPACE)
      else value_from bs (p + 1))"

text \<open>The words \<open>true\<close>, \<open>false\<close> and \<open>null\<close> at the value pointer, all small or all capital.\<close>

definition word_at :: "buffer \<Rightarrow> cstring \<Rightarrow> cstring \<Rightarrow> bool option" where
  "word_at v small large =
     (case v of [] \<Rightarrow> None | b # _ \<Rightarrow> do {
        n \<leftarrow> strlen v;
        if (b = hd small \<or> b = hd large) \<and> n \<ge> length small then do {
          x \<leftarrow> strncmp_eq v small;
          if x then Some True else strncmp_eq v large }
        else Some False })"

definition value_word :: "JSONTYPE \<Rightarrow> buffer \<Rightarrow> nat option option" where
  "value_word type v =
     (if type = JSBOOLEAN then do {
        t \<leftarrow> word_at v [0x74, 0x72, 0x75, 0x65] [0x54, 0x52, 0x55, 0x45];
        if t then Some (Some 4)
        else do {
          f \<leftarrow> word_at v [0x66, 0x61, 0x6c, 0x73, 0x65] [0x46, 0x41, 0x4c, 0x53, 0x45];
          Some (if f then Some 5 else None) } }
      else do {
        t \<leftarrow> word_at v [0x6e, 0x75, 0x6c, 0x6c] [0x4e, 0x55, 0x4c, 0x4c];
        Some (if t then Some 4 else None) })"

text \<open>
  The loop that finds the end of the value that starts at \<open>v\<close>: \<open>len\<close> is \<open>iValueLen\<close> so far, which an
  escaped quote has set. The result is the final \<open>iValueLen\<close>.
\<close>

primrec end_from :: "buffer \<Rightarrow> JSONTYPE \<Rightarrow> nat \<Rightarrow> buffer \<Rightarrow> nat \<Rightarrow> nat \<Rightarrow> u8 \<Rightarrow> nat \<Rightarrow> nat option" where
  "end_from s type v [] p depth lastchr len = None"
| "end_from s type v (b # bs) p depth lastchr len =
     (if b = 0 then Some len
      else if type = JSBOOLEAN \<or> type = JSNULL then do {
        w \<leftarrow> value_word type (drop v s);
        case w of Some n \<Rightarrow> Some n
        | None \<Rightarrow> end_from s type v bs (p + 1) depth b len }
      else if type = JSNUMBER then
        (if \<not> is_digit b \<and> b \<noteq> 0x2e then Some (p - v) else end_from s type v bs (p + 1) depth b len)
      else if b = json_close type then
        (if depth = 0 then
           let len = p - v + (if type = JSSTRING then 0 else 1) in
           if type = JSSTRING \<and> lastchr = BACKSLASH then
             (case bs of [] \<Rightarrow> None | b' # _ \<Rightarrow> end_from s type v bs (p + 1) depth b' len)
           else Some len
         else end_from s type v bs (p + 1) (depth - 1) b len)
      else end_from s type v bs (p + 1) (if b = json_open type then depth + 1 else depth) b len)"

text \<open>A member: the key and its length, the value pointer, its length and type.\<close>

record json_kv =
  kv_key :: nat
  kv_klen :: nat
  kv_val :: "nat option"
  kv_vlen :: nat
  kv_vtype :: JSONTYPE

text \<open>
  \<open>json_get_next_object\<close>: the member, or nothing when the function returns early, and the pointer
  behind it, which is null when there is no value. The caller's key pointers are not written for
  an array.
\<close>

definition json_value_at :: "buffer \<Rightarrow> nat \<Rightarrow> nat \<times> nat \<Rightarrow> (json_kv option \<times> nat option) option" where
  "json_value_at s p key = do {
     (type, val, q, lastchr) \<leftarrow> value_from (drop p s) p;
     case val of
       None \<Rightarrow> Some (Some \<lparr>kv_key = fst key, kv_klen = snd key, kv_val = None, kv_vlen = 0, kv_vtype = type\<rparr>, None)
     | Some v \<Rightarrow> do {
         len \<leftarrow> end_from s type v (drop q s) q 0 lastchr 0;
         Some (Some \<lparr>kv_key = fst key, kv_klen = snd key, kv_val = Some v, kv_vlen = len, kv_vtype = type\<rparr>,
           Some (if type = JSSTRING then v + len + 1 else v + len)) } }"

definition json_get_next_object :: "JSONTYPE \<Rightarrow> buffer \<Rightarrow> nat \<Rightarrow> (json_kv option \<times> nat option) option" where
  "json_get_next_object type s str =
     (if type = JSOBJECT then do {
        r \<leftarrow> strchr_at s str QUOTE;
        case r of None \<Rightarrow> Some (None, None)
        | Some q \<Rightarrow> do {
            r \<leftarrow> strchr_at s (q + 1) QUOTE;
            case r of None \<Rightarrow> Some (None, None)
            | Some q' \<Rightarrow> do {
                r \<leftarrow> strchr_at s q' COLON;
                case r of
                  None \<Rightarrow> Some (Some \<lparr>kv_key = q + 1, kv_klen = q' - (q + 1), kv_val = None, kv_vlen = 0, kv_vtype = JSNONE\<rparr>, None)
                | Some p \<Rightarrow> json_value_at s p (q + 1, q' - (q + 1)) } } }
      else json_value_at s str (0, 0))"

section \<open>All members\<close>

text \<open>
  The loop \<open>json_object_for_each_kv\<close> of \<open>json_parse_name_value\<close>. The callback gets the member and the
  caller's data; it says whether to stop. \<open>ret\<close> is whether a member has been handed over.
\<close>

partial_function (option) parse_loop :: "buffer \<Rightarrow> (buffer \<Rightarrow> json_kv \<Rightarrow> 'a \<Rightarrow> (bool \<times> 'a) option) \<Rightarrow> nat option \<Rightarrow> bool \<Rightarrow> 'a \<Rightarrow> (bool \<times> 'a) option" where
  "parse_loop s cb pos ret d =
     (case pos of None \<Rightarrow> Some (ret, d)
      | Some p \<Rightarrow> do {
          b \<leftarrow> mem_read s p;
          if b = 0 then Some (ret, d)
          else do {
            (kv, next) \<leftarrow> json_get_next_object JSOBJECT s p;
            case next of None \<Rightarrow> Some (ret, d)
            | Some q \<Rightarrow> (case kv of None \<Rightarrow> Some (ret, d)
              | Some kv \<Rightarrow>
                if kv_klen kv \<noteq> 0 \<and> kv_vlen kv \<noteq> 0 then do {
                  (finish, d) \<leftarrow> cb s kv d;
                  if finish then Some (True, d) else parse_loop s cb (Some q) True d }
                else parse_loop s cb (Some q) ret d) } })"

text \<open>
  When the given length is not that of the string, the byte behind it is set to zero. It would be
  restored if the length still differed afterwards. The result says whether a member was found.
\<close>

definition json_parse_name_value :: "buffer \<Rightarrow> nat \<Rightarrow> nat \<Rightarrow> (buffer \<Rightarrow> json_kv \<Rightarrow> 'a \<Rightarrow> (bool \<times> 'a) option) \<Rightarrow> 'a
    \<Rightarrow> (bool \<times> 'a \<times> buffer) option" where
  "json_parse_name_value s str iStrLen cb d =
     (if iStrLen = 0 then Some (False, d, s)
      else do {
        n \<leftarrow> strlen_at s str;
        (s, last_char) \<leftarrow> (if iStrLen \<noteq> n then do {
            b \<leftarrow> mem_read s (str + iStrLen);
            s \<leftarrow> mem_write s (str + iStrLen) 0;
            Some (s, b) } else Some (s, 0));
        pos \<leftarrow> json_get_object JSOBJECT s str;
        (ret, d) \<leftarrow> parse_loop s cb pos False d;
        n \<leftarrow> strlen_at s str;
        s \<leftarrow> (if iStrLen \<noteq> n then mem_write s (str + iStrLen) last_char else Some s);
        Some (ret, d, s) })"

record JSON_NV =
  nv_name :: cstring
  nv_val :: "nat option"
  nv_len :: nat
  nv_type :: JSONTYPE

definition json_get_value_by_name_cb :: "buffer \<Rightarrow> json_kv \<Rightarrow> JSON_NV \<Rightarrow> (bool \<times> JSON_NV) option" where
  "json_get_value_by_name_cb s kv nv =
     (if kv_klen kv = length (nv_name nv) then do {
        eq \<leftarrow> strncmp_eq (drop (kv_key kv) s) (nv_name nv);
        Some (if eq then (True, nv\<lparr>nv_val := kv_val kv, nv_len := kv_vlen kv, nv_type := kv_vtype kv\<rparr>) else (False, nv)) }
      else Some (False, nv))"

text \<open>The value pointer, its length (for a member that was found), and the document. \<open>want_type\<close>: the
  caller asks for the type, and then a null value is the null pointer.\<close>

definition json_get_value_by_name :: "buffer \<Rightarrow> nat \<Rightarrow> nat \<Rightarrow> cstring \<Rightarrow> bool \<Rightarrow> (nat option \<times> nat \<times> JSONTYPE \<times> buffer) option" where
  "json_get_value_by_name s str iStrLen name want_type = do {
     (ret, nv, s) \<leftarrow> json_parse_name_value s str iStrLen json_get_value_by_name_cb
        \<lparr>nv_name = name, nv_val = None, nv_len = 0, nv_type = JSSTRING\<rparr>;
     Some (if ret \<and> want_type \<and> nv_type nv = JSNULL then None else nv_val nv, nv_len nv, nv_type nv, s) }"

end
