(* ===== verification/Json_Spec.thy ===== *)
theory Json_Spec
  imports Json_Parser
begin

text \<open>
  What the JSON scanner promises: an abstract syntax of JSON values, its text, the member a lookup
  selects, and the lemmas that the scanner finds it.

  The scanner counts braces (or brackets) without regard to strings and takes a backslash before a
  quote for an escape without regard to a backslash before it. \<open>jwf\<close> therefore keeps the quote, the
  backslash, braces and brackets out of strings; for those texts the scanner is exact.
\<close>

section \<open>Values and their text\<close>

text \<open>A member of an object has its key between the number of spaces before it and the number of spaces
  before the value.\<close>

type_synonym jkey = "nat \<times> cstring \<times> nat"

datatype jval =
    JStr cstring
  | JNum cstring
  | JBool bool
  | JNull
  | JObj "(jkey \<times> jval) list"
  | JArr "jval list"

fun commas :: "cstring list \<Rightarrow> cstring" where
  "commas [] = []"
| "commas [x] = x"
| "commas (x # y # zs) = x @ COMMA # commas (y # zs)"

definition quoted :: "cstring \<Rightarrow> cstring" where
  "quoted t = QUOTE # t @ [QUOTE]"

definition word_text :: "jval \<Rightarrow> cstring" where
  "word_text v = (case v of JBool True \<Rightarrow> [0x74, 0x72, 0x75, 0x65]
     | JBool False \<Rightarrow> [0x66, 0x61, 0x6c, 0x73, 0x65] | _ \<Rightarrow> [0x6e, 0x75, 0x6c, 0x6c])"

definition mkey :: "jkey \<times> 'a \<Rightarrow> cstring" where
  "mkey m = fst (snd (fst m))"

definition mhead :: "jkey \<Rightarrow> cstring" where
  "mhead k = replicate (fst k) SPACE @ quoted (fst (snd k)) @ COLON # replicate (snd (snd k)) SPACE"

fun jtext :: "jval \<Rightarrow> cstring" where
  "jtext (JStr t) = quoted t"
| "jtext (JNum t) = t"
| "jtext (JBool b) = word_text (JBool b)"
| "jtext JNull = word_text JNull"
| "jtext (JObj ms) = LBRACE # commas (map (\<lambda>m. mhead (fst m) @ jtext (snd m)) ms) @ [RBRACE]"
| "jtext (JArr vs) = LBRACK # commas (map jtext vs) @ [RBRACK]"

definition mtext :: "jkey \<times> jval \<Rightarrow> cstring" where
  "mtext m = mhead (fst m) @ jtext (snd m)"

text \<open>What the scanner returns of a value: the text between the quotes of a string, else the text.\<close>

fun jinner :: "jval \<Rightarrow> cstring" where
  "jinner (JStr t) = t"
| "jinner v = jtext v"

fun jtype :: "jval \<Rightarrow> JSONTYPE" where
  "jtype (JStr _) = JSSTRING"
| "jtype (JNum _) = JSNUMBER"
| "jtype (JBool _) = JSBOOLEAN"
| "jtype JNull = JSNULL"
| "jtype (JObj _) = JSOBJECT"
| "jtype (JArr _) = JSARRAY"

definition plain_char :: "u8 \<Rightarrow> bool" where
  "plain_char b \<longleftrightarrow> b \<notin> {0, QUOTE, BACKSLASH, LBRACE, RBRACE, LBRACK, RBRACK}"

definition number_text :: "cstring \<Rightarrow> bool" where
  "number_text t \<longleftrightarrow> t \<noteq> [] \<and> (hd t = 0x2d \<or> is_digit (hd t)) \<and> (\<forall>b \<in> set (tl t). is_digit b \<or> b = 0x2e)"

fun jwf :: "jval \<Rightarrow> bool" where
  "jwf (JStr t) = (\<forall>b \<in> set t. plain_char b)"
| "jwf (JNum t) = number_text t"
| "jwf (JObj ms) = (\<forall>m \<in> set ms. (\<forall>b \<in> set (mkey m). plain_char b) \<and> jwf (snd m))"
| "jwf (JArr vs) = (\<forall>v \<in> set vs. jwf v)"
| "jwf _ = True"

text \<open>The members the callback is given: those with a key and a text.\<close>

definition visible :: "(jkey \<times> jval) list \<Rightarrow> (cstring \<times> jval) list" where
  "visible ms = map (\<lambda>m. (mkey m, snd m)) (filter (\<lambda>m. mkey m \<noteq> [] \<and> jinner (snd m) \<noteq> []) ms)"

definition jget :: "cstring \<Rightarrow> jval \<Rightarrow> jval option" where
  "jget k v = (case v of JObj ms \<Rightarrow> map_of (visible ms) k | _ \<Rightarrow> None)"

section \<open>The library functions\<close>

lemma strlen_skip: "0 \<notin> set xs \<Longrightarrow> strlen (xs @ ys) = map_option (\<lambda>n. length xs + n) (strlen ys)"
  by (induction xs) (cases "strlen ys", auto)+

lemma strlen_Some: "0 \<in> set ys \<Longrightarrow> \<exists>n. strlen ys = Some n"
  by (induction ys) auto

lemma strchr_skip: "c \<notin> set xs \<Longrightarrow> 0 \<notin> set xs \<Longrightarrow> strchr_from c (xs @ ys) p = strchr_from c ys (p + length xs)"
  by (induction xs arbitrary: p) auto

lemma strncmp_self [simp]: "strncmp_eq (xs @ ys) xs = Some True"
  by (induction xs) auto

lemma strncmp_length: "length xs = length ys \<Longrightarrow> strncmp_eq (xs @ zs) ys = Some (xs = ys)"
  by (induction xs ys rule: list_induct2) auto

section \<open>The end of a value\<close>

lemma end_string:
  assumes "\<forall>b \<in> set xs. b \<noteq> QUOTE \<and> b \<noteq> 0 \<and> b \<noteq> BACKSLASH" and "l \<noteq> BACKSLASH"
  shows "end_from s JSSTRING v (xs @ QUOTE # rest) p 0 l len = Some (p + length xs - v)"
  using assms by (induction xs arbitrary: p l) auto

lemma end_number:
  assumes "\<forall>b \<in> set xs. is_digit b \<or> b = 0x2e" and "\<not> is_digit c" and "c \<noteq> 0x2e" and "c \<noteq> 0"
  shows "end_from s JSNUMBER v (xs @ c # rest) p d l len = Some (p + length xs - v)"
  using assms by (induction xs arbitrary: p l) (auto simp: is_digit_def)

text \<open>The depth behind a text, as long as it does not fall below zero.\<close>

primrec depth_after :: "u8 \<Rightarrow> u8 \<Rightarrow> buffer \<Rightarrow> nat \<Rightarrow> nat option" where
  "depth_after op cl [] d = Some d"
| "depth_after op cl (b # bs) d =
     (if b = 0 then None
      else if b = cl then (if d = 0 then None else depth_after op cl bs (d - 1))
      else depth_after op cl bs (if b = op then d + 1 else d))"

lemma depth_append: "depth_after op cl (xs @ ys) d = Option.bind (depth_after op cl xs d) (depth_after op cl ys)"
  by (induction xs arbitrary: d) auto

definition balanced :: "cstring \<Rightarrow> bool" where
  "balanced t \<longleftrightarrow> (\<forall>d. depth_after LBRACE RBRACE t d = Some d \<and> depth_after LBRACK RBRACK t d = Some d)"

lemma balanced_Nil [simp]: "balanced []"
  by (simp add: balanced_def)

lemma balanced_append [simp]: "balanced x \<Longrightarrow> balanced y \<Longrightarrow> balanced (x @ y)"
  by (simp add: balanced_def depth_append)

lemma balanced_char: "b \<notin> {0, LBRACE, RBRACE, LBRACK, RBRACK} \<Longrightarrow> balanced [b]"
  by (simp add: balanced_def)

lemma balanced_Cons: "b \<notin> {0, LBRACE, RBRACE, LBRACK, RBRACK} \<Longrightarrow> balanced y \<Longrightarrow> balanced (b # y)"
  using balanced_append [OF balanced_char [of b], of y] by simp

lemma balanced_chars: "\<forall>b \<in> set t. b \<notin> {0, LBRACE, RBRACE, LBRACK, RBRACK} \<Longrightarrow> balanced t"
  by (induction t) (auto intro!: balanced_Cons)

lemma balanced_commas: "\<forall>t \<in> set ts. balanced t \<Longrightarrow> balanced (commas ts)"
  by (induction ts rule: commas.induct) (auto intro!: balanced_append balanced_Cons)

lemma balanced_quoted: "\<forall>b \<in> set t. plain_char b \<Longrightarrow> balanced (quoted t)"
  by (rule balanced_chars) (auto simp: quoted_def plain_char_def)

lemma digit_plain: "is_digit b \<Longrightarrow> b \<notin> {0, QUOTE, BACKSLASH, LBRACE, RBRACE, LBRACK, RBRACK, COLON, COMMA}"
  by (auto simp: is_digit_def)

lemma balanced_number: "number_text t \<Longrightarrow> balanced t"
  using digit_plain by (cases t) (fastforce simp: number_text_def intro!: balanced_chars)+

lemma balanced_braces: "balanced x \<Longrightarrow> balanced (LBRACE # x @ [RBRACE])"
  by (simp add: balanced_def depth_append)

lemma balanced_brackets: "balanced x \<Longrightarrow> balanced (LBRACK # x @ [RBRACK])"
  by (simp add: balanced_def depth_append)

lemma balanced_spaces: "balanced (replicate n SPACE)"
  by (rule balanced_chars) auto

lemma balanced_member: "\<forall>b \<in> set (mkey m). plain_char b \<Longrightarrow> balanced t \<Longrightarrow> balanced (mhead (fst m) @ t)"
  unfolding mhead_def mkey_def
  by (intro balanced_append balanced_quoted balanced_Cons balanced_spaces) auto

lemma balanced_jtext: "jwf v \<Longrightarrow> balanced (jtext v)"
proof (induction v)
  case (JObj ms)
  have "balanced (mhead (fst m) @ jtext (snd m))" if m: "m \<in> set ms" for m
    using JObj.IH [of m "snd m"] JObj.prems m by (auto simp: snds.simps intro!: balanced_member)
  then show ?case by (auto intro!: balanced_braces balanced_commas)
next
  case (JArr vs)
  then show ?case by (auto intro!: balanced_brackets balanced_commas)
next
  case (JBool b)
  then show ?case by (cases b) (simp_all add: word_text_def balanced_Cons)
qed (simp_all add: balanced_quoted balanced_number word_text_def balanced_Cons)

lemma balanced_obj: "jwf (JObj ms) \<Longrightarrow> balanced (commas (map (\<lambda>m. mhead (fst m) @ jtext (snd m)) ms))"
  by (rule balanced_commas) (auto intro!: balanced_member balanced_jtext)

lemma balanced_arr: "jwf (JArr vs) \<Longrightarrow> balanced (commas (map jtext vs))"
  by (rule balanced_commas) (auto intro!: balanced_jtext)

lemma balanced_nonzero: "balanced t \<Longrightarrow> 0 \<notin> set t"
proof -
  have "0 \<notin> set t" if "depth_after LBRACE RBRACE t d = Some d'" for d d'
    using that by (induction t arbitrary: d) (auto split: if_splits)
  then show "balanced t \<Longrightarrow> 0 \<notin> set t" by (auto simp: balanced_def)
qed

lemma end_depth:
  assumes "depth_after (json_open type) (json_close type) xs d = Some d'" and "type = JSOBJECT \<or> type = JSARRAY"
  shows "end_from s type v (xs @ rest) p d l len = end_from s type v rest (p + length xs) d' (foldl (\<lambda>_ b. b) l xs) len"
  using assms
proof (induction xs arbitrary: p d l)
  case (Cons b xs)
  have k: "json_open type \<noteq> json_close type" "type \<noteq> JSSTRING" "type \<noteq> JSBOOLEAN" "type \<noteq> JSNULL" "type \<noteq> JSNUMBER"
    using Cons.prems(2) by auto
  show ?case using Cons.prems(1) Cons.IH [OF _ Cons.prems(2)] k by (auto split: if_splits)
qed auto

lemma end_nested:
  assumes "balanced x" and "type = JSOBJECT \<or> type = JSARRAY"
  shows "end_from s type v (x @ json_close type # rest) p 0 l len = Some (p + length x - v + 1)"
proof -
  have "depth_after (json_open type) (json_close type) x 0 = Some 0"
    using assms by (auto simp: balanced_def)
  from end_depth [OF this assms(2)] assms(2) show ?thesis by auto
qed

lemma end_word:
  assumes "value_word type (drop v s) = Some (Some n)" and "type = JSBOOLEAN \<or> type = JSNULL" and "b \<noteq> 0"
  shows "end_from s type v (b # bs) p d l len = Some n"
  using assms by auto

section \<open>One member\<close>

lemma drop_step: "drop q s = b # xs \<Longrightarrow> drop (Suc q) s = xs"
  by (metis drop_Suc list.sel(3) tl_drop)

lemma drop_skip: "drop q s = xs @ ys \<Longrightarrow> drop (q + length xs) s = ys"
  by (metis add.commute append_eq_conv_conj drop_drop)

definition voff :: "jval \<Rightarrow> nat" where
  "voff v = (if jtype v = JSSTRING then 1 else 0)"

lemma value_word_jtext:
  assumes "0 \<in> set rest"
  shows "value_word JSBOOLEAN (word_text (JBool b) @ rest) = Some (Some (length (word_text (JBool b))))"
    and "value_word JSNULL (word_text JNull @ rest) = Some (Some 4)"
proof -
  obtain n where n: "strlen rest = Some n" using strlen_Some assms by blast
  show "value_word JSBOOLEAN (word_text (JBool b) @ rest) = Some (Some (length (word_text (JBool b))))"
    using n by (cases b) (simp_all add: value_word_def word_at_def word_text_def)
  show "value_word JSNULL (word_text JNull @ rest) = Some (Some 4)"
    using n by (simp add: value_word_def word_at_def word_text_def)
qed

lemma json_value_at_jtext:
  assumes wf: "jwf v" and d: "drop p s = jtext v @ c # rest" and c: "c = COMMA \<or> c = RBRACE" and z: "0 \<in> set rest"
  shows "json_value_at s p key = Some (Some \<lparr>kv_key = fst key, kv_klen = snd key, kv_val = Some (p + voff v),
      kv_vlen = length (jinner v), kv_vtype = jtype v\<rparr>, Some (p + length (jtext v)))"
proof -
  note d1 = d
  have c0: "c \<noteq> 0" "\<not> is_digit c" "c \<noteq> 0x2e" using c by (auto simp: is_digit_def)
  show ?thesis
  proof (cases v)
    case (JStr t)
    have "drop (Suc p) s = t @ QUOTE # c # rest"
      using drop_step [of p s QUOTE "t @ QUOTE # c # rest"] d1 JStr by (simp add: quoted_def)
    moreover have "\<forall>b \<in> set t. b \<noteq> QUOTE \<and> b \<noteq> 0 \<and> b \<noteq> BACKSLASH" using wf JStr by (auto simp: plain_char_def)
    ultimately show ?thesis using d JStr by (simp add: json_value_at_def quoted_def voff_def end_string is_digit_def)
  next
    case (JNum t)
    then obtain b t' where t: "t = b # t'" using wf by (cases t) (auto simp: number_text_def)
    have "drop (Suc p) s = t' @ c # rest" using drop_step [of p s b "t' @ c # rest"] d1 JNum t by simp
    moreover have "value_from (b # t' @ c # rest) p = Some (JSNUMBER, Some p, Suc p, SPACE)"
      using wf JNum t digit_plain [of b] by (auto simp: number_text_def)
    moreover have "end_from s JSNUMBER p (t' @ c # rest) (Suc p) 0 SPACE 0 = Some (Suc p + length t' - p)"
      using wf JNum t c0 by (intro end_number) (auto simp: number_text_def)
    ultimately show ?thesis using d JNum t by (simp add: json_value_at_def voff_def is_digit_def)
  next
    case (JBool b)
    have w: "value_word JSBOOLEAN (drop p s) = Some (Some (length (word_text (JBool b))))"
      unfolding d1 using JBool z c by (simp add: value_word_jtext)
    obtain x xs where x: "word_text (JBool b) = x # xs" "x \<in> {0x74, 0x66}"
      by (cases b) (auto simp: word_text_def)
    then show ?thesis using d d1 JBool end_word [OF w _ _] by (auto simp: json_value_at_def voff_def is_digit_def)
  next
    case JNull
    have w: "value_word JSNULL (drop p s) = Some (Some 4)"
      unfolding d1 using JNull z c by (simp add: value_word_jtext)
    then show ?thesis using d d1 JNull end_word [OF w _ _]
      by (simp add: json_value_at_def voff_def word_text_def is_digit_def)
  next
    case (JObj ms)
    define x where "x = commas (map (\<lambda>m. mhead (fst m) @ jtext (snd m)) ms)"
    have jt: "jtext v = LBRACE # x @ [RBRACE]" using JObj by (simp add: x_def)
    have "drop (Suc p) s = x @ RBRACE # c # rest"
      using drop_step [of p s LBRACE "x @ RBRACE # c # rest"] d1 jt by simp
    moreover have "end_from s JSOBJECT p (x @ RBRACE # c # rest) (Suc p) 0 SPACE 0 = Some (length x + 2)"
      using end_nested [of x JSOBJECT s p "c # rest"] balanced_obj [of ms] wf JObj by (simp add: x_def)
    ultimately show ?thesis using d jt JObj by (simp add: json_value_at_def voff_def is_digit_def del: jtext.simps)
  next
    case (JArr vs)
    define x where "x = commas (map jtext vs)"
    have jt: "jtext v = LBRACK # x @ [RBRACK]" using JArr by (simp add: x_def)
    have "drop (Suc p) s = x @ RBRACK # c # rest"
      using drop_step [of p s LBRACK "x @ RBRACK # c # rest"] d1 jt by simp
    moreover have "end_from s JSARRAY p (x @ RBRACK # c # rest) (Suc p) 0 SPACE 0 = Some (length x + 2)"
      using end_nested [of x JSARRAY s p "c # rest"] balanced_arr [of vs] wf JArr by (simp add: x_def)
    ultimately show ?thesis using d jt JArr by (simp add: json_value_at_def voff_def is_digit_def del: jtext.simps)
  qed
qed

lemma value_from_spaces: "value_from (replicate n SPACE @ xs) p = value_from xs (p + n)"
  by (induction n arbitrary: p) (auto simp: is_digit_def)

lemma json_value_at_member:
  assumes "jwf v" and d: "drop p s = COLON # replicate n SPACE @ jtext v @ c # rest" and "c = COMMA \<or> c = RBRACE" and "0 \<in> set rest"
  shows "json_value_at s p key = Some (Some \<lparr>kv_key = fst key, kv_klen = snd key, kv_val = Some (p + 1 + n + voff v),
      kv_vlen = length (jinner v), kv_vtype = jtype v\<rparr>, Some (p + 1 + n + length (jtext v)))"
proof -
  have "drop p s = (COLON # replicate n SPACE) @ jtext v @ c # rest" using d by simp
  from drop_skip [OF this] have q: "drop (p + 1 + n) s = jtext v @ c # rest" by simp
  have "value_from (drop p s) p = value_from (drop (p + 1 + n) s) (p + 1 + n)"
    unfolding d q by (simp add: value_from_spaces is_digit_def)
  then have "json_value_at s p key = json_value_at s (p + 1 + n) key" by (simp add: json_value_at_def)
  then show ?thesis using json_value_at_jtext [OF assms(1) q assms(3,4), of key] by simp
qed

section \<open>The members of an object\<close>

lemma strchr_at_skip:
  "drop p s = xs @ c # ys \<Longrightarrow> c \<notin> set xs \<Longrightarrow> 0 \<notin> set xs \<Longrightarrow> strchr_at s p c = Some (Some (p + length xs))"
  by (simp add: strchr_at_def strchr_skip)

lemma plain_quote: "\<forall>b \<in> set k. plain_char b \<Longrightarrow> QUOTE \<notin> set k \<and> 0 \<notin> set k"
  by (auto simp: plain_char_def)

lemma next_object_member:
  assumes "\<forall>b \<in> set (mkey m). plain_char b" and "jwf (snd m)"
    and d: "drop p s = mtext m @ c # rest" and c: "c = COMMA \<or> c = RBRACE" and z: "0 \<in> set rest"
  shows "json_get_next_object JSOBJECT s p = Some (Some \<lparr>kv_key = p + fst (fst m) + 1, kv_klen = length (mkey m),
      kv_val = Some (p + length (mhead (fst m)) + voff (snd m)), kv_vlen = length (jinner (snd m)), kv_vtype = jtype (snd m)\<rparr>,
      Some (p + length (mtext m)))"
proof -
  obtain n k l v where m: "m = ((n, k, l), v)" by (cases m) auto
  have q: "QUOTE \<notin> set k" "0 \<notin> set k" using assms(1) plain_quote m by (auto simp: mkey_def)
  have d0: "drop p s = replicate n SPACE @ QUOTE # k @ QUOTE # COLON # replicate l SPACE @ jtext v @ c # rest"
    using d m by (simp add: mtext_def mhead_def quoted_def)
  have d0': "drop (p + n) s = QUOTE # k @ QUOTE # COLON # replicate l SPACE @ jtext v @ c # rest"
    using drop_skip [OF d0] by simp
  have d1: "drop (p + n + 1) s = k @ QUOTE # COLON # replicate l SPACE @ jtext v @ c # rest"
    using drop_step [OF d0'] by simp
  have d2: "drop (p + n + 1 + length k) s = [QUOTE] @ COLON # replicate l SPACE @ jtext v @ c # rest"
    using drop_skip [OF d1] by simp
  have d3: "drop (p + n + 1 + length k + 1) s = COLON # replicate l SPACE @ jtext v @ c # rest"
    using drop_skip [OF d2] by simp
  have s1: "strchr_at s p QUOTE = Some (Some (p + n))" using strchr_at_skip [OF d0] by simp
  have s2: "strchr_at s (p + n + 1) QUOTE = Some (Some (p + n + 1 + length k))" using strchr_at_skip [OF d1] q by simp
  have s3: "strchr_at s (p + n + 1 + length k) COLON = Some (Some (p + n + 1 + length k + 1))"
    using strchr_at_skip [OF d2] by simp
  show ?thesis
    using s1 s2 s3 json_value_at_member [OF _ d3 c z, of "(p + n + 1, length k)"] assms(2) m
    by (simp add: json_get_next_object_def mtext_def mhead_def mkey_def quoted_def numeral_eq_Suc)
qed

lemma drop_read: "drop p s = b # xs \<Longrightarrow> mem_read s p = Some b"
  by (metis Cons_nth_drop_Suc drop_eq_Nil2 list.distinct(1) list.inject mem_read_def not_le)

lemma parse_skip:
  assumes "drop p s = sep @ xs" and "QUOTE \<notin> set sep" and "0 \<notin> set sep"
  shows "parse_loop s cb (Some p) ret d = parse_loop s cb (Some (p + length sep)) ret d"
proof (cases sep)
  case (Cons b sep')
  have r: "mem_read s p = Some b" "b \<noteq> 0" using drop_read [of p s b "sep' @ xs"] assms Cons by auto
  have dx: "drop (p + length sep) s = xs" using drop_skip [OF assms(1)] by simp
  have sq: "strchr_at s p QUOTE = strchr_at s (p + length sep) QUOTE"
    using assms dx by (simp add: strchr_at_def strchr_skip)
  show ?thesis
  proof (cases xs)
    case Nil
    then have "strchr_at s p QUOTE = None" "mem_read s (p + length sep) = None"
      using sq dx by (simp_all add: strchr_at_def mem_read_def)
    then show ?thesis using r by (simp add: parse_loop.simps json_get_next_object_def)
  next
    case (Cons x xs')
    have rx: "mem_read s (p + length sep) = Some x" using drop_read dx Cons by simp
    show ?thesis
    proof (cases "x = 0")
      case True
      then have "strchr_at s p QUOTE = Some None" using sq dx Cons by (simp add: strchr_at_def)
      then show ?thesis using r rx True by (simp add: parse_loop.simps json_get_next_object_def)
    next
      case False
      have "json_get_next_object JSOBJECT s p = json_get_next_object JSOBJECT s (p + length sep)"
        by (simp add: json_get_next_object_def sq)
      then show ?thesis using r rx False by (simp add: parse_loop.simps)
    qed
  qed
qed simp

lemma name_cb:
  assumes "drop q s = k @ rest"
  shows "json_get_value_by_name_cb s \<lparr>kv_key = q, kv_klen = length k, kv_val = v, kv_vlen = n, kv_vtype = t\<rparr> nv
    = Some (if k = nv_name nv then (True, nv\<lparr>nv_val := v, nv_len := n, nv_type := t\<rparr>) else (False, nv))"
  using assms by (auto simp: json_get_value_by_name_cb_def strncmp_length)

text \<open>One member: the loop stops at it, or goes on behind it.\<close>

lemma parse_member:
  assumes "\<forall>b \<in> set (mkey m). plain_char b" and "jwf (snd m)"
    and d: "drop p s = mtext m @ c # rest" and c: "c = COMMA \<or> c = RBRACE" and z: "0 \<in> set rest"
  shows "parse_loop s json_get_value_by_name_cb (Some p) ret nv =
    (if mkey m \<noteq> [] \<and> jinner (snd m) \<noteq> [] \<and> mkey m = nv_name nv
     then Some (True, nv\<lparr>nv_val := Some (p + length (mhead (fst m)) + voff (snd m)), nv_len := length (jinner (snd m)), nv_type := jtype (snd m)\<rparr>)
     else parse_loop s json_get_value_by_name_cb (Some (p + length (mtext m)))
       (ret \<or> mkey m \<noteq> [] \<and> jinner (snd m) \<noteq> []) nv)"
proof -
  have h: "mhead (fst m) = (replicate (fst (fst m)) SPACE @ [QUOTE]) @ mkey m @ QUOTE # COLON # replicate (snd (snd (fst m))) SPACE"
    by (simp add: mhead_def mkey_def quoted_def)
  obtain b xs where bx: "mhead (fst m) = b # xs" "b \<noteq> 0" by (cases "fst (fst m)") (auto simp: h)
  have r: "mem_read s p = Some b" using drop_read [of p s b] d bx by (simp add: mtext_def)
  have "drop p s = (replicate (fst (fst m)) SPACE @ [QUOTE]) @ mkey m @ QUOTE # COLON # replicate (snd (snd (fst m))) SPACE @ jtext (snd m) @ c # rest"
    using d by (simp add: mtext_def h)
  from drop_skip [OF this]
  have "drop (p + fst (fst m) + 1) s = mkey m @ QUOTE # COLON # replicate (snd (snd (fst m))) SPACE @ jtext (snd m) @ c # rest"
    by simp
  note n = next_object_member [OF assms] and k = name_cb [OF this]
  show ?thesis by (subst parse_loop.simps) (use r bx(2) n k in auto)
qed

lemma jinner_at:
  assumes "drop p s = mtext m @ xs"
  shows "\<exists>tl. drop (p + length (mhead (fst m)) + voff (snd m)) s = jinner (snd m) @ tl @ xs"
proof -
  have "drop p s = mhead (fst m) @ jtext (snd m) @ xs"
    using assms by (simp add: mtext_def)
  from drop_skip [OF this] have d: "drop (p + length (mhead (fst m))) s = jtext (snd m) @ xs"
    by simp
  show ?thesis
  proof (cases "jtype (snd m) = JSSTRING")
    case True
    then obtain t where t: "snd m = JStr t" by (cases "snd m") auto
    have "drop (p + length (mhead (fst m))) s = [QUOTE] @ t @ [QUOTE] @ xs" using d t by (simp add: quoted_def)
    from drop_skip [OF this] show ?thesis using t by (auto simp: voff_def)
  next
    case False
    then have "jinner (snd m) = jtext (snd m)" by (cases "snd m") auto
    then show ?thesis using d False by (auto simp: voff_def intro: exI [of _ "[]"])
  qed
qed

lemma parse_members:
  assumes "\<forall>m \<in> set ms. (\<forall>b \<in> set (mkey m). plain_char b) \<and> jwf (snd m)"
    and "drop p s = commas (map mtext ms) @ RBRACE # rest" and "0 \<in> set rest"
  shows "case map_of (visible ms) (nv_name nv) of
      Some v \<Rightarrow> \<exists>off tl. parse_loop s json_get_value_by_name_cb (Some p) ret nv
          = Some (True, nv\<lparr>nv_val := Some off, nv_len := length (jinner v), nv_type := jtype v\<rparr>)
        \<and> drop off s = jinner v @ tl \<and> 0 \<in> set tl \<and> v \<in> snd ` set ms
    | None \<Rightarrow> \<exists>ret'. parse_loop s json_get_value_by_name_cb (Some p) ret nv
          = parse_loop s json_get_value_by_name_cb (Some (p + length (commas (map mtext ms)))) ret' nv"
  using assms
proof (induction ms arbitrary: p ret)
  case Nil
  then show ?case by (auto simp: visible_def)
next
  case (Cons m ms)
  have wf: "\<forall>b \<in> set (mkey m). plain_char b" "jwf (snd m)" using Cons.prems(1) by auto
  define more where "more = (if ms = [] then [] else COMMA # commas (map mtext ms))"
  have cs: "commas (map mtext (m # ms)) = mtext m @ more" by (cases ms) (auto simp: more_def)
  obtain c xs where c: "more @ RBRACE # rest = c # xs" "c = COMMA \<or> c = RBRACE" "0 \<in> set xs"
    using Cons.prems(3) by (cases "ms = []") (auto simp: more_def)
  have d: "drop p s = mtext m @ c # xs" using Cons.prems(2) cs c(1) by simp
  define hit where "hit \<longleftrightarrow> mkey m \<noteq> [] \<and> jinner (snd m) \<noteq> []"
  note pm = parse_member [OF wf d c(2,3), of ret nv, folded hit_def]
  show ?case
  proof (cases "hit \<and> mkey m = nv_name nv")
    case True
    obtain tl where tl: "drop (p + length (mhead (fst m)) + voff (snd m)) s = jinner (snd m) @ tl @ c # xs"
      using jinner_at [OF d] by blast
    have "map_of (visible (m # ms)) (nv_name nv) = Some (snd m)" using True by (auto simp: visible_def hit_def)
    then show ?thesis using pm tl True c(3) by (auto simp: hit_def)
  next
    case False
    then have v: "map_of (visible (m # ms)) (nv_name nv) = map_of (visible ms) (nv_name nv)"
      by (auto simp: visible_def hit_def)
    have skip: "parse_loop s json_get_value_by_name_cb (Some (p + length (mtext m))) r nv
        = parse_loop s json_get_value_by_name_cb (Some (p + length (mtext m) + (if ms = [] then 0 else 1))) r nv" for r
      using parse_skip [of "p + length (mtext m)" s "[COMMA]" "commas (map mtext ms) @ RBRACE # rest"
          json_get_value_by_name_cb]
        drop_skip [OF d] c(1) by (cases "ms = []") (simp_all add: more_def)
    have d': "drop (p + length (mtext m) + (if ms = [] then 0 else 1)) s = commas (map mtext ms) @ RBRACE # rest"
    proof (cases "ms = []")
      case False
      then show ?thesis using drop_skip [OF d] drop_step c(1) by (simp add: more_def)
    qed (use drop_skip [OF d] c(1) in \<open>simp add: more_def\<close>)
    have len: "p + length (commas (map mtext (m # ms)))
        = p + length (mtext m) + (if ms = [] then 0 else 1) + length (commas (map mtext ms))"
      unfolding cs by (simp add: more_def)
    have pl: "parse_loop s json_get_value_by_name_cb (Some p) ret nv
        = parse_loop s json_get_value_by_name_cb (Some (p + length (mtext m) + (if ms = [] then 0 else 1))) (ret \<or> hit) nv"
    proof (rule trans [OF _ skip])
      show "parse_loop s json_get_value_by_name_cb (Some p) ret nv
          = parse_loop s json_get_value_by_name_cb (Some (p + length (mtext m))) (ret \<or> hit) nv"
        unfolding pm using False by (auto simp: hit_def)
    qed
    have "\<forall>m \<in> set ms. (\<forall>b \<in> set (mkey m). plain_char b) \<and> jwf (snd m)" using Cons.prems(1) by simp
    note ih = Cons.IH [OF this d' Cons.prems(3), of "ret \<or> hit"]
    show ?thesis
    proof (cases "map_of (visible ms) (nv_name nv)")
      case None
      then show ?thesis unfolding v pl len using ih by simp
    next
      case (Some w)
      then obtain off tl where "parse_loop s json_get_value_by_name_cb (Some (p + length (mtext m) + (if ms = [] then 0 else 1))) (ret \<or> hit) nv
          = Some (True, nv\<lparr>nv_val := Some off, nv_len := length (jinner w), nv_type := jtype w\<rparr>)"
        and "drop off s = jinner w @ tl" "0 \<in> set tl" "w \<in> snd ` set ms"
        using ih by auto
      then show ?thesis unfolding v pl Some by auto
    qed
  qed
qed

section \<open>Lookup by name\<close>

lemma jtext_obj: "jtext (JObj ms) = LBRACE # commas (map mtext ms) @ [RBRACE]"
  by (simp add: mtext_def [abs_def])

lemma parse_object:
  assumes "drop p s = LBRACE # xs"
  shows "json_get_object JSOBJECT s p = Some (Some p)"
    and "parse_loop s cb (Some p) ret d = parse_loop s cb (Some (p + 1)) ret d"
  using assms parse_skip [of p s "[LBRACE]" xs] by (simp_all add: json_get_object_def)

lemma by_name_loop:
  assumes "drop p s = LBRACE # xs" and "strlen_at s p = Some n"
    and "parse_loop s json_get_value_by_name_cb (Some (p + 1)) False \<lparr>nv_name = name, nv_val = None, nv_len = 0, nv_type = JSSTRING\<rparr>
      = Some (ret, nv)"
  shows "json_get_value_by_name s p n name want =
    Some (if ret \<and> want \<and> nv_type nv = JSNULL then None else nv_val nv, nv_len nv, nv_type nv, s)"
proof -
  have "n \<noteq> 0" using assms(1,2) by (auto simp: strlen_at_def)
  moreover have "parse_loop s json_get_value_by_name_cb (Some p) False
      \<lparr>nv_name = name, nv_val = None, nv_len = 0, nv_type = JSSTRING\<rparr> = Some (ret, nv)"
    using assms(3) parse_object(2) [OF assms(1), where cb = json_get_value_by_name_cb] by simp
  ultimately show ?thesis using assms(2) parse_object(1) [OF assms(1)]
    by (simp add: json_get_value_by_name_def json_parse_name_value_def)
qed

lemma by_name_found:
  assumes wf: "jwf (JObj ms)" and d: "drop p s = jtext (JObj ms) @ rest" and z: "0 \<in> set rest"
    and n: "strlen_at s p = Some n" and v: "jget name (JObj ms) = Some v"
  shows "\<exists>off tl. json_get_value_by_name s p n name want
        = Some (if want \<and> jtype v = JSNULL then None else Some off, length (jinner v), jtype v, s)
      \<and> drop off s = jinner v @ tl \<and> 0 \<in> set tl \<and> v \<in> snd ` set ms"
proof -
  have d1: "drop (p + 1) s = commas (map mtext ms) @ RBRACE # rest"
    using d drop_step by (simp add: jtext_obj del: jtext.simps)
  have "v \<in> snd ` set ms \<and> (\<exists>off tl. parse_loop s json_get_value_by_name_cb (Some (p + 1)) False
      \<lparr>nv_name = name, nv_val = None, nv_len = 0, nv_type = JSSTRING\<rparr>
      = Some (True, \<lparr>nv_name = name, nv_val = Some off, nv_len = length (jinner v), nv_type = jtype v\<rparr>)
      \<and> drop off s = jinner v @ tl \<and> 0 \<in> set tl)"
    using parse_members [OF _ d1 z, where nv = "\<lparr>nv_name = name, nv_val = None, nv_len = 0, nv_type = JSSTRING\<rparr>" and ret = False] wf v
    by (auto simp: jget_def)
  then show ?thesis using by_name_loop [OF _ n, of _ name] d by (auto simp: jtext_obj simp del: jtext.simps)
qed

lemma by_name_absent:
  assumes wf: "jwf (JObj ms)" and d: "drop p s = jtext (JObj ms) @ 0 # z"
    and n: "strlen_at s p = Some n" and v: "jget name (JObj ms) = None"
  shows "json_get_value_by_name s p n name want = Some (None, 0, JSSTRING, s)"
proof -
  have d1: "drop (p + 1) s = commas (map mtext ms) @ RBRACE # 0 # z"
    using d drop_step by (simp add: jtext_obj del: jtext.simps)
  have "drop (p + 1 + length (commas (map mtext ms))) s = [RBRACE] @ 0 # z" using drop_skip [OF d1] by simp
  note skip = parse_skip [OF this, where cb = json_get_value_by_name_cb] and e = drop_read [OF drop_skip [OF this]]
  have "\<exists>ret. parse_loop s json_get_value_by_name_cb (Some (p + 1)) False
      \<lparr>nv_name = name, nv_val = None, nv_len = 0, nv_type = JSSTRING\<rparr>
      = Some (ret, \<lparr>nv_name = name, nv_val = None, nv_len = 0, nv_type = JSSTRING\<rparr>)"
    using parse_members [OF _ d1, where nv = "\<lparr>nv_name = name, nv_val = None, nv_len = 0, nv_type = JSSTRING\<rparr>" and ret = False] wf v skip e
    by (auto simp: jget_def parse_loop.simps [of s _ "Some (Suc (Suc _))"])
  then show ?thesis using by_name_loop [OF _ n, of _ name] d by (auto simp: jtext_obj simp del: jtext.simps)
qed

end
