(* ===== verification/Text_Format.thy ===== *)
theory Text_Format
  imports Qc_Words
begin

text \<open>
  What the SDK uses of \<open>printf\<close> and \<open>scanf\<close>: \<open>HAL_Snprintf\<close> into a block at an offset, decimal
  output of integers, \<open>%f\<close>, and input of integers with \<open>%i\<close> and \<open>%u\<close>. Numbers in memory are little
  endian.
\<close>

section \<open>Output\<close>

text \<open>The bytes of a string literal.\<close>

definition chars :: "string \<Rightarrow> cstring" where
  "chars s = map of_char s"

text \<open>\<open>vsnprintf\<close> of a text to \<open>buf + off\<close>, with \<open>n\<close> the size it is given: the length of the whole text,
  and the block. A block too short for what is written is undefined.\<close>

definition HAL_Snprintf :: "buffer \<Rightarrow> nat \<Rightarrow> nat \<Rightarrow> cstring \<Rightarrow> (int \<times> buffer) option" where
  "HAL_Snprintf buf off n s =
     (if n = 0 then Some (int (length s), buf)
      else do {
        buf \<leftarrow> mem_copy buf off (take (n - 1) s @ [0]);
        Some (int (length s), buf) })"

fun nat_text :: "nat \<Rightarrow> cstring" where
  "nat_text n = (if n < 10 then [0x30 + of_nat n] else nat_text (n div 10) @ [0x30 + of_nat (n mod 10)])"

declare nat_text.simps [simp del]

definition int_text :: "int \<Rightarrow> cstring" where
  "int_text i = (if i < 0 then 0x2d # nat_text (nat (- i)) else nat_text (nat i))"

text \<open>\<open>%f\<close> of \<open>m * 2 ^ e\<close>: six decimals, to the nearest, ties to even.\<close>

definition micro_units :: "nat \<Rightarrow> int \<Rightarrow> nat" where
  "micro_units m e =
     (if e \<ge> 0 then m * 1000000 * 2 ^ nat e
      else let d = 2 ^ nat (- e); q = m * 1000000 div d; r = m * 1000000 mod d in
        if 2 * r > d \<or> 2 * r = d \<and> odd q then q + 1 else q)"

definition fixed_text :: "bool \<Rightarrow> nat \<Rightarrow> int \<Rightarrow> cstring" where
  "fixed_text neg m e =
     (let n = micro_units m e; f = nat_text (n mod 1000000) in
      (if neg then [0x2d] else []) @ nat_text (n div 1000000) @ 0x2e # replicate (6 - length f) 0x30 @ f)"

definition float_text :: "nat \<Rightarrow> nat \<Rightarrow> nat \<Rightarrow> cstring" where
  "float_text ebits mbits x =
     (let fr = x mod 2 ^ mbits; ex = x div 2 ^ mbits mod 2 ^ ebits; neg = odd (x div 2 ^ (mbits + ebits));
          base = 2 - 2 ^ (ebits - 1) - int mbits in
      if ex = 2 ^ ebits - 1 then
        (if fr \<noteq> 0 then [0x6e, 0x61, 0x6e] else (if neg then [0x2d] else []) @ [0x69, 0x6e, 0x66])
      else if ex = 0 then fixed_text neg fr base
      else fixed_text neg (fr + 2 ^ mbits) (base + int ex - 1))"

section \<open>Numbers in memory\<close>

primrec le_nat :: "buffer \<Rightarrow> nat" where
  "le_nat [] = 0"
| "le_nat (b # bs) = unat b + 256 * le_nat bs"

definition load :: "nat \<Rightarrow> buffer \<Rightarrow> nat option" where
  "load n s = (if n \<le> length s then Some (le_nat (take n s)) else None)"

primrec le_bytes :: "nat \<Rightarrow> nat \<Rightarrow> buffer" where
  "le_bytes 0 x = []"
| "le_bytes (Suc n) x = of_nat x # le_bytes n (x div 256)"

definition signed :: "nat \<Rightarrow> nat \<Rightarrow> int" where
  "signed bits x = (if x < 2 ^ (bits - 1) then int x else int x - 2 ^ bits)"

section \<open>Input\<close>

definition is_space :: "u8 \<Rightarrow> bool" where
  "is_space b \<longleftrightarrow> b = 0x20 \<or> 9 \<le> b \<and> b \<le> 13"

definition digit_val :: "u8 \<Rightarrow> nat" where
  "digit_val b =
     (if 0x30 \<le> b \<and> b \<le> 0x39 then unat b - 48
      else if 0x61 \<le> b \<and> b \<le> 0x66 then unat b - 87
      else if 0x41 \<le> b \<and> b \<le> 0x46 then unat b - 55 else 99)"

primrec scan_digits :: "nat \<Rightarrow> buffer \<Rightarrow> nat \<Rightarrow> nat" where
  "scan_digits base [] acc = acc"
| "scan_digits base (b # bs) acc = (if digit_val b < base then scan_digits base bs (acc * base + digit_val b) else acc)"

definition scan_sign :: "buffer \<Rightarrow> bool \<times> buffer" where
  "scan_sign t = (case t of [] \<Rightarrow> (False, t)
     | b # r \<Rightarrow> if b = 0x2d then (True, r) else if b = 0x2b then (False, r) else (False, t))"

text \<open>\<open>%i\<close> takes the base from the prefix, \<open>%u\<close> is decimal.\<close>

definition scan_base :: "bool \<Rightarrow> buffer \<Rightarrow> nat \<times> buffer" where
  "scan_base any t =
     (if any \<and> take 1 t = [0x30] then
        (if length t \<ge> 2 \<and> (t ! 1 = 0x78 \<or> t ! 1 = 0x58) then (16, drop 2 t) else (8, t))
      else (10, t))"

text \<open>The sign and the magnitude, or no conversion.\<close>

definition scan_num :: "bool \<Rightarrow> cstring \<Rightarrow> (bool \<times> nat) option" where
  "scan_num any s =
     (let (neg, t) = scan_sign (dropWhile is_space s); (base, t) = scan_base any t in
      if t = [] \<or> digit_val (hd t) \<ge> base then None else Some (neg, scan_digits base t 0))"

text \<open>
  \<open>sscanf\<close> of one integer: no conversion, or the value; a value outside the type is undefined. An
  unsigned conversion is that of \<open>strtoul\<close>, where a minus sign negates modulo the type of 32 bits.
\<close>

definition sscanf_i :: "nat \<Rightarrow> cstring \<Rightarrow> int option option" where
  "sscanf_i bits s = (case scan_num True s of None \<Rightarrow> Some None
     | Some (neg, n) \<Rightarrow> let i = (if neg then - int n else int n) in
         if - (2 ^ (bits - 1)) \<le> i \<and> i < 2 ^ (bits - 1) then Some (Some i) else None)"

definition sscanf_u :: "nat \<Rightarrow> cstring \<Rightarrow> nat option option" where
  "sscanf_u bits s = (case scan_num False s of None \<Rightarrow> Some None
     | Some (neg, n) \<Rightarrow> let i = (if neg then (2 ^ 32 - n) mod 2 ^ 32 else n) in
         if n < 2 ^ 32 \<and> i < 2 ^ bits then Some (Some i) else None)"

section \<open>Texts\<close>

lemma length_chars [simp]: "length (chars s) = length s"
  by (simp add: chars_def)

lemma zero_chars [simp]: "0 \<in> set (chars s) \<longleftrightarrow> CHR 0x00 \<in> set s"
proof -
  have "of_char c = (0 :: u8) \<longleftrightarrow> c = CHR 0x00" for c
  proof -
    have "of_char c = (of_nat (of_char c) :: u8)" by (simp add: of_nat_of_char)
    then have "of_char c = (0 :: u8) \<longleftrightarrow> (of_char c :: nat) mod 256 = 0"
      by (simp add: word_unat_eq_iff unat_of_nat)
    also have "\<dots> \<longleftrightarrow> of_char c = (of_char (CHR 0x00) :: nat)" by simp
    finally show ?thesis by (simp only: of_char_eq_iff)
  qed
  then show ?thesis by (force simp: chars_def)
qed

section \<open>Decimal texts\<close>

definition digits :: "cstring \<Rightarrow> bool" where
  "digits t \<longleftrightarrow> (\<forall>b \<in> set t. 0x30 \<le> b \<and> b \<le> 0x39)"

lemma digit_char: "d < 10 \<Longrightarrow> 0x30 \<le> (0x30 + of_nat d :: u8) \<and> (0x30 + of_nat d :: u8) \<le> 0x39 \<and> digit_val (0x30 + of_nat d) = d"
  by (simp add: digit_val_def word_le_nat_alt unat_word_ariths unat_of_nat)

lemma digits_nat_text: "digits (nat_text n)"
proof (induction n rule: nat_text.induct)
  case (1 n)
  have "n mod 10 < 10" by simp
  then show ?case using 1 digit_char [of n] digit_char [of "n mod 10"]
    by (subst nat_text.simps) (auto simp: digits_def)
qed

lemma nat_text_nonempty: "nat_text n \<noteq> []"
  by (subst nat_text.simps) simp

lemma nat_text_hd: "n \<noteq> 0 \<Longrightarrow> hd (nat_text n) \<noteq> 0x30"
proof (induction n rule: nat_text.induct)
  case (1 n)
  show ?case
  proof (cases "n < 10")
    case True
    have "digit_val (0x30 + of_nat n) = n" "digit_val (0x30 :: u8) = 0" using digit_char [of n] digit_char [of 0] True by auto
    then show ?thesis using True 1(2) by (subst nat_text.simps) auto
  next
    case False
    then show ?thesis using 1 nat_text_nonempty by (subst nat_text.simps) simp
  qed
qed

lemma scan_digits_append:
  "\<forall>b \<in> set xs. digit_val b < base \<Longrightarrow> scan_digits base (xs @ ys) acc = scan_digits base ys (scan_digits base xs acc)"
  by (induction xs arbitrary: acc) auto

lemma digits_val: "digits t \<Longrightarrow> \<forall>b \<in> set t. digit_val b < 10"
  by (auto simp: digits_def digit_val_def word_le_nat_alt)

lemma scan_nat_text: "(xs = [] \<or> digit_val (hd xs) \<ge> 10) \<Longrightarrow> scan_digits 10 (nat_text n @ xs) 0 = n"
proof (induction n arbitrary: xs rule: nat_text.induct)
  case (1 n)
  have e: "scan_digits 10 xs m = m" for m using 1(2) by (cases xs) auto
  show ?case
  proof (cases "n < 10")
    case True
    then show ?thesis using digit_char [of n] e by (subst nat_text.simps) simp
  next
    case False
    have d: "n mod 10 < 10" by simp
    have "scan_digits 10 (nat_text (n div 10)) 0 = n div 10" using 1(1) [of "[]"] False by simp
    then show ?thesis using False digit_char [OF d] e
      by (subst nat_text.simps) (simp add: scan_digits_append [OF digits_val [OF digits_nat_text]])
  qed
qed

lemma digits_hd: "digits t \<Longrightarrow> t \<noteq> [] \<Longrightarrow> \<not> is_space (hd t) \<and> hd t \<noteq> 0x2d \<and> hd t \<noteq> 0x2b \<and> digit_val (hd t) < 10"
  using digits_val [of t] by (cases t) (auto simp: digits_def is_space_def word_le_nat_alt)

text \<open>The text of a number is read back.\<close>

lemma scan_num_nat: "scan_num any (nat_text n) = Some (False, n)"
proof -
  have h: "\<not> is_space (hd (nat_text n))" "hd (nat_text n) \<noteq> 0x2d" "hd (nat_text n) \<noteq> 0x2b" "digit_val (hd (nat_text n)) < 10"
    using digits_hd [OF digits_nat_text nat_text_nonempty] by auto
  obtain b r where br: "nat_text n = b # r" using nat_text_nonempty by (cases "nat_text n") auto
  have z: "n = 0 \<Longrightarrow> nat_text n = [0x30]" by (subst nat_text.simps) simp
  have v: "scan_digits 10 (nat_text n) 0 = n" using scan_nat_text [of "[]"] by simp
  show ?thesis
  proof (cases "n = 0")
    case True
    then show ?thesis using z by (simp add: scan_num_def scan_sign_def scan_base_def is_space_def digit_val_def)
  next
    case False
    then have "b \<noteq> 0x30" using nat_text_hd [of n] br by simp
    then show ?thesis using h v br by (simp add: scan_num_def scan_sign_def scan_base_def)
  qed
qed

lemma scan_num_neg: "scan_num any (0x2d # nat_text n) = Some (True, n)"
proof -
  have "scan_num any (nat_text n) = Some (False, n)" by (rule scan_num_nat)
  moreover have "\<not> is_space (hd (nat_text n))" "hd (nat_text n) \<noteq> 0x2d" "hd (nat_text n) \<noteq> 0x2b"
    using digits_hd [OF digits_nat_text nat_text_nonempty] by auto
  moreover obtain b r where "nat_text n = b # r" using nat_text_nonempty by (cases "nat_text n") auto
  ultimately show ?thesis
    by (cases "scan_base any (b # r)") (simp add: scan_num_def scan_sign_def is_space_def split: if_splits)
qed

lemma sscanf_i_text: "- (2 ^ (bits - 1)) \<le> i \<Longrightarrow> i < 2 ^ (bits - 1) \<Longrightarrow> sscanf_i bits (int_text i) = Some (Some i)"
  by (simp add: sscanf_i_def int_text_def scan_num_nat scan_num_neg)

lemma sscanf_u_text: "n < 2 ^ bits \<Longrightarrow> bits \<le> 32 \<Longrightarrow> sscanf_u bits (nat_text n) = Some (Some n)"
  using power_increasing [of bits 32 "2 :: nat"] by (simp add: sscanf_u_def scan_num_nat)

end
