(* ===== verification/String_Utils.thy ===== *)
theory String_Utils
  imports Text_Format Mqtt_Topic Hal_Timer
begin

text \<open>
  The string helpers of \<^verbatim>\<open>string_utils.c\<close>: duplicated and formatted strings, hexadecimal text,
  replacement of a substring. A formatting call is given the text its arguments make; allocation is
  the platform's.
\<close>

section \<open>Model\<close>

definition alloc :: "'w hal \<Rightarrow> 'w \<Rightarrow> 'w option" where
  "alloc E w = (let (ok, w) = hal_malloc E w in if ok then Some w else None)"

text \<open>A string that is 1024 bytes long or longer is refused: the null pointer.\<close>

definition LITE_strdup :: "'w hal \<Rightarrow> cstring option \<Rightarrow> 'w \<Rightarrow> cstring option \<times> 'w" where
  "LITE_strdup E src w = (case src of None \<Rightarrow> (None, w)
     | Some s \<Rightarrow>
         if length s + 1 > 1024 then (None, w)
         else let (ok, w) = hal_malloc E w in ((if ok then Some s else None), w))"

text \<open>The block of 512 bytes is written without a check of its allocation.\<close>

definition LITE_format_string :: "'w hal \<Rightarrow> cstring \<Rightarrow> 'w \<Rightarrow> (cstring option \<times> 'w) option" where
  "LITE_format_string E s w = do {
     w \<leftarrow> alloc E w;
     Some (LITE_strdup E (Some (take 511 s)) w) }"

definition LITE_format_nstring :: "'w hal \<Rightarrow> nat \<Rightarrow> cstring \<Rightarrow> 'w \<Rightarrow> (cstring \<times> 'w) option" where
  "LITE_format_nstring E len s w = do {
     w \<leftarrow> alloc E w;
     w \<leftarrow> alloc E w;
     Some (take len (take len s), w) }"

definition hex_char :: "bool \<Rightarrow> nat \<Rightarrow> u8" where
  "hex_char upper d = (if d < 10 then 0x30 + of_nat d else (if upper then 0x41 else 0x61) + of_nat (d - 10))"

primrec hexbuf_loop :: "buffer \<Rightarrow> bool \<Rightarrow> nat \<Rightarrow> nat \<Rightarrow> nat \<Rightarrow> buffer \<Rightarrow> buffer option" where
  "hexbuf_loop digest upper 0 i j out = Some out"
| "hexbuf_loop digest upper (Suc n) i j out = do {
     a \<leftarrow> mem_read digest i;
     out \<leftarrow> mem_write out j (hex_char upper (unat (drop_bit 4 a AND 0xf)));
     out \<leftarrow> mem_write out (j + 1) (hex_char upper (unat (a AND 0xf)));
     hexbuf_loop digest upper n (i + 1) (j + 2) out }"

definition LITE_hexbuf_convert :: "buffer \<Rightarrow> buffer \<Rightarrow> nat \<Rightarrow> bool \<Rightarrow> buffer option" where
  "LITE_hexbuf_convert digest out in_len uppercase = hexbuf_loop digest uppercase in_len 0 0 out"

definition hexval_of_char :: "u8 \<Rightarrow> u8" where
  "hexval_of_char hex =
     (if 0x30 \<le> hex \<and> hex \<le> 0x39 then hex - 0x30
      else if hex \<ge> 0x61 \<and> hex \<le> 0x66 then hex - 0x61 + 10
      else if hex \<ge> 0x41 \<and> hex \<le> 0x46 then hex - 0x41 + 10 else 0)"

primrec hexstr_loop :: "buffer \<Rightarrow> nat \<Rightarrow> nat \<Rightarrow> buffer \<Rightarrow> buffer option" where
  "hexstr_loop hexstr 0 i out = Some out"
| "hexstr_loop hexstr (Suc n) i out = do {
     c0 \<leftarrow> mem_read hexstr (2 * i);
     c1 \<leftarrow> mem_read hexstr (2 * i + 1);
     out \<leftarrow> mem_write out i (push_bit 4 (hexval_of_char c0) OR hexval_of_char c1);
     hexstr_loop hexstr n (i + 1) out }"

definition LITE_hexstr_convert :: "buffer \<Rightarrow> buffer \<Rightarrow> nat \<Rightarrow> buffer option" where
  "LITE_hexstr_convert hexstr out_buf in_len =
     (if in_len mod 2 \<noteq> 0 then Some out_buf else hexstr_loop hexstr in_len 0 out_buf)"

text \<open>
  \<open>strcpy dst p s\<close>: the bytes of the string at the start of \<open>s\<close> and the zero byte, to \<open>dst + p\<close>.
\<close>

definition strcpy :: "buffer \<Rightarrow> nat \<Rightarrow> buffer \<Rightarrow> buffer option" where
  "strcpy dst p s = do { n \<leftarrow> strlen s; mem_copy dst p (take n s @ [0]) }"

definition key_at :: "buffer \<Rightarrow> nat \<Rightarrow> cstring \<Rightarrow> bool" where
  "key_at s i key \<longleftrightarrow> take (length key) (drop i s) = key"

text \<open>\<open>tmp\<close> is the array of 512 bytes, \<open>n\<close> is \<open>lengthOfOriginalString\<close>.\<close>

partial_function (option) replace_loop :: "cstring \<Rightarrow> cstring \<Rightarrow> nat \<Rightarrow> nat \<Rightarrow> buffer \<Rightarrow> buffer \<Rightarrow> buffer option" where
  "replace_loop key swap i n tmp s =
     (if i + length key \<le> n then
        (if key_at s i key then do {
           tmp \<leftarrow> strcpy tmp 0 s;
           tmp \<leftarrow> strcpy tmp i (swap @ [0]);
           tmp \<leftarrow> strcpy tmp (i + length swap) (drop (i + length key) s);
           s \<leftarrow> strcpy s 0 tmp;
           n \<leftarrow> strlen s;
           replace_loop key swap (i + length swap) n tmp s }
         else replace_loop key swap (i + 1) n tmp s)
      else Some s)"

definition LITE_replace_substr :: "buffer \<Rightarrow> cstring \<Rightarrow> cstring \<Rightarrow> buffer \<Rightarrow> buffer option" where
  "LITE_replace_substr originalString key swap tmp = do {
     n \<leftarrow> strlen originalString;
     replace_loop key swap 0 n tmp originalString }"

section \<open>Hexadecimal text\<close>

lemma low_nibble: "unat ((a :: u8) AND 0xf) = unat a mod 16"
proof -
  have "a AND 0xf = take_bit 4 a" by (simp add: take_bit_eq_mask mask_eq_exp_minus_1)
  then show ?thesis by (simp add: unsigned_take_bit_eq take_bit_eq_mod unat_mod_distrib)
qed

lemma high_nibble: "unat (drop_bit 4 (a :: u8) AND 0xf) = unat a div 16"
  using byte_lt [of a] by (simp add: low_nibble drop_bit_eq_div unat_div_distrib div_less_iff_less_mult)

lemma hexval_hex_char: "d < 16 \<Longrightarrow> unat (hexval_of_char (hex_char upper d)) = d"
proof -
  have "\<forall>d \<in> set [0..<16]. \<forall>u. unat (hexval_of_char (hex_char u d)) = d"
    by (simp add: upt_rec hexval_of_char_def hex_char_def)
  then show "d < 16 \<Longrightarrow> unat (hexval_of_char (hex_char upper d)) = d" by simp
qed

definition hex_text :: "bool \<Rightarrow> buffer \<Rightarrow> cstring" where
  "hex_text upper bs = concat (map (\<lambda>b. [hex_char upper (unat b div 16), hex_char upper (unat b mod 16)]) bs)"

lemma hexbuf_loop_text:
  assumes "drop i digest = bs" and "n = length bs" and "j + 2 * n \<le> length out"
  shows "hexbuf_loop digest upper n i j out = Some (overlay out j (hex_text upper bs))"
  using assms
proof (induction n arbitrary: i j out bs)
  case (Suc n)
  then obtain b bs' where bs: "bs = b # bs'" by (cases bs) auto
  have len: "i < length digest" using Suc.prems bs by (metis drop_eq_Nil2 list.distinct(1) not_le)
  have b: "mem_read digest i = Some b" "drop (i + 1) digest = bs'"
    using Suc.prems(1) bs len by (simp_all add: mem_read_def nth_via_drop drop_Suc) (metis list.sel(3) tl_drop)
  define x y where "x = hex_char upper (unat b div 16)" and "y = hex_char upper (unat b mod 16)"
  have o1: "overlay (overlay out j [x]) (j + 1) [y] = overlay out j [x, y]"
    using overlay_overlay [of j "[x]" "[y]" out] Suc.prems(3) by simp
  have o2: "overlay (overlay out j [x, y]) (j + 2) (hex_text upper bs') = overlay out j (hex_text upper bs)"
    using overlay_overlay [of j "[x, y]" "hex_text upper bs'" out] Suc.prems bs
    by (simp add: x_def y_def hex_text_def sum_list_triv length_concat comp_def)
  have ih: "hexbuf_loop digest upper n (i + 1) (j + 2) (overlay out j [x, y])
      = Some (overlay (overlay out j [x, y]) (j + 2) (hex_text upper bs'))"
    using Suc.prems bs b(2) by (intro Suc.IH) auto
  have xy: "hex_char upper (unat (drop_bit 4 b AND 0xf)) = x" "hex_char upper (unat (b AND 0xf)) = y"
    unfolding high_nibble [of b] low_nibble [of b] by (simp_all add: x_def y_def)
  show ?case using b(1) ih o1 o2 xy Suc.prems(3) by (simp add: mem_write_overlay)
qed (simp add: hex_text_def)

lemma hexstr_loop_text:
  assumes "drop (2 * i) s = hex_text upper bs @ rest" and "n = length bs" and "i + n \<le> length out"
  shows "hexstr_loop s n i out = Some (overlay out i bs)"
  using assms
proof (induction n arbitrary: i out bs)
  case (Suc n)
  then obtain b bs' where bs: "bs = b # bs'" by (cases bs) auto
  define x y where "x = hex_char upper (unat b div 16)" and "y = hex_char upper (unat b mod 16)"
  have d: "drop (2 * i) s = x # y # hex_text upper bs' @ rest"
    using Suc.prems(1) bs by (simp add: hex_text_def x_def y_def)
  have d1: "drop (2 * i + 1) s = y # hex_text upper bs' @ rest" using d by (metis Suc_eq_plus1 drop_Suc list.sel(3) tl_drop)
  have d2: "drop (2 * (i + 1)) s = hex_text upper bs' @ rest" using d1 by (metis Suc_eq_plus1 add.assoc add_2_eq_Suc' drop_Suc list.sel(3) mult_2 one_add_one tl_drop distrib_left mult.right_neutral)
  have r: "mem_read s (2 * i) = Some x" "mem_read s (2 * i + 1) = Some y"
    using d d1 by (metis drop_eq_Nil2 list.distinct(1) mem_read_def not_le nth_via_drop)+
  have lt: "unat b div 16 < 16" "unat b mod 16 < 16" using byte_lt [of b] by auto
  have "push_bit 4 (hexval_of_char x) OR hexval_of_char y = push_bit 4 (hexval_of_char x) + hexval_of_char y"
    by (rule or_low) (simp add: y_def hexval_hex_char)
  also have "\<dots> = b"
    using lt by (simp add: x_def y_def word_unat_eq_iff unat_word_ariths push_bit_eq_mult hexval_hex_char)
  finally have v: "push_bit 4 (hexval_of_char x) OR hexval_of_char y = b" .
  have o1: "overlay (overlay out i [b]) (i + 1) bs' = overlay out i bs"
    using overlay_overlay [of i "[b]" bs' out] Suc.prems bs by simp
  have ih: "hexstr_loop s n (i + 1) (overlay out i [b]) = Some (overlay (overlay out i [b]) (i + 1) bs')"
    using Suc.prems bs d2 by (intro Suc.IH) auto
  show ?case using r v ih o1 Suc.prems(3) by (simp add: mem_write_overlay)
qed simp

section \<open>Properties\<close>

lemma length_hex_text: "length (hex_text upper bs) = 2 * length bs"
  by (induction bs) (auto simp: hex_text_def)

lemma hexstr_loop_over: "length s < 2 * i + 2 * n \<Longrightarrow> n > 0 \<Longrightarrow> hexstr_loop s n i out = None"
proof (induction n arbitrary: i out)
  case (Suc n)
  show ?case
  proof (cases "n = 0")
    case True
    then show ?thesis using Suc.prems by (simp add: mem_read_def)
  next
    case False
    then have "hexstr_loop s n (i + 1) out' = None" for out' using Suc.prems by (intro Suc.IH) auto
    then show ?thesis by (auto simp: mem_read_def mem_write_def)
  qed
qed simp

text \<open>\<open>LITE_hexstr_convert\<close> takes the number of bytes to produce: called with the length of the digest
  (when it is even) it inverts \<open>LITE_hexbuf_convert\<close>. Called with the length of the text, as its
  message for an odd length says, it reads behind the string: it is undefined for the text of any
  non-empty digest in a block of its own size.\<close>

theorem hex_convert_roundtrip:
  assumes "length out = 2 * length digest" and "length buf = length digest" and "even (length digest)"
  shows "\<exists>t. LITE_hexbuf_convert digest out (length digest) upper = Some t
    \<and> LITE_hexstr_convert t buf (length digest) = Some digest
    \<and> (digest \<noteq> [] \<longrightarrow> LITE_hexstr_convert (t @ [0]) (replicate (2 * length digest) 0) (2 * length digest) = None)"
proof (intro exI conjI impI)
  let ?t = "hex_text upper digest"
  show "LITE_hexbuf_convert digest out (length digest) upper = Some ?t"
    using hexbuf_loop_text [of 0 digest digest "length digest" 0 out upper] assms(1)
    by (simp add: LITE_hexbuf_convert_def overlay_def length_hex_text)
  show "LITE_hexstr_convert ?t buf (length digest) = Some digest"
    using hexstr_loop_text [of 0 ?t upper digest "[]" "length digest" buf] assms(2,3)
    by (simp add: LITE_hexstr_convert_def overlay_def)
  assume ne: "digest \<noteq> []"
  show "LITE_hexstr_convert (?t @ [0]) (replicate (2 * length digest) 0) (2 * length digest) = None"
    using ne hexstr_loop_over [of "?t @ [0]" 0 "2 * length digest"]
    by (cases digest) (simp_all add: LITE_hexstr_convert_def length_hex_text)
qed

theorem hex_convert_roundtrip_witness:
  "\<exists>t. LITE_hexbuf_convert [0x1f, 0xa0] (replicate 4 0) 2 False = Some t \<and> LITE_hexstr_convert t [0, 0] 2 = Some [0x1f, 0xa0]"
  using hex_convert_roundtrip [of "replicate 4 0" "[0x1f, 0xa0]" "[0, 0]" False] by (auto simp: numeral_2_eq_2)

end
