(* ===== verification/Json_Token.thy ===== *)
theory Json_Token
  imports Json_Spec String_Utils
begin

text \<open>
  \<^verbatim>\<open>json_token.c\<close>: the value at a path of keys as a fresh string, the keys of a document, and the
  conversions of a value's text. A document is a block and a pointer into it, as in \<open>Json_Parser\<close>;
  allocations are the platform's, and one whose result is used unchecked is undefined when it fails.
\<close>

section \<open>The value at a path\<close>

abbreviation (input) DOT :: u8 where "DOT \<equiv> 0x2e"

text \<open>The loop over the keys before the last: the pointer it ends with and the last key, or null.\<close>

function value_of_loop :: "'w hal \<Rightarrow> buffer \<Rightarrow> nat \<Rightarrow> cstring \<Rightarrow> 'w \<Rightarrow> ((nat \<times> cstring) option \<times> 'w) option" where
  "value_of_loop E s src_iter key_iter w =
     (if DOT \<in> set key_iter then do {
        w \<leftarrow> alloc E w;
        n \<leftarrow> strlen_at s src_iter;
        (v, _) \<leftarrow> json_get_value_by_name s src_iter n (takeWhile (\<lambda>b. b \<noteq> DOT) key_iter) False;
        case v of None \<Rightarrow> Some (None, w)
        | Some v \<Rightarrow> value_of_loop E s v (tl (dropWhile (\<lambda>b. b \<noteq> DOT) key_iter)) w }
      else Some (Some (src_iter, key_iter), w))"
  by pat_completeness auto
termination
proof (relation "measure (\<lambda>(E, s, p, key, w). length key)", goal_cases)
  case (2 E s src_iter key_iter w)
  then have "dropWhile (\<lambda>b. b \<noteq> DOT) key_iter \<noteq> []" by auto
  then show ?case using length_dropWhile_le [of "\<lambda>b. b \<noteq> DOT" key_iter]
    by (cases "dropWhile (\<lambda>b. b \<noteq> DOT) key_iter") auto
qed simp

declare value_of_loop.simps [simp del]

definition LITE_json_value_of :: "'w hal \<Rightarrow> cstring \<Rightarrow> buffer \<Rightarrow> nat \<Rightarrow> 'w \<Rightarrow> (cstring option \<times> 'w) option" where
  "LITE_json_value_of E key s src w = do {
     (r, w) \<leftarrow> value_of_loop E s src key w;
     case r of None \<Rightarrow> Some (None, w)
     | Some (src_iter, key_iter) \<Rightarrow> do {
         n \<leftarrow> strlen_at s src_iter;
         (v, value_len, _) \<leftarrow> json_get_value_by_name s src_iter n key_iter False;
         case v of None \<Rightarrow> Some (None, w)
         | Some v \<Rightarrow>
             let (ok, w) = hal_malloc E w in
             if \<not> ok then Some (None, w)
             else do {
               n \<leftarrow> strlen_at s v;
               Some (Some (take value_len (take n (drop v s))), w) } } }"

text \<open>
  \<open>_strip_transfer\<close> takes out each backslash and keeps the byte behind it, whatever it is. A
  backslash at the end of the string makes it step over the terminating zero.
\<close>

fun strip_transfer :: "cstring \<Rightarrow> cstring option" where
  "strip_transfer [] = Some []"
| "strip_transfer [b] = (if b = BACKSLASH then None else Some [b])"
| "strip_transfer (b # c # bs) =
     (if b = BACKSLASH then map_option ((#) c) (strip_transfer bs)
      else map_option ((#) b) (strip_transfer (c # bs)))"

definition LITE_json_string_value_strip_transfer :: "'w hal \<Rightarrow> cstring \<Rightarrow> buffer \<Rightarrow> nat \<Rightarrow> 'w \<Rightarrow> (cstring option \<times> 'w) option" where
  "LITE_json_string_value_strip_transfer E key s src w = do {
     (str, w) \<leftarrow> LITE_json_value_of E key s src w;
     case str of None \<Rightarrow> Some (None, w)
     | Some t \<Rightarrow> do { t \<leftarrow> strip_transfer t; Some (Some t, w) } }"

section \<open>The keys of a document\<close>

text \<open>
  One loop for the recursion: the members from \<open>pos\<close> of the block \<open>s\<close>; an object's own members come
  right behind its key. The list holds the texts of \<open>LITE_format_string\<close>, null for one it refuses; the
  text of a nested object is cut to 511 bytes before it is looked at.
\<close>

partial_function (option) keys_loop :: "'w hal \<Rightarrow> buffer \<Rightarrow> nat option \<Rightarrow> cstring \<Rightarrow> cstring option list \<Rightarrow> 'w
    \<Rightarrow> (cstring option list \<times> 'w) option" where
  "keys_loop E s pos prefix keys w =
     (case pos of None \<Rightarrow> Some (keys, w)
      | Some p \<Rightarrow> do {
          b \<leftarrow> mem_read s p;
          if b = 0 then Some (keys, w)
          else do {
            (kv, next) \<leftarrow> json_get_next_object JSOBJECT s p;
            case next of None \<Rightarrow> Some (keys, w)
            | Some q \<Rightarrow> (case kv of None \<Rightarrow> Some (keys, w)
              | Some kv \<Rightarrow>
                if kv_klen kv \<noteq> 0 \<and> kv_vlen kv \<noteq> 0 then do {
                  w \<leftarrow> alloc E w;
                  k \<leftarrow> mem_slice s (kv_key kv) (kv_klen kv);
                  (entry, w) \<leftarrow> LITE_format_string E (prefix @ k) w;
                  (keys, w) \<leftarrow> (if kv_vtype kv = JSOBJECT then do {
                      v \<leftarrow> kv_val kv;
                      t \<leftarrow> mem_slice s v (kv_vlen kv);
                      (iter_val, w) \<leftarrow> LITE_format_string E t w;
                      (iter_pre, w) \<leftarrow> LITE_format_string E (prefix @ k @ [DOT]) w;
                      (case (iter_val, iter_pre) of
                        (Some iv, Some ip) \<Rightarrow> do {
                          pos' \<leftarrow> json_get_object JSOBJECT (iv @ [0]) 0;
                          keys_loop E (iv @ [0]) pos' ip (keys @ [entry]) w }
                      | _ \<Rightarrow> Some (keys @ [entry], w)) }
                    else Some (keys @ [entry], w));
                  keys_loop E s (Some q) prefix keys w }
                else keys_loop E s (Some q) prefix keys w) } })"

text \<open>The top call: a list of the keys, closed by an entry without a key.\<close>

definition LITE_json_keys_of :: "'w hal \<Rightarrow> buffer \<Rightarrow> 'w \<Rightarrow> (cstring option list \<times> 'w) option" where
  "LITE_json_keys_of E s w = do {
     pos \<leftarrow> json_get_object JSOBJECT s 0;
     (keys, w) \<leftarrow> keys_loop E s pos [] [] w;
     w \<leftarrow> alloc E w;
     Some (keys @ [None], w) }"

section \<open>Conversions\<close>

text \<open>The value, or the error code when there is no number; undefined when it does not fit the type.\<close>

definition int_result :: "int option option \<Rightarrow> (int + int) option" where
  "int_result r = map_option (\<lambda>x. case x of None \<Rightarrow> Inl QCLOUD_ERR_FAILURE | Some i \<Rightarrow> Inr i) r"

definition LITE_get_int32 :: "cstring \<Rightarrow> (int + int) option" where "LITE_get_int32 src = int_result (sscanf_i 32 src)"
definition LITE_get_int16 :: "cstring \<Rightarrow> (int + int) option" where "LITE_get_int16 src = int_result (sscanf_i 16 src)"
definition LITE_get_int8 :: "cstring \<Rightarrow> (int + int) option" where "LITE_get_int8 src = int_result (sscanf_i 8 src)"
definition LITE_get_uint32 :: "cstring \<Rightarrow> (int + int) option" where
  "LITE_get_uint32 src = int_result (map_option (map_option int) (sscanf_u 32 src))"
definition LITE_get_uint16 :: "cstring \<Rightarrow> (int + int) option" where
  "LITE_get_uint16 src = int_result (map_option (map_option int) (sscanf_u 16 src))"
definition LITE_get_uint8 :: "cstring \<Rightarrow> (int + int) option" where
  "LITE_get_uint8 src = int_result (map_option (map_option int) (sscanf_u 8 src))"

text \<open>The library's conversion of \<open>%f\<close> and \<open>%lf\<close> to the bits of the number is an argument.\<close>

definition LITE_get_float :: "(cstring \<Rightarrow> nat option) \<Rightarrow> cstring \<Rightarrow> int + nat" where
  "LITE_get_float sf src = (case sf src of None \<Rightarrow> Inl QCLOUD_ERR_FAILURE | Some x \<Rightarrow> Inr x)"
definition LITE_get_double :: "(cstring \<Rightarrow> nat option) \<Rightarrow> cstring \<Rightarrow> int + nat" where
  "LITE_get_double sd src = (case sd src of None \<Rightarrow> Inl QCLOUD_ERR_FAILURE | Some x \<Rightarrow> Inr x)"

definition LITE_get_boolean :: "cstring \<Rightarrow> bool" where
  "LITE_get_boolean src = (src \<noteq> [0x66, 0x61, 0x6c, 0x73, 0x65])"

section \<open>Paths\<close>

primrec jpath :: "cstring list \<Rightarrow> jval \<Rightarrow> jval option" where
  "jpath [] v = Some v"
| "jpath (k # ks) v = Option.bind (jget k v) (jpath ks)"

fun dotted :: "cstring list \<Rightarrow> cstring" where
  "dotted [] = []"
| "dotted [k] = k"
| "dotted (k # l # ks) = k @ DOT # dotted (l # ks)"

lemma dotted_split:
  "DOT \<notin> set k \<Longrightarrow> takeWhile (\<lambda>b. b \<noteq> DOT) (k @ DOT # r) = k \<and> dropWhile (\<lambda>b. b \<noteq> DOT) (k @ DOT # r) = DOT # r"
  by (induction k) auto

lemma jget_jwf: "jwf v \<Longrightarrow> jget k v = Some v' \<Longrightarrow> jwf v'"
  by (fastforce simp: jget_def visible_def split: jval.splits dest!: map_of_SomeD)

lemma jinner_nonzero: "jwf v \<Longrightarrow> 0 \<notin> set (jinner v)"
  using balanced_nonzero [OF balanced_jtext, of v] by (cases v) (auto simp: plain_char_def)

lemma alloc_ok: "fst (hal_malloc E w) \<Longrightarrow> alloc E w = Some (snd (hal_malloc E w))"
  by (cases "hal_malloc E w") (simp add: alloc_def)

lemma by_name_value:
  assumes "jwf v" and "drop p s = jtext v @ rest" and "0 \<in> set rest" and "jget k v = Some v'"
  shows "\<exists>n off tl. strlen_at s p = Some n
    \<and> json_get_value_by_name s p n k False = Some (Some off, length (jinner v'), jtype v', s)
    \<and> drop off s = jinner v' @ tl \<and> 0 \<in> set tl"
proof -
  obtain ms where v: "v = JObj ms" using assms(4) by (auto simp: jget_def split: jval.splits)
  obtain n where n: "strlen_at s p = Some n"
    using strlen_Some [of "drop p s"] assms(2,3) by (auto simp: strlen_at_def)
  show ?thesis
    using by_name_found [of ms p s rest n k v' False] assms n v by (auto simp del: jtext.simps jwf.simps)
qed

lemma value_of_loop_path:
  assumes "\<forall>w. fst (hal_malloc E w)" and "\<forall>k \<in> set (ks @ [k]). DOT \<notin> set k"
    and "jwf v" and "drop p s = jtext v @ rest" and "0 \<in> set rest"
    and "jpath ks v = Some v'" and "jget k v' = Some v''"
  shows "\<exists>q w' rest'. value_of_loop E s p (dotted (ks @ [k])) w = Some (Some (q, k), w')
    \<and> drop q s = jtext v' @ rest' \<and> 0 \<in> set rest' \<and> jwf v'"
  using assms(2-)
proof (induction ks arbitrary: v p rest w)
  case Nil
  then show ?case by (subst value_of_loop.simps) auto
next
  case (Cons l ks)
  obtain u where u: "jget l v = Some u" "jpath ks u = Some v'" using Cons.prems(5) by (auto split: bind_splits)
  have obj: "jinner u = jtext u"
    using u(2) Cons.prems(6) by (cases ks; cases u) (auto simp: jget_def split: jval.splits)
  obtain n off tl where n: "strlen_at s p = Some n"
    "json_get_value_by_name s p n l False = Some (Some off, length (jinner u), jtype u, s)"
    "drop off s = jtext u @ tl" "0 \<in> set tl"
    using by_name_value [OF Cons.prems(2-4) u(1)] obj by auto
  have d: "dotted ((l # ks) @ [k]) = l @ DOT # dotted (ks @ [k])" by (cases ks) auto
  have step: "value_of_loop E s p (dotted ((l # ks) @ [k])) w = value_of_loop E s off (dotted (ks @ [k])) (snd (hal_malloc E w))"
    unfolding d using n dotted_split [of l "dotted (ks @ [k])"] Cons.prems(1) assms(1)
    by (subst value_of_loop.simps) (simp add: alloc_ok)
  show ?case unfolding step
    using Cons.IH [OF _ jget_jwf [OF Cons.prems(2) u(1)] n(3,4) u(2) Cons.prems(6)] Cons.prems(1) by simp
qed

lemma value_of_path:
  assumes "\<forall>w. fst (hal_malloc E w)" and "\<forall>k \<in> set (ks @ [k]). DOT \<notin> set k"
    and "jwf v" and "drop p s = jtext v @ rest" and "0 \<in> set rest"
    and "jpath (ks @ [k]) v = Some x"
  shows "\<exists>w'. LITE_json_value_of E (dotted (ks @ [k])) s p w = Some (Some (jinner x), w')"
proof -
  have "jpath (ks @ [k]) v = Option.bind (jpath ks v) (jget k)"
    by (induction ks arbitrary: v) (auto split: bind_splits)
  then obtain v' where v': "jpath ks v = Some v'" "jget k v' = Some x" using assms(6) by (auto split: bind_splits)
  obtain q w' rest' where q: "value_of_loop E s p (dotted (ks @ [k])) w = Some (Some (q, k), w')"
    "drop q s = jtext v' @ rest'" "0 \<in> set rest'" "jwf v'"
    using value_of_loop_path [OF assms(1-5) v'] by blast
  obtain n off tl where n: "strlen_at s q = Some n"
    "json_get_value_by_name s q n k False = Some (Some off, length (jinner x), jtype x, s)"
    "drop off s = jinner x @ tl" "0 \<in> set tl"
    using by_name_value [OF q(4,2,3) v'(2)] by auto
  have z: "0 \<notin> set (jinner x)" using jinner_nonzero jget_jwf [OF q(4) v'(2)] by blast
  obtain m where m: "strlen tl = Some m" using strlen_Some n(4) by blast
  have "strlen_at s off = Some (length (jinner x) + m)" using n(3) z m by (simp add: strlen_at_def strlen_skip)
  then show ?thesis using q(1) n assms(1)
    by (cases "hal_malloc E w'") (auto simp: LITE_json_value_of_def Let_def dest: spec [of _ w'])
qed

end
