(* ===== verification/Json_Safety.thy ===== *)
theory Json_Safety
  imports Json_Token
begin

text \<open>
  What the scanner does on arbitrary text: it stays inside the string and ends, unless the string
  ends in a quotation mark. \<open>text_until s p n\<close>: from \<open>p\<close> the block has text without a zero byte up to
  the zero at \<open>n\<close>, and the byte before that is not a quotation mark.
\<close>

section \<open>Bounds\<close>

definition text_until :: "buffer \<Rightarrow> nat \<Rightarrow> nat \<Rightarrow> bool" where
  "text_until s p n \<longleftrightarrow> p \<le> n \<and> (\<exists>xs z. drop p s = xs @ 0 # z \<and> length xs = n - p \<and> 0 \<notin> set xs
     \<and> (xs = [] \<or> List.last xs \<noteq> QUOTE))"

lemma text_until_later:
  assumes "text_until s p n" and "p \<le> q" and "q \<le> n"
  shows "text_until s q n"
proof -
  obtain xs z where x: "drop p s = xs @ 0 # z" "length xs = n - p" "0 \<notin> set xs" "xs = [] \<or> List.last xs \<noteq> QUOTE"
    using assms(1) by (auto simp: text_until_def)
  have "drop q s = drop (q - p) xs @ 0 # z"
  proof -
    have "drop q s = drop (q - p) (drop p s)" using assms(2) by simp
    then show ?thesis using x(1,2) assms(3) by simp
  qed
  moreover have "0 \<notin> set (drop (q - p) xs)" using x(3) by (meson in_set_dropD)
  moreover have "drop (q - p) xs = [] \<or> List.last (drop (q - p) xs) \<noteq> QUOTE"
    using x(4) last_drop [of "q - p" xs] by (cases "q - p < length xs") auto
  ultimately show ?thesis using x(2) assms(2,3) unfolding text_until_def by auto
qed

lemma strchr_bound:
  "0 \<notin> set xs \<Longrightarrow> c \<noteq> 0 \<Longrightarrow> \<exists>r. strchr_from c (xs @ 0 # z) p = Some r \<and> (\<forall>q. r = Some q \<longrightarrow> p \<le> q \<and> q < p + length xs)"
  by (induction xs arbitrary: p) (auto, force+)

lemma strchr_at_bound:
  assumes "text_until s p n" and "c \<noteq> 0"
  shows "\<exists>r. strchr_at s p c = Some r \<and> (\<forall>q. r = Some q \<longrightarrow> p \<le> q \<and> q < n)"
  using assms strchr_bound [of _ c] by (fastforce simp: text_until_def strchr_at_def)

lemma strncmp_defined: "0 \<in> set s \<Longrightarrow> 0 \<notin> set t \<Longrightarrow> \<exists>b. strncmp_eq s t = Some b"
  by (induction t arbitrary: s) (auto split: list.split)

lemma word_at_bound:
  assumes "0 \<notin> set xs" and "0 \<notin> set small" and "0 \<notin> set large"
  shows "\<exists>b. word_at (xs @ 0 # z) small large = Some b \<and> (b \<longrightarrow> length small \<le> length xs)"
proof -
  have "strlen (xs @ 0 # z) = Some (length xs)" using assms(1) by (simp add: strlen_skip)
  moreover obtain b where "strncmp_eq (xs @ 0 # z) small = Some b" using strncmp_defined [of "xs @ 0 # z" small] assms(2) by auto
  moreover obtain c where "strncmp_eq (xs @ 0 # z) large = Some c" using strncmp_defined [of "xs @ 0 # z" large] assms(3) by auto
  moreover obtain b0 bs where "xs @ 0 # z = b0 # bs" by (cases xs) auto
  ultimately have "word_at (xs @ 0 # z) small large
      = Some ((b0 = hd small \<or> b0 = hd large) \<and> length small \<le> length xs \<and> (b \<or> c))"
    by (simp add: word_at_def)
  then show ?thesis by blast
qed

lemma value_word_bound:
  assumes "0 \<notin> set xs"
  shows "\<exists>w. value_word type (xs @ 0 # z) = Some w \<and> (\<forall>n. w = Some n \<longrightarrow> n \<le> length xs)"
proof -
  note wb = word_at_bound [OF assms]
  obtain t where t: "word_at (xs @ 0 # z) [0x74, 0x72, 0x75, 0x65] [0x54, 0x52, 0x55, 0x45] = Some t" "t \<longrightarrow> 4 \<le> length xs"
    using wb [of "[0x74, 0x72, 0x75, 0x65]" "[0x54, 0x52, 0x55, 0x45]" z] by auto
  obtain f where f: "word_at (xs @ 0 # z) [0x66, 0x61, 0x6c, 0x73, 0x65] [0x46, 0x41, 0x4c, 0x53, 0x45] = Some f" "f \<longrightarrow> 5 \<le> length xs"
    using wb [of "[0x66, 0x61, 0x6c, 0x73, 0x65]" "[0x46, 0x41, 0x4c, 0x53, 0x45]" z] by auto
  obtain u where u: "word_at (xs @ 0 # z) [0x6e, 0x75, 0x6c, 0x6c] [0x4e, 0x55, 0x4c, 0x4c] = Some u" "u \<longrightarrow> 4 \<le> length xs"
    using wb [of "[0x6e, 0x75, 0x6c, 0x6c]" "[0x4e, 0x55, 0x4c, 0x4c]" z] by auto
  show ?thesis using t f u by (auto simp: value_word_def)
qed

definition str_quote :: "JSONTYPE \<Rightarrow> nat" where
  "str_quote type = (if type = JSSTRING then 1 else 0)"

lemma end_from_bound:
  assumes "0 \<notin> set xs" and "p + length xs = n" and "v \<le> p" and "v + len + str_quote type \<le> n" and "text_until s v n"
  shows "\<exists>r. end_from s type v (xs @ 0 # z) p d l len = Some r \<and> v + r + str_quote type \<le> n"
  using assms
proof (induction xs arbitrary: p d l len)
  case (Cons b xs)
  obtain ys z' where y: "drop v s = ys @ 0 # z'" "0 \<notin> set ys" "length ys = n - v"
    using Cons.prems(5) by (auto simp: text_until_def)
  obtain w where w: "value_word type (drop v s) = Some w" "\<forall>m. w = Some m \<longrightarrow> v + m \<le> n"
  proof -
    obtain w where "value_word type (ys @ 0 # z') = Some w" "\<forall>m. w = Some m \<longrightarrow> m \<le> length ys"
      using value_word_bound [OF y(2), of type z'] by blast
    moreover have "v \<le> n" using Cons.prems(2,3) by simp
    ultimately show thesis using y by (intro that [of w]) (auto dest: spec)
  qed
  have ih: "\<exists>r. end_from s type v (xs @ 0 # z) (p + 1) d' l' len' = Some r \<and> v + r + str_quote type \<le> n"
    if "v + len' + str_quote type \<le> n" for d' l' len'
    using Cons.IH [of "p + 1" len' d' l'] Cons.prems that by simp
  have bs: "(case xs @ 0 # z of [] \<Rightarrow> None | b' # _ \<Rightarrow> F b') = F (hd (xs @ 0 # z))" for F :: "u8 \<Rightarrow> nat option"
    by (cases xs) auto
  show ?case
  proof (cases "type = JSBOOLEAN \<or> type = JSNULL")
    case True
    then show ?thesis using w ih [OF Cons.prems(4)] Cons.prems(1) by (auto simp: str_quote_def split: option.split)
  next
    case False
    have "v + (p - v) + 1 \<le> n" using Cons.prems(2,3) by simp
    then show ?thesis using False ih [OF Cons.prems(4)] ih [of "p - v"] Cons.prems(1,3) bs
      by (auto simp: str_quote_def Let_def)
  qed
qed simp

lemma value_from_bound:
  assumes "0 \<notin> set xs" and "xs = [] \<or> List.last xs \<noteq> QUOTE"
  shows "\<exists>type val q l. value_from (xs @ 0 # z) p = Some (type, val, q, l)
    \<and> (\<forall>v. val = Some v \<longrightarrow> p \<le> v \<and> v \<le> q \<and> q \<le> p + length xs \<and> v + str_quote type \<le> p + length xs)"
  using assms
proof (induction xs arbitrary: p)
  case (Cons b xs)
  have ih: "\<exists>type val q l. value_from (xs @ 0 # z) (Suc p) = Some (type, val, q, l)
    \<and> (\<forall>v. val = Some v \<longrightarrow> Suc p \<le> v \<and> v \<le> q \<and> q \<le> Suc p + length xs \<and> v + str_quote type \<le> Suc p + length xs)"
    using Cons.IH [of "Suc p"] Cons.prems by (cases "xs = []") auto
  have q: "b = QUOTE \<longrightarrow> xs \<noteq> []" using Cons.prems(2) by auto
  show ?case
  proof (cases "value_from ((b # xs) @ 0 # z) p = value_from (xs @ 0 # z) (p + 1)")
    case True
    obtain type val q l where "value_from (xs @ 0 # z) (Suc p) = Some (type, val, q, l)"
      "\<forall>v. val = Some v \<longrightarrow> Suc p \<le> v \<and> v \<le> q \<and> q \<le> Suc p + length xs \<and> v + str_quote type \<le> Suc p + length xs"
      using ih by blast
    then show ?thesis unfolding True by auto
  next
    case False
    then show ?thesis using q Cons.prems(1) by (auto simp: str_quote_def Suc_le_eq split: if_splits)
  qed
qed simp

section \<open>Members\<close>

lemma text_split:
  assumes "text_until s p n"
  obtains xs z where "drop p s = xs @ 0 # z" "p + length xs = n" "0 \<notin> set xs" "xs = [] \<or> List.last xs \<noteq> QUOTE"
  using assms by (auto simp: text_until_def)

lemma json_value_at_bound:
  assumes "text_until s p n"
  shows "\<exists>kv r. json_value_at s p key = Some (Some kv, r) \<and> kv_key kv = fst key \<and> kv_klen kv = snd key
    \<and> (\<forall>v. kv_val kv = Some v \<longrightarrow> p \<le> v \<and> v \<le> n) \<and> (\<forall>q. r = Some q \<longrightarrow> p \<le> q \<and> q \<le> n \<and> kv_val kv \<noteq> None)"
proof -
  obtain xs z where x: "drop p s = xs @ 0 # z" "p + length xs = n" "0 \<notin> set xs" "xs = [] \<or> List.last xs \<noteq> QUOTE"
    using text_split [OF assms] .
  obtain type val q l where v: "value_from (drop p s) p = Some (type, val, q, l)"
    "\<forall>v. val = Some v \<longrightarrow> p \<le> v \<and> v \<le> q \<and> q \<le> n \<and> v + str_quote type \<le> n"
    using value_from_bound [OF x(3,4), of z p] x(1,2) by auto
  show ?thesis
  proof (cases val)
    case None
    then show ?thesis using v by (simp add: json_value_at_def)
  next
    case (Some w)
    then have w: "p \<le> w" "w \<le> q" "q \<le> n" "w + str_quote type \<le> n" using v(2) by auto
    have tw: "text_until s w n" and tq: "text_until s q n" using text_until_later [OF assms] w by auto
    obtain ys z' where y: "drop q s = ys @ 0 # z'" "q + length ys = n" "0 \<notin> set ys" using text_split [OF tq] by metis
    obtain r where "end_from s type w (drop q s) q 0 l 0 = Some r" "w + r + str_quote type \<le> n"
      using end_from_bound [OF y(3,2) w(2), of 0 type s z' 0 l] w(4) tw y(1) by auto
    then show ?thesis using v(1) Some w(1,4) by (auto simp: json_value_at_def str_quote_def)
  qed
qed

lemma next_object_bound:
  assumes "text_until s p n"
  shows "\<exists>kv r. json_get_next_object JSOBJECT s p = Some (kv, r)
    \<and> (\<forall>q. r = Some q \<longrightarrow> p < q \<and> q \<le> n \<and> (\<exists>k v. kv = Some k \<and> kv_key k + kv_klen k \<le> n \<and> p \<le> kv_key k \<and> kv_val k = Some v \<and> v \<le> n))"
proof -
  obtain r1 where r1: "strchr_at s p QUOTE = Some r1" "\<forall>q. r1 = Some q \<longrightarrow> p \<le> q \<and> q < n"
    using strchr_at_bound [OF assms, of QUOTE] by auto
  show ?thesis
  proof (cases r1)
    case None
    then show ?thesis using r1 by (simp add: json_get_next_object_def)
  next
    case (Some q)
    then have q: "p \<le> q" "q < n" using r1(2) by auto
    then have t1: "text_until s (q + 1) n" using text_until_later [OF assms] by auto
    obtain r2 where r2: "strchr_at s (q + 1) QUOTE = Some r2" "\<forall>q'. r2 = Some q' \<longrightarrow> q + 1 \<le> q' \<and> q' < n"
      using strchr_at_bound [OF t1, of QUOTE] by auto
    show ?thesis
    proof (cases r2)
      case None
      then show ?thesis using r1(1) r2(1) Some by (simp add: json_get_next_object_def)
    next
      case (Some q')
      then have q': "q + 1 \<le> q'" "q' < n" using r2(2) by auto
      then have t2: "text_until s q' n" using text_until_later [OF t1] by auto
      obtain r3 where r3: "strchr_at s q' COLON = Some r3" "\<forall>c. r3 = Some c \<longrightarrow> q' \<le> c \<and> c < n"
        using strchr_at_bound [OF t2, of COLON] by auto
      show ?thesis
      proof (cases r3)
        case None
        then show ?thesis using r1(1) r2(1) r3(1) \<open>r1 = Some q\<close> Some by (simp add: json_get_next_object_def)
      next
        case (Some c)
        then have c: "q' \<le> c" "c < n" using r3(2) by auto
        then have t3: "text_until s c n" using text_until_later [OF t2] by auto
        obtain kv r where kv: "json_value_at s c (q + 1, q' - (q + 1)) = Some (Some kv, r)" "kv_key kv = q + 1"
          "kv_klen kv = q' - (q + 1)" "\<forall>v. kv_val kv = Some v \<longrightarrow> c \<le> v \<and> v \<le> n"
          "\<forall>q. r = Some q \<longrightarrow> c \<le> q \<and> q \<le> n \<and> kv_val kv \<noteq> None"
          using json_value_at_bound [OF t3, of "(q + 1, q' - (q + 1))"] by auto
        have "json_get_next_object JSOBJECT s p = Some (Some kv, r)"
          using r1(1) r2(1) r3(1) \<open>r1 = Some q\<close> \<open>r2 = Some q'\<close> Some kv(1) by (simp add: json_get_next_object_def)
        moreover have "p < y \<and> y \<le> n \<and> (\<exists>v. kv_val kv = Some v \<and> v \<le> n)" if "r = Some y" for y
          using kv(4,5) that q q' c by auto
        moreover have "kv_key kv + kv_klen kv \<le> n" "p \<le> kv_key kv" using kv(2,3) q q' by auto
        ultimately show ?thesis by (intro exI [of _ "Some kv"] exI [of _ r]) auto
      qed
    qed
  qed
qed

lemma name_cb_bound:
  assumes "text_until s 0 n" and "kv_key kv + kv_klen kv \<le> n" and "0 \<notin> set (nv_name nv)"
  shows "\<exists>f. json_get_value_by_name_cb s kv nv
    = Some (if f then (True, nv\<lparr>nv_val := kv_val kv, nv_len := kv_vlen kv, nv_type := kv_vtype kv\<rparr>) else (False, nv))"
proof -
  have "text_until s (kv_key kv) n" using text_until_later [OF assms(1)] assms(2) by simp
  then obtain xs z where "drop (kv_key kv) s = xs @ 0 # z" using text_split by metis
  then obtain b where "strncmp_eq (drop (kv_key kv) s) (nv_name nv) = Some b"
    using strncmp_defined [of "drop (kv_key kv) s" "nv_name nv"] assms(3) by auto
  then show ?thesis by (auto simp: json_get_value_by_name_cb_def intro: exI [of _ False] exI [of _ b])
qed

lemma parse_loop_bound:
  assumes t: "text_until s 0 n" and "p \<le> n" and "0 \<notin> set (nv_name nv)" and "\<forall>v. nv_val nv = Some v \<longrightarrow> v \<le> n"
  shows "\<exists>r nv'. parse_loop s json_get_value_by_name_cb (Some p) ret nv = Some (r, nv') \<and> (\<forall>v. nv_val nv' = Some v \<longrightarrow> v \<le> n)"
  using assms(2)
proof (induction "n - p" arbitrary: p ret rule: less_induct)
  case less
  have tp: "text_until s p n" using text_until_later [OF t] less.prems by simp
  obtain b where b: "mem_read s p = Some b"
  proof -
    obtain xs z where "drop p s = xs @ 0 # z" using text_split [OF tp] by metis
    then show thesis using that drop_read [of p s] by (cases xs) auto
  qed
  obtain kv r where kv: "json_get_next_object JSOBJECT s p = Some (kv, r)"
    "\<forall>q. r = Some q \<longrightarrow> p < q \<and> q \<le> n \<and> (\<exists>k v. kv = Some k \<and> kv_key k + kv_klen k \<le> n \<and> p \<le> kv_key k \<and> kv_val k = Some v \<and> v \<le> n)"
    using next_object_bound [OF tp] by blast
  show ?case
  proof (cases "b = 0 \<or> r = None")
    case True
    then show ?thesis using b kv(1) assms(4) by (subst parse_loop.simps) auto
  next
    case False
    then obtain q k v where q: "r = Some q" "p < q" "q \<le> n" "kv = Some k" "kv_key k + kv_klen k \<le> n" "kv_val k = Some v" "v \<le> n"
      using kv(2) by auto
    have ih: "\<exists>r nv'. parse_loop s json_get_value_by_name_cb (Some q) ret' nv = Some (r, nv') \<and> (\<forall>v. nv_val nv' = Some v \<longrightarrow> v \<le> n)" for ret'
      using less.hyps [of q] q(2,3) by simp
    obtain f where f: "json_get_value_by_name_cb s k nv
        = Some (if f then (True, nv\<lparr>nv_val := kv_val k, nv_len := kv_vlen k, nv_type := kv_vtype k\<rparr>) else (False, nv))"
      using name_cb_bound [OF t q(5) assms(3)] by blast
    show ?thesis
      by (subst parse_loop.simps) (use b kv(1) q False f ih [of True] ih [of ret] in auto)
  qed
qed

lemma text_until_strlen: "text_until s p n \<Longrightarrow> strlen_at s p = Some (n - p)"
  by (auto simp: text_until_def strlen_at_def strlen_skip)

lemma by_name_bound:
  assumes t: "text_until s 0 n" and "p \<le> n" and "0 \<notin> set name"
  shows "\<exists>v len ty. json_get_value_by_name s p (n - p) name want = Some (v, len, ty, s) \<and> (\<forall>q. v = Some q \<longrightarrow> q \<le> n)"
proof -
  have tp: "text_until s p n" using text_until_later [OF t] assms(2) by simp
  obtain xs z where x: "drop p s = xs @ 0 # z" "p + length xs = n" "0 \<notin> set xs" using text_split [OF tp] by metis
  have "\<exists>r. get_object_from c (xs @ 0 # z) p = Some r \<and> (\<forall>q. r = Some q \<longrightarrow> q \<le> p + length xs)" for c
    using x(3)
  proof (induction xs arbitrary: p)
    case (Cons b xs)
    then show ?case using Cons.IH [of "Suc p"] by auto
  qed simp
  then obtain pos where pos: "json_get_object JSOBJECT s p = Some pos" "\<forall>q. pos = Some q \<longrightarrow> q \<le> n"
    using x by (auto simp: json_get_object_def)
  let ?nv = "\<lparr>nv_name = name, nv_val = None, nv_len = 0, nv_type = JSSTRING\<rparr>"
  obtain r nv' where "parse_loop s json_get_value_by_name_cb pos False ?nv = Some (r, nv')" "\<forall>v. nv_val nv' = Some v \<longrightarrow> v \<le> n"
  proof (cases pos)
    case None
    then show thesis using that [of False ?nv] by (simp add: parse_loop.simps)
  next
    case (Some q)
    then show thesis using that parse_loop_bound [OF t, of q ?nv False] pos(2) assms(3) by auto
  qed
  then show ?thesis using pos(1) text_until_strlen [OF tp]
    by (auto simp: json_get_value_by_name_def json_parse_name_value_def)
qed

lemma value_of_loop_bound:
  assumes "\<forall>w. fst (hal_malloc E w)" and "text_until s 0 n"
  shows "p \<le> n \<Longrightarrow> 0 \<notin> set key \<Longrightarrow> \<exists>r w'. value_of_loop E s p key w = Some (r, w')
    \<and> (\<forall>q k. r = Some (q, k) \<longrightarrow> q \<le> n \<and> 0 \<notin> set k)"
proof (induction "length key" arbitrary: p key w rule: less_induct)
  case less
  have tp: "text_until s p n" using text_until_later [OF assms(2)] less.prems by simp
  show ?case
  proof (cases "DOT \<in> set key")
    case False
    then show ?thesis using less.prems by (subst value_of_loop.simps) auto
  next
    case True
    let ?k = "takeWhile (\<lambda>b. b \<noteq> DOT) key" and ?r = "tl (dropWhile (\<lambda>b. b \<noteq> DOT) key)"
    have "0 \<notin> set ?k" using less.prems(2) by (meson set_takeWhileD)
    then obtain v len ty where v: "json_get_value_by_name s p (n - p) ?k False = Some (v, len, ty, s)"
      "\<forall>q. v = Some q \<longrightarrow> q \<le> n"
      using by_name_bound [OF assms(2) less.prems(1), of ?k False] by blast
    have r: "0 \<notin> set ?r" using less.prems(2) by (metis list.set_sel(2) set_dropWhileD tl_Nil)
    have "dropWhile (\<lambda>b. b \<noteq> DOT) key \<noteq> []" using True by auto
    then have shorter: "length ?r < length key"
      using length_dropWhile_le [of "\<lambda>b. b \<noteq> DOT" key] by (cases "dropWhile (\<lambda>b. b \<noteq> DOT) key") auto
    show ?thesis
    proof (cases v)
      case None
      then show ?thesis using True v(1) text_until_strlen [OF tp] assms(1)
        by (subst value_of_loop.simps) (simp add: alloc_ok)
    next
      case (Some q)
      have "\<exists>r' w'. value_of_loop E s q ?r (snd (hal_malloc E w)) = Some (r', w')
          \<and> (\<forall>q k. r' = Some (q, k) \<longrightarrow> q \<le> n \<and> 0 \<notin> set k)"
        using v(2) Some by (intro less.hyps [OF shorter _ r]) simp
      then show ?thesis using True v(1) Some text_until_strlen [OF tp] assms(1)
        by (subst value_of_loop.simps) (simp add: alloc_ok)
    qed
  qed
qed

lemma json_value_total:
  assumes "\<forall>w. fst (hal_malloc E w)" and "0 \<notin> set t" and "t = [] \<or> List.last t \<noteq> QUOTE" and "0 \<notin> set key"
  shows "\<exists>r w'. LITE_json_value_of E key (t @ 0 # z) 0 w = Some (r, w')"
proof -
  let ?s = "t @ 0 # z"
  have t: "text_until ?s 0 (length t)" unfolding text_until_def using assms(2,3) by auto
  obtain r w' where r: "value_of_loop E ?s 0 key w = Some (r, w')" "\<forall>q k. r = Some (q, k) \<longrightarrow> q \<le> length t \<and> 0 \<notin> set k"
    using value_of_loop_bound [OF assms(1) t, of 0 key w] assms(4) by auto
  show ?thesis
  proof (cases r)
    case None
    then show ?thesis using r(1) by (simp add: LITE_json_value_of_def)
  next
    case (Some qk)
    obtain q k where qk: "qk = (q, k)" by (cases qk)
    then have q: "q \<le> length t" "0 \<notin> set k" using r(2) Some by auto
    obtain v len ty where v: "json_get_value_by_name ?s q (length t - q) k False = Some (v, len, ty, ?s)"
      "\<forall>q. v = Some q \<longrightarrow> q \<le> length t"
      using by_name_bound [OF t q, of False] by blast
    have tq: "strlen_at ?s q = Some (length t - q)" using text_until_strlen text_until_later [OF t] q by blast
    have "\<forall>u. v = Some u \<longrightarrow> strlen_at ?s u = Some (length t - u)"
      using text_until_strlen text_until_later [OF t] v(2) by blast
    then show ?thesis using r(1) Some qk v(1) tq
      by (cases v) (auto simp: LITE_json_value_of_def Let_def split: prod.splits)
  qed
qed

section \<open>Properties\<close>



lemma json_overread: "LITE_json_value_of E [0x61] [0x7b, 0x22, 0x61, 0x22, 0x3a, 0x22, 0] 0 w = None"
  by (simp add: LITE_json_value_of_def value_of_loop.simps strlen_at_def json_get_value_by_name_def
      json_parse_name_value_def json_get_object_def parse_loop.simps json_get_next_object_def strchr_at_def
      json_value_at_def mem_read_def is_digit_def)

text \<open>A single key in the text of an object.\<close>

lemma member_value:
  assumes "\<forall>w. fst (hal_malloc E w)" and "jwf (JObj ms)" and "DOT \<notin> set k"
  shows "\<exists>w'. LITE_json_value_of E k (jtext (JObj ms) @ 0 # z) 0 w = Some (map_option jinner (jget k (JObj ms)), w')"
proof (cases "jget k (JObj ms)")
  case None
  let ?s = "jtext (JObj ms) @ 0 # z"
  have n: "strlen_at ?s 0 = Some (length (jtext (JObj ms)))"
    using balanced_nonzero [OF balanced_jtext [OF assms(2)]] by (simp add: strlen_at_def strlen_skip)
  show ?thesis using by_name_absent [OF assms(2) _ n None, of z False] n assms(3) None
    by (simp add: LITE_json_value_of_def value_of_loop.simps del: jtext.simps)
next
  case (Some x)
  then show ?thesis using value_of_path [OF assms(1) _ assms(2), of "[]" k 0 "jtext (JObj ms) @ 0 # z" "0 # z" x w] assms(3)
    by (simp del: jtext.simps)
qed

text \<open>C13: The value at a path of keys. On the text of an object, \<open>LITE_json_value_of\<close> with the keys joined by
  dots returns the text of the value that the abstract lookup finds (each step takes the first member
  with the key and a non-empty text, the text between the quotes for a string), and for a single key
  that is not there, the null pointer. A null value is returned as its text.\<close>

theorem json_value_of_correct:
  assumes "\<forall>w. fst (hal_malloc E w)" and "jwf (JObj ms)" and "\<forall>l \<in> set (ks @ [k]). DOT \<notin> set l"
  shows "(\<forall>x. jpath (ks @ [k]) (JObj ms) = Some x \<longrightarrow>
      (\<exists>w'. LITE_json_value_of E (dotted (ks @ [k])) (jtext (JObj ms) @ 0 # z) 0 w = Some (Some (jinner x), w')))
    \<and> (jget k (JObj ms) = None \<longrightarrow>
      LITE_json_value_of E k (jtext (JObj ms) @ 0 # z) 0 w = Some (None, w))"
proof (intro conjI allI impI)
  fix x
  assume "jpath (ks @ [k]) (JObj ms) = Some x"
  then show "\<exists>w'. LITE_json_value_of E (dotted (ks @ [k])) (jtext (JObj ms) @ 0 # z) 0 w = Some (Some (jinner x), w')"
    using assms by (intro value_of_path [where v = "JObj ms" and rest = "0 # z"]) auto
next
  assume a: "jget k (JObj ms) = None"
  let ?s = "jtext (JObj ms) @ 0 # z"
  have n: "strlen_at ?s 0 = Some (length (jtext (JObj ms)))"
    using balanced_nonzero [OF balanced_jtext [OF assms(2)]] by (simp add: strlen_at_def strlen_skip)
  show "LITE_json_value_of E k ?s 0 w = Some (None, w)"
    using by_name_absent [OF assms(2) _ n a, of z False] n assms(3)
    by (simp add: LITE_json_value_of_def value_of_loop.simps del: jtext.simps)
qed

text \<open>\<open>{"a":{"b":"x"}, "c": 12}\<close>\<close>

definition sample_members :: "(jkey \<times> jval) list" where
  "sample_members = [((0, [0x61], 0), JObj [((0, [0x62], 0), JStr [0x78])]), ((1, [0x63], 1), JNum [0x31, 0x32])]"

theorem json_value_of_correct_witness:
  "(\<exists>w'. LITE_json_value_of (clock_hal 1) [0x61, 0x2e, 0x62] (jtext (JObj sample_members) @ 0 # []) 0 0 = Some (Some [0x78], w'))
    \<and> LITE_json_value_of (clock_hal 1) [0x64] (jtext (JObj sample_members) @ 0 # []) 0 0 = Some (None, 0)"
proof -
  have wf: "jwf (JObj sample_members)" by (simp add: sample_members_def mkey_def plain_char_def number_text_def is_digit_def)
  have m: "\<forall>w. fst (hal_malloc (clock_hal 1) w)" by (simp add: clock_hal_def)
  have "jpath [[0x61], [0x62]] (JObj sample_members) = Some (JStr [0x78])" "jget [0x64] (JObj sample_members) = None"
    by (simp_all add: sample_members_def mkey_def jget_def visible_def)
  then show ?thesis
    using json_value_of_correct [OF m wf, of "[[0x61]]" "[0x62]" "[]" 0] json_value_of_correct [OF m wf, of "[]" "[0x64]" "[]" 0]
    by (simp del: jtext.simps)
qed

text \<open>A path that is not there is looked for behind the object: for \<open>a.b\<close>, the search for \<open>b\<close> starts at
  the value of \<open>a\<close> but does not stop at its end, so that a member \<open>b\<close> of the document that comes
  after \<open>a\<close> is returned.\<close>

theorem json_path_leaves_object:
  "jpath [[0x61], [0x62]] (JObj [((0, [0x61], 0), JObj [((0, [0x63], 0), JNum [0x31])]), ((0, [0x62], 0), JNum [0x32])]) = None
    \<and> LITE_json_value_of (clock_hal 1) [0x61, 0x2e, 0x62]
        (jtext (JObj [((0, [0x61], 0), JObj [((0, [0x63], 0), JNum [0x31])]), ((0, [0x62], 0), JNum [0x32])]) @ [0]) 0 0 = Some (Some [0x32], 0)"
  by (simp add: jget_def visible_def quoted_def mhead_def mkey_def LITE_json_value_of_def value_of_loop.simps strlen_at_def
      json_get_value_by_name_def json_parse_name_value_def json_get_object_def parse_loop.simps json_get_next_object_def
      strchr_at_def json_value_at_def mem_read_def is_digit_def json_get_value_by_name_cb_def alloc_def clock_hal_def
      Let_def)

text \<open>A document with a length shorter than its string is cut for good: the byte behind the given
  length is set to zero, and since the string then has that length, it is not restored.\<close>

theorem json_prefix_truncates:
  assumes "0 \<notin> set t" and "0 < n" and "n < length t"
    and "json_parse_name_value (t @ 0 # z) 0 n cb d = Some (ret, d', s')"
  shows "s' = take n t @ 0 # drop (n + 1) t @ 0 # z"
proof -
  let ?s = "(t @ 0 # z)[n := 0]"
  have s: "?s = take n t @ 0 # drop (n + 1) t @ 0 # z"
    using assms(3) by (simp add: upd_conv_take_nth_drop list_update_append)
  have "0 \<notin> set (take n t)" using assms(1) by (meson in_set_takeD)
  then have "strlen_at ?s 0 = Some n" unfolding s using assms(3) by (simp add: strlen_at_def strlen_skip)
  moreover have "strlen_at (t @ 0 # z) 0 = Some (length t)" using assms(1) by (simp add: strlen_at_def strlen_skip)
  ultimately have "s' = ?s" using assms(2-4)
    by (auto simp: json_parse_name_value_def mem_read_def mem_write_def split: bind_splits if_splits prod.splits)
  then show ?thesis using s by simp
qed

theorem json_prefix_truncates_witness:
  "[0x7b, 0, 0x7d, 0 :: u8] = take 1 [0x7b, 0x7d, 0x7d] @ 0 # drop (1 + 1) [0x7b, 0x7d, 0x7d] @ 0 # []"
  by (rule json_prefix_truncates [where cb = json_get_value_by_name_cb and ret = False
        and d = "\<lparr>nv_name = [], nv_val = None, nv_len = 0, nv_type = JSSTRING\<rparr>"
        and d' = "\<lparr>nv_name = [], nv_val = None, nv_len = 0, nv_type = JSSTRING\<rparr>"])
    (simp_all add: json_parse_name_value_def mem_read_def mem_write_def strlen_at_def json_get_object_def
      parse_loop.simps json_get_next_object_def strchr_at_def)

end
