(* ===== verification/Shadow_Json.thy ===== *)
theory Shadow_Json
  imports Json_Safety Device_Info
begin

text \<open>
  The JSON of the device shadow: \<^verbatim>\<open>shadow_client_json.c\<close> and the document builders of
  \<^verbatim>\<open>shadow_client.c\<close>.

  \<^item> a builder writes to a block that starts with a zero-terminated text; the size it is given need not
    be that of the block. Sizes are \<open>size_t\<close>: the difference of a size and a length wraps.
  \<^item> a property has the block its data pointer points to, which is read at the width of its type.
  \<^item> texts of the format strings are the bytes of the ASCII characters.
\<close>

section \<open>Constants\<close>

abbreviation (input) QCLOUD_ERR_JSON_BUFFER_TRUNCATED :: int where "QCLOUD_ERR_JSON_BUFFER_TRUNCATED \<equiv> -133"
abbreviation (input) QCLOUD_ERR_JSON_BUFFER_TOO_SMALL :: int where "QCLOUD_ERR_JSON_BUFFER_TOO_SMALL \<equiv> -134"
abbreviation (input) QCLOUD_ERR_JSON :: int where "QCLOUD_ERR_JSON \<equiv> -135"

datatype JsonDataType = JINT32 | JINT16 | JINT8 | JUINT32 | JUINT16 | JUINT8 | JFLOAT | JDOUBLE | JBOOL | JSTRING | JOBJECT

record DeviceProperty =
  prop_key :: "cstring option"
  prop_data :: "buffer option"
  prop_type :: JsonDataType

definition CLIENT_TOKEN_FIELD :: cstring where "CLIENT_TOKEN_FIELD = chars ''clientToken''"
definition RESULT_FIELD :: cstring where "RESULT_FIELD = chars ''result''"
definition TYPE_FIELD :: cstring where "TYPE_FIELD = chars ''type''"
definition OPERATION_DELTA :: cstring where "OPERATION_DELTA = chars ''delta''"
definition OPERATION_GET :: cstring where "OPERATION_GET = chars ''get''"
definition OPERATION_UPDATE :: cstring where "OPERATION_UPDATE = chars ''update''"
definition PAYLOAD_STATE :: cstring where "PAYLOAD_STATE = chars ''payload.state''"
definition PAYLOAD_VERSION :: cstring where "PAYLOAD_VERSION = chars ''payload.version''"
definition PAYLOAD_STATE_DELTA :: cstring where "PAYLOAD_STATE_DELTA = chars ''payload.state.delta''"
definition REPLY_CODE :: cstring where "REPLY_CODE = chars ''code''"
definition REPLY_STATUS :: cstring where "REPLY_STATUS = chars ''status''"

definition MAX_SIZE_OF_CLIENT_TOKEN :: nat where "MAX_SIZE_OF_CLIENT_TOKEN = MAX_SIZE_OF_CLIENT_ID + 10"
definition MAX_SIZE_OF_JSON_WITH_CLIENT_TOKEN :: nat where
  "MAX_SIZE_OF_JSON_WITH_CLIENT_TOKEN = MAX_SIZE_OF_CLIENT_TOKEN + 20"

section \<open>Appending to a document\<close>

text \<open>The code compares an \<open>int32_t\<close> with a \<open>size_t\<close>, as unsigned numbers.\<close>

definition check_snprintf_return :: "int \<Rightarrow> nat \<Rightarrow> int" where
  "check_snprintf_return returnCode maxSizeOfWrite =
     (if nat (returnCode mod 2 ^ 32) \<ge> maxSizeOfWrite then QCLOUD_ERR_JSON_BUFFER_TRUNCATED
      else if returnCode < 0 then QCLOUD_ERR_JSON
      else QCLOUD_RET_SUCCESS)"

definition size_minus :: "nat \<Rightarrow> nat \<Rightarrow> nat" where
  "size_minus a b = nat ((int a - int b) mod 2 ^ 32)"

text \<open>
  The step all builders are made of: the remaining size, an error when it is at most 1, else the text
  is printed \<open>back\<close> bytes before the end of the document, with the remaining size as the limit. The
  argument of the format is evaluated behind the check.
\<close>

definition json_append :: "nat \<Rightarrow> nat \<Rightarrow> cstring option \<Rightarrow> buffer \<Rightarrow> (int \<times> buffer) option" where
  "json_append sizeOfBuffer back fmt buf = do {
     n \<leftarrow> strlen buf;
     let remain_size = size_minus sizeOfBuffer n in
     if remain_size \<le> 1 then Some (QCLOUD_ERR_JSON_BUFFER_TOO_SMALL, buf)
     else if n < back then None
     else do {
       t \<leftarrow> fmt;
       (rc, buf) \<leftarrow> HAL_Snprintf buf (n - back) remain_size t;
       Some (check_snprintf_return rc remain_size, buf) } }"

text \<open>The next step of a builder is taken when the last one has succeeded.\<close>

definition and_then :: "(buffer \<Rightarrow> (int \<times> buffer) option) \<Rightarrow> (buffer \<Rightarrow> (int \<times> buffer) option) \<Rightarrow> buffer \<Rightarrow> (int \<times> buffer) option" where
  "and_then f g buf = do {
     (rc, buf) \<leftarrow> f buf;
     if rc \<noteq> QCLOUD_RET_SUCCESS then Some (rc, buf) else g buf }"

definition c_string :: "buffer \<Rightarrow> cstring option" where
  "c_string s = do { n \<leftarrow> strlen s; Some (take n s) }"

definition data_text :: "cstring \<Rightarrow> cstring \<Rightarrow> JsonDataType \<Rightarrow> buffer \<Rightarrow> cstring option" where
  "data_text true_text false_text type s = (case type of
     JINT32 \<Rightarrow> map_option (\<lambda>n. int_text (signed 32 n)) (load 4 s)
   | JINT16 \<Rightarrow> map_option (\<lambda>n. int_text (signed 16 n)) (load 2 s)
   | JINT8 \<Rightarrow> map_option (\<lambda>n. int_text (signed 8 n)) (load 1 s)
   | JUINT32 \<Rightarrow> map_option nat_text (load 4 s)
   | JUINT16 \<Rightarrow> map_option nat_text (load 2 s)
   | JUINT8 \<Rightarrow> map_option nat_text (load 1 s)
   | JDOUBLE \<Rightarrow> map_option (float_text 11 52) (load 8 s)
   | JFLOAT \<Rightarrow> map_option (float_text 8 23) (load 4 s)
   | JBOOL \<Rightarrow> map_option (\<lambda>n. if n \<noteq> 0 then true_text else false_text) (load 1 s)
   | JSTRING \<Rightarrow> map_option quoted (c_string s)
   | JOBJECT \<Rightarrow> c_string s)"

definition node_text :: "cstring \<Rightarrow> cstring \<Rightarrow> buffer option \<Rightarrow> JsonDataType \<Rightarrow> cstring option" where
  "node_text true_text false_text pData type = map_option (\<lambda>t. t @ [COMMA])
     (case pData of None \<Rightarrow> Some (chars ''null'') | Some s \<Rightarrow> data_text true_text false_text type s)"

definition put_json_node :: "nat \<Rightarrow> cstring \<Rightarrow> buffer option \<Rightarrow> JsonDataType \<Rightarrow> buffer \<Rightarrow> (int \<times> buffer) option" where
  "put_json_node sizeOfBuffer pKey pData type =
     and_then (json_append sizeOfBuffer 0 (Some (quoted pKey @ [COLON])))
       (json_append sizeOfBuffer 0 (node_text (chars ''true'') (chars ''false'') pData type))"

definition event_put_json_node :: "nat \<Rightarrow> cstring \<Rightarrow> buffer option \<Rightarrow> JsonDataType \<Rightarrow> buffer \<Rightarrow> (int \<times> buffer) option" where
  "event_put_json_node sizeOfBuffer pKey pData type =
     and_then (json_append sizeOfBuffer 0 (Some (quoted pKey @ [COLON])))
       (json_append sizeOfBuffer 0 (node_text (chars ''1'') (chars ''0'') pData type))"

section \<open>Tokens\<close>

definition token_text :: "cstring \<Rightarrow> u32 \<Rightarrow> cstring" where
  "token_text pid tokenNumber = pid @ 0x2d # nat_text (unat tokenNumber)"

definition add_client_token :: "cstring \<Rightarrow> nat \<Rightarrow> nat \<Rightarrow> u32 \<Rightarrow> buffer \<Rightarrow> (int \<times> buffer \<times> u32) option" where
  "add_client_token pid off maxSizeOfJsonDocument tokenNumber buf = do {
     (rc, buf) \<leftarrow> HAL_Snprintf buf off maxSizeOfJsonDocument (token_text pid tokenNumber);
     Some (rc, buf, tokenNumber + 1) }"

definition generate_client_token :: "cstring \<Rightarrow> nat \<Rightarrow> nat \<Rightarrow> u32 \<Rightarrow> buffer \<Rightarrow> (int \<times> buffer \<times> u32) option" where
  "generate_client_token pid off sizeOfBuffer tokenNumber buf = add_client_token pid off sizeOfBuffer tokenNumber buf"

definition build_empty_json :: "cstring \<Rightarrow> u32 \<Rightarrow> buffer \<Rightarrow> (buffer \<times> u32) option" where
  "build_empty_json pid tokenNumber buf = do {
     (_, buf) \<leftarrow> HAL_Snprintf buf 0 MAX_SIZE_OF_JSON_WITH_CLIENT_TOKEN
        (LBRACE # quoted CLIENT_TOKEN_FIELD @ [COLON] @ quoted (token_text pid tokenNumber) @ [RBRACE]);
     Some (buf, tokenNumber + 1) }"

section \<open>Reading a document\<close>

definition parse_client_token :: "'w hal \<Rightarrow> buffer \<Rightarrow> 'w \<Rightarrow> (cstring option \<times> 'w) option" where
  "parse_client_token E doc w = LITE_json_value_of E CLIENT_TOKEN_FIELD doc 0 w"

text \<open>A number: \<open>None\<close> in the result when the function returns false.\<close>

definition parse_number :: "(cstring \<Rightarrow> 'a option option) \<Rightarrow> 'w hal \<Rightarrow> cstring \<Rightarrow> buffer \<Rightarrow> 'w \<Rightarrow> ('a option \<times> 'w) option" where
  "parse_number scan E key doc w = do {
     (t, w) \<leftarrow> LITE_json_value_of E key doc 0 w;
     case t of None \<Rightarrow> Some (None, w) | Some t \<Rightarrow> do { r \<leftarrow> scan t; Some (r, w) } }"

definition parse_version_num :: "'w hal \<Rightarrow> buffer \<Rightarrow> 'w \<Rightarrow> (nat option \<times> 'w) option" where
  "parse_version_num E = parse_number (sscanf_u 32) E PAYLOAD_VERSION"

definition parse_shadow_state :: "'w hal \<Rightarrow> buffer \<Rightarrow> 'w \<Rightarrow> (cstring option \<times> 'w) option" where
  "parse_shadow_state E doc w = LITE_json_value_of E PAYLOAD_VERSION doc 0 w"

definition parse_code_return :: "'w hal \<Rightarrow> buffer \<Rightarrow> 'w \<Rightarrow> (int option \<times> 'w) option" where
  "parse_code_return E = parse_number (sscanf_i 32) E REPLY_CODE"

definition parse_status_return :: "'w hal \<Rightarrow> buffer \<Rightarrow> 'w \<Rightarrow> (cstring option \<times> 'w) option" where
  "parse_status_return E doc w = LITE_json_value_of E REPLY_STATUS doc 0 w"

definition parse_shadow_operation_type :: "'w hal \<Rightarrow> buffer \<Rightarrow> 'w \<Rightarrow> (cstring option \<times> 'w) option" where
  "parse_shadow_operation_type E doc w = LITE_json_value_of E TYPE_FIELD doc 0 w"

definition parse_shadow_operation_result_code :: "'w hal \<Rightarrow> buffer \<Rightarrow> 'w \<Rightarrow> (int option \<times> 'w) option" where
  "parse_shadow_operation_result_code E = parse_number (sscanf_i 16) E RESULT_FIELD"

definition parse_shadow_operation_delta :: "'w hal \<Rightarrow> buffer \<Rightarrow> 'w \<Rightarrow> (cstring option \<times> 'w) option" where
  "parse_shadow_operation_delta E doc w = LITE_json_value_of E PAYLOAD_STATE doc 0 w"

definition parse_shadow_operation_get :: "'w hal \<Rightarrow> buffer \<Rightarrow> 'w \<Rightarrow> (cstring option \<times> 'w) option" where
  "parse_shadow_operation_get E doc w = LITE_json_value_of E PAYLOAD_STATE_DELTA doc 0 w"

text \<open>\<open>store n x s\<close>: the low \<open>n\<close> bytes of \<open>x\<close> to the block.\<close>

definition store :: "nat \<Rightarrow> int \<Rightarrow> buffer \<Rightarrow> buffer option" where
  "store n x s = mem_copy s 0 (le_bytes n (nat (x mod 2 ^ (8 * n))))"

text \<open>The conversion of a text to the bits of a floating point number is the library's.\<close>

record float_lib =
  strtof :: "cstring \<Rightarrow> nat option"
  strtod :: "cstring \<Rightarrow> nat option"

text \<open>A library that converts nothing, for the concrete inputs of the examples.\<close>

definition no_float_lib :: float_lib where
  "no_float_lib = \<lparr>strtof = \<lambda>_. None, strtod = \<lambda>_. None\<rparr>"

definition set_int :: "nat \<Rightarrow> (int + int) option \<Rightarrow> buffer option \<Rightarrow> (int \<times> buffer option) option" where
  "set_int n r data = do {
     r \<leftarrow> r;
     case r of Inl rc \<Rightarrow> Some (rc, data)
     | Inr x \<Rightarrow> do { s \<leftarrow> data; s \<leftarrow> store n x s; Some (QCLOUD_RET_SUCCESS, Some s) } }"

definition direct_update_value :: "float_lib \<Rightarrow> cstring \<Rightarrow> DeviceProperty \<Rightarrow> (int \<times> DeviceProperty) option" where
  "direct_update_value F value p = do {
     (rc, d) \<leftarrow> (case prop_type p of
         JBOOL \<Rightarrow> set_int 1 (Some (Inr (if LITE_get_boolean value then 1 else 0))) (prop_data p)
       | JINT32 \<Rightarrow> set_int 4 (LITE_get_int32 value) (prop_data p)
       | JINT16 \<Rightarrow> set_int 2 (LITE_get_int16 value) (prop_data p)
       | JINT8 \<Rightarrow> set_int 1 (LITE_get_int8 value) (prop_data p)
       | JUINT32 \<Rightarrow> set_int 4 (LITE_get_uint32 value) (prop_data p)
       | JUINT16 \<Rightarrow> set_int 2 (LITE_get_uint16 value) (prop_data p)
       | JUINT8 \<Rightarrow> set_int 1 (LITE_get_uint8 value) (prop_data p)
       | JFLOAT \<Rightarrow> set_int 4 (Some (map_sum id int (LITE_get_float (strtof F) value))) (prop_data p)
       | JDOUBLE \<Rightarrow> set_int 8 (Some (map_sum id int (LITE_get_double (strtod F) value))) (prop_data p)
       | _ \<Rightarrow> Some (QCLOUD_RET_SUCCESS, prop_data p));
     Some (rc, p\<lparr>prop_data := d\<rparr>) }"

text \<open>The result says whether the key is there with a value that does not start with \<open>null\<close>.\<close>

definition update_value_if_key_match :: "'w hal \<Rightarrow> float_lib \<Rightarrow> buffer \<Rightarrow> DeviceProperty \<Rightarrow> 'w \<Rightarrow> (bool \<times> DeviceProperty \<times> 'w) option" where
  "update_value_if_key_match E F doc p w = do {
     k \<leftarrow> prop_key p;
     (t, w) \<leftarrow> LITE_json_value_of E k doc 0 w;
     case t of None \<Rightarrow> Some (False, p, w)
     | Some t \<Rightarrow>
         if take 4 t = chars ''null'' \<or> take 4 t = chars ''NULL'' then Some (False, p, w)
         else do {
           (_, p) \<leftarrow> direct_update_value F t p;
           Some (True, p, w) } }"

section \<open>Building a document\<close>

definition IOT_Shadow_JSON_Init :: "nat \<Rightarrow> bool \<Rightarrow> buffer \<Rightarrow> (int \<times> buffer) option" where
  "IOT_Shadow_JSON_Init sizeOfBuffer overwrite buf = do {
     (rc, buf) \<leftarrow> HAL_Snprintf buf 0 sizeOfBuffer
        (if overwrite then LBRACE # quoted (chars ''overwriteUpdate'') @ chars '':true, '' @ quoted (chars ''state'') @ [COLON, LBRACE]
         else LBRACE # quoted (chars ''state'') @ [COLON, LBRACE]);
     Some (check_snprintf_return rc sizeOfBuffer, buf) }"

text \<open>The token counter moves on even when the token does not fit.\<close>

definition IOT_Shadow_JSON_Finalize :: "cstring \<Rightarrow> nat \<Rightarrow> u32 \<Rightarrow> buffer \<Rightarrow> (int \<times> buffer \<times> u32) option" where
  "IOT_Shadow_JSON_Finalize pid sizeOfBuffer tok buf = do {
     (rc, buf) \<leftarrow> json_append sizeOfBuffer 1 (Some (chars ''}, '' @ quoted CLIENT_TOKEN_FIELD @ [COLON, QUOTE])) buf;
     if rc \<noteq> QCLOUD_RET_SUCCESS then Some (rc, buf, tok)
     else do {
       n \<leftarrow> strlen buf;
       let remain_size = size_minus sizeOfBuffer n in
       if remain_size \<le> 1 then Some (QCLOUD_ERR_JSON_BUFFER_TOO_SMALL, buf, tok)
       else do {
         (rc, buf, tok) \<leftarrow> generate_client_token pid n remain_size tok buf;
         let rc = check_snprintf_return rc remain_size in
         if rc \<noteq> QCLOUD_RET_SUCCESS then Some (rc, buf, tok)
         else do {
           (rc, buf) \<leftarrow> json_append sizeOfBuffer 0 (Some [QUOTE, RBRACE]) buf;
           Some (rc, buf, tok) } } } }"

text \<open>
  The nodes of a report. \<open>i\<close> is an \<open>int8_t\<close> compared with the \<open>uint8_t\<close> count, so that from 128
  nodes on the loop does not stop at the count but reads on in the argument list.
\<close>

definition counter8 :: "nat \<Rightarrow> int" where
  "counter8 i = (int i + 128) mod 256 - 128"

primrec report_loop :: "nat \<Rightarrow> nat \<Rightarrow> nat \<Rightarrow> DeviceProperty option list \<Rightarrow> buffer \<Rightarrow> (int \<times> buffer) option" where
  "report_loop remain_size count i [] buf = (if counter8 i < int count then None else Some (QCLOUD_RET_SUCCESS, buf))"
| "report_loop remain_size count i (p # ps) buf =
     (if counter8 i < int count then
        (case p of None \<Rightarrow> Some (QCLOUD_ERR_INVAL, buf)
         | Some p \<Rightarrow> (case prop_key p of None \<Rightarrow> Some (QCLOUD_ERR_INVAL, buf)
           | Some k \<Rightarrow> do {
               (rc, buf) \<leftarrow> put_json_node remain_size k (prop_data p) (prop_type p) buf;
               if rc \<noteq> QCLOUD_RET_SUCCESS then Some (rc, buf)
               else report_loop remain_size count (i + 1) ps buf }))
      else Some (QCLOUD_RET_SUCCESS, buf))"

text \<open>The array is indexed by the counter: a negative one is outside.\<close>

primrec array_loop :: "nat \<Rightarrow> nat \<Rightarrow> nat \<Rightarrow> DeviceProperty option list \<Rightarrow> buffer \<Rightarrow> (int \<times> buffer) option" where
  "array_loop remain_size count i [] buf = (if counter8 i < int count then None else Some (QCLOUD_RET_SUCCESS, buf))"
| "array_loop remain_size count i (p # ps) buf =
     (if counter8 i < int count then
        (if counter8 i < 0 then None
         else case p of None \<Rightarrow> Some (QCLOUD_ERR_INVAL, buf)
         | Some p \<Rightarrow> (case prop_key p of None \<Rightarrow> Some (QCLOUD_ERR_INVAL, buf)
           | Some k \<Rightarrow> do {
               (rc, buf) \<leftarrow> put_json_node remain_size k (prop_data p) (prop_type p) buf;
               if rc \<noteq> QCLOUD_RET_SUCCESS then Some (rc, buf)
               else array_loop remain_size count (i + 1) ps buf }))
      else Some (QCLOUD_RET_SUCCESS, buf))"

text \<open>
  The part all builders share: the head of the document, the field with its nodes, which get the size
  that remained behind the head as their limit, and the closing brace over the last comma.
\<close>

definition report_field :: "bool \<Rightarrow> cstring \<Rightarrow> (nat \<Rightarrow> buffer \<Rightarrow> (int \<times> buffer) option) \<Rightarrow> nat \<Rightarrow> buffer \<Rightarrow> (int \<times> buffer) option" where
  "report_field overwrite field nodes sizeOfBuffer =
     and_then (IOT_Shadow_JSON_Init sizeOfBuffer overwrite) (\<lambda>buf. do {
       n \<leftarrow> strlen buf;
       let remain_size = size_minus sizeOfBuffer n in
       and_then (json_append sizeOfBuffer 0 (Some (quoted field @ [COLON, LBRACE])))
         (and_then (nodes remain_size) (json_append sizeOfBuffer 1 (Some (chars ''},'')))) buf })"

definition finalized :: "cstring \<Rightarrow> nat \<Rightarrow> u32 \<Rightarrow> (int \<times> buffer) option \<Rightarrow> (int \<times> buffer \<times> u32) option" where
  "finalized pid sizeOfBuffer tok r = do {
     (rc, buf) \<leftarrow> r;
     if rc \<noteq> QCLOUD_RET_SUCCESS then Some (rc, buf, tok)
     else IOT_Shadow_JSON_Finalize pid sizeOfBuffer tok buf }"

definition IOT_Shadow_JSON_ConstructReport :: "cstring \<Rightarrow> u32 \<Rightarrow> nat \<Rightarrow> nat \<Rightarrow> DeviceProperty option list \<Rightarrow> buffer \<Rightarrow> (int \<times> buffer \<times> u32) option" where
  "IOT_Shadow_JSON_ConstructReport pid tok sizeOfBuffer count props buf =
     finalized pid sizeOfBuffer tok
       (report_field False (chars ''reported'') (\<lambda>r. report_loop r count 0 props) sizeOfBuffer buf)"

definition IOT_Shadow_JSON_ConstructReportArray :: "cstring \<Rightarrow> u32 \<Rightarrow> nat \<Rightarrow> nat \<Rightarrow> DeviceProperty option list \<Rightarrow> buffer \<Rightarrow> (int \<times> buffer \<times> u32) option" where
  "IOT_Shadow_JSON_ConstructReportArray pid tok sizeOfBuffer count props buf =
     finalized pid sizeOfBuffer tok
       (report_field False (chars ''reported'') (\<lambda>r. array_loop r count 0 props) sizeOfBuffer buf)"

definition IOT_Shadow_JSON_Construct_OverwriteReport :: "cstring \<Rightarrow> u32 \<Rightarrow> nat \<Rightarrow> nat \<Rightarrow> DeviceProperty option list \<Rightarrow> buffer \<Rightarrow> (int \<times> buffer \<times> u32) option" where
  "IOT_Shadow_JSON_Construct_OverwriteReport pid tok sizeOfBuffer count props buf =
     finalized pid sizeOfBuffer tok
       (report_field True (chars ''reported'') (\<lambda>r. report_loop r count 0 props) sizeOfBuffer buf)"

definition desired_null :: cstring where "desired_null = quoted (chars ''desired'') @ chars '': null ''"

text \<open>
  The last part of the report is printed with the remaining size of the step before it, although
  the document has become one byte longer, and its return code is not looked at.
\<close>

definition IOT_Shadow_JSON_ConstructReportAndDesireAllNull :: "cstring \<Rightarrow> u32 \<Rightarrow> nat \<Rightarrow> nat \<Rightarrow> DeviceProperty option list \<Rightarrow> buffer \<Rightarrow> (int \<times> buffer \<times> u32) option" where
  "IOT_Shadow_JSON_ConstructReportAndDesireAllNull pid tok sizeOfBuffer count props buf =
     finalized pid sizeOfBuffer tok
       (and_then (IOT_Shadow_JSON_Init sizeOfBuffer False) (\<lambda>buf. do {
          n \<leftarrow> strlen buf;
          let remain_size = size_minus sizeOfBuffer n in
          and_then (json_append sizeOfBuffer 0 (Some (quoted (chars ''reported'') @ [COLON, LBRACE])))
            (and_then (report_loop remain_size count 0 props) (\<lambda>buf. do {
               n \<leftarrow> strlen buf;
               let remain_size = size_minus sizeOfBuffer n in
               and_then (json_append sizeOfBuffer 1 (Some (chars ''},''))) (\<lambda>buf. do {
                 n \<leftarrow> strlen buf;
                 (_, buf) \<leftarrow> HAL_Snprintf buf n remain_size desired_null;
                 Some (QCLOUD_RET_SUCCESS, buf) }) buf })) buf }) buf)"

definition IOT_Shadow_JSON_ConstructDesireAllNull :: "cstring \<Rightarrow> u32 \<Rightarrow> nat \<Rightarrow> buffer \<Rightarrow> (int \<times> buffer \<times> u32) option" where
  "IOT_Shadow_JSON_ConstructDesireAllNull pid tok sizeOfBuffer buf =
     finalized pid sizeOfBuffer tok
       (and_then (IOT_Shadow_JSON_Init sizeOfBuffer False) (json_append sizeOfBuffer 0 (Some desired_null)) buf)"

definition IOT_Shadow_JSON_ConstructDesirePropNull :: "cstring \<Rightarrow> u32 \<Rightarrow> nat \<Rightarrow> nat \<Rightarrow> DeviceProperty option list \<Rightarrow> buffer \<Rightarrow> (int \<times> buffer \<times> u32) option" where
  "IOT_Shadow_JSON_ConstructDesirePropNull pid tok sizeOfBuffer count props buf =
     finalized pid sizeOfBuffer tok
       (report_field False (chars ''desired'') (\<lambda>r. report_loop r count 0 props) sizeOfBuffer buf)"

end
