(* ===== verification/Mqtt_Construct.thy ===== *)
theory Mqtt_Construct
  imports Device_Info Text_Format Mqtt_Session
begin

text \<open>
  The construction of an MQTT client: \<open>IOT_MQTT_Construct\<close>, \<open>qcloud_iot_mqtt_init\<close> and
  \<open>qcloud_iot_mqtt_fini\<close> of \<^verbatim>\<open>mqtt_client.c\<close>, for the build with a device secret and TLS. A mutex is
  an allocation of the platform. The host name and the decoded secret go to the platform's TLS
  connection and are not part of the state; whether the secret can be decoded is not looked at by the
  code.
\<close>

section \<open>Model\<close>

record MQTTInitParams =
  mi_product_id :: "cstring option"
  mi_device_name :: "cstring option"
  mi_device_secret :: "cstring option"
  mi_command_timeout :: nat
  mi_keep_alive_interval_ms :: nat
  mi_clean_session :: bool
  mi_auto_connect_enable :: bool
  mi_event_handle :: bool

definition QCLOUD_IOT_MQTT_DIRECT_DOMAIN :: cstring where
  "QCLOUD_IOT_MQTT_DIRECT_DOMAIN = chars ''iotcloud.tencentdevices.com''"

definition DEFAULT_MQTTCONNECT_PARAMS :: MQTTConnectParams where
  "DEFAULT_MQTTCONNECT_PARAMS = \<lparr>client_id = [], username = None, password = None, conn_id = [], mqtt_version = 4,
     keep_alive_interval = 240, clean_session = True, auto_connect_enable = True\<rparr>"

text \<open>\<open>n\<close> allocations in sequence, up to the first that fails.\<close>

primrec allocs :: "'w hal \<Rightarrow> nat \<Rightarrow> 'w \<Rightarrow> bool \<times> 'w" where
  "allocs E 0 w = (True, w)"
| "allocs E (Suc n) w = (let (ok, w) = hal_malloc E w in if ok then allocs E n w else (False, w))"

text \<open>
  The first mutex, then the state, then three mutexes and the two lists; the result has the world
  when it fails. \<open>rb\<close> are the static variables of the repeat buffer.
\<close>

definition qcloud_iot_mqtt_init :: "'w hal \<Rightarrow> MQTTInitParams \<Rightarrow> u16 list \<times> nat \<Rightarrow> 'w \<Rightarrow> (int \<times> 'w) + 'w client" where
  "qcloud_iot_mqtt_init E p rb w =
     (if length (the (mi_product_id p) @ 0x2e # QCLOUD_IOT_MQTT_DIRECT_DOMAIN) > 63 then Inl (QCLOUD_ERR_FAILURE, w)
      else
        let c = mqtt_init_state E (mi_command_timeout p) (mi_event_handle p) rb w;
            (ok, c) = on_world (allocs E 6) c in
        if \<not> ok then Inl (QCLOUD_ERR_FAILURE, world c)
        else if mi_device_secret p = None then Inl (QCLOUD_ERR_INVAL, world c)
        else Inr c)"

text \<open>The state that construction leaves besides the client: the device information and the error code.\<close>

record 'w mqtt_system =
  ms_device :: device_state
  g_last_err_code :: int
  ms_world :: 'w

definition construct_failed :: "int \<Rightarrow> 'w \<Rightarrow> 'w mqtt_system \<Rightarrow> 'w client option \<times> 'w mqtt_system" where
  "construct_failed rc w s = (None, s\<lparr>g_last_err_code := rc, ms_world := w\<rparr>)"

definition IOT_MQTT_GetErrCode :: "'w mqtt_system \<Rightarrow> int" where
  "IOT_MQTT_GetErrCode s = g_last_err_code s"

definition empty_string :: "cstring option \<Rightarrow> bool" where
  "empty_string s = (case s of None \<Rightarrow> True | Some t \<Rightarrow> t = [])"

definition IOT_MQTT_Construct :: "'w hal \<Rightarrow> MQTTInitParams option \<Rightarrow> u16 list \<times> nat \<Rightarrow> 'w mqtt_system
    \<Rightarrow> ('w client option \<times> 'w mqtt_system) option" where
  "IOT_MQTT_Construct E params rb s = (
     let s = s\<lparr>g_last_err_code := QCLOUD_ERR_INVAL\<rparr> in
     case params of None \<Rightarrow> Some (None, s)
     | Some p \<Rightarrow>
       if empty_string (mi_product_id p) \<or> empty_string (mi_device_name p) then Some (None, s)
       else
         let (rc, d) = iot_device_info_set (the (mi_product_id p)) (the (mi_device_name p)) (ms_device s);
             s = s\<lparr>ms_device := d\<rparr> in
         if rc \<noteq> QCLOUD_RET_SUCCESS then Some (construct_failed rc (ms_world s) s)
         else
           let (ok, w) = hal_malloc E (ms_world s) in
           if \<not> ok then Some (construct_failed QCLOUD_ERR_MALLOC w s)
           else (case qcloud_iot_mqtt_init E p rb w of
               Inl (rc, w) \<Rightarrow> Some (construct_failed rc w s)
             | Inr c \<Rightarrow> do {
                 (rc, c) \<leftarrow> qcloud_iot_mqtt_connect E
                   (DEFAULT_MQTTCONNECT_PARAMS\<lparr>client_id := DeviceInfo.client_id (iot_device_info_get d),
                      keep_alive_interval := of_nat (min (mi_keep_alive_interval_ms p div 1000) 690),
                      clean_session := mi_clean_session p, auto_connect_enable := mi_auto_connect_enable p\<rparr>) c;
                 if rc \<noteq> QCLOUD_RET_SUCCESS then Some (construct_failed rc (world c) s)
                 else Some (Some c, s\<lparr>g_last_err_code := QCLOUD_RET_SUCCESS, ms_world := world c\<rparr>) }))"

definition IOT_MQTT_Yield :: "'w hal \<Rightarrow> nat \<Rightarrow> 'w client \<Rightarrow> (int \<times> 'w client) option" where
  "IOT_MQTT_Yield E timeout_ms c = qcloud_iot_mqtt_yield E timeout_ms c"

definition IOT_MQTT_Publish :: "'w hal \<Rightarrow> cstring \<Rightarrow> PublishParams \<Rightarrow> 'w client \<Rightarrow> ((int \<times> PublishParams) \<times> 'w client) option" where
  "IOT_MQTT_Publish E topicName p c = qcloud_iot_mqtt_publish E topicName p c"

definition IOT_MQTT_Subscribe :: "'w hal \<Rightarrow> cstring \<Rightarrow> SubscribeParams \<Rightarrow> 'w client \<Rightarrow> (int \<times> 'w client) option" where
  "IOT_MQTT_Subscribe E topicFilter p c = qcloud_iot_mqtt_subscribe E topicFilter p c"

definition IOT_MQTT_Unsubscribe :: "'w hal \<Rightarrow> cstring \<Rightarrow> 'w client \<Rightarrow> (int \<times> 'w client) option" where
  "IOT_MQTT_Unsubscribe E topicFilter c = qcloud_iot_mqtt_unsubscribe E topicFilter c"

text \<open>For the null handle, the error code is returned as a \<open>bool\<close>: true.\<close>

definition IOT_MQTT_IsConnected :: "'w client option \<Rightarrow> bool" where
  "IOT_MQTT_IsConnected c = (case c of None \<Rightarrow> QCLOUD_ERR_INVAL \<noteq> (0 :: int) | Some c \<Rightarrow> get_client_conn_state c)"

section \<open>What construction promises\<close>

lemma rem_len_error: "rem_len_loop g len m v s = Some (Inl rc) \<Longrightarrow> rc \<noteq> QCLOUD_RET_SUCCESS"
proof (induction "5 - len" arbitrary: len m v s)
  case 0
  then show ?case by (subst (asm) rem_len_loop.simps) (simp add: qos_defs)
next
  case (Suc k)
  have k: "k = 5 - Suc len" using Suc.hyps(2) by simp
  obtain c n s' where "Suc len > MAX_NO_OF_REMAINING_LENGTH_BYTES \<or> g s = Some (c, n, s') \<and>
      (n \<noteq> 1 \<or> c AND 128 = 0 \<or> (\<exists>m' v'. rem_len_loop g (Suc len) m' v' s' = Some (Inl rc)))"
    using Suc.prems by (subst (asm) rem_len_loop.simps) (simp add: Let_def del: rem_len_loop.simps split: bind_split_asm prod.split_asm if_split_asm; blast)
  then show ?case using Suc.prems Suc.hyps(1) [OF k]
    by (subst (asm) rem_len_loop.simps) (auto simp: Let_def simp del: rem_len_loop.simps split: if_split_asm)
qed

lemma connack_error: "deserialize_connack_packet b n = Some (Inl rc) \<Longrightarrow> rc \<noteq> QCLOUD_RET_SUCCESS"
  by (auto simp: deserialize_connack_packet_def mqtt_read_packet_rem_len_form_buf_def decode_packet_rem_len_from_buf_read_def
      split: bind_split_asm if_split_asm sum.split_asm prod.split_asm dest: rem_len_error)

lemma connack_code_nonzero: "deserialize_connack_packet b n = Some (Inr (sp, code)) \<Longrightarrow> code \<noteq> QCLOUD_RET_SUCCESS"
  by (auto simp: deserialize_connack_packet_def connack_code_def split: bind_split_asm if_split_asm sum.split_asm prod.split_asm)

lemma connect_sent: "serialize_connect E c = Some (Inr n, c') \<Longrightarrow> 0 < n"
  by (auto simp: serialize_connect_def Let_def split: bind_split_asm sum.split_asm prod.split_asm dest: serialize_connect_length(2))

lemma connect_not_sent: "serialize_connect E c = Some (Inl rc, c') \<Longrightarrow> rc \<noteq> QCLOUD_RET_SUCCESS"
  by (auto simp: serialize_connect_def serialize_connect_packet_def mqtt_init_packet_header_def Let_def
      split: bind_split_asm sum.split_asm prod.split_asm if_split_asm)

lemma on_world_connected: "on_world f c = (x, c') \<Longrightarrow> is_connected c' = is_connected c"
  by (auto simp: on_world_eq)

lemma connect_connected: "mqtt_connect E opts c = Some (QCLOUD_RET_SUCCESS, c') \<Longrightarrow> is_connected c'"
  by (auto simp: mqtt_connect_def set_client_conn_state_def Let_def split: if_splits bind_splits sum.splits option.splits prod.splits
      dest!: connect_sent connect_not_sent connack_code_nonzero connack_error on_world_connected)

lemma allocs_ok: "\<forall>w. fst (hal_malloc E w) \<Longrightarrow> fst (allocs E n w)"
  by (induction n arbitrary: w) (auto simp: case_prod_beta Let_def)

text \<open>C30: The constructor and the error code agree: it returns a client exactly when the code it leaves is 0, and
  that client is connected and satisfies the invariant of the client.\<close>

theorem mqtt_construct_result:
  assumes "length (fst rb) = MQTT_MAX_REPEAT_BUF_LEN" and "snd rb < MQTT_MAX_REPEAT_BUF_LEN"
    and "IOT_MQTT_Construct E params rb s = Some (r, s')"
  shows "(r = None \<longleftrightarrow> IOT_MQTT_GetErrCode s' \<noteq> QCLOUD_RET_SUCCESS) \<and> (\<forall>c. r = Some c \<longrightarrow> is_connected c \<and> client_inv c)"
proof -
  have ini: "client_inv c \<and> \<not> is_connected c" if "qcloud_iot_mqtt_init E p rb w = Inr c" for p w c
  proof -
    let ?c = "mqtt_init_state E (mi_command_timeout p) (mi_event_handle p) rb w"
    have "c = ?c\<lparr>world := world c\<rparr>"
      using that by (auto simp: qcloud_iot_mqtt_init_def on_world_eq Let_def split: if_splits)
    moreover have "client_inv (?c\<lparr>world := v\<rparr>)" for v by (rule client_state.I_world [OF client_init_inv [OF assms(1,2)]])
    moreover have "\<not> is_connected (?c\<lparr>world := v\<rparr>)" for v by (simp add: mqtt_init_state_def split: prod.split)
    ultimately show ?thesis by metis
  qed
  have con: "is_connected c' \<and> client_inv c'" if "qcloud_iot_mqtt_init E p rb w = Inr c"
      "qcloud_iot_mqtt_connect E q c = Some (QCLOUD_RET_SUCCESS, c')" for p w c q c'
  proof
    show "is_connected c'" using that(2) ini [OF that(1)] connect_connected
      by (auto simp: qcloud_iot_mqtt_connect_def get_client_conn_state_def split: bind_split_asm if_split_asm)
    show "client_inv c'" using client_state.I_connect [OF that(2)] ini [OF that(1)] by simp
  qed
  have fail: "rc \<noteq> QCLOUD_RET_SUCCESS" if "qcloud_iot_mqtt_init E p rb w = Inl (rc, w')" for p w rc w'
    using that by (auto simp: qcloud_iot_mqtt_init_def on_world_eq Let_def split: if_splits)
  show ?thesis using assms(3)
    by (auto simp: IOT_MQTT_Construct_def construct_failed_def IOT_MQTT_GetErrCode_def Let_def
        split: option.split_asm if_split_asm prod.split_asm sum.split_asm bind_split_asm dest: con fail)
qed

theorem mqtt_construct_result_witness:
  "\<exists>r s'. IOT_MQTT_Construct (clock_hal 1) (Some \<lparr>mi_product_id = Some [0x61], mi_device_name = Some [0x62], mi_device_secret = None,
      mi_command_timeout = 5000, mi_keep_alive_interval_ms = 240000, mi_clean_session = True, mi_auto_connect_enable = True,
      mi_event_handle = False\<rparr>) (replicate 50 0, 0) \<lparr>ms_device = \<lparr>sg_device_info = no_device_info, sg_devinfo_initialized = False\<rparr>,
      g_last_err_code = 0, ms_world = 0\<rparr> = Some (r, s')
    \<and> IOT_MQTT_GetErrCode s' = QCLOUD_ERR_INVAL \<and> r = None"
proof -
  let ?p = "\<lparr>mi_product_id = Some [0x61], mi_device_name = Some [0x62], mi_device_secret = None,
      mi_command_timeout = 5000, mi_keep_alive_interval_ms = 240000, mi_clean_session = True, mi_auto_connect_enable = True,
      mi_event_handle = False\<rparr>"
  let ?s = "\<lparr>ms_device = \<lparr>sg_device_info = no_device_info, sg_devinfo_initialized = False\<rparr>,
      g_last_err_code = 0, ms_world = 0\<rparr>"
  obtain r s' where run: "IOT_MQTT_Construct (clock_hal 1) (Some ?p) (replicate 50 0, 0) ?s = Some (r, s')"
    "IOT_MQTT_GetErrCode s' = QCLOUD_ERR_INVAL"
    by (auto simp: IOT_MQTT_Construct_def construct_failed_def IOT_MQTT_GetErrCode_def device_info_set_exact empty_string_def
        qcloud_iot_mqtt_init_def QCLOUD_IOT_MQTT_DIRECT_DOMAIN_def on_world_eq allocs_ok clock_hal_def Let_def)
  show ?thesis using mqtt_construct_result [OF _ _ run(1)] run by (auto simp: qos_defs)
qed

end
