(* ===== verification/Shadow_Client.thy ===== *)
theory Shadow_Client
  imports Shadow_Json Mqtt_Construct
begin

text \<open>
  The device shadow: requests with their answers and timeouts, registered properties and deltas, and
  the API (\<^verbatim>\<open>shadow_client_manager.c\<close>, \<^verbatim>\<open>shadow_client_common.c\<close>, \<^verbatim>\<open>shadow_client.c\<close>).

  \<^item> the shadow has its MQTT client as a field, whose world it uses for allocations and the clock.
  \<^item> the two lists are node sequences with addresses, as in the MQTT client; a property handle is
    itself a block with an address. The application's properties are blocks of their own:
    \<open>sh_vars\<close> maps their addresses to them.
  \<^item> callbacks of the application are recorded in \<open>sh_trace\<close>; they do not call back. Callback 0 is
    \<open>_update_ack_cb\<close>, which stores the answer in the variable of the waiting call.
  \<^item> the messages and events that arrive during a yield of the MQTT client are handled behind it, in
    their order.
  \<^item> the strings of the operation result stay in the static buffer \<open>cloud_rcv_buf\<close>.
\<close>

section \<open>State\<close>

datatype Method = GET | UPDATE
datatype RequestAck = ACK_NONE | ACK_TIMEOUT | ACK_REJECTED | ACK_ACCEPTED

abbreviation (input) QCLOUD_ERR_MAX_APPENDING_REQUEST :: int where "QCLOUD_ERR_MAX_APPENDING_REQUEST \<equiv> -137"
abbreviation (input) QCLOUD_ERR_SHADOW_PROPERTY_EXIST :: int where "QCLOUD_ERR_SHADOW_PROPERTY_EXIST \<equiv> -201"
abbreviation (input) QCLOUD_ERR_SHADOW_NOT_PROPERTY_EXIST :: int where "QCLOUD_ERR_SHADOW_NOT_PROPERTY_EXIST \<equiv> -202"
abbreviation (input) QCLOUD_ERR_SHADOW_UPDATE_TIMEOUT :: int where "QCLOUD_ERR_SHADOW_UPDATE_TIMEOUT \<equiv> -203"
abbreviation (input) QCLOUD_ERR_SHADOW_UPDATE_REJECTED :: int where "QCLOUD_ERR_SHADOW_UPDATE_REJECTED \<equiv> -204"
abbreviation (input) QCLOUD_ERR_SHADOW_GET_TIMEOUT :: int where "QCLOUD_ERR_SHADOW_GET_TIMEOUT \<equiv> -205"
abbreviation (input) QCLOUD_ERR_SHADOW_GET_REJECTED :: int where "QCLOUD_ERR_SHADOW_GET_REJECTED \<equiv> -206"

definition MAX_APPENDING_REQUEST_AT_ANY_GIVEN_TIME :: nat where "MAX_APPENDING_REQUEST_AT_ANY_GIVEN_TIME = 10"
definition CLOUD_IOT_JSON_RX_BUF_LEN :: nat where "CLOUD_IOT_JSON_RX_BUF_LEN = QCLOUD_IOT_MQTT_RX_BUF_LEN + 1"

text \<open>The client token is an array of \<open>MAX_SIZE_OF_CLIENT_TOKEN\<close> bytes.\<close>

record Request =
  req_token :: buffer
  req_method :: Method
  req_user_context :: nat
  req_timer :: Timer
  req_callback :: "nat option"

record RequestParams =
  rp_method :: Method
  rp_timeout_sec :: nat
  rp_request_callback :: "nat option"
  rp_user_context :: nat

record PropertyHandler =
  ph_property :: nat
  ph_callback :: "nat option"

datatype shadow_effect =
    Request_Callback nat Method RequestAck buffer nat
  | Property_Callback nat cstring nat nat
  | Shadow_Event MQTTEventType nat
  | Shadow_Message MQTTMessage

record 'w shadow =
  sh_mqtt :: "'w client"
  sh_template :: bool
  sh_handler :: bool
  token_num :: u32
  sync_status :: int
  request_list :: "(nat \<times> Request) list"
  property_handle_list :: "(nat \<times> nat \<times> PropertyHandler) list"
  result_topic :: "cstring option"
  cloud_rcv_buf :: buffer
  sh_info :: DeviceInfo
  sh_vars :: "nat \<Rightarrow> DeviceProperty option"
  sh_ack :: RequestAck
  next_block :: nat
  sh_trace :: "shadow_effect list"

definition on_shadow :: "('w \<Rightarrow> 'a \<times> 'w) \<Rightarrow> 'w shadow \<Rightarrow> 'a \<times> 'w shadow" where
  "on_shadow f s = (let (x, w) = f (world (sh_mqtt s)) in (x, s\<lparr>sh_mqtt := (sh_mqtt s)\<lparr>world := w\<rparr>\<rparr>))"

definition try_shadow :: "('w \<Rightarrow> ('a \<times> 'w) option) \<Rightarrow> 'w shadow \<Rightarrow> ('a \<times> 'w shadow) option" where
  "try_shadow f s = do { (x, w) \<leftarrow> f (world (sh_mqtt s)); Some (x, s\<lparr>sh_mqtt := (sh_mqtt s)\<lparr>world := w\<rparr>\<rparr>) }"

definition shadow_emit :: "shadow_effect \<Rightarrow> 'w shadow \<Rightarrow> 'w shadow" where
  "shadow_emit e s = s\<lparr>sh_trace := sh_trace s @ [e]\<rparr>"

definition update_ack_cb :: nat where "update_ack_cb = 0"

text \<open>Calling a request's callback.\<close>

definition call_request :: "Request \<Rightarrow> RequestAck \<Rightarrow> 'w shadow \<Rightarrow> 'w shadow" where
  "call_request r ack s = (case req_callback r of None \<Rightarrow> s
     | Some cb \<Rightarrow>
         let s = shadow_emit (Request_Callback cb (req_method r) ack (cloud_rcv_buf s) (req_user_context r)) s in
         if cb = update_ack_cb then s\<lparr>sh_ack := ack\<rparr> else s)"

section \<open>Requests\<close>

definition qcloud_iot_shadow_init :: "'w hal \<Rightarrow> 'w shadow \<Rightarrow> int \<times> 'w shadow" where
  "qcloud_iot_shadow_init E s =
     (let (ok, s) = on_shadow (hal_malloc E) s in
      if \<not> ok then (QCLOUD_ERR_FAILURE, s)
      else let (ok, s) = on_shadow (hal_malloc E) s in
        if \<not> ok then (QCLOUD_ERR_FAILURE, s)
        else let (ok, s) = on_shadow (hal_malloc E) (s\<lparr>property_handle_list := []\<rparr>) in
          if \<not> ok then (QCLOUD_ERR_FAILURE, s)
          else (QCLOUD_RET_SUCCESS, s\<lparr>request_list := []\<rparr>))"

definition operation_topic :: "bool \<Rightarrow> cstring \<Rightarrow> DeviceInfo \<Rightarrow> cstring" where
  "operation_topic template middle d = chars (if template then ''$template'' else ''$shadow'') @ middle
     @ product_id d @ 0x2f # device_name d"

definition subscribe_operation_result_to_cloud :: "'w hal \<Rightarrow> 'w shadow \<Rightarrow> (int \<times> 'w shadow) option" where
  "subscribe_operation_result_to_cloud E s = do {
     let (rc, s) = (if result_topic s = None then
         let (ok, s) = on_shadow (hal_malloc E) s in
         if \<not> ok then (QCLOUD_ERR_FAILURE, s)
         else let t = operation_topic (sh_template s) (chars ''/operation/result/'') (sh_info s) in
           if length t > MAX_SIZE_OF_CLOUD_TOPIC - 1 then (QCLOUD_ERR_FAILURE, s)
           else (QCLOUD_RET_SUCCESS, s\<lparr>result_topic := Some t\<rparr>)
       else (QCLOUD_RET_SUCCESS, s));
     if rc \<noteq> QCLOUD_RET_SUCCESS then Some (rc, s)
     else do {
       t \<leftarrow> result_topic s;
       (rc, c) \<leftarrow> IOT_MQTT_Subscribe E t \<lparr>sp_qos = QOS0, sp_on_message_handler = Some 0,
          sp_on_sub_event_handler = None, sp_user_data = 0\<rparr> (sh_mqtt s);
       Some (rc, s\<lparr>sh_mqtt := c\<rparr>) } }"

text \<open>The payload is the whole block of the document, of which the first \<open>n\<close> bytes are sent.\<close>

definition publish_operation_to_cloud :: "'w hal \<Rightarrow> buffer \<Rightarrow> 'w shadow \<Rightarrow> (int \<times> 'w shadow) option" where
  "publish_operation_to_cloud E doc s = do {
     let topic = operation_topic (sh_template s) (chars ''/operation/'') (sh_info s);
     if length topic > MAX_SIZE_OF_CLOUD_TOPIC - 1 then Some (QCLOUD_ERR_FAILURE, s)
     else do {
       n \<leftarrow> strlen doc;
       ((rc, _), c) \<leftarrow> IOT_MQTT_Publish E topic \<lparr>pp_qos = QOS0, pp_retained = 0, pp_id = 0, pp_payload = Some doc,
          pp_payload_len = n\<rparr> (sh_mqtt s);
       Some (rc, s\<lparr>sh_mqtt := c\<rparr>) } }"

text \<open>\<open>_insert\<close>: the bytes from \<open>pos\<close> move up, from the last one down, then the text goes in.\<close>

primrec insert_shift :: "nat \<Rightarrow> nat \<Rightarrow> nat \<Rightarrow> buffer \<Rightarrow> buffer option" where
  "insert_shift nlen pos 0 str = Some str"
| "insert_shift nlen pos (Suc k) str = do {
     b \<leftarrow> mem_read str (pos + k);
     str \<leftarrow> mem_write str (pos + k + nlen) b;
     insert_shift nlen pos k str }"

primrec insert_copy :: "nat \<Rightarrow> cstring \<Rightarrow> buffer \<Rightarrow> buffer option" where
  "insert_copy p [] str = Some str"
| "insert_copy p (b # bs) str = do { str \<leftarrow> mem_write str p b; insert_copy (p + 1) bs str }"

definition insert_text :: "buffer \<Rightarrow> cstring \<Rightarrow> nat \<Rightarrow> buffer option" where
  "insert_text str pch pos = do {
     len \<leftarrow> strlen str;
     str \<leftarrow> insert_shift (length pch) pos (len - pos) str;
     str \<leftarrow> insert_copy pos pch str;
     mem_write str (len + length pch) 0 }"

definition method_text :: "Method \<Rightarrow> cstring" where
  "method_text m = (case m of GET \<Rightarrow> OPERATION_GET | UPDATE \<Rightarrow> OPERATION_UPDATE)"

definition type_node :: "Method \<Rightarrow> cstring" where
  "type_node m = quoted TYPE_FIELD @ [COLON] @ quoted (method_text m) @ chars '', ''"

definition set_shadow_json_type :: "buffer \<Rightarrow> nat \<Rightarrow> Method \<Rightarrow> (int \<times> buffer) option" where
  "set_shadow_json_type doc sizeOfBuffer m = do {
     json_len \<leftarrow> strlen doc;
     let remain_size = size_minus sizeOfBuffer json_len;
     let json_node_str = take 63 (type_node m);
     if length json_node_str \<ge> size_minus remain_size 1 then Some (QCLOUD_ERR_INVAL, doc)
     else do { doc \<leftarrow> insert_text doc json_node_str 1; Some (QCLOUD_RET_SUCCESS, doc) } }"

definition strncpy :: "nat \<Rightarrow> cstring \<Rightarrow> buffer" where
  "strncpy n t = take n (t @ replicate n 0)"

definition add_request_to_list :: "'w hal \<Rightarrow> cstring \<Rightarrow> RequestParams \<Rightarrow> 'w shadow \<Rightarrow> int \<times> 'w shadow" where
  "add_request_to_list E token p s =
     (if length (request_list s) \<ge> MAX_APPENDING_REQUEST_AT_ANY_GIVEN_TIME then (QCLOUD_ERR_MAX_APPENDING_REQUEST, s)
      else let (ok, s) = on_shadow (hal_malloc E) s in
        if \<not> ok then (QCLOUD_ERR_FAILURE, s)
        else
          let (t, s) = on_shadow (countdown E (rp_timeout_sec p)) s;
              r = \<lparr>req_token = strncpy MAX_SIZE_OF_CLIENT_TOKEN token, req_method = rp_method p,
                   req_user_context = rp_user_context p, req_timer = t, req_callback = rp_request_callback p\<rparr>;
              (ok, s) = on_shadow (hal_malloc E) s in
          if \<not> ok then (QCLOUD_ERR_FAILURE, s)
          else (QCLOUD_RET_SUCCESS, s\<lparr>request_list := request_list s @ [(next_block s, r)], next_block := next_block s + 1\<rparr>))"

text \<open>The result has the document, which carries the type of the operation now.\<close>

definition do_shadow_request :: "'w hal \<Rightarrow> RequestParams \<Rightarrow> buffer \<Rightarrow> nat \<Rightarrow> 'w shadow \<Rightarrow> (int \<times> buffer \<times> 'w shadow) option" where
  "do_shadow_request E p doc sizeOfBuffer s = do {
     (t, s) \<leftarrow> try_shadow (parse_client_token E doc) s;
     case t of None \<Rightarrow> Some (QCLOUD_ERR_INVAL, doc, s)
     | Some token \<Rightarrow> do {
         (rc, doc) \<leftarrow> set_shadow_json_type doc sizeOfBuffer (rp_method p);
         if rc \<noteq> QCLOUD_RET_SUCCESS then Some (rc, doc, s)
         else do {
           (rc, s) \<leftarrow> publish_operation_to_cloud E doc s;
           let (rc, s) = (if rc \<ge> 0 then add_request_to_list E token p s else (rc, s));
           Some (rc, doc, s) } } }"

section \<open>Deltas and answers\<close>

text \<open>The walk over the property handles from the tail, given the reversed list.\<close>

primrec delta_loop :: "'w hal \<Rightarrow> float_lib \<Rightarrow> cstring \<Rightarrow> (nat \<times> nat \<times> PropertyHandler) list \<Rightarrow> 'w shadow \<Rightarrow> 'w shadow option" where
  "delta_loop E F delta [] s = Some s"
| "delta_loop E F delta (n # ns) s = do {
     let h = snd (snd n);
     p \<leftarrow> sh_vars s (ph_property h);
     ((b, p), s) \<leftarrow> try_shadow (\<lambda>w. do {
        (b, p, w) \<leftarrow> update_value_if_key_match E F (delta @ [0]) p w; Some ((b, p), w) }) s;
     let s = s\<lparr>sh_vars := (sh_vars s)(ph_property h \<mapsto> p)\<rparr>;
     let s = (if b then (case ph_callback h of None \<Rightarrow> s
         | Some cb \<Rightarrow> shadow_emit (Property_Callback cb delta (length delta) (ph_property h)) s) else s);
     delta_loop E F delta ns s }"

definition handle_delta :: "'w hal \<Rightarrow> float_lib \<Rightarrow> cstring \<Rightarrow> 'w shadow \<Rightarrow> 'w shadow option" where
  "handle_delta E F delta s =
     (if property_handle_list s = [] then Some s
      else let (ok, s) = on_shadow (hal_malloc E) s in
        if \<not> ok then Some s
        else delta_loop E F delta (rev (property_handle_list s)) s)"

definition remove_request :: "nat \<Rightarrow> 'w shadow \<Rightarrow> 'w shadow" where
  "remove_request a s = s\<lparr>request_list := filter (\<lambda>x. fst x \<noteq> a) (request_list s)\<rparr>"

text \<open>\<open>strcmp\<close> of an array with a string, for equality: it reads to the first difference.\<close>

primrec strcmp_eq :: "cstring \<Rightarrow> buffer \<Rightarrow> bool option" where
  "strcmp_eq [] s = (case s of [] \<Rightarrow> None | b # _ \<Rightarrow> Some (b = 0))"
| "strcmp_eq (c # cs) s = (case s of [] \<Rightarrow> None | b # bs \<Rightarrow> if b = c then strcmp_eq cs bs else Some False)"

text \<open>
  One node of the walk for an answer. The delta is looked at after a \<open>get\<close> that was accepted, and
  after a rejected operation that is not an \<open>update\<close>.
\<close>

definition handle_request_callback :: "'w hal \<Rightarrow> float_lib \<Rightarrow> cstring \<Rightarrow> cstring \<Rightarrow> nat \<Rightarrow> Request \<Rightarrow> 'w shadow \<Rightarrow> 'w shadow option" where
  "handle_request_callback E F token type a r s = do {
     eq \<leftarrow> strcmp_eq token (req_token r);
     if \<not> eq then Some s
     else do {
       (code, s) \<leftarrow> try_shadow (parse_shadow_operation_result_code E (cloud_rcv_buf s)) s;
       s \<leftarrow> (case code of None \<Rightarrow> Some s
         | Some code \<Rightarrow> do {
             let status = (if code = 0 then ACK_ACCEPTED else ACK_REJECTED);
             s \<leftarrow> (if (type = OPERATION_GET \<and> status = ACK_ACCEPTED) \<or> (type \<noteq> OPERATION_UPDATE \<and> status = ACK_REJECTED)
               then do {
                 (d, s) \<leftarrow> try_shadow (parse_shadow_operation_get E (cloud_rcv_buf s)) s;
                 case d of None \<Rightarrow> Some s | Some d \<Rightarrow> handle_delta E F d s }
               else Some s);
             Some (call_request r status s) });
       Some (remove_request a s) } }"

primrec answer_loop :: "'w hal \<Rightarrow> float_lib \<Rightarrow> cstring \<Rightarrow> cstring \<Rightarrow> (nat \<times> Request) list \<Rightarrow> 'w shadow \<Rightarrow> 'w shadow option" where
  "answer_loop E F token type [] s = Some s"
| "answer_loop E F token type (n # ns) s = do {
     s \<leftarrow> handle_request_callback E F token type (fst n) (snd n) s;
     answer_loop E F token type ns s }"

definition handle_expired_request_callback :: "'w hal \<Rightarrow> nat \<Rightarrow> Request \<Rightarrow> 'w shadow \<Rightarrow> 'w shadow" where
  "handle_expired_request_callback E a r s =
     (let (ex, s) = on_shadow (expired E (req_timer r)) s in
      if ex then remove_request a (call_request r ACK_TIMEOUT s) else s)"

primrec expire_loop :: "'w hal \<Rightarrow> (nat \<times> Request) list \<Rightarrow> 'w shadow \<Rightarrow> 'w shadow" where
  "expire_loop E [] s = s"
| "expire_loop E (n # ns) s = expire_loop E ns (handle_expired_request_callback E (fst n) (snd n) s)"

text \<open>\<open>_traverse_list\<close> of the request list with a handler: nothing without the iterator.\<close>

definition traverse_list :: "'w hal \<Rightarrow> ((nat \<times> Request) list \<Rightarrow> 'w shadow \<Rightarrow> 'w shadow option) \<Rightarrow> 'w shadow \<Rightarrow> 'w shadow option" where
  "traverse_list E walk s =
     (if request_list s = [] then Some s
      else let (ok, s) = on_shadow (hal_malloc E) s in
        if \<not> ok then Some s else walk (rev (request_list s)) s)"

definition handle_expired_request :: "'w hal \<Rightarrow> 'w shadow \<Rightarrow> 'w shadow option" where
  "handle_expired_request E s = traverse_list E (\<lambda>ns s. Some (expire_loop E ns s)) s"

definition on_operation_result_handler :: "'w hal \<Rightarrow> float_lib \<Rightarrow> MQTTMessage \<Rightarrow> 'w shadow \<Rightarrow> 'w shadow option" where
  "on_operation_result_handler E F msg s =
     (let payload_len = pv_payload_len (msg_view msg) in
      if msg_topic_len msg = 0 then Some s
      else if payload_len > CLOUD_IOT_JSON_RX_BUF_LEN then Some s
      else do {
        let cloud_rcv_len = min (CLOUD_IOT_JSON_RX_BUF_LEN - 1) payload_len;
        t \<leftarrow> mem_slice (msg_payload msg) 0 (cloud_rcv_len + 1);
        b \<leftarrow> mem_copy (cloud_rcv_buf s) 0 t;
        b \<leftarrow> mem_write b cloud_rcv_len 0;
        let s = s\<lparr>cloud_rcv_buf := b\<rparr>;
        (type, s) \<leftarrow> try_shadow (parse_shadow_operation_type E b) s;
        case type of None \<Rightarrow> Some s
        | Some type \<Rightarrow>
            if type = OPERATION_DELTA then do {
              (d, s) \<leftarrow> try_shadow (parse_shadow_operation_delta E b) s;
              case d of None \<Rightarrow> Some s | Some d \<Rightarrow> handle_delta E F d s }
            else do {
              (token, s) \<leftarrow> try_shadow (parse_client_token E b) s;
              case token of None \<Rightarrow> Some s
              | Some token \<Rightarrow> traverse_list E (answer_loop E F token type) s } })"

text \<open>\<open>_shadow_event_handler\<close>: any answer to a subscription ends the synchronisation.\<close>

definition shadow_event_handler :: "MQTTEventType \<Rightarrow> nat \<Rightarrow> 'w shadow \<Rightarrow> 'w shadow" where
  "shadow_event_handler e packet_id s =
     (let s = (if sync_status s > 0 then
          (if e = MQTT_EVENT_SUBCRIBE_SUCCESS then s\<lparr>sync_status := 0\<rparr>
           else if e = MQTT_EVENT_SUBCRIBE_TIMEOUT \<or> e = MQTT_EVENT_SUBCRIBE_NACK then s\<lparr>sync_status := -1\<rparr>
           else s) else s) in
      if sh_handler s then shadow_emit (Shadow_Event e packet_id) s else s)"

primrec handle_effects :: "'w hal \<Rightarrow> float_lib \<Rightarrow> effect list \<Rightarrow> 'w shadow \<Rightarrow> 'w shadow option" where
  "handle_effects E F [] s = Some s"
| "handle_effects E F (e # es) s = do {
     s \<leftarrow> (case e of
         Event ev packet_id \<Rightarrow> Some (shadow_event_handler ev packet_id s)
       | Deliver_Default msg \<Rightarrow> Some (if sh_handler s then shadow_emit (Shadow_Message msg) s else s)
       | Deliver h msg ud \<Rightarrow> if h = 0 then on_operation_result_handler E F msg s else Some s
       | Sub_Event h ev ud \<Rightarrow> Some s);
     handle_effects E F es s }"

section \<open>Properties\<close>

definition add_property_handle_to_list :: "'w hal \<Rightarrow> nat \<Rightarrow> nat option \<Rightarrow> 'w shadow \<Rightarrow> int \<times> 'w shadow" where
  "add_property_handle_to_list E pProperty callback s =
     (let (ok, s) = on_shadow (hal_malloc E) s in
      if \<not> ok then (QCLOUD_ERR_FAILURE, s)
      else let (ok, s) = on_shadow (hal_malloc E) s in
        if \<not> ok then (QCLOUD_ERR_FAILURE, s)
        else (QCLOUD_RET_SUCCESS, s\<lparr>property_handle_list := property_handle_list s
               @ [(next_block s + 1, next_block s, \<lparr>ph_property = pProperty, ph_callback = callback\<rparr>)],
             next_block := next_block s + 2\<rparr>))"

text \<open>\<open>list_find\<close> without a match function compares the value pointers of the nodes with the argument.
  It finds nothing when its iterator cannot be allocated.\<close>

definition find_property :: "'w hal \<Rightarrow> nat \<Rightarrow> 'w shadow \<Rightarrow> nat option \<times> 'w shadow" where
  "find_property E pProperty s =
     (let (ok, s) = on_shadow (hal_malloc E) s in
      (if ok then map_option fst (List.find (\<lambda>n. fst (snd n) = pProperty) (property_handle_list s)) else None, s))"

definition shadow_common_check_property_existence :: "'w hal \<Rightarrow> nat \<Rightarrow> 'w shadow \<Rightarrow> bool \<times> 'w shadow" where
  "shadow_common_check_property_existence E pProperty s =
     (let (n, s) = find_property E pProperty s in (n \<noteq> None, s))"

definition shadow_common_remove_property :: "'w hal \<Rightarrow> nat \<Rightarrow> 'w shadow \<Rightarrow> int \<times> 'w shadow" where
  "shadow_common_remove_property E pProperty s =
     (let (n, s) = find_property E pProperty s in
      case n of None \<Rightarrow> (QCLOUD_ERR_SHADOW_NOT_PROPERTY_EXIST, s)
      | Some a \<Rightarrow> (QCLOUD_RET_SUCCESS, s\<lparr>property_handle_list := filter (\<lambda>x. fst x \<noteq> a) (property_handle_list s)\<rparr>))"

definition shadow_common_register_property_on_delta :: "'w hal \<Rightarrow> nat \<Rightarrow> nat option \<Rightarrow> 'w shadow \<Rightarrow> (int \<times> 'w shadow) option" where
  "shadow_common_register_property_on_delta E pProperty callback s =
     (if callback = None then Some (QCLOUD_ERR_INVAL, s)
      else do {
        p \<leftarrow> sh_vars s pProperty;
        if prop_key p = None \<or> prop_data p = None then Some (QCLOUD_ERR_INVAL, s)
        else Some (add_property_handle_to_list E pProperty callback s) })"

section \<open>The API\<close>

definition unsubscribe_operation_result_to_cloud :: "'w hal \<Rightarrow> 'w shadow \<Rightarrow> (int \<times> 'w shadow) option" where
  "unsubscribe_operation_result_to_cloud E s =
     (let t = operation_topic False (chars ''/operation/result/'') (sh_info s) in
      if length t > MAX_SIZE_OF_CLOUD_TOPIC - 1 then Some (QCLOUD_ERR_FAILURE, s)
      else do {
        (_, c) \<leftarrow> IOT_MQTT_Unsubscribe E t (sh_mqtt s);
        Some (QCLOUD_RET_SUCCESS, s\<lparr>sh_mqtt := c\<rparr>) })"

definition qcloud_iot_shadow_reset :: "'w hal \<Rightarrow> 'w shadow \<Rightarrow> 'w shadow option" where
  "qcloud_iot_shadow_reset E s = do {
     (_, s) \<leftarrow> unsubscribe_operation_result_to_cloud E (s\<lparr>property_handle_list := []\<rparr>);
     Some (s\<lparr>request_list := []\<rparr>) }"

definition IOT_Shadow_IsConnected :: "'w shadow option \<Rightarrow> bool" where
  "IOT_Shadow_IsConnected s = (case s of None \<Rightarrow> QCLOUD_ERR_INVAL \<noteq> (0 :: int) | Some s \<Rightarrow> IOT_MQTT_IsConnected (Some (sh_mqtt s)))"

definition IOT_Shadow_Publish :: "'w hal \<Rightarrow> cstring \<Rightarrow> PublishParams \<Rightarrow> 'w shadow \<Rightarrow> ((int \<times> PublishParams) \<times> 'w shadow) option" where
  "IOT_Shadow_Publish E topicName p s = do {
     (r, c) \<leftarrow> qcloud_iot_mqtt_publish E topicName p (sh_mqtt s); Some (r, s\<lparr>sh_mqtt := c\<rparr>) }"

definition IOT_Shadow_Subscribe :: "'w hal \<Rightarrow> cstring \<Rightarrow> SubscribeParams \<Rightarrow> 'w shadow \<Rightarrow> (int \<times> 'w shadow) option" where
  "IOT_Shadow_Subscribe E topicFilter p s = do {
     (rc, c) \<leftarrow> qcloud_iot_mqtt_subscribe E topicFilter p (sh_mqtt s); Some (rc, s\<lparr>sh_mqtt := c\<rparr>) }"

definition IOT_Shadow_Unsubscribe :: "'w hal \<Rightarrow> cstring \<Rightarrow> 'w shadow \<Rightarrow> (int \<times> 'w shadow) option" where
  "IOT_Shadow_Unsubscribe E topicFilter s = do {
     (rc, c) \<leftarrow> qcloud_iot_mqtt_unsubscribe E topicFilter (sh_mqtt s); Some (rc, s\<lparr>sh_mqtt := c\<rparr>) }"

definition IOT_Shadow_Destroy :: "'w hal \<Rightarrow> 'w shadow \<Rightarrow> (int \<times> 'w shadow) option" where
  "IOT_Shadow_Destroy E s = do {
     s \<leftarrow> qcloud_iot_shadow_reset E s;
     (_, c) \<leftarrow> IOT_MQTT_Destroy E (sh_mqtt s);
     Some (QCLOUD_RET_SUCCESS, s\<lparr>sh_mqtt := c, result_topic := None\<rparr>) }"

definition IOT_Shadow_Yield :: "'w hal \<Rightarrow> float_lib \<Rightarrow> nat \<Rightarrow> 'w shadow \<Rightarrow> (int \<times> 'w shadow) option" where
  "IOT_Shadow_Yield E F timeout_ms s =
     (if timeout_ms = 0 then Some (QCLOUD_ERR_INVAL, s)
      else do {
        s \<leftarrow> handle_expired_request E s;
        let old = length (trace (sh_mqtt s));
        (rc, c) \<leftarrow> IOT_MQTT_Yield E timeout_ms (sh_mqtt s);
        s \<leftarrow> handle_effects E F (drop old (trace c)) (s\<lparr>sh_mqtt := c\<rparr>);
        Some (rc, s) })"

definition IOT_Shadow_Register_Property :: "'w hal \<Rightarrow> nat \<Rightarrow> nat option \<Rightarrow> 'w shadow \<Rightarrow> (int \<times> 'w shadow) option" where
  "IOT_Shadow_Register_Property E pProperty callback s =
     (if \<not> IOT_MQTT_IsConnected (Some (sh_mqtt s)) then Some (QCLOUD_ERR_MQTT_NO_CONN, s)
      else let (exists, s) = shadow_common_check_property_existence E pProperty s in
        if exists then Some (QCLOUD_ERR_SHADOW_PROPERTY_EXIST, s)
        else shadow_common_register_property_on_delta E pProperty callback s)"

definition IOT_Shadow_UnRegister_Property :: "'w hal \<Rightarrow> nat \<Rightarrow> 'w shadow \<Rightarrow> int \<times> 'w shadow" where
  "IOT_Shadow_UnRegister_Property E pProperty s =
     (if \<not> IOT_MQTT_IsConnected (Some (sh_mqtt s)) then (QCLOUD_ERR_MQTT_NO_CONN, s)
      else let (exists, s) = shadow_common_check_property_existence E pProperty s in
        if \<not> exists then (QCLOUD_ERR_SHADOW_NOT_PROPERTY_EXIST, s)
        else shadow_common_remove_property E pProperty s)"

text \<open>The timeout in seconds is passed as a \<open>uint8_t\<close>.\<close>

definition init_request_params :: "Method \<Rightarrow> nat option \<Rightarrow> nat \<Rightarrow> nat \<Rightarrow> RequestParams" where
  "init_request_params m callback userContext timeout_sec =
     \<lparr>rp_method = m, rp_timeout_sec = timeout_sec mod 256, rp_request_callback = callback, rp_user_context = userContext\<rparr>"

definition resubscribe_result :: "'w hal \<Rightarrow> 'w shadow \<Rightarrow> 'w shadow option" where
  "resubscribe_result E s =
     (if sync_status s < 0 then do { (_, s) \<leftarrow> subscribe_operation_result_to_cloud E s; Some s } else Some s)"

definition IOT_Shadow_Update :: "'w hal \<Rightarrow> buffer \<Rightarrow> nat \<Rightarrow> nat option \<Rightarrow> nat \<Rightarrow> nat \<Rightarrow> 'w shadow \<Rightarrow> (int \<times> buffer \<times> 'w shadow) option" where
  "IOT_Shadow_Update E doc sizeOfBuffer callback userContext timeout_ms s =
     (if timeout_ms = 0 then Some (QCLOUD_ERR_INVAL, doc, s)
      else if \<not> IOT_MQTT_IsConnected (Some (sh_mqtt s)) then Some (QCLOUD_ERR_MQTT_NO_CONN, doc, s)
      else do {
        s \<leftarrow> resubscribe_result E s;
        do_shadow_request E (init_request_params UPDATE callback userContext (timeout_ms div 1000)) doc sizeOfBuffer s })"

definition IOT_Shadow_Get :: "'w hal \<Rightarrow> nat option \<Rightarrow> nat \<Rightarrow> nat \<Rightarrow> 'w shadow \<Rightarrow> (int \<times> 'w shadow) option" where
  "IOT_Shadow_Get E callback userContext timeout_ms s =
     (if callback = None \<or> timeout_ms = 0 then Some (QCLOUD_ERR_INVAL, s)
      else if \<not> IOT_MQTT_IsConnected (Some (sh_mqtt s)) then Some (QCLOUD_ERR_MQTT_NO_CONN, s)
      else do {
        s \<leftarrow> resubscribe_result E s;
        (doc, tok) \<leftarrow> build_empty_json (product_id (sh_info s)) (token_num s) (replicate MAX_SIZE_OF_JSON_WITH_CLIENT_TOKEN 0);
        (rc, _, s) \<leftarrow> do_shadow_request E (init_request_params GET callback userContext (timeout_ms div 1000)) doc
           MAX_SIZE_OF_JSON_WITH_CLIENT_TOKEN (s\<lparr>token_num := tok\<rparr>);
        Some (rc, s) })"

text \<open>The wait of the synchronous calls: \<open>None\<close> when no answer and no timeout ever comes.\<close>

partial_function (option) sync_wait :: "'w hal \<Rightarrow> float_lib \<Rightarrow> 'w shadow \<Rightarrow> 'w shadow option" where
  "sync_wait E F s =
     (if sh_ack s \<noteq> ACK_NONE then Some s
      else do { (_, s) \<leftarrow> IOT_Shadow_Yield E F 200 s; sync_wait E F s })"

definition sync_code :: "int \<Rightarrow> int \<Rightarrow> RequestAck \<Rightarrow> int" where
  "sync_code timeout rejected ack = (case ack of ACK_TIMEOUT \<Rightarrow> timeout | ACK_REJECTED \<Rightarrow> rejected | _ \<Rightarrow> QCLOUD_RET_SUCCESS)"

definition IOT_Shadow_Update_Sync :: "'w hal \<Rightarrow> float_lib \<Rightarrow> buffer \<Rightarrow> nat \<Rightarrow> nat \<Rightarrow> 'w shadow \<Rightarrow> (int \<times> buffer \<times> 'w shadow) option" where
  "IOT_Shadow_Update_Sync E F doc sizeOfBuffer timeout_ms s =
     (if timeout_ms = 0 then Some (QCLOUD_ERR_INVAL, doc, s)
      else if \<not> IOT_MQTT_IsConnected (Some (sh_mqtt s)) then Some (QCLOUD_ERR_MQTT_NO_CONN, doc, s)
      else do {
        (rc, doc, s) \<leftarrow> IOT_Shadow_Update E doc sizeOfBuffer (Some update_ack_cb) 0 timeout_ms (s\<lparr>sh_ack := ACK_NONE\<rparr>);
        if rc \<noteq> QCLOUD_RET_SUCCESS then Some (rc, doc, s)
        else do {
          s \<leftarrow> sync_wait E F s;
          Some (sync_code QCLOUD_ERR_SHADOW_UPDATE_TIMEOUT QCLOUD_ERR_SHADOW_UPDATE_REJECTED (sh_ack s), doc, s) } })"

definition IOT_Shadow_Get_Sync :: "'w hal \<Rightarrow> float_lib \<Rightarrow> nat \<Rightarrow> 'w shadow \<Rightarrow> (int \<times> 'w shadow) option" where
  "IOT_Shadow_Get_Sync E F timeout_ms s =
     (if timeout_ms = 0 then Some (QCLOUD_ERR_INVAL, s)
      else if \<not> IOT_MQTT_IsConnected (Some (sh_mqtt s)) then Some (QCLOUD_ERR_MQTT_NO_CONN, s)
      else do {
        (rc, s) \<leftarrow> IOT_Shadow_Get E (Some update_ack_cb) 0 timeout_ms (s\<lparr>sh_ack := ACK_NONE\<rparr>);
        if rc \<noteq> QCLOUD_RET_SUCCESS then Some (rc, s)
        else do {
          s \<leftarrow> sync_wait E F s;
          Some (sync_code QCLOUD_ERR_SHADOW_GET_TIMEOUT QCLOUD_ERR_SHADOW_GET_REJECTED (sh_ack s), s) } })"

text \<open>
  \<open>IOT_Shadow_Construct\<close> behind the construction of the MQTT client \<open>c\<close>. The memory of the shadow is
  used whether its allocation \<open>ok\<close> succeeded or not. \<open>sync\<close> is what the uninitialised
  \<open>sync_status\<close> holds, and \<open>buf\<close> the static buffer.
\<close>

partial_function (option) construct_wait :: "'w hal \<Rightarrow> float_lib \<Rightarrow> int \<Rightarrow> 'w shadow \<Rightarrow> 'w shadow option" where
  "construct_wait E F rc s =
     (if rc \<noteq> sync_status s then Some s
      else do { (_, s) \<leftarrow> IOT_Shadow_Yield E F 100 s; construct_wait E F rc s })"

definition shadow_of :: "bool \<Rightarrow> bool \<Rightarrow> int \<Rightarrow> buffer \<Rightarrow> DeviceInfo \<Rightarrow> (nat \<Rightarrow> DeviceProperty option) \<Rightarrow> 'w client \<Rightarrow> 'w shadow" where
  "shadow_of template h sync buf d vars c = \<lparr>sh_mqtt = c, sh_template = template, sh_handler = h, token_num = 0,
     sync_status = sync, request_list = [], property_handle_list = [], result_topic = None, cloud_rcv_buf = buf, sh_info = d,
     sh_vars = vars, sh_ack = ACK_NONE, next_block = 0, sh_trace = []\<rparr>"

definition IOT_Shadow_Construct :: "'w hal \<Rightarrow> float_lib \<Rightarrow> bool \<Rightarrow> MQTTInitParams \<Rightarrow> bool \<Rightarrow> int \<Rightarrow> buffer
    \<Rightarrow> (nat \<Rightarrow> DeviceProperty option) \<Rightarrow> u16 list \<times> nat \<Rightarrow> 'w mqtt_system \<Rightarrow> ('w shadow option \<times> 'w mqtt_system) option" where
  "IOT_Shadow_Construct E F template params h sync buf vars rb m = do {
     let (ok, w) = hal_malloc E (ms_world m);
     (c, m) \<leftarrow> IOT_MQTT_Construct E (Some (params\<lparr>mi_event_handle := True\<rparr>)) rb (m\<lparr>ms_world := w\<rparr>);
     case c of None \<Rightarrow> Some (None, m)
     | Some c \<Rightarrow>
       if \<not> ok then None
       else do {
         let s = shadow_of template h sync buf (iot_device_info_get (ms_device m)) vars c;
         let (rc, s) = qcloud_iot_shadow_init E s;
         if rc \<noteq> QCLOUD_RET_SUCCESS then do {
           (_, c) \<leftarrow> IOT_MQTT_Destroy E (sh_mqtt s);
           Some (None, m\<lparr>ms_world := world c\<rparr>) }
         else do {
           (rc, s) \<leftarrow> subscribe_operation_result_to_cloud E s;
           s \<leftarrow> (if rc < 0 then Some s else construct_wait E F rc (s\<lparr>sync_status := rc\<rparr>));
           Some (Some s, m) } } }"

end
