(* ===== verification/Shadow_Invariant.thy ===== *)
theory Shadow_Invariant
  imports Shadow_Client
begin

text \<open>
  The invariant of the device shadow over every history of calls: the bounds of its lists, and one answer
  at most for each request. Operations that only talk to the MQTT client are characterised by what they
  leave unchanged.
\<close>

section \<open>What an operation leaves unchanged\<close>

lemma on_shadow_eq: "on_shadow f s = (fst (f (world (sh_mqtt s))), s\<lparr>sh_mqtt := (sh_mqtt s)\<lparr>world := snd (f (world (sh_mqtt s)))\<rparr>\<rparr>)"
  by (simp add: on_shadow_def case_prod_beta Let_def)

text \<open>Everything but the MQTT client and the variables of the application.\<close>

definition same_lists :: "'w shadow \<Rightarrow> 'w shadow \<Rightarrow> bool" where
  "same_lists s s' \<longleftrightarrow> request_list s' = request_list s \<and> property_handle_list s' = property_handle_list s
     \<and> next_block s' = next_block s \<and> cloud_rcv_buf s' = cloud_rcv_buf s"

definition request_calls :: "shadow_effect list \<Rightarrow> shadow_effect list" where
  "request_calls tr = filter (\<lambda>e. case e of Request_Callback _ _ _ _ _ \<Rightarrow> True | _ \<Rightarrow> False) tr"

lemma request_calls_append [simp]: "request_calls (xs @ ys) = request_calls xs @ request_calls ys"
  by (simp add: request_calls_def)

text \<open>An operation that only talks to the MQTT client: no request is answered.\<close>

definition quiet :: "'w shadow \<Rightarrow> 'w shadow \<Rightarrow> bool" where
  "quiet s s' \<longleftrightarrow> same_lists s s' \<and> request_calls (sh_trace s') = request_calls (sh_trace s) \<and> sh_ack s' = sh_ack s"

lemma quiet_refl [simp]: "quiet s s"
  by (simp add: quiet_def same_lists_def)

lemma quiet_trans: "quiet s s' \<Longrightarrow> quiet s' s'' \<Longrightarrow> quiet s s''"
  by (simp add: quiet_def same_lists_def)

lemma quiet_mqtt [simp]: "quiet s (s'\<lparr>sh_mqtt := c\<rparr>) = quiet s s'" "quiet (s\<lparr>sh_mqtt := c\<rparr>) s' = quiet s s'"
  by (simp_all add: quiet_def same_lists_def)

lemma quiet_vars [simp]: "quiet s (s'\<lparr>sh_vars := v\<rparr>) = quiet s s'" "quiet s (s'\<lparr>result_topic := t\<rparr>) = quiet s s'"
  "quiet s (s'\<lparr>token_num := n\<rparr>) = quiet s s'" "quiet s (s'\<lparr>sync_status := y\<rparr>) = quiet s s'"
  by (simp_all add: quiet_def same_lists_def)

lemma try_shadow_quiet: "try_shadow f s = Some (x, s') \<Longrightarrow> quiet s s'"
  by (auto simp: try_shadow_def split: bind_splits)

lemma quiet_left [simp]: "quiet (s\<lparr>sh_vars := v\<rparr>) s' = quiet s s'"
  "quiet (shadow_emit (Property_Callback cb d l p) s) s' = quiet s s'"
  by (simp_all add: quiet_def same_lists_def shadow_emit_def request_calls_def)

lemma delta_loop_quiet: "delta_loop E F d ns s = Some s' \<Longrightarrow> quiet s s'"
proof (induction ns arbitrary: s)
  case (Cons n ns)
  show ?case using Cons.prems
    by (auto simp: Let_def split: bind_splits if_splits option.splits
        dest!: Cons.IH try_shadow_quiet intro: quiet_trans)
qed simp

lemma handle_delta_quiet: "handle_delta E F d s = Some s' \<Longrightarrow> quiet s s'"
  by (auto simp: handle_delta_def on_shadow_eq Let_def split: if_splits dest!: delta_loop_quiet)

lemma delta_part_quiet:
  "(if b then do { (d, s) \<leftarrow> try_shadow f s; case d of None \<Rightarrow> Some s | Some d \<Rightarrow> handle_delta E F d s } else Some s) = Some s'
    \<Longrightarrow> quiet s s'"
  by (auto split: if_splits bind_splits option.splits dest!: try_shadow_quiet handle_delta_quiet intro: quiet_trans)

lemma subscribe_result_quiet: "subscribe_operation_result_to_cloud E s = Some (rc, s') \<Longrightarrow> quiet s s'"
  by (auto simp: subscribe_operation_result_to_cloud_def on_shadow_eq Let_def split: if_splits bind_splits)

lemma resubscribe_quiet: "resubscribe_result E s = Some s' \<Longrightarrow> quiet s s'"
  by (auto simp: resubscribe_result_def split: if_splits bind_splits dest: subscribe_result_quiet)

lemma publish_operation_quiet: "publish_operation_to_cloud E doc s = Some (rc, s') \<Longrightarrow> quiet s s'"
  by (auto simp: publish_operation_to_cloud_def Let_def split: if_splits bind_splits)

section \<open>The invariant\<close>

text \<open>
  At most ten requests; blocks of nodes and handles are distinct and behind \<open>next_block\<close>; the buffer
  keeps its size; the callbacks made so far and the requests that still wait are no more than the blocks
  handed out, so that no request is answered twice.
\<close>

definition shadow_ok :: "'w shadow \<Rightarrow> bool" where
  "shadow_ok s \<longleftrightarrow> length (request_list s) \<le> MAX_APPENDING_REQUEST_AT_ANY_GIVEN_TIME
     \<and> distinct (map fst (request_list s)) \<and> (\<forall>n \<in> set (request_list s). fst n < next_block s \<and> length (req_token (snd n)) = MAX_SIZE_OF_CLIENT_TOKEN)
     \<and> distinct (map fst (property_handle_list s)) \<and> (\<forall>n \<in> set (property_handle_list s). fst n < next_block s)
     \<and> length (cloud_rcv_buf s) = CLOUD_IOT_JSON_RX_BUF_LEN
     \<and> length (request_calls (sh_trace s)) + length (request_list s) \<le> next_block s"

lemma quiet_ok: "quiet s s' \<Longrightarrow> shadow_ok s \<Longrightarrow> shadow_ok s'"
  by (simp add: shadow_ok_def quiet_def same_lists_def)

lemma shadow_ok_mqtt [simp]: "shadow_ok (s\<lparr>sh_mqtt := c\<rparr>) = shadow_ok s"
  by (simp add: shadow_ok_def)

lemma strncpy_length: "length (strncpy n t) = n"
  by (simp add: strncpy_def)

lemma add_request_ok:
  "add_request_to_list E token p s = (rc, s') \<Longrightarrow> shadow_ok s \<Longrightarrow> shadow_ok s'"
  by (auto simp: add_request_to_list_def on_shadow_eq Let_def shadow_ok_def strncpy_length split: if_splits prod.splits;
      fastforce intro: less_SucI)

lemma filter_one:
  assumes "distinct (map fst xs)" and "(a, r) \<in> set xs"
  shows "length (filter (\<lambda>x. fst x \<noteq> a) xs) + 1 = length xs"
  using assms
proof (induction xs)
  case (Cons x xs)
  show ?case
  proof (cases "fst x = a")
    case True
    then have "filter (\<lambda>x. fst x \<noteq> a) xs = xs" using Cons.prems(1) by (auto simp: filter_id_conv intro: rev_image_eqI)
    then show ?thesis using True by simp
  qed (use Cons in auto)
qed simp

definition answered :: "Request \<Rightarrow> RequestAck \<Rightarrow> buffer \<Rightarrow> shadow_effect list" where
  "answered r ack buf = (case req_callback r of None \<Rightarrow> []
     | Some cb \<Rightarrow> [Request_Callback cb (req_method r) ack buf (req_user_context r)])"

lemma request_calls_answered [simp]: "request_calls (answered r ack buf) = answered r ack buf"
  by (simp add: answered_def request_calls_def split: option.splits)

lemma length_answered: "length (answered r ack buf) \<le> 1"
  by (simp add: answered_def split: option.splits)

lemma call_request_eq:
  "sh_trace (call_request r ack s) = sh_trace s @ answered r ack (cloud_rcv_buf s)"
  "same_lists s (call_request r ack s)"
  "sh_mqtt (call_request r ack s) = sh_mqtt s" "sh_vars (call_request r ack s) = sh_vars s"
  by (auto simp: call_request_def answered_def shadow_emit_def same_lists_def Let_def split: option.splits)

lemma remove_called_ok:
  assumes "shadow_ok s" and "(a, r) \<in> set (request_list s)"
    and "same_lists s s'" and "length (request_calls (sh_trace s')) \<le> length (request_calls (sh_trace s)) + 1"
  shows "shadow_ok (remove_request a s')"
  using assms filter_one [OF _ assms(2)] by (auto simp: shadow_ok_def same_lists_def remove_request_def distinct_map_filter)

lemma remove_request_lists [simp]:
  "request_list (remove_request a s) = filter (\<lambda>x. fst x \<noteq> a) (request_list s)"
  "property_handle_list (remove_request a s) = property_handle_list s"
  "cloud_rcv_buf (remove_request a s) = cloud_rcv_buf s" "sh_trace (remove_request a s) = sh_trace s"
  "next_block (remove_request a s) = next_block s" "sh_mqtt (remove_request a s) = sh_mqtt s"
  "sh_vars (remove_request a s) = sh_vars s"
  by (simp_all add: remove_request_def)

text \<open>One node of the walk for an answer, and the walk.\<close>

lemma handle_request_keeps:
  assumes "handle_request_callback E F token type a r s = Some s'" and "shadow_ok s" and "(a, r) \<in> set (request_list s)"
  shows "shadow_ok s' \<and> (\<forall>n \<in> set (request_list s). fst n \<noteq> a \<longrightarrow> n \<in> set (request_list s'))"
proof -
  have c: "length (request_calls (sh_trace (call_request r ack s1))) \<le> length (request_calls (sh_trace s)) + 1 \<and> same_lists s (call_request r ack s1)"
    if "quiet s s1" for ack s1
    using that call_request_eq(1,2) [where r = r and ack = ack and s = s1] length_answered [of r ack "cloud_rcv_buf s1"]
    by (simp add: quiet_def same_lists_def)
  have q: "shadow_ok (remove_request a s1) \<and> (\<forall>n \<in> set (request_list s). fst n \<noteq> a \<longrightarrow> n \<in> set (request_list (remove_request a s1)))"
    if "same_lists s s1" "length (request_calls (sh_trace s1)) \<le> length (request_calls (sh_trace s)) + 1" for s1
    using remove_called_ok [OF assms(2,3) that] that(1) by (simp add: same_lists_def)
  obtain b where b: "strcmp_eq token (req_token r) = Some b" using assms(1) by (auto simp: handle_request_callback_def split: bind_splits)
  show ?thesis
  proof (cases b)
    case False
    then show ?thesis using assms b by (simp add: handle_request_callback_def)
  next
    case True
    then obtain code s1 where s1: "try_shadow (parse_shadow_operation_result_code E (cloud_rcv_buf s)) s = Some (code, s1)"
      using assms(1) b by (auto simp: handle_request_callback_def split: bind_splits)
    then have q1: "quiet s s1" by (rule try_shadow_quiet)
    show ?thesis
    proof (cases code)
      case None
      then have "s' = remove_request a s1" using assms(1) b s1 True by (simp add: handle_request_callback_def)
      then show ?thesis using q [of s1] q1 by (simp add: quiet_def)
    next
      case (Some x)
      let ?ack = "if x = 0 then ACK_ACCEPTED else ACK_REJECTED"
      obtain s2 where s2: "(if (type = OPERATION_GET \<and> ?ack = ACK_ACCEPTED) \<or> (type \<noteq> OPERATION_UPDATE \<and> ?ack = ACK_REJECTED)
          then do { (d, s) \<leftarrow> try_shadow (parse_shadow_operation_get E (cloud_rcv_buf s1)) s1;
                    case d of None \<Rightarrow> Some s | Some d \<Rightarrow> handle_delta E F d s }
          else Some s1) = Some s2" "s' = remove_request a (call_request r ?ack s2)"
        using assms(1) b s1 True Some unfolding handle_request_callback_def Let_def by (auto split: bind_split_asm)
      have "quiet s1 s2" using s2(1) by (rule delta_part_quiet)
      then show ?thesis using c [OF quiet_trans [OF q1]] s2(2) q by blast
    qed
  qed
qed

lemma answer_loop_keeps:
  "answer_loop E F token type ns s = Some s' \<Longrightarrow> shadow_ok s \<Longrightarrow> distinct (map fst ns) \<Longrightarrow> set ns \<subseteq> set (request_list s)
    \<Longrightarrow> shadow_ok s'"
proof (induction ns arbitrary: s)
  case (Cons n ns)
  obtain s1 where s1: "handle_request_callback E F token type (fst n) (snd n) s = Some s1" "answer_loop E F token type ns s1 = Some s'"
    using Cons.prems(1) by (auto split: bind_splits)
  have "shadow_ok s1" "\<forall>m \<in> set (request_list s). fst m \<noteq> fst n \<longrightarrow> m \<in> set (request_list s1)"
    using handle_request_keeps [OF s1(1) Cons.prems(2)] Cons.prems(4) by auto
  moreover have "\<forall>m \<in> set ns. fst m \<noteq> fst n" using Cons.prems(3) by (metis distinct.simps(2) image_eqI list.set_map list.simps(9))
  ultimately show ?case using Cons.IH [OF s1(2)] Cons.prems(3,4) by auto
qed simp

lemma expire_loop_keeps:
  "shadow_ok s \<Longrightarrow> distinct (map fst ns) \<Longrightarrow> set ns \<subseteq> set (request_list s) \<Longrightarrow> shadow_ok (expire_loop E ns s)"
proof (induction ns arbitrary: s)
  case (Cons n ns)
  let ?s = "snd (on_shadow (expired E (req_timer (snd n))) s)" and ?s' = "handle_expired_request_callback E (fst n) (snd n) s"
  have q: "quiet s ?s" by (simp add: on_shadow_eq)
  have c: "length (request_calls (sh_trace (call_request (snd n) ACK_TIMEOUT ?s))) \<le> length (request_calls (sh_trace s)) + 1
      \<and> same_lists s (call_request (snd n) ACK_TIMEOUT ?s)"
    using q call_request_eq(1,2) [where r = "snd n" and ack = ACK_TIMEOUT and s = ?s] length_answered [of "snd n" ACK_TIMEOUT "cloud_rcv_buf ?s"]
    by (simp add: quiet_def same_lists_def)
  have m: "\<forall>m \<in> set ns. fst m \<noteq> fst n" using Cons.prems(2) by (metis distinct.simps(2) image_eqI list.set_map list.simps(9))
  have e: "?s' = (if fst (on_shadow (expired E (req_timer (snd n))) s) then remove_request (fst n) (call_request (snd n) ACK_TIMEOUT ?s) else ?s)"
    by (simp add: handle_expired_request_callback_def case_prod_beta)
  have "shadow_ok ?s' \<and> set ns \<subseteq> set (request_list ?s')"
    using Cons.prems q quiet_ok [OF q] c m remove_called_ok [of s "fst n" "snd n" "call_request (snd n) ACK_TIMEOUT ?s"]
    unfolding e by (auto simp: quiet_def same_lists_def)
  then show ?case using Cons.IH Cons.prems(2) by simp
qed simp

lemma traverse_keeps:
  assumes "traverse_list E walk s = Some s'" and "shadow_ok s"
    and "\<And>s1. quiet s s1 \<Longrightarrow> walk (rev (request_list s)) s1 = Some s' \<Longrightarrow> shadow_ok s'"
  shows "shadow_ok s'"
proof (cases "s' = s")
  case False
  let ?s = "snd (on_shadow (hal_malloc E) s)"
  have "quiet s ?s" by (simp add: on_shadow_eq)
  moreover have "walk (rev (request_list s)) ?s = Some s' \<or> s' = ?s"
    using assms(1) False by (auto simp: traverse_list_def on_shadow_eq Let_def split: if_splits)
  ultimately show ?thesis using assms(2,3) quiet_ok by blast
qed (use assms(2) in simp)

lemma expired_keeps:
  assumes "handle_expired_request E s = Some s'" and "shadow_ok s"
  shows "shadow_ok s'"
  using assms(1) unfolding handle_expired_request_def
proof (rule traverse_keeps [OF _ assms(2)])
  fix s1
  assume "quiet s s1" "Some (expire_loop E (rev (request_list s)) s1) = Some s'"
  then show "shadow_ok s'" using expire_loop_keeps [of s1 "rev (request_list s)" E] quiet_ok [of s s1] assms(2)
    by (auto simp: quiet_def same_lists_def shadow_ok_def rev_map [symmetric])
qed

lemma answers_keep:
  assumes "traverse_list E (answer_loop E F token type) s = Some s'" and "shadow_ok s"
  shows "shadow_ok s'"
  using assms(1)
proof (rule traverse_keeps [OF _ assms(2)])
  fix s1
  assume "quiet s s1" "answer_loop E F token type (rev (request_list s)) s1 = Some s'"
  then show "shadow_ok s'" using answer_loop_keeps [of E F token type "rev (request_list s)" s1 s'] quiet_ok [of s s1] assms(2)
    by (auto simp: quiet_def same_lists_def shadow_ok_def rev_map [symmetric])
qed

section \<open>Every operation keeps the invariant\<close>

lemma write_length: "mem_write b p x = Some b' \<Longrightarrow> length b' = length b"
  by (auto simp: mem_write_def split: if_splits)

lemma copy_length: "mem_copy b p t = Some b' \<Longrightarrow> length b' = length b"
  by (auto simp: mem_copy_def split: if_splits)

lemma result_handler_keeps:
  assumes "on_operation_result_handler E F msg s = Some s'" and "shadow_ok s"
  shows "shadow_ok s'"
proof -
  have b: "shadow_ok s1" if "try_shadow f (s\<lparr>cloud_rcv_buf := b\<rparr>) = Some (x, s1)" "length b = length (cloud_rcv_buf s)"
    for f b and x :: "cstring option" and s1
    using try_shadow_quiet [OF that(1)] that(2) assms(2) quiet_ok by (fastforce simp: shadow_ok_def)
  have t: "shadow_ok s2" if "try_shadow f s1 = Some (x, s2)" "shadow_ok s1" for f s1 s2 and x :: "cstring option"
    using try_shadow_quiet [OF that(1)] that(2) quiet_ok by blast
  have d: "shadow_ok s2" if "handle_delta E F u s1 = Some s2" "shadow_ok s1" for u s1 s2
    using handle_delta_quiet [OF that(1)] that(2) quiet_ok by blast
  show ?thesis
  proof (cases "msg_topic_len msg = 0 \<or> pv_payload_len (msg_view msg) > CLOUD_IOT_JSON_RX_BUF_LEN")
    case True
    then have "on_operation_result_handler E F msg s = Some s"
      by (cases "msg_topic_len msg = 0") (simp_all add: on_operation_result_handler_def)
    then show ?thesis using assms by simp
  next
    case False
    then obtain t x b0 ty s1 where s1: "mem_copy (cloud_rcv_buf s) 0 t = Some x"
      "mem_write x (min (CLOUD_IOT_JSON_RX_BUF_LEN - 1) (pv_payload_len (msg_view msg))) 0 = Some b0"
      "try_shadow (parse_shadow_operation_type E b0) (s\<lparr>cloud_rcv_buf := b0\<rparr>) = Some (ty, s1)"
      "(case ty of None \<Rightarrow> Some s1 | Some type \<Rightarrow>
            if type = OPERATION_DELTA then do {
              (d, s) \<leftarrow> try_shadow (parse_shadow_operation_delta E b0) s1;
              case d of None \<Rightarrow> Some s | Some d \<Rightarrow> handle_delta E F d s }
            else do {
              (token, s) \<leftarrow> try_shadow (parse_client_token E b0) s1;
              case token of None \<Rightarrow> Some s
              | Some token \<Rightarrow> traverse_list E (answer_loop E F token type) s }) = Some s'"
      using assms(1) unfolding on_operation_result_handler_def Let_def by (auto split: bind_split_asm)
    have ok: "shadow_ok s1" by (rule b [OF s1(3)]) (use s1(1,2) copy_length write_length in force)
    show ?thesis
    proof (cases ty)
      case (Some type)
      then show ?thesis using s1(4) ok t d answers_keep
        by (cases "type = OPERATION_DELTA") (fastforce split: bind_split_asm option.splits)+
    qed (use s1(4) ok in simp)
  qed
qed

lemma event_handler_keeps: "shadow_ok s \<Longrightarrow> shadow_ok (shadow_event_handler e i s)"
  by (simp add: shadow_event_handler_def shadow_ok_def shadow_emit_def request_calls_def)

lemma effects_keep: "handle_effects E F es s = Some s' \<Longrightarrow> shadow_ok s \<Longrightarrow> shadow_ok s'"
proof (induction es arbitrary: s)
  case (Cons e es)
  have m: "shadow_ok (shadow_emit (Shadow_Message msg) s)" for msg
    using Cons.prems(2) by (simp add: shadow_ok_def shadow_emit_def request_calls_def)
  show ?case using Cons.prems Cons.IH
    by (cases e) (auto split: bind_splits if_splits intro: event_handler_keeps m result_handler_keeps)
qed simp

lemma yield_keeps: "IOT_Shadow_Yield E F t s = Some (rc, s') \<Longrightarrow> shadow_ok s \<Longrightarrow> shadow_ok s'"
  by (auto simp: IOT_Shadow_Yield_def Let_def split: if_splits bind_splits dest!: expired_keeps effects_keep)

lemma do_request_keeps: "do_shadow_request E p doc sz s = Some (rc, doc', s') \<Longrightarrow> shadow_ok s \<Longrightarrow> shadow_ok s'"
  by (auto simp: do_shadow_request_def Let_def split: if_splits bind_splits option.splits prod.splits
      dest!: try_shadow_quiet publish_operation_quiet dest: add_request_ok quiet_ok)

lemma update_keeps: "IOT_Shadow_Update E doc sz cb u t s = Some (rc, doc', s') \<Longrightarrow> shadow_ok s \<Longrightarrow> shadow_ok s'"
  by (auto simp: IOT_Shadow_Update_def split: if_splits bind_splits dest!: resubscribe_quiet dest: do_request_keeps quiet_ok)

lemma ok_fields [simp]: "shadow_ok (s\<lparr>token_num := n\<rparr>) = shadow_ok s" "shadow_ok (s\<lparr>sh_ack := a\<rparr>) = shadow_ok s"
  "shadow_ok (s\<lparr>sync_status := y\<rparr>) = shadow_ok s" "shadow_ok (s\<lparr>sh_vars := v\<rparr>) = shadow_ok s"
  by (simp_all add: shadow_ok_def)

lemma get_keeps:
  assumes "IOT_Shadow_Get E cb u t s = Some (rc, s')" and "shadow_ok s"
  shows "shadow_ok s'"
proof -
  have r: "shadow_ok s2" if "do_shadow_request E p doc sz (s1\<lparr>token_num := n\<rparr>) = Some (x, y, s2)" "resubscribe_result E s = Some s1"
    for p doc sz s1 n x y s2
    using do_request_keeps [OF that(1)] quiet_ok [OF resubscribe_quiet [OF that(2)] assms(2)] by simp
  show ?thesis using assms by (auto simp: IOT_Shadow_Get_def split: if_splits bind_splits intro: r)
qed

lemma sync_wait_keeps:
  assumes "sync_wait E F s = Some s'" and "shadow_ok s"
  shows "shadow_ok s'"
proof -
  have "shadow_ok s \<longrightarrow> shadow_ok s'"
    using assms(1)
  proof (rule sync_wait.raw_induct [where P = "\<lambda>E F s s'. shadow_ok s \<longrightarrow> shadow_ok s'", rotated], goal_cases)
    case (1 f E F s y)
    show ?case using 1(2) by (auto split: if_splits bind_splits dest!: 1(1) dest: yield_keeps)
  qed
  then show ?thesis using assms(2) by simp
qed

lemma construct_wait_keeps:
  assumes "construct_wait E F r s = Some s'" and "shadow_ok s"
  shows "shadow_ok s'"
proof -
  have "shadow_ok s \<longrightarrow> shadow_ok s'"
    using assms(1)
  proof (rule construct_wait.raw_induct [where P = "\<lambda>E F r s s'. shadow_ok s \<longrightarrow> shadow_ok s'", rotated], goal_cases)
    case (1 f E F r s y)
    show ?case using 1(2) by (auto split: if_splits bind_splits dest!: 1(1) dest: yield_keeps)
  qed
  then show ?thesis using assms(2) by simp
qed

lemma update_sync_keeps: "IOT_Shadow_Update_Sync E F doc sz t s = Some (rc, doc', s') \<Longrightarrow> shadow_ok s \<Longrightarrow> shadow_ok s'"
  by (auto simp: IOT_Shadow_Update_Sync_def split: if_splits bind_splits dest!: update_keeps dest: sync_wait_keeps)

lemma get_sync_keeps: "IOT_Shadow_Get_Sync E F t s = Some (rc, s') \<Longrightarrow> shadow_ok s \<Longrightarrow> shadow_ok s'"
  by (auto simp: IOT_Shadow_Get_Sync_def split: if_splits bind_splits dest!: get_keeps dest: sync_wait_keeps)

lemma find_property_quiet: "find_property E a s = (n, s') \<Longrightarrow> quiet s s' \<and> (\<exists>c. s' = s\<lparr>sh_mqtt := c\<rparr>)"
  by (auto simp: find_property_def on_shadow_eq)

lemma add_property_keeps: "add_property_handle_to_list E a cb s = (rc, s') \<Longrightarrow> shadow_ok s \<Longrightarrow> shadow_ok s'"
  by (auto simp: add_property_handle_to_list_def on_shadow_eq Let_def shadow_ok_def split: if_splits;
      fastforce intro: less_SucI)

lemma register_keeps:
  assumes "IOT_Shadow_Register_Property E a cb s = Some (rc, s')" and "shadow_ok s"
  shows "shadow_ok s'"
proof -
  obtain n s1 where s1: "find_property E a s = (n, s1)" by fastforce
  then have ok: "shadow_ok s1" using find_property_quiet [OF s1] assms(2) by auto
  then show ?thesis using assms s1
    by (auto simp: IOT_Shadow_Register_Property_def shadow_common_check_property_existence_def
        shadow_common_register_property_on_delta_def split: if_splits bind_splits dest: add_property_keeps)
qed

lemma unregister_keeps:
  assumes "IOT_Shadow_UnRegister_Property E a s = (rc, s')" and "shadow_ok s"
  shows "shadow_ok s'"
proof -
  obtain n s1 where s1: "find_property E a s = (n, s1)" by fastforce
  obtain m s2 where s2: "find_property E a s1 = (m, s2)" by fastforce
  have ok: "shadow_ok s1" "shadow_ok s2" using find_property_quiet [OF s1] find_property_quiet [OF s2] assms(2) by auto
  have r: "shadow_ok (s2\<lparr>property_handle_list := filter P (property_handle_list s2)\<rparr>)" for P
    using ok(2) by (auto simp: shadow_ok_def distinct_map_filter)
  show ?thesis using assms s1 s2 ok r
    by (auto simp: IOT_Shadow_UnRegister_Property_def shadow_common_check_property_existence_def
        shadow_common_remove_property_def split: if_splits option.splits)
qed

section \<open>Histories\<close>

text \<open>
  A shadow starts with an initialised state around any MQTT client, and the application and the callbacks
  of the client make these steps. The builders of documents change the token number, the application its
  properties; the subscription and the synchronisation status belong to the construction.
\<close>

inductive shadow_step :: "'w hal \<Rightarrow> float_lib \<Rightarrow> 'w shadow \<Rightarrow> 'w shadow \<Rightarrow> bool" for E F where
  step_update: "IOT_Shadow_Update E doc sz cb u t s = Some (rc, doc', s') \<Longrightarrow> shadow_step E F s s'"
| step_update_sync: "IOT_Shadow_Update_Sync E F doc sz t s = Some (rc, doc', s') \<Longrightarrow> shadow_step E F s s'"
| step_get: "IOT_Shadow_Get E cb u t s = Some (rc, s') \<Longrightarrow> shadow_step E F s s'"
| step_get_sync: "IOT_Shadow_Get_Sync E F t s = Some (rc, s') \<Longrightarrow> shadow_step E F s s'"
| step_yield: "IOT_Shadow_Yield E F t s = Some (rc, s') \<Longrightarrow> shadow_step E F s s'"
| step_register: "IOT_Shadow_Register_Property E a cb s = Some (rc, s') \<Longrightarrow> shadow_step E F s s'"
| step_unregister: "IOT_Shadow_UnRegister_Property E a s = (rc, s') \<Longrightarrow> shadow_step E F s s'"
| step_publish: "IOT_Shadow_Publish E n p s = Some (r, s') \<Longrightarrow> shadow_step E F s s'"
| step_subscribe: "IOT_Shadow_Subscribe E n q s = Some (rc, s') \<Longrightarrow> shadow_step E F s s'"
| step_unsubscribe: "IOT_Shadow_Unsubscribe E n s = Some (rc, s') \<Longrightarrow> shadow_step E F s s'"
| step_token: "shadow_step E F s (s\<lparr>token_num := k\<rparr>)"
| step_vars: "shadow_step E F s (s\<lparr>sh_vars := v\<rparr>)"
| step_sync: "subscribe_operation_result_to_cloud E s = Some (rc, s') \<Longrightarrow> shadow_step E F s (s'\<lparr>sync_status := y\<rparr>)"
| step_synced: "construct_wait E F rc s = Some s' \<Longrightarrow> shadow_step E F s s'"

inductive shadow_reachable :: "'w hal \<Rightarrow> float_lib \<Rightarrow> 'w shadow \<Rightarrow> bool" for E F where
  reach_init: "qcloud_iot_shadow_init E (shadow_of template h sync buf d vars c) = (QCLOUD_RET_SUCCESS, s)
    \<Longrightarrow> length buf = CLOUD_IOT_JSON_RX_BUF_LEN \<Longrightarrow> shadow_reachable E F s"
| reach_step: "shadow_reachable E F s \<Longrightarrow> shadow_step E F s s' \<Longrightarrow> shadow_reachable E F s'"

lemma init_keeps: "qcloud_iot_shadow_init E s = (rc, s') \<Longrightarrow> property_handle_list s = [] \<Longrightarrow> request_list s = [] \<Longrightarrow> shadow_ok s \<Longrightarrow> shadow_ok s'"
  by (auto simp: qcloud_iot_shadow_init_def on_shadow_eq Let_def shadow_ok_def split: if_splits)

lemma shadow_of_ok: "length buf = CLOUD_IOT_JSON_RX_BUF_LEN \<Longrightarrow> shadow_ok (shadow_of template h sync buf d vars c)"
  by (simp add: shadow_ok_def shadow_of_def request_calls_def)

lemma shadow_step_ok: "shadow_step E F s s' \<Longrightarrow> shadow_ok s \<Longrightarrow> shadow_ok s'"
proof (induction rule: shadow_step.induct)
  case (step_sync s rc s' y)
  then show ?case using quiet_ok [OF subscribe_result_quiet] by simp
qed (auto simp: IOT_Shadow_Publish_def IOT_Shadow_Subscribe_def IOT_Shadow_Unsubscribe_def
    split: bind_split_asm prod.splits
    intro: update_keeps update_sync_keeps get_keeps get_sync_keeps yield_keeps register_keeps unregister_keeps construct_wait_keeps)

text \<open>What the constructor returns is reachable.\<close>

lemma construct_reachable:
  assumes "IOT_Shadow_Construct E F template params h sync buf vars rb m = Some (Some s, m')"
    and "length buf = CLOUD_IOT_JSON_RX_BUF_LEN"
  shows "shadow_reachable E F s"
proof -
  have r: "shadow_reachable E F (s2\<lparr>sync_status := y\<rparr>)"
    if "qcloud_iot_shadow_init E (shadow_of template h sync buf d vars c) = (QCLOUD_RET_SUCCESS, s1)"
      "subscribe_operation_result_to_cloud E s1 = Some (rc, s2)" for d c s1 rc s2 y
    by (rule reach_step [OF reach_init [OF that(1) assms(2)] step_sync [OF that(2)]])
  have f: "shadow_reachable E F s2"
    if "qcloud_iot_shadow_init E (shadow_of template h sync buf d vars c) = (QCLOUD_RET_SUCCESS, s1)"
      "subscribe_operation_result_to_cloud E s1 = Some (rc, s2)" for d c s1 rc s2
    using r [OF that, of "sync_status s2"] by simp
  have w: "shadow_reachable E F s3"
    if "qcloud_iot_shadow_init E (shadow_of template h sync buf d vars c) = (QCLOUD_RET_SUCCESS, s1)"
      "subscribe_operation_result_to_cloud E s1 = Some (rc, s2)" "construct_wait E F rc (s2\<lparr>sync_status := rc\<rparr>) = Some s3"
    for d c s1 rc s2 s3
    by (rule reach_step [OF r [OF that(1,2)] step_synced [OF that(3)]])
  show ?thesis using assms(1)
    by (auto simp: IOT_Shadow_Construct_def split: bind_split_asm option.split_asm if_split_asm prod.split_asm intro: f w)
qed


definition sample_shadow :: "u32 shadow" where
  "sample_shadow = shadow_of False True 0 (replicate CLOUD_IOT_JSON_RX_BUF_LEN 0) no_device_info (\<lambda>_. None) (sample_client 0)"

lemma sample_shadow_init: "qcloud_iot_shadow_init (clock_hal 1) sample_shadow = (QCLOUD_RET_SUCCESS, sample_shadow)"
  by (simp add: qcloud_iot_shadow_init_def on_shadow_eq clock_hal_def sample_shadow_def shadow_of_def)


end
