(* ===== verification/Shadow_Report.thy ===== *)
theory Shadow_Report
  imports Shadow_Json
begin

text \<open>
  The documents of the shadow client: what each append leaves in the buffer, the text of a report and
  that the reader of \<open>Json_Token\<close> gets the values back, that the builders stay inside the buffer when
  it is not too small, and what they do when it is.
\<close>

section \<open>Appending\<close>

definition holds :: "buffer \<Rightarrow> cstring \<Rightarrow> bool" where
  "holds buf t \<longleftrightarrow> 0 \<notin> set t \<and> (\<exists>z. buf = t @ 0 # z)"

text \<open>What a step may do to a block: the length and everything from \<open>r\<close> on stay.\<close>

definition keeps_from :: "nat \<Rightarrow> buffer \<Rightarrow> buffer \<Rightarrow> bool" where
  "keeps_from r buf buf' \<longleftrightarrow> length buf' = length buf \<and> drop r buf' = drop r buf"

lemma keeps_refl [simp]: "keeps_from r buf buf"
  by (simp add: keeps_from_def)

lemma keeps_trans: "keeps_from r a b \<Longrightarrow> keeps_from r b c \<Longrightarrow> keeps_from r a c"
  by (simp add: keeps_from_def)

lemma keeps_mono: "keeps_from r a b \<Longrightarrow> r \<le> r' \<Longrightarrow> keeps_from r' a b"
  unfolding keeps_from_def by (metis drop_drop le_add_diff_inverse2)

lemma holds_strlen: "holds buf t \<Longrightarrow> strlen buf = Some (length t)"
  by (auto simp: holds_def strlen_skip)

lemma holds_length: "holds buf t \<Longrightarrow> length t < length buf"
  by (auto simp: holds_def)

lemma holds_overlay:
  assumes "holds buf t" and "p \<le> length t" and "p + length x < length buf" and "0 \<notin> set x"
  shows "holds (overlay buf p (x @ [0])) (take p t @ x)"
proof -
  obtain z where z: "buf = t @ 0 # z" "0 \<notin> set t" using assms(1) by (auto simp: holds_def)
  have "take p buf = take p t" using z(1) assms(2) by simp
  then have "overlay buf p (x @ [0]) = (take p t @ x) @ 0 # drop (p + length x + 1) buf" by (simp add: overlay_def)
  moreover have "0 \<notin> set (take p t @ x)" using z(2) assms(4) in_set_takeD by fastforce
  ultimately show ?thesis unfolding holds_def by blast
qed

lemma keeps_overlay:
  assumes a: "p + length x < r" "r \<le> length buf"
  shows "keeps_from r buf (overlay buf p (x @ [0]))"
proof -
  have "drop r (overlay buf p (x @ [0])) = drop (r - (p + length (x @ [0]))) (drop (p + length (x @ [0])) (overlay buf p (x @ [0])))"
    using a(1) by simp
  also have "\<dots> = drop r buf" using a by (subst drop_overlay) simp_all
  finally show ?thesis using a by (simp add: keeps_from_def)
qed

lemma size_minus_le: "b \<le> a \<Longrightarrow> a < 2 ^ 32 \<Longrightarrow> size_minus a b = a - b"
  by (simp add: size_minus_def nat_diff_distrib flip: of_nat_diff)

lemma check_rc: "n < 2 ^ 31 \<Longrightarrow> check_snprintf_return (int k) n = (if k < n then 0 else if k mod 2 ^ 32 < n then 0 else QCLOUD_ERR_JSON_BUFFER_TRUNCATED)"
  by (auto simp: check_snprintf_return_def nat_mod_distrib)

lemma json_append_eq:
  assumes "holds buf t" and "length t \<le> r" and "r \<le> length buf" and "r < 2 ^ 31" and "back \<le> length t"
    and "length x < 2 ^ 31"
  shows "json_append r back (Some x) buf =
    Some (if r \<le> length t + 1 then (QCLOUD_ERR_JSON_BUFFER_TOO_SMALL, buf)
      else (if length x < r - length t then 0 else QCLOUD_ERR_JSON_BUFFER_TRUNCATED,
        overlay buf (length t - back) (take (r - length t - 1) x @ [0])))"
proof -
  have s: "size_minus r (length t) = r - length t" using assms(2,4) by (intro size_minus_le) auto
  have fits: "length t - back + length (take (r - length t - 1) x @ [0]) \<le> length buf" if "\<not> r \<le> length t + 1"
    using that assms(3,5) by simp
  show ?thesis
  proof (cases "r \<le> length t + 1")
    case True
    then have "r - length t \<le> 1" by simp
    then show ?thesis using True holds_strlen [OF assms(1)] s by (simp add: json_append_def Let_def)
  next
    case False
    then have "\<not> r - length t \<le> 1" by simp
    then show ?thesis using False holds_strlen [OF assms(1)] s fits assms(4-6)
      by (simp add: json_append_def HAL_Snprintf_def mem_copy_def check_rc Let_def not_less)
  qed
qed

text \<open>The two outcomes of a step, for a text without zero bytes.\<close>

lemma json_append_ok:
  assumes "holds buf t" and "length t + length x < r" and "x \<noteq> []" and "r \<le> length buf" and "r < 2 ^ 31" and "back \<le> length t" and "0 \<notin> set x"
  shows "\<exists>buf'. json_append r back (Some x) buf = Some (0, buf') \<and> holds buf' (take (length t - back) t @ x) \<and> keeps_from r buf buf'"
proof -
  have x: "0 < length x" using assms(3) by simp
  have "take (r - length t - 1) x = x" using assms(2) by simp
  moreover have "\<not> r \<le> length t + 1" "length x < r - length t" using assms(2) x by linarith+
  ultimately have "json_append r back (Some x) buf = Some (0, overlay buf (length t - back) (x @ [0]))"
    using json_append_eq [OF assms(1) _ assms(4-6), of x] assms(2,5) by simp
  moreover have "length t - back + length x < length buf" using assms(2,4) by simp
  ultimately show ?thesis
    using holds_overlay [OF assms(1), of "length t - back" x] keeps_overlay [of "length t - back" x r buf] assms by simp
qed

lemma json_append_safe:
  assumes "holds buf t" and "length t \<le> r" and "r \<le> length buf" and "r < 2 ^ 31" and "back \<le> length t" and "0 \<notin> set x"
    and "length x < 2 ^ 31"
  shows "\<exists>rc buf' t'. json_append r back (Some x) buf = Some (rc, buf') \<and> holds buf' t' \<and> length t' \<le> r
    \<and> keeps_from r buf buf' \<and> (rc = 0 \<longrightarrow> length t' < r \<and> t' = take (length t - back) t @ x)"
proof (cases "r \<le> length t + 1")
  case True
  then show ?thesis using json_append_eq [OF assms(1-5,7)] assms(1,2) by (auto intro!: exI [of _ t])
next
  case False
  let ?y = "take (r - length t - 1) x"
  have y: "length t - back + length ?y < r" using False by simp
  have z: "0 \<notin> set ?y" using assms(6) by (meson in_set_takeD)
  have h: "holds (overlay buf (length t - back) (?y @ [0])) (take (length t - back) t @ ?y)"
    using holds_overlay [OF assms(1) _ _ z, of "length t - back"] y assms(3) by simp
  have k: "keeps_from r buf (overlay buf (length t - back) (?y @ [0]))" using keeps_overlay [OF y assms(3)] .
  have l: "length (take (length t - back) t @ ?y) < r" using y by simp
  show ?thesis
    using json_append_eq [OF assms(1-5,7)] False h k l
    by (auto intro!: exI [of _ "take (length t - back) t @ ?y"])
qed

section \<open>The nodes of a report\<close>

text \<open>The text of one property: readable, without a zero byte.\<close>

definition prop_text :: "DeviceProperty option \<Rightarrow> cstring option" where
  "prop_text p = do {
     p \<leftarrow> p;
     k \<leftarrow> prop_key p;
     t \<leftarrow> node_text (chars ''true'') (chars ''false'') (prop_data p) (prop_type p);
     if 0 \<in> set k \<or> 0 \<in> set t then None else Some (quoted k @ COLON # t) }"

definition key_part :: "DeviceProperty option \<Rightarrow> cstring" where
  "key_part p = quoted (the (prop_key (the p))) @ [COLON]"

lemma prop_text_split:
  assumes "prop_text p = Some x"
  obtains q k t where "p = Some q" "prop_key q = Some k" "0 \<notin> set k"
    "node_text (chars ''true'') (chars ''false'') (prop_data q) (prop_type q) = Some t" "0 \<notin> set t"
    "x = (quoted k @ [COLON]) @ t" "t \<noteq> []"
  using assms by (auto simp: prop_text_def node_text_def split: bind_splits if_splits)

lemma put_node_ok:
  assumes "prop_text p = Some x" and "holds buf t" and "length t + length x < r" and "r \<le> length buf" and "r < 2 ^ 31"
  obtains q k buf' where "p = Some q" "prop_key q = Some k"
    "put_json_node r k (prop_data q) (prop_type q) buf = Some (0, buf')" "holds buf' (t @ x)" "keeps_from r buf buf'"
proof -
  obtain q k y where q: "p = Some q" "prop_key q = Some k" "0 \<notin> set k"
    "node_text (chars ''true'') (chars ''false'') (prop_data q) (prop_type q) = Some y" "0 \<notin> set y"
    "x = (quoted k @ [COLON]) @ y" "y \<noteq> []"
    using prop_text_split [OF assms(1)] by metis
  obtain b1 where b1: "json_append r 0 (Some (quoted k @ [COLON])) buf = Some (0, b1)"
    "holds b1 (t @ quoted k @ [COLON])" "keeps_from r buf b1"
    using json_append_ok [OF assms(2) _ _ assms(4,5), of "quoted k @ [COLON]" 0] assms(3) q(3,6) by (auto simp: quoted_def)
  have "r \<le> length b1" using b1(3) assms(4) by (simp add: keeps_from_def)
  then obtain b2 where b2: "json_append r 0 (Some y) b1 = Some (0, b2)" "holds b2 (t @ x)" "keeps_from r b1 b2"
    using json_append_ok [OF b1(2) _ q(7) _ assms(5) _ q(5), of 0] assms(3) q(6) by auto
  show thesis
    using that [OF q(1,2) _ b2(2) keeps_trans [OF b1(3) b2(3)]] b1(1) b2(1) q(4)
    by (simp add: put_json_node_def and_then_def)
qed

lemma put_node_safe:
  assumes "prop_text p = Some x" and "length x < 2 ^ 31" and "holds buf t" and "length t \<le> r" and "r \<le> length buf" and "r < 2 ^ 31"
  obtains q k rc buf' t' where "p = Some q" "prop_key q = Some k"
    "put_json_node r k (prop_data q) (prop_type q) buf = Some (rc, buf')" "holds buf' t'" "length t' \<le> r" "keeps_from r buf buf'"
    "rc = 0 \<longrightarrow> t' = t @ x"
proof -
  obtain q k y where q: "p = Some q" "prop_key q = Some k" "0 \<notin> set k"
    "node_text (chars ''true'') (chars ''false'') (prop_data q) (prop_type q) = Some y" "0 \<notin> set y"
    "x = (quoted k @ [COLON]) @ y" "y \<noteq> []"
    using prop_text_split [OF assms(1)] by metis
  obtain rc1 b1 t1 where b1: "json_append r 0 (Some (quoted k @ [COLON])) buf = Some (rc1, b1)"
    "holds b1 t1" "length t1 \<le> r" "keeps_from r buf b1" "rc1 = 0 \<longrightarrow> t1 = t @ quoted k @ [COLON]"
    using json_append_safe [OF assms(3-6), of 0 "quoted k @ [COLON]"] assms(2) q(3,6) by (auto simp: quoted_def)
  have len: "r \<le> length b1" using b1(4) assms(5) by (simp add: keeps_from_def)
  obtain rc2 b2 t2 where b2: "json_append r 0 (Some y) b1 = Some (rc2, b2)" "holds b2 t2" "length t2 \<le> r" "keeps_from r b1 b2"
    "rc2 = 0 \<longrightarrow> t2 = t1 @ y"
    using json_append_safe [OF b1(2,3) len assms(6), of 0 y] assms(2) q(5,6) by auto
  show thesis
  proof (cases "rc1 = 0")
    case True
    then show thesis using that [OF q(1,2) _ b2(2,3) keeps_trans [OF b1(4) b2(4)]] b1 b2 q(4,6)
      by (simp add: put_json_node_def and_then_def)
  next
    case False
    then show thesis using that [OF q(1,2) _ b1(2,3,4), of rc1] b1(1)
      by (simp add: put_json_node_def and_then_def)
  qed
qed

lemma counter_small: "i < 128 \<Longrightarrow> counter8 i = int i"
  by (simp add: counter8_def)

lemma report_loop_ok:
  assumes "\<forall>p \<in> set ps. prop_text p \<noteq> None" and "i + length ps = count" and "count < 128"
    and "holds buf t" and "length t + length (concat (map (\<lambda>p. the (prop_text p)) ps)) < r" and "r \<le> length buf" and "r < 2 ^ 31"
  shows "\<exists>buf'. report_loop r count i ps buf = Some (0, buf') \<and> array_loop r count i ps buf = Some (0, buf')
    \<and> holds buf' (t @ concat (map (\<lambda>p. the (prop_text p)) ps)) \<and> keeps_from r buf buf'"
  using assms
proof (induction ps arbitrary: i buf t)
  case Nil
  then show ?case by (simp add: counter_small)
next
  case (Cons p ps)
  obtain x where x: "prop_text p = Some x" using Cons.prems(1) by auto
  have "length t + length x < r" using Cons.prems(5) x by simp
  then obtain q k b1 where b1: "p = Some q" "prop_key q = Some k"
    "put_json_node r k (prop_data q) (prop_type q) buf = Some (0, b1)" "holds b1 (t @ x)" "keeps_from r buf b1"
    using put_node_ok [OF x Cons.prems(4) _ Cons.prems(6,7)] by metis
  have i: "counter8 i = int i" "i < count" using Cons.prems(2,3) by (simp_all add: counter_small)
  obtain b2 where b2: "report_loop r count (i + 1) ps b1 = Some (0, b2)" "array_loop r count (i + 1) ps b1 = Some (0, b2)"
    "holds b2 ((t @ x) @ concat (map (\<lambda>p. the (prop_text p)) ps))" "keeps_from r b1 b2"
    using Cons.IH [OF _ _ Cons.prems(3) b1(4)] Cons.prems x b1(5) by (auto simp: keeps_from_def)
  then show ?case using b1 i x keeps_trans [OF b1(5) b2(4)] by simp
qed

lemma report_loop_safe:
  assumes "\<forall>p \<in> set ps. prop_text p \<noteq> None \<and> length (the (prop_text p)) < 2 ^ 31" and "i + length ps = count" and "count < 128"
    and "holds buf t" and "length t \<le> r" and "r \<le> length buf" and "r < 2 ^ 31" and "t \<noteq> []"
  shows "\<exists>rc buf' t'. report_loop r count i ps buf = Some (rc, buf') \<and> array_loop r count i ps buf = Some (rc, buf')
    \<and> holds buf' t' \<and> length t' \<le> r \<and> keeps_from r buf buf' \<and> (rc = 0 \<longrightarrow> t' \<noteq> [])"
  using assms
proof (induction ps arbitrary: i buf t)
  case Nil
  then show ?case by (auto simp: counter_small)
next
  case (Cons p ps)
  obtain x where x: "prop_text p = Some x" "length x < 2 ^ 31" using Cons.prems(1) by auto
  obtain q k rc b1 t1 where b1: "p = Some q" "prop_key q = Some k"
    "put_json_node r k (prop_data q) (prop_type q) buf = Some (rc, b1)" "holds b1 t1" "length t1 \<le> r" "keeps_from r buf b1"
    "rc = 0 \<longrightarrow> t1 = t @ x"
    using put_node_safe [OF x Cons.prems(4-7)] by metis
  have i: "counter8 i = int i" "i < count" using Cons.prems(2,3) by (simp_all add: counter_small)
  show ?case
  proof (cases "rc = 0")
    case True
    have len: "r \<le> length b1" using b1(6) Cons.prems(6) by (simp add: keeps_from_def)
    have "t1 \<noteq> []" using True b1(7) Cons.prems(8) by simp
    then obtain rc2 b2 t2 where b2: "report_loop r count (i + 1) ps b1 = Some (rc2, b2)" "array_loop r count (i + 1) ps b1 = Some (rc2, b2)"
      "holds b2 t2" "length t2 \<le> r" "keeps_from r b1 b2" "rc2 = 0 \<longrightarrow> t2 \<noteq> []"
      using Cons.IH [OF _ _ Cons.prems(3) b1(4,5) len Cons.prems(7)] Cons.prems(1,2) by auto
    then show ?thesis using b1 i True keeps_trans [OF b1(6) b2(5)] by auto
  next
    case False
    then show ?thesis using b1 i by auto
  qed
qed

lemma array_report_loop: "i + length ps = count \<Longrightarrow> count < 128 \<Longrightarrow> array_loop r count i ps buf = report_loop r count i ps buf"
  by (induction ps arbitrary: i buf) (auto simp: counter_small intro!: arg_cong [of _ _ "Option.bind _"] ext split: option.split)

section \<open>A whole report\<close>

definition json_head :: "bool \<Rightarrow> cstring" where
  "json_head overwrite = (if overwrite then LBRACE # quoted (chars ''overwriteUpdate'') @ chars '':true, '' @ quoted (chars ''state'') @ [COLON, LBRACE]
     else LBRACE # quoted (chars ''state'') @ [COLON, LBRACE])"

lemma length_quoted [simp]: "length (quoted t) = length t + 2"
  by (simp add: quoted_def)

lemma zero_quoted [simp]: "0 \<in> set (quoted t) \<longleftrightarrow> 0 \<in> set t"
  by (auto simp: quoted_def)

lemma quoted_nonempty [simp]: "quoted t \<noteq> []"
  by (simp add: quoted_def)

lemma length_head: "length (json_head False) = 10" "length (json_head True) = 34"
  by (simp_all add: json_head_def)

lemma zero_head: "0 \<notin> set (json_head ov)"
  by (cases ov) (simp_all add: json_head_def)

lemma init_eq: "IOT_Shadow_JSON_Init sz ov buf = do {
    (rc, buf) \<leftarrow> HAL_Snprintf buf 0 sz (json_head ov);
    Some (check_snprintf_return rc sz, buf) }"
  by (simp add: IOT_Shadow_JSON_Init_def json_head_def)

lemma init_ok:
  assumes "length (json_head ov) < sz" and "sz \<le> length buf" and "sz < 2 ^ 31"
  shows "\<exists>b. IOT_Shadow_JSON_Init sz ov buf = Some (0, b) \<and> holds b (json_head ov) \<and> keeps_from sz buf b"
proof -
  let ?b = "overlay buf 0 (json_head ov @ [0])"
  have t: "take (sz - 1) (json_head ov) = json_head ov" using assms(1) by simp
  have "IOT_Shadow_JSON_Init sz ov buf = Some (0, ?b)"
    using assms t by (simp add: init_eq HAL_Snprintf_def mem_copy_def check_rc)
  moreover have "holds ?b (json_head ov)" using zero_head [of ov] by (auto simp: holds_def overlay_def)
  ultimately show ?thesis using keeps_overlay [of 0 "json_head ov" sz buf] assms by simp
qed

definition field_text :: "cstring \<Rightarrow> cstring" where
  "field_text field = quoted field @ [COLON, LBRACE]"

lemma concat_commas: "ms \<noteq> [] \<Longrightarrow> concat (map (\<lambda>x. x @ [COMMA]) ms) = commas ms @ [COMMA]"
  by (induction ms rule: commas.induct) auto

text \<open>The properties are those of the members \<open>ms\<close>.\<close>

definition props_of :: "DeviceProperty option list \<Rightarrow> (jkey \<times> jval) list \<Rightarrow> bool" where
  "props_of ps ms \<longleftrightarrow> list_all2 (\<lambda>p m. prop_text p = Some (mtext m @ [COMMA])) ps ms"

lemma props_concat: "props_of ps ms \<Longrightarrow> (\<forall>p \<in> set ps. prop_text p \<noteq> None)
    \<and> map (\<lambda>p. the (prop_text p)) ps = map (\<lambda>x. x @ [COMMA]) (map mtext ms) \<and> length ps = length ms"
  unfolding props_of_def by (induction rule: list_all2_induct) auto

lemma prop_text_nonzero: "prop_text p = Some x \<Longrightarrow> 0 \<notin> set x"
  by (erule prop_text_split) simp

lemma report_field_ok:
  assumes ps: "props_of ps ms" "ms \<noteq> []" "length ps < 128"
    and nodes: "\<And>r b. nodes r b = report_loop r (length ps) 0 ps b \<or> nodes r b = array_loop r (length ps) 0 ps b"
    and buf: "sz \<le> length buf" "sz < 2 ^ 31"
    and field: "0 \<notin> set field" "length field = f"
    and fit: "2 * length (json_head ov) + f + 4 + length (commas (map mtext ms)) + 1 < sz"
  shows "\<exists>b. report_field ov field nodes sz buf = Some (0, b)
    \<and> holds b (json_head ov @ field_text field @ commas (map mtext ms) @ chars ''},'') \<and> keeps_from sz buf b"
proof -
  let ?h = "json_head ov" let ?c = "commas (map mtext ms)"
  obtain b1 where b1: "IOT_Shadow_JSON_Init sz ov buf = Some (0, b1)" "holds b1 ?h" "keeps_from sz buf b1"
    using init_ok [OF _ buf, of ov] fit by auto
  have l1: "sz \<le> length b1" using b1(3) buf(1) by (simp add: keeps_from_def)
  have r: "size_minus sz (length ?h) = sz - length ?h" using fit buf(2) by (intro size_minus_le) auto
  obtain b2 where b2: "json_append sz 0 (Some (field_text field)) b1 = Some (0, b2)" "holds b2 (?h @ field_text field)" "keeps_from sz b1 b2"
    using json_append_ok [OF b1(2) _ _ l1 buf(2), of "field_text field" 0] fit field by (auto simp: field_text_def)
  note pc = props_concat [OF ps(1)]
  have ct: "concat (map (\<lambda>p. the (prop_text p)) ps) = ?c @ [COMMA]" using pc ps(2) concat_commas [of "map mtext ms"] by simp
  have l2: "sz - length ?h \<le> length b2" using b2(3) l1 by (simp add: keeps_from_def)
  have lt: "length (?h @ field_text field) + length (concat (map (\<lambda>p. the (prop_text p)) ps)) < sz - length ?h"
    using ct fit field by (simp add: field_text_def)
  have r31: "sz - length ?h < 2 ^ 31" using buf(2) by simp
  obtain b3 where b3: "nodes (sz - length ?h) b2 = Some (0, b3)"
    "holds b3 ((?h @ field_text field) @ ?c @ [COMMA])" "keeps_from (sz - length ?h) b2 b3"
    using report_loop_ok [OF _ _ _ b2(2) lt l2 r31, of 0 "length ps"] pc ps(3) buf(2) nodes [of "sz - length ?h" b2] ct by auto
  have l3: "sz \<le> length b3" using b3(3) b2(3) l1 by (simp add: keeps_from_def)
  have z3: "0 \<notin> set (chars ''},'')" by simp
  have "length ?h \<ge> 10" by (cases ov) (simp_all add: length_head)
  then have lt3: "length ((?h @ field_text field) @ ?c @ [COMMA]) + length (chars ''},'') < sz"
    using fit field by (simp add: field_text_def)
  obtain b4 where b4: "json_append sz 1 (Some (chars ''},'')) b3 = Some (0, b4)"
    "holds b4 (take (length ((?h @ field_text field) @ ?c @ [COMMA]) - 1) ((?h @ field_text field) @ ?c @ [COMMA]) @ chars ''},'')" "keeps_from sz b3 b4"
    using json_append_ok [OF b3(2) lt3 _ l3 buf(2) _ z3, of 1] by (auto simp: chars_def)
  have "take (length ((?h @ field_text field) @ ?c @ [COMMA]) - 1) ((?h @ field_text field) @ ?c @ [COMMA]) = ?h @ field_text field @ ?c"
    by simp
  then have h4: "holds b4 (?h @ field_text field @ ?c @ chars ''},'')" using b4(2) by simp
  have k: "keeps_from sz buf b4"
    using b1(3) b2(3) keeps_mono [OF b3(3), of sz] b4(3) keeps_trans by (metis diff_le_self)
  have "report_field ov field nodes sz buf = Some (0, b4)"
    using holds_strlen [OF b1(2)] b1(1) b2(1) b3(1) b4(1) r
    by (simp add: report_field_def and_then_def field_text_def Let_def)
  then show ?thesis using h4 k by blast
qed

lemma finalize_ok:
  assumes h: "holds buf (t @ chars '','')" and buf: "sz \<le> length buf" "sz < 2 ^ 31"
    and pid: "0 \<notin> set pid" and fit: "length t + 18 + length (token_text pid tok) + 2 < sz"
  shows "\<exists>b. IOT_Shadow_JSON_Finalize pid sz tok buf = Some (0, b, tok + 1)
    \<and> holds b (t @ chars ''}, '' @ quoted CLIENT_TOKEN_FIELD @ [COLON] @ quoted (token_text pid tok) @ [RBRACE]) \<and> keeps_from sz buf b"
proof -
  let ?x = "chars ''}, '' @ quoted CLIENT_TOKEN_FIELD @ [COLON, QUOTE]"
  have lx: "length ?x = 18" "0 \<notin> set ?x" by (simp_all add: CLIENT_TOKEN_FIELD_def)
  have ztok: "0 \<notin> set (token_text pid tok)" using pid digits_nat_text [of "unat tok"] by (auto simp: token_text_def digits_def)
  obtain b1 where b1: "json_append sz 1 (Some ?x) buf = Some (0, b1)" "holds b1 (t @ ?x)" "keeps_from sz buf b1"
  proof -
    have "?x \<noteq> []" by (simp add: chars_def)
    then have "\<exists>buf'. json_append sz 1 (Some ?x) buf = Some (0, buf') \<and> holds buf' (take (length (t @ chars '','') - 1) (t @ chars '','') @ ?x)
        \<and> keeps_from sz buf buf'"
      using fit lx by (intro json_append_ok [OF h _ _ buf _ lx(2)]) simp_all
    then show thesis using that by auto
  qed
  have l1: "sz \<le> length b1" using b1(3) buf(1) by (simp add: keeps_from_def)
  have lt: "length (t @ ?x) = length t + 18" using lx by simp
  have r: "size_minus sz (length t + 18) = sz - (length t + 18)" using fit buf(2) by (intro size_minus_le) auto
  let ?tok = "token_text pid tok"
  define b2 where "b2 = overlay b1 (length t + 18) (?tok @ [0])"
  have s2: "HAL_Snprintf b1 (length t + 18) (sz - (length t + 18)) ?tok = Some (int (length ?tok), b2)"
    using fit l1 by (simp add: HAL_Snprintf_def mem_copy_def b2_def)
  have h2: "holds b2 ((t @ ?x) @ ?tok)"
    using holds_overlay [OF b1(2) _ _ ztok, of "length t + 18"] lt fit l1 by (simp add: b2_def)
  have k2: "keeps_from sz b1 b2" unfolding b2_def using fit l1 by (intro keeps_overlay) simp_all
  have l2: "sz \<le> length b2" using k2 l1 by (simp add: keeps_from_def)
  obtain b3 where b3: "json_append sz 0 (Some [QUOTE, RBRACE]) b2 = Some (0, b3)"
    "holds b3 (((t @ ?x) @ ?tok) @ [QUOTE, RBRACE])" "keeps_from sz b2 b3"
    using json_append_ok [OF h2 _ _ l2 buf(2), of "[QUOTE, RBRACE]" 0] fit lx by auto
  have c: "check_snprintf_return (int (length ?tok)) (sz - (length t + 18)) = 0" using fit buf(2) by (subst check_rc) auto
  have n1: "\<not> sz - (length t + 18) \<le> 1" using fit by simp
  have "IOT_Shadow_JSON_Finalize pid sz tok buf = Some (0, b3, tok + 1)"
    using b1(1) holds_strlen [OF b1(2)] lt r s2 c n1 b3(1)
    by (simp add: IOT_Shadow_JSON_Finalize_def generate_client_token_def add_client_token_def Let_def del: length_append)
  moreover have "((t @ ?x) @ ?tok) @ [QUOTE, RBRACE] = t @ chars ''}, '' @ quoted CLIENT_TOKEN_FIELD @ [COLON] @ quoted ?tok @ [RBRACE]"
    by (simp add: quoted_def)
  ultimately show ?thesis using b3(2) keeps_trans [OF keeps_trans [OF b1(3) k2] b3(3)] by metis
qed

section \<open>Staying inside the buffer\<close>

lemma finalize_safe:
  assumes h: "holds buf t" "t \<noteq> []" "length t \<le> sz" and buf: "sz \<le> length buf" "sz < 2 ^ 31"
    and pid: "0 \<notin> set pid" "length (token_text pid tok) < 2 ^ 31"
  shows "\<exists>rc b tok'. IOT_Shadow_JSON_Finalize pid sz tok buf = Some (rc, b, tok') \<and> keeps_from sz buf b"
proof -
  let ?x = "chars ''}, '' @ quoted CLIENT_TOKEN_FIELD @ [COLON, QUOTE]" and ?tok = "token_text pid tok"
  have lx: "length ?x < 2 ^ 31" "0 \<notin> set ?x" "?x \<noteq> []" by (simp_all add: CLIENT_TOKEN_FIELD_def chars_def)
  have ztok: "0 \<notin> set ?tok" using pid digits_nat_text [of "unat tok"] by (auto simp: token_text_def digits_def)
  have ltok: "?tok \<noteq> []" by (simp add: token_text_def)
  have "1 \<le> length t" using h(2) by (cases t) auto
  then obtain rc1 b1 t1 where b1: "json_append sz 1 (Some ?x) buf = Some (rc1, b1)" "holds b1 t1" "length t1 \<le> sz"
    "keeps_from sz buf b1" "rc1 = 0 \<longrightarrow> length t1 < sz \<and> t1 = take (length t - 1) t @ ?x"
    using json_append_safe [OF h(1,3) buf _ lx(2,1), of 1] by auto
  show ?thesis
  proof (cases "rc1 = 0")
    case False
    then show ?thesis using b1(1,4) by (simp add: IOT_Shadow_JSON_Finalize_def)
  next
    case True
    have l1: "sz \<le> length b1" using b1(4) buf(1) by (simp add: keeps_from_def)
    have r: "size_minus sz (length t1) = sz - length t1" using b1(3) buf(2) by (intro size_minus_le) auto
    show ?thesis
    proof (cases "sz - length t1 \<le> 1")
      case small: True
      then show ?thesis using b1(1,4) True holds_strlen [OF b1(2)] r by (simp add: IOT_Shadow_JSON_Finalize_def Let_def)
    next
      case False
      let ?y = "take (sz - length t1 - 1) ?tok"
      define b2 where "b2 = overlay b1 (length t1) (?y @ [0])"
      have s2: "HAL_Snprintf b1 (length t1) (sz - length t1) ?tok = Some (int (length ?tok), b2)"
      proof -
        have "length t1 + length (?y @ [0]) \<le> length b1" "sz - length t1 \<noteq> 0" using False l1 by simp_all
        then show ?thesis by (simp only: HAL_Snprintf_def mem_copy_def b2_def if_True if_False bind.bind_lunit)
      qed
      have zy: "0 \<notin> set ?y" using ztok by (meson in_set_takeD)
      have ly: "length t1 + length ?y < sz" using False by simp
      have h2: "holds b2 (t1 @ ?y)" using holds_overlay [OF b1(2) _ _ zy, of "length t1"] ly l1 by (simp add: b2_def)
      have k2: "keeps_from sz b1 b2" unfolding b2_def using ly l1 by (rule keeps_overlay)
      have l2: "sz \<le> length b2" using k2 l1 by (simp add: keeps_from_def)
      obtain rc3 b3 where b3: "json_append sz 0 (Some [QUOTE, RBRACE]) b2 = Some (rc3, b3)" "keeps_from sz b2 b3"
        using json_append_safe [OF h2 _ l2 buf(2), of 0 "[QUOTE, RBRACE]"] ly by auto
      have k: "keeps_from sz buf b2" "keeps_from sz buf b3" using keeps_trans b1(4) k2 b3(2) by blast+
      show ?thesis
      proof (cases "check_snprintf_return (int (length ?tok)) (sz - length t1) = 0")
        case c: True
        then show ?thesis using b1(1) True holds_strlen [OF b1(2)] r False s2 b3(1) k(2)
          by (simp add: IOT_Shadow_JSON_Finalize_def generate_client_token_def add_client_token_def Let_def)
      next
        case c: False
        then show ?thesis using b1(1) True holds_strlen [OF b1(2)] r False s2 k(1)
          by (simp add: IOT_Shadow_JSON_Finalize_def generate_client_token_def add_client_token_def Let_def)
      qed
    qed
  qed
qed

lemma report_field_safe:
  assumes ps: "\<forall>p \<in> set ps. prop_text p \<noteq> None \<and> length (the (prop_text p)) < 2 ^ 31" "length ps < 128"
    and nodes: "\<And>r b. nodes r b = report_loop r (length ps) 0 ps b \<or> nodes r b = array_loop r (length ps) 0 ps b"
    and buf: "sz \<le> length buf" "sz < 2 ^ 31"
    and field: "0 \<notin> set field"
    and fit: "2 * length (json_head ov) + length field + 4 \<le> sz"
  shows "\<exists>rc b t. report_field ov field nodes sz buf = Some (rc, b) \<and> keeps_from sz buf b
    \<and> (rc = 0 \<longrightarrow> holds b t \<and> t \<noteq> [] \<and> length t \<le> sz)"
proof -
  let ?h = "json_head ov"
  have hd: "length ?h \<ge> 10" by (cases ov) (simp_all add: length_head)
  obtain b1 where b1: "IOT_Shadow_JSON_Init sz ov buf = Some (0, b1)" "holds b1 ?h" "keeps_from sz buf b1"
    using init_ok [OF _ buf, of ov] fit hd by auto
  have l1: "sz \<le> length b1" using b1(3) buf(1) by (simp add: keeps_from_def)
  have r: "size_minus sz (length ?h) = sz - length ?h" using fit buf(2) by (intro size_minus_le) auto
  obtain b2 where b2: "json_append sz 0 (Some (field_text field)) b1 = Some (0, b2)" "holds b2 (?h @ field_text field)" "keeps_from sz b1 b2"
    using json_append_ok [OF b1(2) _ _ l1 buf(2), of "field_text field" 0] fit field hd by (auto simp: field_text_def)
  have l2: "sz - length ?h \<le> length b2" using b2(3) l1 by (simp add: keeps_from_def)
  have lt: "length (?h @ field_text field) \<le> sz - length ?h" using fit by (simp add: field_text_def)
  have r31: "sz - length ?h < 2 ^ 31" using buf(2) by simp
  have ne: "?h @ field_text field \<noteq> []" by (simp add: field_text_def)
  obtain rc3 b3 t3 where b3: "nodes (sz - length ?h) b2 = Some (rc3, b3)" "holds b3 t3" "length t3 \<le> sz - length ?h"
    "keeps_from (sz - length ?h) b2 b3" "rc3 = 0 \<longrightarrow> t3 \<noteq> []"
    using report_loop_safe [OF ps(1) _ ps(2) b2(2) lt l2 r31 ne, of 0] nodes [of "sz - length ?h" b2] by auto
  have k3: "keeps_from sz b2 b3" using keeps_mono [OF b3(4)] by simp
  have kb: "keeps_from sz buf b3" using keeps_trans b1(3) b2(3) k3 by blast
  show ?thesis
  proof (cases "rc3 = 0")
    case False
    then show ?thesis using holds_strlen [OF b1(2)] b1(1) b2(1) b3(1) r kb
      by (simp add: report_field_def and_then_def field_text_def Let_def)
  next
    case True
    have l3: "sz \<le> length b3" using k3 b2(3) l1 by (simp add: keeps_from_def)
    have one: "1 \<le> length t3" "length t3 \<le> sz" using True b3(3,5) by (cases t3; simp)+
    have z3: "0 \<notin> set (chars ''},'')" "length (chars ''},'') < 2 ^ 31" by simp_all
    obtain rc4 b4 t4 where b4: "json_append sz 1 (Some (chars ''},'')) b3 = Some (rc4, b4)" "holds b4 t4" "length t4 \<le> sz"
      "keeps_from sz b3 b4" "rc4 = 0 \<longrightarrow> length t4 < sz \<and> t4 = take (length t3 - 1) t3 @ chars ''},''"
      using json_append_safe [OF b3(2) one(2) l3 buf(2) one(1) z3] by blast
    have "rc4 = 0 \<longrightarrow> t4 \<noteq> []" using b4(5) by (auto simp: chars_def)
    then show ?thesis using holds_strlen [OF b1(2)] b1(1) b2(1) b3(1) b4(1-3) r True keeps_trans [OF kb b4(4)]
      by (auto simp: report_field_def and_then_def field_text_def Let_def)
  qed
qed

section \<open>Properties\<close>

definition report_doc :: "cstring \<Rightarrow> u32 \<Rightarrow> (jkey \<times> jval) list \<Rightarrow> jval" where
  "report_doc pid tok ms =
     JObj [((0, chars ''state'', 0), JObj [((0, chars ''reported'', 0), JObj ms)]),
       ((1, CLIENT_TOKEN_FIELD, 0), JStr (token_text pid tok))]"

lemma report_doc_text:
  "jtext (report_doc pid tok ms) = (json_head False @ field_text (chars ''reported'') @ commas (map mtext ms) @ chars ''}'')
     @ chars ''}, '' @ quoted CLIENT_TOKEN_FIELD @ [COLON] @ quoted (token_text pid tok) @ [RBRACE]"
  by (simp add: report_doc_def mtext_def [abs_def] mhead_def json_head_def field_text_def quoted_def chars_def)

text \<open>C6: A report is what the reader understands. When the document fits the buffer,
  \<open>IOT_Shadow_JSON_ConstructReport\<close> and the variant for arrays leave exactly the text of the document
  with the properties as members, take one token number, and write nothing behind the given size; the
  reader gets each property's text back at the path \<open>state.reported\<close> with its key, and the token.\<close>

theorem report_roundtrip:
  assumes "props_of ps ms" and "ms \<noteq> []" and "length ps < 128" and "jwf (JObj ms)" and "\<forall>b \<in> set pid. plain_char b"
    and "length (jtext (report_doc pid tok ms)) < sz" and "sz \<le> length buf" and "sz < 2 ^ 31" and "\<forall>w. fst (hal_malloc E w)"
  shows "\<exists>b z. IOT_Shadow_JSON_ConstructReport pid tok sz (length ps) ps buf = Some (0, b, tok + 1)
    \<and> IOT_Shadow_JSON_ConstructReportArray pid tok sz (length ps) ps buf = Some (0, b, tok + 1)
    \<and> b = jtext (report_doc pid tok ms) @ 0 # z \<and> keeps_from sz buf b
    \<and> (\<forall>k x w. jget k (JObj ms) = Some x \<and> DOT \<notin> set k \<longrightarrow>
        (\<exists>w'. LITE_json_value_of E (chars ''state.reported.'' @ k) b 0 w = Some (Some (jinner x), w')))
    \<and> (\<forall>w. \<exists>w'. parse_client_token E b w = Some (Some (token_text pid tok), w'))"
proof -
  have pid0: "0 \<notin> set pid" using assms(5) by (auto simp: plain_char_def)
  let ?t = "json_head False @ field_text (chars ''reported'') @ commas (map mtext ms) @ chars ''}''"
  have len: "length (commas (map mtext ms)) + length (token_text pid tok) + 43 < sz"
    using assms(6) unfolding report_doc_text by (simp add: length_head field_text_def CLIENT_TOKEN_FIELD_def)
  let ?nodes = "\<lambda>r. report_loop r (length ps) 0 ps"
  obtain b1 where b1: "report_field False (chars ''reported'') ?nodes sz buf = Some (0, b1)"
    "holds b1 (json_head False @ field_text (chars ''reported'') @ commas (map mtext ms) @ chars ''},'')" "keeps_from sz buf b1"
    using report_field_ok [OF assms(1-3) _ assms(7,8), of ?nodes "chars ''reported''" 8 False] len by (auto simp: length_head)
  have h1: "holds b1 (?t @ chars '','')" using b1(2) by (simp add: chars_def)
  have l1: "sz \<le> length b1" using b1(3) assms(7) by (simp add: keeps_from_def)
  have lt: "length ?t = length (commas (map mtext ms)) + 23" by (simp add: length_head field_text_def)
  obtain b where b: "IOT_Shadow_JSON_Finalize pid sz tok b1 = Some (0, b, tok + 1)" "keeps_from sz b1 b"
    "holds b (jtext (report_doc pid tok ms))"
    using finalize_ok [OF h1 l1 assms(8) pid0, of tok] len lt unfolding report_doc_text by auto
  have c1: "IOT_Shadow_JSON_ConstructReport pid tok sz (length ps) ps buf = Some (0, b, tok + 1)"
    using b1(1) b(1) by (simp add: IOT_Shadow_JSON_ConstructReport_def finalized_def)
  have c2: "IOT_Shadow_JSON_ConstructReportArray pid tok sz (length ps) ps buf = Some (0, b, tok + 1)"
  proof -
    have "(\<lambda>r. array_loop r (length ps) 0 ps) = ?nodes"
      using array_report_loop [of 0 ps "length ps"] assms(3) by (intro ext) simp
    then show ?thesis using c1 by (simp add: IOT_Shadow_JSON_ConstructReportArray_def IOT_Shadow_JSON_ConstructReport_def)
  qed
  obtain z where z: "b = jtext (report_doc pid tok ms) @ 0 # z" using b(3) by (auto simp: holds_def)
  have tokp: "\<forall>c \<in> set (token_text pid tok). plain_char c"
    using assms(5) digits_nat_text [of "unat tok"] digit_plain
    by (auto simp: token_text_def digits_def plain_char_def is_digit_def)
  have wf: "jwf (report_doc pid tok ms)"
    using assms(4) tokp by (simp add: report_doc_def mkey_def plain_char_def chars_def CLIENT_TOKEN_FIELD_def)
  have neq: "chars ''state'' \<noteq> CLIENT_TOKEN_FIELD" by (simp add: chars_def CLIENT_TOKEN_FIELD_def)
  have nodot: "DOT \<notin> set (chars ''state'')" "DOT \<notin> set (chars ''reported'')" "DOT \<notin> set CLIENT_TOKEN_FIELD"
    by (simp_all add: chars_def CLIENT_TOKEN_FIELD_def)
  have ne: "chars ''state'' \<noteq> []" "chars ''reported'' \<noteq> []" "CLIENT_TOKEN_FIELD \<noteq> []" "token_text pid tok \<noteq> []"
    by (simp_all add: chars_def CLIENT_TOKEN_FIELD_def token_text_def)
  have g: "jget (chars ''state'') (report_doc pid tok ms) = Some (JObj [((0, chars ''reported'', 0), JObj ms)])"
    "jget CLIENT_TOKEN_FIELD (report_doc pid tok ms) = Some (JStr (token_text pid tok))"
    using neq ne by (simp_all add: report_doc_def jget_def visible_def mkey_def)
  have get: "\<exists>w'. LITE_json_value_of E (chars ''state.reported.'' @ k) b 0 w = Some (Some (jinner x), w')"
    if "jget k (JObj ms) = Some x" "DOT \<notin> set k" for k x w
  proof -
    have dk: "dotted ([chars ''state'', chars ''reported''] @ [k]) = chars ''state.reported.'' @ k" by (simp add: chars_def)
    have jp: "jpath ([chars ''state'', chars ''reported''] @ [k]) (report_doc pid tok ms) = Some x"
      using g(1) ne(2) that(1) by (simp add: jget_def [of "chars ''reported''"] visible_def mkey_def)
    have "\<exists>w'. LITE_json_value_of E (dotted ([chars ''state'', chars ''reported''] @ [k])) b 0 w = Some (Some (jinner x), w')"
      using z nodot that(2) by (intro value_of_path [OF assms(9) _ wf _ _ jp, of _ _ "0 # z"]) auto
    then show ?thesis unfolding dk .
  qed
  have tk: "\<exists>w'. parse_client_token E b w = Some (Some (token_text pid tok), w')" for w
    using value_of_path [OF assms(9) _ wf, of "[]" CLIENT_TOKEN_FIELD 0 b "0 # z" "JStr (token_text pid tok)" w] z nodot g(2)
    by (simp add: parse_client_token_def)
  have k: "keeps_from sz buf b" using b1(3) b(2) keeps_trans by blast
  show ?thesis using c1 c2 z k get tk by blast
qed

definition sample_prop :: "DeviceProperty" where
  "sample_prop = \<lparr>prop_key = Some [0x61], prop_data = Some [12, 0, 0, 0], prop_type = JINT32\<rparr>"

lemma sample_props_of: "props_of [Some sample_prop] [((0, [0x61], 0), JNum [0x31, 0x32])]"
  by (simp add: props_of_def sample_prop_def prop_text_def node_text_def data_text_def load_def signed_def int_text_def
      nat_text.simps mtext_def mhead_def)

theorem report_roundtrip_witness:
  "\<exists>b w'. IOT_Shadow_JSON_ConstructReport (chars ''P'') 7 100 1 [Some sample_prop] (replicate 100 0) = Some (0, b, 8)
    \<and> LITE_json_value_of (clock_hal 1) (chars ''state.reported.a'') b 0 0 = Some (Some [0x31, 0x32], w')"
proof -
  let ?ms = "[((0, [0x61], 0), JNum [0x31, 0x32])] :: (jkey \<times> jval) list"
  have wf: "jwf (JObj ?ms)" by (simp add: mkey_def plain_char_def number_text_def is_digit_def)
  have g: "jget [0x61] (JObj ?ms) = Some (JNum [0x31, 0x32])" by (simp add: jget_def visible_def mkey_def)
  have len: "length (jtext (report_doc (chars ''P'') 7 ?ms)) < 100"
    by (simp add: report_doc_def mhead_def CLIENT_TOKEN_FIELD_def token_text_def nat_text.simps)
  have tok: "(7 :: u32) + 1 = 8" by simp
  obtain b z where b: "IOT_Shadow_JSON_ConstructReport (chars ''P'') 7 100 (length [Some sample_prop]) [Some sample_prop] (replicate 100 0) = Some (0, b, 7 + 1)"
    "\<forall>k x w. jget k (JObj ?ms) = Some x \<and> DOT \<notin> set k \<longrightarrow>
        (\<exists>w'. LITE_json_value_of (clock_hal 1) (chars ''state.reported.'' @ k) b 0 w = Some (Some (jinner x), w'))"
    using report_roundtrip [OF sample_props_of _ _ wf _ len, of "replicate 100 0" "clock_hal 1"]
    by (auto simp: plain_char_def chars_def clock_hal_def)
  then obtain w' where "LITE_json_value_of (clock_hal 1) (chars ''state.reported.'' @ [0x61]) b 0 0 = Some (Some [0x31, 0x32], w')"
    using g by fastforce
  moreover have "chars ''state.reported.'' @ [0x61] = chars ''state.reported.a''" by (simp add: chars_def)
  ultimately show ?thesis using b(1) tok by auto
qed

text \<open>C31: The report builders stay inside a buffer that is not very small: from 32 bytes on (80 for the
  overwriting variant) and for up to 127 readable properties, the call ends with a code and nothing
  behind the given size is written, whatever does not fit.\<close>

theorem report_safe:
  assumes "\<forall>p \<in> set ps. prop_text p \<noteq> None \<and> length (the (prop_text p)) < 2 ^ 31" and "length ps < 128"
    and "0 \<notin> set pid" and "length (token_text pid tok) < 2 ^ 31"
    and "32 \<le> sz" and "sz \<le> length buf" and "sz < 2 ^ 31"
  shows "(\<exists>rc b tok'. IOT_Shadow_JSON_ConstructReport pid tok sz (length ps) ps buf = Some (rc, b, tok') \<and> keeps_from sz buf b)
    \<and> (80 \<le> sz \<longrightarrow> (\<exists>rc b tok'. IOT_Shadow_JSON_Construct_OverwriteReport pid tok sz (length ps) ps buf = Some (rc, b, tok')
        \<and> keeps_from sz buf b))"
proof -
  let ?nodes = "\<lambda>r. report_loop r (length ps) 0 ps"
  have fin: "\<exists>rc b tok'. finalized pid sz tok (report_field ov (chars ''reported'') ?nodes sz buf) = Some (rc, b, tok') \<and> keeps_from sz buf b"
    if fit: "2 * length (json_head ov) + 12 \<le> sz" for ov
  proof -
    obtain rc b t where b: "report_field ov (chars ''reported'') ?nodes sz buf = Some (rc, b)" "keeps_from sz buf b"
      "rc = 0 \<longrightarrow> holds b t \<and> t \<noteq> [] \<and> length t \<le> sz"
      using report_field_safe [OF assms(1,2) _ assms(6,7), of ?nodes "chars ''reported''" ov] fit by auto
    show ?thesis
    proof (cases "rc = 0")
      case True
      have "sz \<le> length b" using b(2) assms(6) by (simp add: keeps_from_def)
      then obtain rc2 b2 tok2 where "IOT_Shadow_JSON_Finalize pid sz tok b = Some (rc2, b2, tok2)" "keeps_from sz b b2"
        using finalize_safe [of b t sz pid tok] b(3) True assms(3,4,7) by auto
      then show ?thesis using b(1) True keeps_trans [OF b(2)] by (auto simp: finalized_def)
    next
      case False
      then show ?thesis using b(1,2) by (auto simp: finalized_def)
    qed
  qed
  show ?thesis using fin [of False] fin [of True] assms(5)
    by (simp add: IOT_Shadow_JSON_ConstructReport_def IOT_Shadow_JSON_Construct_OverwriteReport_def length_head)
qed

theorem report_safe_witness:
  "(\<exists>rc b tok'. IOT_Shadow_JSON_ConstructReport (chars ''P'') 7 32 1 [Some sample_prop] (replicate 40 0) = Some (rc, b, tok')
    \<and> keeps_from 32 (replicate 40 0) b)"
proof -
  have t: "prop_text (Some sample_prop) = Some (mtext ((0, [0x61], 0), JNum [0x31, 0x32]) @ [COMMA])"
    using sample_props_of by (simp add: props_of_def)
  then show ?thesis
    using report_safe [of "[Some sample_prop]" "chars ''P''" 7 32 "replicate 40 0"]
    by (simp add: mtext_def mhead_def token_text_def nat_text.simps)
qed

text \<open>Between the size that holds the head of the document and the size that is safe, the first property
  is written without a limit: the limit the nodes get is smaller than the text that is already there,
  and the remaining size wraps. For the overwriting report in a block of 47 to 79 bytes, a first key
  that does not fit the block makes the call undefined (a write behind the block).\<close>

theorem report_small_buffer:
  assumes "length buf = sz" and "47 \<le> sz" and "sz < 80" and "1 \<le> count" and "count < 256"
    and "p = \<lparr>prop_key = Some k, prop_data = d, prop_type = ty\<rparr>" and "sz < 50 + length k"
  shows "IOT_Shadow_JSON_Construct_OverwriteReport pid tok sz count (Some p # ps) buf = None"
proof -
  obtain b1 where b1: "IOT_Shadow_JSON_Init sz True buf = Some (0, b1)" "holds b1 (json_head True)" "keeps_from sz buf b1"
    using init_ok [of True sz buf] assms(1-3) by (auto simp: length_head)
  have l1: "length b1 = sz" using b1(3) assms(1) by (simp add: keeps_from_def)
  have z: "0 \<notin> set (field_text (chars ''reported''))" "field_text (chars ''reported'') \<noteq> []" by (simp_all add: field_text_def)
  have lf: "length (json_head True) + length (field_text (chars ''reported'')) = 46" by (simp add: length_head field_text_def)
  obtain b2 where b2: "json_append sz 0 (Some (field_text (chars ''reported''))) b1 = Some (0, b2)"
    "holds b2 (json_head True @ field_text (chars ''reported''))" "keeps_from sz b1 b2"
    using json_append_ok [OF b1(2) _ z(2) _ _ _ z(1), of sz 0] lf l1 assms(2,3) by auto
  have l2: "length b2 = sz" using b2(3) l1 by (simp add: keeps_from_def)
  have r: "size_minus sz 34 = sz - 34" using assms(2,3) by (intro size_minus_le) auto
  have s: "strlen b2 = Some 46" using holds_strlen [OF b2(2)] lf by simp
  have e: "int (sz - 34) - 46 = int sz - 80" using assms(2) by simp
  have wrap: "size_minus (sz - 34) 46 = 2 ^ 32 + sz - 80"
  proof -
    have "(int sz - 80) mod 2 ^ 32 = (int sz - 80 + 2 ^ 32) mod 2 ^ 32" by (rule mod_add_self2 [symmetric])
    also have "\<dots> = int sz - 80 + 2 ^ 32" using assms(2,3) by (intro mod_pos_pos_trivial) auto
    finally show ?thesis using assms(2,3) by (simp add: size_minus_def e)
  qed
  have put: "put_json_node (sz - 34) k d ty b2 = None"
  proof -
    have "json_append (sz - 34) 0 (Some (quoted k @ [COLON])) b2 = None"
      using s wrap assms(2,3,7) l2 by (simp add: json_append_def HAL_Snprintf_def mem_copy_def Let_def)
    then show ?thesis by (simp add: put_json_node_def and_then_def)
  qed
  have "report_loop (sz - 34) count 0 (Some p # ps) b2 = None"
    using assms(4,6) put by (simp add: counter8_def)
  then show ?thesis
    using b1(1) holds_strlen [OF b1(2)] b2(1) r
    by (simp add: IOT_Shadow_JSON_Construct_OverwriteReport_def finalized_def report_field_def and_then_def field_text_def length_head Let_def
        del: report_loop.simps)
qed

theorem report_small_buffer_witness:
  "IOT_Shadow_JSON_Construct_OverwriteReport (chars ''P'') 7 64 1
     [Some \<lparr>prop_key = Some (chars ''temperature_outside''), prop_data = None, prop_type = JINT32\<rparr>] (replicate 64 0) = None"
  by (rule report_small_buffer [where k = "chars ''temperature_outside''" and d = None and ty = JINT32])
    (simp_all only: length_replicate, simp_all)

section \<open>Values of properties\<close>

lemma le_nat_lt: "le_nat s < 256 ^ length s"
proof (induction s)
  case (Cons b s)
  have "unat b + 256 * le_nat s < 256 * (le_nat s + 1)" using byte_lt [of b] by simp
  also have "\<dots> \<le> 256 * 256 ^ length s" using Cons by (intro mult_le_mono2) simp
  finally show ?case by simp
qed simp

lemma le_bytes_nat: "le_bytes (length s) (le_nat s) = s"
proof (induction s)
  case (Cons b s)
  have "of_nat (unat b + 256 * le_nat s) = (b :: u8)"
  proof -
    have "unat (of_nat (unat b + 256 * le_nat s) :: u8) = (unat b + 256 * le_nat s) mod 256"
      by (simp only: unat_of_nat) simp
    then have "unat (of_nat (unat b + 256 * le_nat s) :: u8) = unat b" using byte_lt [of b] by simp
    then show ?thesis by (simp only: word_unat_eq_iff)
  qed
  moreover have "(unat b + 256 * le_nat s) div 256 = le_nat s" using byte_lt [of b] by simp
  ultimately show ?case using Cons by simp
qed simp

lemma load_all: "load (length s) s = Some (le_nat s)"
  by (simp add: load_def)

lemma signed_range:
  assumes "x < 2 ^ bits" and "0 < bits"
  shows "- (2 ^ (bits - 1)) \<le> signed bits x \<and> signed bits x < 2 ^ (bits - 1) \<and> signed bits x mod 2 ^ bits = int x"
proof (cases "x < 2 ^ (bits - 1)")
  case True
  then have "int x < 2 ^ (bits - 1)" using of_nat_less_iff [of x "2 ^ (bits - 1)", where 'a = int] by simp
  moreover have "int x < 2 ^ bits" using assms(1) of_nat_less_iff [of x "2 ^ bits", where 'a = int] by simp
  moreover have "- (2 ^ (bits - 1)) \<le> int x"
    by (rule order_trans [of _ 0]) simp_all
  ultimately show ?thesis using True by (simp add: signed_def)
next
  case False
  have p: "(2 :: int) ^ bits = 2 * 2 ^ (bits - 1)" using assms(2) by (cases bits) auto
  have "int x < 2 ^ bits" using assms(1) of_nat_less_iff [of x "2 ^ bits", where 'a = int] by simp
  moreover have "int x \<ge> 2 ^ (bits - 1)" using False of_nat_le_iff [of "2 ^ (bits - 1)" x, where 'a = int] by simp
  moreover have "(int x - 2 ^ bits) mod 2 ^ bits = int x" using calculation(1) by (simp add: mod_pos_pos_trivial)
  ultimately show ?thesis using False p by (simp add: signed_def)
qed

lemma store_all: "length s' = length s \<Longrightarrow> i mod 2 ^ (8 * length s) = int (le_nat s) \<Longrightarrow> store (length s) i s' = Some s"
  by (simp add: store_def mem_copy_def overlay_def le_bytes_nat)

lemma le_nat_bits: "le_nat s < 2 ^ (8 * length s)"
  using le_nat_lt [of s] by (simp add: power_mult)

lemma signed_roundtrip:
  assumes "length s = n" and "length s' = n" and "0 < n"
  shows "set_int n (int_result (sscanf_i (8 * n) (int_text (signed (8 * n) (le_nat s))))) (Some s') = Some (0, Some s)"
proof -
  have r: "- (2 ^ (8 * n - 1)) \<le> signed (8 * n) (le_nat s)" "signed (8 * n) (le_nat s) < 2 ^ (8 * n - 1)"
    "signed (8 * n) (le_nat s) mod 2 ^ (8 * n) = int (le_nat s)"
    using signed_range [of "le_nat s" "8 * n"] le_nat_bits [of s] assms by auto
  have "store n (signed (8 * n) (le_nat s)) s' = Some s" using store_all [of s' s] r(3) assms by simp
  then show ?thesis using sscanf_i_text [OF r(1,2)] by (simp add: set_int_def int_result_def)
qed

lemma unsigned_roundtrip:
  assumes "length s = n" and "length s' = n" and "n \<le> 4"
  shows "set_int n (int_result (map_option (map_option int) (sscanf_u (8 * n) (nat_text (le_nat s))))) (Some s') = Some (0, Some s)"
proof -
  have lt: "le_nat s < 2 ^ (8 * n)" using le_nat_bits [of s] assms by simp
  have "int (le_nat s) mod 2 ^ (8 * n) = int (le_nat s)"
    using lt of_nat_less_iff [of "le_nat s" "2 ^ (8 * n)", where 'a = int] by simp
  then have "store n (int (le_nat s)) s' = Some s" using store_all [of s' s] assms by simp
  then show ?thesis using sscanf_u_text [OF lt] assms(3) by (simp add: set_int_def int_result_def)
qed

definition width :: "JsonDataType \<Rightarrow> nat" where
  "width type = (case type of JINT32 \<Rightarrow> 4 | JUINT32 \<Rightarrow> 4 | JFLOAT \<Rightarrow> 4 | JINT16 \<Rightarrow> 2 | JUINT16 \<Rightarrow> 2 | JDOUBLE \<Rightarrow> 8 | _ \<Rightarrow> 1)"

text \<open>C35: The type of a property decides how its memory is printed and how a text is stored, and the two
  agree: for every integer type and for \<open>bool\<close>, storing the text that \<open>put_json_node\<close> prints of a
  variable sets any variable of the same type to the same bytes.\<close>

theorem property_value_roundtrip:
  assumes "prop_type p \<notin> {JFLOAT, JDOUBLE, JSTRING, JOBJECT}" and "prop_data p = Some s'"
    and "length s = width (prop_type p)" and "length s' = length s" and "prop_type p = JBOOL \<longrightarrow> s = [0] \<or> s = [1]"
  shows "\<exists>t. data_text (chars ''true'') (chars ''false'') (prop_type p) s = Some t
    \<and> direct_update_value F t p = Some (0, p\<lparr>prop_data := Some s\<rparr>)"
proof (cases "prop_type p = JBOOL")
  case True
  have "chars ''true'' \<noteq> [0x66, 0x61, 0x6c, 0x73, 0x65]" "chars ''false'' = [0x66, 0x61, 0x6c, 0x73, 0x65]" by (simp_all add: chars_def)
  then show ?thesis using True assms
    by (auto simp: data_text_def direct_update_value_def load_def LITE_get_boolean_def set_int_def store_def mem_copy_def overlay_def width_def)
next
  case False
  note ld = load_all [of s]
  show ?thesis
    using False assms(1-4) ld signed_roundtrip [of s "length s" s'] unsigned_roundtrip [of s "length s" s']
    by (cases "prop_type p")
      (auto simp: data_text_def direct_update_value_def width_def LITE_get_int32_def LITE_get_int16_def LITE_get_int8_def
        LITE_get_uint32_def LITE_get_uint16_def LITE_get_uint8_def)
qed

theorem property_value_roundtrip_witness:
  "\<exists>t. data_text (chars ''true'') (chars ''false'') JINT16 [0xfe, 0xff] = Some t
    \<and> direct_update_value no_float_lib t \<lparr>prop_key = None, prop_data = Some [0, 0], prop_type = JINT16\<rparr>
      = Some (0, \<lparr>prop_key = None, prop_data = Some [0xfe, 0xff], prop_type = JINT16\<rparr>)"
  using property_value_roundtrip [of "\<lparr>prop_key = None, prop_data = Some [0, 0], prop_type = JINT16\<rparr>" "[0, 0]" "[0xfe, 0xff]" no_float_lib]
  by (simp add: width_def)

end
