(* ===== verification/Shadow_Session.thy ===== *)
theory Shadow_Session
  imports Shadow_Invariant Shadow_Report
begin

text \<open>
  What the device shadow does: the request as it is published and remembered, the effect of an answer and
  of a timeout, and the registration of properties.
\<close>

section \<open>Tokens of requests\<close>

text \<open>The token of a request, up to the first zero of its array.\<close>

definition token_of :: "Request \<Rightarrow> cstring" where
  "token_of r = takeWhile (\<lambda>b. b \<noteq> 0) (req_token r)"

definition terminated :: "Request \<Rightarrow> bool" where
  "terminated r \<longleftrightarrow> 0 \<in> set (req_token r)"

lemma strcmp_array: "0 \<in> set s \<Longrightarrow> 0 \<notin> set c \<Longrightarrow> strcmp_eq c s = Some (takeWhile (\<lambda>b. b \<noteq> 0) s = c)"
  by (induction c arbitrary: s) (auto split: list.splits)

lemma strcmp_token: "terminated r \<Longrightarrow> 0 \<notin> set c \<Longrightarrow> strcmp_eq c (req_token r) = Some (token_of r = c)"
  by (simp add: terminated_def token_of_def strcmp_array)

lemma strncpy_fits: "length t < n \<Longrightarrow> 0 \<notin> set t \<Longrightarrow> 0 \<in> set (strncpy n t) \<and> takeWhile (\<lambda>b. b \<noteq> 0) (strncpy n t) = t"
proof -
  assume a: "length t < n" "0 \<notin> set t"
  obtain k where k: "n = length t + Suc k" using a(1) less_imp_Suc_add [of "length t" n] by auto
  have "strncpy n t = t @ 0 # replicate k 0" unfolding k strncpy_def by (simp del: replicate_Suc add: replicate_Suc [symmetric])
  then show ?thesis using a(2) by (auto simp: takeWhile_append)
qed

section \<open>Timeouts\<close>

text \<open>The callbacks of a list of requests, in its order.\<close>

definition callbacks :: "RequestAck option \<Rightarrow> buffer \<Rightarrow> (nat \<times> Request) list \<Rightarrow> shadow_effect list" where
  "callbacks ack buf ns = (case ack of None \<Rightarrow> [] | Some ack \<Rightarrow> concat (map (\<lambda>n. answered (snd n) ack buf) ns))"

lemma callbacks_simps [simp]: "callbacks ack buf [] = []"
  "callbacks (Some x) buf (n # ns) = answered (snd n) x buf @ callbacks (Some x) buf ns" "callbacks None buf ns = []"
  by (simp_all add: callbacks_def split: option.splits)

definition drop_requests :: "(nat \<times> Request) list \<Rightarrow> (nat \<times> Request) list \<Rightarrow> (nat \<times> Request) list" where
  "drop_requests ms ns = filter (\<lambda>n. fst n \<notin> fst ` set ms) ns"

lemma drop_requests_simps [simp]: "drop_requests [] ns = ns"
  "drop_requests ms (filter (\<lambda>n. fst n \<noteq> a) ns) = drop_requests ((a, r) # ms) ns"
  by (auto simp: drop_requests_def intro: filter_cong)

lemma drop_matching:
  assumes "distinct (map fst ns)"
  shows "drop_requests (filter P (rev ns)) ns = filter (\<lambda>n. \<not> P n) ns"
proof -
  have "fst n \<in> fst ` {m \<in> set ns. P m} \<longleftrightarrow> P n" if "n \<in> set ns" for n
    using that assms by (auto simp: distinct_map dest: inj_onD)
  then show ?thesis unfolding drop_requests_def by (intro filter_cong) auto
qed

lemma expired_reading: "\<forall>w. fst (hal_time E w) = now \<Longrightarrow> fst (expired E t w) = (now > t)"
  by (simp add: expired_def case_prod_beta Let_def)

lemma expire_loop_eq:
  assumes "\<forall>w. fst (hal_time E w) = now"
  shows "request_list (expire_loop E ns s) = drop_requests (filter (\<lambda>n. now > req_timer (snd n)) ns) (request_list s)
    \<and> sh_trace (expire_loop E ns s) = sh_trace s @ callbacks (Some ACK_TIMEOUT) (cloud_rcv_buf s) (filter (\<lambda>n. now > req_timer (snd n)) ns)
    \<and> cloud_rcv_buf (expire_loop E ns s) = cloud_rcv_buf s"
proof (induction ns arbitrary: s)
  case (Cons n ns)
  let ?s = "snd (on_shadow (expired E (req_timer (snd n))) s)"
  have e: "handle_expired_request_callback E (fst n) (snd n) s
      = (if now > req_timer (snd n) then remove_request (fst n) (call_request (snd n) ACK_TIMEOUT ?s) else ?s)"
    using expired_reading [OF assms] by (simp add: handle_expired_request_callback_def on_shadow_eq)
  have c: "request_list (call_request (snd n) ACK_TIMEOUT ?s) = request_list s"
    "cloud_rcv_buf (call_request (snd n) ACK_TIMEOUT ?s) = cloud_rcv_buf s"
    "sh_trace (call_request (snd n) ACK_TIMEOUT ?s) = sh_trace s @ answered (snd n) ACK_TIMEOUT (cloud_rcv_buf s)"
    using call_request_eq(1,2) [where r = "snd n" and ack = ACK_TIMEOUT and s = ?s] by (simp_all add: same_lists_def on_shadow_eq)
  show ?case
  proof (cases "now > req_timer (snd n)")
    case True
    then show ?thesis using Cons.IH [of "remove_request (fst n) (call_request (snd n) ACK_TIMEOUT ?s)"] e c
      by (cases n) simp
  qed (use Cons.IH [of ?s] e in \<open>simp add: on_shadow_eq\<close>)
qed simp


definition sample_request :: "u32 \<Rightarrow> Request" where
  "sample_request t = \<lparr>req_token = strncpy MAX_SIZE_OF_CLIENT_TOKEN [0x61], req_method = UPDATE, req_user_context = 7,
     req_timer = t, req_callback = Some 3\<rparr>"

definition still_hal :: "u32 hal" where
  "still_hal = clock_hal 1\<lparr>hal_time := \<lambda>w. (5, w)\<rparr>"


section \<open>Answers\<close>

lemma try_shadow_total:
  assumes "f (world (sh_mqtt s)) = Some (x, w)"
  shows "\<exists>c. try_shadow f s = Some (x, s\<lparr>sh_mqtt := c\<rparr>)"
  using assms by (auto simp: try_shadow_def)

definition ack_of :: "int option \<Rightarrow> RequestAck option" where
  "ack_of code = map_option (\<lambda>c. if c = 0 then ACK_ACCEPTED else ACK_REJECTED) code"

text \<open>No delta is looked at: the answer to an \<open>update\<close>, or no property is registered.\<close>

lemma handle_request_eq:
  assumes "terminated r" and "0 \<notin> set token"
    and "\<forall>w. \<exists>w'. parse_shadow_operation_result_code E (cloud_rcv_buf s) w = Some (code, w')"
    and "type = OPERATION_UPDATE \<or> property_handle_list s = [] \<and> (\<forall>w. parse_shadow_operation_get E (cloud_rcv_buf s) w \<noteq> None)"
    and "type = OPERATION_UPDATE \<longrightarrow> type \<noteq> OPERATION_GET"
  shows "\<exists>s'. handle_request_callback E F token type a r s = Some s'
    \<and> request_list s' = (if token_of r = token then filter (\<lambda>n. fst n \<noteq> a) (request_list s) else request_list s)
    \<and> sh_trace s' = sh_trace s @ (if token_of r = token then callbacks (ack_of code) (cloud_rcv_buf s) [(a, r)] else [])
    \<and> cloud_rcv_buf s' = cloud_rcv_buf s \<and> property_handle_list s' = property_handle_list s"
proof (cases "token_of r = token")
  case True
  have eq: "strcmp_eq token (req_token r) = Some True" using strcmp_token [OF assms(1,2)] True by simp
  obtain c where c: "try_shadow (parse_shadow_operation_result_code E (cloud_rcv_buf s)) s = Some (code, s\<lparr>sh_mqtt := c\<rparr>)"
    using assms(3) try_shadow_total by metis
  show ?thesis
  proof (cases code)
    case None
    then show ?thesis using eq c True by (simp add: handle_request_callback_def ack_of_def)
  next
    case (Some x)
    let ?s = "s\<lparr>sh_mqtt := c\<rparr>" and ?ack = "if x = 0 then ACK_ACCEPTED else ACK_REJECTED"
    obtain c' where d: "(if (type = OPERATION_GET \<and> ?ack = ACK_ACCEPTED) \<or> (type \<noteq> OPERATION_UPDATE \<and> ?ack = ACK_REJECTED)
        then do { (d, s) \<leftarrow> try_shadow (parse_shadow_operation_get E (cloud_rcv_buf ?s)) ?s;
                  case d of None \<Rightarrow> Some s | Some d \<Rightarrow> handle_delta E F d s }
        else Some ?s) = Some (s\<lparr>sh_mqtt := c'\<rparr>)"
    proof (cases "type = OPERATION_UPDATE")
      case True
      then show thesis using that [of c] assms(5) by auto
    next
      case False
      then have p: "property_handle_list s = []" "parse_shadow_operation_get E (cloud_rcv_buf s) (world c) \<noteq> None" using assms(4) by auto
      then obtain d c2 where "try_shadow (parse_shadow_operation_get E (cloud_rcv_buf ?s)) ?s = Some (d, s\<lparr>sh_mqtt := c2\<rparr>)"
        by (auto simp: try_shadow_def)
      then have e: "do { (d, s) \<leftarrow> try_shadow (parse_shadow_operation_get E (cloud_rcv_buf ?s)) ?s;
          case d of None \<Rightarrow> Some s | Some d \<Rightarrow> handle_delta E F d s } = Some (s\<lparr>sh_mqtt := c2\<rparr>)"
        using p(1) by (cases d) (simp_all add: handle_delta_def)
      show thesis using that [of c2] that [of c] unfolding e by metis
    qed
    have "handle_request_callback E F token type a r s = Some (remove_request a (call_request r ?ack (s\<lparr>sh_mqtt := c'\<rparr>)))"
      using eq c Some d unfolding handle_request_callback_def Let_def by simp
    then show ?thesis using True Some call_request_eq(1,2) [where r = r and ack = ?ack and s = "s\<lparr>sh_mqtt := c'\<rparr>"]
      by (simp add: ack_of_def same_lists_def)
  qed
qed (use strcmp_token [OF assms(1,2)] in \<open>simp add: handle_request_callback_def\<close>)

lemma answer_loop_eq:
  assumes "\<forall>n \<in> set ns. terminated (snd n)" and "0 \<notin> set token"
    and "\<forall>w. \<exists>w'. parse_shadow_operation_result_code E (cloud_rcv_buf s) w = Some (code, w')"
    and "type = OPERATION_UPDATE \<or> property_handle_list s = [] \<and> (\<forall>w. parse_shadow_operation_get E (cloud_rcv_buf s) w \<noteq> None)"
    and "type = OPERATION_UPDATE \<longrightarrow> type \<noteq> OPERATION_GET"
  shows "\<exists>s'. answer_loop E F token type ns s = Some s'
    \<and> request_list s' = drop_requests (filter (\<lambda>n. token_of (snd n) = token) ns) (request_list s)
    \<and> sh_trace s' = sh_trace s @ callbacks (ack_of code) (cloud_rcv_buf s) (filter (\<lambda>n. token_of (snd n) = token) ns)
    \<and> cloud_rcv_buf s' = cloud_rcv_buf s"
  using assms
proof (induction ns arbitrary: s)
  case (Cons n ns)
  obtain s1 where s1: "handle_request_callback E F token type (fst n) (snd n) s = Some s1"
    "request_list s1 = (if token_of (snd n) = token then filter (\<lambda>m. fst m \<noteq> fst n) (request_list s) else request_list s)"
    "sh_trace s1 = sh_trace s @ (if token_of (snd n) = token then callbacks (ack_of code) (cloud_rcv_buf s) [(fst n, snd n)] else [])"
    "cloud_rcv_buf s1 = cloud_rcv_buf s" "property_handle_list s1 = property_handle_list s"
    using handle_request_eq [OF _ Cons.prems(2-5), of "snd n" F "fst n"] Cons.prems(1) by auto
  have n: "drop_requests ms (filter (\<lambda>m. fst m \<noteq> fst n) l) = drop_requests (n # ms) l" for ms l
    by (cases n) simp
  obtain s2 where s2: "answer_loop E F token type ns s1 = Some s2"
    "request_list s2 = drop_requests (filter (\<lambda>n. token_of (snd n) = token) ns) (request_list s1)"
    "sh_trace s2 = sh_trace s1 @ callbacks (ack_of code) (cloud_rcv_buf s1) (filter (\<lambda>n. token_of (snd n) = token) ns)"
    "cloud_rcv_buf s2 = cloud_rcv_buf s1"
    using Cons.IH [of s1] Cons.prems s1(4,5) by auto
  have "callbacks (ack_of code) b [n] @ callbacks (ack_of code) b l = callbacks (ack_of code) b (n # l)" for b l
    by (cases "ack_of code") auto
  then show ?case using s1 s2 n by auto
qed simp

text \<open>The result code of a document: \<open>None\<close> without a number in its member \<open>result\<close>; undefined when the
  number does not fit 16 bits.\<close>

definition result_of :: "(jkey \<times> jval) list \<Rightarrow> int option option" where
  "result_of ms = (case jget RESULT_FIELD (JObj ms) of None \<Rightarrow> Some None | Some x \<Rightarrow> sscanf_i 16 (jinner x))"

lemma field_dots: "DOT \<notin> set RESULT_FIELD" "DOT \<notin> set TYPE_FIELD" "DOT \<notin> set CLIENT_TOKEN_FIELD"
  by (simp_all add: RESULT_FIELD_def TYPE_FIELD_def CLIENT_TOKEN_FIELD_def chars_def)

lemma operations_differ: "OPERATION_UPDATE \<noteq> OPERATION_GET" "OPERATION_UPDATE \<noteq> OPERATION_DELTA" "OPERATION_GET \<noteq> OPERATION_DELTA"
  by (simp_all add: OPERATION_UPDATE_def OPERATION_GET_def OPERATION_DELTA_def chars_def)

text \<open>The payload in the buffer.\<close>

lemma payload_copied:
  assumes "length b = CLOUD_IOT_JSON_RX_BUF_LEN" and "length t < CLOUD_IOT_JSON_RX_BUF_LEN"
  shows "\<exists>x. mem_copy b 0 (t @ [c]) = Some x \<and> mem_write x (length t) 0 = Some (t @ 0 # drop (length t + 1) b)"
  using assms by (intro exI [of _ "t @ c # drop (length t + 1) b"])
    (auto simp: mem_copy_def overlay_def mem_write_def list_update_append)

text \<open>C14: An answer of the cloud to an update, a well-formed document in a message that the buffer holds, takes
  exactly the requests with its token out of the list and leaves the others. Each of them that has a
  callback gets exactly one: with \<open>ACK_ACCEPTED\<close> when the member \<open>result\<close> is 0 and \<open>ACK_REJECTED\<close> for
  another number, the latest request first. When the document has no number there, the requests leave the
  list without a callback: nobody is told, not even by a timeout, and a synchronous call that waits for
  its answer goes on waiting. The answer to a \<open>get\<close> does the same when no property is registered.\<close>

theorem shadow_response:
  assumes "\<forall>w. fst (hal_malloc E w)" and "length (cloud_rcv_buf s) = CLOUD_IOT_JSON_RX_BUF_LEN"
    and "distinct (map fst (request_list s))" and "\<forall>n \<in> set (request_list s). terminated (snd n)"
    and "jwf (JObj ms)" and "length (jtext (JObj ms)) < CLOUD_IOT_JSON_RX_BUF_LEN"
    and "msg_topic_len msg \<noteq> 0" and "pv_payload_len (msg_view msg) = length (jtext (JObj ms))"
    and "msg_payload msg = jtext (JObj ms) @ c # z"
    and "jget TYPE_FIELD (JObj ms) = Some (JStr type)"
    and "type = OPERATION_UPDATE \<or> type = OPERATION_GET \<and> property_handle_list s = []"
    and "jget CLIENT_TOKEN_FIELD (JObj ms) = Some (JStr tok)" and "result_of ms = Some code"
  shows "\<exists>s'. on_operation_result_handler E F msg s = Some s'
    \<and> request_list s' = filter (\<lambda>n. token_of (snd n) \<noteq> tok) (request_list s)
    \<and> sh_trace s' = sh_trace s @ callbacks (ack_of code) (jtext (JObj ms) @ 0 # drop (length (jtext (JObj ms)) + 1) (cloud_rcv_buf s))
        (rev (filter (\<lambda>n. token_of (snd n) = tok) (request_list s)))"
proof -
  let ?t = "jtext (JObj ms)"
  let ?b = "?t @ 0 # drop (length ?t + 1) (cloud_rcv_buf s)"
  let ?s = "s\<lparr>cloud_rcv_buf := ?b\<rparr>"
  obtain x where x: "mem_copy (cloud_rcv_buf s) 0 (?t @ [c]) = Some x" "mem_write x (length ?t) 0 = Some ?b"
    using payload_copied [OF assms(2,6)] by blast
  have len: "min (CLOUD_IOT_JSON_RX_BUF_LEN - 1) (length ?t) = length ?t" using assms(6) by simp
  have sl: "mem_slice (?t @ c # z) 0 (length ?t + 1) = Some (?t @ [c])" by (simp add: mem_slice_def)
  note val = member_value [OF assms(1,5), of _ "drop (length ?t + 1) (cloud_rcv_buf s)"]
  have ty: "\<exists>w'. parse_shadow_operation_type E ?b w = Some (Some type, w')" for w
    using val [OF field_dots(2), of w] assms(10) by (simp add: parse_shadow_operation_type_def del: jtext.simps)
  have to: "\<exists>w'. parse_client_token E ?b w = Some (Some tok, w')" for w
    using val [OF field_dots(3), of w] assms(12) by (simp add: parse_client_token_def del: jtext.simps)
  have co: "\<forall>w. \<exists>w'. parse_shadow_operation_result_code E ?b w = Some (code, w')"
  proof
    fix w
    show "\<exists>w'. parse_shadow_operation_result_code E ?b w = Some (code, w')"
      using val [OF field_dots(1), of w] assms(13)
      by (auto simp: parse_shadow_operation_result_code_def parse_number_def result_of_def simp del: jtext.simps split: option.splits)
  qed
  have z: "0 \<notin> set ?t" using balanced_nonzero [OF balanced_jtext [OF assms(5)]] by simp
  have "\<exists>r w'. LITE_json_value_of E PAYLOAD_STATE_DELTA ?b 0 w = Some (r, w')" for w
    using json_value_total [OF assms(1) z, of PAYLOAD_STATE_DELTA] by (simp add: PAYLOAD_STATE_DELTA_def)
  then have ge: "\<forall>w. parse_shadow_operation_get E ?b w \<noteq> None" unfolding parse_shadow_operation_get_def by (metis option.distinct(1))
  have zt: "0 \<notin> set tok" using jinner_nonzero [OF jget_jwf [OF assms(5,12)]] by simp
  obtain c1 where c1: "try_shadow (parse_shadow_operation_type E ?b) ?s = Some (Some type, ?s\<lparr>sh_mqtt := c1\<rparr>)"
    using ty try_shadow_total by metis
  obtain c2 where c2: "try_shadow (parse_client_token E ?b) (?s\<lparr>sh_mqtt := c1\<rparr>) = Some (Some tok, ?s\<lparr>sh_mqtt := c2\<rparr>)"
    using to try_shadow_total [of "parse_client_token E ?b" "?s\<lparr>sh_mqtt := c1\<rparr>"] by fastforce
  let ?s2 = "?s\<lparr>sh_mqtt := c2\<rparr>"
  have nd: "type \<noteq> OPERATION_DELTA" using assms(11) operations_differ by auto
  have h: "on_operation_result_handler E F msg s = traverse_list E (answer_loop E F tok type) ?s2"
    using assms(6-9) x sl len c1 c2 nd unfolding on_operation_result_handler_def Let_def by (simp del: jtext.simps)
  show ?thesis
  proof (cases "request_list s = []")
    case True
    then show ?thesis unfolding h by (simp add: traverse_list_def)
  next
    case False
    let ?s3 = "snd (on_shadow (hal_malloc E) ?s2)"
    have t: "traverse_list E (answer_loop E F tok type) ?s2 = answer_loop E F tok type (rev (request_list s)) ?s3"
      using False assms(1) by (simp add: traverse_list_def on_shadow_eq Let_def)
    show ?thesis unfolding h t
      using answer_loop_eq [of "rev (request_list s)" tok E ?s3 code type F] assms(4,11) co ge zt operations_differ
        drop_matching [OF assms(3), of "\<lambda>n. token_of (snd n) = tok"]
      by (auto simp: on_shadow_eq rev_filter simp del: jtext.simps)
  qed
qed

text \<open>\<open>{"type":"update","clientToken":"a","result":0}\<close>\<close>

definition sample_answer :: "(jkey \<times> jval) list" where
  "sample_answer = [((0, TYPE_FIELD, 0), JStr OPERATION_UPDATE), ((0, CLIENT_TOKEN_FIELD, 0), JStr [0x61]), ((0, RESULT_FIELD, 0), JNum [0x30])]"

lemma sample_answer_gets:
  "jwf (JObj sample_answer)" "jget TYPE_FIELD (JObj sample_answer) = Some (JStr OPERATION_UPDATE)"
  "jget CLIENT_TOKEN_FIELD (JObj sample_answer) = Some (JStr [0x61])" "result_of sample_answer = Some (Some 0)"
  "length (jtext (JObj sample_answer)) < CLOUD_IOT_JSON_RX_BUF_LEN"
  by (simp_all add: sample_answer_def TYPE_FIELD_def CLIENT_TOKEN_FIELD_def RESULT_FIELD_def OPERATION_UPDATE_def chars_def
      mkey_def plain_char_def number_text_def is_digit_def jget_def visible_def result_of_def mhead_def quoted_def
      sscanf_i_def scan_num_def scan_base_def scan_sign_def is_space_def digit_val_def
      CLOUD_IOT_JSON_RX_BUF_LEN_def QCLOUD_IOT_MQTT_RX_BUF_LEN_def)

definition sample_view :: "nat \<Rightarrow> publish_view" where
  "sample_view n = \<lparr>pv_dup = 0, pv_qos = 0, pv_retained = 0, pv_packet_id = None, pv_topic = 0, pv_topic_len = 1,
     pv_payload = 0, pv_payload_len = n\<rparr>"

theorem shadow_response_witness:
  "\<exists>s' buf. on_operation_result_handler (clock_hal 1) no_float_lib
      \<lparr>msg_view = sample_view (length (jtext (JObj sample_answer))), msg_ptopic = [0x74, 0], msg_topic_len = 1,
        msg_payload = jtext (JObj sample_answer) @ [0x20]\<rparr>
      (sample_shadow\<lparr>request_list := [(0, sample_request 9)]\<rparr>) = Some s'
    \<and> request_list s' = [] \<and> sh_trace s' = [Request_Callback 3 UPDATE ACK_ACCEPTED buf 7]"
proof -
  let ?s = "sample_shadow\<lparr>request_list := [(0, sample_request 9)]\<rparr>"
  have l: "sh_trace sample_shadow = []" "length (cloud_rcv_buf sample_shadow) = CLOUD_IOT_JSON_RX_BUF_LEN"
    by (simp_all add: sample_shadow_def shadow_of_def)
  have t: "terminated (sample_request 9)" "token_of (sample_request 9) = [0x61]"
    using strncpy_fits [of "[0x61]" MAX_SIZE_OF_CLIENT_TOKEN]
    by (simp_all add: terminated_def token_of_def sample_request_def MAX_SIZE_OF_CLIENT_TOKEN_def MAX_SIZE_OF_CLIENT_ID_def
        MAX_SIZE_OF_PRODUCT_ID_def MAX_SIZE_OF_DEVICE_NAME_def)
  have a: "answered (sample_request 9) x b = [Request_Callback 3 UPDATE x b 7]" for x b by (simp add: sample_request_def answered_def)
  have m: "\<forall>w. fst (hal_malloc (clock_hal 1) w)" by (simp add: clock_hal_def)
  show ?thesis
    using shadow_response [OF m, of ?s sample_answer "\<lparr>msg_view = sample_view (length (jtext (JObj sample_answer))), msg_ptopic = [0x74, 0],
        msg_topic_len = 1, msg_payload = jtext (JObj sample_answer) @ [0x20]\<rparr>" "0x20" "[]" OPERATION_UPDATE "[0x61]" "Some 0" no_float_lib] sample_answer_gets
    by (auto simp: l t a ack_of_def sample_view_def simp del: jtext.simps jwf.simps)
qed

section \<open>The document of a request\<close>

lemma insert_shift_eq:
  "length p = pos \<Longrightarrow> nlen \<le> length r \<Longrightarrow> \<exists>g. length g = nlen \<and> insert_shift nlen pos (length m) (p @ m @ r) = Some (p @ g @ m @ drop nlen r)"
proof (induction m arbitrary: r rule: rev_induct)
  case Nil
  then show ?case by (intro exI [of _ "take nlen r"]) simp
next
  case (snoc b m)
  let ?r = "(b # r)[nlen := b]"
  have "mem_read (p @ (m @ [b]) @ r) (pos + length m) = Some b"
    using snoc.prems(1) by (simp add: mem_read_def nth_append)
  moreover have "mem_write (p @ (m @ [b]) @ r) (pos + length m + nlen) b = Some (p @ m @ ?r)"
    using snoc.prems by (simp add: mem_write_def list_update_append)
  moreover obtain g where "length g = nlen" "insert_shift nlen pos (length m) (p @ m @ ?r) = Some (p @ g @ m @ drop nlen ?r)"
    using snoc.IH [OF snoc.prems(1), of ?r] snoc.prems(2) by (auto simp del: list_update.simps)
  moreover have "drop nlen ?r = b # drop nlen r"
    using snoc.prems(2) by (cases nlen) (auto simp: drop_update_cancel list_eq_iff_nth_eq nth_Cons' nth_list_update)
  ultimately show ?case by (intro exI [of _ g]) simp
qed

lemma insert_copy_eq: "length a = p \<Longrightarrow> length g = length t \<Longrightarrow> insert_copy p t (a @ g @ c) = Some (a @ t @ c)"
proof (induction t arbitrary: a p g)
  case (Cons b t)
  then obtain x g' where g: "g = x # g'" by (cases g) auto
  have "mem_write (a @ g @ c) p b = Some ((a @ [b]) @ g' @ c)"
    using Cons.prems(1) g by (simp add: mem_write_def list_update_append)
  then show ?case using Cons.IH [of "a @ [b]" "p + 1" g'] Cons.prems g by simp
qed simp

lemma insert_text_eq:
  assumes "0 \<notin> set m" and "b \<noteq> 0" and "length t \<le> length z"
  shows "insert_text (b # m @ 0 # z) t 1 = Some (b # t @ m @ 0 # drop (length t) z)"
proof -
  obtain g where g: "length g = length t" "insert_shift (length t) 1 (length m) ([b] @ m @ 0 # z) = Some ([b] @ g @ m @ drop (length t) (0 # z))"
    using insert_shift_eq [of "[b]" 1 "length t" "0 # z" m] assms(3) by auto
  have c: "insert_copy 1 t ([b] @ g @ m @ drop (length t) (0 # z)) = Some ([b] @ t @ m @ drop (length t) (0 # z))"
    by (rule insert_copy_eq) (use g(1) in simp_all)
  have "drop (length t) (0 # z) \<noteq> []" using assms(3) by simp
  then obtain x y where d: "drop (length t) (0 # z) = x # y" by (cases "drop (length t) (0 # z)") auto
  then have "y = drop (length t) z" by (metis drop_Cons' drop_Suc drop_Suc_Cons list.sel(3) tl_drop)
  then show ?thesis using g(2) c assms(1,2) d
    by (simp add: insert_text_def strlen_skip mem_write_def list_update_append)
qed

definition typed :: "Method \<Rightarrow> (jkey \<times> jval) list \<Rightarrow> (jkey \<times> jval) list" where
  "typed m ms = ((0, TYPE_FIELD, 0), JStr (method_text m))
     # (case ms of [] \<Rightarrow> [] | (k, v) # r \<Rightarrow> ((fst k + 1, snd k), v) # r)"

lemma commas_space: "commas ((SPACE # y) # zs) = SPACE # commas (y # zs)"
  by (cases zs) auto

lemma typed_text:
  assumes "ms \<noteq> []"
  shows "jtext (JObj (typed m ms)) = LBRACE # type_node m @ tl (jtext (JObj ms))"
proof -
  obtain k v r where ms: "ms = (k, v) # r" using assms by (cases ms) auto
  have "mtext ((fst k + 1, snd k), v) = SPACE # mtext (k, v)" by (simp add: mtext_def mhead_def)
  then show ?thesis
    by (simp add: jtext_obj typed_def ms commas_space del: jtext.simps)
      (simp add: mtext_def mhead_def type_node_def chars_def)
qed

lemma typed_get: "jget k (JObj (typed m ms)) = (if k = TYPE_FIELD then Some (JStr (method_text m)) else jget k (JObj ms))"
proof -
  have t: "TYPE_FIELD \<noteq> []" "method_text m \<noteq> []"
    by (simp_all add: TYPE_FIELD_def method_text_def OPERATION_GET_def OPERATION_UPDATE_def chars_def split: Method.splits)
  show ?thesis using t by (cases ms) (auto simp: jget_def visible_def typed_def mkey_def)
qed

lemma type_node_length: "length (type_node m) = (case m of GET \<Rightarrow> 14 | UPDATE \<Rightarrow> 17)"
  by (simp add: type_node_def TYPE_FIELD_def method_text_def OPERATION_GET_def OPERATION_UPDATE_def split: Method.splits)

lemma set_type_eq:
  assumes "jwf (JObj ms)" and "ms \<noteq> []" and "sz \<le> length (jtext (JObj ms) @ 0 # z)" and "length (jtext (JObj ms)) < sz" and "sz < 2 ^ 32"
  shows "set_shadow_json_type (jtext (JObj ms) @ 0 # z) sz m
    = Some (if length (jtext (JObj ms)) + length (type_node m) + 1 < sz
        then (QCLOUD_RET_SUCCESS, jtext (JObj (typed m ms)) @ 0 # drop (length (type_node m)) z)
        else (QCLOUD_ERR_INVAL, jtext (JObj ms) @ 0 # z))"
proof -
  have z: "0 \<notin> set (jtext (JObj ms))" using balanced_nonzero [OF balanced_jtext [OF assms(1)]] by simp
  obtain t where t: "jtext (JObj ms) = LBRACE # t" by simp
  have n: "strlen (jtext (JObj ms) @ 0 # z) = Some (length (jtext (JObj ms)))" using z by (simp add: strlen_skip del: jtext.simps)
  have r: "size_minus (size_minus sz (length (jtext (JObj ms)))) 1 = sz - length (jtext (JObj ms)) - 1"
    using assms(4,5) by (simp add: size_minus_le)
  have k: "take 63 (type_node m) = type_node m" using type_node_length [of m] by (cases m) simp_all
  have i: "insert_text (LBRACE # t @ 0 # z) (type_node m) 1 = Some (LBRACE # type_node m @ t @ 0 # drop (length (type_node m)) z)"
    if "length (jtext (JObj ms)) + length (type_node m) + 1 < sz"
    by (rule insert_text_eq) (use z t that assms(3) in auto)
  show ?thesis unfolding set_shadow_json_type_def n
    using r k i typed_text [OF assms(2), of m] by (auto simp: t Let_def simp del: jtext.simps)
qed

lemma add_request_eq:
  assumes "\<forall>w. fst (hal_malloc E w)" and "length tok < MAX_SIZE_OF_CLIENT_TOKEN" and "0 \<notin> set tok"
  shows "\<exists>rc s' r. add_request_to_list E tok p s = (rc, s')
    \<and> (if length (request_list s) \<ge> 10 then rc = QCLOUD_ERR_MAX_APPENDING_REQUEST \<and> s' = s
       else rc = QCLOUD_RET_SUCCESS \<and> request_list s' = request_list s @ [(next_block s, r)] \<and> sh_trace s' = sh_trace s
         \<and> terminated r \<and> token_of r = tok \<and> req_method r = rp_method p \<and> req_callback r = rp_request_callback p
         \<and> req_user_context r = rp_user_context p)"
  using assms strncpy_fits [OF assms(2,3)]
  by (cases "length (request_list s) \<ge> 10")
    (auto simp: add_request_to_list_def MAX_APPENDING_REQUEST_AT_ANY_GIVEN_TIME_def on_shadow_eq Let_def terminated_def token_of_def)

text \<open>C24: A request with a well-formed document that has a client token. The document gets its type as the first
  member, all other members stay what a reader finds, and it is published before the list of requests is
  looked at. When ten requests wait already, the call reports \<open>QCLOUD_ERR_MAX_APPENDING_REQUEST\<close> although
  the document has gone out, and nobody waits for its answer; else the request joins the list with the
  token of the document, its method, callback and context. A document for which type and terminator
  leave no byte to spare is refused before anything is sent.\<close>

theorem shadow_request:
  assumes "\<forall>w. fst (hal_malloc E w)" and "jwf (JObj ms)" and "jget CLIENT_TOKEN_FIELD (JObj ms) = Some (JStr tok)"
    and "length tok < MAX_SIZE_OF_CLIENT_TOKEN" and "sz \<le> length (jtext (JObj ms) @ 0 # z)" and "length (jtext (JObj ms)) < sz"
    and "sz < 2 ^ 32" and "do_shadow_request E p (jtext (JObj ms) @ 0 # z) sz s = Some (rc, doc', s')"
  shows "if length (jtext (JObj ms)) + length (type_node (rp_method p)) + 1 < sz
    then doc' = jtext (JObj (typed (rp_method p) ms)) @ 0 # drop (length (type_node (rp_method p))) z
      \<and> (\<forall>k. jget k (JObj (typed (rp_method p) ms)) = (if k = TYPE_FIELD then Some (JStr (method_text (rp_method p))) else jget k (JObj ms)))
      \<and> (\<exists>c rc1 s1 r. publish_operation_to_cloud E doc' (s\<lparr>sh_mqtt := c\<rparr>) = Some (rc1, s1) \<and> request_list s1 = request_list s
        \<and> (if rc1 < 0 then rc = rc1 \<and> s' = s1
           else if length (request_list s) \<ge> 10 then rc = QCLOUD_ERR_MAX_APPENDING_REQUEST \<and> s' = s1
           else rc = QCLOUD_RET_SUCCESS \<and> request_list s' = request_list s @ [(next_block s, r)] \<and> token_of r = tok
             \<and> terminated r \<and> req_method r = rp_method p \<and> req_callback r = rp_request_callback p \<and> req_user_context r = rp_user_context p))
    else rc = QCLOUD_ERR_INVAL \<and> doc' = jtext (JObj ms) @ 0 # z \<and> (\<exists>c. s' = s\<lparr>sh_mqtt := c\<rparr>)"
proof -
  let ?doc = "jtext (JObj ms) @ 0 # z" and ?m = "rp_method p"
  let ?typed = "jtext (JObj (typed ?m ms)) @ 0 # drop (length (type_node ?m)) z"
  have ne: "ms \<noteq> []" using assms(3) by (auto simp: jget_def visible_def)
  have zt: "0 \<notin> set tok" using jinner_nonzero [OF jget_jwf [OF assms(2,3)]] by simp
  obtain w where "parse_client_token E ?doc (world (sh_mqtt s)) = Some (Some tok, w)"
    using member_value [OF assms(1,2) field_dots(3), of z "world (sh_mqtt s)"] assms(3) by (auto simp: parse_client_token_def simp del: jtext.simps)
  then obtain c where c: "try_shadow (parse_client_token E ?doc) s = Some (Some tok, s\<lparr>sh_mqtt := c\<rparr>)"
    using try_shadow_total by metis
  note st = set_type_eq [OF assms(2) ne assms(5-7), of ?m]
  show ?thesis
  proof (cases "length (jtext (JObj ms)) + length (type_node ?m) + 1 < sz")
    case False
    then show ?thesis using assms(8) c st by (auto simp: do_shadow_request_def simp del: jtext.simps)
  next
    case True
    then obtain rc1 s1 where s1: "publish_operation_to_cloud E ?typed (s\<lparr>sh_mqtt := c\<rparr>) = Some (rc1, s1)"
      "(rc, doc', s') = (let (rc, s) = (if rc1 \<ge> 0 then add_request_to_list E tok p s1 else (rc1, s1)) in (rc, ?typed, s))"
      using assms(8) c st by (auto simp: do_shadow_request_def Let_def simp del: jtext.simps split: bind_splits prod.splits)
    have q: "request_list s1 = request_list s" "next_block s1 = next_block s"
      using publish_operation_quiet [OF s1(1)] by (simp_all add: quiet_def same_lists_def)
    obtain rc2 s2 r where a: "add_request_to_list E tok p s1 = (rc2, s2)"
      "if length (request_list s1) \<ge> 10 then rc2 = QCLOUD_ERR_MAX_APPENDING_REQUEST \<and> s2 = s1
       else rc2 = QCLOUD_RET_SUCCESS \<and> request_list s2 = request_list s1 @ [(next_block s1, r)] \<and> sh_trace s2 = sh_trace s1
         \<and> terminated r \<and> token_of r = tok \<and> req_method r = ?m \<and> req_callback r = rp_request_callback p
         \<and> req_user_context r = rp_user_context p"
      using add_request_eq [OF assms(1,4) zt, of p s1] by metis
    have d: "doc' = ?typed" using s1(2) by (simp split: prod.splits)
    have "if rc1 < 0 then rc = rc1 \<and> s' = s1 else rc = rc2 \<and> s' = s2"
      using s1(2) a(1) by (simp split: if_splits)
    then have e: "if rc1 < 0 then rc = rc1 \<and> s' = s1
           else if length (request_list s) \<ge> 10 then rc = QCLOUD_ERR_MAX_APPENDING_REQUEST \<and> s' = s1
           else rc = QCLOUD_RET_SUCCESS \<and> request_list s' = request_list s @ [(next_block s, r)] \<and> token_of r = tok
             \<and> terminated r \<and> req_method r = ?m \<and> req_callback r = rp_request_callback p \<and> req_user_context r = rp_user_context p"
      using a(2) q by (cases "rc1 < 0"; cases "length (request_list s) \<ge> 10") simp_all
    have pub: "publish_operation_to_cloud E doc' (s\<lparr>sh_mqtt := c\<rparr>) = Some (rc1, s1)" using s1(1) d by simp
    show ?thesis unfolding if_P [OF True] using d pub q(1) typed_get e by blast
  qed
qed

text \<open>\<open>{"clientToken":"a"}\<close> on a shadow that has lost its connection: the document gets its type, and the
  error of the publication is passed on.\<close>

definition sample_doc :: "(jkey \<times> jval) list" where
  "sample_doc = [((0, CLIENT_TOKEN_FIELD, 0), JStr [0x61])]"

lemma sample_doc_facts: "jwf (JObj sample_doc)" "jget CLIENT_TOKEN_FIELD (JObj sample_doc) = Some (JStr [0x61])"
  "length (jtext (JObj sample_doc)) = 19" "sample_doc \<noteq> []"
  by (simp_all add: sample_doc_def CLIENT_TOKEN_FIELD_def chars_def mkey_def plain_char_def jget_def visible_def mhead_def quoted_def)

theorem shadow_request_witness:
  "\<exists>s'. do_shadow_request (clock_hal 1) \<lparr>rp_method = UPDATE, rp_timeout_sec = 2, rp_request_callback = Some 3, rp_user_context = 7\<rparr>
      (jtext (JObj sample_doc) @ 0 # replicate 40 0) 60 (sample_shadow\<lparr>sh_mqtt := (sample_client 0)\<lparr>is_connected := False\<rparr>\<rparr>)
        = Some (QCLOUD_ERR_MQTT_NO_CONN, jtext (JObj (typed UPDATE sample_doc)) @ 0 # replicate 23 0, s')
    \<and> request_list s' = []"
proof -
  let ?p = "\<lparr>rp_method = UPDATE, rp_timeout_sec = 2, rp_request_callback = Some 3, rp_user_context = 7\<rparr>"
  let ?s = "sample_shadow\<lparr>sh_mqtt := (sample_client 0)\<lparr>is_connected := False\<rparr>\<rparr>"
  let ?d = "jtext (JObj sample_doc) @ 0 # replicate 40 0" and ?t = "jtext (JObj (typed UPDATE sample_doc)) @ 0 # replicate 23 0"
  have m: "\<forall>w. fst (hal_malloc (clock_hal 1) w)" by (simp add: clock_hal_def)
  have len: "length (type_node UPDATE) = 17" by (simp add: type_node_length)
  have zt: "0 \<notin> set (jtext (JObj (typed UPDATE sample_doc)))"
    using typed_text [OF sample_doc_facts(4), of UPDATE] by (simp add: sample_doc_def mhead_def quoted_def CLIENT_TOKEN_FIELD_def type_node_def
        TYPE_FIELD_def method_text_def OPERATION_UPDATE_def chars_def)
  have pub: "publish_operation_to_cloud (clock_hal 1) ?t (?s\<lparr>sh_mqtt := c\<rparr>) = Some (QCLOUD_ERR_MQTT_NO_CONN, ?s\<lparr>sh_mqtt := c\<rparr>)"
    if "\<not> is_connected c" for c
    using that zt by (simp add: publish_operation_to_cloud_def operation_topic_def chars_def sample_shadow_def shadow_of_def
        no_device_info_def MAX_SIZE_OF_CLOUD_TOPIC_def IOT_MQTT_Publish_def qcloud_iot_mqtt_publish_def get_client_conn_state_def
        strlen_skip Let_def qos_defs del: jtext.simps)
  obtain c where "do_shadow_request (clock_hal 1) ?p ?d 60 ?s = Some (QCLOUD_ERR_MQTT_NO_CONN, ?t, ?s\<lparr>sh_mqtt := c\<rparr>)"
  proof -
    obtain w where w: "parse_client_token (clock_hal 1) ?d 0 = Some (Some [0x61], w)"
      using member_value [OF m sample_doc_facts(1) field_dots(3), of "replicate 40 0" 0] sample_doc_facts(2)
      by (auto simp: parse_client_token_def simp del: jtext.simps)
    have t: "try_shadow (parse_client_token (clock_hal 1) ?d) ?s = Some (Some [0x61], ?s\<lparr>sh_mqtt := (sample_client 0)\<lparr>is_connected := False, world := w\<rparr>\<rparr>)"
      using w by (simp add: try_shadow_def sample_client_def del: jtext.simps)
    have st: "set_shadow_json_type ?d 60 UPDATE = Some (QCLOUD_RET_SUCCESS, ?t)"
      using set_type_eq [OF sample_doc_facts(1,4), of 60 "replicate 40 0" UPDATE] sample_doc_facts(3) len by (simp del: jtext.simps)
    show thesis
      by (rule that [of "(sample_client 0)\<lparr>is_connected := False, world := w\<rparr>"])
        (use t st pub [of "(sample_client 0)\<lparr>is_connected := False, world := w\<rparr>"] in \<open>simp add: do_shadow_request_def del: jtext.simps\<close>)
  qed
  note run = this
  show ?thesis
    using shadow_request [OF m sample_doc_facts(1,2) _ _ _ _ run] run sample_doc_facts(3) len
    by (auto simp: MAX_SIZE_OF_CLIENT_TOKEN_def MAX_SIZE_OF_CLIENT_ID_def MAX_SIZE_OF_PRODUCT_ID_def MAX_SIZE_OF_DEVICE_NAME_def
        sample_shadow_def shadow_of_def simp del: jtext.simps split: if_splits)
qed

section \<open>Registered properties\<close>

text \<open>\<open>list_find\<close> compares the address of the handle with the address of the property, which is another
  block. When a property has been registered, it is not found: registering it again succeeds and enters
  it a second time, and unregistering it reports that it is not there and leaves both.\<close>

theorem shadow_property_not_found:
  assumes "IOT_Shadow_Register_Property E a cb s = Some (QCLOUD_RET_SUCCESS, s')"
    and "\<forall>w. fst (hal_malloc E w)" and "\<forall>n \<in> set (property_handle_list s'). fst (snd n) \<noteq> a"
  shows "property_handle_list s' = property_handle_list s @ [(next_block s + 1, next_block s, \<lparr>ph_property = a, ph_callback = cb\<rparr>)]
    \<and> (\<exists>s2. IOT_Shadow_UnRegister_Property E a s' = (QCLOUD_ERR_SHADOW_NOT_PROPERTY_EXIST, s2) \<and> property_handle_list s2 = property_handle_list s')
    \<and> (\<exists>s2. IOT_Shadow_Register_Property E a cb s' = Some (QCLOUD_RET_SUCCESS, s2)
        \<and> property_handle_list s2 = property_handle_list s' @ [(next_block s + 3, next_block s + 2, \<lparr>ph_property = a, ph_callback = cb\<rparr>)])"
proof -
  have reg: "IOT_Shadow_Register_Property E a cb s1 = (let (n, s) = find_property E a s1 in
      if n \<noteq> None then Some (QCLOUD_ERR_SHADOW_PROPERTY_EXIST, s) else shadow_common_register_property_on_delta E a cb s)"
    if "IOT_MQTT_IsConnected (Some (sh_mqtt s1))" for s1
    using that by (simp add: IOT_Shadow_Register_Property_def shadow_common_check_property_existence_def split: prod.splits)
  obtain n s1 where f: "find_property E a s = (n, s1)" by fastforce
  then obtain c where s1: "s1 = s\<lparr>sh_mqtt := c\<rparr>" "is_connected c = is_connected (sh_mqtt s)"
    using f by (auto simp: find_property_def on_shadow_eq)
  have con: "is_connected (sh_mqtt s)"
    using assms(1) by (simp add: IOT_Shadow_Register_Property_def IOT_MQTT_IsConnected_def get_client_conn_state_def split: if_splits)
  then have r1: "n = None" "shadow_common_register_property_on_delta E a cb s1 = Some (QCLOUD_RET_SUCCESS, s')"
    using assms(1) reg [of s] f by (auto simp: IOT_MQTT_IsConnected_def get_client_conn_state_def split: if_splits)
  have p: "cb \<noteq> None" "\<exists>p. sh_vars s a = Some p \<and> prop_key p \<noteq> None \<and> prop_data p \<noteq> None"
    using r1(2) s1 by (auto simp: shadow_common_register_property_on_delta_def split: if_splits bind_splits)
  have add: "\<exists>c. shadow_common_register_property_on_delta E a cb s1 = Some (QCLOUD_RET_SUCCESS, s1\<lparr>sh_mqtt := c,
      property_handle_list := property_handle_list s1 @ [(next_block s1 + 1, next_block s1, \<lparr>ph_property = a, ph_callback = cb\<rparr>)],
      next_block := next_block s1 + 2\<rparr>) \<and> is_connected c = is_connected (sh_mqtt s1)"
    if "sh_vars s1 a = sh_vars s a" for s1
    using p assms(2) that
    by (auto simp: shadow_common_register_property_on_delta_def add_property_handle_to_list_def on_shadow_eq Let_def)
  obtain c1 where s': "s' = s\<lparr>sh_mqtt := c1, property_handle_list := property_handle_list s @ [(next_block s + 1, next_block s, \<lparr>ph_property = a, ph_callback = cb\<rparr>)],
      next_block := next_block s + 2\<rparr>" "is_connected c1"
    using add [of s1] r1(2) s1 con by auto
  have none: "\<exists>c. find_property E a s2 = (None, s2\<lparr>sh_mqtt := c\<rparr>) \<and> is_connected c = is_connected (sh_mqtt s2)"
    if "property_handle_list s2 = property_handle_list s'" for s2
    using assms(3) that by (auto simp: find_property_def on_shadow_eq find_None_iff)
  obtain c2 where c2: "find_property E a s' = (None, s'\<lparr>sh_mqtt := c2\<rparr>)" "is_connected c2" using none [of s'] s' by auto
  have u: "IOT_Shadow_UnRegister_Property E a s' = (QCLOUD_ERR_SHADOW_NOT_PROPERTY_EXIST, s'\<lparr>sh_mqtt := c2\<rparr>)"
    using c2 s' by (simp add: IOT_Shadow_UnRegister_Property_def IOT_MQTT_IsConnected_def get_client_conn_state_def
        shadow_common_check_property_existence_def)
  obtain s2 where "shadow_common_register_property_on_delta E a cb (s'\<lparr>sh_mqtt := c2\<rparr>) = Some (QCLOUD_RET_SUCCESS, s2)"
    "property_handle_list s2 = property_handle_list s' @ [(next_block s' + 1, next_block s', \<lparr>ph_property = a, ph_callback = cb\<rparr>)]"
    using add [of "s'\<lparr>sh_mqtt := c2\<rparr>"] s' by auto
  moreover have "IOT_Shadow_Register_Property E a cb s' = shadow_common_register_property_on_delta E a cb (s'\<lparr>sh_mqtt := c2\<rparr>)"
    using reg [of s'] c2 s' by (simp add: IOT_MQTT_IsConnected_def get_client_conn_state_def)
  moreover have "next_block s' = next_block s + 2" "property_handle_list s' = property_handle_list s
      @ [(next_block s + 1, next_block s, \<lparr>ph_property = a, ph_callback = cb\<rparr>)]" using s'(1) by simp_all
  ultimately show ?thesis using u by (simp add: numeral_3_eq_3)
qed

definition sample_prop_shadow :: "u32 shadow" where
  "sample_prop_shadow = sample_shadow\<lparr>sh_mqtt := (sample_client 0)\<lparr>is_connected := True\<rparr>, sh_vars := [100 \<mapsto> sample_prop]\<rparr>"

theorem shadow_property_not_found_witness:
  "\<exists>s' s2. IOT_Shadow_Register_Property (clock_hal 1) 100 (Some 5) sample_prop_shadow = Some (QCLOUD_RET_SUCCESS, s')
    \<and> IOT_Shadow_UnRegister_Property (clock_hal 1) 100 s' = (QCLOUD_ERR_SHADOW_NOT_PROPERTY_EXIST, s2)"
proof -
  obtain s' where s': "IOT_Shadow_Register_Property (clock_hal 1) 100 (Some 5) sample_prop_shadow = Some (QCLOUD_RET_SUCCESS, s')"
    "\<forall>n \<in> set (property_handle_list s'). fst (snd n) \<noteq> 100"
    by (auto simp: IOT_Shadow_Register_Property_def IOT_MQTT_IsConnected_def get_client_conn_state_def sample_prop_shadow_def
        shadow_common_check_property_existence_def find_property_def on_shadow_eq clock_hal_def sample_shadow_def shadow_of_def
        shadow_common_register_property_on_delta_def add_property_handle_to_list_def sample_prop_def)
  then show ?thesis using shadow_property_not_found [OF s'(1) _ s'(2)] by (fastforce simp: clock_hal_def)
qed

end
