(* ===== verification/Aes_Tables.thy ===== *)
theory Aes_Tables
  imports Qc_Words
begin

text \<open>
  The tables of the AES cipher in \<^verbatim>\<open>utils_aes.c\<close>. The build generates them at the first use
  (\<open>aes_gen_tables\<close>); the file also has them as constants for the option \<open>UTILS_AES_ROM_TABLES\<close>.
  Both are modelled, and the generated tables are proved to be the constants. The static variables of the
  file are the record \<open>aes_static\<close>; C \<open>int\<close>s are integers, which stay far below their bound here.
\<close>

section \<open>Generation\<close>

record aes_static =
  FSb :: "u8 list"
  FT0 :: "u32 list"
  FT1 :: "u32 list"
  FT2 :: "u32 list"
  FT3 :: "u32 list"
  RSb :: "u8 list"
  RT0 :: "u32 list"
  RT1 :: "u32 list"
  RT2 :: "u32 list"
  RT3 :: "u32 list"
  RCON :: "u32 list"
  aes_init_done :: bool

text \<open>The static variables when the program starts.\<close>

definition aes_boot :: aes_static where
  "aes_boot = \<lparr>FSb = replicate 256 0, FT0 = replicate 256 0, FT1 = replicate 256 0, FT2 = replicate 256 0,
     FT3 = replicate 256 0, RSb = replicate 256 0, RT0 = replicate 256 0, RT1 = replicate 256 0, RT2 = replicate 256 0,
     RT3 = replicate 256 0, RCON = replicate 10 0, aes_init_done = False\<rparr>"

definition ROTL8 :: "u32 \<Rightarrow> u32" where
  "ROTL8 x = (push_bit 8 x AND 0xFFFFFFFF) OR drop_bit 24 x"

definition XTIME :: "int \<Rightarrow> int" where
  "XTIME x = push_bit 1 x XOR (if x AND 0x80 \<noteq> 0 then 0x1B else 0x00)"

definition MUL :: "int list \<Rightarrow> int list \<Rightarrow> int \<Rightarrow> int \<Rightarrow> int" where
  "MUL pow log x y = (if x \<noteq> 0 \<and> y \<noteq> 0 then pow ! nat ((log ! nat x + log ! nat y) mod 255) else 0)"

text \<open>The loops run over \<open>i\<close>, with \<open>n\<close> rounds to go.\<close>

fun pow_log_loop :: "nat \<Rightarrow> nat \<Rightarrow> int \<Rightarrow> int list \<Rightarrow> int list \<Rightarrow> int list \<times> int list" where
  "pow_log_loop 0 i x pow log = (pow, log)"
| "pow_log_loop (Suc n) i x pow log =
     pow_log_loop n (i + 1) ((x XOR XTIME x) AND 0xFF) (pow[i := x]) (log[nat x := int i])"

fun rcon_loop :: "nat \<Rightarrow> nat \<Rightarrow> int \<Rightarrow> u32 list \<Rightarrow> u32 list" where
  "rcon_loop 0 i x rcon = rcon"
| "rcon_loop (Suc n) i x rcon = rcon_loop n (i + 1) (XTIME x AND 0xFF) (rcon[i := of_int x])"

definition rot1 :: "int \<Rightarrow> int" where
  "rot1 y = (push_bit 1 y OR drop_bit 7 y) AND 0xFF"

definition sbox_value :: "int \<Rightarrow> int" where
  "sbox_value x =
     (let y = rot1 x; x = x XOR y;
          y = rot1 y; x = x XOR y;
          y = rot1 y; x = x XOR y;
          y = rot1 y in x XOR (y XOR 0x63))"

fun sbox_loop :: "int list \<Rightarrow> int list \<Rightarrow> nat \<Rightarrow> nat \<Rightarrow> u8 list \<Rightarrow> u8 list \<Rightarrow> u8 list \<times> u8 list" where
  "sbox_loop pow log 0 i fsb rsb = (fsb, rsb)"
| "sbox_loop pow log (Suc n) i fsb rsb =
     (let x = sbox_value (pow ! nat (255 - log ! i)) in
      sbox_loop pow log n (i + 1) (fsb[i := of_int x]) (rsb[nat x := of_nat i]))"

definition ft_value :: "int \<Rightarrow> u32" where
  "ft_value x = (let y = XTIME x AND 0xFF; z = (y XOR x) AND 0xFF in
     of_int y XOR push_bit 8 (of_int x) XOR push_bit 16 (of_int x) XOR push_bit 24 (of_int z))"

definition rt_value :: "int list \<Rightarrow> int list \<Rightarrow> int \<Rightarrow> u32" where
  "rt_value pow log x =
     of_int (MUL pow log 0x0E x) XOR push_bit 8 (of_int (MUL pow log 0x09 x))
       XOR push_bit 16 (of_int (MUL pow log 0x0D x)) XOR push_bit 24 (of_int (MUL pow log 0x0B x))"

fun ft_loop :: "u8 list \<Rightarrow> nat \<Rightarrow> nat \<Rightarrow> u32 list \<times> u32 list \<times> u32 list \<times> u32 list
    \<Rightarrow> u32 list \<times> u32 list \<times> u32 list \<times> u32 list" where
  "ft_loop fsb 0 i ts = ts"
| "ft_loop fsb (Suc n) i (t0, t1, t2, t3) =
     (let v = ft_value (uint (fsb ! i)) in
      ft_loop fsb n (i + 1) (t0[i := v], t1[i := ROTL8 v], t2[i := ROTL8 (ROTL8 v)], t3[i := ROTL8 (ROTL8 (ROTL8 v))]))"

fun rt_loop :: "int list \<Rightarrow> int list \<Rightarrow> u8 list \<Rightarrow> nat \<Rightarrow> nat \<Rightarrow> u32 list \<times> u32 list \<times> u32 list \<times> u32 list
    \<Rightarrow> u32 list \<times> u32 list \<times> u32 list \<times> u32 list" where
  "rt_loop pow log rsb 0 i ts = ts"
| "rt_loop pow log rsb (Suc n) i (t0, t1, t2, t3) =
     (let v = rt_value pow log (uint (rsb ! i)) in
      rt_loop pow log rsb n (i + 1) (t0[i := v], t1[i := ROTL8 v], t2[i := ROTL8 (ROTL8 v)], t3[i := ROTL8 (ROTL8 (ROTL8 v))]))"

text \<open>
  The last loop of the code fills the forward and the reverse tables in the same rounds; their entries do not
  depend on each other, and it is written as two loops here.
\<close>

definition aes_gen_tables :: "aes_static \<Rightarrow> aes_static" where
  "aes_gen_tables s =
     (let (pow, log) = pow_log_loop 256 0 1 (replicate 256 0) (replicate 256 0);
          rcon = rcon_loop 10 0 1 (RCON s);
          (fsb, rsb) = sbox_loop pow log 255 1 ((FSb s)[0 := 0x63]) ((RSb s)[0x63 := 0]);
          (f0, f1, f2, f3) = ft_loop fsb 256 0 (FT0 s, FT1 s, FT2 s, FT3 s);
          (r0, r1, r2, r3) = rt_loop pow log rsb 256 0 (RT0 s, RT1 s, RT2 s, RT3 s) in
      s\<lparr>FSb := fsb, FT0 := f0, FT1 := f1, FT2 := f2, FT3 := f3, RSb := rsb, RT0 := r0, RT1 := r1, RT2 := r2, RT3 := r3,
        RCON := rcon\<rparr>)"

section \<open>The constants\<close>

definition rom_FSb :: "u8 list" where
  "rom_FSb = [
    0x63, 0x7c, 0x77, 0x7b, 0xf2, 0x6b, 0x6f, 0xc5, 0x30, 0x01, 0x67, 0x2b, 0xfe, 0xd7, 0xab, 0x76,
    0xca, 0x82, 0xc9, 0x7d, 0xfa, 0x59, 0x47, 0xf0, 0xad, 0xd4, 0xa2, 0xaf, 0x9c, 0xa4, 0x72, 0xc0,
    0xb7, 0xfd, 0x93, 0x26, 0x36, 0x3f, 0xf7, 0xcc, 0x34, 0xa5, 0xe5, 0xf1, 0x71, 0xd8, 0x31, 0x15,
    0x04, 0xc7, 0x23, 0xc3, 0x18, 0x96, 0x05, 0x9a, 0x07, 0x12, 0x80, 0xe2, 0xeb, 0x27, 0xb2, 0x75,
    0x09, 0x83, 0x2c, 0x1a, 0x1b, 0x6e, 0x5a, 0xa0, 0x52, 0x3b, 0xd6, 0xb3, 0x29, 0xe3, 0x2f, 0x84,
    0x53, 0xd1, 0x00, 0xed, 0x20, 0xfc, 0xb1, 0x5b, 0x6a, 0xcb, 0xbe, 0x39, 0x4a, 0x4c, 0x58, 0xcf,
    0xd0, 0xef, 0xaa, 0xfb, 0x43, 0x4d, 0x33, 0x85, 0x45, 0xf9, 0x02, 0x7f, 0x50, 0x3c, 0x9f, 0xa8,
    0x51, 0xa3, 0x40, 0x8f, 0x92, 0x9d, 0x38, 0xf5, 0xbc, 0xb6, 0xda, 0x21, 0x10, 0xff, 0xf3, 0xd2,
    0xcd, 0x0c, 0x13, 0xec, 0x5f, 0x97, 0x44, 0x17, 0xc4, 0xa7, 0x7e, 0x3d, 0x64, 0x5d, 0x19, 0x73,
    0x60, 0x81, 0x4f, 0xdc, 0x22, 0x2a, 0x90, 0x88, 0x46, 0xee, 0xb8, 0x14, 0xde, 0x5e, 0x0b, 0xdb,
    0xe0, 0x32, 0x3a, 0x0a, 0x49, 0x06, 0x24, 0x5c, 0xc2, 0xd3, 0xac, 0x62, 0x91, 0x95, 0xe4, 0x79,
    0xe7, 0xc8, 0x37, 0x6d, 0x8d, 0xd5, 0x4e, 0xa9, 0x6c, 0x56, 0xf4, 0xea, 0x65, 0x7a, 0xae, 0x08,
    0xba, 0x78, 0x25, 0x2e, 0x1c, 0xa6, 0xb4, 0xc6, 0xe8, 0xdd, 0x74, 0x1f, 0x4b, 0xbd, 0x8b, 0x8a,
    0x70, 0x3e, 0xb5, 0x66, 0x48, 0x03, 0xf6, 0x0e, 0x61, 0x35, 0x57, 0xb9, 0x86, 0xc1, 0x1d, 0x9e,
    0xe1, 0xf8, 0x98, 0x11, 0x69, 0xd9, 0x8e, 0x94, 0x9b, 0x1e, 0x87, 0xe9, 0xce, 0x55, 0x28, 0xdf,
    0x8c, 0xa1, 0x89, 0x0d, 0xbf, 0xe6, 0x42, 0x68, 0x41, 0x99, 0x2d, 0x0f, 0xb0, 0x54, 0xbb, 0x16]"

definition rom_FT :: "u32 list" where
  "rom_FT = [
    0xa56363c6, 0x847c7cf8, 0x997777ee, 0x8d7b7bf6, 0x0df2f2ff, 0xbd6b6bd6, 0xb16f6fde, 0x54c5c591,
    0x50303060, 0x03010102, 0xa96767ce, 0x7d2b2b56, 0x19fefee7, 0x62d7d7b5, 0xe6abab4d, 0x9a7676ec,
    0x45caca8f, 0x9d82821f, 0x40c9c989, 0x877d7dfa, 0x15fafaef, 0xeb5959b2, 0xc947478e, 0x0bf0f0fb,
    0xecadad41, 0x67d4d4b3, 0xfda2a25f, 0xeaafaf45, 0xbf9c9c23, 0xf7a4a453, 0x967272e4, 0x5bc0c09b,
    0xc2b7b775, 0x1cfdfde1, 0xae93933d, 0x6a26264c, 0x5a36366c, 0x413f3f7e, 0x02f7f7f5, 0x4fcccc83,
    0x5c343468, 0xf4a5a551, 0x34e5e5d1, 0x08f1f1f9, 0x937171e2, 0x73d8d8ab, 0x53313162, 0x3f15152a,
    0x0c040408, 0x52c7c795, 0x65232346, 0x5ec3c39d, 0x28181830, 0xa1969637, 0x0f05050a, 0xb59a9a2f,
    0x0907070e, 0x36121224, 0x9b80801b, 0x3de2e2df, 0x26ebebcd, 0x6927274e, 0xcdb2b27f, 0x9f7575ea,
    0x1b090912, 0x9e83831d, 0x742c2c58, 0x2e1a1a34, 0x2d1b1b36, 0xb26e6edc, 0xee5a5ab4, 0xfba0a05b,
    0xf65252a4, 0x4d3b3b76, 0x61d6d6b7, 0xceb3b37d, 0x7b292952, 0x3ee3e3dd, 0x712f2f5e, 0x97848413,
    0xf55353a6, 0x68d1d1b9, 0x00000000, 0x2cededc1, 0x60202040, 0x1ffcfce3, 0xc8b1b179, 0xed5b5bb6,
    0xbe6a6ad4, 0x46cbcb8d, 0xd9bebe67, 0x4b393972, 0xde4a4a94, 0xd44c4c98, 0xe85858b0, 0x4acfcf85,
    0x6bd0d0bb, 0x2aefefc5, 0xe5aaaa4f, 0x16fbfbed, 0xc5434386, 0xd74d4d9a, 0x55333366, 0x94858511,
    0xcf45458a, 0x10f9f9e9, 0x06020204, 0x817f7ffe, 0xf05050a0, 0x443c3c78, 0xba9f9f25, 0xe3a8a84b,
    0xf35151a2, 0xfea3a35d, 0xc0404080, 0x8a8f8f05, 0xad92923f, 0xbc9d9d21, 0x48383870, 0x04f5f5f1,
    0xdfbcbc63, 0xc1b6b677, 0x75dadaaf, 0x63212142, 0x30101020, 0x1affffe5, 0x0ef3f3fd, 0x6dd2d2bf,
    0x4ccdcd81, 0x140c0c18, 0x35131326, 0x2fececc3, 0xe15f5fbe, 0xa2979735, 0xcc444488, 0x3917172e,
    0x57c4c493, 0xf2a7a755, 0x827e7efc, 0x473d3d7a, 0xac6464c8, 0xe75d5dba, 0x2b191932, 0x957373e6,
    0xa06060c0, 0x98818119, 0xd14f4f9e, 0x7fdcdca3, 0x66222244, 0x7e2a2a54, 0xab90903b, 0x8388880b,
    0xca46468c, 0x29eeeec7, 0xd3b8b86b, 0x3c141428, 0x79dedea7, 0xe25e5ebc, 0x1d0b0b16, 0x76dbdbad,
    0x3be0e0db, 0x56323264, 0x4e3a3a74, 0x1e0a0a14, 0xdb494992, 0x0a06060c, 0x6c242448, 0xe45c5cb8,
    0x5dc2c29f, 0x6ed3d3bd, 0xefacac43, 0xa66262c4, 0xa8919139, 0xa4959531, 0x37e4e4d3, 0x8b7979f2,
    0x32e7e7d5, 0x43c8c88b, 0x5937376e, 0xb76d6dda, 0x8c8d8d01, 0x64d5d5b1, 0xd24e4e9c, 0xe0a9a949,
    0xb46c6cd8, 0xfa5656ac, 0x07f4f4f3, 0x25eaeacf, 0xaf6565ca, 0x8e7a7af4, 0xe9aeae47, 0x18080810,
    0xd5baba6f, 0x887878f0, 0x6f25254a, 0x722e2e5c, 0x241c1c38, 0xf1a6a657, 0xc7b4b473, 0x51c6c697,
    0x23e8e8cb, 0x7cdddda1, 0x9c7474e8, 0x211f1f3e, 0xdd4b4b96, 0xdcbdbd61, 0x868b8b0d, 0x858a8a0f,
    0x907070e0, 0x423e3e7c, 0xc4b5b571, 0xaa6666cc, 0xd8484890, 0x05030306, 0x01f6f6f7, 0x120e0e1c,
    0xa36161c2, 0x5f35356a, 0xf95757ae, 0xd0b9b969, 0x91868617, 0x58c1c199, 0x271d1d3a, 0xb99e9e27,
    0x38e1e1d9, 0x13f8f8eb, 0xb398982b, 0x33111122, 0xbb6969d2, 0x70d9d9a9, 0x898e8e07, 0xa7949433,
    0xb69b9b2d, 0x221e1e3c, 0x92878715, 0x20e9e9c9, 0x49cece87, 0xff5555aa, 0x78282850, 0x7adfdfa5,
    0x8f8c8c03, 0xf8a1a159, 0x80898909, 0x170d0d1a, 0xdabfbf65, 0x31e6e6d7, 0xc6424284, 0xb86868d0,
    0xc3414182, 0xb0999929, 0x772d2d5a, 0x110f0f1e, 0xcbb0b07b, 0xfc5454a8, 0xd6bbbb6d, 0x3a16162c]"

definition rom_RSb :: "u8 list" where
  "rom_RSb = [
    0x52, 0x09, 0x6a, 0xd5, 0x30, 0x36, 0xa5, 0x38, 0xbf, 0x40, 0xa3, 0x9e, 0x81, 0xf3, 0xd7, 0xfb,
    0x7c, 0xe3, 0x39, 0x82, 0x9b, 0x2f, 0xff, 0x87, 0x34, 0x8e, 0x43, 0x44, 0xc4, 0xde, 0xe9, 0xcb,
    0x54, 0x7b, 0x94, 0x32, 0xa6, 0xc2, 0x23, 0x3d, 0xee, 0x4c, 0x95, 0x0b, 0x42, 0xfa, 0xc3, 0x4e,
    0x08, 0x2e, 0xa1, 0x66, 0x28, 0xd9, 0x24, 0xb2, 0x76, 0x5b, 0xa2, 0x49, 0x6d, 0x8b, 0xd1, 0x25,
    0x72, 0xf8, 0xf6, 0x64, 0x86, 0x68, 0x98, 0x16, 0xd4, 0xa4, 0x5c, 0xcc, 0x5d, 0x65, 0xb6, 0x92,
    0x6c, 0x70, 0x48, 0x50, 0xfd, 0xed, 0xb9, 0xda, 0x5e, 0x15, 0x46, 0x57, 0xa7, 0x8d, 0x9d, 0x84,
    0x90, 0xd8, 0xab, 0x00, 0x8c, 0xbc, 0xd3, 0x0a, 0xf7, 0xe4, 0x58, 0x05, 0xb8, 0xb3, 0x45, 0x06,
    0xd0, 0x2c, 0x1e, 0x8f, 0xca, 0x3f, 0x0f, 0x02, 0xc1, 0xaf, 0xbd, 0x03, 0x01, 0x13, 0x8a, 0x6b,
    0x3a, 0x91, 0x11, 0x41, 0x4f, 0x67, 0xdc, 0xea, 0x97, 0xf2, 0xcf, 0xce, 0xf0, 0xb4, 0xe6, 0x73,
    0x96, 0xac, 0x74, 0x22, 0xe7, 0xad, 0x35, 0x85, 0xe2, 0xf9, 0x37, 0xe8, 0x1c, 0x75, 0xdf, 0x6e,
    0x47, 0xf1, 0x1a, 0x71, 0x1d, 0x29, 0xc5, 0x89, 0x6f, 0xb7, 0x62, 0x0e, 0xaa, 0x18, 0xbe, 0x1b,
    0xfc, 0x56, 0x3e, 0x4b, 0xc6, 0xd2, 0x79, 0x20, 0x9a, 0xdb, 0xc0, 0xfe, 0x78, 0xcd, 0x5a, 0xf4,
    0x1f, 0xdd, 0xa8, 0x33, 0x88, 0x07, 0xc7, 0x31, 0xb1, 0x12, 0x10, 0x59, 0x27, 0x80, 0xec, 0x5f,
    0x60, 0x51, 0x7f, 0xa9, 0x19, 0xb5, 0x4a, 0x0d, 0x2d, 0xe5, 0x7a, 0x9f, 0x93, 0xc9, 0x9c, 0xef,
    0xa0, 0xe0, 0x3b, 0x4d, 0xae, 0x2a, 0xf5, 0xb0, 0xc8, 0xeb, 0xbb, 0x3c, 0x83, 0x53, 0x99, 0x61,
    0x17, 0x2b, 0x04, 0x7e, 0xba, 0x77, 0xd6, 0x26, 0xe1, 0x69, 0x14, 0x63, 0x55, 0x21, 0x0c, 0x7d]"

definition rom_RT :: "u32 list" where
  "rom_RT = [
    0x50a7f451, 0x5365417e, 0xc3a4171a, 0x965e273a, 0xcb6bab3b, 0xf1459d1f, 0xab58faac, 0x9303e34b,
    0x55fa3020, 0xf66d76ad, 0x9176cc88, 0x254c02f5, 0xfcd7e54f, 0xd7cb2ac5, 0x80443526, 0x8fa362b5,
    0x495ab1de, 0x671bba25, 0x980eea45, 0xe1c0fe5d, 0x02752fc3, 0x12f04c81, 0xa397468d, 0xc6f9d36b,
    0xe75f8f03, 0x959c9215, 0xeb7a6dbf, 0xda595295, 0x2d83bed4, 0xd3217458, 0x2969e049, 0x44c8c98e,
    0x6a89c275, 0x78798ef4, 0x6b3e5899, 0xdd71b927, 0xb64fe1be, 0x17ad88f0, 0x66ac20c9, 0xb43ace7d,
    0x184adf63, 0x82311ae5, 0x60335197, 0x457f5362, 0xe07764b1, 0x84ae6bbb, 0x1ca081fe, 0x942b08f9,
    0x58684870, 0x19fd458f, 0x876cde94, 0xb7f87b52, 0x23d373ab, 0xe2024b72, 0x578f1fe3, 0x2aab5566,
    0x0728ebb2, 0x03c2b52f, 0x9a7bc586, 0xa50837d3, 0xf2872830, 0xb2a5bf23, 0xba6a0302, 0x5c8216ed,
    0x2b1ccf8a, 0x92b479a7, 0xf0f207f3, 0xa1e2694e, 0xcdf4da65, 0xd5be0506, 0x1f6234d1, 0x8afea6c4,
    0x9d532e34, 0xa055f3a2, 0x32e18a05, 0x75ebf6a4, 0x39ec830b, 0xaaef6040, 0x069f715e, 0x51106ebd,
    0xf98a213e, 0x3d06dd96, 0xae053edd, 0x46bde64d, 0xb58d5491, 0x055dc471, 0x6fd40604, 0xff155060,
    0x24fb9819, 0x97e9bdd6, 0xcc434089, 0x779ed967, 0xbd42e8b0, 0x888b8907, 0x385b19e7, 0xdbeec879,
    0x470a7ca1, 0xe90f427c, 0xc91e84f8, 0x00000000, 0x83868009, 0x48ed2b32, 0xac70111e, 0x4e725a6c,
    0xfbff0efd, 0x5638850f, 0x1ed5ae3d, 0x27392d36, 0x64d90f0a, 0x21a65c68, 0xd1545b9b, 0x3a2e3624,
    0xb1670a0c, 0x0fe75793, 0xd296eeb4, 0x9e919b1b, 0x4fc5c080, 0xa220dc61, 0x694b775a, 0x161a121c,
    0x0aba93e2, 0xe52aa0c0, 0x43e0223c, 0x1d171b12, 0x0b0d090e, 0xadc78bf2, 0xb9a8b62d, 0xc8a91e14,
    0x8519f157, 0x4c0775af, 0xbbdd99ee, 0xfd607fa3, 0x9f2601f7, 0xbcf5725c, 0xc53b6644, 0x347efb5b,
    0x7629438b, 0xdcc623cb, 0x68fcedb6, 0x63f1e4b8, 0xcadc31d7, 0x10856342, 0x40229713, 0x2011c684,
    0x7d244a85, 0xf83dbbd2, 0x1132f9ae, 0x6da129c7, 0x4b2f9e1d, 0xf330b2dc, 0xec52860d, 0xd0e3c177,
    0x6c16b32b, 0x99b970a9, 0xfa489411, 0x2264e947, 0xc48cfca8, 0x1a3ff0a0, 0xd82c7d56, 0xef903322,
    0xc74e4987, 0xc1d138d9, 0xfea2ca8c, 0x360bd498, 0xcf81f5a6, 0x28de7aa5, 0x268eb7da, 0xa4bfad3f,
    0xe49d3a2c, 0x0d927850, 0x9bcc5f6a, 0x62467e54, 0xc2138df6, 0xe8b8d890, 0x5ef7392e, 0xf5afc382,
    0xbe805d9f, 0x7c93d069, 0xa92dd56f, 0xb31225cf, 0x3b99acc8, 0xa77d1810, 0x6e639ce8, 0x7bbb3bdb,
    0x097826cd, 0xf418596e, 0x01b79aec, 0xa89a4f83, 0x656e95e6, 0x7ee6ffaa, 0x08cfbc21, 0xe6e815ef,
    0xd99be7ba, 0xce366f4a, 0xd4099fea, 0xd67cb029, 0xafb2a431, 0x31233f2a, 0x3094a5c6, 0xc066a235,
    0x37bc4e74, 0xa6ca82fc, 0xb0d090e0, 0x15d8a733, 0x4a9804f1, 0xf7daec41, 0x0e50cd7f, 0x2ff69117,
    0x8dd64d76, 0x4db0ef43, 0x544daacc, 0xdf0496e4, 0xe3b5d19e, 0x1b886a4c, 0xb81f2cc1, 0x7f516546,
    0x04ea5e9d, 0x5d358c01, 0x737487fa, 0x2e410bfb, 0x5a1d67b3, 0x52d2db92, 0x335610e9, 0x1347d66d,
    0x8c61d79a, 0x7a0ca137, 0x8e14f859, 0x893c13eb, 0xee27a9ce, 0x35c961b7, 0xede51ce1, 0x3cb1477a,
    0x59dfd29c, 0x3f73f255, 0x79ce1418, 0xbf37c773, 0xeacdf753, 0x5baafd5f, 0x146f3ddf, 0x86db4478,
    0x81f3afca, 0x3ec468b9, 0x2c342438, 0x5f40a3c2, 0x72c31d16, 0x0c25e2bc, 0x8b493c28, 0x41950dff,
    0x7101a839, 0xdeb30c08, 0x9ce4b4d8, 0x90c15664, 0x6184cb7b, 0x70b632d5, 0x745c6c48, 0x4257b8d0]"

definition rom_RCON :: "u32 list" where
  "rom_RCON = [0x01, 0x02, 0x04, 0x08, 0x10, 0x20, 0x40, 0x80, 0x1B, 0x36]"

text \<open>
  The macros \<open>V(a,b,c,d)\<close> of the four tables write the same bytes as \<open>abcd\<close>, \<open>bcda\<close>, \<open>cdab\<close> and \<open>dabc\<close>:
  the first is the list above, and each is the one before it rotated by a byte.
\<close>

definition rom_rotated :: "nat \<Rightarrow> u32 list \<Rightarrow> u32 list" where
  "rom_rotated k t = map (word_rotl (8 * k)) t"

definition rom_tables :: aes_static where
  "rom_tables = \<lparr>FSb = rom_FSb, FT0 = rom_FT, FT1 = rom_rotated 1 rom_FT, FT2 = rom_rotated 2 rom_FT,
     FT3 = rom_rotated 3 rom_FT, RSb = rom_RSb, RT0 = rom_RT, RT1 = rom_rotated 1 rom_RT, RT2 = rom_rotated 2 rom_RT,
     RT3 = rom_rotated 3 rom_RT, RCON = rom_RCON, aes_init_done = False\<rparr>"

section \<open>The generated tables are the constants\<close>

text \<open>The powers of 3 in the field and their logarithms, the last one written for each byte.\<close>

definition pow_table :: "int list" where
  "pow_table = [1, 3, 5, 15, 17, 51, 85, 255, 26, 46, 114, 150, 161, 248, 19, 53, 95, 225, 56, 72, 216, 115, 149, 164,
    247, 2, 6, 10, 30, 34, 102, 170, 229, 52, 92, 228, 55, 89, 235, 38, 106, 190, 217, 112, 144, 171, 230, 49,
    83, 245, 4, 12, 20, 60, 68, 204, 79, 209, 104, 184, 211, 110, 178, 205, 76, 212, 103, 169, 224, 59, 77, 215,
    98, 166, 241, 8, 24, 40, 120, 136, 131, 158, 185, 208, 107, 189, 220, 127, 129, 152, 179, 206, 73, 219, 118, 154,
    181, 196, 87, 249, 16, 48, 80, 240, 11, 29, 39, 105, 187, 214, 97, 163, 254, 25, 43, 125, 135, 146, 173, 236,
    47, 113, 147, 174, 233, 32, 96, 160, 251, 22, 58, 78, 210, 109, 183, 194, 93, 231, 50, 86, 250, 21, 63, 65,
    195, 94, 226, 61, 71, 201, 64, 192, 91, 237, 44, 116, 156, 191, 218, 117, 159, 186, 213, 100, 172, 239, 42, 126,
    130, 157, 188, 223, 122, 142, 137, 128, 155, 182, 193, 88, 232, 35, 101, 175, 234, 37, 111, 177, 200, 67, 197, 84,
    252, 31, 33, 99, 165, 244, 7, 9, 27, 45, 119, 153, 176, 203, 70, 202, 69, 207, 74, 222, 121, 139, 134, 145,
    168, 227, 62, 66, 198, 81, 243, 14, 18, 54, 90, 238, 41, 123, 141, 140, 143, 138, 133, 148, 167, 242, 13, 23,
    57, 75, 221, 124, 132, 151, 162, 253, 28, 36, 108, 180, 199, 82, 246, 1]"

definition log_table :: "int list" where
  "log_table = [0, 255, 25, 1, 50, 2, 26, 198, 75, 199, 27, 104, 51, 238, 223, 3, 100, 4, 224, 14, 52, 141, 129, 239,
    76, 113, 8, 200, 248, 105, 28, 193, 125, 194, 29, 181, 249, 185, 39, 106, 77, 228, 166, 114, 154, 201, 9, 120,
    101, 47, 138, 5, 33, 15, 225, 36, 18, 240, 130, 69, 53, 147, 218, 142, 150, 143, 219, 189, 54, 208, 206, 148,
    19, 92, 210, 241, 64, 70, 131, 56, 102, 221, 253, 48, 191, 6, 139, 98, 179, 37, 226, 152, 34, 136, 145, 16,
    126, 110, 72, 195, 163, 182, 30, 66, 58, 107, 40, 84, 250, 133, 61, 186, 43, 121, 10, 21, 155, 159, 94, 202,
    78, 212, 172, 229, 243, 115, 167, 87, 175, 88, 168, 80, 244, 234, 214, 116, 79, 174, 233, 213, 231, 230, 173, 232,
    44, 215, 117, 122, 235, 22, 11, 245, 89, 203, 95, 176, 156, 169, 81, 160, 127, 12, 246, 111, 23, 196, 73, 236,
    216, 67, 31, 45, 164, 118, 123, 183, 204, 187, 62, 90, 251, 96, 177, 134, 59, 82, 161, 108, 170, 85, 41, 157,
    151, 178, 135, 144, 97, 190, 220, 252, 188, 149, 207, 205, 55, 63, 91, 209, 83, 57, 132, 60, 65, 162, 109, 71,
    20, 42, 158, 93, 86, 242, 211, 171, 68, 17, 146, 217, 35, 32, 46, 137, 180, 124, 184, 38, 119, 153, 227, 165,
    103, 74, 237, 222, 197, 49, 254, 24, 13, 99, 140, 128, 192, 247, 112, 7]"

lemma pow_log: "pow_log_loop 256 0 1 (replicate 256 0) (replicate 256 0) = (pow_table, log_table)"
  by code_simp

lemma boxes: "sbox_loop pow_table log_table 255 1 ((replicate 256 0)[0 := 0x63]) ((replicate 256 0)[0x63 := 0]) = (rom_FSb, rom_RSb)"
  by code_simp

lemma rcons: "rcon_loop 10 0 1 (replicate 10 0) = rom_RCON"
  by code_simp

text \<open>A round of a table loop writes one more entry; the tables are maps of the entries.\<close>

lemma ft_values: "map (\<lambda>b. ft_value (uint b)) rom_FSb = rom_FT"
  by code_simp

lemma rt_values: "map (\<lambda>b. rt_value pow_table log_table (uint b)) rom_RSb = rom_RT"
  by code_simp

lemma ROTL8_rotl: "ROTL8 x = word_rotl 8 x"
  using rotl_or [of 8 x] by (simp add: ROTL8_def)

lemma rotl_rotl: "m + n < 32 \<Longrightarrow> word_rotl m (word_rotl n x) = word_rotl (m + n) (x :: u32)"
proof (rule bit_word_eqI)
  fix i
  assume "m + n < 32" "i < LENGTH(32)"
  moreover have "((i + (32 - m)) mod 32 + (32 - n)) mod 32 = (i + (32 - (m + n))) mod 32" if "m + n < 32"
  proof -
    have "((i + (32 - m)) mod 32 + (32 - n)) mod 32 = (i + (32 - m) + (32 - n)) mod 32" by (simp add: mod_simps)
    also have "i + (32 - m) + (32 - n) = i + (32 - (m + n)) + 32" using that by simp
    finally show ?thesis by simp
  qed
  ultimately show "bit (word_rotl m (word_rotl n x)) i = bit (word_rotl (m + n) x) i"
    by (simp add: bit_word_rotl_iff)
qed

lemma rotated:
  "rom_rotated (Suc 0) t = map ROTL8 t" "rom_rotated 2 t = map (\<lambda>x. ROTL8 (ROTL8 x)) t"
  "rom_rotated 3 t = map (\<lambda>x. ROTL8 (ROTL8 (ROTL8 x))) t"
  by (simp_all add: rom_rotated_def ROTL8_rotl rotl_rotl)

lemma fill_step: "i < length t \<Longrightarrow> take (Suc i) (t[i := v]) = take i t @ [v]"
  by (simp add: take_Suc_conv_app_nth)

lemma ft_loop_map:
  "\<forall>t \<in> {t0, t1, t2, t3}. length t = length fsb \<Longrightarrow> i + n = length fsb \<Longrightarrow>
    ft_loop fsb n i (t0, t1, t2, t3) = (let vs = map (\<lambda>b. ft_value (uint b)) (drop i fsb) in
      (take i t0 @ vs, take i t1 @ map ROTL8 vs, take i t2 @ map (\<lambda>x. ROTL8 (ROTL8 x)) vs,
       take i t3 @ map (\<lambda>x. ROTL8 (ROTL8 (ROTL8 x))) vs))"
proof (induction n arbitrary: i t0 t1 t2 t3)
  case (Suc n)
  have d: "drop i fsb = fsb ! i # drop (i + 1) fsb" using Suc.prems(2) by (simp add: Cons_nth_drop_Suc)
  show ?case
    using Suc.prems unfolding ft_loop.simps Let_def
    by (subst Suc.IH) (auto simp: d Let_def fill_step)
qed auto

lemma rt_loop_map:
  "\<forall>t \<in> {t0, t1, t2, t3}. length t = length rsb \<Longrightarrow> i + n = length rsb \<Longrightarrow>
    rt_loop pow log rsb n i (t0, t1, t2, t3) = (let vs = map (\<lambda>b. rt_value pow log (uint b)) (drop i rsb) in
      (take i t0 @ vs, take i t1 @ map ROTL8 vs, take i t2 @ map (\<lambda>x. ROTL8 (ROTL8 x)) vs,
       take i t3 @ map (\<lambda>x. ROTL8 (ROTL8 (ROTL8 x))) vs))"
proof (induction n arbitrary: i t0 t1 t2 t3)
  case (Suc n)
  have d: "drop i rsb = rsb ! i # drop (i + 1) rsb" using Suc.prems(2) by (simp add: Cons_nth_drop_Suc)
  show ?case
    using Suc.prems unfolding rt_loop.simps Let_def
    by (subst Suc.IH) (auto simp: d Let_def fill_step)
qed auto

lemma length_rom: "length rom_FSb = 256" "length rom_RSb = 256" "length rom_FT = 256" "length rom_RT = 256"
  by (simp_all add: rom_FSb_def rom_RSb_def flip: ft_values rt_values)

lemma gen_tables: "aes_gen_tables aes_boot = rom_tables"
proof -
  have f: "ft_loop rom_FSb 256 0 (replicate 256 0, replicate 256 0, replicate 256 0, replicate 256 0)
      = (rom_FT, rom_rotated 1 rom_FT, rom_rotated 2 rom_FT, rom_rotated 3 rom_FT)"
    by (subst ft_loop_map) (simp_all add: length_rom ft_values rotated Let_def)
  have r: "rt_loop pow_table log_table rom_RSb 256 0 (replicate 256 0, replicate 256 0, replicate 256 0, replicate 256 0)
      = (rom_RT, rom_rotated 1 rom_RT, rom_rotated 2 rom_RT, rom_rotated 3 rom_RT)"
    by (subst rt_loop_map) (simp_all add: length_rom rt_values rotated Let_def)
  show ?thesis
    unfolding aes_gen_tables_def pow_log Let_def prod.case aes_boot_def aes_static.select_convs boxes rcons f r
    by (simp add: rom_tables_def)
qed


end
