(* ===== verification/Aes_Cipher.thy ===== *)
theory Aes_Cipher
  imports Aes_Tables
begin

text \<open>
  The cipher of \<^verbatim>\<open>utils_aes.c\<close>: key schedules, one block in both directions, CBC and \<open>utils_aes_cbc\<close>.

  \<^item> memory is a collection of blocks; a pointer is a block with an offset, so that buffers can be the same
    (\<open>utils_aes_cbc\<close> is called in place) or different ones, and a read behind the end of a block is seen.
  \<^item> the context holds the round keys in its own array \<open>buf\<close>; the pointer \<open>rk\<close> is null or points to it.
  \<^item> the tables are the static variables of \<open>Aes_Tables\<close>, generated by the first key setup.
  \<^item> the validation macros of the file are empty.
\<close>

section \<open>Memory and context\<close>

type_synonym ptr = "nat \<times> nat"
type_synonym mem = "nat \<Rightarrow> buffer"

definition ptr_add :: "ptr \<Rightarrow> nat \<Rightarrow> ptr" where
  "ptr_add p n = (fst p, snd p + n)"

definition rd :: "mem \<Rightarrow> ptr \<Rightarrow> nat \<Rightarrow> buffer option" where
  "rd m p n = mem_slice (m (fst p)) (snd p) n"

definition wr :: "mem \<Rightarrow> ptr \<Rightarrow> buffer \<Rightarrow> mem option" where
  "wr m p xs = do { b \<leftarrow> mem_copy (m (fst p)) (snd p) xs; Some (m(fst p := b)) }"

record aes_context =
  nr :: int
  rk :: bool
  buf :: "u32 list"

definition utils_aes_init :: aes_context where
  "utils_aes_init = \<lparr>nr = 0, rk = False, buf = replicate 68 0\<rparr>"

definition utils_aes_free :: "aes_context \<Rightarrow> aes_context" where
  "utils_aes_free ctx = \<lparr>nr = 0, rk = False, buf = replicate 68 0\<rparr>"

abbreviation (input) UTILS_ERR_AES_INVALID_KEY_LENGTH :: int where "UTILS_ERR_AES_INVALID_KEY_LENGTH \<equiv> - 0x20"
abbreviation (input) UTILS_ERR_AES_INVALID_INPUT_LENGTH :: int where "UTILS_ERR_AES_INVALID_INPUT_LENGTH \<equiv> - 0x22"
definition UTILS_AES_ENCRYPT :: nat where "UTILS_AES_ENCRYPT = 1"
definition UTILS_AES_DECRYPT :: nat where "UTILS_AES_DECRYPT = 0"
definition UTILS_AES_BLOCK_LEN :: nat where "UTILS_AES_BLOCK_LEN = 16"

type_synonym columns = "u32 \<times> u32 \<times> u32 \<times> u32"

definition GET_UINT32_LE :: "buffer \<Rightarrow> nat \<Rightarrow> u32 option" where
  "GET_UINT32_LE b i = do {
     b0 \<leftarrow> mem_read b i; b1 \<leftarrow> mem_read b (i + 1); b2 \<leftarrow> mem_read b (i + 2); b3 \<leftarrow> mem_read b (i + 3);
     Some (ucast b0 OR push_bit 8 (ucast b1) OR push_bit 16 (ucast b2) OR push_bit 24 (ucast b3)) }"

definition PUT_UINT32_LE :: "u32 \<Rightarrow> buffer" where
  "PUT_UINT32_LE n = map (\<lambda>k. ucast (drop_bit k n AND 0xFF)) [0, 8, 16, 24]"

text \<open>The table index \<open>(w >> k) & 0xFF\<close>, and a byte of the S-box at it.\<close>

definition idx :: "u32 \<Rightarrow> nat \<Rightarrow> nat" where
  "idx w k = unat (drop_bit k w AND 0xFF)"

definition sbox_at :: "u8 list \<Rightarrow> u32 \<Rightarrow> nat \<Rightarrow> u32" where
  "sbox_at t w k = ucast (t ! idx w k)"

section \<open>Key schedules\<close>

fun load_key :: "buffer \<Rightarrow> nat \<Rightarrow> nat \<Rightarrow> u32 list \<Rightarrow> u32 list option" where
  "load_key key 0 i RK = Some RK"
| "load_key key (Suc n) i RK = do {
     w \<leftarrow> GET_UINT32_LE key (4 * i);
     RK \<leftarrow> mem_write RK i w;
     load_key key n (i + 1) RK }"

text \<open>The word that starts a round, of the word before it.\<close>

definition rotated_sub :: "aes_static \<Rightarrow> u32 \<Rightarrow> u32" where
  "rotated_sub T w = sbox_at (FSb T) w 8 XOR push_bit 8 (sbox_at (FSb T) w 16)
     XOR push_bit 16 (sbox_at (FSb T) w 24) XOR push_bit 24 (sbox_at (FSb T) w 0)"

definition plain_sub :: "aes_static \<Rightarrow> u32 \<Rightarrow> u32" where
  "plain_sub T w = sbox_at (FSb T) w 0 XOR push_bit 8 (sbox_at (FSb T) w 8)
     XOR push_bit 16 (sbox_at (FSb T) w 16) XOR push_bit 24 (sbox_at (FSb T) w 24)"

text \<open>\<open>chain w ws\<close>: each further word is the old one at its place XOR the new one before it.\<close>

fun chain :: "u32 \<Rightarrow> u32 list \<Rightarrow> u32 list" where
  "chain w [] = []"
| "chain w (v # vs) = (v XOR w) # chain (v XOR w) vs"

definition next_words :: "aes_static \<Rightarrow> nat \<Rightarrow> u32 list \<Rightarrow> u32 list" where
  "next_words T i old = chain (RCON T ! i XOR rotated_sub T (last old)) old"

definition next_words256 :: "aes_static \<Rightarrow> nat \<Rightarrow> u32 list \<Rightarrow> u32 list" where
  "next_words256 T i old =
     (let new = chain (RCON T ! i XOR rotated_sub T (last old)) (take 4 old) in
      new @ chain (plain_sub T (last new)) (drop 4 old))"

fun expand :: "(nat \<Rightarrow> u32 list \<Rightarrow> u32 list) \<Rightarrow> nat \<Rightarrow> nat \<Rightarrow> nat \<Rightarrow> nat \<Rightarrow> u32 list \<Rightarrow> u32 list option" where
  "expand f nk 0 i p RK = Some RK"
| "expand f nk (Suc n) i p RK = do {
     old \<leftarrow> mem_slice RK p nk;
     RK \<leftarrow> mem_copy RK (p + nk) (f i old);
     expand f nk n (i + 1) (p + nk) RK }"

definition utils_aes_setkey_enc :: "aes_static \<Rightarrow> aes_context \<Rightarrow> buffer \<Rightarrow> nat \<Rightarrow> (int \<times> aes_context \<times> aes_static) option" where
  "utils_aes_setkey_enc T ctx key keybits =
     (if keybits \<noteq> 128 \<and> keybits \<noteq> 192 \<and> keybits \<noteq> 256 then Some (UTILS_ERR_AES_INVALID_KEY_LENGTH, ctx, T)
      else do {
        let ctx = ctx\<lparr>nr := if keybits = 128 then 10 else if keybits = 192 then 12 else 14\<rparr>;
        let T = (if \<not> aes_init_done T then (aes_gen_tables T)\<lparr>aes_init_done := True\<rparr> else T);
        RK \<leftarrow> load_key key (drop_bit 5 keybits) 0 (buf ctx);
        RK \<leftarrow> (if nr ctx = 10 then expand (next_words T) 4 10 0 0 RK
               else if nr ctx = 12 then expand (next_words T) 6 8 0 0 RK
               else expand (next_words256 T) 8 7 0 0 RK);
        Some (0, ctx\<lparr>rk := True, buf := RK\<rparr>, T) })"

definition inv_column :: "aes_static \<Rightarrow> u32 \<Rightarrow> u32" where
  "inv_column T w = RT0 T ! unat (FSb T ! idx w 0) XOR RT1 T ! unat (FSb T ! idx w 8)
     XOR RT2 T ! unat (FSb T ! idx w 16) XOR RT3 T ! unat (FSb T ! idx w 24)"

text \<open>\<open>n\<close> rounds from the word \<open>SK\<close> of the encryption keys down, stored at \<open>RK\<close> and up.\<close>

fun dec_loop :: "aes_static \<Rightarrow> u32 list \<Rightarrow> nat \<Rightarrow> nat \<Rightarrow> nat \<Rightarrow> u32 list \<Rightarrow> (nat \<times> nat \<times> u32 list) option" where
  "dec_loop T ek 0 SK RK b = Some (SK, RK, b)"
| "dec_loop T ek (Suc n) SK RK b = do {
     w \<leftarrow> mem_slice ek SK 4;
     b \<leftarrow> mem_copy b RK (map (inv_column T) w);
     if SK + 4 < 8 then None else dec_loop T ek n (SK + 4 - 8) (RK + 4) b }"

definition utils_aes_setkey_dec :: "aes_static \<Rightarrow> aes_context \<Rightarrow> buffer \<Rightarrow> nat \<Rightarrow> (int \<times> aes_context \<times> aes_static) option" where
  "utils_aes_setkey_dec T ctx key keybits = do {
     let ctx = ctx\<lparr>rk := True\<rparr>;
     (ret, cty, T) \<leftarrow> utils_aes_setkey_enc T utils_aes_init key keybits;
     if ret \<noteq> 0 then Some (ret, ctx, T)
     else do {
       let SK = nat (nr cty * 4);
       w \<leftarrow> mem_slice (buf cty) SK 4;
       b \<leftarrow> mem_copy (buf ctx) 0 w;
       (SK, RK, b) \<leftarrow> dec_loop T (buf cty) (nat (nr cty - 1)) (SK + 4 - 8) 4 b;
       w \<leftarrow> mem_slice (buf cty) SK 4;
       b \<leftarrow> mem_copy b RK w;
       Some (0, ctx\<lparr>nr := nr cty, buf := b\<rparr>, T) } }"

section \<open>One block\<close>

definition get_columns :: "buffer \<Rightarrow> columns option" where
  "get_columns b = do {
     x0 \<leftarrow> GET_UINT32_LE b 0; x1 \<leftarrow> GET_UINT32_LE b 4; x2 \<leftarrow> GET_UINT32_LE b 8; x3 \<leftarrow> GET_UINT32_LE b 12;
     Some (x0, x1, x2, x3) }"

definition put_columns :: "columns \<Rightarrow> buffer" where
  "put_columns x = (case x of (x0, x1, x2, x3) \<Rightarrow>
     PUT_UINT32_LE x0 @ PUT_UINT32_LE x1 @ PUT_UINT32_LE x2 @ PUT_UINT32_LE x3)"

text \<open>The four round keys at \<open>*RK++\<close>.\<close>

definition keys_at :: "u32 list \<Rightarrow> nat \<Rightarrow> columns option" where
  "keys_at b p = do {
     k0 \<leftarrow> mem_read b p; k1 \<leftarrow> mem_read b (p + 1); k2 \<leftarrow> mem_read b (p + 2); k3 \<leftarrow> mem_read b (p + 3);
     Some (k0, k1, k2, k3) }"

definition add_keys :: "columns \<Rightarrow> columns \<Rightarrow> columns" where
  "add_keys x k = (case (x, k) of ((x0, x1, x2, x3), (k0, k1, k2, k3)) \<Rightarrow> (x0 XOR k0, x1 XOR k1, x2 XOR k2, x3 XOR k3))"

definition ft_word :: "aes_static \<Rightarrow> u32 \<Rightarrow> u32 \<Rightarrow> u32 \<Rightarrow> u32 \<Rightarrow> u32 \<Rightarrow> u32" where
  "ft_word T k a b c d = k XOR FT0 T ! idx a 0 XOR FT1 T ! idx b 8 XOR FT2 T ! idx c 16 XOR FT3 T ! idx d 24"

definition AES_FROUND :: "aes_static \<Rightarrow> columns \<Rightarrow> columns \<Rightarrow> columns" where
  "AES_FROUND T k y = (case (k, y) of ((k0, k1, k2, k3), (y0, y1, y2, y3)) \<Rightarrow>
     (ft_word T k0 y0 y1 y2 y3, ft_word T k1 y1 y2 y3 y0, ft_word T k2 y2 y3 y0 y1, ft_word T k3 y3 y0 y1 y2))"

definition rt_word :: "aes_static \<Rightarrow> u32 \<Rightarrow> u32 \<Rightarrow> u32 \<Rightarrow> u32 \<Rightarrow> u32 \<Rightarrow> u32" where
  "rt_word T k a b c d = k XOR RT0 T ! idx a 0 XOR RT1 T ! idx b 8 XOR RT2 T ! idx c 16 XOR RT3 T ! idx d 24"

definition AES_RROUND :: "aes_static \<Rightarrow> columns \<Rightarrow> columns \<Rightarrow> columns" where
  "AES_RROUND T k y = (case (k, y) of ((k0, k1, k2, k3), (y0, y1, y2, y3)) \<Rightarrow>
     (rt_word T k0 y0 y3 y2 y1, rt_word T k1 y1 y0 y3 y2, rt_word T k2 y2 y1 y0 y3, rt_word T k3 y3 y2 y1 y0))"

text \<open>A column of the last round, which takes single bytes from an S-box.\<close>

definition last_word :: "u8 list \<Rightarrow> u32 \<Rightarrow> u32 \<Rightarrow> u32 \<Rightarrow> u32 \<Rightarrow> u32 \<Rightarrow> u32" where
  "last_word t k a b c d = k XOR sbox_at t a 0 XOR push_bit 8 (sbox_at t b 8)
     XOR push_bit 16 (sbox_at t c 16) XOR push_bit 24 (sbox_at t d 24)"

definition last_fround :: "aes_static \<Rightarrow> columns \<Rightarrow> columns \<Rightarrow> columns" where
  "last_fround T k y = (case (k, y) of ((k0, k1, k2, k3), (y0, y1, y2, y3)) \<Rightarrow>
     (last_word (FSb T) k0 y0 y1 y2 y3, last_word (FSb T) k1 y1 y2 y3 y0,
      last_word (FSb T) k2 y2 y3 y0 y1, last_word (FSb T) k3 y3 y0 y1 y2))"

definition last_rround :: "aes_static \<Rightarrow> columns \<Rightarrow> columns \<Rightarrow> columns" where
  "last_rround T k y = (case (k, y) of ((k0, k1, k2, k3), (y0, y1, y2, y3)) \<Rightarrow>
     (last_word (RSb T) k0 y0 y3 y2 y1, last_word (RSb T) k1 y1 y0 y3 y2,
      last_word (RSb T) k2 y2 y1 y0 y3, last_word (RSb T) k3 y3 y2 y1 y0))"

text \<open>The loop of two rounds each, in either direction.\<close>

fun round_loop :: "(columns \<Rightarrow> columns \<Rightarrow> columns) \<Rightarrow> u32 list \<Rightarrow> nat \<Rightarrow> nat \<Rightarrow> columns \<Rightarrow> (columns \<times> nat) option" where
  "round_loop f b 0 p x = Some (x, p)"
| "round_loop f b (Suc i) p x = do {
     k \<leftarrow> keys_at b p;
     let y = f k x;
     k \<leftarrow> keys_at b (p + 4);
     round_loop f b i (p + 8) (f k y) }"

definition utils_internal_aes_encrypt :: "aes_static \<Rightarrow> aes_context \<Rightarrow> ptr \<Rightarrow> ptr \<Rightarrow> mem \<Rightarrow> (int \<times> mem) option" where
  "utils_internal_aes_encrypt T ctx inp out m =
     (if \<not> rk ctx then None
      else do {
        b \<leftarrow> rd m inp 16;
        x \<leftarrow> get_columns b;
        k \<leftarrow> keys_at (buf ctx) 0;
        let x = add_keys x k;
        (x, p) \<leftarrow> round_loop (AES_FROUND T) (buf ctx) (nat (drop_bit 1 (nr ctx) - 1)) 4 x;
        k \<leftarrow> keys_at (buf ctx) p;
        let y = AES_FROUND T k x;
        k \<leftarrow> keys_at (buf ctx) (p + 4);
        m \<leftarrow> wr m out (put_columns (last_fround T k y));
        Some (0, m) })"

definition utils_internal_aes_decrypt :: "aes_static \<Rightarrow> aes_context \<Rightarrow> ptr \<Rightarrow> ptr \<Rightarrow> mem \<Rightarrow> (int \<times> mem) option" where
  "utils_internal_aes_decrypt T ctx inp out m =
     (if \<not> rk ctx then None
      else do {
        b \<leftarrow> rd m inp 16;
        x \<leftarrow> get_columns b;
        k \<leftarrow> keys_at (buf ctx) 0;
        let x = add_keys x k;
        (x, p) \<leftarrow> round_loop (AES_RROUND T) (buf ctx) (nat (drop_bit 1 (nr ctx) - 1)) 4 x;
        k \<leftarrow> keys_at (buf ctx) p;
        let y = AES_RROUND T k x;
        k \<leftarrow> keys_at (buf ctx) (p + 4);
        m \<leftarrow> wr m out (put_columns (last_rround T k y));
        Some (0, m) })"

definition utils_aes_crypt_ecb :: "aes_static \<Rightarrow> aes_context \<Rightarrow> nat \<Rightarrow> ptr \<Rightarrow> ptr \<Rightarrow> mem \<Rightarrow> (int \<times> mem) option" where
  "utils_aes_crypt_ecb T ctx mode inp out m =
     (if mode = UTILS_AES_ENCRYPT then utils_internal_aes_encrypt T ctx inp out m
      else utils_internal_aes_decrypt T ctx inp out m)"

section \<open>CBC\<close>

text \<open>The byte loop \<open>out[i] = in[i] ^ iv[i]\<close>, from \<open>i\<close> on, with \<open>n\<close> bytes to go.\<close>

fun xor_loop :: "ptr \<Rightarrow> ptr \<Rightarrow> ptr \<Rightarrow> nat \<Rightarrow> nat \<Rightarrow> mem \<Rightarrow> mem option" where
  "xor_loop inp iv out 0 i m = Some m"
| "xor_loop inp iv out (Suc n) i m = do {
     a \<leftarrow> rd m (ptr_add inp i) 1;
     v \<leftarrow> rd m (ptr_add iv i) 1;
     m \<leftarrow> wr m (ptr_add out i) [hd a XOR hd v];
     xor_loop inp iv out n (i + 1) m }"

text \<open>The loops over \<open>n\<close> blocks of 16 bytes.\<close>

fun cbc_dec_loop :: "aes_static \<Rightarrow> aes_context \<Rightarrow> nat \<Rightarrow> nat \<Rightarrow> ptr \<Rightarrow> ptr \<Rightarrow> ptr \<Rightarrow> mem \<Rightarrow> mem option" where
  "cbc_dec_loop T ctx mode 0 iv inp out m = Some m"
| "cbc_dec_loop T ctx mode (Suc n) iv inp out m = do {
     temp \<leftarrow> rd m inp 16;
     (_, m) \<leftarrow> utils_aes_crypt_ecb T ctx mode inp out m;
     m \<leftarrow> xor_loop out iv out 16 0 m;
     m \<leftarrow> wr m iv temp;
     cbc_dec_loop T ctx mode n iv (ptr_add inp 16) (ptr_add out 16) m }"

fun cbc_enc_loop :: "aes_static \<Rightarrow> aes_context \<Rightarrow> nat \<Rightarrow> nat \<Rightarrow> ptr \<Rightarrow> ptr \<Rightarrow> ptr \<Rightarrow> mem \<Rightarrow> mem option" where
  "cbc_enc_loop T ctx mode 0 iv inp out m = Some m"
| "cbc_enc_loop T ctx mode (Suc n) iv inp out m = do {
     m \<leftarrow> xor_loop inp iv out 16 0 m;
     (_, m) \<leftarrow> utils_aes_crypt_ecb T ctx mode out out m;
     c \<leftarrow> rd m out 16;
     m \<leftarrow> wr m iv c;
     cbc_enc_loop T ctx mode n iv (ptr_add inp 16) (ptr_add out 16) m }"

definition utils_aes_crypt_cbc :: "aes_static \<Rightarrow> aes_context \<Rightarrow> nat \<Rightarrow> nat \<Rightarrow> ptr \<Rightarrow> ptr \<Rightarrow> ptr \<Rightarrow> mem \<Rightarrow> (int \<times> mem) option" where
  "utils_aes_crypt_cbc T ctx mode len iv inp out m =
     (if len mod 16 \<noteq> 0 then Some (UTILS_ERR_AES_INVALID_INPUT_LENGTH, m)
      else do {
        m \<leftarrow> (if mode = UTILS_AES_DECRYPT then cbc_dec_loop T ctx mode (len div 16) iv inp out m
              else cbc_enc_loop T ctx mode (len div 16) iv inp out m);
        Some (0, m) })"

text \<open>The lengths are \<open>uint32_t\<close>. The key is the memory behind its pointer.\<close>

definition utils_aes_cbc :: "aes_static \<Rightarrow> ptr \<Rightarrow> nat \<Rightarrow> ptr \<Rightarrow> nat \<Rightarrow> nat \<Rightarrow> buffer \<Rightarrow> nat \<Rightarrow> ptr \<Rightarrow> mem
    \<Rightarrow> (int \<times> mem \<times> aes_static) option" where
  "utils_aes_cbc T inp datalen out outBuffLen mode key keybits iv m =
     (let crypt = (\<lambda>T ctx datalen m. do {
        (ret, m) \<leftarrow> utils_aes_crypt_cbc T ctx mode datalen iv inp out m;
        Some (if ret \<noteq> 0 then QCLOUD_ERR_FAILURE else QCLOUD_RET_SUCCESS, m, T) }) in
      if mode = UTILS_AES_ENCRYPT then do {
        (ret, ctx, T) \<leftarrow> utils_aes_setkey_enc T utils_aes_init key keybits;
        if ret \<noteq> 0 then Some (QCLOUD_ERR_FAILURE, m, T)
        else if outBuffLen < (datalen + UTILS_AES_BLOCK_LEN) mod 2 ^ 32 then Some (QCLOUD_ERR_FAILURE, m, T)
        else do {
          let padlen = UTILS_AES_BLOCK_LEN - datalen mod UTILS_AES_BLOCK_LEN;
          d \<leftarrow> rd m inp datalen;
          m \<leftarrow> wr m out d;
          m \<leftarrow> wr m (ptr_add out datalen) (replicate padlen 0);
          crypt T ctx ((datalen + padlen) mod 2 ^ 32) m } }
      else do {
        (ret, ctx, T) \<leftarrow> utils_aes_setkey_dec T utils_aes_init key keybits;
        if ret \<noteq> 0 then Some (QCLOUD_ERR_FAILURE, m, T)
        else crypt T ctx datalen m })"

end
