(* ===== verification/Aes_Spec.thy ===== *)
theory Aes_Spec
  imports Aes_Cipher
begin

text \<open>
  The cipher of FIPS 197 on lists of sixteen bytes, and the proof that the table-driven rounds of the code
  are its rounds: the tables combine the S-box with the multiplication of a column.
\<close>

section \<open>FIPS 197\<close>

text \<open>Multiplication by \<open>x\<close> in the field, and by the constants of the two matrices.\<close>

definition xt :: "u8 \<Rightarrow> u8" where
  "xt b = push_bit 1 b XOR (if bit b 7 then 0x1b else 0)"

definition by3 :: "u8 \<Rightarrow> u8" where "by3 b = xt b XOR b"
definition by9 :: "u8 \<Rightarrow> u8" where "by9 b = xt (xt (xt b)) XOR b"
definition by11 :: "u8 \<Rightarrow> u8" where "by11 b = xt (xt (xt b)) XOR xt b XOR b"
definition by13 :: "u8 \<Rightarrow> u8" where "by13 b = xt (xt (xt b)) XOR xt (xt b) XOR b"
definition by14 :: "u8 \<Rightarrow> u8" where "by14 b = xt (xt (xt b)) XOR xt (xt b) XOR xt b"

type_synonym state = "u8 list"

definition sub_bytes :: "u8 list \<Rightarrow> state \<Rightarrow> state" where
  "sub_bytes t s = map (\<lambda>b. t ! unat b) s"

definition shift_rows :: "state \<Rightarrow> state" where
  "shift_rows s = map ((!) s) [0, 5, 10, 15, 4, 9, 14, 3, 8, 13, 2, 7, 12, 1, 6, 11]"

definition inv_shift_rows :: "state \<Rightarrow> state" where
  "inv_shift_rows s = map ((!) s) [0, 13, 10, 7, 4, 1, 14, 11, 8, 5, 2, 15, 12, 9, 6, 3]"

definition mix_column :: "u8 \<Rightarrow> u8 \<Rightarrow> u8 \<Rightarrow> u8 \<Rightarrow> u8 list" where
  "mix_column a b c d =
     [xt a XOR by3 b XOR c XOR d, a XOR xt b XOR by3 c XOR d, a XOR b XOR xt c XOR by3 d, by3 a XOR b XOR c XOR xt d]"

definition inv_mix_column :: "u8 \<Rightarrow> u8 \<Rightarrow> u8 \<Rightarrow> u8 \<Rightarrow> u8 list" where
  "inv_mix_column a b c d =
     [by14 a XOR by11 b XOR by13 c XOR by9 d, by9 a XOR by14 b XOR by11 c XOR by13 d,
      by13 a XOR by9 b XOR by14 c XOR by11 d, by11 a XOR by13 b XOR by9 c XOR by14 d]"

fun columns_with :: "(u8 \<Rightarrow> u8 \<Rightarrow> u8 \<Rightarrow> u8 \<Rightarrow> u8 list) \<Rightarrow> state \<Rightarrow> state" where
  "columns_with f (a # b # c # d # s) = f a b c d @ columns_with f s"
| "columns_with f s = []"

definition mix_columns :: "state \<Rightarrow> state" where "mix_columns = columns_with mix_column"
definition inv_mix_columns :: "state \<Rightarrow> state" where "inv_mix_columns = columns_with inv_mix_column"

definition add_round_key :: "state \<Rightarrow> state \<Rightarrow> state" where
  "add_round_key k s = map2 (XOR) k s"

text \<open>The cipher under a list of round keys.\<close>

definition fips_round :: "state \<Rightarrow> state \<Rightarrow> state" where
  "fips_round k s = add_round_key k (mix_columns (shift_rows (sub_bytes rom_FSb s)))"

definition fips_cipher :: "state list \<Rightarrow> state \<Rightarrow> state" where
  "fips_cipher ks s =
     add_round_key (last ks) (shift_rows (sub_bytes rom_FSb (fold fips_round (butlast (tl ks)) (add_round_key (hd ks) s))))"

section \<open>Bytes of a word\<close>

definition byte :: "nat \<Rightarrow> u32 \<Rightarrow> u8" where
  "byte n w = ucast (drop_bit n w)"

definition word4 :: "u8 \<Rightarrow> u8 \<Rightarrow> u8 \<Rightarrow> u8 \<Rightarrow> u32" where
  "word4 a b c d = ucast a OR push_bit 8 (ucast b) OR push_bit 16 (ucast c) OR push_bit 24 (ucast d)"

lemma bit_byte: "bit (byte n w) i \<longleftrightarrow> i < 8 \<and> bit w (n + i)"
  by (simp add: byte_def bit_simps)

lemma bit_word4: "bit (word4 a b c d) i \<longleftrightarrow>
    (if i < 8 then bit a i else if i < 16 then bit b (i - 8) else if i < 24 then bit c (i - 16) else i < 32 \<and> bit d (i - 24))"
proof -
  have "bit x j \<Longrightarrow> j < 8" for x :: u8 and j by (auto dest: bit_imp_le_length)
  then show ?thesis by (auto simp: word4_def bit_simps) fastforce+
qed

lemma byte_word4 [simp]: "byte 0 (word4 a b c d) = a" "byte 8 (word4 a b c d) = b"
    "byte 16 (word4 a b c d) = c" "byte 24 (word4 a b c d) = d"
  by (auto intro!: bit_word_eqI simp: bit_byte bit_word4)

lemma word4_bytes: "word4 (byte 0 x) (byte 8 x) (byte 16 x) (byte 24 x) = x"
  by (rule bit_word_eqI) (auto simp: bit_byte bit_word4)

lemma byte_xor [simp]: "byte n (x XOR y) = byte n x XOR byte n y"
  by (auto intro!: bit_word_eqI simp: bit_byte bit_xor_iff)

lemma idx_byte: "idx w n = unat (byte n w)"
proof -
  have "unat (drop_bit n w AND 0xFF) = unat (drop_bit n w) mod 2 ^ 8"
    using unat_mask [of 255 8 "drop_bit n w"] by simp
  then show ?thesis by (simp add: idx_def byte_def unsigned_ucast_eq take_bit_eq_mod)
qed

lemma PUT_bytes: "PUT_UINT32_LE w = [byte 0 w, byte 8 w, byte 16 w, byte 24 w]"
proof -
  have "ucast (x AND 0xFF) = (ucast x :: u8)" for x :: u32
  proof -
    have "x AND 0xFF = take_bit 8 x" by (simp add: take_bit_eq_mask mask_eq_exp_minus_1)
    then show ?thesis by (auto intro!: bit_word_eqI simp: bit_simps)
  qed
  then show ?thesis by (simp add: PUT_UINT32_LE_def byte_def)
qed

lemma GET_word4: "i + 4 \<le> length b \<Longrightarrow> GET_UINT32_LE b i = Some (word4 (b ! i) (b ! (i + 1)) (b ! (i + 2)) (b ! (i + 3)))"
  by (simp add: GET_UINT32_LE_def mem_read_def word4_def)

lemma bit_high [simp]: "8 \<le> j \<Longrightarrow> \<not> bit (x :: u8) j"
  by (auto dest: bit_imp_le_length)

lemma byte_rotl [simp]:
  "byte 0 (word_rotl 8 x) = byte 24 x" "byte 8 (word_rotl 8 x) = byte 0 x" "byte 16 (word_rotl 8 x) = byte 8 x" "byte 24 (word_rotl 8 x) = byte 16 x"
  "byte 0 (word_rotl 16 x) = byte 16 x" "byte 8 (word_rotl 16 x) = byte 24 x" "byte 16 (word_rotl 16 x) = byte 0 x" "byte 24 (word_rotl 16 x) = byte 8 x"
  "byte 0 (word_rotl 24 x) = byte 8 x" "byte 8 (word_rotl 24 x) = byte 16 x" "byte 16 (word_rotl 24 x) = byte 24 x" "byte 24 (word_rotl 24 x) = byte 0 x"
  by (auto intro!: bit_word_eqI simp: bit_byte bit_word_rotl_iff mod_if add.commute [of _ "8 :: nat"] add.commute [of _ "16 :: nat"] add.commute [of _ "24 :: nat"])

lemma xt_xor: "xt (a XOR b) = xt a XOR xt b"
  by (simp add: xt_def bit_xor_iff push_bit_xor xor.assoc xor.left_commute xor.commute)

lemmas field_ops = by3_def by9_def by11_def by13_def by14_def xt_xor

lemma xor_cancel [simp]: "a XOR (a XOR b) = (b :: 'a :: len word)"
  by (simp flip: xor.assoc)

lemmas xor_ac = xor.assoc xor.commute xor.left_commute

section \<open>The tables\<close>

text \<open>The static variables behind the first key setup.\<close>

definition ready :: aes_static where
  "ready = rom_tables\<lparr>aes_init_done := True\<rparr>"

lemma ready_simps:
  "FSb ready = rom_FSb" "RSb ready = rom_RSb" "FT0 ready = rom_FT" "RT0 ready = rom_RT"
  "FT1 ready = map (word_rotl 8) rom_FT" "FT2 ready = map (word_rotl 16) rom_FT" "FT3 ready = map (word_rotl 24) rom_FT"
  "RT1 ready = map (word_rotl 8) rom_RT" "RT2 ready = map (word_rotl 16) rom_RT" "RT3 ready = map (word_rotl 24) rom_RT"
  by (simp_all add: ready_def rom_tables_def rom_rotated_def)

lemma low_byte: "x AND 0xFF = take_bit 8 (x :: int)"
  by (simp add: take_bit_eq_mask mask_eq_exp_minus_1)

lemma take_byte: "take_bit 8 (uint b) = uint (b :: u8)"
  by (rule bit_eqI) (use bit_imp_le_length [of b] in \<open>auto simp: bit_simps\<close>)

lemma XTIME_xt: "XTIME (uint b) AND 0xFF = uint (xt b)"
proof -
  have b: "uint b AND 0x80 \<noteq> 0 \<longleftrightarrow> bit b 7"
    using and_exp_eq_0_iff_not_bit [of "uint b" 7] by (simp add: bit_unsigned_iff)
  have p: "uint (push_bit 1 b) = take_bit 8 (push_bit 1 (uint b))"
    by (simp only: unsigned_push_bit_eq) simp
  have c: "uint (if bit b 7 then 0x1b else 0 :: u8) = take_bit 8 (if uint b AND 0x80 \<noteq> 0 then 0x1B else 0)"
    using b by simp
  show ?thesis unfolding low_byte XTIME_def xt_def unsigned_xor_eq take_bit_xor p c ..
qed

lemma ft_word4: "ft_value (uint b) = word4 (xt b) b b (by3 b)"
proof -
  have o: "of_int (uint c) = (ucast c :: u32)" for c :: u8 by simp
  have z: "(uint (xt b) XOR uint b) AND 0xFF = uint (by3 b)"
    unfolding low_byte take_bit_xor take_byte by (simp add: by3_def unsigned_xor_eq)
  show ?thesis
    unfolding ft_value_def Let_def XTIME_xt z o
    by (rule bit_word_eqI) (auto simp: bit_word4 bit_simps)
qed

lemma ft_entry: "rom_FT ! unat (b :: u8) = word4 (xt (rom_FSb ! unat b)) (rom_FSb ! unat b) (rom_FSb ! unat b) (by3 (rom_FSb ! unat b))"
  using byte_lt [of b] by (simp add: length_rom ft_word4 flip: ft_values)

lemma rt_entries: "rom_RT = map (\<lambda>r. word4 (by14 r) (by9 r) (by13 r) (by11 r)) rom_RSb"
  by code_simp

lemma rt_entry: "rom_RT ! unat (b :: u8) = word4 (by14 (rom_RSb ! unat b)) (by9 (rom_RSb ! unat b)) (by13 (rom_RSb ! unat b)) (by11 (rom_RSb ! unat b))"
  using byte_lt [of b] by (simp add: rt_entries length_rom)

lemma sbox_inverse: "map (\<lambda>b. rom_RSb ! unat b) rom_FSb = map of_nat [0..<256]"
  by code_simp

lemma inv_sub: "rom_RSb ! unat (rom_FSb ! unat b) = b"
proof -
  have "map (\<lambda>b. rom_RSb ! unat b) rom_FSb ! unat b = of_nat (unat b)"
    unfolding sbox_inverse using byte_lt [of b] by simp
  then show ?thesis using byte_lt [of b] by (simp add: length_rom)
qed

section \<open>The rounds of the code\<close>

lemma map_at: "unat (b :: u8) < length t \<Longrightarrow> map f t ! unat b = f (t ! unat b)"
  by simp

lemma table_at:
  "map f rom_FT ! unat (b :: u8) = f (rom_FT ! unat b)" "map f rom_RT ! unat b = f (rom_RT ! unat b)"
  using byte_lt [of b] by (simp_all add: length_rom)

lemma ft_word_bytes:
  "PUT_UINT32_LE (ft_word ready k a b c d) = map2 (XOR) (PUT_UINT32_LE k)
     (mix_column (rom_FSb ! unat (byte 0 a)) (rom_FSb ! unat (byte 8 b)) (rom_FSb ! unat (byte 16 c)) (rom_FSb ! unat (byte 24 d)))"
  unfolding PUT_bytes ft_word_def ready_simps idx_byte table_at ft_entry
  by (simp add: mix_column_def xor_ac)

lemma rt_word_bytes:
  "PUT_UINT32_LE (rt_word ready k a b c d) = map2 (XOR) (PUT_UINT32_LE k)
     (inv_mix_column (rom_RSb ! unat (byte 0 a)) (rom_RSb ! unat (byte 8 b)) (rom_RSb ! unat (byte 16 c)) (rom_RSb ! unat (byte 24 d)))"
  unfolding PUT_bytes rt_word_def ready_simps idx_byte table_at rt_entry
  by (simp add: inv_mix_column_def xor_ac)

lemma sbox_word: "ucast a XOR push_bit 8 (ucast b) XOR push_bit 16 (ucast c) XOR push_bit 24 (ucast d) = word4 a b c d"
  by (rule bit_word_eqI) (auto simp: bit_word4 bit_simps)

lemma last_word_bytes:
  "PUT_UINT32_LE (last_word t k a b c d) = map2 (XOR) (PUT_UINT32_LE k)
     [t ! unat (byte 0 a), t ! unat (byte 8 b), t ! unat (byte 16 c), t ! unat (byte 24 d)]"
proof -
  have "last_word t k a b c d = k XOR word4 (t ! unat (byte 0 a)) (t ! unat (byte 8 b)) (t ! unat (byte 16 c)) (t ! unat (byte 24 d))"
    unfolding sbox_word [symmetric] by (simp add: last_word_def sbox_at_def idx_byte xor.assoc)
  then show ?thesis by (simp add: PUT_bytes)
qed

lemmas state_ops = put_columns_def PUT_bytes sub_bytes_def shift_rows_def inv_shift_rows_def add_round_key_def
  mix_columns_def inv_mix_columns_def

lemma fround_bytes: "put_columns (AES_FROUND ready k y) = fips_round (put_columns k) (put_columns y)"
  by (cases k; cases y; simp only: AES_FROUND_def put_columns_def prod.case ft_word_bytes)
    (simp add: fips_round_def sub_bytes_def shift_rows_def mix_columns_def add_round_key_def PUT_bytes mix_column_def)

lemma last_fround_bytes:
  "put_columns (last_fround ready k y) = add_round_key (put_columns k) (shift_rows (sub_bytes rom_FSb (put_columns y)))"
  by (cases k; cases y; simp only: last_fround_def put_columns_def prod.case last_word_bytes ready_simps)
    (simp add: sub_bytes_def shift_rows_def add_round_key_def PUT_bytes)

lemma rround_bytes:
  "put_columns (AES_RROUND ready k y) = add_round_key (put_columns k) (inv_mix_columns (inv_shift_rows (sub_bytes rom_RSb (put_columns y))))"
  by (cases k; cases y; simp only: AES_RROUND_def put_columns_def prod.case rt_word_bytes)
    (simp add: sub_bytes_def inv_shift_rows_def inv_mix_columns_def add_round_key_def PUT_bytes inv_mix_column_def)

lemma last_rround_bytes:
  "put_columns (last_rround ready k y) = add_round_key (put_columns k) (inv_shift_rows (sub_bytes rom_RSb (put_columns y)))"
  by (cases k; cases y; simp only: last_rround_def put_columns_def prod.case last_word_bytes ready_simps)
    (simp add: sub_bytes_def inv_shift_rows_def add_round_key_def PUT_bytes)

section \<open>The inverse operations\<close>

lemma state_cases:
  assumes "length s = 16"
  obtains a0 a1 a2 a3 a4 a5 a6 a7 a8 a9 a10 a11 a12 a13 a14 a15
  where "s = [a0, a1, a2, a3, a4, a5, a6, a7, a8, a9, a10, a11, a12, a13, a14, a15]"
  using assms by (auto simp: numeral_eq_Suc length_Suc_conv)

lemma length_put_columns [simp]: "length (put_columns x) = 16"
  by (cases x) (simp add: put_columns_def PUT_bytes)

lemma inv_mix_mix: "length s = 16 \<Longrightarrow> inv_mix_columns (mix_columns s) = s"
  by (erule state_cases) (simp add: mix_columns_def inv_mix_columns_def mix_column_def inv_mix_column_def field_ops xor_ac)

lemma inv_mix_add: "length s = 16 \<Longrightarrow> length k = 16 \<Longrightarrow>
    inv_mix_columns (add_round_key k s) = add_round_key (inv_mix_columns k) (inv_mix_columns s)"
  by (erule state_cases, erule state_cases)
    (simp add: inv_mix_columns_def inv_mix_column_def add_round_key_def field_ops xor_ac)

lemma inv_shift_sub: "length s = 16 \<Longrightarrow>
    inv_shift_rows (sub_bytes rom_RSb (shift_rows (sub_bytes rom_FSb s))) = s"
  by (erule state_cases) (simp add: inv_shift_rows_def shift_rows_def sub_bytes_def inv_sub)

lemma add_add: "length s = length k \<Longrightarrow> add_round_key k (add_round_key k s) = s"
  by (simp add: add_round_key_def list_eq_iff_nth_eq)

lemma state_lengths [simp]:
  "length (add_round_key k s) = min (length k) (length s)" "length (shift_rows s) = 16" "length (sub_bytes t s) = length s"
  "length s = 16 \<Longrightarrow> length (mix_columns s) = 16" "length s = 16 \<Longrightarrow> length (inv_mix_columns s) = 16"
  by (simp_all add: add_round_key_def shift_rows_def sub_bytes_def)
    (erule state_cases, simp add: mix_columns_def inv_mix_columns_def mix_column_def inv_mix_column_def)+

end
