(* ===== verification/Aes_Correct.thy ===== *)
theory Aes_Correct
  imports Aes_Spec
begin

text \<open>
  The cipher of the code is the one of FIPS 197, decryption is its inverse, and \<open>utils_aes_cbc\<close> in place
  is undone by itself; with two different buffers it reads behind its input.
\<close>

section \<open>Keys\<close>

text \<open>The words and the bytes of round key \<open>i\<close>.\<close>

definition key_words :: "u32 list \<Rightarrow> nat \<Rightarrow> u32 list" where
  "key_words b i = take 4 (drop (4 * i) b)"

definition key_block :: "u32 list \<Rightarrow> nat \<Rightarrow> state" where
  "key_block b i = concat (map PUT_UINT32_LE (key_words b i))"

lemma key_words_eq: "4 * i + 4 \<le> length b \<Longrightarrow> key_words b i = [b ! (4 * i), b ! (4 * i + 1), b ! (4 * i + 2), b ! (4 * i + 3)]"
  by (simp add: key_words_def take4)

lemma keys_at_block: "4 * i + 4 \<le> length b \<Longrightarrow> \<exists>k. keys_at b (4 * i) = Some k \<and> put_columns k = key_block b i"
  by (simp add: keys_at_def mem_read_def put_columns_def key_block_def key_words_eq)

lemma length_key_block [simp]: "4 * i + 4 \<le> length b \<Longrightarrow> length (key_block b i) = 16"
  by (simp add: key_block_def key_words_eq PUT_bytes)

lemma get_put_columns: "length b = 16 \<Longrightarrow> \<exists>x. get_columns b = Some x \<and> put_columns x = b"
  by (erule state_cases) (simp add: get_columns_def GET_word4 put_columns_def PUT_bytes)

lemma add_keys_bytes: "put_columns (add_keys x k) = add_round_key (put_columns k) (put_columns x)"
  by (cases x; cases k) (simp add: add_keys_def put_columns_def PUT_bytes add_round_key_def xor_ac)

section \<open>The rounds\<close>

lemma round_loop_fold:
  assumes "\<And>k x. put_columns (f k x) = g (put_columns k) (put_columns x)"
  shows "4 * (j + 2 * n) \<le> length b \<Longrightarrow> \<exists>x'. round_loop f b n (4 * j) x = Some (x', 4 * (j + 2 * n))
    \<and> put_columns x' = fold (\<lambda>i. g (key_block b i)) [j..<j + 2 * n] (put_columns x)"
proof (induction n arbitrary: j x)
  case (Suc n)
  have l: "4 * j + 4 \<le> length b" "4 * (j + 1) + 4 \<le> length b" using Suc.prems by auto
  obtain k1 where k1: "keys_at b (4 * j) = Some k1" "put_columns k1 = key_block b j" using keys_at_block [OF l(1)] by blast
  obtain k2 where k2: "keys_at b (4 * (j + 1)) = Some k2" "put_columns k2 = key_block b (j + 1)" using keys_at_block [OF l(2)] by blast
  have "[j..<j + 2 * Suc n] = j # (j + 1) # [(j + 2)..<(j + 2) + 2 * n]" by (simp add: upt_rec)
  then show ?case using Suc.IH [of "j + 2" "f k2 (f k1 x)"] Suc.prems k1 k2 assms by (simp add: algebra_simps)
qed simp

text \<open>A context whose round keys are set.\<close>

definition keyed :: "aes_context \<Rightarrow> nat \<Rightarrow> bool" where
  "keyed ctx n \<longleftrightarrow> rk ctx \<and> nr ctx = int n \<and> even n \<and> 2 \<le> n \<and> 4 * (n + 1) \<le> length (buf ctx)"

lemma half_rounds: "even n \<Longrightarrow> nat (drop_bit 1 (int n) - 1) * 2 = n - 2"
  by (auto simp: drop_bit_eq_div elim!: evenE)

lemma crypt_rounds:
  assumes "\<And>k x. put_columns (f k x) = g (put_columns k) (put_columns x)"
    and "\<And>k x. put_columns (l k x) = h (put_columns k) (put_columns x)"
    and "keyed ctx n" and "length b = 16"
  shows "do { x \<leftarrow> get_columns b;
      k \<leftarrow> keys_at (buf ctx) 0;
      let x = add_keys x k;
      (x, p) \<leftarrow> round_loop f (buf ctx) (nat (drop_bit 1 (nr ctx) - 1)) 4 x;
      k \<leftarrow> keys_at (buf ctx) p;
      let y = f k x;
      k \<leftarrow> keys_at (buf ctx) (p + 4);
      m \<leftarrow> wr m out (put_columns (l k y));
      Some (0 :: int, m) }
    = map_option (Pair 0) (wr m out (h (key_block (buf ctx) n)
        (fold (\<lambda>i. g (key_block (buf ctx) i)) [1..<n] (add_round_key (key_block (buf ctx) 0) b))))"
proof -
  have n: "rk ctx" "nr ctx = int n" "even n" "2 \<le> n" "4 * n + 4 \<le> length (buf ctx)" using assms(3) by (simp_all add: keyed_def)
  let ?r = "nat (drop_bit 1 (nr ctx) - 1)"
  have r: "2 * ?r = n - 2" using half_rounds [OF n(3)] n(2) by simp
  obtain x where x: "get_columns b = Some x" "put_columns x = b" using get_put_columns [OF assms(4)] by blast
  obtain k0 where k0: "keys_at (buf ctx) 0 = Some k0" "put_columns k0 = key_block (buf ctx) 0"
    using keys_at_block [of 0 "buf ctx"] n(5) by auto
  obtain x' where x': "round_loop f (buf ctx) ?r 4 (add_keys x k0) = Some (x', 4 * (n - 1))"
    "put_columns x' = fold (\<lambda>i. g (key_block (buf ctx) i)) [1..<n - 1] (add_round_key (key_block (buf ctx) 0) b)"
  proof -
    have e: "1 + 2 * ?r = n - 1" "4 * (n - 1) \<le> length (buf ctx)" using r n(4,5) by auto
    show ?thesis
      using round_loop_fold [of f g 1 ?r "buf ctx" "add_keys x k0", OF assms(1)] that e(2)
      unfolding e(1) add_keys_bytes x(2) k0(2) by auto
  qed
  have l: "4 * (n - 1) + 4 = 4 * n" "4 * (n - 1) + 4 \<le> length (buf ctx)" using n(4,5) by auto
  obtain k1 where k1: "keys_at (buf ctx) (4 * (n - 1)) = Some k1" "put_columns k1 = key_block (buf ctx) (n - 1)"
    using keys_at_block [OF l(2)] by blast
  obtain k2 where k2: "keys_at (buf ctx) (4 * n) = Some k2" "put_columns k2 = key_block (buf ctx) n"
    using keys_at_block [OF n(5)] by blast
  have u: "[1..<n] = [1..<n - 1] @ [n - 1]" using n(4) by (cases n) auto
  show ?thesis unfolding x k0 u using x'(1) k1(1) k2(1) l(1)
    by (cases "wr m out (put_columns (l k2 (f k1 x')))") (simp_all add: x'(2) k1(2) k2(2) k0 assms(1,2))
qed


definition fips_encrypt :: "(nat \<Rightarrow> state) \<Rightarrow> nat \<Rightarrow> state \<Rightarrow> state" where
  "fips_encrypt ks n s = fips_cipher (map ks [0..<n + 1]) s"

definition dec_round :: "state \<Rightarrow> state \<Rightarrow> state" where
  "dec_round k s = add_round_key k (inv_mix_columns (inv_shift_rows (sub_bytes rom_RSb s)))"

definition fips_decrypt :: "(nat \<Rightarrow> state) \<Rightarrow> nat \<Rightarrow> state \<Rightarrow> state" where
  "fips_decrypt ks n s = add_round_key (ks n) (inv_shift_rows (sub_bytes rom_RSb
     (fold (\<lambda>i. dec_round (ks i)) [1..<n] (add_round_key (ks 0) s))))"

lemma fips_encrypt_fold: "1 \<le> n \<Longrightarrow> fips_encrypt ks n s = add_round_key (ks n) (shift_rows (sub_bytes rom_FSb
     (fold (\<lambda>i. fips_round (ks i)) [1..<n] (add_round_key (ks 0) s))))"
proof -
  assume n: "1 \<le> n"
  have u: "[0..<n + 1] = 0 # [1..<n] @ [n]" using n upt_conv_Cons [of 0 n] by simp
  show ?thesis unfolding fips_encrypt_def fips_cipher_def u by (simp add: fold_map comp_def)
qed

lemma encrypt_block:
  assumes "keyed ctx n" and "rd m inp 16 = Some b"
  shows "utils_internal_aes_encrypt ready ctx inp out m = map_option (Pair 0) (wr m out (fips_encrypt (key_block (buf ctx)) n b))"
proof -
  have l: "length b = 16" using assms(2) by (auto simp: rd_def mem_slice_def split: if_splits)
  have "rk ctx" "1 \<le> n" using assms(1) by (simp_all add: keyed_def)
  then show ?thesis
    unfolding utils_internal_aes_encrypt_def assms(2)
    using crypt_rounds [of "AES_FROUND ready" fips_round "last_fround ready" "\<lambda>k s. add_round_key k (shift_rows (sub_bytes rom_FSb s))",
        OF fround_bytes last_fround_bytes assms(1) l, of m out] by (simp add: fips_encrypt_fold)
qed

lemma rround_dec: "put_columns (AES_RROUND ready k y) = dec_round (put_columns k) (put_columns y)"
  by (simp add: rround_bytes dec_round_def)

lemma decrypt_block:
  assumes "keyed ctx n" and "rd m inp 16 = Some b"
  shows "utils_internal_aes_decrypt ready ctx inp out m = map_option (Pair 0) (wr m out (fips_decrypt (key_block (buf ctx)) n b))"
proof -
  have l: "length b = 16" using assms(2) by (auto simp: rd_def mem_slice_def split: if_splits)
  have "rk ctx" using assms(1) by (simp add: keyed_def)
  then show ?thesis
    unfolding utils_internal_aes_decrypt_def assms(2)
    using crypt_rounds [of "AES_RROUND ready" dec_round "last_rround ready" "\<lambda>k s. add_round_key k (inv_shift_rows (sub_bytes rom_RSb s))",
        OF rround_dec last_rround_bytes assms(1) l, of m out] by (simp add: fips_decrypt_def)
qed

section \<open>Decryption is the inverse\<close>

text \<open>The keys of the equivalent inverse cipher.\<close>

definition inverse_keys :: "nat \<Rightarrow> (nat \<Rightarrow> state) \<Rightarrow> (nat \<Rightarrow> state) \<Rightarrow> bool" where
  "inverse_keys n ek dk \<longleftrightarrow> dk 0 = ek n \<and> dk n = ek 0 \<and> (\<forall>i. 0 < i \<and> i < n \<longrightarrow> dk i = inv_mix_columns (ek (n - i)))"

lemma decrypt_encrypt:
  assumes "inverse_keys n ek dk" and "1 \<le> n" and "\<forall>i \<le> n. length (ek i) = 16" and "length s = 16"
  shows "fips_decrypt dk n (fips_encrypt ek n s) = s"
proof -
  define B where "B s = shift_rows (sub_bytes rom_FSb s)" for s
  define st where "st j = fold (\<lambda>i. fips_round (ek i)) [1..<j + 1] (add_round_key (ek 0) s)" for j
  have st: "length (st j) = 16 \<and> (Suc j \<le> n \<longrightarrow> st (Suc j) = add_round_key (ek (Suc j)) (mix_columns (B (st j))))" if "j \<le> n" for j
    using that
  proof (induction j)
    case 0
    then show ?case using assms(3,4) by (simp add: st_def fips_round_def B_def)
  next
    case (Suc j)
    then show ?case using assms(3) by (simp add: st_def fips_round_def B_def)
  qed
  have c: "fips_encrypt ek n s = add_round_key (ek n) (B (st (n - 1)))"
    using assms(2) by (simp add: fips_encrypt_fold st_def B_def)
  have "fold (\<lambda>i. dec_round (dk i)) [1..<j + 1] (add_round_key (dk 0) (fips_encrypt ek n s)) = B (st (n - 1 - j))" if "j < n" for j
    using that
  proof (induction j)
    case 0
    then show ?case using assms(1,3) by (simp add: c add_add inverse_keys_def B_def)
  next
    case (Suc j)
    define i where "i = n - 2 - j"
    have i: "n - 1 - j = Suc i" "n - 1 - Suc j = i" "Suc i \<le> n" "i \<le> n" "n - Suc j = Suc i" using Suc.prems by (auto simp: i_def)
    have "dk (Suc j) = inv_mix_columns (ek (Suc i))"
      using assms(1) Suc.prems i(5) unfolding inverse_keys_def by simp
    moreover have "inv_shift_rows (sub_bytes rom_RSb (B (st (Suc i)))) = st (Suc i)"
      unfolding B_def using st [OF i(3)] by (simp add: inv_shift_sub)
    ultimately have "dec_round (dk (Suc j)) (B (st (Suc i))) = inv_mix_columns (add_round_key (ek (Suc i)) (st (Suc i)))"
      using st [OF i(3)] assms(3) i(3) by (simp add: dec_round_def inv_mix_add)
    also have "\<dots> = B (st i)"
      using st [OF i(4)] assms(3) i(3) by (simp add: add_add inv_mix_mix B_def)
    finally show ?case using Suc i by simp
  qed
  from this [of "n - 1"] have "fold (\<lambda>i. dec_round (dk i)) [1..<n] (add_round_key (dk 0) (fips_encrypt ek n s)) = B (st 0)"
    using assms(2) by simp
  moreover have "inv_shift_rows (sub_bytes rom_RSb (B (st 0))) = st 0"
    unfolding B_def using st [of 0] by (simp add: inv_shift_sub)
  ultimately show ?thesis
    using assms(1,3,4) by (simp add: fips_decrypt_def inverse_keys_def st_def add_add)
qed

section \<open>Key setup\<close>

lemma load_key_ok: "4 * (i + n) \<le> length key \<Longrightarrow> i + n \<le> length RK \<Longrightarrow>
    \<exists>RK'. load_key key n i RK = Some RK' \<and> length RK' = length RK"
proof (induction n arbitrary: i RK)
  case (Suc n)
  have g: "GET_UINT32_LE key (4 * i) \<noteq> None" using Suc.prems by (simp add: GET_word4)
  then obtain w where w: "GET_UINT32_LE key (4 * i) = Some w" by blast
  then show ?case using Suc.prems Suc.IH [of "i + 1" "RK[i := w]"] by (simp add: mem_write_def)
qed simp

lemma length_chain [simp]: "length (chain w ws) = length ws"
  by (induction ws arbitrary: w) auto

lemma expand_ok:
  assumes "\<And>i old. length old = nk \<Longrightarrow> length (f i old) = nk"
  shows "p + nk * (n + 1) \<le> length RK \<Longrightarrow> \<exists>RK'. expand f nk n i p RK = Some RK' \<and> length RK' = length RK"
proof (induction n arbitrary: i p RK)
  case (Suc n)
  let ?old = "take nk (drop p RK)"
  have old: "mem_slice RK p nk = Some ?old" "length ?old = nk" using Suc.prems by (auto simp: mem_slice_def)
  have "mem_copy RK (p + nk) (f i ?old) = Some (overlay RK (p + nk) (f i ?old))"
    "length (overlay RK (p + nk) (f i ?old)) = length RK"
    using Suc.prems assms [OF old(2), of i] by (auto simp: mem_copy_def)
  then show ?case using Suc.prems Suc.IH [of "p + nk" "overlay RK (p + nk) (f i ?old)" "i + 1"] old by simp
qed simp

definition rounds_of :: "nat \<Rightarrow> nat" where
  "rounds_of keybits = keybits div 32 + 6"

definition key_sizes :: "nat set" where "key_sizes = {128, 192, 256}"

definition started :: "aes_static \<Rightarrow> bool" where
  "started T \<longleftrightarrow> T = aes_boot \<or> T = ready"

lemma set_tables: "started T \<Longrightarrow>
    (if \<not> aes_init_done T then (aes_gen_tables T)\<lparr>aes_init_done := True\<rparr> else T) = ready"
  by (auto simp: started_def gen_tables ready_def rom_tables_def) (simp add: aes_boot_def)+

lemma setkey_enc_ok:
  assumes "started T" and "keybits \<in> key_sizes" and "8 * length key \<ge> keybits" and "length (buf ctx) = 68"
  shows "\<exists>ctx'. utils_aes_setkey_enc T ctx key keybits = Some (0, ctx', ready) \<and> keyed ctx' (rounds_of keybits)
    \<and> length (buf ctx') = 68"
proof -
  let ?n = "drop_bit 5 keybits"
  have n: "?n = keybits div 32" by (simp add: drop_bit_eq_div)
  have k: "4 * (0 + ?n) \<le> length key" "0 + ?n \<le> length (buf ctx)" using assms(2-4) by (auto simp: key_sizes_def)
  obtain RK where RK: "load_key key ?n 0 (buf ctx) = Some RK" "length RK = 68"
    using load_key_ok [OF k] assms(4) by auto
  have l: "length (next_words ready i old) = length old" for i old by (simp add: next_words_def)
  have l8: "length (next_words256 ready i old) = length old" if "length old = 8" for i old
    using that by (simp add: next_words256_def Let_def)
  obtain R4 where R4: "expand (next_words ready) 4 10 0 0 RK = Some R4" "length R4 = 68"
    using expand_ok [of 4 "next_words ready" 0 10 RK 0] RK(2) l by auto
  obtain R6 where R6: "expand (next_words ready) 6 8 0 0 RK = Some R6" "length R6 = 68"
    using expand_ok [of 6 "next_words ready" 0 8 RK 0] RK(2) l by auto
  obtain R8 where R8: "expand (next_words256 ready) 8 7 0 0 RK = Some R8" "length R8 = 68"
    using expand_ok [of 8 "next_words256 ready" 0 7 RK 0] RK(2) l8 by auto
  show ?thesis
    using assms(2) unfolding utils_aes_setkey_enc_def set_tables [OF assms(1)]
    by (auto simp: key_sizes_def RK R4 R6 R8 keyed_def rounds_of_def)
qed

lemma started_ready [simp]: "started ready" "started aes_boot"
  by (simp_all add: started_def)

text \<open>The same key gives the same round keys in a fresh context.\<close>

lemma inv_column_bytes: "PUT_UINT32_LE (inv_column ready w)
    = inv_mix_column (byte 0 w) (byte 8 w) (byte 16 w) (byte 24 w)"
  unfolding PUT_bytes inv_column_def ready_simps idx_byte table_at rt_entry inv_sub
  by (simp add: inv_mix_column_def xor_ac)

lemma inv_key_block:
  assumes "4 * i + 4 \<le> length ek" and "key_words dk j = map (inv_column ready) (key_words ek i)"
  shows "key_block dk j = inv_mix_columns (key_block ek i)"
  unfolding key_block_def assms(2) key_words_eq [OF assms(1)] list.map inv_column_bytes
  by (simp add: inv_mix_columns_def PUT_bytes)

lemma key_words_copy: "4 * j + 4 \<le> length b \<Longrightarrow> length w = 4 \<Longrightarrow> key_words (overlay b (4 * j) w) j = w"
  by (simp add: key_words_def overlay_def)

lemma key_words_before: "take (4 * r) b' = take (4 * r) b \<Longrightarrow> j < r \<Longrightarrow> key_words b' j = key_words b j"
proof -
  assume t: "take (4 * r) b' = take (4 * r) b" and "j < r"
  then have "key_words x j = take 4 (drop (4 * j) (take (4 * r) x))" for x :: "u32 list"
    by (simp add: key_words_def drop_take min_def)
  then show ?thesis using t by simp
qed

lemma dec_loop_ok:
  "4 * n + 4 \<le> length ek \<Longrightarrow> 4 * (r + n) \<le> length b \<Longrightarrow>
    \<exists>b'. dec_loop ready ek n (4 * n) (4 * r) b = Some (0, 4 * (r + n), b') \<and> length b' = length b
      \<and> take (4 * r) b' = take (4 * r) b
      \<and> (\<forall>i < n. key_words b' (r + i) = map (inv_column ready) (key_words ek (n - i)))"
proof (induction n arbitrary: r b)
  case (Suc n)
  let ?w = "map (inv_column ready) (key_words ek (Suc n))"
  let ?b = "overlay b (4 * r) ?w"
  have w: "mem_slice ek (4 * Suc n) 4 = Some (key_words ek (Suc n))" "length ?w = 4"
    using Suc.prems(1) by (simp_all add: mem_slice_def key_words_def)
  have b: "mem_copy b (4 * r) ?w = Some ?b" "length ?b = length b" using Suc.prems(2) w(2) by (simp_all add: mem_copy_def)
  obtain b' where b': "dec_loop ready ek n (4 * n) (4 * (r + 1)) ?b = Some (0, 4 * (r + 1 + n), b')" "length b' = length b"
    "take (4 * (r + 1)) b' = take (4 * (r + 1)) ?b"
    "\<forall>i < n. key_words b' (r + 1 + i) = map (inv_column ready) (key_words ek (n - i))"
    using Suc.IH [of "r + 1" ?b] Suc.prems b(2) by auto
  have "key_words b' r = ?w"
    using key_words_before [OF b'(3), of r] key_words_copy [of r b ?w] Suc.prems(2) w(2) by simp
  then have "\<forall>i < Suc n. key_words b' (r + i) = map (inv_column ready) (key_words ek (Suc n - i))"
    using b'(4) by (auto simp: less_Suc_eq_0_disj)
  moreover have "take (4 * r) b' = take (4 * r) b"
  proof -
    have "take (4 * r) (take (4 * (r + 1)) b') = take (4 * r) (take (4 * (r + 1)) ?b)" using b'(3) by simp
    then show ?thesis using Suc.prems(2) by (simp add: take_overlay_le)
  qed
  moreover have "dec_loop ready ek n (4 * n) (4 * r + 4) ?b = Some (0, 4 * (r + Suc n), b')" using b'(1) by (simp add: algebra_simps)
  ultimately show ?case using w(1) b(1) b'(2) by simp
qed simp

lemma keyed_68: "keybits \<in> key_sizes \<Longrightarrow> 4 * (rounds_of keybits) + 4 \<le> 68 \<and> 2 \<le> rounds_of keybits"
  by (auto simp: key_sizes_def rounds_of_def)

lemma length_init [simp]: "length (buf utils_aes_init) = 68" "buf utils_aes_init = replicate 68 0"
  by (simp_all add: utils_aes_init_def)

lemma setkey_enc_started: "started T \<Longrightarrow> utils_aes_setkey_enc T ctx key keybits
    = (if keybits \<in> key_sizes then utils_aes_setkey_enc ready ctx key keybits
       else Some (UTILS_ERR_AES_INVALID_KEY_LENGTH, ctx, T))"
  unfolding utils_aes_setkey_enc_def set_tables set_tables [OF started_ready(1)] by (auto simp: key_sizes_def)

lemma setkey_dec_ok:
  assumes "started T" and "keybits \<in> key_sizes" and "utils_aes_setkey_enc ready utils_aes_init key keybits = Some (0, ctx, ready)"
    and "keyed ctx (rounds_of keybits)" and "length (buf ctx) = 68" and "length (buf dctx) = 68"
  shows "\<exists>ctx'. utils_aes_setkey_dec T dctx key keybits = Some (0, ctx', ready) \<and> keyed ctx' (rounds_of keybits)
    \<and> inverse_keys (rounds_of keybits) (key_block (buf ctx)) (key_block (buf ctx'))"
proof -
  define n where "n = rounds_of keybits"
  have n: "4 * n + 4 \<le> 68" "2 \<le> n" "even n" "nr ctx = int n" using keyed_68 [OF assms(2)] assms(4) by (simp_all add: n_def keyed_def)
  let ?w = "key_words (buf ctx) n"
  let ?b = "overlay (buf dctx) (4 * 0) ?w"
  have w: "mem_slice (buf ctx) (4 * n) 4 = Some ?w" "length ?w = 4" using n(1) assms(5) by (simp_all add: mem_slice_def key_words_def)
  have b: "mem_copy (buf dctx) 0 ?w = Some ?b" "length ?b = 68" using w(2) assms(6) by (simp_all add: mem_copy_def)
  obtain c where c: "dec_loop ready (buf ctx) (n - 1) (4 * (n - 1)) (4 * 1) ?b = Some (0, 4 * (1 + (n - 1)), c)" "length c = 68"
    "take (4 * 1) c = take (4 * 1) ?b" "\<forall>i < n - 1. key_words c (1 + i) = map (inv_column ready) (key_words (buf ctx) (n - 1 - i))"
  proof -
    have "4 * (n - 1) + 4 \<le> length (buf ctx)" "4 * (1 + (n - 1)) \<le> length ?b" using n(1,2) assms(5) b(2) by auto
    from dec_loop_ok [OF this] show ?thesis using that b(2) by metis
  qed
  let ?v = "key_words (buf ctx) 0"
  let ?c = "overlay c (4 * n) ?v"
  have v: "mem_slice (buf ctx) 0 4 = Some ?v" "length ?v = 4" using n(1) assms(5) by (simp_all add: mem_slice_def key_words_def)
  have d: "mem_copy c (4 * n) ?v = Some ?c" "length ?c = 68" using v(2) n(1) c(2) by (simp_all add: mem_copy_def)
  have idx: "nat (int n * 4) = 4 * n" "nat (int n - 1) = n - 1" "4 * n + 4 - 8 = 4 * (n - 1)" "4 * (1 + (n - 1)) = 4 * n"
    using n by auto
  have "4 * (n - 1) = 4 * n - 4" by simp
  with c(1) have c1: "dec_loop ready (buf ctx) (n - 1) (4 * n - 4) 4 ?b = Some (0, 4 * n, c)" unfolding idx by simp
  have e: "utils_aes_setkey_dec T dctx key keybits = Some (0, dctx\<lparr>rk := True, nr := int n, buf := ?c\<rparr>, ready)"
    using assms(2) w(1) b(1) v(1) d(1) c1
    unfolding utils_aes_setkey_dec_def setkey_enc_started [OF assms(1)] assms(3) Let_def n(4) idx
    by (simp add: n(4) idx del: length_init(2))
  have keep: "key_words ?c j = key_words c j" if "j < n" for j
    using key_words_before [of n ?c c j] that n(1) c(2) by (simp add: take_overlay_le)
  have k0: "key_words ?c 0 = ?w"
    using keep [of 0] key_words_before [OF c(3), of 0] key_words_copy [of 0 "buf dctx" ?w] assms(6) w(2) n(2) by simp
  have kn: "key_words ?c n = ?v" using key_words_copy [of n c ?v] v(2) c(2) n(1) by simp
  have ki: "key_block ?c i = inv_mix_columns (key_block (buf ctx) (n - i))" if "0 < i" "i < n" for i
  proof (rule inv_key_block)
    show "4 * (n - i) + 4 \<le> length (buf ctx)" using n(1) assms(5) by auto
    have "i - 1 < n - 1" using that by simp
    then have "key_words c (1 + (i - 1)) = map (inv_column ready) (key_words (buf ctx) (n - 1 - (i - 1)))"
      using c(4) by blast
    then show "key_words ?c i = map (inv_column ready) (key_words (buf ctx) (n - i))"
      using keep [OF that(2)] that by simp
  qed
  have "inverse_keys n (key_block (buf ctx)) (key_block ?c)"
    using ki by (simp add: inverse_keys_def key_block_def k0 kn)
  then show ?thesis using e n d(2) by (auto simp: keyed_def n_def)
qed

section \<open>The key schedule of FIPS 197\<close>

text \<open>The words of the expanded key as lists of four bytes; \<open>nk\<close> is the number of words of the key.\<close>

definition rcon_byte :: "nat \<Rightarrow> u8" where
  "rcon_byte i = (xt ^^ (i - 1)) 1"

function fips_word :: "u8 list \<Rightarrow> nat \<Rightarrow> nat \<Rightarrow> u8 list" where
  "fips_word key nk i =
     (if i < nk \<or> nk = 0 then take 4 (drop (4 * i) key)
      else let t = fips_word key nk (i - 1);
               t = (if i mod nk = 0 then map2 (XOR) (sub_bytes rom_FSb (rotate1 t)) [rcon_byte (i div nk), 0, 0, 0]
                    else if nk > 6 \<and> i mod nk = 4 then sub_bytes rom_FSb t else t) in
           map2 (XOR) (fips_word key nk (i - nk)) t)"
  by pat_completeness auto
termination by (relation "measure (\<lambda>(key, nk, i). i)") auto

declare fips_word.simps [simp del]

definition fips_key :: "u8 list \<Rightarrow> nat \<Rightarrow> nat \<Rightarrow> state" where
  "fips_key key nk i = concat (map (fips_word key nk) [4 * i..<4 * i + 4])"

lemma chain_nth: "j < length vs \<Longrightarrow> chain w vs ! j = vs ! j XOR (if j = 0 then w else chain w vs ! (j - 1))"
proof (induction vs arbitrary: w j)
  case (Cons v vs)
  then show ?case by (cases j) (auto simp: nth_Cons')
qed simp

lemma rotated_sub_bytes: "PUT_UINT32_LE (rotated_sub ready w) = sub_bytes rom_FSb (rotate1 (PUT_UINT32_LE w))"
proof -
  have "rotated_sub ready w = word4 (rom_FSb ! unat (byte 8 w)) (rom_FSb ! unat (byte 16 w)) (rom_FSb ! unat (byte 24 w)) (rom_FSb ! unat (byte 0 w))"
    unfolding sbox_word [symmetric] by (simp add: rotated_sub_def sbox_at_def idx_byte ready_simps)
  then show ?thesis by (simp add: PUT_bytes sub_bytes_def)
qed

lemma plain_sub_bytes: "PUT_UINT32_LE (plain_sub ready w) = sub_bytes rom_FSb (PUT_UINT32_LE w)"
proof -
  have "plain_sub ready w = word4 (rom_FSb ! unat (byte 0 w)) (rom_FSb ! unat (byte 8 w)) (rom_FSb ! unat (byte 16 w)) (rom_FSb ! unat (byte 24 w))"
    unfolding sbox_word [symmetric] by (simp add: plain_sub_def sbox_at_def idx_byte ready_simps)
  then show ?thesis by (simp add: PUT_bytes sub_bytes_def)
qed

lemma PUT_xor: "PUT_UINT32_LE (v XOR w) = map2 (XOR) (PUT_UINT32_LE v) (PUT_UINT32_LE w)"
  by (simp add: PUT_bytes)

lemma rcon_values: "i < 10 \<Longrightarrow> PUT_UINT32_LE (RCON ready ! i) = [rcon_byte (i + 1), 0, 0, 0]"
proof -
  have "\<forall>i \<in> set [0..<10]. PUT_UINT32_LE (rom_RCON ! i) = [rcon_byte (i + 1), 0, 0, 0]" by code_simp
  moreover assume "i < 10"
  ultimately show ?thesis by (simp add: ready_def rom_tables_def)
qed

text \<open>The words below \<open>k\<close> are those of the expanded key.\<close>

definition scheduled :: "u8 list \<Rightarrow> nat \<Rightarrow> nat \<Rightarrow> u32 list \<Rightarrow> bool" where
  "scheduled key nk k b \<longleftrightarrow> (\<forall>i < k. PUT_UINT32_LE (b ! i) = fips_word key nk i)"

lemma load_key_scheduled:
  "load_key key n i RK = Some RK' \<Longrightarrow> i + n \<le> length RK \<Longrightarrow> i + n \<le> nk \<Longrightarrow> 4 * nk \<le> length key \<Longrightarrow> scheduled key nk i RK
    \<Longrightarrow> scheduled key nk (i + n) RK'"
proof (induction n arbitrary: i RK)
  case (Suc n)
  let ?w = "word4 (key ! (4 * i)) (key ! (4 * i + 1)) (key ! (4 * i + 2)) (key ! (4 * i + 3))"
  have g: "GET_UINT32_LE key (4 * i) = Some ?w" using Suc.prems by (intro GET_word4) simp
  have r: "load_key key n (i + 1) (RK[i := ?w]) = Some RK'" using Suc.prems(1,2) by (simp add: g mem_write_def)
  have "fips_word key nk i = take 4 (drop (4 * i) key)" using Suc.prems(3) by (subst fips_word.simps) simp
  also have "\<dots> = PUT_UINT32_LE ?w" using Suc.prems(3,4) by (simp add: take4 PUT_bytes)
  finally have "scheduled key nk (i + 1) (RK[i := ?w])"
    using Suc.prems(2,5) by (auto simp: scheduled_def less_Suc_eq)
  from Suc.IH [OF r _ _ Suc.prems(4) this] show ?case using Suc.prems(2,3) by simp
qed simp

lemma fips_word_step:
  assumes "0 < nk" and "j < nk"
  shows "fips_word key nk ((r + 1) * nk + j) =
    map2 (XOR) (fips_word key nk (r * nk + j))
      (let t = fips_word key nk ((r + 1) * nk + j - 1) in
       if j = 0 then map2 (XOR) (sub_bytes rom_FSb (rotate1 t)) [rcon_byte (r + 1), 0, 0, 0]
       else if nk > 6 \<and> j = 4 then sub_bytes rom_FSb t else t)"
proof -
  have "((r + 1) * nk + j < nk \<or> nk = 0) = False" "(r + 1) * nk + j - nk = r * nk + j" using assms by auto
  moreover have "((r + 1) * nk + j) mod nk = j" "((r + 1) * nk + j) div nk = r + 1"
    using assms by (simp_all add: div_mult_self3 del: mult_Suc)
  ultimately show ?thesis by (subst fips_word.simps) (simp only: if_False Let_def)
qed

text \<open>One round of the expansion, of the words \<open>new\<close>.\<close>

lemma expand_round:
  assumes "scheduled key nk ((r + 1) * nk) b" and "(r + 2) * nk \<le> length b" and "length new = nk" and "0 < nk"
    and "\<And>j. j < nk \<Longrightarrow> PUT_UINT32_LE (new ! j) = map2 (XOR) (PUT_UINT32_LE (b ! (r * nk + j)))
      (let t = (if j = 0 then PUT_UINT32_LE (b ! ((r + 1) * nk - 1)) else PUT_UINT32_LE (new ! (j - 1))) in
       if j = 0 then map2 (XOR) (sub_bytes rom_FSb (rotate1 t)) [rcon_byte (r + 1), 0, 0, 0]
       else if nk > 6 \<and> j = 4 then sub_bytes rom_FSb t else t)"
  shows "scheduled key nk ((r + 2) * nk) (overlay b ((r + 1) * nk) new)"
proof -
  let ?b = "overlay b ((r + 1) * nk) new"
  have len: "(r + 1) * nk \<le> length b" using assms(2) by simp
  have lo: "?b ! i = b ! i" if "i < (r + 1) * nk" for i using that len by (simp add: overlay_def nth_append)
  have hi: "?b ! ((r + 1) * nk + j) = new ! j" if "j < nk" for j using that len assms(3) by (simp add: overlay_def nth_append)
  have old: "PUT_UINT32_LE (b ! i) = fips_word key nk i" if "i < (r + 1) * nk" for i using assms(1) that by (simp add: scheduled_def)
  have new: "PUT_UINT32_LE (new ! j) = fips_word key nk ((r + 1) * nk + j)" if "j < nk" for j
    using that
  proof (induction j)
    case 0
    then show ?case using assms(5) [of 0] old [of "r * nk"] old [of "(r + 1) * nk - 1"] assms(4) fips_word_step [OF assms(4), of 0 key r]
      by (simp add: Let_def)
  next
    case (Suc j)
    then show ?case using assms(5) [of "Suc j"] old [of "r * nk + Suc j"] fips_word_step [OF assms(4), of "Suc j" key r]
      by (simp add: Let_def)
  qed
  show ?thesis unfolding scheduled_def
  proof (intro allI impI)
    fix i
    assume i: "i < (r + 2) * nk"
    show "PUT_UINT32_LE (?b ! i) = fips_word key nk i"
    proof (cases "i < (r + 1) * nk")
      case True
      then show ?thesis using lo old by simp
    next
      case False
      then obtain j where "i = (r + 1) * nk + j" by (metis le_add_diff_inverse not_less)
      then show ?thesis using hi new i by simp
    qed
  qed
qed

lemma expand_scheduled:
  assumes "\<And>i old. length old = nk \<Longrightarrow> length (f i old) = nk" and "0 < nk"
    and "\<And>r old j. r < m \<Longrightarrow> length old = nk \<Longrightarrow> j < nk \<Longrightarrow> PUT_UINT32_LE (f r old ! j) = map2 (XOR) (PUT_UINT32_LE (old ! j))
      (let t = (if j = 0 then PUT_UINT32_LE (last old) else PUT_UINT32_LE (f r old ! (j - 1))) in
       if j = 0 then map2 (XOR) (sub_bytes rom_FSb (rotate1 t)) [rcon_byte (r + 1), 0, 0, 0]
       else if nk > 6 \<and> j = 4 then sub_bytes rom_FSb t else t)"
  shows "expand f nk n r (r * nk) b = Some b' \<Longrightarrow> r + n \<le> m \<Longrightarrow> (r + n + 1) * nk \<le> length b \<Longrightarrow>
    scheduled key nk ((r + 1) * nk) b \<Longrightarrow> scheduled key nk ((r + n + 1) * nk) b'"
proof (induction n arbitrary: r b)
  case (Suc n)
  let ?old = "take nk (drop (r * nk) b)"
  have l: "(r + 1) * nk \<le> length b" "(r + 2) * nk \<le> length b" using Suc.prems(3) by (auto simp: algebra_simps)
  then have o: "length ?old = nk" by simp
  have at: "?old ! j = b ! (r * nk + j)" if "j < nk" for j using that l(1) by simp
  have la: "last ?old = b ! ((r + 1) * nk - 1)"
    using at [of "nk - 1"] o assms(2) l(1) by (subst last_conv_nth) (auto simp: algebra_simps)
  let ?b = "overlay b ((r + 1) * nk) (f r ?old)"
  have b: "length ?b = length b" using l(2) assms(1) [OF o, of r] by simp
  have e: "expand f nk n (r + 1) ((r + 1) * nk) ?b = Some b'"
    using Suc.prems(1) l assms(1) [OF o, of r] by (simp add: mem_slice_def mem_copy_def algebra_simps)
  have "scheduled key nk ((r + 2) * nk) ?b"
    using assms(3) [of r ?old] Suc.prems(2) o at la
    by (intro expand_round [OF Suc.prems(4) l(2) assms(1) [OF o] assms(2)]) simp
  then show ?case using Suc.IH [OF e] Suc.prems(2,3) b by simp
qed simp

text \<open>The rounds of the two expansions.\<close>

lemma next_words_round:
  assumes "i < 10" and "length old = nk" and "j < nk" and "nk \<le> 6"
  shows "PUT_UINT32_LE (next_words ready i old ! j) = map2 (XOR) (PUT_UINT32_LE (old ! j))
      (let t = (if j = 0 then PUT_UINT32_LE (last old) else PUT_UINT32_LE (next_words ready i old ! (j - 1))) in
       if j = 0 then map2 (XOR) (sub_bytes rom_FSb (rotate1 t)) [rcon_byte (i + 1), 0, 0, 0]
       else if nk > 6 \<and> j = 4 then sub_bytes rom_FSb t else t)"
  using assms chain_nth [of j old "RCON ready ! i XOR rotated_sub ready (last old)"]
  by (auto simp: next_words_def Let_def PUT_xor rotated_sub_bytes rcon_values) (simp add: sub_bytes_def PUT_bytes xor_ac)

lemma next_words256_round:
  assumes "i < 7" and "length old = 8" and "j < 8"
  shows "PUT_UINT32_LE (next_words256 ready i old ! j) = map2 (XOR) (PUT_UINT32_LE (old ! j))
      (let t = (if j = 0 then PUT_UINT32_LE (last old) else PUT_UINT32_LE (next_words256 ready i old ! (j - 1))) in
       if j = 0 then map2 (XOR) (sub_bytes rom_FSb (rotate1 t)) [rcon_byte (i + 1), 0, 0, 0]
       else if (8 :: nat) > 6 \<and> j = 4 then sub_bytes rom_FSb t else t)"
proof -
  let ?w = "RCON ready ! i XOR rotated_sub ready (last old)"
  let ?a = "chain ?w (take 4 old)"
  let ?b = "chain (plain_sub ready (last ?a)) (drop 4 old)"
  have n: "next_words256 ready i old = ?a @ ?b" by (simp add: next_words256_def Let_def)
  have la: "last ?a = ?a ! 3"
  proof -
    have "?a \<noteq> []" using assms(2) by (cases old) auto
    then show ?thesis using assms(2) by (simp add: last_conv_nth)
  qed
  show ?thesis
  proof (cases "j < 4")
    case True
    then show ?thesis using assms chain_nth [of j "take 4 old" ?w]
      by (auto simp: n nth_append PUT_xor rotated_sub_bytes rcon_values Let_def) (simp add: sub_bytes_def PUT_bytes xor_ac)
  next
    case False
    then show ?thesis using assms chain_nth [of "j - 4" "drop 4 old" "plain_sub ready (last ?a)"]
      by (auto simp: n nth_append PUT_xor plain_sub_bytes Let_def la)
  qed
qed

lemma setkey_enc_fips:
  assumes "keybits \<in> key_sizes" and "8 * length key \<ge> keybits" and "length (buf ctx) = 68"
    and "utils_aes_setkey_enc ready ctx key keybits = Some (0, ctx', ready)" and "i \<le> rounds_of keybits"
  shows "key_block (buf ctx') i = fips_key key (keybits div 32) i"
proof -
  define nk where "nk = keybits div 32"
  have nk: "drop_bit 5 keybits = nk" "nk \<in> {4, 6, 8}" "4 * nk \<le> length key"
    using assms(1,2) by (auto simp: key_sizes_def nk_def drop_bit_eq_div)
  have ne: "(\<not> aes_init_done ready) = False" by (simp add: ready_def)
  obtain RK where RK: "load_key key nk 0 (buf ctx) = Some RK" "length RK = 68"
    using load_key_ok [of 0 nk key "buf ctx"] nk assms(3) by auto
  have s0: "scheduled key nk ((0 + 1) * nk) RK"
    using load_key_scheduled [OF RK(1), of nk] nk assms(3) by (auto simp: scheduled_def)
  have le: "length (next_words ready i old) = k" if "length old = k" for i old k using that by (simp add: next_words_def)
  have le8: "length (next_words256 ready i old) = 8" if "length old = 8" for i old using that by (simp add: next_words256_def Let_def)
  have "scheduled key nk (4 * (rounds_of keybits + 1)) (buf ctx') \<and> length (buf ctx') = 68"
  proof -
    consider "keybits = 128" "nk = 4" | "keybits = 192" "nk = 6" | "keybits = 256" "nk = 8"
      using assms(1) by (auto simp: key_sizes_def nk_def)
    then show ?thesis
    proof cases
      case 1
      have e: "expand (next_words ready) 4 10 0 (0 * 4) RK = Some (buf ctx')"
        using assms(4) RK(1) 1 by (simp add: utils_aes_setkey_enc_def nk(1) ne bind_eq_Some_conv) auto
      show ?thesis
        using expand_scheduled [of 4 "next_words ready" 10, OF le _ next_words_round e] expand_ok [of 4 "next_words ready" 0 10 RK 0]
          s0 RK(2) 1 e le by (auto simp: rounds_of_def)
    next
      case 2
      have e: "expand (next_words ready) 6 8 0 (0 * 6) RK = Some (buf ctx')"
        using assms(4) RK(1) 2 by (simp add: utils_aes_setkey_enc_def nk(1) ne bind_eq_Some_conv) auto
      show ?thesis
        using expand_scheduled [of 6 "next_words ready" 8, OF le _ next_words_round e] expand_ok [of 6 "next_words ready" 0 8 RK 0]
          s0 RK(2) 2 e le by (auto simp: rounds_of_def scheduled_def)
    next
      case 3
      have e: "expand (next_words256 ready) 8 7 0 (0 * 8) RK = Some (buf ctx')"
        using assms(4) RK(1) 3 by (simp add: utils_aes_setkey_enc_def nk(1) ne bind_eq_Some_conv) auto
      show ?thesis
        using expand_scheduled [of 8 "next_words256 ready" 7, OF le8 _ next_words256_round e] expand_ok [of 8 "next_words256 ready" 0 7 RK 0]
          s0 RK(2) 3 e le8 by (auto simp: rounds_of_def scheduled_def)
    qed
  qed
  then have w: "\<forall>k < 4. PUT_UINT32_LE (buf ctx' ! (4 * i + k)) = fips_word key nk (4 * i + k)" "4 * i + 4 \<le> length (buf ctx')"
    using assms(5) keyed_68 [OF assms(1)] by (auto simp: scheduled_def)
  have u: "[4 * i..<4 * i + 4] = [4 * i, 4 * i + 1, 4 * i + 2, 4 * i + 3]" by (simp add: numeral_eq_Suc)
  show ?thesis
    using w(1) [rule_format, of 0] w(1) [rule_format, of 1] w(1) [rule_format, of 2] w(1) [rule_format, of 3]
    unfolding fips_key_def nk_def [symmetric] u key_block_def key_words_eq [OF w(2)] by simp
qed

text \<open>C4: the block cipher of the code is that of FIPS 197: behind the key setup with any key of 16, 24 or 32
  bytes, encrypting a block stores what the cipher of the standard, with its own expansion of the key, makes of
  the sixteen bytes. The key setup generates the tables when it is the first.\<close>

theorem aes_is_fips197:
  assumes "started T" and "keybits \<in> {128, 192, 256}" and "8 * length key \<ge> keybits" and "rd m inp 16 = Some b"
  shows "\<exists>ctx. utils_aes_setkey_enc T utils_aes_init key keybits = Some (0, ctx, ready)
    \<and> utils_aes_crypt_ecb ready ctx UTILS_AES_ENCRYPT inp out m
      = map_option (Pair 0) (wr m out (fips_encrypt (fips_key key (keybits div 32)) (keybits div 32 + 6) b))"
proof -
  have k: "keybits \<in> key_sizes" using assms(2) by (simp add: key_sizes_def)
  obtain ctx where ctx: "utils_aes_setkey_enc ready utils_aes_init key keybits = Some (0, ctx, ready)"
    "keyed ctx (rounds_of keybits)" using setkey_enc_ok [OF started_ready(1) k assms(3) length_init(1)] by blast
  have "fips_encrypt (key_block (buf ctx)) (rounds_of keybits) b = fips_encrypt (fips_key key (keybits div 32)) (rounds_of keybits) b"
    using setkey_enc_fips [OF k assms(3) length_init(1) ctx(1)] by (auto simp: fips_encrypt_def intro!: arg_cong2 [where f = fips_cipher])
  then show ?thesis
    using ctx encrypt_block [OF ctx(2) assms(4)] k setkey_enc_started [OF assms(1)]
    by (auto simp: utils_aes_crypt_ecb_def UTILS_AES_ENCRYPT_def rounds_of_def)
qed

theorem aes_is_fips197_witness:
  "\<exists>ctx. utils_aes_setkey_enc aes_boot utils_aes_init (map of_nat [0..<16]) 128 = Some (0, ctx, ready)
    \<and> utils_aes_crypt_ecb ready ctx UTILS_AES_ENCRYPT (0, 0) (1, 0) (\<lambda>_. replicate 16 0)
      = map_option (Pair 0) (wr (\<lambda>_. replicate 16 0) (1, 0) (fips_encrypt (fips_key (map of_nat [0..<16]) 4) 10 (replicate 16 0)))"
  using aes_is_fips197 [of aes_boot 128 "map of_nat [0..<16]" "\<lambda>_. replicate 16 0" "(0, 0)" "replicate 16 0" "(1, 0)"]
  by (simp add: rd_def mem_slice_def)

section \<open>CBC\<close>

lemma overlay_again: "p + length xs \<le> length b \<Longrightarrow> length ys = length xs \<Longrightarrow> overlay (overlay b p xs) p ys = overlay b p ys"
  by (auto simp: overlay_def min_def dest: fits_past_end)

lemma rd_Some: "rd m p n = Some b \<longleftrightarrow> snd p + n \<le> length (m (fst p)) \<and> b = take n (drop (snd p) (m (fst p)))"
  by (auto simp: rd_def mem_slice_def)

lemma wr_Some_iff: "wr m p xs = Some m' \<longleftrightarrow> snd p + length xs \<le> length (m (fst p)) \<and> m' = m(fst p := overlay (m (fst p)) (snd p) xs)"
  by (auto simp: wr_def mem_copy_def)

lemma xor_loop_in_place:
  "A \<noteq> V \<Longrightarrow> a + i + n \<le> length (m A) \<Longrightarrow> p + i + n \<le> length (m V) \<Longrightarrow>
    xor_loop (A, a) (V, p) (A, a) n i m
      = Some (m(A := overlay (m A) (a + i) (map2 (XOR) (take n (drop (a + i) (m A))) (take n (drop (p + i) (m V))))))"
proof (induction n arbitrary: i m)
  case (Suc n)
  let ?x = "m A ! (a + i) XOR m V ! (p + i)"
  define m1 where "m1 = m(A := overlay (m A) (a + i) [?x])"
  have r: "rd m (ptr_add (A, a) i) 1 = Some [m A ! (a + i)]" "rd m (ptr_add (V, p) i) 1 = Some [m V ! (p + i)]"
    "wr m (ptr_add (A, a) i) [?x] = Some m1"
    using Suc.prems by (simp_all add: rd_Some wr_Some_iff ptr_add_def take_Suc_conv_app_nth m1_def)
  have m1: "m1 A = overlay (m A) (a + i) [?x]" "m1 V = m V" "m1(A := y) = m(A := y)" for y using Suc.prems(1) by (simp_all add: m1_def)
  have l: "length (m1 A) = length (m A)" using Suc.prems(2) by (simp add: m1)
  have d: "drop (a + (i + 1)) (m1 A) = drop (a + (i + 1)) (m A)"
    using Suc.prems(2) drop_overlay [of "a + i" "[?x]" "m A"] by (simp add: add.assoc m1)
  have c: "drop (a + i) (m A) = m A ! (a + i) # drop (a + (i + 1)) (m A)" "drop (p + i) (m V) = m V ! (p + i) # drop (p + (i + 1)) (m V)"
    using Suc.prems by (simp_all add: Cons_nth_drop_Suc)
  let ?y = "map2 (XOR) (take n (drop (a + (i + 1)) (m A))) (take n (drop (p + (i + 1)) (m V)))"
  have "xor_loop (A, a) (V, p) (A, a) n (i + 1) m1 = Some (m1(A := overlay (m1 A) (a + (i + 1)) ?y))"
    using Suc.IH [OF Suc.prems(1), of "i + 1" m1] Suc.prems(2,3) unfolding l d m1(2) by (simp del: fun_upd_apply)
  moreover have "overlay (m1 A) (a + (i + 1)) ?y = overlay (m A) (a + i) (?x # ?y)"
    using overlay_overlay [of "a + i" "[?x]" ?y "m A"] Suc.prems(2) by (simp add: add.assoc m1(1))
  ultimately show ?case by (simp add: r c m1(3) del: fun_upd_apply One_nat_def)
qed simp

text \<open>CBC over \<open>n\<close> blocks of a byte string, with the functions of a block.\<close>

fun cbc_encrypt :: "(state \<Rightarrow> state) \<Rightarrow> nat \<Rightarrow> state \<Rightarrow> u8 list \<Rightarrow> u8 list" where
  "cbc_encrypt f 0 v s = []"
| "cbc_encrypt f (Suc n) v s = (let c = f (map2 (XOR) (take 16 s) v) in c @ cbc_encrypt f n c (drop 16 s))"

fun cbc_decrypt :: "(state \<Rightarrow> state) \<Rightarrow> nat \<Rightarrow> state \<Rightarrow> u8 list \<Rightarrow> u8 list" where
  "cbc_decrypt f 0 v s = []"
| "cbc_decrypt f (Suc n) v s = map2 (XOR) (f (take 16 s)) v @ cbc_decrypt f n (take 16 s) (drop 16 s)"

lemma length_cbc_encrypt: "(\<And>s. length (f s) = 16) \<Longrightarrow> length (cbc_encrypt f n v s) = 16 * n"
  by (induction n arbitrary: v s) (auto simp: Let_def)

lemma cbc_inverse:
  assumes "\<And>s. length s = 16 \<Longrightarrow> g (f s) = s" and "\<And>s. length (f s) = 16"
  shows "length v = 16 \<Longrightarrow> length s = 16 * n \<Longrightarrow> cbc_decrypt g n v (cbc_encrypt f n v s) = s"
proof (induction n arbitrary: v s)
  case (Suc n)
  have "map2 (XOR) (map2 (XOR) (take 16 s) v) v = take 16 s"
    using Suc.prems by (simp add: list_eq_iff_nth_eq xor.assoc)
  then show ?case using Suc by (simp add: Let_def assms)
qed simp

lemma enc_loop_in_place:
  assumes "A \<noteq> V" and "\<And>m inp out b. rd m inp 16 = Some b \<Longrightarrow> utils_aes_crypt_ecb T ctx mode inp out m = map_option (Pair 0) (wr m out (f b))"
    and "\<And>s. length (f s) = 16"
  shows "a + 16 * n \<le> length (m A) \<Longrightarrow> p + 16 \<le> length (m V) \<Longrightarrow> \<exists>v'. length v' = 16 \<and>
    cbc_enc_loop T ctx mode n (V, p) (A, a) (A, a) m
      = Some (m(A := overlay (m A) a (cbc_encrypt f n (take 16 (drop p (m V))) (drop a (m A))), V := overlay (m V) p v'))"
proof (induction n arbitrary: a m)
  case 0
  have "overlay (m V) p (take 16 (drop p (m V))) = m V"
    using "0.prems"(2) by (simp add: overlay_def) (metis append_take_drop_id drop_drop add.commute)
  then show ?case using 0 by (intro exI [of _ "take 16 (drop p (m V))"]) simp
next
  case (Suc n)
  let ?v = "take 16 (drop p (m V))"
  let ?x = "map2 (XOR) (take 16 (drop a (m A))) ?v"
  define c where "c = f ?x"
  define m1 where "m1 = m(A := overlay (m A) a ?x)"
  define m2 where "m2 = m(A := overlay (m A) a c)"
  define m3 where "m3 = m2(V := overlay (m V) p c)"
  have len: "length ?x = 16" "length c = 16" using Suc.prems assms(3) by (simp_all add: c_def)
  have x: "xor_loop (A, a) (V, p) (A, a) 16 0 m = Some m1"
    using xor_loop_in_place [OF assms(1), of a 0 16 m p] Suc.prems by (simp add: m1_def)
  have "rd m1 (A, a) 16 = Some ?x" using Suc.prems len by (simp add: rd_Some overlay_def m1_def)
  then have "utils_aes_crypt_ecb T ctx mode (A, a) (A, a) m1 = map_option (Pair 0) (wr m1 (A, a) c)"
    unfolding c_def by (rule assms(2))
  moreover have "wr m1 (A, a) c = Some m2"
    using Suc.prems len by (simp add: wr_Some_iff overlay_again m1_def m2_def)
  ultimately have e: "utils_aes_crypt_ecb T ctx mode (A, a) (A, a) m1 = Some (0, m2)" by simp
  have r: "rd m2 (A, a) 16 = Some c" using Suc.prems len by (simp add: rd_Some overlay_def m2_def)
  have w: "wr m2 (V, p) c = Some m3" using Suc.prems assms(1) len by (simp add: wr_Some_iff m2_def m3_def)
  have m3A: "m3 A = overlay (m A) a c" "m3 V = overlay (m V) p c" "m3(A := y, V := z) = m(A := y, V := z)" for y z
    using assms(1) by (auto simp: m3_def m2_def)
  have m3: "length (m3 A) = length (m A)" "length (m3 V) = length (m V)" "take 16 (drop p (m3 V)) = c"
    "drop (a + 16) (m3 A) = drop (a + 16) (m A)"
    using Suc.prems len drop_overlay [of a c "m A"] by (simp_all add: m3A overlay_def)
  obtain v' where v': "length v' = 16" "cbc_enc_loop T ctx mode n (V, p) (A, a + 16) (A, a + 16) m3
      = Some (m3(A := overlay (m3 A) (a + 16) (cbc_encrypt f n c (drop (a + 16) (m A))), V := overlay (m3 V) p v'))"
    using Suc.IH [of "a + 16" m3] Suc.prems m3 by (auto simp del: fun_upd_apply)
  have "overlay (m3 A) (a + 16) (cbc_encrypt f n c (drop (a + 16) (m A)))
      = overlay (m A) a (c @ cbc_encrypt f n c (drop (a + 16) (m A)))"
    using overlay_overlay [of a c _ "m A"] len(2) Suc.prems(1) length_cbc_encrypt [of f n, OF assms(3)] by (simp add: m3A(1))
  moreover have "overlay (m3 V) p v' = overlay (m V) p v'"
    using overlay_again [of p c "m V" v'] Suc.prems(2) v'(1) len(2) by (simp add: m3A(2))
  ultimately have "cbc_enc_loop T ctx mode n (V, p) (A, a + 16) (A, a + 16) m3
      = Some (m(A := overlay (m A) a (c @ cbc_encrypt f n c (drop (a + 16) (m A))), V := overlay (m V) p v'))"
    using v'(2) m3A(3) by simp
  then show ?case using v'(1)
    by (intro exI [of _ v']) (simp add: x e r w ptr_add_def Let_def add.commute flip: c_def del: fun_upd_apply)
qed

lemma length_cbc_decrypt: "(\<And>s. length s = 16 \<Longrightarrow> length (g s) = 16) \<Longrightarrow> length v = 16 \<Longrightarrow> 16 * n \<le> length s \<Longrightarrow>
    length (cbc_decrypt g n v s) = 16 * n"
  by (induction n arbitrary: v s) auto

lemma dec_loop_in_place:
  assumes "A \<noteq> V" and "\<And>m inp out b. rd m inp 16 = Some b \<Longrightarrow> utils_aes_crypt_ecb T ctx mode inp out m = map_option (Pair 0) (wr m out (g b))"
    and "\<And>s. length s = 16 \<Longrightarrow> length (g s) = 16"
  shows "a + 16 * n \<le> length (m A) \<Longrightarrow> p + 16 \<le> length (m V) \<Longrightarrow> \<exists>v'. length v' = 16 \<and>
    cbc_dec_loop T ctx mode n (V, p) (A, a) (A, a) m
      = Some (m(A := overlay (m A) a (cbc_decrypt g n (take 16 (drop p (m V))) (drop a (m A))), V := overlay (m V) p v'))"
proof (induction n arbitrary: a m)
  case 0
  have "overlay (m V) p (take 16 (drop p (m V))) = m V"
    using "0.prems"(2) by (simp add: overlay_def) (metis append_take_drop_id drop_drop add.commute)
  then show ?case using 0 by (intro exI [of _ "take 16 (drop p (m V))"]) simp
next
  case (Suc n)
  let ?v = "take 16 (drop p (m V))"
  define b where "b = take 16 (drop a (m A))"
  define y where "y = map2 (XOR) (g b) ?v"
  define m1 where "m1 = m(A := overlay (m A) a (g b))"
  define m2 where "m2 = m(A := overlay (m A) a y)"
  define m3 where "m3 = m2(V := overlay (m V) p b)"
  have len: "length b = 16" "length (g b) = 16" "length y = 16" using Suc.prems assms(3) [of b] by (simp_all add: b_def y_def)
  have t: "rd m (A, a) 16 = Some b" using Suc.prems by (simp add: rd_Some b_def)
  have "wr m (A, a) (g b) = Some m1" using Suc.prems len by (simp add: wr_Some_iff m1_def)
  then have e: "utils_aes_crypt_ecb T ctx mode (A, a) (A, a) m = Some (0, m1)" using assms(2) [OF t] by simp
  have m1: "m1 A = overlay (m A) a (g b)" "m1 V = m V" "m1(A := z) = m(A := z)" for z using assms(1) by (simp_all add: m1_def)
  have "take 16 (drop a (m1 A)) = g b" using Suc.prems len by (simp add: m1(1) overlay_def)
  moreover have "overlay (m1 A) a y = overlay (m A) a y" unfolding m1(1) using Suc.prems len by (intro overlay_again) auto
  ultimately have x: "xor_loop (A, a) (V, p) (A, a) 16 0 m1 = Some m2"
    using xor_loop_in_place [OF assms(1), of a 0 16 m1 p] Suc.prems len m1 by (simp add: m2_def y_def)
  have w: "wr m2 (V, p) b = Some m3" using Suc.prems assms(1) len by (simp add: wr_Some_iff m2_def m3_def)
  have m3A: "m3 A = overlay (m A) a y" "m3 V = overlay (m V) p b" "m3(A := y', V := z) = m(A := y', V := z)" for y' z
    using assms(1) by (auto simp: m3_def m2_def)
  have m3: "length (m3 A) = length (m A)" "length (m3 V) = length (m V)" "take 16 (drop p (m3 V)) = b"
    "drop (a + 16) (m3 A) = drop (a + 16) (m A)"
    using Suc.prems len drop_overlay [of a y "m A"] by (simp_all add: m3A overlay_def)
  obtain v' where v': "length v' = 16" "cbc_dec_loop T ctx mode n (V, p) (A, a + 16) (A, a + 16) m3
      = Some (m3(A := overlay (m3 A) (a + 16) (cbc_decrypt g n b (drop (a + 16) (m A))), V := overlay (m3 V) p v'))"
    using Suc.IH [of "a + 16" m3] Suc.prems m3 by (auto simp del: fun_upd_apply)
  have "overlay (m3 A) (a + 16) (cbc_decrypt g n b (drop (a + 16) (m A)))
      = overlay (m A) a (y @ cbc_decrypt g n b (drop (a + 16) (m A)))"
    using overlay_overlay [of a y _ "m A"] len Suc.prems(1) length_cbc_decrypt [of g b n "drop (a + 16) (m A)", OF assms(3)]
    by (simp add: m3A(1))
  moreover have "overlay (m3 V) p v' = overlay (m V) p v'"
    using overlay_again [of p b "m V" v'] Suc.prems(2) v'(1) len by (simp add: m3A(2))
  ultimately have "cbc_dec_loop T ctx mode n (V, p) (A, a + 16) (A, a + 16) m3
      = Some (m(A := overlay (m A) a (y @ cbc_decrypt g n b (drop (a + 16) (m A))), V := overlay (m V) p v'))"
    using v'(2) m3A(3) by simp
  then show ?case using v'(1)
    by (intro exI [of _ v']) (simp add: t x e w ptr_add_def Let_def add.commute flip: b_def y_def del: fun_upd_apply)
qed

lemma length_fips: "\<forall>i \<le> n. length (ks i) = 16 \<Longrightarrow> 1 \<le> n \<Longrightarrow> length (fips_encrypt ks n s) = 16"
  "\<forall>i \<le> n. length (ks i) = 16 \<Longrightarrow> length (fips_decrypt ks n s) = 16"
  by (simp_all add: fips_encrypt_fold fips_decrypt_def inv_shift_rows_def)

lemma cbc_encrypt_take: "cbc_encrypt f n v (take (16 * n) s) = cbc_encrypt f n v s"
  by (induction n arbitrary: v s) (auto simp: Let_def drop_take algebra_simps)

lemma cbc_decrypt_take: "cbc_decrypt g n v (take (16 * n) s) = cbc_decrypt g n v s"
  by (induction n arbitrary: v s) (auto simp: drop_take algebra_simps)

lemma overlay_drop: "a + length x \<le> length b \<Longrightarrow> take (length x) (drop a (overlay b a x)) = x"
  by (simp add: overlay_def)

text \<open>C5: \<open>utils_aes_cbc\<close> in place undoes itself: it encrypts any data in a buffer with room for the padding, with
  any key of 16, 24 or 32 bytes, and decrypting the result with the same key and the same initial vector gives the
  data back, padded with zeros to whole blocks. Only the buffer and the initial vector are written.\<close>

theorem aes_cbc_roundtrip:
  assumes "started T" and "keybits \<in> {128, 192, 256}" and "8 * length key \<ge> keybits" and "A \<noteq> V"
    and "rd m (A, a) len = Some d" and "a + len + 16 \<le> length (m A)" and "len + 16 \<le> room" and "len + 16 < 2 ^ 32"
    and "p + 16 \<le> length (m V)"
  shows "\<exists>c v. utils_aes_cbc T (A, a) len (A, a) room UTILS_AES_ENCRYPT key keybits (V, p) m
        = Some (QCLOUD_RET_SUCCESS, m(A := c, V := v), ready)
    \<and> (\<exists>v'. utils_aes_cbc ready (A, a) (len + 16 - len mod 16) (A, a) room UTILS_AES_DECRYPT key keybits (V, p) (m(A := c))
        = Some (QCLOUD_RET_SUCCESS, m(A := overlay (m A) a (d @ replicate (16 - len mod 16) 0), V := v'), ready))"
proof -
  have k: "keybits \<in> key_sizes" using assms(2) by (simp add: key_sizes_def)
  define n where "n = rounds_of keybits"
  obtain ctx where ctx: "utils_aes_setkey_enc ready utils_aes_init key keybits = Some (0, ctx, ready)" "keyed ctx n" "length (buf ctx) = 68"
    using setkey_enc_ok [OF started_ready(1) k assms(3) length_init(1)] unfolding n_def by blast
  obtain dctx where dctx: "utils_aes_setkey_dec ready utils_aes_init key keybits = Some (0, dctx, ready)" "keyed dctx n"
    "inverse_keys n (key_block (buf ctx)) (key_block (buf dctx))"
    using setkey_dec_ok [OF started_ready(1) k ctx(1) _ ctx(3) length_init(1)] ctx(2) unfolding n_def by blast
  have n: "4 * n + 4 \<le> 68" "2 \<le> n" using keyed_68 [OF k] by (simp_all add: n_def)
  define f where "f = fips_encrypt (key_block (buf ctx)) n"
  define g where "g = fips_decrypt (key_block (buf dctx)) n"
  have kl: "\<forall>i \<le> n. length (key_block (buf ctx) i) = 16" using n ctx(3) by simp
  have dl: "\<forall>i \<le> n. length (key_block (buf dctx) i) = 16" using dctx(2) by (simp add: keyed_def)
  have f: "length (f s) = 16" and g: "length (g s) = 16" and gf: "length s = 16 \<Longrightarrow> g (f s) = s" for s
    using kl dl n length_fips decrypt_encrypt [OF dctx(3) _ kl] by (simp_all add: f_def g_def)
  have ef: "utils_aes_crypt_ecb ready ctx UTILS_AES_ENCRYPT inp out m = map_option (Pair 0) (wr m out (f b))" if "rd m inp 16 = Some b" for m inp out b
    using encrypt_block [OF ctx(2) that] by (simp add: utils_aes_crypt_ecb_def f_def)
  have dg: "utils_aes_crypt_ecb ready dctx UTILS_AES_DECRYPT inp out m = map_option (Pair 0) (wr m out (g b))" if "rd m inp 16 = Some b" for m inp out b
    using decrypt_block [OF dctx(2) that] by (simp add: utils_aes_crypt_ecb_def g_def UTILS_AES_ENCRYPT_def UTILS_AES_DECRYPT_def)
  define pad where "pad = 16 - len mod 16"
  define q where "q = (len + pad) div 16"
  have pad: "pad \<le> 16" "len + pad = 16 * q" "(len + pad) mod 2 ^ 32 = 16 * q" "len + 16 - len mod 16 = 16 * q"
  proof -
    have "len mod 16 < 16" "len mod 16 \<le> len" by simp_all
    moreover have "(len + pad) mod 16 = 0"
      by (metis add.commute add_diff_cancel_left' le_add_diff_inverse2 less_imp_le_nat mod_add_right_eq mod_less_divisor mod_self pad_def zero_less_numeral)
    ultimately show "pad \<le> 16" "len + pad = 16 * q" "(len + pad) mod 2 ^ 32 = 16 * q" "len + 16 - len mod 16 = 16 * q"
      using assms(8) by (auto simp: pad_def q_def)
  qed
  define s where "s = d @ replicate pad 0"
  have d: "a + len \<le> length (m A)" "d = take len (drop a (m A))" "length d = len" using assms(5) by (auto simp: rd_Some)
  have s: "length s = 16 * q" "a + length s \<le> length (m A)" using d(3) pad assms(6) by (auto simp: s_def)
  define m1 where "m1 = m(A := overlay (m A) a s)"
  have m1: "m1 A = overlay (m A) a s" "m1 V = m V" "m1(A := x) = m(A := x)" for x using assms(4) by (simp_all add: m1_def)
  have enc: "utils_aes_cbc T (A, a) len (A, a) room UTILS_AES_ENCRYPT key keybits (V, p) m
      = do { m \<leftarrow> cbc_enc_loop ready ctx UTILS_AES_ENCRYPT q (V, p) (A, a) (A, a) m1; Some (QCLOUD_RET_SUCCESS, m, ready) }"
  proof -
    have o: "overlay (m A) a d = m A" using d by (simp add: overlay_def) (metis append_take_drop_id drop_drop add.commute)
    have w1: "wr m (A, a) d = Some m" using d o by (simp add: wr_Some_iff)
    have w2: "wr m (A, a + len) (replicate pad 0) = Some m1"
      using overlay_overlay [of a d "replicate pad 0" "m A"] s(2) d(3) o by (simp add: wr_Some_iff m1_def s_def)
    have "room \<ge> (len + 16) mod 2 ^ 32" using assms(7,8) by simp
    then show ?thesis
      using setkey_enc_started [OF assms(1)] k ctx(1) w1 w2 assms(5) pad(3)
      by (simp add: utils_aes_cbc_def UTILS_AES_BLOCK_LEN_def Let_def pad_def [symmetric] ptr_add_def utils_aes_crypt_cbc_def
          UTILS_AES_ENCRYPT_def UTILS_AES_DECRYPT_def)
  qed
  define v where "v = take 16 (drop p (m V))"
  have v: "length v = 16" using assms(9) by (simp add: v_def)
  define c where "c = cbc_encrypt f q v s"
  have c: "length c = 16 * q" using length_cbc_encrypt [of f q] f by (simp add: c_def)
  have m1_s: "cbc_encrypt f q v (drop a (m1 A)) = c"
    using cbc_encrypt_take [of f q v "drop a (m1 A)"] overlay_drop [OF s(2)] s(1) by (simp add: c_def m1(1))
  obtain v1 where v1: "cbc_enc_loop ready ctx UTILS_AES_ENCRYPT q (V, p) (A, a) (A, a) m1
      = Some (m1(A := overlay (m1 A) a c, V := overlay (m1 V) p v1))"
    using enc_loop_in_place [where f = f and a = a and n = q and m = m1 and p = p, OF assms(4) ef f] s assms(9) m1(1,2) m1_s v_def by auto
  have o1: "overlay (m1 A) a c = overlay (m A) a c" using overlay_again [OF s(2), of c] c s(1) by (simp add: m1(1))
  define m2 where "m2 = m(A := overlay (m A) a c)"
  have m2: "m2 A = overlay (m A) a c" "m2 V = m V" "m2(A := x) = m(A := x)" for x using assms(4) by (simp_all add: m2_def)
  have ac: "a + length c \<le> length (m A)" using c s by simp
  have m2_c: "cbc_decrypt g q v (drop a (m2 A)) = s"
    using cbc_decrypt_take [of g q v "drop a (m2 A)"] overlay_drop [OF ac] c cbc_inverse [of g f v s q, OF gf f v s(1)]
    by (simp add: c_def m2(1))
  obtain v2 where v2: "cbc_dec_loop ready dctx UTILS_AES_DECRYPT q (V, p) (A, a) (A, a) m2
      = Some (m2(A := overlay (m2 A) a s, V := overlay (m2 V) p v2))"
    using dec_loop_in_place [where g = g and a = a and n = q and m = m2 and p = p, OF assms(4) dg g] s assms(9) m2(1,2) m2_c v_def ac by auto
  have o2: "overlay (m2 A) a s = overlay (m A) a s" using overlay_again [OF ac, of s] c s(1) by (simp add: m2(1))
  have dec: "utils_aes_cbc ready (A, a) (16 * q) (A, a) room UTILS_AES_DECRYPT key keybits (V, p) m2
      = Some (QCLOUD_RET_SUCCESS, m(A := overlay (m A) a s, V := overlay (m V) p v2), ready)"
    using dctx(1) v2 o2 m2(2,3)
    by (simp add: utils_aes_cbc_def Let_def utils_aes_crypt_cbc_def UTILS_AES_ENCRYPT_def UTILS_AES_DECRYPT_def del: fun_upd_apply)
  show ?thesis
    unfolding pad(4) enc v1 o1 m1(2,3) using dec unfolding m2_def s_def pad_def
    by (intro exI [of _ "overlay (m A) a c"] exI [of _ "overlay (m V) p v1"] conjI exI [of _ "overlay (m V) p v2"])
      (simp_all del: fun_upd_apply)
qed

theorem aes_cbc_roundtrip_witness:
  "\<exists>c v v'. utils_aes_cbc aes_boot (0, 1) 3 (0, 1) 19 UTILS_AES_ENCRYPT (replicate 16 7) 128 (1, 0) (\<lambda>_. replicate 20 5)
        = Some (QCLOUD_RET_SUCCESS, (\<lambda>_. replicate 20 5)(0 := c, 1 := v), ready)
    \<and> utils_aes_cbc ready (0, 1) 16 (0, 1) 19 UTILS_AES_DECRYPT (replicate 16 7) 128 (1, 0) ((\<lambda>_. replicate 20 5)(0 := c))
        = Some (QCLOUD_RET_SUCCESS, (\<lambda>_. replicate 20 5)(0 := overlay (replicate 20 5) 1 (replicate 3 5 @ replicate 13 0), 1 := v'), ready)"
proof -
  have "rd (\<lambda>_. replicate 20 5) (0, 1) 3 = Some (replicate 3 5)" by (simp add: rd_Some)
  from aes_cbc_roundtrip [OF started_ready(2) _ _ _ this, of 128 "replicate 16 7" 1 19 0] show ?thesis by auto
qed

section \<open>Padding that is not used\<close>

lemma wr_length: "wr m p xs = Some m' \<Longrightarrow> length (m' x) = length (m x)"
  by (auto simp: wr_Some_iff)

lemma ecb_length: "utils_aes_crypt_ecb T ctx mode inp out m = Some (r, m') \<Longrightarrow> length (m' x) = length (m x)"
  by (auto simp: utils_aes_crypt_ecb_def utils_internal_aes_encrypt_def utils_internal_aes_decrypt_def Let_def bind_eq_Some_conv
      wr_length split: if_splits prod.splits)

lemma xor_loop_reads: "xor_loop inp iv out n i m = Some m' \<Longrightarrow>
    length (m' x) = length (m x) \<and> (0 < n \<longrightarrow> snd inp + i + n \<le> length (m (fst inp)))"
proof (induction n arbitrary: i m)
  case (Suc n)
  then obtain u v m1 where s: "rd m (ptr_add inp i) 1 = Some u" "wr m (ptr_add out i) [hd u XOR hd v] = Some m1"
    "xor_loop inp iv out n (i + 1) m1 = Some m'" by (auto simp: bind_eq_Some_conv)
  then show ?case using Suc.IH [OF s(3)] wr_length [OF s(2)]
    by (cases n) (auto simp: rd_Some ptr_add_def)
qed simp

lemma enc_loop_reads: "cbc_enc_loop T ctx mode n iv inp out m = Some m' \<Longrightarrow> 0 < n \<Longrightarrow> snd inp + 16 * n \<le> length (m (fst inp))"
proof (induction n arbitrary: inp out m)
  case (Suc n)
  then obtain m1 r m2 c m3 where s: "xor_loop inp iv out 16 0 m = Some m1" "utils_aes_crypt_ecb T ctx mode out out m1 = Some (r, m2)"
    "wr m2 iv c = Some m3" "cbc_enc_loop T ctx mode n iv (ptr_add inp 16) (ptr_add out 16) m3 = Some m'"
    by (auto simp: bind_eq_Some_conv)
  have "length (m3 x) = length (m x)" for x
    using xor_loop_reads [OF s(1)] ecb_length [OF s(2)] wr_length [OF s(3)] by simp
  then show ?case using Suc.IH [OF s(4)] xor_loop_reads [OF s(1)] by (cases n) (auto simp: ptr_add_def)
qed simp

text \<open>C40: with two different buffers the padding is written to the output, but the cipher then reads the
  padded length from the input: when the input buffer holds exactly the \<open>datalen\<close> bytes that the call is told
  about, it reads behind its end, whatever the output buffer and the initial vector are.\<close>

theorem aes_cbc_overread:
  assumes "started T" and "keybits \<in> {128, 192, 256}" and "8 * length key \<ge> keybits" and "length (m (fst inp)) = snd inp + datalen"
    and "datalen + 16 \<le> room" and "datalen + 16 < 2 ^ 32"
  shows "utils_aes_cbc T inp datalen out room UTILS_AES_ENCRYPT key keybits iv m = None"
proof -
  have k: "keybits \<in> key_sizes" using assms(2) by (simp add: key_sizes_def)
  obtain ctx where ctx: "utils_aes_setkey_enc T utils_aes_init key keybits = Some (0, ctx, ready)"
    using setkey_enc_ok [OF assms(1) k assms(3) length_init(1)] by blast
  define pad where "pad = 16 - datalen mod 16"
  define q where "q = datalen div 16 + 1"
  have "x + (16 - r) = 16 * (k + 1)" if "x = 16 * k + r" "r < 16" for x k r :: nat using that by simp
  from this [of datalen "datalen div 16" "datalen mod 16"] have e: "datalen + pad = 16 * q" by (simp add: pad_def q_def)
  have "0 < pad" "0 < q" by (simp_all add: pad_def q_def)
  have pad: "0 < pad" "datalen + pad < 2 ^ 32" "datalen + pad = 16 * ((datalen + pad) div 16)" "0 < (datalen + pad) div 16"
    using assms(6) e \<open>0 < pad\<close> \<open>0 < q\<close> by (auto simp: pad_def)
  have "cbc_enc_loop ready ctx UTILS_AES_ENCRYPT ((datalen + pad) div 16) iv inp out m2 = None"
    if "wr m out d = Some m1" "wr m1 (ptr_add out datalen) (replicate pad 0) = Some m2" for d m1 m2
  proof (rule ccontr)
    assume "cbc_enc_loop ready ctx UTILS_AES_ENCRYPT ((datalen + pad) div 16) iv inp out m2 \<noteq> None"
    then obtain m' where "cbc_enc_loop ready ctx UTILS_AES_ENCRYPT ((datalen + pad) div 16) iv inp out m2 = Some m'" by blast
    from enc_loop_reads [OF this pad(4)] show False
      using wr_length [OF that(1)] wr_length [OF that(2)] assms(4) pad(1) by (simp flip: pad(3))
  qed
  moreover have "(datalen + pad) mod 16 = 0" using e by simp
  ultimately have False if "utils_aes_cbc T inp datalen out room UTILS_AES_ENCRYPT key keybits iv m = Some r" for r
    using assms(5,6) pad(2) that
    by (auto simp: utils_aes_cbc_def ctx UTILS_AES_BLOCK_LEN_def pad_def [symmetric] Let_def utils_aes_crypt_cbc_def bind_eq_Some_conv
        UTILS_AES_ENCRYPT_def UTILS_AES_DECRYPT_def)
  then show ?thesis by (cases "utils_aes_cbc T inp datalen out room UTILS_AES_ENCRYPT key keybits iv m") auto
qed

theorem aes_cbc_overread_witness:
  "utils_aes_cbc aes_boot (0, 0) 5 (1, 0) 21 UTILS_AES_ENCRYPT (replicate 16 7) 128 (2, 0)
     ((\<lambda>_. replicate 40 0)(0 := [1, 2, 3, 4, 5])) = None"
  by (rule aes_cbc_overread) simp_all

end
