(* ===== verification/System_Mqtt.thy ===== *)
theory System_Mqtt
  imports Json_Safety Device_Info Mqtt_Api
begin

text \<open>
  The system topic of \<^verbatim>\<open>system_mqtt.c\<close>, which asks the cloud for the time.

  \<^item> the static state \<open>sg_state\<close> and the static receive buffer are fields of the record, with the MQTT client
    whose world is used for allocations.
  \<^item> the callbacks have the numbers below; the messages and events of a yield are handled behind it, in order.
  \<^item> \<open>long\<close> has 32 bits; \<open>atol\<close> of a number outside it is undefined.
\<close>

section \<open>Model\<close>

definition MAX_RECV_LEN :: nat where "MAX_RECV_LEN = 512"
definition system_message_cb :: nat where "system_message_cb = 1"
definition system_event_cb :: nat where "system_event_cb = 2"

record 'w sys_state =
  sys_mqtt :: "'w client"
  sys_info :: DeviceInfo
  topic_sub_ok :: bool
  result_recv_ok :: bool
  sys_time :: int
  rcv_buf :: buffer

definition atol :: "cstring \<Rightarrow> int option" where
  "atol s = (let (neg, t) = scan_sign (dropWhile is_space s); n = int (scan_digits 10 t 0); i = (if neg then - n else n) in
     if - (2 ^ 31) \<le> i \<and> i < 2 ^ 31 then Some i else None)"

definition on_sys :: "('w \<Rightarrow> ('a \<times> 'w) option) \<Rightarrow> 'w sys_state \<Rightarrow> ('a \<times> 'w sys_state) option" where
  "on_sys f s = do { (x, w) \<leftarrow> f (world (sys_mqtt s)); Some (x, s\<lparr>sys_mqtt := (sys_mqtt s)\<lparr>world := w\<rparr>\<rparr>) }"

definition system_mqtt_message_callback :: "'w hal \<Rightarrow> MQTTMessage \<Rightarrow> 'w sys_state \<Rightarrow> 'w sys_state option" where
  "system_mqtt_message_callback E msg s = do {
     let len = min MAX_RECV_LEN (pv_payload_len (msg_view msg));
     t \<leftarrow> mem_slice (msg_payload msg) 0 len;
     b \<leftarrow> mem_copy (rcv_buf s) 0 t;
     b \<leftarrow> mem_write b len 0;
     (value, s) \<leftarrow> on_sys (LITE_json_value_of E (chars ''time'') b 0) (s\<lparr>rcv_buf := b\<rparr>);
     s \<leftarrow> (case value of None \<Rightarrow> Some s | Some v \<Rightarrow> do { t \<leftarrow> atol v; Some (s\<lparr>sys_time := t\<rparr>) });
     Some (s\<lparr>result_recv_ok := True\<rparr>) }"

definition system_mqtt_sub_event_handler :: "MQTTEventType \<Rightarrow> 'w sys_state \<Rightarrow> 'w sys_state" where
  "system_mqtt_sub_event_handler e s =
     (if e = MQTT_EVENT_SUBCRIBE_SUCCESS then s\<lparr>topic_sub_ok := True\<rparr>
      else if e = MQTT_EVENT_SUBCRIBE_TIMEOUT \<or> e = MQTT_EVENT_SUBCRIBE_NACK \<or> e = MQTT_EVENT_UNSUBSCRIBE
         \<or> e = MQTT_EVENT_CLIENT_DESTROY then s\<lparr>topic_sub_ok := False\<rparr>
      else s)"

primrec system_effects :: "'w hal \<Rightarrow> effect list \<Rightarrow> 'w sys_state \<Rightarrow> 'w sys_state option" where
  "system_effects E [] s = Some s"
| "system_effects E (e # es) s = do {
     s \<leftarrow> (case e of
         Deliver h msg ud \<Rightarrow> if h = system_message_cb then system_mqtt_message_callback E msg s else Some s
       | Sub_Event h ev ud \<Rightarrow> Some (if h = system_event_cb then system_mqtt_sub_event_handler ev s else s)
       | _ \<Rightarrow> Some s);
     system_effects E es s }"

definition system_yield :: "'w hal \<Rightarrow> nat \<Rightarrow> 'w sys_state \<Rightarrow> (int \<times> 'w sys_state) option" where
  "system_yield E timeout_ms s = do {
     let old = length (trace (sys_mqtt s));
     (rc, c) \<leftarrow> qcloud_iot_mqtt_yield E timeout_ms (sys_mqtt s);
     s \<leftarrow> system_effects E (drop old (trace c)) (s\<lparr>sys_mqtt := c\<rparr>);
     Some (rc, s) }"

definition system_topic :: "string \<Rightarrow> DeviceInfo \<Rightarrow> cstring" where
  "system_topic prefix d = chars prefix @ product_id d @ 0x2f # device_name d"

definition iot_system_info_get_publish :: "'w hal \<Rightarrow> 'w sys_state \<Rightarrow> (int \<times> 'w sys_state) option" where
  "iot_system_info_get_publish E s = do {
     let topic_name = take 127 (system_topic ''$sys/operation/'' (sys_info s));
     let payload = take 127 (chars ''{\"type\": \"get\", \"resource\": [\"time\"]}'');
     ((rc, _), c) \<leftarrow> qcloud_iot_mqtt_publish E topic_name \<lparr>pp_qos = QOS0, pp_retained = 0, pp_id = 0,
        pp_payload = Some (payload @ replicate (128 - length payload) 0), pp_payload_len = length payload\<rparr> (sys_mqtt s);
     Some (rc, s\<lparr>sys_mqtt := c\<rparr>) }"

definition iot_system_info_result_subscribe :: "'w hal \<Rightarrow> 'w sys_state \<Rightarrow> (int \<times> 'w sys_state) option" where
  "iot_system_info_result_subscribe E s =
     (let t = system_topic ''$sys/operation/result/'' (sys_info s) in
      if length t > 127 then Some (QCLOUD_ERR_FAILURE, s)
      else do {
        (rc, c) \<leftarrow> qcloud_iot_mqtt_subscribe E t \<lparr>sp_qos = QOS0, sp_on_message_handler = Some system_message_cb,
           sp_on_sub_event_handler = Some system_event_cb, sp_user_data = 0\<rparr> (sys_mqtt s);
        Some (rc, s\<lparr>sys_mqtt := c\<rparr>) })"

text \<open>The loops; \<open>n\<close> is the number of rounds that are left.\<close>

primrec time_sub_loop :: "'w hal \<Rightarrow> nat \<Rightarrow> 'w sys_state \<Rightarrow> 'w sys_state option" where
  "time_sub_loop E 0 s = Some s"
| "time_sub_loop E (Suc n) s = do {
     (rc, s) \<leftarrow> iot_system_info_result_subscribe E s;
     if rc < 0 then time_sub_loop E n s
     else do {
       (_, s) \<leftarrow> system_yield E 100 s;
       if topic_sub_ok s then Some s else time_sub_loop E n s } }"

primrec time_wait_loop :: "'w hal \<Rightarrow> nat \<Rightarrow> 'w sys_state \<Rightarrow> 'w sys_state option" where
  "time_wait_loop E 0 s = Some s"
| "time_wait_loop E (Suc n) s = do {
     (_, s) \<leftarrow> system_yield E 100 s;
     if result_recv_ok s then Some s else time_wait_loop E n s }"

text \<open>The result is the code and what is stored to \<open>time\<close>, if anything.\<close>

definition IOT_Get_SysTime :: "'w hal \<Rightarrow> 'w sys_state \<Rightarrow> (int \<times> int option \<times> 'w sys_state) option" where
  "IOT_Get_SysTime E s = do {
     s \<leftarrow> (if \<not> topic_sub_ok s then time_sub_loop E 3 s else Some s);
     if \<not> topic_sub_ok s then Some (QCLOUD_ERR_FAILURE, None, s)
     else do {
       (rc, s) \<leftarrow> iot_system_info_get_publish E (s\<lparr>result_recv_ok := False\<rparr>);
       if rc < 0 then Some (rc, None, s)
       else do {
         s \<leftarrow> time_wait_loop E 20 s;
         if result_recv_ok s then Some (QCLOUD_RET_SUCCESS, Some (sys_time s), s)
         else Some (QCLOUD_ERR_FAILURE, Some 0, s) } } }"

section \<open>Answers\<close>

text \<open>An answer of the cloud, a well-formed document that the buffer holds, sets the time to the number of its
  member \<open>time\<close>. An answer without that member, such as a refusal, is taken as an answer too: the old time stays,
  and the call that waits for it will report it as the current one with success.\<close>

theorem system_time_answer:
  assumes "\<forall>w. fst (hal_malloc E w)" and "length (rcv_buf s) = MAX_RECV_LEN + 1" and "jwf (JObj ms)"
    and "length (jtext (JObj ms)) \<le> MAX_RECV_LEN" and "pv_payload_len (msg_view msg) = length (jtext (JObj ms))"
    and "msg_payload msg = jtext (JObj ms) @ z"
    and "v = (case jget (chars ''time'') (JObj ms) of None \<Rightarrow> Some (sys_time s) | Some x \<Rightarrow> atol (jinner x))"
  shows "map_option (\<lambda>s'. (sys_time s', result_recv_ok s')) (system_mqtt_message_callback E msg s) = map_option (\<lambda>t. (t, True)) v"
proof -
  let ?t = "jtext (JObj ms)"
  have "0x2e \<noteq> (of_char c :: u8)" if "c \<in> set ''time''" for c using that by auto
  then have d: "DOT \<notin> set (chars ''time'')" by (auto simp: chars_def)
  define b where "b = ?t @ 0 # drop (length ?t + 1) (rcv_buf s)"
  obtain x where x: "mem_copy (rcv_buf s) 0 ?t = Some x" "mem_write x (length ?t) 0 = Some b"
    using assms(2,4) by (auto simp: b_def mem_copy_def overlay_def mem_write_def list_update_append Cons_nth_drop_Suc [symmetric])
  have sl: "mem_slice (?t @ z) 0 (length ?t) = Some ?t" by (simp add: mem_slice_def)
  have mn: "min MAX_RECV_LEN (length ?t) = length ?t" using assms(4) by simp
  obtain w' where w: "LITE_json_value_of E (chars ''time'') b 0 (world (sys_mqtt s))
      = Some (map_option jinner (jget (chars ''time'') (JObj ms)), w')"
    using member_value [OF assms(1,3) d] unfolding b_def by blast
  show ?thesis
    unfolding system_mqtt_message_callback_def assms(5-7) mn Let_def sl
    by (simp add: x w on_sys_def del: jtext.simps split: option.splits Option.bind_splits)
qed

definition sample_sys :: "nat \<Rightarrow> u32 sys_state" where
  "sample_sys n = \<lparr>sys_mqtt = mqtt_init_state (clock_hal 1) 5000 False (replicate 50 0, 0) 0, sys_info = no_device_info,
     topic_sub_ok = True, result_recv_ok = False, sys_time = 77, rcv_buf = replicate n 0\<rparr>"

theorem system_time_answer_witness:
  "map_option (\<lambda>s'. (sys_time s', result_recv_ok s'))
     (system_mqtt_message_callback (clock_hal 1)
       \<lparr>msg_view = \<lparr>pv_dup = 0, pv_qos = 0, pv_retained = 0, pv_packet_id = None, pv_topic = 0, pv_topic_len = 1,
          pv_payload = 0, pv_payload_len = 2\<rparr>, msg_ptopic = [0x74, 0], msg_topic_len = 1,
        msg_payload = jtext (JObj []) @ [0x20]\<rparr> (sample_sys 513)) = Some (77, True)"
proof -
  have "jget (chars ''time'') (JObj []) = None" by (simp add: jget_def visible_def)
  then show ?thesis
    by (subst system_time_answer [where ms = "[]" and z = "[0x20]" and v = "Some 77"])
      (simp_all add: clock_hal_def sample_sys_def MAX_RECV_LEN_def)
qed

end
