(* ===== verification/Network.thy ===== *)
theory Network
  imports Hal_Timer
begin

text \<open>
  The network interface of \<^verbatim>\<open>network_interface.c\<close>, \<^verbatim>\<open>network_socket.c\<close> and \<^verbatim>\<open>network_tls.c\<close>, for the build with TLS
  and without the AT modem: one structure with a kind, whose operations go to the TCP, TLS or DTLS functions of
  the platform. These are a parameter, one set of operations per kind. The function pointers that
  \<open>network_init\<close> stores are the set that the kind selects; a null pointer is not called.
\<close>

datatype NETWORK_TYPE = NETWORK_TCP | NETWORK_UDP | NETWORK_TLS | NETWORK_DTLS

text \<open>\<open>op_connect host port ca\<close> returns the handle, 0 for a failure.\<close>

record 'w net_ops =
  op_connect :: "cstring \<Rightarrow> int \<Rightarrow> cstring option \<Rightarrow> 'w \<Rightarrow> nat \<times> 'w"
  op_disconnect :: "nat \<Rightarrow> 'w \<Rightarrow> 'w"
  op_write :: "nat \<Rightarrow> buffer \<Rightarrow> int \<Rightarrow> 'w \<Rightarrow> (int \<times> nat) \<times> 'w"
  op_read :: "nat \<Rightarrow> nat \<Rightarrow> int \<Rightarrow> 'w \<Rightarrow> (int \<times> buffer) \<times> 'w"

type_synonym 'w platform = "NETWORK_TYPE \<Rightarrow> 'w net_ops"

record network =
  net_type :: NETWORK_TYPE
  net_host :: cstring
  net_port :: int
  net_ca :: "cstring option"
  net_handle :: nat

definition network_init :: "network \<Rightarrow> int \<times> network" where
  "network_init n = (case net_type n of
       NETWORK_UDP \<Rightarrow> (QCLOUD_ERR_INVAL, n)
     | _ \<Rightarrow> (QCLOUD_RET_SUCCESS, n\<lparr>net_handle := 0\<rparr>))"

definition is_network_connected :: "network \<Rightarrow> nat" where
  "is_network_connected n = net_handle n"

definition network_connect :: "'w platform \<Rightarrow> network \<Rightarrow> 'w \<Rightarrow> int \<times> network \<times> 'w" where
  "network_connect P n w =
     (let (h, w) = op_connect (P (net_type n)) (net_host n) (net_port n) (net_ca n) w in
      ((if h = 0 then (if net_type n = NETWORK_TCP then -1 else QCLOUD_ERR_FAILURE) else 0), n\<lparr>net_handle := h\<rparr>, w))"

definition network_read :: "'w platform \<Rightarrow> network \<Rightarrow> nat \<Rightarrow> int \<Rightarrow> 'w \<Rightarrow> (int \<times> buffer) \<times> 'w" where
  "network_read P n datalen timeout_ms w = op_read (P (net_type n)) (net_handle n) datalen timeout_ms w"

definition network_write :: "'w platform \<Rightarrow> network \<Rightarrow> buffer \<Rightarrow> int \<Rightarrow> 'w \<Rightarrow> (int \<times> nat) \<times> 'w" where
  "network_write P n data timeout_ms w = op_write (P (net_type n)) (net_handle n) data timeout_ms w"

text \<open>The TCP function does nothing without a handle.\<close>

definition network_disconnect :: "'w platform \<Rightarrow> network \<Rightarrow> 'w \<Rightarrow> network \<times> 'w" where
  "network_disconnect P n w =
     (if net_type n = NETWORK_TCP \<and> net_handle n = 0 then (n, w)
      else (n\<lparr>net_handle := 0\<rparr>, op_disconnect (P (net_type n)) (net_handle n) w))"

text \<open>A platform whose network accepts everything and has nothing to read, for examples.\<close>

definition quiet_platform :: "'w platform" where
  "quiet_platform = (\<lambda>_. \<lparr>op_connect = (\<lambda>_ _ _ w. (1, w)), op_disconnect = (\<lambda>_ w. w),
     op_write = (\<lambda>_ b _ w. ((0, length b), w)), op_read = (\<lambda>_ _ _ w. ((QCLOUD_ERR_TCP_NOTHING_TO_READ, []), w))\<rparr>)"

text \<open>Connected is what a successful connect leaves and a disconnect ends.\<close>

lemma network_connect_handle:
  "network_connect P n w = (rc, n', w') \<Longrightarrow> (rc = 0) = (is_network_connected n' \<noteq> 0)"
  by (auto simp: network_connect_def is_network_connected_def Let_def split: prod.splits if_splits)

lemma network_disconnect_handle: "network_disconnect P n w = (n', w') \<Longrightarrow> is_network_connected n' = 0"
  by (auto simp: network_disconnect_def is_network_connected_def split: if_splits)

end
