(* ===== verification/Http_Client.thy ===== *)
theory Http_Client
  imports Network Json_Parser Text_Format
begin

text \<open>
  The HTTP client of \<^verbatim>\<open>utils_httpc.c\<close>: the request line and headers, the reading of a response with its headers,
  and the retrieval of the content by length, in chunks or until the connection closes. The request is collected in
  a block of 1024 bytes, the response is read to a block of the same size, and the content goes to the caller's
  buffer. A block that is read or written outside, the end of a string that is not found and a loop that does not
  end are \<open>None\<close>. The logging and the comparison of the address with that of the log server are left out.
\<close>

section \<open>Model\<close>

abbreviation (input) QCLOUD_ERR_HTTP_CLOSED :: int where "QCLOUD_ERR_HTTP_CLOSED \<equiv> -3"
abbreviation (input) QCLOUD_ERR_HTTP :: int where "QCLOUD_ERR_HTTP \<equiv> -4"
abbreviation (input) QCLOUD_ERR_HTTP_UNRESOLVED_DNS :: int where "QCLOUD_ERR_HTTP_UNRESOLVED_DNS \<equiv> -6"
abbreviation (input) QCLOUD_ERR_HTTP_PARSE :: int where "QCLOUD_ERR_HTTP_PARSE \<equiv> -7"
abbreviation (input) QCLOUD_ERR_HTTP_CONN :: int where "QCLOUD_ERR_HTTP_CONN \<equiv> -8"
abbreviation (input) QCLOUD_ERR_HTTP_AUTH :: int where "QCLOUD_ERR_HTTP_AUTH \<equiv> -9"
abbreviation (input) QCLOUD_ERR_HTTP_NOT_FOUND :: int where "QCLOUD_ERR_HTTP_NOT_FOUND \<equiv> -10"
abbreviation (input) QCLOUD_ERR_HTTP_TIMEOUT :: int where "QCLOUD_ERR_HTTP_TIMEOUT \<equiv> -11"
abbreviation (input) HTTP_RETRIEVE_MORE_DATA :: int where "HTTP_RETRIEVE_MORE_DATA \<equiv> 1"

definition HTTP_CLIENT_AUTHB_SIZE :: nat where "HTTP_CLIENT_AUTHB_SIZE = 128"
definition HTTP_CLIENT_CHUNK_SIZE :: nat where "HTTP_CLIENT_CHUNK_SIZE = 1024"
definition HTTP_CLIENT_SEND_BUF_SIZE :: nat where "HTTP_CLIENT_SEND_BUF_SIZE = 1024"
definition HTTP_CLIENT_MAX_HOST_LEN :: nat where "HTTP_CLIENT_MAX_HOST_LEN = 64"
definition HTTP_CLIENT_MAX_URL_LEN :: nat where "HTTP_CLIENT_MAX_URL_LEN = 1024"

datatype HttpMethod = HTTP_GET | HTTP_POST | HTTP_PUT | HTTP_DELETE | HTTP_HEAD

record HTTPClient =
  response_code :: int
  http_header :: "cstring option"
  auth_user :: "cstring option"
  auth_password :: "cstring option"
  network_stack :: network

record HTTPClientData =
  is_more :: bool
  is_chunked :: bool
  retrieve_len :: int
  response_content_len :: int
  post_buf_len :: int
  response_buf_len :: int
  post_content_type :: "cstring option"
  post_buf :: "buffer option"
  response_buf :: "buffer option"

text \<open>The conversion of an \<open>int\<close> to 32 bits without sign, and back.\<close>

definition uint32 :: "int \<Rightarrow> nat" where
  "uint32 i = nat (i mod 2 ^ 32)"

definition int32 :: "nat \<Rightarrow> int" where
  "int32 n = signed 32 (n mod 2 ^ 32)"

text \<open>\<open>strstr\<close> from a position on, and the string that begins at a position.\<close>

primrec strstr_from :: "cstring \<Rightarrow> buffer \<Rightarrow> nat \<Rightarrow> nat option option" where
  "strstr_from lit [] p = None"
| "strstr_from lit (b # bs) p = do {
     m \<leftarrow> strncmp_eq (b # bs) lit;
     if m then Some (Some p) else if b = 0 then Some None else strstr_from lit bs (p + 1) }"

definition text_at :: "buffer \<Rightarrow> nat \<Rightarrow> cstring option" where
  "text_at b p = do { n \<leftarrow> strlen_at b p; Some (take n (drop p b)) }"

text \<open>\<open>strtoul\<close> to the base 16, for a \<open>long\<close> of 32 bits.\<close>

definition strtoul_16 :: "cstring \<Rightarrow> nat" where
  "strtoul_16 s =
     (let (neg, t) = scan_sign (dropWhile is_space s);
          t = (if length t \<ge> 3 \<and> t ! 0 = 0x30 \<and> (t ! 1 = 0x78 \<or> t ! 1 = 0x58) \<and> digit_val (t ! 2) < 16 then drop 2 t else t);
          n = scan_digits 16 t 0 in
      if n \<ge> 2 ^ 32 then 2 ^ 32 - 1 else if neg then (2 ^ 32 - n) mod 2 ^ 32 else n)"

subsection \<open>Credentials\<close>

definition base64_code :: cstring where
  "base64_code = chars ''ABCDEFGHIJKLMNOPQRSTUVWXYZabcdefghijklmnopqrstuvwxyz0123456789+/=''"

fun http_emit :: "u32 \<Rightarrow> nat \<Rightarrow> cstring \<Rightarrow> nat \<times> cstring" where
  "http_emit x l out =
     (if l \<ge> 6 then http_emit x (l - 6) (out @ [base64_code ! unat (drop_bit (l - 6) x AND 0x3f)]) else (l, out))"

declare http_emit.simps [simp del]

primrec http_base64_loop :: "cstring \<Rightarrow> u32 \<Rightarrow> nat \<Rightarrow> cstring \<Rightarrow> u32 \<times> nat \<times> cstring" where
  "http_base64_loop [] x l out = (x, l, out)"
| "http_base64_loop (c # cs) x l out =
     (let x = push_bit 8 x OR ucast c; (l, out) = http_emit x (l + 8) out in http_base64_loop cs x l out)"

definition http_client_base64enc :: "buffer \<Rightarrow> cstring \<Rightarrow> buffer option" where
  "http_client_base64enc out inp =
     (let (x, l, s) = http_base64_loop inp 0 0 [];
          s = (if l > 0 then s @ [base64_code ! unat (push_bit (6 - l) x AND 0x3f)] else s);
          s = s @ replicate ((4 - length s mod 4) mod 4) 0x3d in
      mem_copy out 0 (s @ [0]))"

subsection \<open>Addresses\<close>

text \<open>The port is stored when the host has been found. A length that would be negative wraps.\<close>

definition http_client_parse_url ::
  "cstring \<Rightarrow> buffer \<Rightarrow> nat \<Rightarrow> buffer \<Rightarrow> nat \<Rightarrow> buffer \<Rightarrow> nat
    \<Rightarrow> (int \<times> buffer \<times> buffer \<times> int option \<times> buffer) option" where
  "http_client_parse_url url scheme max_scheme_len host maxhost_len path max_path_len =
     (let s = url @ [0] in do {
        r \<leftarrow> strstr_from (chars ''://'') s 0;
        case r of None \<Rightarrow> Some (QCLOUD_ERR_HTTP_PARSE, scheme, host, None, path)
        | Some h \<Rightarrow>
          if max_scheme_len < h + 1 then Some (QCLOUD_ERR_HTTP_PARSE, scheme, host, None, path)
          else do {
            scheme \<leftarrow> mem_copy scheme 0 (take h url @ [0]);
            let h = h + 3;
            r \<leftarrow> strchr_at s h 0x2f;
            case r of
              None \<Rightarrow> do {
                host \<leftarrow> mem_copy host 0 (drop h url @ [0]);
                path \<leftarrow> mem_copy path 0 [0x2f, 0];
                Some (QCLOUD_RET_SUCCESS, scheme, host, Some 0, path) }
            | Some q \<Rightarrow>
                let host_len = q - h in
                if maxhost_len < host_len + 1 then Some (QCLOUD_ERR_HTTP_PARSE, scheme, host, Some 0, path)
                else do {
                  host \<leftarrow> mem_copy host 0 (take host_len (drop h url) @ [0]);
                  r \<leftarrow> strchr_at s h 0x23;
                  let path_len = (case r of Some f \<Rightarrow> uint32 (int f - int q) | None \<Rightarrow> length url - q);
                  if max_path_len < (path_len + 1) mod 2 ^ 32 then Some (QCLOUD_ERR_HTTP_PARSE, scheme, host, Some 0, path)
                  else do {
                    xs \<leftarrow> mem_slice s q path_len;
                    path \<leftarrow> mem_copy path 0 (xs @ [0]);
                    Some (QCLOUD_RET_SUCCESS, scheme, host, Some 0, path) } } } })"

definition http_client_parse_host :: "cstring \<Rightarrow> buffer \<Rightarrow> nat \<Rightarrow> (int \<times> buffer) option" where
  "http_client_parse_host url host host_max_len =
     (let s = url @ [0] in do {
        r \<leftarrow> strstr_from (chars ''://'') s 0;
        case r of None \<Rightarrow> Some (QCLOUD_ERR_HTTP_PARSE, host)
        | Some h \<Rightarrow> do {
            let h = h + 3;
            r \<leftarrow> strchr_at s h 0x2f;
            let host_len = (case r of Some q \<Rightarrow> q - h | None \<Rightarrow> length url - h);
            if host_max_len < host_len + 1 then Some (QCLOUD_ERR_HTTP_PARSE, host)
            else do { host \<leftarrow> mem_copy host 0 (take host_len (drop h url) @ [0]); Some (QCLOUD_RET_SUCCESS, host) } } })"

subsection \<open>Requests\<close>

text \<open>The result has no index when the function returns from inside the loop, without storing it.\<close>

partial_function (option) get_info_loop ::
  "'w platform \<Rightarrow> network \<Rightarrow> buffer \<Rightarrow> nat \<Rightarrow> cstring \<Rightarrow> 'w \<Rightarrow> (int \<times> buffer \<times> nat option \<times> 'w) option" where
  "get_info_loop P n send_buf idx buf w = do {
     let cp_len = (if HTTP_CLIENT_SEND_BUF_SIZE - idx \<ge> length buf then length buf else HTTP_CLIENT_SEND_BUF_SIZE - idx);
     send_buf \<leftarrow> mem_copy send_buf idx (take cp_len buf);
     let idx = idx + cp_len;
     let buf = drop cp_len buf;
     if idx = HTTP_CLIENT_SEND_BUF_SIZE then
       (let ((rc, k), w) = network_write P n send_buf 5000 w in
        if k > 0 then Some (int k, send_buf, None, w)
        else if buf \<noteq> [] then get_info_loop P n send_buf idx buf w
        else Some (rc, send_buf, Some idx, w))
     else if buf \<noteq> [] then get_info_loop P n send_buf idx buf w
     else Some (QCLOUD_RET_SUCCESS, send_buf, Some idx, w) }"

type_synonym 'w request = "buffer \<times> nat \<times> 'w"

definition http_client_get_info :: "'w platform \<Rightarrow> HTTPClient \<Rightarrow> 'w request \<Rightarrow> cstring \<Rightarrow> (int \<times> 'w request) option" where
  "http_client_get_info P client r buf = (case r of (send_buf, send_idx, w) \<Rightarrow> do {
     (rc, send_buf, idx, w) \<leftarrow> get_info_loop P (network_stack client) send_buf send_idx buf w;
     Some (rc, send_buf, (case idx of Some i \<Rightarrow> i | None \<Rightarrow> send_idx), w) })"

definition http_client_send_auth :: "'w platform \<Rightarrow> HTTPClient \<Rightarrow> 'w request \<Rightarrow> (int \<times> 'w request) option" where
  "http_client_send_auth P client r = do {
     (_, r) \<leftarrow> http_client_get_info P client r (chars ''Authorization: Basic '');
     user \<leftarrow> auth_user client;
     password \<leftarrow> auth_password client;
     b_auth \<leftarrow> http_client_base64enc (replicate ((HTTP_CLIENT_AUTHB_SIZE + 3) * 4 div 3 + 1) 0)
       (take (HTTP_CLIENT_AUTHB_SIZE + 2) (user @ 0x3a # password));
     n \<leftarrow> strlen b_auth;
     b_auth \<leftarrow> mem_write b_auth (n + 1) 0;
     b_auth \<leftarrow> mem_write b_auth n 0x0a;
     s \<leftarrow> text_at b_auth 0;
     (_, r) \<leftarrow> http_client_get_info P client r s;
     Some (QCLOUD_RET_SUCCESS, r) }"

definition method_name :: "HttpMethod \<Rightarrow> cstring" where
  "method_name m = chars (case m of HTTP_GET \<Rightarrow> ''GET'' | HTTP_POST \<Rightarrow> ''POST'' | HTTP_PUT \<Rightarrow> ''PUT''
     | HTTP_DELETE \<Rightarrow> ''DELETE'' | HTTP_HEAD \<Rightarrow> ''HEAD'')"

abbreviation (input) CR :: u8 where "CR \<equiv> 0x0d"
abbreviation (input) LF :: u8 where "LF \<equiv> 0x0a"

text \<open>A line printed to \<open>buf\<close> and appended to the request.\<close>

definition http_line :: "'w platform \<Rightarrow> HTTPClient \<Rightarrow> 'w request \<Rightarrow> cstring \<Rightarrow> (int \<times> 'w request) option" where
  "http_line P client r s = http_client_get_info P client r (take (HTTP_CLIENT_SEND_BUF_SIZE - 1) s)"

definition http_post_lines :: "'w platform \<Rightarrow> HTTPClient \<Rightarrow> HTTPClientData \<Rightarrow> 'w request \<Rightarrow> 'w request option" where
  "http_post_lines P client d r =
     (if post_buf d = None then Some r
      else do {
        (_, r) \<leftarrow> http_line P client r (chars ''Content-Length: '' @ int_text (post_buf_len d) @ [CR, LF]);
        case post_content_type d of None \<Rightarrow> Some r
        | Some t \<Rightarrow> map_option snd (http_line P client r (chars ''Content-Type: '' @ t @ [CR, LF])) })"

definition http_client_send_header ::
  "'w platform \<Rightarrow> HTTPClient \<Rightarrow> cstring \<Rightarrow> HttpMethod \<Rightarrow> HTTPClientData \<Rightarrow> 'w \<Rightarrow> (int \<times> 'w) option" where
  "http_client_send_header P client url meth d w = do {
     (res, _, host, _, path) \<leftarrow> http_client_parse_url url (replicate 8 0) 8
       (replicate HTTP_CLIENT_MAX_HOST_LEN 0) HTTP_CLIENT_MAX_HOST_LEN (replicate HTTP_CLIENT_MAX_URL_LEN 0) HTTP_CLIENT_MAX_URL_LEN;
     if res \<noteq> QCLOUD_RET_SUCCESS then Some (res, w)
     else do {
       host \<leftarrow> text_at host 0;
       path \<leftarrow> text_at path 0;
       (rc, r) \<leftarrow> http_line P client (replicate HTTP_CLIENT_SEND_BUF_SIZE 0, 0, w)
         (method_name meth @ 0x20 # path @ chars '' HTTP/1.1'' @ [CR, LF] @ chars ''Host: '' @ host @ [CR, LF]);
       if rc \<noteq> 0 then Some (QCLOUD_ERR_HTTP_CONN, snd (snd r))
       else do {
         r \<leftarrow> (if auth_user client = None then Some r else map_option snd (http_client_send_auth P client r));
         r \<leftarrow> (case http_header client of None \<Rightarrow> Some r | Some h \<Rightarrow> map_option snd (http_client_get_info P client r h));
         r \<leftarrow> http_post_lines P client d r;
         (_, send_buf, len, w) \<leftarrow> http_client_get_info P client r [CR, LF];
         let ((_, written_len), w) = network_write P (network_stack client) (take len send_buf) 5000 w;
         Some (if written_len > 0 then QCLOUD_RET_SUCCESS else QCLOUD_ERR_HTTP_CLOSED, w) } } }"

definition http_client_send_userdata :: "'w platform \<Rightarrow> HTTPClient \<Rightarrow> HTTPClientData \<Rightarrow> 'w \<Rightarrow> (int \<times> 'w) option" where
  "http_client_send_userdata P client d w =
     (case post_buf d of None \<Rightarrow> Some (QCLOUD_RET_SUCCESS, w)
      | Some b \<Rightarrow>
        if post_buf_len d = 0 then Some (QCLOUD_RET_SUCCESS, w)
        else do {
          xs \<leftarrow> mem_slice b 0 (uint32 (post_buf_len d));
          let ((_, written_len), w) = network_write P (network_stack client) xs 5000 w;
          Some (if written_len > 0 then QCLOUD_RET_SUCCESS else QCLOUD_ERR_HTTP_CLOSED, w) })"

definition http_client_send_request ::
  "'w platform \<Rightarrow> HTTPClient \<Rightarrow> cstring \<Rightarrow> HttpMethod \<Rightarrow> HTTPClientData \<Rightarrow> 'w \<Rightarrow> (int \<times> 'w) option" where
  "http_client_send_request P client url meth d w = do {
     (rc, w) \<leftarrow> http_client_send_header P client url meth d w;
     if rc \<noteq> 0 then Some (rc, w)
     else if meth = HTTP_POST \<or> meth = HTTP_PUT then http_client_send_userdata P client d w
     else Some (rc, w) }"

subsection \<open>Responses\<close>

text \<open>
  One read from the network to a block at an offset. A read that finds nothing or runs into its timeout is a
  success with what has come, and a server that closes the connection behind its last bytes ends it on this side.
\<close>

definition http_client_recv ::
  "'w hal \<Rightarrow> 'w platform \<Rightarrow> HTTPClient \<Rightarrow> buffer \<Rightarrow> int \<Rightarrow> int \<Rightarrow> nat \<Rightarrow> 'w \<Rightarrow> (int \<times> int \<times> buffer \<times> HTTPClient \<times> 'w) option" where
  "http_client_recv E P client buf off max_len timeout_ms w =
     (let (timer, w) = countdown_ms E timeout_ms w;
          (left, w) = left_ms E timer w;
          n = uint32 max_len;
          ((rc, bs), w) = network_read P (network_stack client) n (int (uint32 left)) w;
          bs = take n bs in
      if off < 0 then None
      else do {
        buf \<leftarrow> mem_copy buf (nat off) bs;
        let len = int (length bs);
        if rc = QCLOUD_ERR_SSL_NOTHING_TO_READ \<or> rc = QCLOUD_ERR_TCP_NOTHING_TO_READ
            \<or> rc = QCLOUD_ERR_SSL_READ_TIMEOUT \<or> rc = QCLOUD_ERR_TCP_READ_TIMEOUT
        then Some (QCLOUD_RET_SUCCESS, len, buf, client, w)
        else if rc = QCLOUD_ERR_TCP_PEER_SHUTDOWN \<and> len > 0 then
          let (n, w) = network_disconnect P (network_stack client) w in
          Some (QCLOUD_RET_SUCCESS, len, buf, client\<lparr>network_stack := n\<rparr>, w)
        else if rc \<noteq> QCLOUD_RET_SUCCESS then Some (rc, len, buf, client, w)
        else Some (QCLOUD_RET_SUCCESS, len, buf, client, w) })"

text \<open>
  The state of \<open>_http_client_retrieve_content\<close>: its pointer arguments, its read block \<open>data\<close> with the number of
  bytes in it, and the number of bytes stored. A step ends the function with a code or lets it go on.
\<close>

record 'w http_st =
  rt_client :: HTTPClient
  rt_data :: HTTPClientData
  rt_buf :: buffer
  rt_len :: int
  rt_count :: int
  rt_world :: 'w

definition rt_left :: "'w hal \<Rightarrow> Timer \<Rightarrow> 'w http_st \<Rightarrow> int \<times> 'w http_st" where
  "rt_left E timer s = (let (left, w) = left_ms E timer (rt_world s) in (left, s\<lparr>rt_world := w\<rparr>))"

definition rt_recv :: "'w hal \<Rightarrow> 'w platform \<Rightarrow> Timer \<Rightarrow> int \<Rightarrow> int \<Rightarrow> 'w http_st \<Rightarrow> (int \<times> int \<times> 'w http_st) option" where
  "rt_recv E P timer off max_len s = do {
     let (left, s) = rt_left E timer s;
     (rc, len, b, client, w) \<leftarrow> http_client_recv E P (rt_client s) (rt_buf s) off max_len (uint32 left) (rt_world s);
     Some (rc, len, s\<lparr>rt_buf := b, rt_client := client, rt_world := w\<rparr>) }"

text \<open>\<open>n\<close> bytes of the block are stored behind those in the response buffer, and a zero at \<open>z\<close>.\<close>

definition rt_store :: "nat \<Rightarrow> int \<Rightarrow> 'w http_st \<Rightarrow> 'w http_st option" where
  "rt_store n z s = do {
     r \<leftarrow> response_buf (rt_data s);
     xs \<leftarrow> mem_slice (rt_buf s) 0 n;
     r \<leftarrow> (if rt_count s < 0 then None else mem_copy r (nat (rt_count s)) xs);
     r \<leftarrow> (if z < 0 then None else mem_write r (nat z) 0);
     Some (s\<lparr>rt_data := (rt_data s)\<lparr>response_buf := Some r\<rparr>\<rparr>) }"

text \<open>The room left in the response buffer, and the copy when the content does not fit.\<close>

definition rt_room :: "'w http_st \<Rightarrow> int" where
  "rt_room s = response_buf_len (rt_data s) - 1 - rt_count s"

definition rt_fill :: "'w http_st \<Rightarrow> 'w http_st option" where
  "rt_fill s = rt_store (uint32 (rt_room s)) (response_buf_len (rt_data s) - 1) s"

text \<open>Content that ends with the connection.\<close>

partial_function (option) until_close_loop ::
  "'w hal \<Rightarrow> 'w platform \<Rightarrow> Timer \<Rightarrow> 'w http_st \<Rightarrow> (int \<times> 'w http_st) option" where
  "until_close_loop E P timer s =
     (if rt_count s + rt_len s < response_buf_len (rt_data s) - 1 then do {
        s \<leftarrow> rt_store (uint32 (rt_len s)) (rt_count s + rt_len s) s;
        let s = s\<lparr>rt_count := rt_count s + rt_len s\<rparr>;
        (rc, len, s) \<leftarrow> rt_recv E P timer 0 (min (int HTTP_CLIENT_CHUNK_SIZE - 1) (rt_room s)) s;
        let s = s\<lparr>rt_len := len\<rparr>;
        if rc \<noteq> QCLOUD_RET_SUCCESS then Some (rc, s)
        else
          let (left, s) = rt_left E timer s in
          if left = 0 then Some (QCLOUD_ERR_HTTP_TIMEOUT, s)
          else if len = 0 then Some (QCLOUD_RET_SUCCESS, s\<lparr>rt_data := (rt_data s)\<lparr>is_more := False\<rparr>\<rparr>)
          else until_close_loop E P timer s }
      else do { s \<leftarrow> rt_fill s; Some (HTTP_RETRIEVE_MORE_DATA, s) })"

text \<open>The head of a chunk: the position of the end of its line, read on until it is there.\<close>

definition crlf_at :: "buffer \<Rightarrow> nat \<Rightarrow> bool" where
  "crlf_at b i \<longleftrightarrow> take 2 (drop i b) = [CR, LF]"

definition find_crlf :: "buffer \<Rightarrow> int \<Rightarrow> nat option" where
  "find_crlf b len = find (crlf_at b) [0..<nat (len - 2)]"

partial_function (option) chunk_line_loop ::
  "'w hal \<Rightarrow> 'w platform \<Rightarrow> Timer \<Rightarrow> 'w http_st \<Rightarrow> ((int + nat) \<times> 'w http_st) option" where
  "chunk_line_loop E P timer s = do {
     b \<leftarrow> (if rt_len s < 0 then None else mem_write (rt_buf s) (nat (rt_len s)) 0);
     let s = s\<lparr>rt_buf := b\<rparr>;
     case find_crlf b (rt_len s) of
       Some i \<Rightarrow> Some (Inr i, s)
     | None \<Rightarrow>
         if rt_len s < int HTTP_CLIENT_CHUNK_SIZE then do {
           (rc, new, s) \<leftarrow> rt_recv E P timer (rt_len s) (int HTTP_CLIENT_CHUNK_SIZE - rt_len s - 1) s;
           let s = s\<lparr>rt_len := rt_len s + new\<rparr>;
           if rc \<noteq> QCLOUD_RET_SUCCESS then Some (Inl rc, s) else chunk_line_loop E P timer s }
         else Some (Inl QCLOUD_ERR_HTTP, s) }"

text \<open>\<open>memmove\<close> of \<open>n\<close> bytes from \<open>data + from\<close> to the start of the block.\<close>

definition rt_shift :: "nat \<Rightarrow> int \<Rightarrow> 'w http_st \<Rightarrow> 'w http_st option" where
  "rt_shift from n s = do {
     xs \<leftarrow> mem_slice (rt_buf s) from (uint32 n);
     b \<leftarrow> mem_copy (rt_buf s) 0 xs;
     Some (s\<lparr>rt_buf := b\<rparr>) }"

definition int_sum :: "int \<Rightarrow> int \<Rightarrow> int option" where
  "int_sum a b = (if - (2 ^ 31) \<le> a + b \<and> a + b < 2 ^ 31 then Some (a + b) else None)"

definition chunk_header :: "'w hal \<Rightarrow> 'w platform \<Rightarrow> Timer \<Rightarrow> 'w http_st \<Rightarrow> ((int + nat) \<times> 'w http_st) option" where
  "chunk_header E P timer s = do {
     (r, s) \<leftarrow> chunk_line_loop E P timer s;
     case r of Inl rc \<Rightarrow> Some (Inl rc, s)
     | Inr crlf_pos \<Rightarrow> do {
         b \<leftarrow> mem_write (rt_buf s) crlf_pos 0;
         t \<leftarrow> text_at b 0;
         let readLen = strtoul_16 t;
         n \<leftarrow> int_sum (response_content_len (rt_data s)) (int32 readLen);
         let s = s\<lparr>rt_buf := b, rt_data := (rt_data s)\<lparr>retrieve_len := int32 readLen, response_content_len := n\<rparr>\<rparr>;
         if readLen = 0 then Some (Inl QCLOUD_ERR_HTTP_UNRESOLVED_DNS, s\<lparr>rt_data := (rt_data s)\<lparr>is_more := False\<rparr>\<rparr>)
         else do {
           s \<leftarrow> rt_shift (crlf_pos + 2) (rt_len s - int (crlf_pos + 2)) s;
           Some (Inr readLen, s\<lparr>rt_len := rt_len s - int (crlf_pos + 2)\<rparr>) } } }"

text \<open>The bytes of a chunk or of the whole content, \<open>readLen\<close> of them still to be stored.\<close>

partial_function (option) body_loop ::
  "'w hal \<Rightarrow> 'w platform \<Rightarrow> Timer \<Rightarrow> nat \<Rightarrow> 'w http_st \<Rightarrow> (int option \<times> 'w http_st) option" where
  "body_loop E P timer readLen s = do {
     let templen = int32 (min (uint32 (rt_len s)) readLen);
     if rt_count s + templen < response_buf_len (rt_data s) - 1 then do {
       s \<leftarrow> rt_store (uint32 templen) (rt_count s + templen) s;
       let s = s\<lparr>rt_count := rt_count s + templen, rt_data := (rt_data s)\<lparr>retrieve_len := retrieve_len (rt_data s) - templen\<rparr>\<rparr>;
       (readLen, s) \<leftarrow>
         (if uint32 (rt_len s) > readLen then do {
            s \<leftarrow> rt_shift readLen (rt_len s - int readLen) s;
            Some (0, s\<lparr>rt_len := rt_len s - int readLen, rt_data := (rt_data s)\<lparr>retrieve_len := 0\<rparr>\<rparr>) }
          else Some (readLen - uint32 (rt_len s), s));
       if readLen = 0 then Some (None, s)
       else do {
         let m = min (int HTTP_CLIENT_CHUNK_SIZE - 1) (rt_room s);
         let m = int32 (min (uint32 m) readLen);
         (rc, len, s) \<leftarrow> rt_recv E P timer 0 m s;
         let s = s\<lparr>rt_len := len\<rparr>;
         if rc \<noteq> QCLOUD_RET_SUCCESS then Some (Some rc, s)
         else
           let (left, s) = rt_left E timer s in
           if left = 0 then Some (Some QCLOUD_ERR_HTTP_TIMEOUT, s) else body_loop E P timer readLen s } }
     else do {
       s' \<leftarrow> rt_fill s;
       Some (Some HTTP_RETRIEVE_MORE_DATA, s'\<lparr>rt_data := (rt_data s')\<lparr>retrieve_len := retrieve_len (rt_data s') - rt_room s\<rparr>\<rparr>) } }"

text \<open>The end of the line behind a chunk.\<close>

definition chunk_end :: "'w hal \<Rightarrow> 'w platform \<Rightarrow> Timer \<Rightarrow> 'w http_st \<Rightarrow> (int option \<times> 'w http_st) option" where
  "chunk_end E P timer s = do {
     (r, s) \<leftarrow>
       (if rt_len s < 2 then do {
          (rc, new, s) \<leftarrow> rt_recv E P timer (rt_len s) (int HTTP_CLIENT_CHUNK_SIZE - rt_len s - 1) s;
          if rc \<noteq> QCLOUD_RET_SUCCESS then Some (Some rc, s)
          else
            let (left, s) = rt_left E timer s in
            if left = 0 then Some (Some rc, s) else Some (None, s\<lparr>rt_len := rt_len s + new\<rparr>) }
        else Some (None, s));
     if r \<noteq> None then Some (r, s)
     else if length (rt_buf s) < 2 then None
     else if \<not> crlf_at (rt_buf s) 0 then Some (Some QCLOUD_ERR_HTTP_UNRESOLVED_DNS, s)
     else do { s \<leftarrow> rt_shift 2 (rt_len s - 2) s; Some (None, s\<lparr>rt_len := rt_len s - 2\<rparr>) } }"

partial_function (option) content_loop ::
  "'w hal \<Rightarrow> 'w platform \<Rightarrow> Timer \<Rightarrow> 'w http_st \<Rightarrow> (int \<times> 'w http_st) option" where
  "content_loop E P timer s = do {
     (r, s) \<leftarrow> (if is_chunked (rt_data s) \<and> retrieve_len (rt_data s) \<le> 0 then chunk_header E P timer s
       else Some (Inr (uint32 (retrieve_len (rt_data s))), s));
     case r of Inl rc \<Rightarrow> Some (rc, s)
     | Inr readLen \<Rightarrow> do {
         (r, s) \<leftarrow> body_loop E P timer readLen s;
         case r of Some rc \<Rightarrow> Some (rc, s)
         | None \<Rightarrow>
             if is_chunked (rt_data s) then do {
               (r, s) \<leftarrow> chunk_end E P timer s;
               case r of Some rc \<Rightarrow> Some (rc, s) | None \<Rightarrow> content_loop E P timer s }
             else Some (QCLOUD_RET_SUCCESS, s\<lparr>rt_data := (rt_data s)\<lparr>is_more := False\<rparr>\<rparr>) } }"

definition http_client_retrieve_content ::
  "'w hal \<Rightarrow> 'w platform \<Rightarrow> HTTPClient \<Rightarrow> buffer \<Rightarrow> int \<Rightarrow> nat \<Rightarrow> HTTPClientData \<Rightarrow> 'w \<Rightarrow> (int \<times> 'w http_st) option" where
  "http_client_retrieve_content E P client data len timeout_ms d w =
     (let (timer, w) = countdown_ms E timeout_ms w;
          s = \<lparr>rt_client = client, rt_data = d\<lparr>is_more := True\<rparr>, rt_buf = data, rt_len = len, rt_count = 0, rt_world = w\<rparr> in
      if response_content_len d = -1 \<and> \<not> is_chunked d then until_close_loop E P timer s
      else content_loop E P timer s)"

text \<open>\<open>atoi\<close>, which is undefined for a number outside the type.\<close>

definition atoi :: "cstring \<Rightarrow> int option" where
  "atoi s = (let (neg, t) = scan_sign (dropWhile is_space s); n = int (scan_digits 10 t 0); i = (if neg then - n else n) in
     if - (2 ^ 31) \<le> i \<and> i < 2 ^ 31 then Some i else None)"

text \<open>The fields of the header: the length of the content, the chunked encoding, or the end of the connection.\<close>

definition response_fields :: "buffer \<Rightarrow> HTTPClientData \<Rightarrow> (int \<times> HTTPClientData) option" where
  "response_fields data d = do {
     r \<leftarrow> strstr_from (chars ''Content-Length'') data 0;
     case r of
       Some p \<Rightarrow> do {
         t \<leftarrow> text_at data (p + 16);
         n \<leftarrow> atoi t;
         Some (QCLOUD_RET_SUCCESS, d\<lparr>response_content_len := n, retrieve_len := n\<rparr>) }
     | None \<Rightarrow> do {
         r \<leftarrow> strstr_from (chars ''Transfer-Encoding'') data 0;
         if r = None then Some (QCLOUD_ERR_HTTP, d)
         else do {
           v \<leftarrow> mem_slice data 19 7;
           Some (QCLOUD_RET_SUCCESS,
             if v = chars ''Chunked'' \<or> v = chars ''chunked'' then d\<lparr>is_chunked := True, response_content_len := 0, retrieve_len := 0\<rparr>
             else d) } } }"

definition http_client_response_parse ::
  "'w hal \<Rightarrow> 'w platform \<Rightarrow> HTTPClient \<Rightarrow> buffer \<Rightarrow> int \<Rightarrow> nat \<Rightarrow> HTTPClientData \<Rightarrow> 'w \<Rightarrow> (int \<times> 'w http_st) option" where
  "http_client_response_parse E P client data len timeout_ms d w = do {
     let (timer, w) = countdown_ms E timeout_ms w;
     let s = \<lparr>rt_client = client, rt_data = d\<lparr>response_content_len := -1\<rparr>, rt_buf = data, rt_len = len, rt_count = 0, rt_world = w\<rparr>;
     r \<leftarrow> strstr_from [CR, LF] data 0;
     case r of None \<Rightarrow> Some (QCLOUD_ERR_HTTP_UNRESOLVED_DNS, s)
     | Some crlf_pos \<Rightarrow> do {
         data \<leftarrow> mem_write data crlf_pos 0;
         t \<leftarrow> text_at data 9;
         code \<leftarrow> atoi t;
         let s = s\<lparr>rt_client := client\<lparr>response_code := code\<rparr>, rt_buf := data\<rparr>;
         if code = 403 then Some (QCLOUD_ERR_HTTP_AUTH, s)
         else if code = 404 then Some (QCLOUD_ERR_HTTP_NOT_FOUND, s)
         else do {
           s \<leftarrow> rt_shift (crlf_pos + 2) (len - int (crlf_pos + 2) + 1) s;
           let s = s\<lparr>rt_len := len - int (crlf_pos + 2), rt_data := (rt_data s)\<lparr>is_chunked := False\<rparr>\<rparr>;
           body \<leftarrow> strstr_from [CR, LF, CR, LF] (rt_buf s) 0;
           (r, s) \<leftarrow> (case body of Some e \<Rightarrow> Some (Inr e, s)
             | None \<Rightarrow> do {
                 (rc, new, s) \<leftarrow> rt_recv E P timer (rt_len s) (int HTTP_CLIENT_CHUNK_SIZE - rt_len s - 1) s;
                 if rc \<noteq> QCLOUD_RET_SUCCESS then Some (Inl rc, s)
                 else do {
                   let s = s\<lparr>rt_len := rt_len s + new\<rparr>;
                   b \<leftarrow> (if rt_len s < 0 then None else mem_write (rt_buf s) (nat (rt_len s)) 0);
                   body \<leftarrow> strstr_from [CR, LF, CR, LF] b 0;
                   Some (case body of None \<Rightarrow> Inl QCLOUD_ERR_FAILURE | Some e \<Rightarrow> Inr e, s\<lparr>rt_buf := b\<rparr>) } });
           case r of Inl rc \<Rightarrow> Some (rc, s)
           | Inr e \<Rightarrow> do {
               (rc, d) \<leftarrow> response_fields (rt_buf s) (rt_data s);
               if rc \<noteq> QCLOUD_RET_SUCCESS then Some (rc, s\<lparr>rt_data := d\<rparr>)
               else do {
                 let len = rt_len s - int (e + 4);
                 s \<leftarrow> rt_shift (e + 4) (len + 1) s;
                 let (left, s) = rt_left E timer s;
                 http_client_retrieve_content E P (rt_client s) (rt_buf s) len (uint32 left) d (rt_world s) } } } } }"

definition http_client_recv_response ::
  "'w hal \<Rightarrow> 'w platform \<Rightarrow> HTTPClient \<Rightarrow> nat \<Rightarrow> HTTPClientData \<Rightarrow> 'w \<Rightarrow> (int \<times> HTTPClient \<times> HTTPClientData \<times> 'w) option" where
  "http_client_recv_response E P client timeout_ms d w =
     (let (timer, w) = countdown_ms E timeout_ms w; buf = replicate HTTP_CLIENT_CHUNK_SIZE 0 in
      if net_handle (network_stack client) = 0 then Some (QCLOUD_ERR_HTTP_CONN, client, d, w)
      else if is_more d then do {
        r \<leftarrow> response_buf d;
        r \<leftarrow> mem_write r 0 0;
        let (left, w) = left_ms E timer w;
        (rc, s) \<leftarrow> http_client_retrieve_content E P client buf 0 (uint32 left) (d\<lparr>response_buf := Some r\<rparr>) w;
        Some (rc, rt_client s, rt_data s, rt_world s) }
      else do {
        let d = d\<lparr>is_more := True\<rparr>;
        let (left, w) = left_ms E timer w;
        (rc, reclen, buf, client, w) \<leftarrow> http_client_recv E P client buf 0 (int HTTP_CLIENT_CHUNK_SIZE - 1) (uint32 left) w;
        if rc \<noteq> QCLOUD_RET_SUCCESS then Some (rc, client, d, w)
        else do {
          buf \<leftarrow> mem_write buf (nat reclen) 0;
          if reclen = 0 then Some (rc, client, d, w)
          else do {
            let (left, w) = left_ms E timer w;
            (rc, s) \<leftarrow> http_client_response_parse E P client buf reclen (uint32 left) d w;
            Some (rc, rt_client s, rt_data s, rt_world s) } } })"

subsection \<open>The interface\<close>

definition http_network_init :: "network \<Rightarrow> cstring \<Rightarrow> int \<Rightarrow> cstring option \<Rightarrow> int \<times> network" where
  "http_network_init n host port ca_crt =
     network_init (n\<lparr>net_type := (if ca_crt = None then NETWORK_TCP else NETWORK_TLS),
       net_ca := (if ca_crt = None then net_ca n else ca_crt), net_host := host, net_port := port\<rparr>)"

definition http_client_connect :: "'w platform \<Rightarrow> HTTPClient \<Rightarrow> 'w \<Rightarrow> int \<times> HTTPClient \<times> 'w" where
  "http_client_connect P client w =
     (let (rc, n, w) = network_connect P (network_stack client) w in
      (if rc \<noteq> QCLOUD_RET_SUCCESS then QCLOUD_ERR_HTTP_CONN else QCLOUD_RET_SUCCESS, client\<lparr>network_stack := n\<rparr>, w))"

definition qcloud_http_client_close :: "'w platform \<Rightarrow> HTTPClient \<Rightarrow> 'w \<Rightarrow> HTTPClient \<times> 'w" where
  "qcloud_http_client_close P client w =
     (if net_handle (network_stack client) \<noteq> 0 then
        let (n, w) = network_disconnect P (network_stack client) w in (client\<lparr>network_stack := n\<rparr>, w)
      else (client, w))"

definition qcloud_http_client_connect ::
  "'w platform \<Rightarrow> HTTPClient \<Rightarrow> cstring \<Rightarrow> int \<Rightarrow> cstring option \<Rightarrow> 'w \<Rightarrow> (int \<times> HTTPClient \<times> 'w) option" where
  "qcloud_http_client_connect P client url port ca_crt w =
     (if net_handle (network_stack client) \<noteq> 0 then Some (QCLOUD_ERR_HTTP_CONN, client, w)
      else do {
        (rc, host) \<leftarrow> http_client_parse_host url (replicate HTTP_CLIENT_MAX_HOST_LEN 0) HTTP_CLIENT_MAX_HOST_LEN;
        if rc \<noteq> QCLOUD_RET_SUCCESS then Some (rc, client, w)
        else do {
          host \<leftarrow> text_at host 0;
          let (rc, n) = http_network_init (network_stack client) host port ca_crt;
          let client = client\<lparr>network_stack := n\<rparr>;
          if rc \<noteq> QCLOUD_RET_SUCCESS then Some (rc, client, w)
          else
            let (rc, client, w) = http_client_connect P client w in
            if rc \<noteq> QCLOUD_RET_SUCCESS then let (client, w) = qcloud_http_client_close P client w in Some (rc, client, w)
            else Some (rc, client, w) } })"

definition qcloud_http_client_common ::
  "'w platform \<Rightarrow> HTTPClient \<Rightarrow> cstring \<Rightarrow> int \<Rightarrow> cstring option \<Rightarrow> HttpMethod \<Rightarrow> HTTPClientData \<Rightarrow> 'w \<Rightarrow> (int \<times> HTTPClient \<times> 'w) option" where
  "qcloud_http_client_common P client url port ca_crt meth d w = do {
     (rc, client, w) \<leftarrow> (if net_handle (network_stack client) = 0 then qcloud_http_client_connect P client url port ca_crt w
       else Some (QCLOUD_RET_SUCCESS, client, w));
     if rc \<noteq> QCLOUD_RET_SUCCESS then Some (rc, client, w)
     else do {
       (rc, w) \<leftarrow> http_client_send_request P client url meth d w;
       if rc \<noteq> QCLOUD_RET_SUCCESS then let (client, w) = qcloud_http_client_close P client w in Some (rc, client, w)
       else Some (QCLOUD_RET_SUCCESS, client, w) } }"

definition qcloud_http_recv_data ::
  "'w hal \<Rightarrow> 'w platform \<Rightarrow> HTTPClient \<Rightarrow> nat \<Rightarrow> HTTPClientData \<Rightarrow> 'w \<Rightarrow> (int \<times> HTTPClient \<times> HTTPClientData \<times> 'w) option" where
  "qcloud_http_recv_data E P client timeout_ms d w =
     (let (timer, w) = countdown_ms E timeout_ms w in
      if response_buf d \<noteq> None \<and> response_buf_len d \<noteq> 0 then do {
        let (left, w) = left_ms E timer w;
        (rc, client, d, w) \<leftarrow> http_client_recv_response E P client (uint32 left) d w;
        if rc < 0 then let (client, w) = qcloud_http_client_close P client w in Some (rc, client, d, w)
        else Some (QCLOUD_RET_SUCCESS, client, d, w) }
      else Some (QCLOUD_RET_SUCCESS, client, d, w))"

end
