(* ===== verification/Http_Content.thy ===== *)
theory Http_Content
  imports Http_Client "HOL-Library.Sublist"
begin

text \<open>
  The content of a response whose header gives its length: what arrives in the caller's buffer, over any number of
  calls, is what the network delivers, byte by byte and in order. The network is any platform whose world records
  what has been read (\<open>got\<close>) and in which it cannot deliver nothing for ever (\<open>stalls\<close>).
\<close>

section \<open>A network that is recorded\<close>

definition quiet_codes :: "int set" where
  "quiet_codes = {QCLOUD_RET_SUCCESS, QCLOUD_ERR_SSL_NOTHING_TO_READ, QCLOUD_ERR_TCP_NOTHING_TO_READ,
     QCLOUD_ERR_SSL_READ_TIMEOUT, QCLOUD_ERR_TCP_READ_TIMEOUT}"

definition records :: "'w hal \<Rightarrow> 'w platform \<Rightarrow> ('w \<Rightarrow> buffer) \<Rightarrow> ('w \<Rightarrow> nat) \<Rightarrow> bool" where
  "records E P got stalls \<longleftrightarrow>
     (\<forall>k h n t w rc bs w'. op_read (P k) h n t w = ((rc, bs), w') \<longrightarrow>
        got w' = got w @ take n bs \<and> rc \<le> 0 \<and> stalls w' \<le> stalls w \<and> (n > 0 \<and> bs = [] \<and> rc \<in> quiet_codes \<longrightarrow> stalls w' < stalls w))
     \<and> (\<forall>w. got (snd (hal_time E w)) = got w \<and> stalls (snd (hal_time E w)) = stalls w)
     \<and> (\<forall>k h w. got (op_disconnect (P k) h w) = got w \<and> stalls (op_disconnect (P k) h w) = stalls w)"

text \<open>A network for examples: packets in order, then the end of the connection.\<close>

type_synonym feed = "u32 \<times> buffer list \<times> buffer"

fun feed_read :: "nat \<Rightarrow> feed \<Rightarrow> (int \<times> buffer) \<times> feed" where
  "feed_read n (t, [], g) = ((QCLOUD_ERR_TCP_PEER_SHUTDOWN, []), t, [], g)"
| "feed_read n (t, p # ps, g) =
     (if length p \<le> n then ((QCLOUD_RET_SUCCESS, p), t, ps, g @ p)
      else ((QCLOUD_RET_SUCCESS, take n p), t, drop n p # ps, g @ take n p))"

definition feed_platform :: "feed platform" where
  "feed_platform = (\<lambda>_. \<lparr>op_connect = (\<lambda>_ _ _ w. (1, w)), op_disconnect = (\<lambda>_ w. w),
     op_write = (\<lambda>_ b _ w. ((0, length b), w)), op_read = (\<lambda>_ n _ w. feed_read n w)\<rparr>)"

definition feed_hal :: "feed hal" where
  "feed_hal = \<lparr>hal_time = (\<lambda>(t, ps, g). (t, t + 1, ps, g)), hal_malloc = (\<lambda>w. (True, w)), hal_rand = (\<lambda>w. (0, w)),
     net_connect = (\<lambda>w. (0, w)), net_disconnect = (\<lambda>w. w), net_write = (\<lambda>bs t w. ((0, length bs), w)),
     net_read = (\<lambda>n t w. feed_read n w), cfg_rmdup = False\<rparr>"

lemma feed_records: "records feed_hal feed_platform (\<lambda>(t, ps, g). g) (\<lambda>(t, ps, g). length ps)"
proof -
  have "(case w' of (t, ps, g) \<Rightarrow> g) = (case w of (t, ps, g) \<Rightarrow> g) @ take n bs \<and> rc \<le> 0
      \<and> (case w' of (t, ps, g) \<Rightarrow> length ps) \<le> (case w of (t, ps, g) \<Rightarrow> length ps)
      \<and> (n > 0 \<and> bs = [] \<and> rc \<in> quiet_codes \<longrightarrow> (case w' of (t, ps, g) \<Rightarrow> length ps) < (case w of (t, ps, g) \<Rightarrow> length ps))"
    if "feed_read n w = ((rc, bs), w')" for n w rc bs w'
    using that by (cases "(n, w)" rule: feed_read.cases) (auto simp: quiet_codes_def split: if_splits)
  then show ?thesis by (auto simp: records_def feed_platform_def feed_hal_def)
qed

section \<open>Steps\<close>

lemma uint32_int [simp]: "n < 2 ^ 32 \<Longrightarrow> uint32 (int n) = n"
  by (simp add: uint32_def nat_mod_distrib)

lemma uint32_nonneg: "0 \<le> i \<Longrightarrow> i < 2 ^ 32 \<Longrightarrow> uint32 i = nat i"
  by (simp add: uint32_def)

lemma int32_small [simp]: "n < 2 ^ 31 \<Longrightarrow> int32 n = int n"
  by (simp add: int32_def signed_def)

lemma rt_left_world:
  assumes "records E P got stalls" and "rt_left E timer s = (left, s')"
  shows "\<exists>w'. s' = s\<lparr>rt_world := w'\<rparr> \<and> got w' = got (rt_world s) \<and> stalls w' = stalls (rt_world s)"
  using assms by (auto simp: rt_left_def left_ms_def records_def Let_def split: prod.splits) (metis snd_conv)+

lemma recv_exact:
  assumes "records E P got stalls" and "0 < m" and "m < 2 ^ 32" and "m \<le> length buf"
  shows "\<exists>rc bs client' w'. http_client_recv E P client buf 0 (int m) t w = Some (rc, int (length bs), overlay buf 0 bs, client', w')
    \<and> length bs \<le> m \<and> got w' = got w @ bs \<and> rc \<le> 0 \<and> stalls w' \<le> stalls w \<and> (rc = 0 \<and> bs = [] \<longrightarrow> stalls w' < stalls w)"
proof -
  obtain timer w1 where w1: "countdown_ms E t w = (timer, w1)" by force
  obtain left w2 where w2: "left_ms E timer w1 = (left, w2)" by force
  obtain rc bs w3 where r: "network_read P (network_stack client) m (int (uint32 left)) w2 = ((rc, bs), w3)" by (metis surj_pair)
  have g: "got w2 = got w" "stalls w2 = stalls w"
    using assms(1) w1 w2 by (auto simp: records_def countdown_ms_def left_ms_def Let_def split: prod.splits) (metis snd_conv)+
  have h: "got w3 = got w @ take m bs" "rc \<le> 0" "stalls w3 \<le> stalls w" "bs = [] \<and> rc \<in> quiet_codes \<longrightarrow> stalls w3 < stalls w"
    using assms(1,2) r unfolding records_def network_read_def g [symmetric] by blast+
  define xs where "xs = take m bs"
  have c: "mem_copy buf 0 xs = Some (overlay buf 0 xs)" "length xs \<le> m" using assms(4) by (auto simp: mem_copy_def xs_def)
  have d: "got (snd (network_disconnect P n w)) = got w \<and> stalls (snd (network_disconnect P n w)) = stalls w" for n w
    using assms(1) by (auto simp: network_disconnect_def records_def)
  have x: "xs = [] \<longleftrightarrow> bs = []" using assms(2) by (auto simp: xs_def)
  obtain n' w4 where q: "network_disconnect P (network_stack client) w3 = (n', w4)" by force
  have "got w4 = got w3" "stalls w4 = stalls w3" using d [of "network_stack client" w3] q by auto
  then show ?thesis
    using h c x unfolding http_client_recv_def w1 w2 Let_def prod.case uint32_int [OF assms(3)] r xs_def [symmetric]
    by (cases "rc = QCLOUD_ERR_TCP_PEER_SHUTDOWN") (auto simp: q quiet_codes_def)
qed

lemma rt_recv_exact:
  assumes "records E P got stalls" and "0 < m" and "m < 2 ^ 32" and "m \<le> length (rt_buf s)"
  shows "\<exists>rc bs client' w'. rt_recv E P timer 0 (int m) s
      = Some (rc, int (length bs), s\<lparr>rt_buf := overlay (rt_buf s) 0 bs, rt_client := client', rt_world := w'\<rparr>)
    \<and> length bs \<le> m \<and> got w' = got (rt_world s) @ bs \<and> rc \<le> 0 \<and> stalls w' \<le> stalls (rt_world s)
    \<and> (rc = 0 \<and> bs = [] \<longrightarrow> stalls w' < stalls (rt_world s))"
proof -
  obtain left s1 where l: "rt_left E timer s = (left, s1)" by force
  then obtain w1 where w1: "s1 = s\<lparr>rt_world := w1\<rparr>" "got w1 = got (rt_world s)" "stalls w1 = stalls (rt_world s)"
    using rt_left_world [OF assms(1)] by blast
  obtain rc bs client' w' where r: "http_client_recv E P (rt_client s) (rt_buf s) 0 (int m) (uint32 left) w1
      = Some (rc, int (length bs), overlay (rt_buf s) 0 bs, client', w')"
    "length bs \<le> m" "got w' = got w1 @ bs" "rc \<le> 0" "stalls w' \<le> stalls w1" "rc = 0 \<and> bs = [] \<longrightarrow> stalls w' < stalls w1"
    using recv_exact [OF assms, where t = "uint32 left" and client = "rt_client s" and w = w1] by blast
  show ?thesis
    by (rule exI [of _ rc], rule exI [of _ bs], rule exI [of _ client'], rule exI [of _ w'])
      (use r w1 in \<open>simp add: rt_recv_def l\<close>)
qed

lemma clock_got:
  "records E P got stalls \<Longrightarrow> got (snd (countdown_ms E t w)) = got w \<and> got (snd (left_ms E timer w)) = got w"
  by (auto simp: records_def countdown_ms_def left_ms_def Let_def split: prod.splits) (metis snd_conv)+

lemma close_got: "records E P got stalls \<Longrightarrow> got (snd (qcloud_http_client_close P client w)) = got w"
  by (auto simp: records_def qcloud_http_client_close_def network_disconnect_def Let_def split: prod.splits if_splits)

lemma overlay_behind:
  "ys \<noteq> [] \<Longrightarrow> p + length xs + length ys \<le> length b \<Longrightarrow> overlay (overlay b p (xs @ [z])) (p + length xs) ys = overlay b p (xs @ ys)"
  by (cases ys) (auto simp: overlay_def min_def not_le add.commute add.left_commute dest: fits_past_end)

lemma rt_store_exact:
  assumes "response_buf (rt_data s) = Some r" and "n \<le> length (rt_buf s)" and "rt_count s = int c" and "c + n < length r"
  shows "rt_store n (int (c + n)) s = Some (s\<lparr>rt_data := (rt_data s)\<lparr>response_buf := Some (overlay r c (take n (rt_buf s) @ [0]))\<rparr>\<rparr>)"
proof -
  have "mem_write (overlay r c (take n (rt_buf s))) (c + n) 0 = Some (overlay r c (take n (rt_buf s) @ [0]))"
    using assms(2,4) overlay_overlay [of c "take n (rt_buf s)" "[0]" r] by (simp add: mem_write_overlay)
  then show ?thesis using assms by (simp add: rt_store_def mem_slice_def mem_copy_def flip: of_nat_add)
qed

section \<open>The content\<close>

text \<open>What a call leaves when it has stored the bytes \<open>ys\<close> behind the first \<open>c\<close> of the response buffer \<open>r\<close>.\<close>

definition stored :: "HTTPClientData \<Rightarrow> buffer \<Rightarrow> nat \<Rightarrow> buffer \<Rightarrow> HTTPClientData \<Rightarrow> bool" where
  "stored d r c ys d' \<longleftrightarrow> d' = d\<lparr>response_buf := Some (overlay r c (ys @ [0])), retrieve_len := retrieve_len d - int (length ys)\<rparr>"

text \<open>The loop over the bytes, for the length known and the room positive: \<open>n\<close> bytes are to come, the first of
  them in the block.\<close>

lemma body_exact:
  assumes "records E P got stalls"
    and "rt_len s = int l" "l \<le> n" "n < 2 ^ 31" "length (rt_buf s) = 1024" "l \<le> 1024"
    and "retrieve_len (rt_data s) = int n" "response_buf (rt_data s) = Some r" "rt_count s = int c"
    and "response_buf_len (rt_data s) = int b" "b \<le> length r" "b < 2 ^ 31" "c + l < b"
  shows "\<exists>v s' xs. body_loop E P timer n s = Some (v, s') \<and> got (rt_world s') = got (rt_world s) @ xs
    \<and> (case v of None \<Rightarrow> l + length xs = n \<and> c + n + 1 < b \<and> stored (rt_data s) r c (take l (rt_buf s) @ xs) (rt_data s')
       | Some rc \<Rightarrow> rc < 0 \<or> rc = HTTP_RETRIEVE_MORE_DATA \<and> c + l + length xs + 1 = b \<and> l + length xs \<le> n
           \<and> stored (rt_data s) r c (take l (rt_buf s) @ xs) (rt_data s'))"
  using assms(2-)
proof (induction "n - l + stalls (rt_world s)" arbitrary: n s l c r rule: less_induct)
  case less
  note a = less.prems
  have t: "int32 (min (uint32 (rt_len s)) n) = int l" using a(1-3) by (simp add: min_def)
  have room: "rt_room s = int (b - 1 - c)" using a(8,9,12) by (simp add: rt_room_def of_nat_diff)
  show ?case
  proof (cases "c + l + 1 < b")
    case False
    then have l: "l = b - 1 - c" "c + l < length r" using a(10,12) by auto
    have f: "rt_fill s = Some (s\<lparr>rt_data := (rt_data s)\<lparr>response_buf := Some (overlay r c (take l (rt_buf s) @ [0]))\<rparr>\<rparr>)"
    proof -
      have "uint32 (rt_room s) = l" unfolding room by (subst uint32_int) (use a(11) l(1) in simp_all)
      moreover have "response_buf_len (rt_data s) - 1 = int (c + l)" using a(9,12) l(1) by simp
      ultimately show ?thesis using rt_store_exact [OF a(7) _ a(8) l(2)] a(4,5) by (simp add: rt_fill_def)
    qed
    define s1 where "s1 = s\<lparr>rt_data := (rt_data s)\<lparr>response_buf := Some (overlay r c (take l (rt_buf s) @ [0])),
      retrieve_len := int n - int l\<rparr>\<rparr>"
    have big: "\<not> rt_count s + int l < response_buf_len (rt_data s) - 1" "rt_room s = int l" using False a(8,9) l(1) room by auto
    have "body_loop E P timer n s = Some (Some HTTP_RETRIEVE_MORE_DATA, s1)"
      using big a(6) by (subst body_loop.simps) (simp add: t f s1_def Let_def)
    moreover have "c + l + 1 = b" using l(1) a(12) by simp
    ultimately show ?thesis
      using a(2,4,5,6) by (intro exI [of _ "Some HTTP_RETRIEVE_MORE_DATA"] exI [of _ s1] exI [of _ "[]"]) (simp add: stored_def s1_def)
  next
    case True
    define r' where "r' = overlay r c (take l (rt_buf s) @ [0])"
    define s1 where "s1 = s\<lparr>rt_count := int (c + l), rt_data := (rt_data s)\<lparr>response_buf := Some r', retrieve_len := int (n - l)\<rparr>\<rparr>"
    have f: "rt_store (uint32 (int l)) (rt_count s + int l) s = Some (s\<lparr>rt_data := (rt_data s)\<lparr>response_buf := Some r'\<rparr>\<rparr>)"
      using rt_store_exact [OF a(7) _ a(8), of l] a(4,5,8,10,12) by (simp add: r'_def)
    have u: "uint32 (rt_len s) = l" using a(1,5) by simp
    have fits: "rt_count s + int l < response_buf_len (rt_data s) - 1" using True a(8,9) by simp
    have e: "rt_count s + int l = int (c + l)" "retrieve_len (rt_data s) - int l = int (n - l)" "\<not> l > n"
      using a(2,6,8) by auto
    define m' where "m' = int32 (min (uint32 (min (int HTTP_CLIENT_CHUNK_SIZE - 1) (rt_room s1))) (n - l))"
    have step: "body_loop E P timer n s = (if n - l = 0 then Some (None, s1)
        else do {
          (rc, len, s) \<leftarrow> rt_recv E P timer 0 m' s1;
          let s = s\<lparr>rt_len := len\<rparr>;
          if rc \<noteq> QCLOUD_RET_SUCCESS then Some (Some rc, s)
          else
            let (left, s) = rt_left E timer s in
            if left = 0 then Some (Some QCLOUD_ERR_HTTP_TIMEOUT, s) else body_loop E P timer (n - l) s })"
    proof -
      have "l < 2147483648" "min l n = l" using a(2,3) by simp_all
      then show ?thesis using fits f u e unfolding m'_def by (subst body_loop.simps) (simp add: t Let_def s1_def)
    qed
    show ?thesis
    proof (cases "l = n")
      case True
      have "body_loop E P timer n s = Some (None, s1)" unfolding step using True by simp
      then show ?thesis
        using True \<open>c + l + 1 < b\<close> a(4-6) by (intro exI [of _ None] exI [of _ s1] exI [of _ "[]"]) (simp add: stored_def s1_def r'_def)
    next
      case False
      then have ln: "l < n" using a(2) by simp
      define m where "m = min (min 1023 (b - 1 - (c + l))) (n - l)"
      have m: "0 < m" "m \<le> 1023" "m \<le> n - l" "c + l + m < b" using ln \<open>c + l + 1 < b\<close> by (auto simp: m_def)
      have room1: "rt_room s1 = int (b - 1 - (c + l))" using a(9,12) \<open>c + l + 1 < b\<close> by (simp add: rt_room_def s1_def of_nat_diff)
      have min_i: "min (int HTTP_CLIENT_CHUNK_SIZE - 1) (rt_room s1) = int (min 1023 (b - 1 - (c + l)))"
        unfolding room1 by (simp add: HTTP_CLIENT_CHUNK_SIZE_def of_nat_min)
      have mm: "int32 (min (uint32 (min (int HTTP_CLIENT_CHUNK_SIZE - 1) (rt_room s1))) (n - l)) = int m"
        unfolding min_i using m(2) by (simp add: m_def)
      have sz: "m \<le> length (rt_buf s1)" "m < 2 ^ 32" using a(4) m(2) by (simp_all add: s1_def)
      obtain rc bs client' w' where rc: "rt_recv E P timer 0 (int m) s1
          = Some (rc, int (length bs), s1\<lparr>rt_buf := overlay (rt_buf s1) 0 bs, rt_client := client', rt_world := w'\<rparr>)"
        "length bs \<le> m" "got w' = got (rt_world s1) @ bs" "rc \<le> 0" "stalls w' \<le> stalls (rt_world s1)"
        "rc = 0 \<and> bs = [] \<longrightarrow> stalls w' < stalls (rt_world s1)"
        using rt_recv_exact [OF assms(1) m(1) sz(2,1), of timer] by blast
      define s2 where "s2 = s1\<lparr>rt_buf := overlay (rt_buf s1) 0 bs, rt_client := client', rt_world := w', rt_len := int (length bs)\<rparr>"
      obtain left s3 where s3: "rt_left E timer s2 = (left, s3)" by force
      then obtain w3 where w3: "s3 = s2\<lparr>rt_world := w3\<rparr>" "got w3 = got w'" "stalls w3 = stalls w'"
        using rt_left_world [OF assms(1)] unfolding s2_def by fastforce
      have step: "body_loop E P timer n s = (if rc \<noteq> 0 then Some (Some rc, s2)
          else if left = 0 then Some (Some QCLOUD_ERR_HTTP_TIMEOUT, s3) else body_loop E P timer (n - l) s3)"
        unfolding step using ln rc(1) mm s3 by (simp add: m'_def s2_def Let_def)
      show ?thesis
      proof (cases "rc = 0 \<and> left \<noteq> 0")
        case False
        have g: "got (rt_world s2) = got (rt_world s) @ bs" "got (rt_world s3) = got (rt_world s) @ bs"
          using rc(3) w3 by (simp_all add: s1_def s2_def)
        show ?thesis unfolding step using False rc(4) g by auto
      next
        case True
        have fin: "length bs \<le> n - l" "length bs \<le> 1024" "c + l + length bs < b" using rc(2) m by auto
        have lr': "length r' = length r" using a(4,5,10,12) by (simp add: r'_def)
        have dec: "n - l - length bs + stalls (rt_world s3) < n - l + stalls (rt_world s)"
          using rc(2,5,6) True w3(1,3) ln fin(1) by (cases bs) (auto simp: s1_def)
        have pre: "rt_len s3 = int (length bs)" "n - l < 2 ^ 31" "length (rt_buf s3) = 1024" "retrieve_len (rt_data s3) = int (n - l)"
          "response_buf (rt_data s3) = Some r'" "rt_count s3 = int (c + l)" "response_buf_len (rt_data s3) = int b" "b \<le> length r'"
          "c + l + length bs < b" "take (length bs) (rt_buf s3) = bs"
          using a(3,4,9,10) fin lr' by (simp_all add: w3(1) s2_def s1_def overlay_def)
        obtain v s' xs where v: "body_loop E P timer (n - l) s3 = Some (v, s')" "got (rt_world s') = got (rt_world s3) @ xs"
          "case v of None \<Rightarrow> length bs + length xs = n - l \<and> c + l + (n - l) + 1 < b \<and> stored (rt_data s3) r' (c + l) (bs @ xs) (rt_data s')
           | Some rc \<Rightarrow> rc < 0 \<or> rc = HTTP_RETRIEVE_MORE_DATA \<and> c + l + length bs + length xs + 1 = b \<and> length bs + length xs \<le> n - l
               \<and> stored (rt_data s3) r' (c + l) (bs @ xs) (rt_data s')"
          using less.hyps [OF dec pre(1) fin(1) pre(2,3) fin(2) pre(4-7) pre(8) a(11) pre(9)] unfolding pre(10) by blast
        have ob: "overlay r' (c + l) (bs @ xs @ [0]) = overlay r c (take l (rt_buf s) @ bs @ xs @ [0])"
          if "c + l + length bs + length xs + 1 \<le> length r"
          using overlay_behind [of "bs @ xs @ [0]" c "take l (rt_buf s)" r 0] that a(4,5) by (simp add: r'_def)
        have st: "stored (rt_data s) r c (take l (rt_buf s) @ bs @ xs) (rt_data s')"
          if "stored (rt_data s3) r' (c + l) (bs @ xs) (rt_data s')" "c + l + length bs + length xs + 1 \<le> b"
          using that ob a(2,4,5,6,10) by (simp add: stored_def w3(1) s2_def s1_def of_nat_diff)
        have g: "got (rt_world s') = got (rt_world s) @ bs @ xs" using v(2) w3 rc(3) by (simp add: s1_def)
        have "body_loop E P timer n s = Some (v, s')" unfolding step using True v(1) by simp
        then show ?thesis
          using v(3) g st ln by (intro exI [of _ v] exI [of _ s'] exI [of _ "bs @ xs"]) (auto split: option.splits)
      qed
    qed
  qed
qed

text \<open>On success as much as the buffer holds has been stored, or all there is; only then there is no more.\<close>

definition delivered :: "HTTPClientData \<Rightarrow> buffer \<Rightarrow> nat \<Rightarrow> nat \<Rightarrow> buffer \<Rightarrow> HTTPClientData \<Rightarrow> bool" where
  "delivered d r n b ys d' \<longleftrightarrow> length ys = min n (b - 1)
     \<and> d' = d\<lparr>response_buf := Some (overlay r 0 (ys @ [0])), retrieve_len := int n - int (length ys), is_more := (b \<le> n + 1)\<rparr>"

lemma retrieve_exact:
  assumes "records E P got stalls" and "l \<le> n" "n < 2 ^ 31" "length data = 1024" "l \<le> 1024"
    and "\<not> is_chunked d" "response_content_len d \<noteq> -1"
    and "retrieve_len d = int n" "response_buf d = Some r" "response_buf_len d = int b" "b \<le> length r" "b < 2 ^ 31" "l < b"
  shows "\<exists>rc s xs. http_client_retrieve_content E P client data (int l) t d w = Some (rc, s) \<and> got (rt_world s) = got w @ xs
    \<and> (rc < 0 \<or> rc \<in> {QCLOUD_RET_SUCCESS, HTTP_RETRIEVE_MORE_DATA} \<and> delivered d r n b (take l data @ xs) (rt_data s))"
proof -
  obtain timer w1 where w1: "countdown_ms E t w = (timer, w1)" by force
  have g1: "got w1 = got w"
    using assms(1) w1 by (auto simp: records_def countdown_ms_def Let_def split: prod.splits) (metis snd_conv)
  define s where "s = \<lparr>rt_client = client, rt_data = d\<lparr>is_more := True\<rparr>, rt_buf = data, rt_len = int l, rt_count = 0, rt_world = w1\<rparr>"
  have sf: "rt_buf s = data" "got (rt_world s) = got w" using g1 by (simp_all add: s_def)
  have pre: "rt_len s = int l" "l \<le> n" "n < 2 ^ 31" "length (rt_buf s) = 1024" "l \<le> 1024" "retrieve_len (rt_data s) = int n"
    "response_buf (rt_data s) = Some r" "rt_count s = int 0" "response_buf_len (rt_data s) = int b" "b \<le> length r" "b < 2 ^ 31" "0 + l < b"
    using assms by (simp_all add: s_def)
  obtain v s' xs where v: "body_loop E P timer n s = Some (v, s')" "got (rt_world s') = got w @ xs"
    "case v of None \<Rightarrow> l + length xs = n \<and> 0 + n + 1 < b \<and> stored (rt_data s) r 0 (take l data @ xs) (rt_data s')
       | Some rc \<Rightarrow> rc < 0 \<or> rc = HTTP_RETRIEVE_MORE_DATA \<and> 0 + l + length xs + 1 = b \<and> l + length xs \<le> n
           \<and> stored (rt_data s) r 0 (take l data @ xs) (rt_data s')"
    using body_exact [OF assms(1) pre, of timer] unfolding sf by blast
  have run: "http_client_retrieve_content E P client data (int l) t d w
      = Some (case v of Some rc \<Rightarrow> (rc, s') | None \<Rightarrow> (QCLOUD_RET_SUCCESS, s'\<lparr>rt_data := (rt_data s')\<lparr>is_more := False\<rparr>\<rparr>))"
  proof -
    have "\<not> is_chunked (rt_data s)" "uint32 (retrieve_len (rt_data s)) = n" using assms(3,6,8) by (simp_all add: s_def)
    moreover have "\<not> is_chunked (rt_data s')" if "v = None" using v(3) that assms(6) by (simp add: stored_def s_def)
    moreover have "http_client_retrieve_content E P client data (int l) t d w = content_loop E P timer s"
      using assms(7) by (simp add: http_client_retrieve_content_def w1 s_def)
    ultimately show ?thesis using v(1) by (subst (asm) content_loop.simps) (simp split: option.splits)
  qed
  have len: "length (take l data) = l" using assms(4,5) by simp
  show ?thesis
  proof (cases v)
    case None
    then have "l + length xs = n" "n + 1 < b" "stored (rt_data s) r 0 (take l data @ xs) (rt_data s')" using v(3) by auto
    then show ?thesis using run v(2) assms(8) len unfolding None
      by (auto simp: delivered_def stored_def s_def intro!: exI [of _ xs])
  next
    case (Some rc)
    then have "rc < 0 \<or> rc = HTTP_RETRIEVE_MORE_DATA \<and> l + length xs + 1 = b \<and> l + length xs \<le> n
      \<and> stored (rt_data s) r 0 (take l data @ xs) (rt_data s')" using v(3) by auto
    then show ?thesis using run v(2) assms(8) len unfolding Some
      by (auto simp: delivered_def stored_def s_def intro!: exI [of _ xs])
  qed
qed


definition sample_client :: HTTPClient where
  "sample_client = \<lparr>response_code = 200, http_header = None, auth_user = None, auth_password = None,
     network_stack = \<lparr>net_type = NETWORK_TCP, net_host = [], net_port = 80, net_ca = None, net_handle = 1\<rparr>\<rparr>"

definition sample_data :: "int \<Rightarrow> buffer \<Rightarrow> HTTPClientData" where
  "sample_data n r = \<lparr>is_more = True, is_chunked = False, retrieve_len = n, response_content_len = n, post_buf_len = 0,
     response_buf_len = int (length r), post_content_type = None, post_buf = None, response_buf = Some r\<rparr>"


section \<open>The header\<close>

lemma strncmp_long: "length lit \<le> length bs \<Longrightarrow> strncmp_eq bs lit = Some (take (length lit) bs = lit)"
proof (induction lit arbitrary: bs)
  case (Cons c cs)
  then show ?case by (cases bs) auto
qed simp

lemma strstr_first:
  assumes "\<forall>i < length xs. take (length lit) (drop i (xs @ lit @ ys)) \<noteq> lit" and "0 \<notin> set xs" and "lit \<noteq> []"
  shows "strstr_from lit (xs @ lit @ ys) p = Some (Some (p + length xs))"
  using assms(1,2)
proof (induction xs arbitrary: p)
  case Nil
  then show ?case using assms(3) strncmp_long [of lit "lit @ ys"] by (cases lit) auto
next
  case (Cons x xs)
  have a: "\<forall>i < length xs. take (length lit) (drop i (xs @ lit @ ys)) \<noteq> lit" using Cons.prems(1) by (metis Suc_less_eq append_Cons drop_Suc_Cons length_Cons)
  have "take (length lit) (x # xs @ lit @ ys) \<noteq> lit" using Cons.prems(1) by (metis append_Cons drop0 length_greater_0_conv list.distinct(1))
  then show ?case using strncmp_long [of lit "x # xs @ lit @ ys"] Cons.IH [OF a] Cons.prems(2) by simp
qed

lemma strstr_sublist:
  assumes "\<not> sublist lit (xs @ butlast lit)" and "0 \<notin> set xs" and "lit \<noteq> []"
  shows "strstr_from lit (xs @ lit @ ys) p = Some (Some (p + length xs))"
proof (rule strstr_first [OF _ assms(2,3)], intro allI impI notI)
  fix i assume i: "i < length xs" and e: "take (length lit) (drop i (xs @ lit @ ys)) = lit"
  obtain l x where lit: "lit = l @ [x]" using assms(3) by (metis append_butlast_last_id)
  have "take (Suc (length l)) (drop i xs @ l @ x # ys) = take (Suc (length l)) (drop i xs @ l)"
    using i by (simp flip: append_assoc)
  then have "lit = take (length lit) (drop i (xs @ butlast lit))" using e i by (simp add: lit)
  then have "sublist lit (xs @ butlast lit)" by (metis sublist_drop sublist_take sublist_order.order.trans)
  then show False using assms(1) by simp
qed

lemma strlen_takeWhile: "0 \<in> set xs \<Longrightarrow> strlen xs = Some (length (takeWhile (\<lambda>c. c \<noteq> 0) xs))"
  by (induction xs) auto

lemma text_at_drop: "0 \<in> set (drop p b) \<Longrightarrow> text_at b p = Some (takeWhile (\<lambda>c. c \<noteq> 0) (drop p b))"
  by (simp add: text_at_def strlen_at_def strlen_takeWhile takeWhile_eq_take [symmetric])

lemma atoi_nat_text:
  assumes "n < 2 ^ 31" and "x = [] \<or> digit_val (hd x) \<ge> 10"
  shows "atoi (nat_text n @ x) = Some (int n)"
proof -
  obtain d ds where d: "nat_text n = d # ds" using nat_text_nonempty by (cases "nat_text n") auto
  have "\<not> is_space d" "d \<noteq> 0x2d" "d \<noteq> 0x2b" using digits_hd [OF digits_nat_text, of n] nat_text_nonempty d by auto
  then have "scan_sign (dropWhile is_space (nat_text n @ x)) = (False, nat_text n @ x)" by (simp add: d scan_sign_def)
  then show ?thesis using scan_nat_text [OF assms(2)] assms(1) by (simp add: atoi_def)
qed

text \<open>A response with a length: the status line \<open>st\<close>, header lines with the length among them, and the content.\<close>

definition CRLFCRLF :: buffer where "CRLFCRLF = [CR, LF, CR, LF]"
definition length_field :: buffer where "length_field = chars ''Content-Length''"

definition header_lines :: "buffer \<Rightarrow> nat \<Rightarrow> buffer \<Rightarrow> buffer" where
  "header_lines h n h' = h @ length_field @ chars '': '' @ nat_text n @ h'"

definition status_line :: "buffer \<Rightarrow> nat \<Rightarrow> buffer \<Rightarrow> buffer" where
  "status_line version code reason = version @ nat_text code @ reason"

definition good_response :: "buffer \<Rightarrow> nat \<Rightarrow> buffer \<Rightarrow> buffer \<Rightarrow> nat \<Rightarrow> buffer \<Rightarrow> bool" where
  "good_response version code reason h n h' \<longleftrightarrow>
     length version = 9 \<and> code < 2 ^ 31 \<and> code \<noteq> 403 \<and> code \<noteq> 404 \<and> n < 2 ^ 31
     \<and> (reason = [] \<or> digit_val (hd reason) \<ge> 10) \<and> (h' = [] \<or> digit_val (hd h') \<ge> 10)
     \<and> 0 \<notin> set (status_line version code reason) \<and> 0 \<notin> set (header_lines h n h')
     \<and> \<not> sublist [CR, LF] (status_line version code reason @ [CR])
     \<and> \<not> sublist CRLFCRLF (header_lines h n h' @ butlast CRLFCRLF)
     \<and> \<not> sublist length_field (h @ butlast length_field)"

lemma rt_shift_exact:
  assumes "rt_buf s = xs @ ys @ z" and "k = int (length ys)" and "length ys < 2 ^ 32"
  shows "\<exists>z'. rt_shift (length xs) k s = Some (s\<lparr>rt_buf := ys @ z'\<rparr>) \<and> length (ys @ z') = length (rt_buf s)"
  using assms
  by (intro exI [of _ "drop (length ys) (xs @ ys @ z)"]) (simp add: rt_shift_def mem_slice_def mem_copy_def overlay_def)

lemma takeWhile_head: "y \<noteq> [] \<Longrightarrow> P (hd y) \<Longrightarrow> takeWhile P y \<noteq> [] \<and> hd (takeWhile P y) = hd y"
  by (cases y) auto

lemma fields_exact:
  assumes "n < 2 ^ 31" "h' = [] \<or> digit_val (hd h') \<ge> 10" "0 \<notin> set (header_lines h n h')"
    and "\<not> sublist length_field (h @ butlast length_field)"
  shows "response_fields (header_lines h n h' @ CRLFCRLF @ x @ 0 # z) d
    = Some (QCLOUD_RET_SUCCESS, d\<lparr>response_content_len := int n, retrieve_len := int n\<rparr>)"
proof -
  define y where "y = h' @ CRLFCRLF @ x @ 0 # z"
  have ne: "length_field \<noteq> []" by (simp add: length_field_def chars_def)
  have b: "header_lines h n h' @ CRLFCRLF @ x @ 0 # z = h @ length_field @ (chars '': '' @ nat_text n @ y)"
    by (simp add: header_lines_def y_def)
  have f: "strstr_from length_field (h @ length_field @ (chars '': '' @ nat_text n @ y)) 0 = Some (Some (0 + length h))"
    using assms(3) by (intro strstr_sublist assms(4) ne) (simp add: header_lines_def)
  have l: "length length_field = 14" by (simp add: length_field_def)
  have dr: "drop (length h + 16) (h @ length_field @ (chars '': '' @ nat_text n @ y)) = nat_text n @ y" by (simp add: l)
  have z: "0 \<in> set (nat_text n @ y)" "\<forall>c \<in> set (nat_text n). c \<noteq> 0" using assms(3) by (auto simp: y_def header_lines_def)
  have hd: "y \<noteq> []" "hd y \<noteq> 0" "digit_val (hd y) \<ge> 10"
    using assms(2,3) by (cases h'; simp add: y_def CRLFCRLF_def header_lines_def digit_val_def)+
  have t: "text_at (h @ length_field @ (chars '': '' @ nat_text n @ y)) (length h + 16) = Some (nat_text n @ takeWhile (\<lambda>c. c \<noteq> 0) y)"
    using z text_at_drop [of "length h + 16" "h @ length_field @ (chars '': '' @ nat_text n @ y)"] unfolding dr by simp
  have "atoi (nat_text n @ takeWhile (\<lambda>c. c \<noteq> 0) y) = Some (int n)"
    using atoi_nat_text [OF assms(1)] takeWhile_head [of y] hd by simp
  then show ?thesis using f t unfolding b response_fields_def length_field_def [symmetric] by simp
qed


definition sample_head :: buffer where
  "sample_head = status_line (chars ''HTTP/1.1 '') 200 (chars '' OK'') @ [CR, LF] @ header_lines (chars ''Server: a'' @ [CR, LF]) 6 [] @ CRLFCRLF"

lemma sample_head_facts:
  "good_response (chars ''HTTP/1.1 '') 200 (chars '' OK'') (chars ''Server: a'' @ [CR, LF]) 6 []" "length sample_head = 49"
proof -
  have t: "chars ''HTTP/1.1 '' = [0x48, 0x54, 0x54, 0x50, 0x2f, 0x31, 0x2e, 0x31, 0x20]" "chars '' OK'' = [0x20, 0x4f, 0x4b]"
    "chars ''Server: a'' = [0x53, 0x65, 0x72, 0x76, 0x65, 0x72, 0x3a, 0x20, 0x61]" "chars '': '' = [0x3a, 0x20]"
    "length_field = [0x43, 0x6f, 0x6e, 0x74, 0x65, 0x6e, 0x74, 0x2d, 0x4c, 0x65, 0x6e, 0x67, 0x74, 0x68]"
    "nat_text 200 = [0x32, 0x30, 0x30]" "nat_text 6 = [0x36]"
    by (simp_all add: chars_def length_field_def nat_text.simps)
  show "good_response (chars ''HTTP/1.1 '') 200 (chars '' OK'') (chars ''Server: a'' @ [CR, LF]) 6 []"
    by (simp add: good_response_def status_line_def header_lines_def t CRLFCRLF_def digit_val_def sublist_Cons_right)
  show "length sample_head = 49"
    by (simp add: sample_head_def status_line_def header_lines_def t CRLFCRLF_def)
qed


end
