(* ===== verification/Ota_Lib.thy ===== *)
theory Ota_Lib
  imports Http_Content Hash_Hmac Json_Safety
begin

text \<open>
  The messages and checksums of the firmware update, \<^verbatim>\<open>ota_lib.c\<close>: the fields of a message of the cloud, the
  reports of the device, and the MD5 over what has been fetched. A message is a C string in a block: the block is
  read to its terminator. The temporary copies are only the allocations they make.
\<close>

abbreviation (input) IOT_OTA_ERR_FAIL :: int where "IOT_OTA_ERR_FAIL \<equiv> -1"
abbreviation (input) IOT_OTA_ERR_INVALID_PARAM :: int where "IOT_OTA_ERR_INVALID_PARAM \<equiv> -2"
abbreviation (input) IOT_OTA_ERR_INVALID_STATE :: int where "IOT_OTA_ERR_INVALID_STATE \<equiv> -3"
abbreviation (input) IOT_OTA_ERR_STR_TOO_LONG :: int where "IOT_OTA_ERR_STR_TOO_LONG \<equiv> -4"
abbreviation (input) IOT_OTA_ERR_FETCH_FAILED :: int where "IOT_OTA_ERR_FETCH_FAILED \<equiv> -5"
abbreviation (input) IOT_OTA_ERR_FETCH_NOT_EXIST :: int where "IOT_OTA_ERR_FETCH_NOT_EXIST \<equiv> -6"
abbreviation (input) IOT_OTA_ERR_FETCH_AUTH_FAIL :: int where "IOT_OTA_ERR_FETCH_AUTH_FAIL \<equiv> -7"
abbreviation (input) IOT_OTA_ERR_FETCH_TIMEOUT :: int where "IOT_OTA_ERR_FETCH_TIMEOUT \<equiv> -8"
abbreviation (input) IOT_OTA_ERR_NOMEM :: int where "IOT_OTA_ERR_NOMEM \<equiv> -9"
abbreviation (input) IOT_OTA_ERR_OSC_FAILED :: int where "IOT_OTA_ERR_OSC_FAILED \<equiv> -10"
abbreviation (input) IOT_OTA_ERR_REPORT_VERSION :: int where "IOT_OTA_ERR_REPORT_VERSION \<equiv> -11"

section \<open>Fields of a message\<close>

text \<open>
  The value of a key: nothing when a copy cannot be allocated, else what the JSON reader returns, with null for a
  missing key.
\<close>

definition otalib_value :: "'w hal \<Rightarrow> buffer \<Rightarrow> string \<Rightarrow> 'w \<Rightarrow> (cstring option option \<times> 'w) option" where
  "otalib_value E json key w =
     (let (ok, w) = hal_malloc E w in
      if \<not> ok then Some (None, w)
      else do {
        n \<leftarrow> strlen json;
        let (ok, w) = hal_malloc E w;
        if \<not> ok then Some (None, w)
        else do {
          (v, w) \<leftarrow> LITE_json_value_of E (chars key) (take n json @ [0]) 0 w;
          Some (Some v, w) } })"

text \<open>The code, the fixed block with the value copied to its start, and the world.\<close>

definition qcloud_otalib_get_firmware_fixlen_para ::
  "'w hal \<Rightarrow> buffer \<Rightarrow> string \<Rightarrow> buffer \<Rightarrow> nat \<Rightarrow> 'w \<Rightarrow> (int \<times> buffer \<times> 'w) option" where
  "qcloud_otalib_get_firmware_fixlen_para E json key dest dest_len w = do {
     (r, w) \<leftarrow> otalib_value E json key w;
     case r of Some (Some v) \<Rightarrow>
         if length v > dest_len then Some (IOT_OTA_ERR_FAIL, dest, w)
         else do { dest \<leftarrow> mem_copy dest 0 v; Some (QCLOUD_RET_SUCCESS, dest, w) }
     | _ \<Rightarrow> Some (IOT_OTA_ERR_FAIL, dest, w) }"

text \<open>The code, the pointer, which is set to null for a missing key and stays without memory, and the world.\<close>

definition qcloud_otalib_get_firmware_varlen_para ::
  "'w hal \<Rightarrow> buffer \<Rightarrow> string \<Rightarrow> cstring option \<Rightarrow> 'w \<Rightarrow> (int \<times> cstring option \<times> 'w) option" where
  "qcloud_otalib_get_firmware_varlen_para E json key dest w = do {
     (r, w) \<leftarrow> otalib_value E json key w;
     Some (case r of None \<Rightarrow> (IOT_OTA_ERR_FAIL, dest, w)
       | Some None \<Rightarrow> (IOT_OTA_ERR_FAIL, None, w)
       | Some (Some v) \<Rightarrow> (QCLOUD_RET_SUCCESS, Some v, w)) }"

definition qcloud_otalib_get_firmware_type :: "'w hal \<Rightarrow> buffer \<Rightarrow> cstring option \<Rightarrow> 'w \<Rightarrow> (int \<times> cstring option \<times> 'w) option" where
  "qcloud_otalib_get_firmware_type E json type w = qcloud_otalib_get_firmware_varlen_para E json ''type'' type w"

definition qcloud_otalib_get_report_version_result :: "'w hal \<Rightarrow> buffer \<Rightarrow> 'w \<Rightarrow> (int \<times> 'w) option" where
  "qcloud_otalib_get_report_version_result E json w = do {
     (rc, code, w) \<leftarrow> qcloud_otalib_get_firmware_varlen_para E json ''result_code'' None w;
     Some (if rc \<noteq> QCLOUD_RET_SUCCESS \<or> code \<noteq> Some (chars ''0'') then IOT_OTA_ERR_FAIL else QCLOUD_RET_SUCCESS, w) }"

text \<open>What \<open>qcloud_otalib_get_params\<close> is to fill in; each field is stored as soon as it is found.\<close>

record ota_params =
  par_type :: "cstring option"
  par_url :: "cstring option"
  par_version :: "cstring option"
  par_md5 :: buffer
  par_file_size :: nat

definition OTA_FILESIZE_STR_LEN :: nat where "OTA_FILESIZE_STR_LEN = 16"

definition qcloud_otalib_get_params :: "'w hal \<Rightarrow> buffer \<Rightarrow> ota_params \<Rightarrow> 'w \<Rightarrow> (int \<times> ota_params \<times> 'w) option" where
  "qcloud_otalib_get_params E json p w = do {
     (rc, v, w) \<leftarrow> qcloud_otalib_get_firmware_varlen_para E json ''type'' (par_type p) w;
     let p = p\<lparr>par_type := v\<rparr>;
     if rc \<noteq> 0 then Some (IOT_OTA_ERR_FAIL, p, w)
     else do {
       (rc, v, w) \<leftarrow> qcloud_otalib_get_firmware_varlen_para E json ''version'' (par_version p) w;
       let p = p\<lparr>par_version := v\<rparr>;
       if rc \<noteq> 0 then Some (IOT_OTA_ERR_FAIL, p, w)
       else do {
         (rc, v, w) \<leftarrow> qcloud_otalib_get_firmware_varlen_para E json ''url'' (par_url p) w;
         let p = p\<lparr>par_url := v\<rparr>;
         if rc \<noteq> 0 then Some (IOT_OTA_ERR_FAIL, p, w)
         else do {
           (rc, m, w) \<leftarrow> qcloud_otalib_get_firmware_fixlen_para E json ''md5sum'' (par_md5 p) 32 w;
           let p = p\<lparr>par_md5 := m\<rparr>;
           if rc \<noteq> 0 then Some (IOT_OTA_ERR_FAIL, p, w)
           else do {
             (rc, f, w) \<leftarrow> qcloud_otalib_get_firmware_fixlen_para E json ''file_size'' (replicate (OTA_FILESIZE_STR_LEN + 1) 0) OTA_FILESIZE_STR_LEN w;
             if rc \<noteq> 0 then Some (IOT_OTA_ERR_FAIL, p, w)
             else do {
               f \<leftarrow> mem_write f OTA_FILESIZE_STR_LEN 0;
               t \<leftarrow> text_at f 0;
               n \<leftarrow> atoi t;
               Some (QCLOUD_RET_SUCCESS, p\<lparr>par_file_size := uint32 n\<rparr>, w) } } } } } }"

section \<open>Reports\<close>

datatype IOT_OTAReportType = IOT_OTAR_DOWNLOAD_TIMEOUT | IOT_OTAR_FILE_NOT_EXIST | IOT_OTAR_AUTH_FAIL | IOT_OTAR_MD5_NOT_MATCH
  | IOT_OTAR_UPGRADE_FAIL | IOT_OTAR_NONE | IOT_OTAR_DOWNLOAD_BEGIN | IOT_OTAR_DOWNLOADING | IOT_OTAR_UPGRADE_BEGIN | IOT_OTAR_UPGRADE_SUCCESS

definition report_code :: "IOT_OTAReportType \<Rightarrow> int" where
  "report_code t = (case t of IOT_OTAR_DOWNLOAD_TIMEOUT \<Rightarrow> -1 | IOT_OTAR_FILE_NOT_EXIST \<Rightarrow> -2 | IOT_OTAR_AUTH_FAIL \<Rightarrow> -3
     | IOT_OTAR_MD5_NOT_MATCH \<Rightarrow> -4 | IOT_OTAR_UPGRADE_FAIL \<Rightarrow> -5 | IOT_OTAR_NONE \<Rightarrow> 0 | IOT_OTAR_DOWNLOAD_BEGIN \<Rightarrow> 1
     | IOT_OTAR_DOWNLOADING \<Rightarrow> 2 | IOT_OTAR_UPGRADE_BEGIN \<Rightarrow> 3 | IOT_OTAR_UPGRADE_SUCCESS \<Rightarrow> 4)"

text \<open>The text that fits a block of \<open>bufLen\<close> bytes; a longer one is cut off, which nobody looks at.\<close>

definition qcloud_otalib_gen_info_msg :: "nat \<Rightarrow> cstring \<Rightarrow> cstring" where
  "qcloud_otalib_gen_info_msg bufLen version =
     take (bufLen - 1) (chars ''{\"type\": \"report_version\", \"report\":{\"version\":\"'' @ version @ chars ''\"}}'')"

definition report_text :: "cstring \<Rightarrow> int \<Rightarrow> IOT_OTAReportType \<Rightarrow> cstring option" where
  "report_text version progress t = (case t of
       IOT_OTAR_DOWNLOAD_BEGIN \<Rightarrow> Some (chars ''{\"type\": \"report_progress\", \"report\": {\"progress\": {\"state\":\"downloading\", \"percent\":\"0\", \"result_code\":\"0\", \"result_msg\":\"\"}, \"version\": \"'' @ version @ chars ''\"}}'')
     | IOT_OTAR_DOWNLOADING \<Rightarrow> Some (chars ''{\"type\": \"report_progress\", \"report\": {\"progress\": {\"state\":\"downloading\", \"percent\":\"'' @ int_text progress @ chars ''\", \"result_code\":\"0\", \"result_msg\":\"\"}, \"version\": \"'' @ version @ chars ''\"}}'')
     | IOT_OTAR_UPGRADE_BEGIN \<Rightarrow> Some (chars ''{\"type\": \"report_progress\", \"report\":{\"progress\":{\"state\":\"burning\", \"result_code\":\"0\", \"result_msg\":\"\"}, \"version\":\"'' @ version @ chars ''\"}}'')
     | IOT_OTAR_UPGRADE_SUCCESS \<Rightarrow> Some (chars ''{\"type\": \"report_progress\", \"report\":{\"progress\":{\"state\":\"done\", \"result_code\":\"0\", \"result_msg\":\"\"}, \"version\":\"'' @ version @ chars ''\"}}'')
     | IOT_OTAR_NONE \<Rightarrow> None
     | _ \<Rightarrow> Some (chars ''{\"type\": \"report_progress\", \"report\": {\"progress\": {\"state\":\"fail\", \"result_code\":\"'' @ int_text (report_code t) @ chars ''\", \"result_msg\":\"time_out\"}, \"version\": \"'' @ version @ chars ''\"}}''))"

definition qcloud_otalib_gen_report_msg :: "nat \<Rightarrow> cstring \<Rightarrow> int \<Rightarrow> IOT_OTAReportType \<Rightarrow> int + cstring" where
  "qcloud_otalib_gen_report_msg bufLen version progress t = (case report_text version progress t of
       None \<Rightarrow> Inl IOT_OTA_ERR_FAIL
     | Some s \<Rightarrow> if length s \<ge> bufLen then Inl IOT_OTA_ERR_STR_TOO_LONG else Inr s)"

section \<open>Checksum\<close>

definition qcloud_otalib_md5_init :: "'w hal \<Rightarrow> 'w \<Rightarrow> iot_md5_context option \<times> 'w" where
  "qcloud_otalib_md5_init E w = (let (ok, w) = hal_malloc E w in
     if \<not> ok then (None, w) else (Some (utils_md5_starts utils_md5_init), w))"

definition qcloud_otalib_md5_update :: "iot_md5_context \<Rightarrow> buffer \<Rightarrow> iot_md5_context option" where
  "qcloud_otalib_md5_update md5 buf = utils_md5_update buf md5"

definition qcloud_otalib_md5_finalize :: "iot_md5_context \<Rightarrow> buffer \<Rightarrow> (buffer \<times> iot_md5_context) option" where
  "qcloud_otalib_md5_finalize md5 output_str = do {
     (buf_out, md5) \<leftarrow> utils_md5_finish md5;
     output_str \<leftarrow> hex_loop buf_out 0 output_str;
     output_str \<leftarrow> mem_write output_str 32 0;
     Some (output_str, md5) }"

text \<open>A context that has been fed the bytes \<open>m\<close> since its start.\<close>

definition md5_of :: "buffer \<Rightarrow> iot_md5_context \<Rightarrow> bool" where
  "md5_of m ctx \<longleftrightarrow> md_rep utils_md5_process md5_H0 m ctx"

lemma md5_of_update: "md5_of m ctx \<Longrightarrow> length bs < 2 ^ 32 \<Longrightarrow> \<exists>ctx'. qcloud_otalib_md5_update ctx bs = Some ctx' \<and> md5_of (m @ bs) ctx'"
  using md_update_rep unfolding md5_of_def qcloud_otalib_md5_update_def utils_md5_update_def by metis

end
