(* ===== verification/Ota_Client.thy ===== *)
theory Ota_Client
  imports Ota_Lib Mqtt_Construct Device_Info
begin

text \<open>
  The firmware update: the download channel of \<^verbatim>\<open>ota_fetch.c\<close>, the signal channel of \<^verbatim>\<open>ota_mqtt.c\<close> and the client
  of \<^verbatim>\<open>ota_client.c\<close>, for the build with \<open>OTA_MQTT_CHANNEL\<close> and \<open>OTA_USE_HTTPS\<close> of \<^verbatim>\<open>config.h\<close>.

  \<^item> the record \<open>ota\<close> is \<open>OTA_Struct_t\<close> with the MQTT client under its signal channel, whose world is used for the
    download, the allocations and the clock.
  \<^item> the message callback has the number below; the messages of a yield are handled behind it, in order.
  \<^item> the null handle, which most operations refuse at once, is not an argument; the other null pointers are \<open>None\<close>.
\<close>

definition OTA_MAX_TOPIC_LEN :: nat where "OTA_MAX_TOPIC_LEN = 64"
definition OTA_HTTP_HEAD_CONTENT_LEN :: nat where "OTA_HTTP_HEAD_CONTENT_LEN = 256"
definition ota_message_cb :: nat where "ota_message_cb = 3"

section \<open>The download channel\<close>

record OTAHTTPStruct =
  odc_url :: "cstring option"
  odc_http :: HTTPClient
  odc_data :: HTTPClientData

definition is_begin_with :: "cstring \<Rightarrow> cstring \<Rightarrow> int" where
  "is_begin_with str1 str2 =
     (if length str1 < length str2 \<or> str1 = [] \<or> str2 = [] then -1
      else if take (length str2) str1 = str2 then 1 else 0)"

text \<open>The head of a request. The numbers are printed as \<open>int\<close>.\<close>

definition ota_head :: "nat \<Rightarrow> nat \<Rightarrow> cstring" where
  "ota_head offset len = take (OTA_HTTP_HEAD_CONTENT_LEN - 1)
     (chars ''Accept: text/html,application/xhtml+xml,application/xml;q=0.9,*/*;q=0.8'' @ [CR, LF]
      @ chars ''Accept-Encoding: gzip, deflate'' @ [CR, LF]
      @ chars ''Range: bytes='' @ int_text (int32 offset) @ 0x2d # int_text (int32 len) @ [CR, LF])"

definition ofc_Init :: "'w hal \<Rightarrow> cstring option \<Rightarrow> nat \<Rightarrow> nat \<Rightarrow> 'w \<Rightarrow> OTAHTTPStruct option \<times> 'w" where
  "ofc_Init E url offset len w =
     (let (ok, w) = hal_malloc E w in
      if \<not> ok then (None, w)
      else (Some \<lparr>odc_url = url,
        odc_http = \<lparr>response_code = 0, http_header = Some (ota_head offset len), auth_user = None, auth_password = None,
          network_stack = \<lparr>net_type = NETWORK_TCP, net_host = [], net_port = 0, net_ca = None, net_handle = 0\<rparr>\<rparr>,
        odc_data = \<lparr>is_more = False, is_chunked = False, retrieve_len = 0, response_content_len = 0, post_buf_len = 0,
          response_buf_len = 0, post_content_type = None, post_buf = None, response_buf = None\<rparr>\<rparr>, w))"

text \<open>The certificate of the server is a constant of \<^verbatim>\<open>qcloud_iot_ca.c\<close>, a parameter here.\<close>

definition qcloud_ofc_connect :: "'w platform \<Rightarrow> cstring \<Rightarrow> OTAHTTPStruct \<Rightarrow> 'w \<Rightarrow> (int \<times> OTAHTTPStruct \<times> 'w) option" where
  "qcloud_ofc_connect P https_ca h w = do {
     url \<leftarrow> odc_url h;
     let https = is_begin_with url (chars ''https'') \<noteq> 0;
     (rc, c, w) \<leftarrow> qcloud_http_client_common P (odc_http h) url (if https then 443 else 80) (if https then Some https_ca else None)
       HTTP_GET (odc_data h) w;
     Some (rc, h\<lparr>odc_http := c\<rparr>, w) }"

text \<open>The result has the caller's buffer.\<close>

definition qcloud_ofc_fetch ::
  "'w hal \<Rightarrow> 'w platform \<Rightarrow> OTAHTTPStruct \<Rightarrow> buffer \<Rightarrow> nat \<Rightarrow> nat \<Rightarrow> 'w \<Rightarrow> (int \<times> buffer \<times> OTAHTTPStruct \<times> 'w) option" where
  "qcloud_ofc_fetch E P h buf bufLen timeout_s w = do {
     let d = (odc_data h)\<lparr>response_buf := Some buf, response_buf_len := int32 bufLen\<rparr>;
     let diff = response_content_len d - retrieve_len d;
     (rc, c, d, w) \<leftarrow> qcloud_http_recv_data E P (odc_http h) (timeout_s * 1000 mod 2 ^ 32) d w;
     buf \<leftarrow> response_buf d;
     let h = h\<lparr>odc_http := c, odc_data := d\<rparr>;
     Some
       (if rc \<noteq> QCLOUD_RET_SUCCESS then
          (if rc = QCLOUD_ERR_HTTP_NOT_FOUND then IOT_OTA_ERR_FETCH_NOT_EXIST
           else if rc = QCLOUD_ERR_HTTP_AUTH then IOT_OTA_ERR_FETCH_AUTH_FAIL
           else if rc = QCLOUD_ERR_HTTP_TIMEOUT then IOT_OTA_ERR_FETCH_TIMEOUT
           else rc)
        else response_content_len d - retrieve_len d - diff, buf, h, w) }"

section \<open>The state\<close>

datatype IOT_OTA_State_Code = IOT_OTAS_UNINITED | IOT_OTAS_INITED | IOT_OTAS_FETCHING | IOT_OTAS_FETCHED | IOT_OTAS_DISCONNECTED

definition state_code :: "IOT_OTA_State_Code \<Rightarrow> nat" where
  "state_code s = (case s of IOT_OTAS_UNINITED \<Rightarrow> 0 | IOT_OTAS_INITED \<Rightarrow> 1 | IOT_OTAS_FETCHING \<Rightarrow> 2 | IOT_OTAS_FETCHED \<Rightarrow> 3
     | IOT_OTAS_DISCONNECTED \<Rightarrow> 4)"

record 'w ota =
  ota_mqtt :: "'w client"
  ota_product_id :: cstring
  ota_device_name :: cstring
  ota_state :: IOT_OTA_State_Code
  size_last_fetched :: nat
  size_fetched :: nat
  size_file :: nat
  ota_purl :: "cstring option"
  ota_version :: "cstring option"
  ota_md5sum :: buffer
  ota_md5 :: iot_md5_context
  ota_ch_fetch :: "OTAHTTPStruct option"
  ota_err :: int
  report_timer :: Timer

definition on_ota :: "('w \<Rightarrow> 'a \<times> 'w) \<Rightarrow> 'w ota \<Rightarrow> 'a \<times> 'w ota" where
  "on_ota f s = (let (x, w) = f (world (ota_mqtt s)) in (x, s\<lparr>ota_mqtt := (ota_mqtt s)\<lparr>world := w\<rparr>\<rparr>))"

definition set_ota_world :: "'w \<Rightarrow> 'w ota \<Rightarrow> 'w ota" where
  "set_ota_world w s = s\<lparr>ota_mqtt := (ota_mqtt s)\<lparr>world := w\<rparr>\<rparr>"

section \<open>The signal channel\<close>

definition otamqtt_gen_topic_name :: "string \<Rightarrow> cstring \<Rightarrow> cstring \<Rightarrow> int + cstring" where
  "otamqtt_gen_topic_name type productId deviceName =
     (let t = chars ''$ota/'' @ chars type @ 0x2f # productId @ 0x2f # deviceName in
      if length t \<ge> OTA_MAX_TOPIC_LEN then Inl IOT_OTA_ERR_FAIL else Inr t)"

definition otamqtt_publish :: "'w hal \<Rightarrow> string \<Rightarrow> u8 \<Rightarrow> cstring \<Rightarrow> 'w ota \<Rightarrow> (int \<times> 'w ota) option" where
  "otamqtt_publish E type qos msg s = (case otamqtt_gen_topic_name type (ota_product_id s) (ota_device_name s) of
       Inl _ \<Rightarrow> Some (IOT_OTA_ERR_FAIL, s)
     | Inr t \<Rightarrow> do {
         ((rc, _), c) \<leftarrow> IOT_MQTT_Publish E t \<lparr>pp_qos = (if qos = 0 then QOS0 else QOS1), pp_retained = 0, pp_id = 0,
            pp_payload = Some (msg @ [0]), pp_payload_len = length msg\<rparr> (ota_mqtt s);
         Some (if rc < 0 then IOT_OTA_ERR_OSC_FAILED else rc, s\<lparr>ota_mqtt := c\<rparr>) })"

definition qcloud_osc_report_progress :: "'w hal \<Rightarrow> cstring \<Rightarrow> 'w ota \<Rightarrow> (int \<times> 'w ota) option" where
  "qcloud_osc_report_progress E msg s = otamqtt_publish E ''report'' QOS0 msg s"

definition qcloud_osc_report_version :: "'w hal \<Rightarrow> cstring \<Rightarrow> 'w ota \<Rightarrow> (int \<times> 'w ota) option" where
  "qcloud_osc_report_version E msg s = otamqtt_publish E ''report'' QOS1 msg s"

definition qcloud_osc_report_upgrade_result :: "'w hal \<Rightarrow> cstring \<Rightarrow> 'w ota \<Rightarrow> (int \<times> 'w ota) option" where
  "qcloud_osc_report_upgrade_result E msg s = otamqtt_publish E ''report'' QOS1 msg s"

text \<open>The channel exists or not.\<close>

definition qcloud_osc_init :: "'w hal \<Rightarrow> cstring \<Rightarrow> cstring \<Rightarrow> 'w client \<Rightarrow> (bool \<times> 'w client) option" where
  "qcloud_osc_init E productId deviceName c =
     (let (ok, w) = hal_malloc E (world c); c = c\<lparr>world := w\<rparr> in
      if \<not> ok then Some (False, c)
      else case otamqtt_gen_topic_name ''update'' productId deviceName of
        Inl _ \<Rightarrow> Some (False, c)
      | Inr t \<Rightarrow> do {
          (rc, c) \<leftarrow> IOT_MQTT_Subscribe E t \<lparr>sp_qos = QOS1, sp_on_message_handler = Some ota_message_cb,
             sp_on_sub_event_handler = None, sp_user_data = 0\<rparr> c;
          Some (\<not> rc < 0, c) })"

section \<open>Messages of the cloud\<close>

definition ota_params_of :: "'w ota \<Rightarrow> ota_params" where
  "ota_params_of s = \<lparr>par_type = None, par_url = ota_purl s, par_version = ota_version s, par_md5 = ota_md5sum s, par_file_size = size_file s\<rparr>"

text \<open>The payload is read as a C string from its start in the read buffer.\<close>

definition ota_callback :: "'w hal \<Rightarrow> MQTTMessage \<Rightarrow> 'w ota \<Rightarrow> 'w ota option" where
  "ota_callback E msg s =
     (if state_code (ota_state s) \<ge> state_code IOT_OTAS_FETCHING then Some s
      else if pv_payload_len (msg_view msg) = 0 then Some s
      else do {
        (rc, type, w) \<leftarrow> qcloud_otalib_get_firmware_type E (msg_payload msg) None (world (ota_mqtt s));
        let s = set_ota_world w s;
        if rc \<noteq> QCLOUD_RET_SUCCESS then Some s
        else if type = Some (chars ''report_version_rsp'') then do {
          (rc, w) \<leftarrow> qcloud_otalib_get_report_version_result E (msg_payload msg) w;
          let s = set_ota_world w s;
          Some (if rc < QCLOUD_RET_SUCCESS then s\<lparr>ota_err := IOT_OTA_ERR_REPORT_VERSION, ota_state := IOT_OTAS_FETCHED\<rparr> else s) }
        else if type \<noteq> Some (chars ''update_firmware'') then Some s
        else do {
          (rc, p, w) \<leftarrow> qcloud_otalib_get_params E (msg_payload msg) (ota_params_of s) w;
          let s = (set_ota_world w s)\<lparr>ota_purl := par_url p, ota_version := par_version p, ota_md5sum := par_md5 p, size_file := par_file_size p\<rparr>;
          Some (if rc \<noteq> 0 then s else s\<lparr>ota_state := IOT_OTAS_FETCHING\<rparr>) } })"

primrec ota_effects :: "'w hal \<Rightarrow> effect list \<Rightarrow> 'w ota \<Rightarrow> 'w ota option" where
  "ota_effects E [] s = Some s"
| "ota_effects E (e # es) s = do {
     s \<leftarrow> (case e of Deliver h msg ud \<Rightarrow> if h = ota_message_cb then ota_callback E msg s else Some s | _ \<Rightarrow> Some s);
     ota_effects E es s }"

definition ota_yield :: "'w hal \<Rightarrow> nat \<Rightarrow> 'w ota \<Rightarrow> (int \<times> 'w ota) option" where
  "ota_yield E timeout_ms s = do {
     let old = length (trace (ota_mqtt s));
     (rc, c) \<leftarrow> IOT_MQTT_Yield E timeout_ms (ota_mqtt s);
     s \<leftarrow> ota_effects E (drop old (trace c)) (s\<lparr>ota_mqtt := c\<rparr>);
     Some (rc, s) }"

section \<open>Reports\<close>

definition MSG_REPORT_LEN :: nat where "MSG_REPORT_LEN = 256"
definition MSG_INFORM_LEN :: nat where "MSG_INFORM_LEN = 128"
definition OTA_VERSION_STR_LEN_MIN :: nat where "OTA_VERSION_STR_LEN_MIN = 1"
definition OTA_VERSION_STR_LEN_MAX :: nat where "OTA_VERSION_STR_LEN_MAX = 32"

definition ota_check_progress :: "int \<Rightarrow> bool" where
  "ota_check_progress progress \<longleftrightarrow> progress \<ge> -4 \<and> progress \<le> 100"

definition IOT_OTA_ReportProgress :: "'w hal \<Rightarrow> int \<Rightarrow> IOT_OTAReportType \<Rightarrow> 'w ota \<Rightarrow> (int \<times> 'w ota) option" where
  "IOT_OTA_ReportProgress E progress t s =
     (if ota_state s = IOT_OTAS_UNINITED then Some (QCLOUD_ERR_FAILURE, s\<lparr>ota_err := IOT_OTA_ERR_INVALID_STATE\<rparr>)
      else if \<not> ota_check_progress progress then Some (QCLOUD_ERR_FAILURE, s\<lparr>ota_err := IOT_OTA_ERR_INVALID_PARAM\<rparr>)
      else
        let (ok, s) = on_ota (hal_malloc E) s in
        if \<not> ok then Some (QCLOUD_ERR_FAILURE, s\<lparr>ota_err := IOT_OTA_ERR_NOMEM\<rparr>)
        else do {
          v \<leftarrow> ota_version s;
          case qcloud_otalib_gen_report_msg MSG_REPORT_LEN v progress t of
            Inl rc \<Rightarrow> Some (rc, s\<lparr>ota_err := rc\<rparr>)
          | Inr msg \<Rightarrow> do {
              (rc, s) \<leftarrow> qcloud_osc_report_progress E msg s;
              Some (rc, if rc \<noteq> QCLOUD_RET_SUCCESS then s\<lparr>ota_err := rc\<rparr> else s) } })"

definition IOT_OTA_ReportUpgradeResult :: "'w hal \<Rightarrow> cstring option \<Rightarrow> IOT_OTAReportType \<Rightarrow> 'w ota \<Rightarrow> (int \<times> 'w ota) option" where
  "IOT_OTA_ReportUpgradeResult E version t s = (case version of
       None \<Rightarrow> Some (IOT_OTA_ERR_INVALID_PARAM, s)
     | Some v \<Rightarrow>
         if ota_state s = IOT_OTAS_UNINITED then Some (QCLOUD_ERR_FAILURE, s\<lparr>ota_err := IOT_OTA_ERR_INVALID_STATE\<rparr>)
         else if length v < OTA_VERSION_STR_LEN_MIN \<or> length v > OTA_VERSION_STR_LEN_MAX
         then Some (QCLOUD_ERR_FAILURE, s\<lparr>ota_err := IOT_OTA_ERR_INVALID_PARAM\<rparr>)
         else
           let (ok, s) = on_ota (hal_malloc E) s in
           if \<not> ok then Some (QCLOUD_ERR_FAILURE, s\<lparr>ota_err := IOT_OTA_ERR_NOMEM\<rparr>)
           else case qcloud_otalib_gen_report_msg MSG_REPORT_LEN v 1 t of
             Inl rc \<Rightarrow> Some (QCLOUD_ERR_FAILURE, s\<lparr>ota_err := rc\<rparr>)
           | Inr msg \<Rightarrow> do {
               (rc, s) \<leftarrow> qcloud_osc_report_upgrade_result E msg s;
               Some (if rc < 0 then (QCLOUD_ERR_FAILURE, s\<lparr>ota_err := rc\<rparr>) else (rc, s)) })"

definition IOT_OTA_ReportVersion :: "'w hal \<Rightarrow> cstring \<Rightarrow> 'w ota \<Rightarrow> (int \<times> 'w ota) option" where
  "IOT_OTA_ReportVersion E version s =
     (if length version < OTA_VERSION_STR_LEN_MIN \<or> length version > OTA_VERSION_STR_LEN_MAX
      then Some (QCLOUD_ERR_FAILURE, s\<lparr>ota_err := IOT_OTA_ERR_INVALID_PARAM\<rparr>)
      else if ota_state s = IOT_OTAS_UNINITED then Some (QCLOUD_ERR_FAILURE, s\<lparr>ota_err := IOT_OTA_ERR_INVALID_STATE\<rparr>)
      else
        let (ok, s) = on_ota (hal_malloc E) s in
        if \<not> ok then Some (QCLOUD_ERR_FAILURE, s\<lparr>ota_err := IOT_OTA_ERR_NOMEM\<rparr>)
        else do {
          (rc, s) \<leftarrow> qcloud_osc_report_version E (qcloud_otalib_gen_info_msg MSG_INFORM_LEN version) s;
          Some (if rc < 0 then (QCLOUD_ERR_FAILURE, s\<lparr>ota_err := rc\<rparr>) else (rc, s)) })"

definition IOT_OTA_ReportUpgradeBegin :: "'w hal \<Rightarrow> 'w ota \<Rightarrow> (int \<times> 'w ota) option" where
  "IOT_OTA_ReportUpgradeBegin E s = IOT_OTA_ReportUpgradeResult E (ota_version s) IOT_OTAR_UPGRADE_BEGIN s"

definition IOT_OTA_ReportUpgradeSuccess :: "'w hal \<Rightarrow> cstring option \<Rightarrow> 'w ota \<Rightarrow> (int \<times> 'w ota) option" where
  "IOT_OTA_ReportUpgradeSuccess E version s =
     IOT_OTA_ReportUpgradeResult E (if version = None then ota_version s else version) IOT_OTAR_UPGRADE_SUCCESS s"

definition IOT_OTA_ReportUpgradeFail :: "'w hal \<Rightarrow> cstring option \<Rightarrow> 'w ota \<Rightarrow> (int \<times> 'w ota) option" where
  "IOT_OTA_ReportUpgradeFail E version s =
     IOT_OTA_ReportUpgradeResult E (if version = None then ota_version s else version) IOT_OTAR_UPGRADE_FAIL s"

section \<open>The life of a client\<close>

text \<open>The client that is returned, with the MQTT client as the call leaves it.\<close>

definition IOT_OTA_Init :: "'w hal \<Rightarrow> cstring \<Rightarrow> cstring \<Rightarrow> 'w client \<Rightarrow> ('w ota option \<times> 'w client) option" where
  "IOT_OTA_Init E pid name c =
     (let (ok, w) = hal_malloc E (world c); c = c\<lparr>world := w\<rparr> in
      if \<not> ok then Some (None, c)
      else do {
        (ok, c) \<leftarrow> qcloud_osc_init E pid name c;
        if \<not> ok then Some (None, c)
        else
          let (md5, w) = qcloud_otalib_md5_init E (world c); c = c\<lparr>world := w\<rparr> in
          Some (map_option (\<lambda>m. \<lparr>ota_mqtt = c, ota_product_id = pid, ota_device_name = name, ota_state = IOT_OTAS_INITED,
            size_last_fetched = 0, size_fetched = 0, size_file = 0, ota_purl = None, ota_version = None, ota_md5sum = replicate 33 0,
            ota_md5 = m, ota_ch_fetch = None, ota_err = 0, report_timer = 0\<rparr>) md5, c) })"

text \<open>The client is gone but for the uninitialised state.\<close>

definition IOT_OTA_Destroy :: "'w ota \<Rightarrow> int \<times> 'w ota option" where
  "IOT_OTA_Destroy s =
     (if ota_state s = IOT_OTAS_UNINITED then (QCLOUD_ERR_FAILURE, Some (s\<lparr>ota_err := IOT_OTA_ERR_INVALID_STATE\<rparr>))
      else (QCLOUD_RET_SUCCESS, None))"

definition IOT_OTA_StartDownload :: "'w hal \<Rightarrow> 'w platform \<Rightarrow> cstring \<Rightarrow> nat \<Rightarrow> nat \<Rightarrow> 'w ota \<Rightarrow> (int \<times> 'w ota) option" where
  "IOT_OTA_StartDownload E P https_ca offset len s =
     (let s = s\<lparr>size_fetched := (size_fetched s + offset) mod 2 ^ 32\<rparr>;
          (h, s) = on_ota (ofc_Init E (ota_purl s) offset len) s in
      case h of None \<Rightarrow> Some (QCLOUD_ERR_FAILURE, s\<lparr>ota_ch_fetch := None\<rparr>)
      | Some h \<Rightarrow> do {
          (rc, h, w) \<leftarrow> qcloud_ofc_connect P https_ca h (world (ota_mqtt s));
          let s = (set_ota_world w s)\<lparr>ota_ch_fetch := Some h\<rparr>;
          Some (rc, if rc \<noteq> QCLOUD_RET_SUCCESS then s\<lparr>ota_state := IOT_OTAS_DISCONNECTED\<rparr> else s) })"

definition IOT_OTA_UpdateClientMd5 :: "buffer \<Rightarrow> nat \<Rightarrow> 'w ota \<Rightarrow> 'w ota option" where
  "IOT_OTA_UpdateClientMd5 buff len s = do {
     xs \<leftarrow> mem_slice buff 0 len;
     m \<leftarrow> qcloud_otalib_md5_update (ota_md5 s) xs;
     Some (s\<lparr>ota_md5 := m\<rparr>) }"

definition IOT_OTA_GetSize :: "'w ota \<Rightarrow> int \<times> nat" where "IOT_OTA_GetSize s = (0, size_file s)"
definition IOT_OTA_MD5 :: "'w ota \<Rightarrow> buffer" where "IOT_OTA_MD5 s = ota_md5sum s"
definition IOT_OTA_version :: "'w ota \<Rightarrow> cstring option" where "IOT_OTA_version s = ota_version s"
definition IOT_OTA_GetLastError :: "'w ota \<Rightarrow> int" where "IOT_OTA_GetLastError s = ota_err s"

definition IOT_OTA_IsFetching :: "'w ota \<Rightarrow> bool \<times> 'w ota" where
  "IOT_OTA_IsFetching s =
     (if ota_state s = IOT_OTAS_UNINITED then (False, s\<lparr>ota_err := IOT_OTA_ERR_INVALID_STATE\<rparr>)
      else (ota_state s = IOT_OTAS_FETCHING, s))"

definition IOT_OTA_IsFetchFinish :: "'w ota \<Rightarrow> bool \<times> 'w ota" where
  "IOT_OTA_IsFetchFinish s =
     (if ota_state s = IOT_OTAS_UNINITED then (False, s\<lparr>ota_err := IOT_OTA_ERR_INVALID_STATE\<rparr>)
      else (ota_state s = IOT_OTAS_FETCHED, s))"

section \<open>Fetching\<close>

text \<open>What a failed fetch reports and leaves as the error.\<close>

definition fetch_failed :: "'w hal \<Rightarrow> int \<Rightarrow> 'w ota \<Rightarrow> 'w ota option" where
  "fetch_failed E rc s =
     (let s = s\<lparr>ota_state := IOT_OTAS_FETCHED, ota_err := IOT_OTA_ERR_FETCH_FAILED\<rparr>;
          report = (\<lambda>t. do { (_, s) \<leftarrow> IOT_OTA_ReportUpgradeResult E (ota_version s) t s; Some (s\<lparr>ota_err := rc\<rparr>) }) in
      if rc = IOT_OTA_ERR_FETCH_AUTH_FAIL then report IOT_OTAR_AUTH_FAIL
      else if rc = IOT_OTA_ERR_FETCH_NOT_EXIST then report IOT_OTAR_FILE_NOT_EXIST
      else if rc = IOT_OTA_ERR_FETCH_TIMEOUT then report IOT_OTAR_DOWNLOAD_TIMEOUT
      else Some s)"

text \<open>The first report of a download, and those with the percentage.\<close>

definition report_begin :: "'w hal \<Rightarrow> 'w ota \<Rightarrow> 'w ota option" where
  "report_begin E s =
     (if size_fetched s = 0 then do {
        (_, s) \<leftarrow> IOT_OTA_ReportProgress E 0 IOT_OTAR_DOWNLOAD_BEGIN s;
        let (t, s) = on_ota (countdown E 1) s;
        Some (s\<lparr>report_timer := t\<rparr>) }
      else Some s)"

definition report_percent :: "'w hal \<Rightarrow> 'w ota \<Rightarrow> 'w ota option" where
  "report_percent E s =
     (if size_file s = 0 then None
      else
        let percent = size_fetched s * 100 mod 2 ^ 32 div size_file s in
        if percent = 100 then map_option snd (IOT_OTA_ReportProgress E (int32 percent) IOT_OTAR_DOWNLOADING s)
        else if size_last_fetched s > 0 then
          (let (over, s) = on_ota (expired E (report_timer s)) s in
           if over then do {
             (_, s) \<leftarrow> IOT_OTA_ReportProgress E (int32 percent) IOT_OTAR_DOWNLOADING s;
             let (t, s) = on_ota (countdown E 1) s;
             Some (s\<lparr>report_timer := t\<rparr>) }
           else Some s)
        else Some s)"

definition IOT_OTA_FetchYield :: "'w hal \<Rightarrow> 'w platform \<Rightarrow> buffer \<Rightarrow> nat \<Rightarrow> nat \<Rightarrow> 'w ota \<Rightarrow> (int \<times> buffer \<times> 'w ota) option" where
  "IOT_OTA_FetchYield E P buf buf_len timeout_ms s =
     (if buf_len = 0 then Some (IOT_OTA_ERR_INVALID_PARAM, buf, s)
      else if ota_state s \<noteq> IOT_OTAS_FETCHING then Some (IOT_OTA_ERR_INVALID_STATE, buf, s\<lparr>ota_err := IOT_OTA_ERR_INVALID_STATE\<rparr>)
      else do {
        h \<leftarrow> ota_ch_fetch s;
        (ret, buf, h, w) \<leftarrow> qcloud_ofc_fetch E P h buf buf_len timeout_ms (world (ota_mqtt s));
        let s = (set_ota_world w s)\<lparr>ota_ch_fetch := Some h\<rparr>;
        if ret < 0 then do { s \<leftarrow> fetch_failed E ret s; Some (ret, buf, s) }
        else do {
          s \<leftarrow> report_begin E s;
          let s = s\<lparr>size_last_fetched := uint32 ret, size_fetched := (size_fetched s + uint32 ret) mod 2 ^ 32\<rparr>;
          s \<leftarrow> report_percent E s;
          let s = (if size_fetched s \<ge> size_file s then s\<lparr>ota_state := IOT_OTAS_FETCHED\<rparr> else s);
          xs \<leftarrow> mem_slice buf 0 (uint32 ret);
          m \<leftarrow> qcloud_otalib_md5_update (ota_md5 s) xs;
          Some (ret, buf, s\<lparr>ota_md5 := m\<rparr>) } })"

section \<open>Questions\<close>

datatype IOT_OTA_CmdType = IOT_OTAG_FETCHED_SIZE | IOT_OTAG_FILE_SIZE | IOT_OTAG_MD5SUM | IOT_OTAG_VERSION | IOT_OTAG_CHECK_FIRMWARE

text \<open>A number for a buffer of 4 bytes, which must be aligned.\<close>

definition put_number :: "nat \<Rightarrow> buffer \<Rightarrow> buffer option" where
  "put_number n buf = mem_copy buf 0 (le_bytes 4 n)"

definition copy_string :: "cstring \<Rightarrow> nat \<Rightarrow> buffer \<Rightarrow> buffer option" where
  "copy_string t n buf = do { buf \<leftarrow> mem_copy buf 0 (take n (t @ replicate n 0)); mem_write buf (n - 1) 0 }"

definition check_firmware :: "'w hal \<Rightarrow> buffer \<Rightarrow> 'w ota \<Rightarrow> (int \<times> buffer \<times> 'w ota) option" where
  "check_firmware E buf s =
     (if ota_state s \<noteq> IOT_OTAS_FETCHED then Some (QCLOUD_ERR_FAILURE, buf, s\<lparr>ota_err := IOT_OTA_ERR_INVALID_STATE\<rparr>)
      else do {
        (md5_str, m) \<leftarrow> qcloud_otalib_md5_finalize (ota_md5 s) (replicate 33 0);
        let s = s\<lparr>ota_md5 := m\<rparr>;
        now \<leftarrow> text_at md5_str 0;
        origin \<leftarrow> text_at (ota_md5sum s) 0;
        if origin = now then do { buf \<leftarrow> put_number 1 buf; Some (0, buf, s) }
        else do {
          buf \<leftarrow> put_number 0 buf;
          (_, s) \<leftarrow> IOT_OTA_ReportUpgradeResult E (ota_version s) IOT_OTAR_MD5_NOT_MATCH s;
          Some (0, buf, s) } })"

definition IOT_OTA_Ioctl :: "'w hal \<Rightarrow> IOT_OTA_CmdType \<Rightarrow> buffer \<Rightarrow> nat \<Rightarrow> bool \<Rightarrow> 'w ota \<Rightarrow> (int \<times> buffer \<times> 'w ota) option" where
  "IOT_OTA_Ioctl E type buf buf_len aligned s =
     (if buf_len = 0 then Some (IOT_OTA_ERR_INVALID_PARAM, buf, s)
      else if state_code (ota_state s) < state_code IOT_OTAS_FETCHING
      then Some (IOT_OTA_ERR_INVALID_STATE, buf, s\<lparr>ota_err := IOT_OTA_ERR_INVALID_STATE\<rparr>)
      else case type of
        IOT_OTAG_VERSION \<Rightarrow> do { v \<leftarrow> ota_version s; buf \<leftarrow> copy_string v buf_len buf; Some (0, buf, s) }
      | IOT_OTAG_MD5SUM \<Rightarrow> do { t \<leftarrow> text_at (ota_md5sum s) 0; buf \<leftarrow> copy_string t buf_len buf; Some (0, buf, s) }
      | _ \<Rightarrow>
          if buf_len \<noteq> 4 \<or> \<not> aligned then Some (QCLOUD_ERR_FAILURE, buf, s\<lparr>ota_err := IOT_OTA_ERR_INVALID_PARAM\<rparr>)
          else case type of
            IOT_OTAG_FETCHED_SIZE \<Rightarrow> do { buf \<leftarrow> put_number (size_fetched s) buf; Some (0, buf, s) }
          | IOT_OTAG_FILE_SIZE \<Rightarrow> do { buf \<leftarrow> put_number (size_file s) buf; Some (0, buf, s) }
          | _ \<Rightarrow> check_firmware E buf s)"

end
