(* ===== verification/Ota_Session.thy ===== *)
theory Ota_Session
  imports Ota_Client
begin

text \<open>
  What a firmware update does: its state only moves forward, the checksum that is tested at the end is that of
  exactly the bytes handed to the application, and a message of the cloud starts it.
\<close>

section \<open>What reports leave alone\<close>

definition ota_core :: "'w ota \<Rightarrow> IOT_OTA_State_Code \<times> nat \<times> nat \<times> nat \<times> cstring option \<times> cstring option \<times> buffer \<times> iot_md5_context" where
  "ota_core s = (ota_state s, size_last_fetched s, size_fetched s, size_file s, ota_purl s, ota_version s, ota_md5sum s, ota_md5 s)"

lemma core_simps [simp]:
  "ota_core (s\<lparr>ota_err := e\<rparr>) = ota_core s" "ota_core (s\<lparr>ota_mqtt := c\<rparr>) = ota_core s" "ota_core (s\<lparr>report_timer := t\<rparr>) = ota_core s"
  "ota_core (s\<lparr>ota_ch_fetch := h\<rparr>) = ota_core s" "ota_core (set_ota_world w s) = ota_core s"
  by (simp_all add: ota_core_def set_ota_world_def)

lemma core_fields: "ota_core s' = ota_core s \<Longrightarrow> ota_state s' = ota_state s \<and> size_fetched s' = size_fetched s
    \<and> size_last_fetched s' = size_last_fetched s \<and> size_file s' = size_file s \<and> ota_md5sum s' = ota_md5sum s \<and> ota_md5 s' = ota_md5 s
    \<and> ota_version s' = ota_version s"
  by (simp add: ota_core_def)

lemma on_ota_core: "on_ota f s = (x, s') \<Longrightarrow> ota_core s' = ota_core s"
  by (auto simp: on_ota_def split: prod.splits)

lemma publish_core: "otamqtt_publish E t q m s = Some (rc, s') \<Longrightarrow> ota_core s' = ota_core s"
  by (auto simp: otamqtt_publish_def split: sum.splits bind_split_asm)

lemma progress_core: "IOT_OTA_ReportProgress E p t s = Some (rc, s') \<Longrightarrow> ota_core s' = ota_core s"
  by (auto simp: IOT_OTA_ReportProgress_def qcloud_osc_report_progress_def split: if_splits prod.splits bind_split_asm sum.splits
      dest!: publish_core on_ota_core)

lemma result_core: "IOT_OTA_ReportUpgradeResult E v t s = Some (rc, s') \<Longrightarrow> ota_core s' = ota_core s"
  by (auto simp: IOT_OTA_ReportUpgradeResult_def qcloud_osc_report_upgrade_result_def
      split: option.splits if_splits prod.splits bind_split_asm sum.splits dest!: publish_core on_ota_core)

lemma version_core: "IOT_OTA_ReportVersion E v s = Some (rc, s') \<Longrightarrow> ota_core s' = ota_core s"
  by (auto simp: IOT_OTA_ReportVersion_def qcloud_osc_report_version_def split: if_splits prod.splits bind_split_asm dest!: publish_core on_ota_core)

lemma begin_core: "report_begin E s = Some s' \<Longrightarrow> ota_core s' = ota_core s"
  by (auto simp: report_begin_def split: if_splits prod.splits bind_split_asm dest!: progress_core on_ota_core)

lemma percent_core: "report_percent E s = Some s' \<Longrightarrow> ota_core s' = ota_core s"
  by (auto simp: report_percent_def Let_def split: if_splits prod.splits bind_split_asm dest!: progress_core on_ota_core)

lemmas report_cores = progress_core result_core version_core begin_core percent_core

lemma failed_state: "fetch_failed E rc s = Some s' \<Longrightarrow> ota_state s' = IOT_OTAS_FETCHED \<and> ota_md5 s' = ota_md5 s \<and> size_fetched s' = size_fetched s"
  by (auto simp: fetch_failed_def Let_def split: if_splits bind_split_asm dest!: result_core core_fields)

lemma callback_state:
  "ota_callback E msg s = Some s' \<Longrightarrow> state_code (ota_state s) \<le> state_code (ota_state s') \<and> ota_md5 s' = ota_md5 s \<and> size_fetched s' = size_fetched s"
  by (auto simp: ota_callback_def Let_def set_ota_world_def state_code_def split: if_splits bind_split_asm)

lemma effects_state:
  "ota_effects E es s = Some s' \<Longrightarrow> state_code (ota_state s) \<le> state_code (ota_state s') \<and> ota_md5 s' = ota_md5 s \<and> size_fetched s' = size_fetched s"
proof (induction es arbitrary: s)
  case (Cons e es)
  obtain s1 where s1: "(case e of Deliver h msg ud \<Rightarrow> if h = ota_message_cb then ota_callback E msg s else Some s | _ \<Rightarrow> Some s) = Some s1"
    "ota_effects E es s1 = Some s'" using Cons.prems by (auto split: bind_split_asm)
  then have "state_code (ota_state s) \<le> state_code (ota_state s1) \<and> ota_md5 s1 = ota_md5 s \<and> size_fetched s1 = size_fetched s"
    by (auto split: effect.splits if_splits dest: callback_state)
  then show ?case using Cons.IH [OF s1(2)] by auto
qed simp

lemma yield_state:
  "ota_yield E t s = Some (rc, s') \<Longrightarrow> state_code (ota_state s) \<le> state_code (ota_state s') \<and> ota_md5 s' = ota_md5 s \<and> size_fetched s' = size_fetched s"
  by (auto simp: ota_yield_def Let_def split: bind_split_asm dest!: effects_state)

lemma start_state:
  "IOT_OTA_StartDownload E P ca off n s = Some (rc, s') \<Longrightarrow> state_code (ota_state s) \<le> state_code (ota_state s') \<and> ota_md5 s' = ota_md5 s
    \<and> size_fetched s' = (size_fetched s + off) mod 2 ^ 32"
  by (auto simp: IOT_OTA_StartDownload_def Let_def set_ota_world_def on_ota_def state_code_def
      split: prod.splits option.splits bind_split_asm if_splits IOT_OTA_State_Code.splits)

lemma fetch_state:
  assumes "IOT_OTA_FetchYield E P buf n t s = Some (ret, buf', s')"
  shows "ota_state s \<noteq> IOT_OTAS_FETCHING \<and> ota_core s' = ota_core s \<and> ret < 0 \<or> n = 0 \<and> ota_core s' = ota_core s \<and> ret < 0
    \<or> ret < 0 \<and> ota_state s = IOT_OTAS_FETCHING \<and> ota_state s' = IOT_OTAS_FETCHED \<and> ota_md5 s' = ota_md5 s \<and> size_fetched s' = size_fetched s
    \<or> ret \<ge> 0 \<and> ota_state s = IOT_OTAS_FETCHING \<and> ota_state s' \<in> {IOT_OTAS_FETCHING, IOT_OTAS_FETCHED}
       \<and> size_fetched s' = (size_fetched s + uint32 ret) mod 2 ^ 32 \<and> uint32 ret \<le> length buf'
       \<and> qcloud_otalib_md5_update (ota_md5 s) (take (uint32 ret) buf') = Some (ota_md5 s')"
  using assms
  by (auto simp: IOT_OTA_FetchYield_def Let_def mem_slice_def set_ota_world_def split: if_splits bind_split_asm
      dest!: failed_state begin_core percent_core core_fields)

lemma ioctl_core: "IOT_OTA_Ioctl E type buf n al s = Some (rc, buf', s') \<Longrightarrow> ota_state s' = ota_state s"
  by (cases type) (auto simp: IOT_OTA_Ioctl_def check_firmware_def Let_def split: if_splits bind_split_asm dest!: result_core core_fields)

section \<open>The order of states\<close>

text \<open>Every operation of the client, with any arguments.\<close>

inductive ota_step :: "'w hal \<Rightarrow> 'w platform \<Rightarrow> cstring \<Rightarrow> 'w ota \<Rightarrow> 'w ota \<Rightarrow> bool" for E P ca where
  yield: "ota_yield E t s = Some (rc, s') \<Longrightarrow> ota_step E P ca s s'"
| report_version: "IOT_OTA_ReportVersion E v s = Some (rc, s') \<Longrightarrow> ota_step E P ca s s'"
| upgrade_begin: "IOT_OTA_ReportUpgradeBegin E s = Some (rc, s') \<Longrightarrow> ota_step E P ca s s'"
| upgrade_success: "IOT_OTA_ReportUpgradeSuccess E v' s = Some (rc, s') \<Longrightarrow> ota_step E P ca s s'"
| upgrade_fail: "IOT_OTA_ReportUpgradeFail E v' s = Some (rc, s') \<Longrightarrow> ota_step E P ca s s'"
| start: "IOT_OTA_StartDownload E P ca off n s = Some (rc, s') \<Longrightarrow> ota_step E P ca s s'"
| fetch: "IOT_OTA_FetchYield E P buf n t s = Some (ret, buf', s') \<Longrightarrow> ota_step E P ca s s'"
| update_md5: "IOT_OTA_UpdateClientMd5 buf n s = Some s' \<Longrightarrow> ota_step E P ca s s'"
| is_fetching: "IOT_OTA_IsFetching s = (b, s') \<Longrightarrow> ota_step E P ca s s'"
| is_finished: "IOT_OTA_IsFetchFinish s = (b, s') \<Longrightarrow> ota_step E P ca s s'"
| ioctl: "IOT_OTA_Ioctl E type buf n al s = Some (rc, buf', s') \<Longrightarrow> ota_step E P ca s s'"

lemma step_state: "ota_step E P ca s s' \<Longrightarrow> state_code (ota_state s) \<le> state_code (ota_state s')"
proof (induction rule: ota_step.induct)
  case (fetch buf n t s ret buf' s')
  then show ?case using fetch_state [OF fetch] by (auto simp: state_code_def dest: core_fields)
next
  case (update_md5 buf n s s')
  then show ?case by (auto simp: IOT_OTA_UpdateClientMd5_def split: bind_split_asm)
next
  case (is_fetching s b s')
  then show ?case by (auto simp: IOT_OTA_IsFetching_def split: if_splits)
next
  case (is_finished s b s')
  then show ?case by (auto simp: IOT_OTA_IsFetchFinish_def split: if_splits)
qed (auto simp: IOT_OTA_ReportUpgradeBegin_def IOT_OTA_ReportUpgradeSuccess_def IOT_OTA_ReportUpgradeFail_def
    dest: yield_state start_state version_core [THEN core_fields] result_core [THEN core_fields] ioctl_core)

text \<open>C8: over any history of calls and messages the state of an update only moves forward, from initialised over
  fetching and fetched to disconnected: a client that has fetched its firmware, or has failed to, or has lost its
  connection, never fetches again.\<close>

theorem ota_moves_forward:
  assumes "(ota_step E P ca)\<^sup>*\<^sup>* s s'"
  shows "state_code (ota_state s) \<le> state_code (ota_state s')
    \<and> (ota_state s \<in> {IOT_OTAS_FETCHED, IOT_OTAS_DISCONNECTED} \<longrightarrow> \<not> fst (IOT_OTA_IsFetching s'))"
proof -
  have "state_code (ota_state s) \<le> state_code (ota_state s')"
    using assms by (induction rule: rtranclp_induct) (auto dest: step_state)
  then show ?thesis by (auto simp: IOT_OTA_IsFetching_def state_code_def split: IOT_OTA_State_Code.splits)
qed

section \<open>What has been fetched is what is checked\<close>

text \<open>A download from its start: messages, requests, reports and fetches in any order; \<open>zs\<close> are the bytes that the
  successful fetches have handed to the application; a fetch may also fail.\<close>

inductive download :: "'w hal \<Rightarrow> 'w platform \<Rightarrow> cstring \<Rightarrow> 'w ota \<Rightarrow> buffer \<Rightarrow> 'w ota \<Rightarrow> bool" for E P ca where
  none: "download E P ca s [] s"
| yield: "download E P ca s zs s1 \<Longrightarrow> ota_yield E t s1 = Some (rc, s2) \<Longrightarrow> download E P ca s zs s2"
| start: "download E P ca s zs s1 \<Longrightarrow> IOT_OTA_StartDownload E P ca 0 n s1 = Some (rc, s2) \<Longrightarrow> download E P ca s zs s2"
| report: "download E P ca s zs s1 \<Longrightarrow> IOT_OTA_ReportUpgradeResult E v t s1 = Some (rc, s2) \<Longrightarrow> download E P ca s zs s2"
| report_version: "download E P ca s zs s1 \<Longrightarrow> IOT_OTA_ReportVersion E v s1 = Some (rc, s2) \<Longrightarrow> download E P ca s zs s2"
| fetch: "download E P ca s zs s1 \<Longrightarrow> IOT_OTA_FetchYield E P buf n t s1 = Some (ret, buf', s2) \<Longrightarrow> ret \<ge> 0
    \<Longrightarrow> download E P ca s (zs @ take (uint32 ret) buf') s2"
| failed: "download E P ca s zs s1 \<Longrightarrow> IOT_OTA_FetchYield E P buf n t s1 = Some (ret, buf', s2) \<Longrightarrow> ret < 0
    \<Longrightarrow> download E P ca s zs s2"

lemma download_exact:
  assumes "download E P ca s zs s'" and "md5_of [] (ota_md5 s)" and "size_fetched s = 0"
  shows "md5_of zs (ota_md5 s') \<and> size_fetched s' = length zs mod 2 ^ 32"
  using assms
proof (induction rule: download.induct)
  case (yield s zs s1 t rc s2)
  then show ?case using yield_state [OF yield(2)] by simp
next
  case (start s zs s1 n rc s2)
  then show ?case using start_state [OF start(2)] by simp
next
  case (report s zs s1 v t rc s2)
  then show ?case using core_fields [OF result_core [OF report(2)]] by simp
next
  case (report_version s zs s1 v rc s2)
  then show ?case using core_fields [OF version_core [OF report_version(2)]] by simp
next
  case (fetch s zs s1 buf n t ret buf' s2)
  then have f: "size_fetched s2 = (size_fetched s1 + uint32 ret) mod 2 ^ 32" "uint32 ret \<le> length buf'"
    "qcloud_otalib_md5_update (ota_md5 s1) (take (uint32 ret) buf') = Some (ota_md5 s2)"
    using fetch_state [OF fetch(2)] by auto
  have m: "md5_of zs (ota_md5 s1)" "size_fetched s1 = length zs mod 2 ^ 32" using fetch by auto
  have "uint32 ret < 2 ^ 32" by (simp add: uint32_def nat_less_iff)
  then have "length (take (uint32 ret) buf') < 2 ^ 32" by simp
  from md5_of_update [OF m(1) this] show ?case using f m(2) by (auto simp: min_def mod_simps)
next
  case (failed s zs s1 buf n t ret buf' s2)
  then show ?case using fetch_state [OF failed(2)] by (auto dest: core_fields)
qed simp

lemma finalize_exact:
  assumes "md5_of m ctx"
  shows "\<exists>ctx'. qcloud_otalib_md5_finalize ctx (replicate 33 0) = Some (hex (MD5 m) @ [0], ctx')"
proof -
  obtain ctx' where f: "utils_md5_finish ctx = Some (MD5 m, ctx')"
    using md_finish_rep [OF assms [unfolded md5_of_def], of md5_msglen md5_output]
    by (auto simp: utils_md5_finish_def reference_MD5 md5_msglen_def put_uint32_le_def)
  have l: "length (hex (MD5 m)) = 32" using md5.digest by simp
  have "hex_loop (MD5 m) 0 (replicate 33 0) = Some (hex (MD5 m) @ [0])"
    using hex_loop_written [of 0 "MD5 m" "replicate 33 0"] md5.digest l by (simp add: overlay_def)
  then show ?thesis using f l by (simp add: qcloud_otalib_md5_finalize_def mem_write_def list_update_append)
qed

lemma hex_nonzero: "0 \<notin> set (hex bs)"
proof -
  have "(of_nat m :: u8) \<noteq> 0" if "0 < m" "m < 256" for m :: nat using that by (auto simp: word_of_nat_eq_0_iff dest: dvd_imp_le)
  note nz = this
  have "hex_digit n \<noteq> 0" if "n < 16" for n
    using that nz [of "48 + n"] nz [of "87 + n"] unfolding hex_digit_def by (cases "n < 10") (simp_all del: of_nat_add of_nat_numeral)
  moreover have "unat (b :: u8) div 16 < 16" "unat b mod 16 < 16" for b using byte_lt [of b] by simp_all
  ultimately have "hex_digit (unat (b :: u8) div 16) \<noteq> 0" "hex_digit (unat b mod 16) \<noteq> 0" for b by blast+
  then show ?thesis by (induction bs) (auto simp: hex_Cons, simp add: hex_def)
qed

lemma length_le_bytes: "length (le_bytes k n) = k"
  by (induction k arbitrary: n) auto

lemma put_number_exact: "length buf = 4 \<Longrightarrow> put_number n buf = Some (le_bytes 4 n)"
  by (simp add: put_number_def mem_copy_def overlay_def length_le_bytes)

lemma text_at_terminated: "0 \<notin> set t \<Longrightarrow> text_at (t @ 0 # z) 0 = Some t"
proof -
  assume "0 \<notin> set t"
  then have "takeWhile (\<lambda>c. c \<noteq> 0) (t @ 0 # z) = t" by (induction t) auto
  then show ?thesis using text_at_drop [of 0 "t @ 0 # z"] by simp
qed

text \<open>C7: the firmware is accepted exactly when it is the announced one: whatever messages, requests, reports and
  fetches came in between, when the fetches are over the check stores 1 if the announced text is the MD5 sum, in
  lower-case hexadecimal, of exactly the bytes that the fetches have handed to the application, and where it is not
  it stores 0 if it returns at all, which takes the report of the difference. The count of bytes is theirs.\<close>

theorem ota_firmware_checked:
  assumes "download E P ca s zs s'" and "md5_of [] (ota_md5 s)" and "size_fetched s = 0"
    and "ota_state s' = IOT_OTAS_FETCHED" and "ota_md5sum s' = origin @ 0 # z" and "0 \<notin> set origin" and "length buf = 4"
  shows "size_fetched s' = length zs mod 2 ^ 32
    \<and> (if origin = hex (MD5 zs) then \<exists>s''. IOT_OTA_Ioctl E IOT_OTAG_CHECK_FIRMWARE buf 4 True s' = Some (0, le_bytes 4 1, s'')
       else \<forall>rc b s''. IOT_OTA_Ioctl E IOT_OTAG_CHECK_FIRMWARE buf 4 True s' = Some (rc, b, s'') \<longrightarrow> rc = 0 \<and> b = le_bytes 4 0)"
proof -
  have d: "md5_of zs (ota_md5 s')" "size_fetched s' = length zs mod 2 ^ 32" using download_exact [OF assms(1-3)] by simp_all
  obtain m where m: "qcloud_otalib_md5_finalize (ota_md5 s') (replicate 33 0) = Some (hex (MD5 zs) @ [0], m)"
    using finalize_exact [OF d(1)] by blast
  have t: "text_at (hex (MD5 zs) @ [0]) 0 = Some (hex (MD5 zs))" "text_at (ota_md5sum s') 0 = Some origin"
    using text_at_terminated [OF hex_nonzero, of "MD5 zs" "[]"] text_at_terminated [OF assms(6), of z] assms(5) by simp_all
  have "IOT_OTA_Ioctl E IOT_OTAG_CHECK_FIRMWARE buf 4 True s' = check_firmware E buf s'"
    by (simp add: IOT_OTA_Ioctl_def assms(4) state_code_def)
  then show ?thesis
    using assms(4) m t put_number_exact [OF assms(7)] d(2) by (auto simp: check_firmware_def Let_def split: bind_split_asm)
qed

section \<open>The message that starts an update\<close>

lemma otalib_value_exact:
  assumes "\<forall>w. fst (hal_malloc E w)" and "jwf (JObj ms)" and "DOT \<notin> set (chars key)"
  shows "\<exists>w'. otalib_value E (jtext (JObj ms) @ 0 # z) key w = Some (Some (map_option jinner (jget (chars key) (JObj ms))), w')"
proof -
  obtain w1 where w1: "hal_malloc E w = (True, w1)" using assms(1) by (metis prod.collapse)
  obtain w2 where w2: "hal_malloc E w1 = (True, w2)" using assms(1) by (metis prod.collapse)
  have n: "strlen (jtext (JObj ms) @ 0 # z) = Some (length (jtext (JObj ms)))"
    using strlen_terminated [OF balanced_nonzero [OF balanced_jtext [OF assms(2)]]] .
  show ?thesis
    using member_value [OF assms, of "[]" w2] w1 w2 n by (auto simp: otalib_value_def simp del: jtext.simps)
qed

lemma varlen_exact:
  assumes "\<forall>w. fst (hal_malloc E w)" and "jwf (JObj ms)" and "DOT \<notin> set (chars key)" and "jget (chars key) (JObj ms) = Some x"
  shows "\<exists>w'. qcloud_otalib_get_firmware_varlen_para E (jtext (JObj ms) @ 0 # z) key dest w = Some (QCLOUD_RET_SUCCESS, Some (jinner x), w')"
  using otalib_value_exact [OF assms(1-3), of z w] assms(4) by (auto simp: qcloud_otalib_get_firmware_varlen_para_def simp del: jtext.simps)

lemma fixlen_exact:
  assumes "\<forall>w. fst (hal_malloc E w)" and "jwf (JObj ms)" and "DOT \<notin> set (chars key)" and "jget (chars key) (JObj ms) = Some x"
    and "length (jinner x) \<le> n" and "n \<le> length dest"
  shows "\<exists>w'. qcloud_otalib_get_firmware_fixlen_para E (jtext (JObj ms) @ 0 # z) key dest n w = Some (QCLOUD_RET_SUCCESS, overlay dest 0 (jinner x), w')"
  using otalib_value_exact [OF assms(1-3), of z w] assms(4-6)
  by (auto simp: qcloud_otalib_get_firmware_fixlen_para_def mem_copy_def simp del: jtext.simps)

lemma ota_keys_dot:
  "DOT \<notin> set (chars ''type'')" "DOT \<notin> set (chars ''version'')" "DOT \<notin> set (chars ''url'')" "DOT \<notin> set (chars ''md5sum'')"
  "DOT \<notin> set (chars ''file_size'')"
  by (simp_all add: chars_def)

lemma nat_text_length: "n < 10 ^ Suc k \<Longrightarrow> length (nat_text n) \<le> Suc k"
proof (induction k arbitrary: n)
  case (Suc k)
  have "n div 10 < 10 ^ Suc k" using Suc.prems by (simp add: div_less_iff_less_mult)
  then show ?case using Suc.IH [of "n div 10"] by (subst nat_text.simps) simp
qed (simp add: nat_text.simps)

lemma nat_text_nonzero: "0 \<notin> set (nat_text n)"
  using digits_nat_text [of n] by (auto simp: digits_def)

text \<open>C37: a well-formed message of the cloud with the type \<open>update_firmware\<close> and its four fields, terminated in the
  read buffer: an initialised client takes over address, version, checksum and size, and begins to fetch. The
  checksum may have 32 characters, the size fifteen digits.\<close>

theorem ota_update_message:
  assumes "\<forall>w. fst (hal_malloc E w)" and "jwf (JObj ms)" and "msg_payload msg = jtext (JObj ms) @ 0 # z" and "pv_payload_len (msg_view msg) \<noteq> 0"
    and "jget (chars ''type'') (JObj ms) = Some ty" and "jinner ty = chars ''update_firmware''"
    and "jget (chars ''version'') (JObj ms) = Some ver" and "jget (chars ''url'') (JObj ms) = Some url"
    and "jget (chars ''md5sum'') (JObj ms) = Some md" and "length (jinner md) \<le> 32" and "length (ota_md5sum s) = 33"
    and "jget (chars ''file_size'') (JObj ms) = Some fs" and "jinner fs = nat_text n" and "n < 2 ^ 31"
    and "ota_state s = IOT_OTAS_INITED"
  shows "\<exists>w. ota_callback E msg s = Some ((set_ota_world w s)\<lparr>ota_state := IOT_OTAS_FETCHING, ota_purl := Some (jinner url),
    ota_version := Some (jinner ver), ota_md5sum := overlay (ota_md5sum s) 0 (jinner md), size_file := n\<rparr>)"
proof -
  let ?j = "jtext (JObj ms) @ 0 # z"
  note va = varlen_exact [OF assms(1,2), where z = z] and fi = fixlen_exact [OF assms(1,2), where z = z]
  obtain w1 where w1: "qcloud_otalib_get_firmware_varlen_para E ?j ''type'' None (world (ota_mqtt s)) = Some (0, Some (chars ''update_firmware''), w1)"
    using va [OF ota_keys_dot(1) assms(5)] assms(6) by metis
  obtain w2 where w2: "qcloud_otalib_get_firmware_varlen_para E ?j ''type'' None w1 = Some (0, Some (chars ''update_firmware''), w2)"
    using va [OF ota_keys_dot(1) assms(5)] assms(6) by metis
  obtain w3 where w3: "qcloud_otalib_get_firmware_varlen_para E ?j ''version'' (ota_version s) w2 = Some (0, Some (jinner ver), w3)"
    using va [OF ota_keys_dot(2) assms(7)] by metis
  obtain w4 where w4: "qcloud_otalib_get_firmware_varlen_para E ?j ''url'' (ota_purl s) w3 = Some (0, Some (jinner url), w4)"
    using va [OF ota_keys_dot(3) assms(8)] by metis
  have l33: "32 \<le> length (ota_md5sum s)" using assms(11) by simp
  obtain w5 where w5: "qcloud_otalib_get_firmware_fixlen_para E ?j ''md5sum'' (ota_md5sum s) 32 w4 = Some (0, overlay (ota_md5sum s) 0 (jinner md), w5)"
    using fi [OF ota_keys_dot(4) assms(9,10) l33] by metis
  have len: "length (jinner fs) \<le> 16" using nat_text_length [of n 15] assms(13,14) by simp
  obtain w6 where w6: "qcloud_otalib_get_firmware_fixlen_para E ?j ''file_size'' (replicate 17 0) 16 w5 = Some (0, overlay (replicate 17 0) 0 (jinner fs), w6)"
    using fi [OF ota_keys_dot(5) assms(12) len, of "replicate 17 0" w5] by auto
  have ov: "overlay (replicate 17 0) 0 (jinner fs) = jinner fs @ 0 # replicate (16 - length (jinner fs)) 0"
    using len by (simp add: overlay_def Suc_diff_le flip: replicate_Suc)
  have wr: "mem_write (jinner fs @ 0 # replicate (16 - length (jinner fs)) 0) 16 0 = Some (jinner fs @ 0 # replicate (16 - length (jinner fs)) 0)"
  proof -
    have "(jinner fs @ replicate (17 - length (jinner fs)) 0) ! 16 = 0" using len by (simp add: nth_append)
    moreover have "0 # replicate (16 - length (jinner fs)) 0 = replicate (17 - length (jinner fs)) (0 :: u8)"
      using len by (simp add: Suc_diff_le flip: replicate_Suc)
    ultimately show ?thesis using len by (simp add: mem_write_def list_update_same_conv del: replicate_Suc)
  qed
  have size: "text_at (jinner fs @ 0 # replicate (16 - length (jinner fs)) 0) 0 = Some (nat_text n)" "atoi (nat_text n) = Some (int n)" "uint32 (int n) = n"
    using text_at_terminated [OF nat_text_nonzero] atoi_nat_text [of n "[]"] assms(13,14) by simp_all
  have ne: "chars ''update_firmware'' \<noteq> chars ''report_version_rsp''" by (simp add: chars_def)
  have p: "qcloud_otalib_get_params E ?j (ota_params_of (set_ota_world w1 s)) w1
      = Some (0, \<lparr>par_type = Some (chars ''update_firmware''), par_url = Some (jinner url), par_version = Some (jinner ver),
          par_md5 = overlay (ota_md5sum s) 0 (jinner md), par_file_size = n\<rparr>, w6)"
    using w2 w3 w4 w5 w6 wr size
    by (simp add: qcloud_otalib_get_params_def ota_params_of_def set_ota_world_def OTA_FILESIZE_STR_LEN_def ov del: jtext.simps replicate.simps)
  have st: "\<not> state_code (ota_state s) \<ge> state_code IOT_OTAS_FETCHING" using assms(15) by (simp add: state_code_def)
  show ?thesis
    using st assms(4) w1 ne p
    by (intro exI [of _ w6]) (simp add: ota_callback_def assms(3) qcloud_otalib_get_firmware_type_def set_ota_world_def del: jtext.simps)
qed

text \<open>C39: the callback takes the payload for a C string: when no zero byte follows the message in the read buffer, it
  reads on behind the buffer, where the next bytes are not its own.\<close>

theorem ota_message_unterminated:
  assumes "\<forall>w. fst (hal_malloc E w)" and "0 \<notin> set (msg_payload msg)" and "pv_payload_len (msg_view msg) \<noteq> 0"
    and "ota_state s = IOT_OTAS_INITED"
  shows "ota_callback E msg s = None"
proof -
  obtain w1 where w1: "hal_malloc E (world (ota_mqtt s)) = (True, w1)" using assms(1) by (metis prod.collapse)
  have "otalib_value E (msg_payload msg) ''type'' (world (ota_mqtt s)) = None"
    using w1 strlen_unterminated [OF assms(2)] by (simp add: otalib_value_def)
  then show ?thesis
    using assms(3,4) by (simp add: ota_callback_def qcloud_otalib_get_firmware_type_def qcloud_otalib_get_firmware_varlen_para_def state_code_def)
qed

section \<open>An example\<close>

definition sample_ota :: "IOT_OTA_State_Code \<Rightarrow> buffer \<Rightarrow> feed ota" where
  "sample_ota st md = \<lparr>ota_mqtt = mqtt_init_state feed_hal 5000 False (replicate 50 0, 0) (0, [], []), ota_product_id = [], ota_device_name = [],
     ota_state = st, size_last_fetched = 0, size_fetched = 0, size_file = 2, ota_purl = None, ota_version = Some [0x31],
     ota_md5sum = md, ota_md5 = utils_md5_starts utils_md5_init,
     ota_ch_fetch = fst (ofc_Init feed_hal None 0 2 (0, [], [])), ota_err = 0, report_timer = 0\<rparr>"

lemma sample_fetch:
  "\<exists>s'. IOT_OTA_FetchYield feed_hal feed_platform (replicate 4 0) 4 1 (sample_ota IOT_OTAS_FETCHING md) = Some (-8, replicate 4 0, s')
    \<and> ota_state s' = IOT_OTAS_FETCHED \<and> ota_md5sum s' = md"
  by (simp add: IOT_OTA_FetchYield_def sample_ota_def ofc_Init_def feed_hal_def qcloud_ofc_fetch_def qcloud_http_recv_data_def http_client_recv_response_def
    countdown_ms_def left_ms_def qcloud_http_client_close_def int32_def signed_def set_ota_world_def mqtt_init_state_def get_random_start_packet_id_def
    fetch_failed_def IOT_OTA_ReportUpgradeResult_def on_ota_def OTA_VERSION_STR_LEN_MIN_def OTA_VERSION_STR_LEN_MAX_def qcloud_otalib_gen_report_msg_def
    report_text_def report_code_def int_text_def nat_text.simps MSG_REPORT_LEN_def qcloud_osc_report_upgrade_result_def otamqtt_publish_def
    otamqtt_gen_topic_name_def OTA_MAX_TOPIC_LEN_def IOT_MQTT_Publish_def qcloud_iot_mqtt_publish_def MAX_SIZE_OF_CLOUD_TOPIC_def
    get_client_conn_state_def qos_defs)

definition sample_update :: "(jkey \<times> jval) list" where
  "sample_update = [((0, chars ''type'', 0), JStr (chars ''update_firmware'')), ((0, chars ''version'', 0), JStr [0x32]),
     ((0, chars ''url'', 0), JStr [0x75]), ((0, chars ''md5sum'', 0), JStr [0x61]), ((0, chars ''file_size'', 0), JNum [0x37])]"

lemma sample_update_facts:
  "jwf (JObj sample_update)" "jget (chars ''type'') (JObj sample_update) = Some (JStr (chars ''update_firmware''))"
  "jget (chars ''version'') (JObj sample_update) = Some (JStr [0x32])" "jget (chars ''url'') (JObj sample_update) = Some (JStr [0x75])"
  "jget (chars ''md5sum'') (JObj sample_update) = Some (JStr [0x61])" "jget (chars ''file_size'') (JObj sample_update) = Some (JNum [0x37])"
  by (simp_all add: sample_update_def chars_def mkey_def plain_char_def number_text_def is_digit_def jget_def visible_def)

definition sample_message :: "buffer \<Rightarrow> MQTTMessage" where
  "sample_message b = \<lparr>msg_view = \<lparr>pv_dup = 0, pv_qos = 0, pv_retained = 0, pv_packet_id = None, pv_topic = 0, pv_topic_len = 1,
     pv_payload = 0, pv_payload_len = 3\<rparr>, msg_ptopic = [0x74, 0], msg_topic_len = 1, msg_payload = b\<rparr>"

lemma feed_malloc: "\<forall>w. fst (hal_malloc feed_hal w)"
  by (simp add: feed_hal_def)

theorem ota_update_message_witness:
  "\<exists>w. ota_callback feed_hal (sample_message (jtext (JObj sample_update) @ 0 # [9])) (sample_ota IOT_OTAS_INITED (replicate 33 0))
    = Some ((set_ota_world w (sample_ota IOT_OTAS_INITED (replicate 33 0)))\<lparr>ota_state := IOT_OTAS_FETCHING, ota_purl := Some [0x75],
        ota_version := Some [0x32], ota_md5sum := 0x61 # replicate 32 0, size_file := 7\<rparr>)"
proof -
  let ?s = "sample_ota IOT_OTAS_INITED (replicate 33 0)"
  have f: "ota_state ?s = IOT_OTAS_INITED" "ota_md5sum ?s = replicate 33 0" by (simp_all add: sample_ota_def)
  have m: "msg_payload (sample_message b) = b" "pv_payload_len (msg_view (sample_message b)) \<noteq> 0" for b by (simp_all add: sample_message_def)
  have n: "jtext (JNum [0x37]) = nat_text 7" by (simp add: nat_text.simps)
  have o: "overlay (replicate 33 0) 0 [0x61] = 0x61 # replicate 32 (0 :: u8)" by (simp add: overlay_def numeral_eq_Suc)
  show ?thesis
    using ota_update_message [OF feed_malloc sample_update_facts(1) m(1) m(2) sample_update_facts(2) _ sample_update_facts(3-5) _ _ sample_update_facts(6) _ _ f(1),
        where n = 7 and z = "[9]"] n
    by (simp add: f(2) o del: jtext.simps)
qed

theorem ota_message_unterminated_witness:
  "ota_callback feed_hal (sample_message [0x7b, 0x7d, 0x20]) (sample_ota IOT_OTAS_INITED []) = None"
  by (rule ota_message_unterminated) (simp_all add: sample_message_def sample_ota_def feed_hal_def)

theorem ota_moves_forward_witness:
  "state_code IOT_OTAS_FETCHED \<le> state_code (ota_state (snd (IOT_OTA_IsFetching (sample_ota IOT_OTAS_FETCHED []))))
    \<and> \<not> fst (IOT_OTA_IsFetching (snd (IOT_OTA_IsFetching (sample_ota IOT_OTAS_FETCHED []))))"
proof -
  let ?s = "sample_ota IOT_OTAS_FETCHED []"
  have "(ota_step feed_hal feed_platform [])\<^sup>*\<^sup>* ?s (snd (IOT_OTA_IsFetching ?s))"
    by (intro r_into_rtranclp ota_step.is_fetching [where b = "fst (IOT_OTA_IsFetching ?s)"]) simp
  from ota_moves_forward [OF this] show ?thesis by (simp add: sample_ota_def)
qed

theorem ota_firmware_checked_witness:
  "\<exists>s' s''. download feed_hal feed_platform [] (sample_ota IOT_OTAS_FETCHING (hex (MD5 []) @ 0 # [])) [] s' \<and> size_fetched s' = 0
    \<and> IOT_OTA_Ioctl feed_hal IOT_OTAG_CHECK_FIRMWARE [1, 2, 3, 4] 4 True s' = Some (0, le_bytes 4 1, s'')"
proof -
  let ?s = "sample_ota IOT_OTAS_FETCHING (hex (MD5 []) @ 0 # [])"
  obtain s' where s': "IOT_OTA_FetchYield feed_hal feed_platform (replicate 4 0) 4 1 ?s = Some (-8, replicate 4 0, s')"
    "ota_state s' = IOT_OTAS_FETCHED" "ota_md5sum s' = hex (MD5 []) @ 0 # []"
    using sample_fetch by blast
  have d: "download feed_hal feed_platform [] ?s [] s'" by (rule download.failed [OF download.none s'(1)]) simp
  have m: "md5_of [] (ota_md5 ?s)" "size_fetched ?s = 0"
    by (simp_all add: sample_ota_def md5_of_def md_rep_start utils_md5_starts_def utils_md5_init_def md5_H0_def)
  show ?thesis
    using d ota_firmware_checked [OF d m s'(2,3) hex_nonzero, of "[1, 2, 3, 4]"] by auto
qed

end
