(* ===== verification/Spec2Isabelle.thy ===== *)
theory Spec2Isabelle
  imports Mqtt_Session Ring_Buffer Linked_List Hash_Hmac Base64 Coap_Request Json_Safety Shadow_Session Aes_Correct
    System_Mqtt Ota_Session
begin

text \<open>
  A verification library for the Qcloud IoT device SDK in \<^verbatim>\<open>src/qcloud_iot_c_sdk\<close>.

  The program. An application builds a client object and then calls publish, subscribe, unsubscribe
  and, in a loop, yield. The client turns calls into MQTT packets in its write buffer, sends them
  through a network interface, keeps requests that wait for an acknowledgement in two lists, reads
  packets into its read buffer, and hands messages and results to callbacks of the application.

  The theories and the code:

  \<^item> \<open>Qc_Prelude\<close>: bytes, words, bounded memory (\<open>mem_read\<close>, \<open>mem_write\<close>, \<open>mem_slice\<close>, \<open>overlay\<close>)
    and the error codes of \<^verbatim>\<open>qcloud_iot_export_error.h\<close>.
  \<^item> \<open>Ring_Buffer\<close> (\<^verbatim>\<open>utils_ringbuff.c\<close>) and \<open>Linked_List\<close> (\<^verbatim>\<open>utils_list.c\<close>): both refine a
    queue or sequence over any history of calls.
  \<^item> \<open>Mqtt_Codec\<close>, \<open>Mqtt_Packet\<close>: the fields and packets of MQTT, from \<^verbatim>\<open>mqtt_client_common.c\<close>,
    \<^verbatim>\<open>mqtt_client_publish.c\<close>, \<^verbatim>\<open>mqtt_client_subscribe.c\<close>, \<^verbatim>\<open>mqtt_client_unsubscribe.c\<close> and
    \<^verbatim>\<open>mqtt_client_connect.c\<close>: round trips, exact lengths, reads inside the packet.
  \<^item> \<open>Mqtt_Topic\<close>: the topic filter matcher \<^verbatim>\<open>_is_topic_matched\<close> against the level rules of MQTT.
  \<^item> \<open>Hal_Timer\<close>: the count-down timers of \<^verbatim>\<open>platform/HAL_Timer_freertos.c\<close> on a 32-bit clock.
  \<^item> \<open>Mqtt_Client\<close>: the client's state (\<^verbatim>\<open>Qcloud_IoT_Client\<close> as the record \<open>client\<close>), sending and
    receiving, the packet handlers and their dispatch; \<open>Mqtt_Api\<close>: connect, publish, subscribe,
    unsubscribe, the walks over the wait lists, keep-alive, reconnection and yield.
  \<^item> \<open>Mqtt_Invariant\<close>: a locale for properties kept by every operation, its interpretations, and the
    state invariant over all reachable states.
  \<^item> \<open>Qc_Words\<close>, \<open>Hash_Stream\<close>, \<open>Hash_Sha1\<close>, \<open>Hash_Md5\<close>, \<open>Hash_Hmac\<close>: the hashes and keyed hashes of
    \<^verbatim>\<open>utils_sha1.c\<close>, \<^verbatim>\<open>utils_md5.c\<close>, \<^verbatim>\<open>utils_hmac.c\<close> against their standards; \<open>Base64\<close>:
    \<^verbatim>\<open>utils_base64.c\<close>.
  \<^item> \<open>Mqtt_Construct\<close>: the constructor of the client with its allocations and error code; \<open>Device_Info\<close>: the
    identity in \<^verbatim>\<open>qcloud_iot_device.c\<close>.
  \<^item> \<open>Mqtt_Wire\<close>: what goes over the network; \<open>Mqtt_Session\<close>: what the operations do to the session.
  \<^item> \<open>Coap_Codec\<close>: messages, serialiser and deserialiser of \<^verbatim>\<open>coap_client_serialize.c\<close>,
    \<^verbatim>\<open>coap_client_deserialize.c\<close> and \<^verbatim>\<open>coap_client_common.c\<close>; \<open>Coap_Client\<close>: the client with its wait list
    (\<^verbatim>\<open>coap_client_message.c\<close>, \<^verbatim>\<open>coap_client_auth.c\<close>, \<^verbatim>\<open>coap_client.c\<close>); \<open>Coap_Session\<close> and \<open>Coap_Request\<close>: its
    invariant, the abstract outcomes of a request, progress, sending and matching of responses.
  \<^item> \<open>Text_Format\<close>: what the code uses of \<open>printf\<close> and \<open>scanf\<close>; \<open>String_Utils\<close>: \<^verbatim>\<open>string_utils.c\<close>;
    \<open>Json_Parser\<close> and \<open>Json_Token\<close>: the scanner and the readers of \<^verbatim>\<open>json_parser.c\<close> and \<^verbatim>\<open>json_token.c\<close>, on blocks
    with pointers into them; \<open>Json_Spec\<close>: well-formed documents and the value at a path; \<open>Json_Safety\<close>: the reader
    returns, stays inside and finds that value.
  \<^item> \<open>Shadow_Json\<close>: the documents of the device shadow (\<^verbatim>\<open>shadow_client_json.c\<close> and the builders of
    \<^verbatim>\<open>shadow_client.c\<close>); \<open>Shadow_Report\<close>: what is built is read back, and the builders stay in the buffer;
    \<open>Shadow_Client\<close>: requests, properties and the interface (\<^verbatim>\<open>shadow_client_manager.c\<close>, \<^verbatim>\<open>shadow_client_common.c\<close>,
    \<^verbatim>\<open>shadow_client.c\<close>); \<open>Shadow_Invariant\<close> and \<open>Shadow_Session\<close>: the invariant over all histories, answers, requests
    and timeouts.
  \<^item> \<open>Aes_Tables\<close>, \<open>Aes_Cipher\<close>: \<^verbatim>\<open>utils_aes.c\<close>, with its generated and its constant tables; \<open>Aes_Spec\<close>: the cipher of
    FIPS 197; \<open>Aes_Correct\<close>: the code is that cipher, and CBC undoes itself.
  \<^item> \<open>System_Mqtt\<close>: the time of the cloud (\<^verbatim>\<open>system_mqtt.c\<close>); \<open>Network\<close>: \<^verbatim>\<open>network_interface.c\<close> with the TCP and TLS
    functions of the platform as a parameter.
  \<^item> \<open>Http_Client\<close>: \<^verbatim>\<open>utils_httpc.c\<close>; \<open>Http_Content\<close>: the content of known length arrives byte by byte, over any
    network that records what has been read.
  \<^item> \<open>Ota_Lib\<close>, \<open>Ota_Client\<close>: the firmware update (\<^verbatim>\<open>ota_lib.c\<close>, \<^verbatim>\<open>ota_fetch.c\<close>, \<^verbatim>\<open>ota_mqtt.c\<close>,
    \<^verbatim>\<open>ota_client.c\<close>); \<open>Ota_Session\<close>: its state moves forward, and the sum that is checked is that of the bytes
    handed to the application.

  How state and memory are modelled. A block of memory is a list of bytes, and a pointer is an offset in it;
  reading or writing outside, a null pointer that is used and the end of a string that is not found are
  \<open>None\<close>. Sizes are natural numbers taken modulo \<open>2 ^ 32\<close> where the code computes with \<open>size_t\<close>, and words where it
  works bitwise. Error codes are values. The platform (clock, memory, random numbers, network) is the record
  \<open>hal\<close> of functions on a world, about which a theorem assumes only what it says. Callbacks are recorded in a trace.

  Loops. Loops over data are structural or have a measure. The loops that depend on the network or the clock are
  \<open>partial_function (option)\<close>, where a loop that does not end is \<open>None\<close>; the theorems on them state that they
  return. The waiting loops with a counter in the code (three tries to subscribe, twenty waits for the time) run on
  that counter.

  Not modelled, and why. The code runs here for one thread, so mutexes appear only as the allocations of the
  constructors. Callbacks do not call back into the client. Logging, the upload of logs and the freeing of strings
  have no effect on the state that is modelled. The builds without TLS, with certificates of the device and with the
  AT modem are other configurations of the same files. The platform files only call FreeRTOS, lwIP and mbedTLS;
  certificates are constants, the option parser belongs to the samples, and the AES self test is not compiled. The
  example application drives one board.
\<close>

end
